(* ===== verification/Go_Base.thy ===== *)
theory Go_Base
  imports Main "HOL-Library.Word" "HOL-Library.AList" "HOL-Library.List_Lexorder"
    "HOL-Library.Char_ord"
begin

text \<open>
  The part of Go and of its standard library that the collector's source uses, as HOL
  functions. Nothing here models a file of the repository; it is the ground every other
  theory stands on.

  \<^item> A Go \<open>string\<close> is a sequence of bytes: \<open>string\<close> (a list of 8-bit characters).
  \<^item> \<open>int64\<close>, \<open>int\<close> and \<open>time.Duration\<close> are 64-bit words, so \<open>+\<close> wraps; \<open>sint\<close> reads
    them as signed.
  \<^item> \<open>float64\<close> is IEEE-754 binary64, a finite value written as the integer number of
    units of \<open>2\<^sup>-\<^sup>1\<^sup>0\<^sup>7\<^sup>4\<close> it is.
  \<^item> \<open>any\<close> is what \<open>encoding/json\<close> decodes into an \<open>interface{}\<close>, plus the integer
    types the normalizer makes itself.
  \<^item> \<open>strings\<close>, \<open>utf8\<close> and \<open>strconv\<close>: the functions the source calls, with the
    Unicode rules they follow. Letter case is resolved for the runes that have an ASCII
    counterpart; the source compares lowered strings with ASCII literals only, so the
    case of the other letters is never observed.
\<close>

named_theorems go_simps "unfolding rules for the Go helpers"

subsection \<open>Integers\<close>

type_synonym int64 = "64 word"

definition i64 :: "int \<Rightarrow> int64" where
  "i64 n = word_of_int n"

definition i64_in_range :: "int \<Rightarrow> bool" where
  "i64_in_range n \<longleftrightarrow> - (2 ^ 63) \<le> n \<and> n < 2 ^ 63"

text \<open>Go's integer quotient rounds towards zero: the quotient of the magnitudes, with a sign.\<close>

definition go_quot :: "int \<Rightarrow> int \<Rightarrow> int" where
  "go_quot a b = (let q = \<bar>a\<bar> div \<bar>b\<bar> in if (a < 0) = (b < 0) then q else - q)"

lemma sint_i64 [simp]: "i64_in_range n \<Longrightarrow> sint (i64 n) = n"
  by (simp add: i64_in_range_def i64_def sint_sbintrunc' signed_take_bit_int_eq_self)

lemma i64_0 [simp]: "i64 0 = 0" and i64_1 [simp]: "i64 1 = 1"
  by (simp_all add: i64_def)

lemma i64_add: "i64 (a + b) = i64 a + i64 b"
  by (simp add: i64_def)

subsection \<open>Optional pointers\<close>

text \<open>A Go pointer field is an \<open>option\<close>; reading one with a zero default is \<open>or_zero\<close>.\<close>

definition or_zero :: "('a :: zero) option \<Rightarrow> 'a" where
  "or_zero p = (case p of None \<Rightarrow> 0 | Some v \<Rightarrow> v)"

lemma or_zero_simps [simp]: "or_zero None = 0" "or_zero (Some v) = v"
  by (simp_all add: or_zero_def)

subsection \<open>Prefixes of sorted lists\<close>

lemma sorted_wrt_take_drop:
  assumes "sorted_wrt R xs"
  shows "sorted_wrt R (take n xs)"
    and take_drop_order: "\<And>x y. x \<in> set (take n xs) \<Longrightarrow> y \<in> set (drop n xs) \<Longrightarrow> R x y"
proof -
  have "sorted_wrt R (take n xs @ drop n xs)" using assms by simp
  then show "sorted_wrt R (take n xs)"
    "\<And>x y. x \<in> set (take n xs) \<Longrightarrow> y \<in> set (drop n xs) \<Longrightarrow> R x y"
    unfolding sorted_wrt_append by blast+
qed

lemma set_take_or_drop: "x \<in> set xs \<Longrightarrow> x \<in> set (take n xs) \<or> x \<in> set (drop n xs)"
  by (metis Un_iff append_take_drop_id set_append)

lemma in_set_drop_length: "x \<in> set (drop n xs) \<Longrightarrow> length (take n xs) = n"
  by (cases "n \<le> length xs") auto

subsection \<open>Bytes, runes and UTF-8\<close>

definition byte :: "char \<Rightarrow> nat" where
  "byte c = of_char c"

definition cont_byte :: "char \<Rightarrow> bool" where
  "cont_byte c \<longleftrightarrow> 128 \<le> byte c \<and> byte c \<le> 191"

definition rune_error :: nat where
  "rune_error = 65533"

text \<open>The range of the second byte, from the first: overlong forms, surrogates and code
  points above \<open>10FFFF\<close> are invalid.\<close>

definition second_ok :: "nat \<Rightarrow> char \<Rightarrow> bool" where
  "second_ok b0 c =
     (if b0 = 224 then 160 \<le> byte c \<and> byte c \<le> 191
      else if b0 = 237 then 128 \<le> byte c \<and> byte c \<le> 159
      else if b0 = 240 then 144 \<le> byte c \<and> byte c \<le> 191
      else if b0 = 244 then 128 \<le> byte c \<and> byte c \<le> 143
      else cont_byte c)"

text \<open>\<open>utf8.DecodeRuneInString\<close>: the rune and its width; an invalid byte is
  \<open>RuneError\<close> of width 1.\<close>

fun decode_rune :: "string \<Rightarrow> nat \<times> nat" where
  "decode_rune [] = (rune_error, 0)"
| "decode_rune (c # s) =
     (let b0 = byte c; bad = (rune_error, 1) in
      if b0 < 128 then (b0, 1)
      else if 194 \<le> b0 \<and> b0 \<le> 223 then
        (case s of
           c1 # _ \<Rightarrow> if cont_byte c1 then ((b0 - 192) * 64 + (byte c1 - 128), 2) else bad
         | [] \<Rightarrow> bad)
      else if 224 \<le> b0 \<and> b0 \<le> 239 then
        (case s of
           c1 # c2 # _ \<Rightarrow>
             if second_ok b0 c1 \<and> cont_byte c2
             then ((b0 - 224) * 4096 + (byte c1 - 128) * 64 + (byte c2 - 128), 3) else bad
         | _ \<Rightarrow> bad)
      else if 240 \<le> b0 \<and> b0 \<le> 244 then
        (case s of
           c1 # c2 # c3 # _ \<Rightarrow>
             if second_ok b0 c1 \<and> cont_byte c2 \<and> cont_byte c3
             then ((b0 - 240) * 262144 + (byte c1 - 128) * 4096
                   + (byte c2 - 128) * 64 + (byte c3 - 128), 4) else bad
         | _ \<Rightarrow> bad)
      else bad)"

lemma decode_rune_width:
  "s \<noteq> [] \<Longrightarrow> 1 \<le> snd (decode_rune s) \<and> snd (decode_rune s) \<le> 4"
  by (cases s) (auto simp: Let_def split: list.splits)

lemma decode_rune_width_le: "snd (decode_rune s) \<le> length s"
  by (cases s) (auto simp: Let_def split: list.splits)

text \<open>A string as Go's \<open>range\<close> loop sees it: each rune with the bytes it came from.\<close>

function rune_chunks :: "string \<Rightarrow> (nat \<times> string) list" where
  "rune_chunks s =
     (if s = [] then []
      else (let (r, w) = decode_rune s in (r, take w s) # rune_chunks (drop w s)))"
  by pat_completeness auto
termination
proof (relation "measure length")
  fix s :: string and x r w
  assume "s \<noteq> []" "x = decode_rune s" "(r, w) = x"
  then show "(drop w s, s) \<in> measure length"
    using decode_rune_width [of s] by (cases s) (auto dest: sym)
qed simp

declare rune_chunks.simps [simp del]

lemma rune_chunks_Nil [simp]: "rune_chunks [] = []"
  by (simp add: rune_chunks.simps)

lemma rune_chunks_step:
  "s \<noteq> [] \<Longrightarrow> rune_chunks s =
     (fst (decode_rune s), take (snd (decode_rune s)) s)
       # rune_chunks (drop (snd (decode_rune s)) s)"
  by (subst rune_chunks.simps) (simp add: case_prod_beta Let_def)

lemma rune_chunks_ascii:
  "byte c < 128 \<Longrightarrow> rune_chunks (c # s) = (byte c, [c]) # rune_chunks s"
  using rune_chunks_step [of "c # s"] by simp

definition chunk_bytes :: "(nat \<times> string) list \<Rightarrow> string" where
  "chunk_bytes cs = concat (map snd cs)"

lemma chunk_bytes_simps [simp]:
  "chunk_bytes [] = []" "chunk_bytes (c # cs) = snd c @ chunk_bytes cs"
  "chunk_bytes (cs @ ds) = chunk_bytes cs @ chunk_bytes ds"
  by (simp_all add: chunk_bytes_def)

lemma chunk_bytes_rune_chunks [simp]: "chunk_bytes (rune_chunks s) = s"
proof (induction s rule: rune_chunks.induct)
  case (1 s)
  show ?case
  proof (cases "s = []")
    case False
    with 1 show ?thesis
      by (cases "decode_rune s") (simp add: rune_chunks_step)
  qed simp
qed

text \<open>\<open>utf8.ValidString\<close>.\<close>

definition bad_chunk :: "nat \<times> string \<Rightarrow> bool" where
  "bad_chunk c \<longleftrightarrow> fst c = rune_error \<and> length (snd c) = 1"

definition valid_utf8 :: "string \<Rightarrow> bool" where
  "valid_utf8 s \<longleftrightarrow> list_all (\<lambda>c. \<not> bad_chunk c) (rune_chunks s)"

lemma valid_utf8_Nil [simp]: "valid_utf8 []"
  by (simp add: valid_utf8_def)

text \<open>A rune that decodes is read from its own bytes only, so a valid string stays valid when
  it is cut between two runes.\<close>

lemma decode_rune_local:
  assumes "s \<noteq> []" "decode_rune s = (r, w)" "\<not> bad_chunk (r, take w s)"
  shows "decode_rune (take w s @ t) = (r, w)"
  using assms
  by (cases s) (auto simp: Let_def bad_chunk_def rune_error_def split: list.splits if_splits)

lemma valid_utf8_step:
  assumes "s \<noteq> []" "decode_rune s = (r, w)"
  shows "valid_utf8 s \<longleftrightarrow> \<not> bad_chunk (r, take w s) \<and> valid_utf8 (drop w s)"
  using assms by (simp add: valid_utf8_def rune_chunks_step)

lemma valid_utf8_cons_chunk:
  assumes "s \<noteq> []" "decode_rune s = (r, w)" "\<not> bad_chunk (r, take w s)" "valid_utf8 t"
  shows "valid_utf8 (take w s @ t)"
proof -
  have w: "1 \<le> w" "w \<le> length s"
    using decode_rune_width [OF assms(1)] decode_rune_width_le [of s] assms(2) by simp_all
  then have ne: "take w s @ t \<noteq> []" using assms(1) by auto
  have d: "decode_rune (take w s @ t) = (r, w)" by (rule decode_rune_local [OF assms(1-3)])
  have e: "take w (take w s @ t) = take w s" "drop w (take w s @ t) = t" using w(2) by simp_all
  show ?thesis unfolding valid_utf8_step [OF ne d] e using assms(3,4) by blast
qed

text \<open>Every position of a valid string has a rune boundary at most three bytes before it.\<close>

lemma valid_prefix_near:
  "valid_utf8 s \<Longrightarrow> n \<le> length s \<Longrightarrow>
     \<exists>p q. s = p @ q \<and> valid_utf8 p \<and> length p \<le> n \<and> n \<le> length p + 3"
proof (induction s arbitrary: n rule: rune_chunks.induct)
  case (1 s)
  show ?case
  proof (cases "s = []")
    case True
    with 1 show ?thesis by simp
  next
    case False
    obtain r w where d: "decode_rune s = (r, w)" by fastforce
    have w: "1 \<le> w" "w \<le> 4" "w \<le> length s"
      using decode_rune_width [OF False] decode_rune_width_le [of s] d by simp_all
    have v: "\<not> bad_chunk (r, take w s)" "valid_utf8 (drop w s)"
      using valid_utf8_step [OF False d] "1.prems"(1) by simp_all
    show ?thesis
    proof (cases "n < w")
      case True
      with w(2) show ?thesis by (intro exI [of _ "[]"] exI [of _ s]) simp
    next
      case n: False
      have "\<exists>p q. drop w s = p @ q \<and> valid_utf8 p \<and> length p \<le> n - w \<and> n - w \<le> length p + 3"
        using "1.IH" [OF False d [symmetric] refl v(2), of "n - w"] "1.prems"(2) n by simp
      then obtain p q where pq: "drop w s = p @ q" "valid_utf8 p" "length p \<le> n - w"
        "n - w \<le> length p + 3" by blast
      have "s = (take w s @ p) @ q" using pq(1) by (metis append.assoc append_take_drop_id)
      moreover have "valid_utf8 (take w s @ p)"
        by (rule valid_utf8_cons_chunk [OF False d v(1) pq(2)])
      moreover have "length (take w s @ p) \<le> n" "n \<le> length (take w s @ p) + 3"
        using pq(3,4) n w(3) by simp_all
      ultimately show ?thesis by blast
    qed
  qed
qed

end
