(* ===== verification/Go_Strings.thy ===== *)
theory Go_Strings
  imports Go_Base
begin

text \<open>
  \<open>strings\<close>, \<open>unicode\<close> and \<open>strconv.ParseInt\<close> on byte strings. \<open>TrimSpace\<close> and
  \<open>Fields\<close> split on \<open>unicode.IsSpace\<close>; \<open>Contains\<close>, \<open>HasPrefix\<close>, \<open>Cut\<close> and \<open>SplitN(s, sep, 2)\<close>
  work on bytes.
\<close>

subsection \<open>Prefixes and substrings\<close>

definition has_prefix :: "string \<Rightarrow> string \<Rightarrow> bool" where
  "has_prefix s p \<longleftrightarrow> take (length p) s = p"

definition trim_prefix :: "string \<Rightarrow> string \<Rightarrow> string" where
  "trim_prefix s p = (if has_prefix s p then drop (length p) s else s)"

definition has_suffix :: "string \<Rightarrow> string \<Rightarrow> bool" where
  "has_suffix s p \<longleftrightarrow> has_prefix (rev s) (rev p)"

definition trim_suffix :: "string \<Rightarrow> string \<Rightarrow> string" where
  "trim_suffix s p = (if has_suffix s p then take (length s - length p) s else s)"

fun contains :: "string \<Rightarrow> string \<Rightarrow> bool" where
  "contains [] sub = (sub = [])"
| "contains (c # s) sub = (has_prefix (c # s) sub \<or> contains s sub)"

text \<open>\<open>strings.ContainsAny\<close> for a set of ASCII characters.\<close>

definition contains_any :: "string \<Rightarrow> string \<Rightarrow> bool" where
  "contains_any s cs \<longleftrightarrow> list_ex (\<lambda>c. c \<in> set cs) s"

text \<open>\<open>strings.Cut\<close> at the first occurrence of a non-empty separator.\<close>

fun cut :: "string \<Rightarrow> string \<Rightarrow> (string \<times> string) option" where
  "cut sep [] = None"
| "cut sep (c # s) =
     (if has_prefix (c # s) sep then Some ([], drop (length sep) (c # s))
      else map_option (\<lambda>(a, b). (c # a, b)) (cut sep s))"

fun join :: "string \<Rightarrow> string list \<Rightarrow> string" where
  "join sep [] = []"
| "join sep [x] = x"
| "join sep (x # y # r) = x @ sep @ join sep (y # r)"

text \<open>\<open>strings.TrimRight(s, "c")\<close> for one character.\<close>

definition trim_right :: "string \<Rightarrow> char \<Rightarrow> string" where
  "trim_right s c = rev (dropWhile (\<lambda>x. x = c) (rev s))"

lemma has_prefix_append [simp]: "has_prefix (p @ s) p"
  by (simp add: has_prefix_def)

lemma has_prefix_iff: "has_prefix s p \<longleftrightarrow> (\<exists>r. s = p @ r)"
  unfolding has_prefix_def by (metis append_take_drop_id append_eq_conv_conj)

lemma trim_prefix_append [simp]: "trim_prefix (p @ s) p = s"
  by (simp add: trim_prefix_def)

lemma contains_iff: "contains s sub \<longleftrightarrow> (\<exists>a b. s = a @ sub @ b)"
proof (induction s)
  case (Cons c s)
  show ?case
  proof
    assume "contains (c # s) sub"
    then consider "has_prefix (c # s) sub" | "contains s sub" by auto
    then show "\<exists>a b. c # s = a @ sub @ b"
    proof cases
      case 1
      then show ?thesis unfolding has_prefix_iff by (metis append_Nil)
    next
      case 2
      then show ?thesis using Cons by (metis append_Cons)
    qed
  next
    assume "\<exists>a b. c # s = a @ sub @ b"
    then obtain a b where eq: "c # s = a @ sub @ b" by blast
    show "contains (c # s) sub"
    proof (cases a)
      case Nil
      with eq have "has_prefix (c # s) sub" by (simp add: has_prefix_iff)
      then show ?thesis by simp
    next
      case (Cons x a')
      with eq have "s = a' @ sub @ b" by simp
      with Cons.IH show ?thesis by auto
    qed
  qed
qed auto

lemma contains_append_left: "contains s sub \<Longrightarrow> contains (a @ s) sub"
  unfolding contains_iff by (metis append.assoc)

lemma contains_any_append [simp]:
  "contains_any (a @ b) cs \<longleftrightarrow> contains_any a cs \<or> contains_any b cs"
  by (simp add: contains_any_def)

subsection \<open>Spaces and control characters\<close>

definition is_space :: "nat \<Rightarrow> bool" where
  "is_space r \<longleftrightarrow>
     (9 \<le> r \<and> r \<le> 13) \<or> r = 32 \<or> r = 133 \<or> r = 160 \<or> r = 5760
     \<or> (8192 \<le> r \<and> r \<le> 8202) \<or> r = 8232 \<or> r = 8233 \<or> r = 8239 \<or> r = 8287 \<or> r = 12288"

definition is_control :: "nat \<Rightarrow> bool" where
  "is_control r \<longleftrightarrow> r \<le> 31 \<or> (127 \<le> r \<and> r \<le> 159)"

abbreviation space_chunk :: "nat \<times> string \<Rightarrow> bool" where
  "space_chunk c \<equiv> is_space (fst c)"

text \<open>\<open>strings.TrimSpace\<close>.\<close>

definition trim_space :: "string \<Rightarrow> string" where
  "trim_space s =
     chunk_bytes (rev (dropWhile space_chunk (rev (dropWhile space_chunk (rune_chunks s)))))"

fun split_by :: "('a \<Rightarrow> bool) \<Rightarrow> 'a list \<Rightarrow> 'a list list" where
  "split_by P [] = [[]]"
| "split_by P (x # xs) =
     (if P x then [] # split_by P xs
      else (case split_by P xs of [] \<Rightarrow> [[x]] | y # ys \<Rightarrow> (x # y) # ys))"

text \<open>\<open>strings.Fields\<close>: the maximal runs of non-space runes.\<close>

definition fields :: "string \<Rightarrow> string list" where
  "fields s = map chunk_bytes (filter (\<lambda>f. f \<noteq> []) (split_by space_chunk (rune_chunks s)))"

text \<open>\<open>strings.Join(strings.Fields(s), " ")\<close>, the whitespace collapse of the source.\<close>

definition collapse_space :: "string \<Rightarrow> string" where
  "collapse_space s = join '' '' (fields s)"

subsection \<open>Letter case\<close>

definition lower_char :: "char \<Rightarrow> char" where
  "lower_char c = (if 65 \<le> byte c \<and> byte c \<le> 90 then char_of (byte c + 32) else c)"

text \<open>\<open>strings.ToLower\<close>: ASCII letters, and the two non-ASCII runes whose lower case is an
  ASCII letter (\<open>U+0130\<close> and the Kelvin sign \<open>U+212A\<close>).\<close>

definition lower_chunk :: "nat \<times> string \<Rightarrow> string" where
  "lower_chunk c =
     (if fst c = 304 then ''i'' else if fst c = 8490 then ''k'' else map lower_char (snd c))"

definition to_lower :: "string \<Rightarrow> string" where
  "to_lower s = concat (map lower_chunk (rune_chunks s))"

text \<open>\<open>strings.EqualFold\<close> against an ASCII string: simple folding also equates the long s
  \<open>U+017F\<close> and the Kelvin sign with their ASCII letters.\<close>

definition fold_chunk :: "nat \<times> string \<Rightarrow> string" where
  "fold_chunk c =
     (if fst c = 383 then ''s'' else if fst c = 8490 then ''k'' else map lower_char (snd c))"

definition equal_fold :: "string \<Rightarrow> string \<Rightarrow> bool" where
  "equal_fold s t \<longleftrightarrow> map fold_chunk (rune_chunks s) = map fold_chunk (rune_chunks t)"

subsection \<open>\<open>strconv.ParseInt(s, 10, 64)\<close>\<close>

definition is_digit :: "char \<Rightarrow> bool" where
  "is_digit c \<longleftrightarrow> 48 \<le> byte c \<and> byte c \<le> 57"

definition digit_val :: "char \<Rightarrow> nat" where
  "digit_val c = byte c - 48"

definition digits_val :: "string \<Rightarrow> nat" where
  "digits_val s = foldl (\<lambda>n c. n * 10 + digit_val c) 0 s"

definition parse_int :: "string \<Rightarrow> int64 option" where
  "parse_int s =
     (let (neg, ds) = (case s of
            c # r \<Rightarrow> if c = CHR ''-'' then (True, r) else if c = CHR ''+'' then (False, r) else (False, s)
          | [] \<Rightarrow> (False, []));
          n = int (digits_val ds); v = (if neg then - n else n)
      in if ds \<noteq> [] \<and> list_all is_digit ds \<and> i64_in_range v then Some (i64 v) else None)"

text \<open>Evaluating the string functions on ASCII literals.\<close>

lemmas string_eval =
  rune_chunks_ascii byte_def is_space_def is_control_def chunk_bytes_def valid_utf8_def
  bad_chunk_def rune_error_def trim_space_def fields_def collapse_space_def contains_any_def
  has_prefix_def lower_char_def lower_chunk_def to_lower_def Let_def

end
