(* ===== verification/Go_Float.thy ===== *)
theory Go_Float
  imports Go_Strings
begin

text \<open>
  Go's \<open>float64\<close> (IEEE-754 binary64) and \<open>strconv.ParseFloat\<close>. A finite non-zero value is
  an integer number of units of \<open>2\<^sup>-\<^sup>1\<^sup>0\<^sup>7\<^sup>4\<close>, the smallest subnormal; every exact sum of two
  floats and every integer is such a number, so an operation is the exact integer result
  rounded to 53 significant bits, ties to even.
\<close>

datatype float64 = Fin int | Neg_Zero | Pos_Inf | Neg_Inf | NaN

definition float_unit_bits :: nat where
  "float_unit_bits = 1074"

fun bitlen :: "nat \<Rightarrow> nat" where
  "bitlen n = (if n = 0 then 0 else Suc (bitlen (n div 2)))"

declare bitlen.simps [simp del]

text \<open>Round the non-negative rational \<open>p / q\<close>, in units, to 53 bits.\<close>

definition round_ratio :: "nat \<Rightarrow> nat \<Rightarrow> nat" where
  "round_ratio p q =
     (let s = bitlen (p div q) - 53; d = q * 2 ^ s; f = p div d; r = p mod d;
          f' = (if 2 * r > d \<or> 2 * r = d \<and> odd f then f + 1 else f)
      in f' * 2 ^ s)"

definition float_limit :: nat where
  "float_limit = 2 ^ (1024 + 1074)"

definition signed_float :: "bool \<Rightarrow> nat \<Rightarrow> float64" where
  "signed_float neg m =
     (if m \<ge> float_limit then (if neg then Neg_Inf else Pos_Inf)
      else if m = 0 then (if neg then Neg_Zero else Fin 0)
      else Fin (if neg then - int m else int m))"

text \<open>Addition.\<close>

fun float_add :: "float64 \<Rightarrow> float64 \<Rightarrow> float64" where
  "float_add NaN _ = NaN"
| "float_add _ NaN = NaN"
| "float_add Pos_Inf Neg_Inf = NaN"
| "float_add Neg_Inf Pos_Inf = NaN"
| "float_add Pos_Inf _ = Pos_Inf"
| "float_add _ Pos_Inf = Pos_Inf"
| "float_add Neg_Inf _ = Neg_Inf"
| "float_add _ Neg_Inf = Neg_Inf"
| "float_add Neg_Zero y = y"
| "float_add x Neg_Zero = x"
| "float_add (Fin a) (Fin b) =
     (if a + b = 0 then Fin 0
      else signed_float (a + b < 0) (round_ratio (nat \<bar>a + b\<bar>) 1))"

definition float_of_int64 :: "int64 \<Rightarrow> float64" where
  "float_of_int64 w =
     signed_float (sint w < 0) (round_ratio (nat \<bar>sint w\<bar> * 2 ^ float_unit_bits) 1)"

definition float_nonzero :: "float64 \<Rightarrow> bool" where
  "float_nonzero x \<longleftrightarrow> x \<noteq> Fin 0 \<and> x \<noteq> Neg_Zero"

text \<open>What \<open>encoding/json\<close> can write: NaN and the infinities are an encoding error.\<close>

definition float_finite :: "float64 \<Rightarrow> bool" where
  "float_finite x \<longleftrightarrow> x \<noteq> NaN \<and> x \<noteq> Pos_Inf \<and> x \<noteq> Neg_Inf"

lemma float_finite_simps [simp]:
  "float_finite (Fin n)" "float_finite Neg_Zero"
  "\<not> float_finite NaN" "\<not> float_finite Pos_Inf" "\<not> float_finite Neg_Inf"
  by (simp_all add: float_finite_def)

lemma float_add_NaN_right [simp]: "float_add x NaN = NaN"
  by (cases x) simp_all

lemma float_add_not_finite: "\<not> float_finite x \<or> \<not> float_finite y \<Longrightarrow> \<not> float_finite (float_add x y)"
  by (cases x; cases y) auto

text \<open>\<open>int64(f)\<close> truncates towards zero. For a value outside the type's range Go leaves the
  result to the implementation: the function \<open>oob\<close> says what this one gives.\<close>

definition float_to_int64 :: "(float64 \<Rightarrow> int64) \<Rightarrow> float64 \<Rightarrow> int64" where
  "float_to_int64 oob x =
     (case x of
        Fin k \<Rightarrow> (let t = go_quot k (2 ^ float_unit_bits)
                  in if i64_in_range t then i64 t else oob x)
      | Neg_Zero \<Rightarrow> 0
      | _ \<Rightarrow> oob x)"

subsection \<open>\<open>strconv.ParseFloat(s, 64)\<close>\<close>

definition hex_letter :: "char \<Rightarrow> bool" where
  "hex_letter c \<longleftrightarrow> (97 \<le> byte (lower_char c) \<and> byte (lower_char c) \<le> 102)"

definition base_digit :: "bool \<Rightarrow> char \<Rightarrow> bool" where
  "base_digit hex c \<longleftrightarrow> is_digit c \<or> hex \<and> hex_letter c"

definition base_digit_val :: "char \<Rightarrow> nat" where
  "base_digit_val c = (if is_digit c then digit_val c else byte (lower_char c) - 87)"

text \<open>The mantissa: digits with at most one point, underscores skipped. The result is the
  digits read, how many of them follow the point, whether a digit was read, and the rest.\<close>

fun scan_mantissa :: "bool \<Rightarrow> string \<Rightarrow> bool \<Rightarrow> nat \<Rightarrow> nat \<Rightarrow> bool \<Rightarrow> nat \<times> nat \<times> bool \<times> string" where
  "scan_mantissa hex [] dot m frac seen = (m, frac, seen, [])"
| "scan_mantissa hex (c # s) dot m frac seen =
     (if c = CHR ''_'' then scan_mantissa hex s dot m frac seen
      else if c = CHR ''.'' \<and> \<not> dot then scan_mantissa hex s True m frac seen
      else if base_digit hex c
        then scan_mantissa hex s dot (m * (if hex then 16 else 10) + base_digit_val c)
               (if dot then Suc frac else frac) True
      else (m, frac, seen, c # s))"

text \<open>The exponent's digits; beyond 10000 further digits are ignored.\<close>

fun scan_exp :: "string \<Rightarrow> nat \<Rightarrow> nat \<times> string" where
  "scan_exp [] e = (e, [])"
| "scan_exp (c # s) e =
     (if c = CHR ''_'' then scan_exp s e
      else if is_digit c then scan_exp s (if e < 10000 then e * 10 + digit_val c else e)
      else (e, c # s))"

definition scan_signed_exp :: "string \<Rightarrow> (int \<times> string) option" where
  "scan_signed_exp s =
     (let (neg, r) = (case s of
            c # t \<Rightarrow> if c = CHR ''+'' then (False, t) else if c = CHR ''-'' then (True, t) else (False, s)
          | [] \<Rightarrow> (False, []))
      in case r of
           c # _ \<Rightarrow> if is_digit c
                    then (let (e, t) = scan_exp r 0 in Some (if neg then - int e else int e, t))
                    else None
         | [] \<Rightarrow> None)"

text \<open>\<open>underscoreOK\<close>: underscores only between digits, or after a base prefix. The state is
  the kind of the last character seen.\<close>

datatype seen_kind = At_Start | Saw_Digit | Saw_Underscore | Saw_Other

fun underscore_ok :: "bool \<Rightarrow> string \<Rightarrow> seen_kind \<Rightarrow> bool" where
  "underscore_ok hex [] k = (k \<noteq> Saw_Underscore)"
| "underscore_ok hex (c # s) k =
     (if base_digit hex c then underscore_ok hex s Saw_Digit
      else if c = CHR ''_'' then k = Saw_Digit \<and> underscore_ok hex s Saw_Underscore
      else k \<noteq> Saw_Underscore \<and> underscore_ok hex s Saw_Other)"

text \<open>An unsigned literal: mantissa, digits after the point and exponent.\<close>

definition scan_float :: "bool \<Rightarrow> string \<Rightarrow> (nat \<times> nat \<times> int) option" where
  "scan_float hex s =
     (let (m, frac, seen, r) = scan_mantissa hex s False 0 0 False
      in if \<not> seen then None
         else if \<not> underscore_ok hex s (if hex then Saw_Digit else At_Start) then None
         else (case r of
             [] \<Rightarrow> if hex then None else Some (m, frac, 0)
           | c # t \<Rightarrow>
               if lower_char c = (if hex then CHR ''p'' else CHR ''e'')
               then (case scan_signed_exp t of
                       Some (e, []) \<Rightarrow> Some (m, frac, e)
                     | _ \<Rightarrow> None)
               else None))"

text \<open>The value of a literal in units, as a fraction.\<close>

definition float_ratio :: "bool \<Rightarrow> nat \<Rightarrow> nat \<Rightarrow> int \<Rightarrow> nat \<times> nat" where
  "float_ratio hex m frac e =
     (if hex
      then (m * 2 ^ float_unit_bits * 2 ^ nat e, 16 ^ frac * 2 ^ nat (- e))
      else (m * 2 ^ float_unit_bits * 10 ^ nat e, 10 ^ frac * 10 ^ nat (- e)))"

definition parse_float_unsigned :: "bool \<Rightarrow> string \<Rightarrow> float64 option" where
  "parse_float_unsigned neg s =
     (let hex = (case s of c # d # _ \<Rightarrow> c = CHR ''0'' \<and> lower_char d = CHR ''x'' | _ \<Rightarrow> False)
      in case scan_float hex (if hex then drop 2 s else s) of
           None \<Rightarrow> None
         | Some (m, frac, e) \<Rightarrow>
             (let (p, q) = float_ratio hex m frac e; v = round_ratio p q
              in if v \<ge> float_limit then None else Some (signed_float neg v)))"

definition parse_float :: "string \<Rightarrow> float64 option" where
  "parse_float s =
     (let (neg, signed, r) = (case s of
            c # t \<Rightarrow> if c = CHR ''-'' then (True, True, t)
                     else if c = CHR ''+'' then (False, True, t) else (False, False, s)
          | [] \<Rightarrow> (False, False, []));
          l = map lower_char r
      in if l = ''inf'' \<or> l = ''infinity'' then Some (if neg then Neg_Inf else Pos_Inf)
         else if l = ''nan'' \<and> \<not> signed then Some NaN
         else parse_float_unsigned neg r)"

lemma parse_float_nan: "parse_float ''NaN'' = Some NaN"
  by code_simp

lemma float_add_zero: "float_add (Fin 0) (Fin 0) = Fin 0"
  by simp

end
