(* ===== verification/Go_Time.thy ===== *)
theory Go_Time
  imports Go_Strings "HOL-Library.Monad_Syntax"
begin

text \<open>
  \<open>time.Time\<close> as an instant, an integer number of nanoseconds since the Unix epoch, with
  \<open>Format\<close> and \<open>Parse\<close> for the three layouts the source uses: \<open>time.RFC3339\<close>,
  \<open>time.RFC3339Nano\<close> and the queue's fixed-width \<open>timeLayout\<close>. The calendar is the
  proleptic Gregorian one of package \<open>time\<close>.

  Shown here: a date computed from a day number is valid and gives the day number back,
  formatting with the fixed-width layout preserves the order of instants, and parsing
  inverts formatting.
\<close>

type_synonym instant = int

definition nanos :: int where "nanos = 1000000000"

subsection \<open>Calendar\<close>

definition leap_year :: "int \<Rightarrow> bool" where
  "leap_year y \<longleftrightarrow> y mod 4 = 0 \<and> (y mod 100 \<noteq> 0 \<or> y mod 400 = 0)"

text \<open>Days from 1 January of year 1 to 1 January of year \<open>y\<close>.\<close>

definition days_before_year :: "int \<Rightarrow> int" where
  "days_before_year y = 365 * (y - 1) + (y - 1) div 4 - (y - 1) div 100 + (y - 1) div 400"

definition month_start :: "bool \<Rightarrow> int \<Rightarrow> int" where
  "month_start lp m =
     (let l = (if lp then 1 else 0) in
      if m \<le> 1 then 0 else if m = 2 then 31 else if m = 3 then 59 + l
      else if m = 4 then 90 + l else if m = 5 then 120 + l else if m = 6 then 151 + l
      else if m = 7 then 181 + l else if m = 8 then 212 + l else if m = 9 then 243 + l
      else if m = 10 then 273 + l else if m = 11 then 304 + l else if m = 12 then 334 + l
      else 365 + l)"

definition month_of_yday :: "bool \<Rightarrow> int \<Rightarrow> int" where
  "month_of_yday lp n =
     (let l = (if lp then 1 else 0) in
      if n < 31 then 1 else if n < 59 + l then 2 else if n < 90 + l then 3
      else if n < 120 + l then 4 else if n < 151 + l then 5 else if n < 181 + l then 6
      else if n < 212 + l then 7 else if n < 243 + l then 8 else if n < 273 + l then 9
      else if n < 304 + l then 10 else if n < 334 + l then 11 else 12)"

definition days_of_date :: "int \<times> int \<times> int \<Rightarrow> int" where
  "days_of_date ymd = (case ymd of (y, m, d) \<Rightarrow>
     days_before_year y + month_start (leap_year y) m + (d - 1))"

definition valid_date :: "int \<times> int \<times> int \<Rightarrow> bool" where
  "valid_date ymd = (case ymd of (y, m, d) \<Rightarrow>
     1 \<le> m \<and> m \<le> 12 \<and> 1 \<le> d \<and> d \<le> month_start (leap_year y) (m + 1) - month_start (leap_year y) m)"

text \<open>Year and day of the year, by 400-, 100-, 4- and 1-year cycles.\<close>

definition year_day :: "int \<Rightarrow> int \<times> int" where
  "year_day n =
     (let a = n div 146097; r = n mod 146097;
          b = min 3 (r div 36524); r2 = r - 36524 * b;
          c = r2 div 1461; r3 = r2 mod 1461;
          e = min 3 (r3 div 365)
      in (400 * a + 100 * b + 4 * c + e + 1, r3 - 365 * e))"

definition date_of_days :: "int \<Rightarrow> int \<times> int \<times> int" where
  "date_of_days n =
     (let (y, k) = year_day n; m = month_of_yday (leap_year y) k
      in (y, m, k - month_start (leap_year y) m + 1))"

lemma mod_eq_zero_bounded: "1 \<le> x \<Longrightarrow> x \<le> k \<Longrightarrow> x mod k = 0 \<longleftrightarrow> x = k" for x k :: int
  by (cases "x = k") (simp_all add: mod_pos_pos_trivial)

lemma year_cycles:
  fixes a b c e :: int
  assumes b: "0 \<le> b" "b \<le> 3" and c: "0 \<le> c" "c \<le> 24" and e: "0 \<le> e" "e \<le> 3"
  defines "y \<equiv> 400 * a + 100 * b + 4 * c + e + 1"
  shows "days_before_year y = 146097 * a + 36524 * b + 1461 * c + 365 * e"
    and "leap_year y \<longleftrightarrow> e = 3 \<and> (c \<noteq> 24 \<or> b = 3)"
proof -
  have q: "(y - 1) div 4 = 100 * a + 25 * b + c"
    by (rule int_div_pos_eq [where r = e]) (use e in \<open>simp_all add: y_def\<close>)
  have q2: "(y - 1) div 100 = 4 * a + b"
    by (rule int_div_pos_eq [where r = "4 * c + e"]) (use c e in \<open>simp_all add: y_def\<close>)
  have q3: "(y - 1) div 400 = a"
    by (rule int_div_pos_eq [where r = "100 * b + 4 * c + e"])
      (use b c e in \<open>simp_all add: y_def\<close>)
  show "days_before_year y = 146097 * a + 36524 * b + 1461 * c + 365 * e"
    unfolding days_before_year_def q q2 q3 using y_def by simp
  have "y = (e + 1) + (100 * a + 25 * b + c) * 4" by (simp add: y_def)
  then have m: "y mod 4 = (e + 1) mod 4" by (metis mod_mult_self1)
  have "y = (4 * c + e + 1) + (4 * a + b) * 100" by (simp add: y_def)
  then have m2: "y mod 100 = (4 * c + e + 1) mod 100" by (metis mod_mult_self1)
  have "y = (100 * b + 4 * c + e + 1) + a * 400" by (simp add: y_def)
  then have m3: "y mod 400 = (100 * b + 4 * c + e + 1) mod 400" by (metis mod_mult_self1)
  have "(e + 1) mod 4 = 0 \<longleftrightarrow> e + 1 = 4"
    by (rule mod_eq_zero_bounded) (use e in simp_all)
  moreover have "(4 * c + e + 1) mod 100 = 0 \<longleftrightarrow> 4 * c + e + 1 = 100"
    by (rule mod_eq_zero_bounded) (use c e in simp_all)
  moreover have "(100 * b + 4 * c + e + 1) mod 400 = 0 \<longleftrightarrow> 100 * b + 4 * c + e + 1 = 400"
    by (rule mod_eq_zero_bounded) (use b c e in simp_all)
  moreover have "4 * c + e + 1 = 100 \<longleftrightarrow> e = 3 \<and> c = 24" using c e by linarith
  moreover have "100 * b + 4 * c + e + 1 = 400 \<longleftrightarrow> e = 3 \<and> c = 24 \<and> b = 3"
    using b c e by linarith
  ultimately show "leap_year y \<longleftrightarrow> e = 3 \<and> (c \<noteq> 24 \<or> b = 3)"
    unfolding leap_year_def m m2 m3 by auto
qed

text \<open>One cycle of the day count: at most three whole periods are taken off.\<close>

lemma cycle_split:
  fixes r k :: int
  assumes "0 \<le> r" "0 < k"
  defines "b \<equiv> min 3 (r div k)"
  shows "0 \<le> b" "b \<le> 3" "0 \<le> r - k * b" "b < 3 \<Longrightarrow> r - k * b < k"
proof -
  have q: "0 \<le> r div k" using assms(1,2) by (simp add: pos_imp_zdiv_nonneg_iff)
  show "0 \<le> b" "b \<le> 3" using q by (simp_all add: b_def)
  have m: "r - k * (r div k) = r mod k" by (simp add: minus_mult_div_eq_mod)
  have "k * b \<le> k * (r div k)" using assms(2) by (simp add: b_def)
  then show "0 \<le> r - k * b" using m pos_mod_sign [OF assms(2), of r] by linarith
  show "r - k * b < k" if "b < 3"
  proof -
    from that have "b = r div k" by (auto simp: b_def min_def split: if_splits)
    then show ?thesis using m pos_mod_bound [OF assms(2), of r] by simp
  qed
qed

lemma year_day_correct:
  assumes "year_day n = (y, k)"
  shows "days_before_year y + k = n" and "0 \<le> k" and "k < 365 + (if leap_year y then 1 else 0)"
proof -
  define a where "a = n div 146097"
  define r where "r = n mod 146097"
  define b where "b = min 3 (r div 36524)"
  define r2 where "r2 = r - 36524 * b"
  define c where "c = r2 div 1461"
  define r3 where "r3 = r2 mod 1461"
  define e where "e = min 3 (r3 div 365)"
  have y: "y = 400 * a + 100 * b + 4 * c + e + 1" and k: "k = r3 - 365 * e"
    using assms
    unfolding year_day_def Let_def a_def [symmetric] r_def [symmetric] b_def [symmetric]
      r2_def [symmetric] c_def [symmetric] r3_def [symmetric] e_def [symmetric]
    by simp_all
  have r: "0 \<le> r" "r < 146097" and nr: "n = 146097 * a + r"
    unfolding a_def r_def by simp_all
  have b: "0 \<le> b" "b \<le> 3" and r2: "0 \<le> r2" "b < 3 \<Longrightarrow> r2 < 36524"
    using cycle_split [OF r(1), of 36524] unfolding b_def r2_def by simp_all
  have r2': "r2 \<le> 36524" using r2(2) b r(2) unfolding r2_def by linarith
  have r3: "0 \<le> r3" "r3 < 1461" "r2 = 1461 * c + r3" unfolding c_def r3_def by simp_all
  have c: "0 \<le> c" "c \<le> 24" using r2(1) r2' r3 by linarith+
  have c24: "r3 < 1460" if "c = 24" "b \<noteq> 3" using that r2(2) b r3(3) by linarith
  have e: "0 \<le> e" "e \<le> 3" and k2: "0 \<le> k" "e < 3 \<Longrightarrow> k < 365"
    using cycle_split [OF r3(1), of 365] unfolding e_def k by simp_all
  have k3: "k \<le> 365" using k2(2) e r3(2) k by linarith
  have dby: "days_before_year y = 146097 * a + 36524 * b + 1461 * c + 365 * e"
    and lp: "leap_year y \<longleftrightarrow> e = 3 \<and> (c \<noteq> 24 \<or> b = 3)"
    unfolding y by (rule year_cycles[OF b c e])+
  show "days_before_year y + k = n"
    using dby k r3(3) nr unfolding r2_def by linarith
  show "0 \<le> k" by fact
  have "k < 365" if "\<not> leap_year y"
  proof (cases "e = 3")
    case True
    with that lp c24 have "r3 < 1460" by blast
    with True k show ?thesis by simp
  next
    case False
    with e k2(2) show ?thesis by simp
  qed
  with k3 show "k < 365 + (if leap_year y then 1 else 0)" by simp
qed

lemma month_of_yday_correct:
  assumes "0 \<le> k" "k < 365 + (if lp then 1 else 0)"
  defines "m \<equiv> month_of_yday lp k"
  shows "1 \<le> m" "m \<le> 12" "month_start lp m \<le> k" "k < month_start lp (m + 1)"
proof -
  define l :: int where "l = (if lp then 1 else 0)"
  have k: "0 \<le> k" "k < 365 + l" "0 \<le> l" "l \<le> 1" using assms(1,2) by (simp_all add: l_def)
  have "1 \<le> m \<and> m \<le> 12 \<and> month_start lp m \<le> k \<and> k < month_start lp (m + 1)"
    unfolding m_def month_of_yday_def Let_def l_def [symmetric]
    by (split if_split, intro conjI impI, (simp add: month_start_def l_def [symmetric]; fail)?)+
      (use k in \<open>simp_all add: month_start_def l_def [symmetric]\<close>)
  then show "1 \<le> m" "m \<le> 12" "month_start lp m \<le> k" "k < month_start lp (m + 1)" by simp_all
qed

lemma date_of_days_correct:
  "days_of_date (date_of_days n) = n" "valid_date (date_of_days n)"
proof -
  obtain y k where yk: "year_day n = (y, k)" by fastforce
  note yd = year_day_correct [OF yk]
  note mo = month_of_yday_correct [OF yd(2,3)]
  show "days_of_date (date_of_days n) = n"
    using yd(1) by (simp add: date_of_days_def yk days_of_date_def Let_def)
  show "valid_date (date_of_days n)"
    using mo by (simp add: date_of_days_def yk valid_date_def Let_def)
qed

lemma div_pred: "0 < k \<Longrightarrow> y div k = (y - 1) div k + (if y mod k = 0 then 1 else 0)"
  for y k :: int
proof -
  assume k: "0 < k"
  define q r where "q = (y - 1) div k" and "r = (y - 1) mod k"
  have y: "y = k * q + (r + 1)" and r: "0 \<le> r" "r < k"
    using k by (simp_all add: q_def r_def)
  show ?thesis
  proof (cases "r + 1 = k")
    case True
    with y have "y = k * (q + 1)" by (simp add: algebra_simps)
    with k have "y div k = q + 1" "y mod k = 0" by simp_all
    then show ?thesis unfolding q_def [symmetric] by simp
  next
    case False
    with r have r1: "0 \<le> r + 1" "r + 1 < k" by simp_all
    have "y div k = q" "y mod k = r + 1"
      using int_div_pos_eq [OF y r1] int_mod_pos_eq [OF y r1] by simp_all
    then show ?thesis using r by (simp add: q_def [symmetric])
  qed
qed

lemma dvd_400: "(100::int) dvd 400" "(4::int) dvd 100"
  by simp_all

lemma days_before_year_step:
  "days_before_year (y + 1) = days_before_year y + 365 + (if leap_year y then 1 else 0)"
proof -
  define q4 q100 q400 where q: "q4 = (y - 1) div 4" "q100 = (y - 1) div 100" "q400 = (y - 1) div 400"
  define b4 b100 b400 where b: "b4 = (y mod 4 = 0)" "b100 = (y mod 100 = 0)" "b400 = (y mod 400 = 0)"
  have d: "y div 4 = q4 + (if b4 then 1 else 0)" "y div 100 = q100 + (if b100 then 1 else 0)"
    "y div 400 = q400 + (if b400 then 1 else 0)"
    unfolding q b by (rule div_pred, rule zero_less_numeral)+
  have imp: "b400 \<Longrightarrow> b100" "b100 \<Longrightarrow> b4"
    unfolding b by (metis mod_mod_cancel mod_0 dvd_400)+
  have l: "leap_year y = (b4 \<and> (\<not> b100 \<or> b400))"
    unfolding leap_year_def b by (rule refl)
  have n: "days_before_year (y + 1) = 365 * y + y div 4 - y div 100 + y div 400"
    unfolding days_before_year_def by (simp only: add_diff_cancel_right')
  have o: "days_before_year y = 365 * (y - 1) + q4 - q100 + q400"
    unfolding days_before_year_def q by (rule refl)
  show ?thesis unfolding n o d l using imp
    by (cases b4; cases b100; cases b400) (simp_all add: algebra_simps)
qed

lemma days_before_year_mono: "y \<le> z \<Longrightarrow> days_before_year y \<le> days_before_year z"
proof (induction z rule: int_ge_induct)
  case (step z)
  then show ?case using days_before_year_step [of z] by (auto split: if_splits)
qed simp

text \<open>Valid dates are ordered as their day numbers are.\<close>

lemma month_start_step: "month_start lp m \<le> month_start lp (m + 1)"
  by (cases lp) (simp_all add: month_start_def)

lemma month_start_mono: "m \<le> m' \<Longrightarrow> month_start lp m \<le> month_start lp m'"
proof (induction m' rule: int_ge_induct)
  case (step i)
  then show ?case using month_start_step [of lp i] by linarith
qed simp

lemma days_of_date_mono:
  assumes "valid_date (y, m, d)" "valid_date (y', m', d')"
    and "y < y' \<or> (y = y' \<and> (m < m' \<or> (m = m' \<and> d < d')))"
  shows "days_of_date (y, m, d) < days_of_date (y', m', d')"
proof -
  have in_month: "month_start (leap_year y) m + d \<le> month_start (leap_year y) (m + 1)"
    using assms(1) by (simp add: valid_date_def)
  have in_year: "month_start (leap_year y) (m + 1) \<le> 365 + (if leap_year y then 1 else 0)"
    using month_start_mono [of "m + 1" 13 "leap_year y"] assms(1)
    by (simp add: valid_date_def month_start_def Let_def split: if_splits)
  consider "y < y'" | "y = y'" "m < m'" | "y = y'" "m = m'" "d < d'" using assms(3) by blast
  then show ?thesis
  proof cases
    case 1
    have "days_of_date (y, m, d) < days_before_year (y + 1)"
      using in_month in_year by (simp add: days_of_date_def days_before_year_step)
    also have "\<dots> \<le> days_before_year y'" using 1 days_before_year_mono by simp
    also have "\<dots> \<le> days_of_date (y', m', d')"
      using assms(2) month_start_mono [of 1 m' "leap_year y'"]
      by (simp add: days_of_date_def valid_date_def month_start_def)
    finally show ?thesis .
  next
    case 2
    have "month_start (leap_year y) (m + 1) \<le> month_start (leap_year y) m'"
      using 2 by (intro month_start_mono) simp
    then show ?thesis using in_month assms(2) 2
      by (simp add: days_of_date_def valid_date_def)
  next
    case 3
    then show ?thesis by (simp add: days_of_date_def)
  qed
qed

subsection \<open>Formatting\<close>

text \<open>\<open>appendInt\<close>: decimal digits, zero-padded to a width.\<close>

fun pad :: "nat \<Rightarrow> int \<Rightarrow> string" where
  "pad 0 n = []"
| "pad (Suc w) n = pad w (n div 10) @ [char_of (48 + nat (n mod 10))]"

fun dec_len :: "nat \<Rightarrow> nat" where
  "dec_len n = (if n < 10 then 1 else Suc (dec_len (n div 10)))"

declare dec_len.simps [simp del]

definition fmt_year :: "int \<Rightarrow> string" where
  "fmt_year y =
     (if y < 0 then ''-'' else []) @ pad (max 4 (dec_len (nat \<bar>y\<bar>))) \<bar>y\<bar>"

definition day_of :: "instant \<Rightarrow> int" where
  "day_of t = t div (86400 * nanos) + 719162"

definition nano_of_day :: "instant \<Rightarrow> int" where
  "nano_of_day t = t mod (86400 * nanos)"

definition fmt_date :: "int \<times> int \<times> int \<Rightarrow> string" where
  "fmt_date ymd = (case ymd of (y, m, d) \<Rightarrow> fmt_year y @ ''-'' @ pad 2 m @ ''-'' @ pad 2 d)"

definition fmt_clock :: "int \<Rightarrow> string" where
  "fmt_clock sec = pad 2 (sec div 3600) @ '':'' @ pad 2 (sec div 60 mod 60) @ '':'' @ pad 2 (sec mod 60)"

text \<open>\<open>t.UTC().Format(time.RFC3339)\<close>.\<close>

definition format_rfc3339 :: "instant \<Rightarrow> string" where
  "format_rfc3339 t =
     fmt_date (date_of_days (day_of t)) @ ''T'' @ fmt_clock (nano_of_day t div nanos) @ ''Z''"

text \<open>\<open>t.UTC().Format(timeLayout)\<close>, the queue's fixed-width layout: always nine fractional
  digits.\<close>

definition format_fixed :: "instant \<Rightarrow> string" where
  "format_fixed t =
     fmt_date (date_of_days (day_of t)) @ ''T'' @ fmt_clock (nano_of_day t div nanos)
       @ ''.'' @ pad 9 (nano_of_day t mod nanos) @ ''Z''"

text \<open>The instants whose year has four digits.\<close>

definition four_digit_year :: "instant \<Rightarrow> bool" where
  "four_digit_year t \<longleftrightarrow> (let y = fst (date_of_days (day_of t)) in 0 \<le> y \<and> y \<le> 9999)"

subsection \<open>Fixed-width strings sort as the numbers they write\<close>

lemma length_pad [simp]: "length (pad w n) = w"
  by (induction w arbitrary: n) auto

lemma append_less_iff:
  fixes u u' v v' :: string
  assumes "length u = length u'"
  shows "u @ v < u' @ v' \<longleftrightarrow> u < u' \<or> u = u' \<and> v < v'"
  using assms by (induction u u' rule: list_induct2) auto

lemma digit_char_less:
  assumes "a < 10" "b < (10::nat)"
  shows "(char_of (48 + a) :: char) < char_of (48 + b) \<longleftrightarrow> a < b"
    and "(char_of (48 + a) :: char) = char_of (48 + b) \<longleftrightarrow> a = b"
proof -
  have v: "(of_char (char_of (48 + n) :: char) :: nat) = 48 + n" if "n < 10" for n
    using that by simp
  show "(char_of (48 + a) :: char) < char_of (48 + b) \<longleftrightarrow> a < b"
    unfolding less_char_def v [OF assms(1)] v [OF assms(2)] by simp
  show "(char_of (48 + a) :: char) = char_of (48 + b) \<longleftrightarrow> a = b"
    using v [OF assms(1)] v [OF assms(2)] by (metis add_left_cancel)
qed

lemma pad_less_iff:
  "0 \<le> a \<Longrightarrow> a < 10 ^ w \<Longrightarrow> 0 \<le> b \<Longrightarrow> b < 10 ^ w \<Longrightarrow>
     (pad w a < pad w b \<longleftrightarrow> a < b) \<and> (pad w a = pad w b \<longleftrightarrow> a = b)"
proof (induction w arbitrary: a b)
  case (Suc w)
  define q q' r r' where "q = a div 10" "q' = b div 10" "r = a mod 10" "r' = b mod 10"
  note defs = this
  have ab: "a = 10 * q + r" "b = 10 * q' + r'" and r: "0 \<le> r" "r < 10" "0 \<le> r'" "r' < 10"
    by (simp_all add: defs)
  have "0 \<le> q" "0 \<le> q'" "q < 10 ^ w" "q' < 10 ^ w"
    using Suc.prems r unfolding ab by simp_all
  note IH = Suc.IH [OF this(1,3,2,4)]
  have d: "nat r < 10" "nat r' < 10" using r by simp_all
  note c = digit_char_less [OF d]
  show ?case
    unfolding pad.simps defs(1,2,3,4) [symmetric] append_less_iff [OF length_pad [THEN trans, OF length_pad [symmetric]]]
    using IH c r unfolding ab by auto
qed simp

lemmas pad_less = pad_less_iff [THEN conjunct1] and pad_eq = pad_less_iff [THEN conjunct2]

lemma dec_len_le: "n < 10 ^ w \<Longrightarrow> 0 < w \<Longrightarrow> dec_len n \<le> w"
proof (induction w arbitrary: n)
  case (Suc w)
  then show ?case
    by (subst dec_len.simps) (cases "w = 0", auto simp: less_mult_imp_div_less mult.commute)
qed simp

lemma fmt_year_pad: "0 \<le> y \<Longrightarrow> y \<le> 9999 \<Longrightarrow> fmt_year y = pad 4 y"
proof -
  assume y: "0 \<le> y" "y \<le> 9999"
  then have "dec_len (nat y) \<le> 4" by (intro dec_len_le) simp_all
  with y show ?thesis by (simp add: fmt_year_def max_absorb1)
qed

text \<open>The parts of an instant, and their ranges.\<close>

lemma nano_of_day_range: "0 \<le> nano_of_day t" "nano_of_day t < 86400 * nanos"
  by (simp_all add: nano_of_day_def nanos_def)

lemma div_mod_lex:
  fixes a b k :: int
  assumes "0 < k" "a < b"
  shows "a div k < b div k \<or> a div k = b div k \<and> a mod k < b mod k"
proof (cases "a div k = b div k")
  case True
  have "k * (a div k) + a mod k < k * (b div k) + b mod k" using assms(2) by simp
  then have "a mod k < b mod k" unfolding True by (rule add_less_cancel_left [THEN iffD1])
  with True show ?thesis by blast
next
  case False
  with zdiv_mono1 [of a b k] assms show ?thesis by simp
qed

lemma day_nano_lex:
  "a < b \<Longrightarrow> day_of a < day_of b \<or> day_of a = day_of b \<and> nano_of_day a < nano_of_day b"
  using div_mod_lex [of "86400 * nanos" a b] by (simp add: day_of_def nano_of_day_def nanos_def)

definition sec_of_day :: "instant \<Rightarrow> int" where
  "sec_of_day t = nano_of_day t div nanos"

lemma sec_of_day_range: "0 \<le> sec_of_day t" "sec_of_day t < 86400"
proof -
  note r = nano_of_day_range [of t]
  show "0 \<le> sec_of_day t" using r by (simp add: sec_of_day_def nanos_def)
  have "nano_of_day t div nanos < 86400"
    using r by (simp add: div_less_iff_less_mult nanos_def)
  then show "sec_of_day t < 86400" by (simp add: sec_of_day_def)
qed

lemma fmt_date_length:
  "0 \<le> y \<Longrightarrow> y \<le> 9999 \<Longrightarrow> length (fmt_date (y, m, d)) = 10"
  by (simp add: fmt_date_def fmt_year_pad)

lemma length_fmt_clock [simp]: "length (fmt_clock c) = 8"
  by (simp add: fmt_clock_def)

lemma valid_date_ranges:
  assumes "valid_date (y, m, d)"
  shows "1 \<le> m" "m < 100" "1 \<le> d" "d < 100"
proof -
  show "1 \<le> m" "m < 100" "1 \<le> d" using assms by (simp_all add: valid_date_def)
  have "m \<in> {1..12}" "d \<le> month_start (leap_year y) (m + 1) - month_start (leap_year y) m"
    using assms by (simp_all add: valid_date_def)
  then show "d < 100"
    by (cases "leap_year y") (auto simp: month_start_def split: if_splits)
qed

lemma fmt_date_less:
  assumes v: "valid_date (y, m, d)" "valid_date (y', m', d')"
    and y: "0 \<le> y" "y \<le> 9999" "0 \<le> y'" "y' \<le> 9999"
    and less: "days_of_date (y, m, d) < days_of_date (y', m', d')"
  shows "fmt_date (y, m, d) < fmt_date (y', m', d')"
proof -
  have "y < y' \<or> (y = y' \<and> (m < m' \<or> (m = m' \<and> d < d')))"
  proof (rule ccontr)
    assume "\<not> ?thesis"
    then consider "(y', m', d') = (y, m, d)"
      | "y' < y \<or> (y' = y \<and> (m' < m \<or> (m' = m \<and> d' < d)))" by fastforce
    then show False using less days_of_date_mono [OF v(2,1)] by cases auto
  qed
  moreover note valid_date_ranges [OF v(1)] valid_date_ranges [OF v(2)]
  ultimately show ?thesis
    using y pad_less [of y 4 y'] pad_less [of m 2 m'] pad_less [of d 2 d']
    by (auto simp: fmt_date_def fmt_year_pad append_less_iff)
qed

lemma fmt_clock_less:
  assumes "0 \<le> c" "c < c'" "c' < 86400"
  shows "fmt_clock c < fmt_clock c'"
proof -
  define h mi s h' mi' s' where "h = c div 3600" "mi = c div 60 mod 60" "s = c mod 60"
    "h' = c' div 3600" "mi' = c' div 60 mod 60" "s' = c' mod 60"
  note defs = this
  have h2: "h = c div 60 div 60" "h' = c' div 60 div 60"
    unfolding defs using zdiv_zmult2_eq [of 60 _ 60] by simp_all
  have lex: "h < h' \<or> h = h' \<and> (mi < mi' \<or> mi = mi' \<and> s < s')"
    using div_mod_lex [OF _ assms(2), of 60] div_mod_lex [of 60 "c div 60" "c' div 60"]
    unfolding h2 defs(2,3,5,6) by auto
  have h: "0 \<le> h" "h < 100" "0 \<le> h'" "h' < 100"
    using assms by (simp_all add: defs div_less_iff_less_mult pos_imp_zdiv_nonneg_iff)
  have "mi < 60" "s < 60" "mi' < 60" "s' < 60"
    unfolding defs by (simp_all only: pos_mod_bound zero_less_numeral)
  then have r: "0 \<le> mi" "mi < 100" "0 \<le> mi'" "mi' < 100" "0 \<le> s" "s < 100" "0 \<le> s'" "s' < 100"
    unfolding defs by simp_all
  show ?thesis
    unfolding fmt_clock_def defs [symmetric]
    using lex h r pad_less [of h 2 h'] pad_less [of mi 2 mi'] pad_less [of s 2 s']
    by (auto simp: append_less_iff)
qed

text \<open>The order of the fixed-width timestamps is the order of the instants.\<close>

lemma format_fixed_mono:
  assumes y: "four_digit_year a" "four_digit_year b" and ab: "a < b"
  shows "format_fixed a < format_fixed b"
proof -
  obtain ya ma da where A: "date_of_days (day_of a) = (ya, ma, da)" by (metis prod_cases3)
  obtain yb mb db where B: "date_of_days (day_of b) = (yb, mb, db)" by (metis prod_cases3)
  have ry: "0 \<le> ya" "ya \<le> 9999" "0 \<le> yb" "yb \<le> 9999"
    using y A B by (simp_all add: four_digit_year_def Let_def)
  have va: "valid_date (ya, ma, da)" "days_of_date (ya, ma, da) = day_of a"
    and vb: "valid_date (yb, mb, db)" "days_of_date (yb, mb, db) = day_of b"
    using date_of_days_correct [of "day_of a"] date_of_days_correct [of "day_of b"] A B by simp_all
  have len: "length (fmt_date (ya, ma, da)) = length (fmt_date (yb, mb, db))"
    using ry by (simp add: fmt_date_length)
  define na nb where n: "na = nano_of_day a mod nanos" "nb = nano_of_day b mod nanos"
  have rn: "0 \<le> na" "na < 10 ^ 9" "0 \<le> nb" "nb < 10 ^ 9"
    unfolding n nanos_def by simp_all
  have "day_of a < day_of b \<or>
      day_of a = day_of b \<and> (sec_of_day a < sec_of_day b \<or> sec_of_day a = sec_of_day b \<and> na < nb)"
    using day_nano_lex [OF ab] div_mod_lex [of nanos "nano_of_day a" "nano_of_day b"]
    unfolding n sec_of_day_def by (auto simp: nanos_def)
  then consider "fmt_date (ya, ma, da) < fmt_date (yb, mb, db)"
    | "day_of a = day_of b" "sec_of_day a < sec_of_day b"
    | "day_of a = day_of b" "sec_of_day a = sec_of_day b" "na < nb"
    using fmt_date_less [OF va(1) vb(1) ry] va(2) vb(2) by auto
  then show ?thesis
  proof cases
    case 1
    then show ?thesis by (simp add: format_fixed_def A B append_less_iff [OF len])
  next
    case 2
    then have "fmt_clock (sec_of_day a) < fmt_clock (sec_of_day b)"
      using sec_of_day_range by (intro fmt_clock_less) simp_all
    with 2 show ?thesis
      by (simp add: format_fixed_def sec_of_day_def [symmetric] append_less_iff)
  next
    case 3
    then have "pad 9 na < pad 9 nb" using rn by (simp add: pad_less)
    with 3 show ?thesis
      by (simp add: format_fixed_def sec_of_day_def [symmetric] n [symmetric] append_less_iff)
  qed
qed

lemma format_fixed_less_iff:
  "four_digit_year a \<Longrightarrow> four_digit_year b \<Longrightarrow> format_fixed a < format_fixed b \<longleftrightarrow> a < b"
  by (metis format_fixed_mono less_asym linorder_neqE_linordered_idom order_less_irrefl)

subsection \<open>Parsing\<close>

text \<open>
  \<open>time.Parse\<close> with \<open>time.RFC3339\<close> or \<open>time.RFC3339Nano\<close>; the two accept the same strings. As
  package \<open>time\<close> does, it takes an hour of one digit, a comma before the fraction, any number
  of fractional digits (nine are kept) and zone offsets up to \<open>24:60\<close>.
\<close>

definition get_two :: "string \<Rightarrow> (int \<times> string) option" where
  "get_two s = (case s of
     a # b # r \<Rightarrow> if is_digit a \<and> is_digit b then Some (int (digits_val [a, b]), r) else None
   | _ \<Rightarrow> None)"

definition get_hour :: "string \<Rightarrow> (int \<times> string) option" where
  "get_hour s = (case s of
     a # b # r \<Rightarrow> if is_digit a then (if is_digit b then Some (int (digits_val [a, b]), r)
                                    else Some (int (digit_val a), b # r)) else None
   | [a] \<Rightarrow> if is_digit a then Some (int (digit_val a), []) else None
   | [] \<Rightarrow> None)"

definition get_year :: "string \<Rightarrow> (int \<times> string) option" where
  "get_year s =
     (let y = take 4 s in
      if length y = 4 \<and> list_all is_digit y then Some (int (digits_val y), drop 4 s) else None)"

definition get_char :: "char \<Rightarrow> string \<Rightarrow> string option" where
  "get_char c s = (case s of d # r \<Rightarrow> if d = c then Some r else None | [] \<Rightarrow> None)"

definition get_frac :: "string \<Rightarrow> int \<times> string" where
  "get_frac s = (case s of
     c # d # r \<Rightarrow>
       if (c = CHR ''.'' \<or> c = CHR '','') \<and> is_digit d
       then (let ds = takeWhile is_digit (d # r); k = take 9 ds
             in (int (digits_val k * 10 ^ (9 - length k)), dropWhile is_digit (d # r)))
       else (0, s)
   | _ \<Rightarrow> (0, s))"

text \<open>The zone: its offset in seconds.\<close>

definition get_zone :: "string \<Rightarrow> (int \<times> string) option" where
  "get_zone s = (case s of
     [] \<Rightarrow> None
   | c # r \<Rightarrow>
       if c = CHR ''Z'' then Some (0, r)
       else do { (h, r1) \<leftarrow> get_two r; r2 \<leftarrow> get_char CHR '':'' r1; (m, r3) \<leftarrow> get_two r2;
                 (if h \<le> 24 \<and> m \<le> 60 \<and> (c = CHR ''+'' \<or> c = CHR ''-'')
                  then Some ((if c = CHR ''-'' then - 1 else 1) * (h * 3600 + m * 60), r3) else None) })"

definition parse_rfc3339 :: "string \<Rightarrow> instant option" where
  "parse_rfc3339 s = do {
     (y, s) \<leftarrow> get_year s; s \<leftarrow> get_char CHR ''-'' s;
     (mo, s) \<leftarrow> get_two s; s \<leftarrow> get_char CHR ''-'' s;
     (d, s) \<leftarrow> get_two s; s \<leftarrow> get_char CHR ''T'' s;
     (h, s) \<leftarrow> get_hour s; s \<leftarrow> get_char CHR '':'' s;
     (mi, s) \<leftarrow> get_two s; s \<leftarrow> get_char CHR '':'' s;
     (sec, s) \<leftarrow> get_two s;
     (let (ns, s) = get_frac s in do {
        (off, s) \<leftarrow> get_zone s;
        (if s = [] \<and> valid_date (y, mo, d) \<and> h < 24 \<and> mi < 60 \<and> sec < 60
         then Some (((days_of_date (y, mo, d) - 719162) * 86400 + h * 3600 + mi * 60 + sec - off) * nanos + ns)
         else None) }) }"

lemma digit_char [simp]: "n < 10 \<Longrightarrow> is_digit (char_of (48 + n))" "n < 10 \<Longrightarrow> digit_val (char_of (48 + n)) = n"
  by (simp_all add: is_digit_def digit_val_def byte_def)

lemma digits_val_snoc: "digits_val (s @ [c]) = digits_val s * 10 + digit_val c"
  by (simp add: digits_val_def)

lemma pad_digits:
  "0 \<le> n \<Longrightarrow> n < 10 ^ w \<Longrightarrow> list_all is_digit (pad w n) \<and> int (digits_val (pad w n)) = n"
proof (induction w arbitrary: n)
  case 0
  then show ?case by (simp add: digits_val_def)
next
  case (Suc w)
  have "n div 10 < 10 ^ w" "0 \<le> n div 10" using Suc.prems by (simp_all add: div_less_iff_less_mult)
  note IH = Suc.IH [OF this(2,1)]
  have "nat (n mod 10) < 10" by simp
  with IH show ?case by (simp add: digits_val_snoc)
qed

lemma get_two_pad [simp]: "0 \<le> n \<Longrightarrow> n < 100 \<Longrightarrow> get_two (pad 2 n @ r) = Some (n, r)"
  using pad_digits [of n 2] by (simp add: get_two_def numeral_2_eq_2)

lemma get_hour_pad [simp]: "0 \<le> n \<Longrightarrow> n < 100 \<Longrightarrow> get_hour (pad 2 n @ r) = Some (n, r)"
  using pad_digits [of n 2] by (simp add: get_hour_def numeral_2_eq_2)

lemma get_year_pad [simp]: "0 \<le> n \<Longrightarrow> n < 10000 \<Longrightarrow> get_year (pad 4 n @ r) = Some (n, r)"
  using pad_digits [of n 4] by (simp add: get_year_def)

lemma get_char_Cons [simp]: "get_char c (c # r) = Some r"
  by (simp add: get_char_def)

lemma get_frac_Z [simp]: "get_frac (CHR ''Z'' # r) = (0, CHR ''Z'' # r)"
  by (simp add: get_frac_def split: list.splits)

lemma get_zone_Z [simp]: "get_zone (CHR ''Z'' # r) = Some (0, r)"
  by (simp add: get_zone_def)

lemma clock_parts:
  fixes c :: int
  assumes "0 \<le> c" "c < 86400"
  shows "0 \<le> c div 3600" "c div 3600 < 24" "c div 3600 * 3600 + c div 60 mod 60 * 60 + c mod 60 = c"
proof -
  show "0 \<le> c div 3600" "c div 3600 < 24"
    using assms by (simp_all add: div_less_iff_less_mult pos_imp_zdiv_nonneg_iff)
  have "c div 3600 = c div 60 div 60" using zdiv_zmult2_eq [of 60 c 60] by simp
  moreover have "c div 60 div 60 * 60 + c div 60 mod 60 = c div 60" "c div 60 * 60 + c mod 60 = c"
    by (rule div_mult_mod_eq)+
  ultimately show "c div 3600 * 3600 + c div 60 mod 60 * 60 + c mod 60 = c" by linarith
qed

text \<open>Parsing what \<open>Format(time.RFC3339)\<close> wrote gives the instant back, to the second.\<close>

lemma parse_format_rfc3339:
  assumes "four_digit_year t"
  shows "parse_rfc3339 (format_rfc3339 t) = Some (t - t mod nanos)"
proof -
  obtain y m d where A: "date_of_days (day_of t) = (y, m, d)" by (metis prod_cases3)
  have ry: "0 \<le> y" "y \<le> 9999" using assms A by (simp_all add: four_digit_year_def Let_def)
  have v: "valid_date (y, m, d)" "days_of_date (y, m, d) = day_of t"
    using date_of_days_correct [of "day_of t"] A by simp_all
  note r = valid_date_ranges [OF v(1)]
  define c where "c = sec_of_day t"
  define h where "h = c div 3600"
  define mi where "mi = c div 60 mod 60"
  define sc where "sc = c mod 60"
  have c: "0 \<le> c" "c < 86400" using sec_of_day_range by (simp_all add: c_def)
  have cp: "0 \<le> h" "h < 24" "h * 3600 + mi * 60 + sc = c"
    unfolding h_def mi_def sc_def by (rule clock_parts [OF c])+
  have m60: "0 \<le> mi" "mi < 60" "0 \<le> sc" "sc < 60"
    unfolding mi_def sc_def by (simp_all only: pos_mod_sign pos_mod_bound zero_less_numeral)
  have "t = (day_of t - 719162) * (86400 * nanos) + nano_of_day t"
    unfolding day_of_def nano_of_day_def add_diff_cancel_right'
    by (rule div_mult_mod_eq [symmetric])
  moreover have "nano_of_day t = c * nanos + nano_of_day t mod nanos"
    unfolding c_def sec_of_day_def by simp
  moreover have "nano_of_day t mod nanos = t mod nanos"
    unfolding nano_of_day_def by (rule mod_mod_cancel) simp
  ultimately have t: "t - t mod nanos = ((day_of t - 719162) * 86400 + c) * nanos"
    by (simp add: algebra_simps)
  have f: "format_rfc3339 t =
      pad 4 y @ ''-'' @ pad 2 m @ ''-'' @ pad 2 d @ ''T'' @ pad 2 h @ '':''
        @ pad 2 mi @ '':'' @ pad 2 sc @ ''Z''"
    unfolding format_rfc3339_def A fmt_clock_def sec_of_day_def [symmetric] c_def [symmetric]
      h_def [symmetric] mi_def [symmetric] sc_def [symmetric]
    using ry by (simp add: fmt_date_def fmt_year_pad)
  have e: "(day_of t - 719162) * 86400 + h * 3600 + mi * 60 + sc - 0 = (day_of t - 719162) * 86400 + c"
    using cp(3) by simp
  show ?thesis
    unfolding f parse_rfc3339_def t e [symmetric]
    using ry r v cp(1,2) m60 by simp
qed

text \<open>\<open>Format(time.RFC3339)\<close> does not see the fraction of a second.\<close>

lemma format_rfc3339_mod: "format_rfc3339 (t - t mod nanos) = format_rfc3339 t"
proof -
  have d: "(t - t mod nanos) div nanos = t div nanos"
    by (simp add: minus_mod_eq_mult_div nanos_def)
  have k: "86400 * nanos = nanos * 86400" by (rule mult.commute)
  have "day_of u = u div nanos div 86400 + 719162" for u
    unfolding day_of_def k by (subst zdiv_zmult2_eq) (simp_all add: nanos_def)
  moreover have "nano_of_day u div nanos = u div nanos mod 86400" for u
  proof -
    have "nano_of_day u = nanos * (u div nanos mod 86400) + u mod nanos"
      unfolding nano_of_day_def k by (rule zmod_zmult2_eq) simp
    then show ?thesis by (rule int_div_pos_eq) (simp_all add: nanos_def)
  qed
  ultimately show ?thesis unfolding format_rfc3339_def by (simp only: d)
qed

end
