(* ===== verification/Api_Types.thy ===== *)
theory Api_Types
  imports Go_Float Go_Time
begin

text \<open>
  The wire types of \<open>internal/api\<close> (\<open>event.go\<close>, \<open>metric.go\<close>, \<open>session.go\<close>, \<open>policy.go\<close>), the
  decoded JSON values the pipeline starts from, and the token totals that the conservation
  theorems add up. A pointer field is an \<open>option\<close>.
\<close>

subsection \<open>Decoded JSON\<close>

text \<open>The values of an \<open>interface{}\<close>. A Go map is an association list without repeated keys.\<close>

datatype any =
    ANil
  | ABool bool
  | AStr string
  | AInt int64
  | AInt64 int64
  | AFloat float64
  | ASlice "any list"
  | AMap "(string \<times> any) list"

type_synonym gomap = "(string \<times> any) list"

text \<open>Reading a missing key of a \<open>map[string]any\<close> gives \<open>nil\<close>.\<close>

definition aget :: "gomap \<Rightarrow> string \<Rightarrow> any" where
  "aget m k = (case map_of m k of None \<Rightarrow> ANil | Some v \<Rightarrow> v)"

text \<open>\<open>encoding/json\<close> into the field of a struct: a missing key or \<open>null\<close> leaves the zero value, a
  value of another type is an error. Keys are matched exactly.\<close>

definition dec_int :: "gomap \<Rightarrow> string \<Rightarrow> int64 option" where
  "dec_int m k = (case aget m k of ANil \<Rightarrow> Some 0 | AInt64 n \<Rightarrow> Some n | _ \<Rightarrow> None)"

definition dec_str :: "gomap \<Rightarrow> string \<Rightarrow> string option" where
  "dec_str m k = (case aget m k of ANil \<Rightarrow> Some [] | AStr s \<Rightarrow> Some s | _ \<Rightarrow> None)"

definition dec_bool :: "gomap \<Rightarrow> string \<Rightarrow> bool option" where
  "dec_bool m k = (case aget m k of ANil \<Rightarrow> Some False | ABool b \<Rightarrow> Some b | _ \<Rightarrow> None)"

definition dec_ptr :: "gomap \<Rightarrow> string \<Rightarrow> string option option" where
  "dec_ptr m k = (case aget m k of ANil \<Rightarrow> Some None | AStr s \<Rightarrow> Some (Some s) | _ \<Rightarrow> None)"

definition as_object :: "any \<Rightarrow> gomap option" where
  "as_object v = (case v of AMap m \<Rightarrow> Some m | ANil \<Rightarrow> Some [] | _ \<Rightarrow> None)"

lemma map_of_size: "map_of m k = Some v \<Longrightarrow> size v < size (AMap m)"
  by (induction m) (auto split: if_splits)

subsection \<open>Events, metric points and session summaries\<close>

record normalized_event =
  ev_EventID :: "string option"
  ev_EventName :: "string option"
  ev_Timestamp :: "string option"
  ev_SessionID :: "string option"
  ev_Model :: "string option"
  ev_ToolName :: "string option"
  ev_MCPServer :: "string option"
  ev_MCPTool :: "string option"
  ev_MCPServerToolCount :: "int64 option"
  ev_MCPSchemaTokens :: "int64 option"
  ev_SkillName :: "string option"
  ev_ToolSuccess :: "bool option"
  ev_ToolDurationMs :: "float64 option"
  ev_CostUSD :: "float64 option"
  ev_InputTokens :: "int64 option"
  ev_OutputTokens :: "int64 option"
  ev_CacheReadTokens :: "int64 option"
  ev_CacheCreateTokens :: "int64 option"
  ev_Repo :: "string option"
  ev_ErrorMessage :: "string option"

text \<open>The zero value of the struct.\<close>

definition empty_event :: normalized_event where
  "empty_event = \<lparr>ev_EventID = None, ev_EventName = None, ev_Timestamp = None,
     ev_SessionID = None, ev_Model = None, ev_ToolName = None, ev_MCPServer = None,
     ev_MCPTool = None, ev_MCPServerToolCount = None, ev_MCPSchemaTokens = None,
     ev_SkillName = None, ev_ToolSuccess = None, ev_ToolDurationMs = None, ev_CostUSD = None,
     ev_InputTokens = None, ev_OutputTokens = None, ev_CacheReadTokens = None,
     ev_CacheCreateTokens = None, ev_Repo = None, ev_ErrorMessage = None\<rparr>"

record metric_point =
  mp_MetricName :: string
  mp_Value :: float64
  mp_Timestamp :: "string option"
  mp_Model :: "string option"
  mp_Repo :: "string option"
  mp_SessionID :: "string option"
  mp_PointID :: "string option"

record session_model_usage =
  mu_Model :: "string option"
  mu_InputTokens :: int64
  mu_OutputTokens :: int64
  mu_CacheReadTokens :: int64
  mu_CacheCreateTokens :: int64

record session_summary =
  ss_SessionID :: string
  ss_UpdatedAt :: string
  ss_StartedAt :: string
  ss_LastActivityAt :: string
  ss_EndedAt :: "string option"
  ss_Title :: "string option"
  ss_Summary :: "string option"
  ss_Repo :: "string option"
  ss_WorkspaceLabel :: "string option"
  ss_Model :: "string option"
  ss_Models :: "session_model_usage list"
  ss_ModelBreakdownComplete :: bool
  ss_Source :: "string option"
  ss_Outcome :: string
  ss_StopReason :: "string option"
  ss_DurationMs :: "int64 option"
  ss_InputTokens :: int64
  ss_OutputTokens :: int64
  ss_CacheReadTokens :: int64
  ss_CacheCreateTokens :: int64
  ss_CostUSD :: "float64 option"
  ss_ToolCalls :: int64
  ss_ErrorCount :: int64

definition empty_summary :: session_summary where
  "empty_summary = \<lparr>ss_SessionID = [], ss_UpdatedAt = [], ss_StartedAt = [],
     ss_LastActivityAt = [], ss_EndedAt = None, ss_Title = None, ss_Summary = None,
     ss_Repo = None, ss_WorkspaceLabel = None, ss_Model = None, ss_Models = [],
     ss_ModelBreakdownComplete = False, ss_Source = None, ss_Outcome = [],
     ss_StopReason = None, ss_DurationMs = None, ss_InputTokens = 0, ss_OutputTokens = 0,
     ss_CacheReadTokens = 0, ss_CacheCreateTokens = 0, ss_CostUSD = None, ss_ToolCalls = 0,
     ss_ErrorCount = 0\<rparr>"

text \<open>\<open>json.Marshal\<close> of a struct fails on a float that is NaN or infinite.\<close>

definition finite_opt :: "float64 option \<Rightarrow> bool" where
  "finite_opt p = (case p of None \<Rightarrow> True | Some x \<Rightarrow> float_finite x)"

definition marshalable_event :: "normalized_event \<Rightarrow> bool" where
  "marshalable_event ev \<longleftrightarrow> finite_opt (ev_ToolDurationMs ev) \<and> finite_opt (ev_CostUSD ev)"

definition marshalable_point :: "metric_point \<Rightarrow> bool" where
  "marshalable_point p \<longleftrightarrow> float_finite (mp_Value p)"

definition marshalable_summary :: "session_summary \<Rightarrow> bool" where
  "marshalable_summary s \<longleftrightarrow> finite_opt (ss_CostUSD s)"

subsection \<open>Policy\<close>

definition defaultFlushIntervalSeconds :: int64 where "defaultFlushIntervalSeconds = 30"
definition defaultMaxBatchSize :: int64 where "defaultMaxBatchSize = 500"
definition MaxIngestBatch :: int64 where "MaxIngestBatch = 2000"

record policy =
  pol_FlushIntervalSeconds :: int64
  pol_MaxBatchSize :: int64
  pol_RefreshCadence :: string
  pol_InventoryEnabled :: bool

text \<open>A duration is a number of nanoseconds in an \<open>int64\<close>; the product wraps.\<close>

definition second :: int64 where "second = 1000000000"

definition FlushInterval :: "policy \<Rightarrow> int64" where
  "FlushInterval p =
     (let secs = pol_FlushIntervalSeconds p;
          secs = (if sint secs \<le> 0 then defaultFlushIntervalSeconds else secs)
      in secs * second)"

definition BatchSize :: "policy \<Rightarrow> int64" where
  "BatchSize p =
     (let n = pol_MaxBatchSize p;
          n = (if sint n \<le> 0 then defaultMaxBatchSize else n)
      in if sint n > sint MaxIngestBatch then MaxIngestBatch else n)"

text \<open>Whatever \<open>max_batch_size\<close> the server's policy carries, zero and negative values
  included, the batch size the uploader asks for lies between 1 and the backend's hard limit
  of 2000 events per request.\<close>

lemma BatchSize_bounds: "1 \<le> sint (BatchSize p) \<and> sint (BatchSize p) \<le> sint MaxIngestBatch"
  by (auto simp: BatchSize_def Let_def defaultMaxBatchSize_def MaxIngestBatch_def)

lemma FlushInterval_exact:
  assumes "0 < sint (pol_FlushIntervalSeconds p)" "sint (pol_FlushIntervalSeconds p) \<le> 9223372036"
  shows "sint (FlushInterval p) = sint (pol_FlushIntervalSeconds p) * 1000000000"
proof -
  have "FlushInterval p = i64 (sint (pol_FlushIntervalSeconds p) * 1000000000)"
    using assms(1) by (simp add: FlushInterval_def second_def i64_def)
  moreover have "i64_in_range (sint (pol_FlushIntervalSeconds p) * 1000000000)"
    using assms by (simp add: i64_in_range_def)
  ultimately show ?thesis by simp
qed

subsection \<open>Token totals\<close>

text \<open>The four token counters of an event as one value of a commutative monoid, so that the
  total over a list of events is a \<open>sum_list\<close>. Addition wraps as \<open>int64\<close> addition does.\<close>

datatype token_totals = Totals (tt_input: int64) (tt_output: int64) (tt_read: int64) (tt_create: int64)

instantiation token_totals :: comm_monoid_add
begin

definition zero_token_totals :: token_totals where
  "zero_token_totals = Totals 0 0 0 0"

definition plus_token_totals :: "token_totals \<Rightarrow> token_totals \<Rightarrow> token_totals" where
  "plus_token_totals a b =
     Totals (tt_input a + tt_input b) (tt_output a + tt_output b) (tt_read a + tt_read b)
       (tt_create a + tt_create b)"

instance
  by standard (simp_all add: zero_token_totals_def plus_token_totals_def)

end

definition event_tokens :: "normalized_event \<Rightarrow> token_totals" where
  "event_tokens ev =
     Totals (or_zero (ev_InputTokens ev)) (or_zero (ev_OutputTokens ev))
       (or_zero (ev_CacheReadTokens ev)) (or_zero (ev_CacheCreateTokens ev))"

definition tokens_of :: "normalized_event list \<Rightarrow> token_totals" where
  "tokens_of evs = sum_list (map event_tokens evs)"

lemma tokens_of_simps [simp]:
  "tokens_of [] = 0" "tokens_of (e # es) = event_tokens e + tokens_of es"
  "tokens_of (xs @ ys) = tokens_of xs + tokens_of ys"
  by (simp_all add: tokens_of_def)

end
