(* ===== verification/Counters.thy ===== *)
theory Counters
  imports Api_Types
begin

text \<open>
  \<open>internal/counters\<close>: the registry of named \<open>int64\<close> counters the daemon and the uploader
  share, and the self-telemetry derived from a snapshot of it. The registry is a Go map from
  names to values; a missing name reads as zero. Each method holds the registry's mutex for
  its whole body, so a method is one step.
\<close>

type_synonym registry = "string \<rightharpoonup> int64"

definition counter_get :: "registry \<Rightarrow> string \<Rightarrow> int64" where
  "counter_get r name = (case r name of None \<Rightarrow> 0 | Some v \<Rightarrow> v)"

definition counter_new :: registry where
  "counter_new = Map.empty"

definition counter_add :: "registry \<Rightarrow> string \<Rightarrow> int64 \<Rightarrow> registry" where
  "counter_add r name delta = r(name \<mapsto> counter_get r name + delta)"

definition counter_set :: "registry \<Rightarrow> string \<Rightarrow> int64 \<Rightarrow> registry" where
  "counter_set r name v = r(name \<mapsto> v)"

subsection \<open>Counter names\<close>

definition "cReceived = ''received''"
definition "cNormalized = ''normalized''"
definition "cFiltered = ''filtered''"
definition "cQueued = ''queued''"
definition "cRollups = ''rollups''"
definition "cErrors = ''errors''"
definition "cQueueDepth = ''queue_depth''"
definition "cUploaded = ''uploaded''"
definition "cUploadDropped = ''upload_dropped''"
definition "cUploadErrors = ''upload_errors''"
definition "cHeartbeatErrors = ''heartbeat_errors''"
definition "cLastUploadAt = ''last_upload_at''"
definition "cLastHeartbeatAt = ''last_heartbeat_at''"
definition "cAuthFailed = ''auth_failed''"
definition "cMetricsNormalized = ''metrics_normalized''"
definition "cMetricsFiltered = ''metrics_filtered''"
definition "cMetricsQueued = ''metrics_queued''"
definition "cMetricsUploaded = ''metrics_uploaded''"

lemmas counter_names =
  cReceived_def cNormalized_def cFiltered_def cQueued_def cRollups_def cErrors_def
  cQueueDepth_def cUploaded_def cUploadDropped_def cUploadErrors_def cHeartbeatErrors_def
  cLastUploadAt_def cLastHeartbeatAt_def cAuthFailed_def cMetricsNormalized_def
  cMetricsFiltered_def cMetricsQueued_def cMetricsUploaded_def

lemma counter_get_add [simp]:
  "counter_get (counter_add r a d) b = (if a = b then counter_get r b + d else counter_get r b)"
  by (simp add: counter_get_def counter_add_def)

lemma counter_get_set [simp]:
  "counter_get (counter_set r a v) b = (if a = b then v else counter_get r b)"
  by (simp add: counter_get_def counter_set_def)

lemma counter_get_new [simp]: "counter_get counter_new a = 0"
  by (simp add: counter_get_def counter_new_def)

text \<open>Additions from different goroutines commute, so the interleaving of the pipeline and
  the uploader never changes a counter.\<close>

lemma counter_add_commute: "counter_add (counter_add r a d) b e = counter_add (counter_add r b e) a d"
  by (auto simp: counter_add_def counter_get_def fun_upd_twist add.assoc add.commute add.left_commute)

subsection \<open>Telemetry\<close>

record telemetry =
  tel_Received :: int64
  tel_Filtered :: int64
  tel_Uploaded :: int64
  tel_Dropped :: int64
  tel_Errors :: int64
  tel_QueueDepth :: int64
  tel_Version :: string

definition Report :: "registry \<Rightarrow> string \<Rightarrow> telemetry" where
  "Report snap ver = \<lparr>
     tel_Received = counter_get snap cReceived,
     tel_Filtered = counter_get snap cFiltered,
     tel_Uploaded = counter_get snap cUploaded,
     tel_Dropped = counter_get snap cUploadDropped,
     tel_Errors = counter_get snap cErrors + counter_get snap cUploadErrors
                  + counter_get snap cHeartbeatErrors,
     tel_QueueDepth = counter_get snap cQueueDepth,
     tel_Version = ver\<rparr>"

end
