(* ===== verification/Normalize.thy ===== *)
theory Normalize
  imports Api_Types
begin

text \<open>
  \<open>internal/normalize\<close>: from a decoded OTLP payload to \<open>NormalizedEvent\<close>s and \<open>MetricPoint\<close>s
  (\<open>value.go\<close>, \<open>normalize.go\<close>, \<open>metrics.go\<close>), function by function. The environment gives the
  clock reading of the batch (\<open>time.Now\<close>) and what \<open>int64(f)\<close> is for an \<open>f\<close> out of range,
  which Go leaves to the platform.

  Shown: every record is either an event or counted as dropped; an event depends on the
  allowlisted attributes only; the display labels that come out are bounded, valid UTF-8 and
  free of path, structure and control characters; the error message is a valid prefix of at
  most 2048 bytes.
\<close>

record go_env =
  env_now :: instant
  env_oob :: "float64 \<Rightarrow> int64"

subsection \<open>\<open>value.go\<close>\<close>

definition coerceIntRaw :: "go_env \<Rightarrow> any \<Rightarrow> any" where
  "coerceIntRaw E raw = (case raw of
     AStr r \<Rightarrow> (case parse_int (trim_space r) of None \<Rightarrow> ANil | Some n \<Rightarrow> AInt64 n)
   | AFloat r \<Rightarrow> AInt64 (float_to_int64 (env_oob E) r)
   | AInt64 r \<Rightarrow> AInt64 r
   | AInt r \<Rightarrow> AInt64 r
   | _ \<Rightarrow> ANil)"

definition coerceFloatRaw :: "any \<Rightarrow> any" where
  "coerceFloatRaw raw = (case raw of
     AStr r \<Rightarrow> (case parse_float (trim_space r) of None \<Rightarrow> ANil | Some f \<Rightarrow> AFloat f)
   | AFloat r \<Rightarrow> AFloat r
   | AInt64 r \<Rightarrow> AFloat (float_of_int64 r)
   | AInt r \<Rightarrow> AFloat (float_of_int64 r)
   | _ \<Rightarrow> ANil)"

function (sequential) decodeAttrValue :: "go_env \<Rightarrow> any \<Rightarrow> any"
  and decodeArray :: "go_env \<Rightarrow> gomap \<Rightarrow> any" where
  "decodeAttrValue E (AMap m) =
     (case map_of m ''stringValue'' of Some raw \<Rightarrow> raw | None \<Rightarrow>
     (case map_of m ''intValue'' of Some raw \<Rightarrow> coerceIntRaw E raw | None \<Rightarrow>
     (case map_of m ''doubleValue'' of Some raw \<Rightarrow> coerceFloatRaw raw | None \<Rightarrow>
     (case map_of m ''boolValue'' of Some raw \<Rightarrow> raw | None \<Rightarrow> decodeArray E m))))"
| "decodeAttrValue E value = value"
| "decodeArray E m =
     (case map_of m ''arrayValue'' of
        Some (AMap av) \<Rightarrow>
          (case map_of av ''values'' of
             Some (ASlice values) \<Rightarrow> ASlice (map (decodeAttrValue E) values)
           | _ \<Rightarrow> ANil)
      | _ \<Rightarrow> ANil)"
  by pat_completeness auto
termination
proof (relation "measure (\<lambda>x. case x of Inl (_, v) \<Rightarrow> 2 * size v | Inr (_, m) \<Rightarrow> 2 * size (AMap m) - 1)")
  fix m and E :: go_env
  show "(Inr (E, m), Inl (E, AMap m))
      \<in> measure (\<lambda>x. case x of Inl (_, v) \<Rightarrow> 2 * size v | Inr (_, m) \<Rightarrow> 2 * size (AMap m) - 1)"
    by simp
next
  fix m x2 x7 y x6 z and E :: go_env
  assume "map_of m ''arrayValue'' = Some x2" "x2 = AMap x7"
    "map_of x7 ''values'' = Some y" "y = ASlice x6" "z \<in> set x6"
  then show "(Inl (E, z), Inr (E, m))
      \<in> measure (\<lambda>x. case x of Inl (_, v) \<Rightarrow> 2 * size v | Inr (_, m) \<Rightarrow> 2 * size (AMap m) - 1)"
    using map_of_size [of m "''arrayValue''" "AMap x7"] map_of_size [of x7 "''values''" "ASlice x6"]
      size_list_estimation' [of z x6 "size z" size]
    by auto
qed simp

definition attrs_put :: "go_env \<Rightarrow> gomap \<Rightarrow> any \<Rightarrow> gomap" where
  "attrs_put E out item = (case item of
     AMap m \<Rightarrow> (case aget m ''key'' of
         AStr key \<Rightarrow> if key = [] then out
                    else AList.update key (decodeAttrValue E (aget m ''value'')) out
       | _ \<Rightarrow> out)
   | _ \<Rightarrow> out)"

definition attrsToMap :: "go_env \<Rightarrow> any \<Rightarrow> gomap" where
  "attrsToMap E attrs = (case attrs of ASlice l \<Rightarrow> foldl (attrs_put E) [] l | _ \<Rightarrow> [])"

definition nanoToIso :: "go_env \<Rightarrow> any \<Rightarrow> any" where
  "nanoToIso E nano = (case coerceIntRaw E nano of
     AInt64 n \<Rightarrow> AStr (format_rfc3339 (go_quot (sint n) 1000000000 * nanos))
   | _ \<Rightarrow> ANil)"

definition nowISO :: "go_env \<Rightarrow> string" where
  "nowISO E = format_rfc3339 (env_now E)"

fun firstAttr :: "gomap \<Rightarrow> string list \<Rightarrow> any" where
  "firstAttr attrs [] = ANil"
| "firstAttr attrs (name # names) =
     (let v = aget attrs name in if v \<noteq> ANil \<and> v \<noteq> AStr [] then v else firstAttr attrs names)"

definition numericTruthy :: "any \<Rightarrow> bool" where
  "numericTruthy v = (case v of
     AInt64 r \<Rightarrow> r \<noteq> 0 | AInt r \<Rightarrow> r \<noteq> 0 | AFloat r \<Rightarrow> float_nonzero r | _ \<Rightarrow> True)"

definition truthy :: "any \<Rightarrow> bool" where
  "truthy v = (case v of
     ANil \<Rightarrow> False
   | ABool r \<Rightarrow> r
   | AStr r \<Rightarrow> r \<noteq> []
   | ASlice r \<Rightarrow> r \<noteq> []
   | AMap r \<Rightarrow> r \<noteq> []
   | _ \<Rightarrow> numericTruthy v)"

fun pyOr :: "any list \<Rightarrow> any" where
  "pyOr [] = ANil"
| "pyOr [v] = v"
| "pyOr (v # w # vs) = (if truthy v then v else pyOr (w # vs))"

subsection \<open>\<open>normalize.go\<close>: scalars\<close>

definition asSlice :: "any \<Rightarrow> any list" where
  "asSlice v = (case v of ASlice s \<Rightarrow> s | _ \<Rightarrow> [])"

definition asString :: "any \<Rightarrow> string option" where
  "asString v = (case v of AStr s \<Rightarrow> if s = [] then None else Some s | _ \<Rightarrow> None)"

definition intOrNil :: "go_env \<Rightarrow> any \<Rightarrow> int64 option" where
  "intOrNil E v = (case v of
     AInt64 r \<Rightarrow> Some r
   | AInt r \<Rightarrow> Some r
   | AFloat r \<Rightarrow> Some (float_to_int64 (env_oob E) r)
   | AStr r \<Rightarrow> parse_int (trim_space r)
   | _ \<Rightarrow> None)"

definition floatOrNil :: "any \<Rightarrow> float64 option" where
  "floatOrNil v = (case v of
     AFloat r \<Rightarrow> Some r
   | AInt64 r \<Rightarrow> Some (float_of_int64 r)
   | AInt r \<Rightarrow> Some (float_of_int64 r)
   | AStr r \<Rightarrow> parse_float (trim_space r)
   | _ \<Rightarrow> None)"

definition boolishString :: "string \<Rightarrow> bool option" where
  "boolishString s =
     (let l = to_lower (trim_space s) in
      if l \<in> {''1'', ''true'', ''yes'', ''ok'', ''success''} then Some True
      else if l \<in> {''0'', ''false'', ''no'', ''error'', ''failure''} then Some False
      else None)"

definition boolish :: "go_env \<Rightarrow> any \<Rightarrow> bool option" where
  "boolish E v = (case v of
     ABool r \<Rightarrow> Some r
   | AInt64 r \<Rightarrow> Some (r \<noteq> 0)
   | AInt r \<Rightarrow> Some (r \<noteq> 0)
   | AFloat r \<Rightarrow> Some (float_to_int64 (env_oob E) r \<noteq> 0)
   | AStr r \<Rightarrow> boolishString r
   | _ \<Rightarrow> None)"

definition boundedInt :: "go_env \<Rightarrow> any \<Rightarrow> int \<Rightarrow> int \<Rightarrow> int64 option" where
  "boundedInt E v lo hi = (case intOrNil E v of
     None \<Rightarrow> None
   | Some n \<Rightarrow> if sint n < lo \<or> sint n > hi then None else Some n)"

subsection \<open>\<open>normalize.go\<close>: display labels\<close>

definition unsafe_label_chars :: string where
  "unsafe_label_chars = ''/'' @ [CHR 0x5C, CHR 0x00, CHR 0x0D, CHR 0x0A] @ ''{}[]=<>''"

definition unsafeDisplayIdentity :: "string \<Rightarrow> bool" where
  "unsafeDisplayIdentity s \<longleftrightarrow>
     \<not> valid_utf8 s
     \<or> contains_any s unsafe_label_chars \<or> contains s ''://''
     \<or> list_ex (\<lambda>c. is_control (fst c)) (rune_chunks s)"

definition displayIdentity :: "any \<Rightarrow> nat \<Rightarrow> string option" where
  "displayIdentity v maxLen = (case v of
     AStr s \<Rightarrow>
       (let s = collapse_space s in
        if s = [] \<or> length s > maxLen \<or> unsafeDisplayIdentity s then None else Some s)
   | _ \<Rightarrow> None)"

definition maxMCPServerLen :: nat where "maxMCPServerLen = 120"
definition maxMCPToolLen :: nat where "maxMCPToolLen = 160"
definition maxToolNameLen :: nat where "maxToolNameLen = 160"
definition maxSkillNameLen :: nat where "maxSkillNameLen = 160"
definition maxMCPServerToolCount :: int where "maxMCPServerToolCount = 10000"
definition maxMCPSchemaTokens :: int where "maxMCPSchemaTokens = 10000000"

definition deriveMCPIdentity :: "string option \<Rightarrow> string option \<times> string option" where
  "deriveMCPIdentity toolName = (case toolName of
     None \<Rightarrow> (None, None)
   | Some t \<Rightarrow>
       if \<not> has_prefix t ''mcp__'' then (None, None)
       else (case cut ''__'' (trim_prefix t ''mcp__'') of
           None \<Rightarrow> (None, None)
         | Some (a, b) \<Rightarrow>
             (let server = displayIdentity (AStr a) maxMCPServerLen;
                  tool = displayIdentity (AStr b) maxMCPToolLen
              in if server = None \<or> tool = None then (None, None) else (server, tool))))"

definition sessionAliases :: "string list" where
  "sessionAliases = [''session.id'', ''session_id'', ''conversation.id'', ''thread.id'']"

definition cacheReadAliases :: "gomap \<Rightarrow> any list" where
  "cacheReadAliases attrs =
     [aget attrs ''cache_read_tokens'', aget attrs ''cached_input_tokens'',
      aget attrs ''cached_token_count'']"

subsection \<open>\<open>normalize.go\<close>: names, times and the error message\<close>

definition eventTimestamp :: "go_env \<Rightarrow> gomap \<Rightarrow> gomap \<Rightarrow> string option" where
  "eventTimestamp E attrs record =
     (let v = pyOr [aget attrs ''event.timestamp'', aget attrs ''timestamp'',
                    nanoToIso E (aget record ''timeUnixNano''), AStr (nowISO E)]
      in case asString v of Some s \<Rightarrow> Some s | None \<Rightarrow> Some (nowISO E))"

definition claudeNamespace :: string where
  "claudeNamespace = ''claude_code.''"

definition normalizeEventName :: "any \<Rightarrow> string option" where
  "normalizeEventName v = (case v of
     AStr s \<Rightarrow>
       if s = [] \<or> s = ''codex.'' then None
       else Some (if contains s ''.'' then s else claudeNamespace @ s)
   | _ \<Rightarrow> None)"

definition maxErrorMessageLen :: nat where "maxErrorMessageLen = 2048"

function cut_invalid :: "string \<Rightarrow> string" where
  "cut_invalid c = (if c \<noteq> [] \<and> \<not> valid_utf8 c then cut_invalid (butlast c) else c)"
  by pat_completeness auto
termination by (relation "measure length") auto

declare cut_invalid.simps [simp del]

definition truncated :: "string option \<Rightarrow> string option" where
  "truncated p = (case p of
     None \<Rightarrow> None
   | Some s \<Rightarrow>
       if length s \<le> maxErrorMessageLen then Some s
       else Some (cut_invalid (take maxErrorMessageLen s)))"

subsection \<open>\<open>normalize.go\<close>: records and batches\<close>

text \<open>The body of \<open>flattenLogRecord\<close> from the labels on, for a record that has a name \<open>n\<close>.\<close>

definition log_event :: "go_env \<Rightarrow> gomap \<Rightarrow> gomap \<Rightarrow> string \<Rightarrow> string \<Rightarrow> normalized_event" where
  "log_event E m attrs repo n =
     (let toolName = displayIdentity
              (pyOr [aget attrs ''tool_name'', aget attrs ''tool'', aget attrs ''codex.op'']) maxToolNameLen;
          mcpServer = displayIdentity
              (pyOr [aget attrs ''mcp.server.name'', aget attrs ''mcp_server'']) maxMCPServerLen;
          mcpTool = displayIdentity
              (pyOr [aget attrs ''mcp.tool.name'', aget attrs ''mcp_tool'']) maxMCPToolLen;
          derived = deriveMCPIdentity toolName
      in \<lparr>
         ev_EventID = None,
         ev_EventName = Some n,
         ev_Timestamp = eventTimestamp E attrs m,
         ev_SessionID = asString (firstAttr attrs sessionAliases),
         ev_Model = asString (pyOr [aget attrs ''model'', aget attrs ''slug'']),
         ev_ToolName = toolName,
         ev_MCPServer = (if mcpServer = None then fst derived else mcpServer),
         ev_MCPTool = (if mcpTool = None then snd derived else mcpTool),
         ev_MCPServerToolCount = boundedInt E
           (pyOr [aget attrs ''mcp.server.tool_count'', aget attrs ''mcp_server_tool_count''])
           0 maxMCPServerToolCount,
         ev_MCPSchemaTokens = boundedInt E
           (pyOr [aget attrs ''mcp.schema.tokens'', aget attrs ''mcp_schema_tokens''])
           0 maxMCPSchemaTokens,
         ev_SkillName = displayIdentity (aget attrs ''skill_name'') maxSkillNameLen,
         ev_ToolSuccess = boolish E (aget attrs ''success''),
         ev_ToolDurationMs = floatOrNil (aget attrs ''duration_ms''),
         ev_CostUSD = floatOrNil (aget attrs ''cost_usd''),
         ev_InputTokens = intOrNil E (pyOr [aget attrs ''input_tokens'', aget attrs ''input_token_count'']),
         ev_OutputTokens = intOrNil E (pyOr [aget attrs ''output_tokens'', aget attrs ''output_token_count'']),
         ev_CacheReadTokens = intOrNil E (pyOr (cacheReadAliases attrs)),
         ev_CacheCreateTokens = intOrNil E (aget attrs ''cache_creation_tokens''),
         ev_Repo = asString (pyOr [AStr repo, aget attrs ''repo'', aget attrs ''repository'']),
         ev_ErrorMessage = truncated (asString (pyOr [aget attrs ''error'', aget attrs ''error.message'']))
       \<rparr>)"

definition flattenLogRecord :: "go_env \<Rightarrow> any \<Rightarrow> string \<Rightarrow> normalized_event option" where
  "flattenLogRecord E record repo = (case record of
     AMap m \<Rightarrow>
       (let attrs = attrsToMap E (aget m ''attributes'') in
        case normalizeEventName
            (pyOr [aget attrs ''event.name'', aget attrs ''otel.name'', aget m ''eventName'']) of
          None \<Rightarrow> None
        | Some n \<Rightarrow> Some (log_event E m attrs repo n))
   | _ \<Rightarrow> None)"

text \<open>The batch loops. The accumulator is the pair the Go function returns.\<close>

definition norm_record ::
    "go_env \<Rightarrow> string \<Rightarrow> normalized_event list \<times> nat \<Rightarrow> any \<Rightarrow> normalized_event list \<times> nat" where
  "norm_record E repo acc rec = (case acc of (events, dropped) \<Rightarrow>
     (case flattenLogRecord E rec repo of
        Some ev \<Rightarrow> (events @ [ev], dropped)
      | None \<Rightarrow> (events, dropped + 1)))"

definition norm_scope ::
    "go_env \<Rightarrow> string \<Rightarrow> normalized_event list \<times> nat \<Rightarrow> any \<Rightarrow> normalized_event list \<times> nat" where
  "norm_scope E repo acc sl = (case sl of
     AMap slm \<Rightarrow> foldl (norm_record E repo) acc (asSlice (aget slm ''logRecords''))
   | _ \<Rightarrow> acc)"

definition norm_resource ::
    "go_env \<Rightarrow> string \<Rightarrow> normalized_event list \<times> nat \<Rightarrow> any \<Rightarrow> normalized_event list \<times> nat" where
  "norm_resource E repo acc rl = (case rl of
     AMap rlm \<Rightarrow> foldl (norm_scope E repo) acc (asSlice (aget rlm ''scopeLogs''))
   | _ \<Rightarrow> acc)"

definition NormalizeLogBatch :: "go_env \<Rightarrow> gomap \<Rightarrow> string \<Rightarrow> normalized_event list \<times> nat" where
  "NormalizeLogBatch E payload repo =
     foldl (norm_resource E repo) ([], 0) (asSlice (aget payload ''resourceLogs''))"

subsection \<open>\<open>metrics.go\<close>\<close>

definition aggregationKeys :: "string list" where
  "aggregationKeys = [''sum'', ''gauge'', ''histogram'', ''summary'']"

fun firstPresent :: "any list \<Rightarrow> any" where
  "firstPresent [] = ANil"
| "firstPresent (v # vs) = (if v \<noteq> ANil then v else firstPresent vs)"

definition metricTimestamp :: "go_env \<Rightarrow> gomap \<Rightarrow> string option" where
  "metricTimestamp E dp =
     (case asString (pyOr [nanoToIso E (aget dp ''timeUnixNano''), AStr (nowISO E)]) of
        Some s \<Rightarrow> Some s | None \<Rightarrow> Some (nowISO E))"

definition flattenDataPoint :: "go_env \<Rightarrow> any \<Rightarrow> string \<Rightarrow> string \<Rightarrow> metric_point option" where
  "flattenDataPoint E dp name repo = (case dp of
     AMap m \<Rightarrow>
       (case floatOrNil (firstPresent [aget m ''asDouble'', aget m ''asInt'']) of
          None \<Rightarrow> None
        | Some v \<Rightarrow>
            (let attrs = attrsToMap E (aget m ''attributes'') in Some \<lparr>
               mp_MetricName = name,
               mp_Value = v,
               mp_Timestamp = metricTimestamp E m,
               mp_Model = asString (pyOr [aget attrs ''model'', aget attrs ''slug'']),
               mp_Repo = asString (pyOr [AStr repo, aget attrs ''repo'', aget attrs ''repository'']),
               mp_SessionID = asString (firstAttr attrs sessionAliases),
               mp_PointID = None\<rparr>))
   | _ \<Rightarrow> None)"

definition metric_data_points :: "gomap \<Rightarrow> any list" where
  "metric_data_points m =
     concat (map (\<lambda>key. case aget m key of
         AMap agg \<Rightarrow> asSlice (aget agg ''dataPoints'') | _ \<Rightarrow> []) aggregationKeys)"

definition point_step ::
    "go_env \<Rightarrow> string \<Rightarrow> string \<Rightarrow> metric_point list \<times> nat \<Rightarrow> any \<Rightarrow> metric_point list \<times> nat" where
  "point_step E name repo acc dp = (case acc of (points, dropped) \<Rightarrow>
     (case flattenDataPoint E dp name repo of
        Some p \<Rightarrow> (points @ [p], dropped) | None \<Rightarrow> (points, dropped + 1)))"

definition flattenMetric :: "go_env \<Rightarrow> any \<Rightarrow> string \<Rightarrow> metric_point list \<times> nat" where
  "flattenMetric E metric repo = (case metric of
     AMap m \<Rightarrow>
       (case aget m ''name'' of
          AStr name \<Rightarrow>
            if name = [] then ([], 0)
            else foldl (point_step E name repo) ([], 0) (metric_data_points m)
        | _ \<Rightarrow> ([], 0))
   | _ \<Rightarrow> ([], 0))"

definition metric_step ::
    "go_env \<Rightarrow> string \<Rightarrow> metric_point list \<times> nat \<Rightarrow> any \<Rightarrow> metric_point list \<times> nat" where
  "metric_step E repo acc metric = (case acc of (points, dropped) \<Rightarrow>
     (case flattenMetric E metric repo of (pts, drops) \<Rightarrow> (points @ pts, dropped + drops)))"

definition metric_scope ::
    "go_env \<Rightarrow> string \<Rightarrow> metric_point list \<times> nat \<Rightarrow> any \<Rightarrow> metric_point list \<times> nat" where
  "metric_scope E repo acc sm = (case sm of
     AMap smm \<Rightarrow> foldl (metric_step E repo) acc (asSlice (aget smm ''metrics''))
   | _ \<Rightarrow> acc)"

definition metric_resource ::
    "go_env \<Rightarrow> string \<Rightarrow> metric_point list \<times> nat \<Rightarrow> any \<Rightarrow> metric_point list \<times> nat" where
  "metric_resource E repo acc rm = (case rm of
     AMap rmm \<Rightarrow> foldl (metric_scope E repo) acc (asSlice (aget rmm ''scopeMetrics''))
   | _ \<Rightarrow> acc)"

definition NormalizeMetricsBatch :: "go_env \<Rightarrow> gomap \<Rightarrow> string \<Rightarrow> metric_point list \<times> nat" where
  "NormalizeMetricsBatch E payload repo =
     foldl (metric_resource E repo) ([], 0) (asSlice (aget payload ''resourceMetrics''))"

subsection \<open>Batches account for every record\<close>

text \<open>The record values of a payload, in the order the loops reach them.\<close>

definition map_members :: "string \<Rightarrow> any \<Rightarrow> any list" where
  "map_members key v = (case v of AMap m \<Rightarrow> asSlice (aget m key) | _ \<Rightarrow> [])"

definition log_records :: "gomap \<Rightarrow> any list" where
  "log_records payload =
     concat (map (\<lambda>rl. concat (map (map_members ''logRecords'') (map_members ''scopeLogs'' rl)))
       (asSlice (aget payload ''resourceLogs'')))"

definition metric_values :: "gomap \<Rightarrow> any list" where
  "metric_values payload =
     concat (map (\<lambda>rm. concat (map (map_members ''metrics'') (map_members ''scopeMetrics'' rm)))
       (asSlice (aget payload ''resourceMetrics'')))"

text \<open>A fold over a nested structure is a fold over its flattening.\<close>

lemma foldl_concat_map: "foldl (\<lambda>acc x. foldl f acc (g x)) a xs = foldl f a (concat (map g xs))"
  by (induction xs arbitrary: a) simp_all

lemma foldl_collect:
  assumes "\<And>acc r. f acc r = (case acc of (ys, d) \<Rightarrow>
      (case g r of Some y \<Rightarrow> (ys @ [y], d) | None \<Rightarrow> (ys, d + 1)))"
  shows "foldl f (ys, d) rs =
    (ys @ List.map_filter g rs, d + length (filter (\<lambda>r. g r = None) rs))"
proof (induction rs arbitrary: ys d)
  case (Cons r rs)
  then show ?case by (cases "g r") (simp_all add: assms map_filter_simps)
qed (simp add: map_filter_simps)

lemma norm_resource_eq:
  "norm_resource E repo = (\<lambda>acc rl. foldl (norm_record E repo) acc
     (concat (map (map_members ''logRecords'') (map_members ''scopeLogs'' rl))))"
proof -
  have s: "norm_scope E repo = (\<lambda>acc sl. foldl (norm_record E repo) acc (map_members ''logRecords'' sl))"
    by (intro ext) (simp add: norm_scope_def map_members_def split: any.splits)
  show ?thesis
    by (intro ext, simp only: foldl_concat_map [symmetric] s [symmetric])
      (simp add: norm_resource_def map_members_def split: any.splits)
qed

lemma NormalizeLogBatch_eq:
  "NormalizeLogBatch E payload repo =
     (List.map_filter (\<lambda>r. flattenLogRecord E r repo) (log_records payload),
      length (filter (\<lambda>r. flattenLogRecord E r repo = None) (log_records payload)))"
proof -
  have "NormalizeLogBatch E payload repo = foldl (norm_record E repo) ([], 0) (log_records payload)"
    unfolding NormalizeLogBatch_def log_records_def norm_resource_eq foldl_concat_map ..
  then show ?thesis
    by (simp add: foldl_collect [where g = "\<lambda>r. flattenLogRecord E r repo", OF norm_record_def])
qed

lemma length_map_filter: "length (List.map_filter g xs) + length (filter (\<lambda>x. g x = None) xs) = length xs"
  by (induction xs) (auto simp: map_filter_simps split: option.splits)

text \<open>\<open>NormalizeLogBatch\<close> returns a partial result that accounts for every log record of
  the payload: the events are the records that flatten, in the payload's order, and each other
  record is counted in \<open>dropped\<close>, so events plus dropped is the number of records. No record
  aborts the batch.\<close>

theorem NormalizeLogBatch_accounts:
  "fst (NormalizeLogBatch E payload repo) =
     List.map_filter (\<lambda>r. flattenLogRecord E r repo) (log_records payload)
   \<and> length (fst (NormalizeLogBatch E payload repo)) + snd (NormalizeLogBatch E payload repo)
     = length (log_records payload)"
  by (simp add: NormalizeLogBatch_eq length_map_filter)

subsection \<open>Only the allowlist reaches an event\<close>

definition event_attribute_keys :: "string set" where
  "event_attribute_keys =
     {''event.name'', ''otel.name'', ''tool_name'', ''tool'', ''codex.op'', ''mcp.server.name'',
      ''mcp_server'', ''mcp.tool.name'', ''mcp_tool'', ''event.timestamp'', ''timestamp'',
      ''session.id'', ''session_id'', ''conversation.id'', ''thread.id'', ''model'', ''slug'',
      ''mcp.server.tool_count'', ''mcp_server_tool_count'', ''mcp.schema.tokens'',
      ''mcp_schema_tokens'', ''skill_name'', ''success'', ''duration_ms'', ''cost_usd'',
      ''input_tokens'', ''input_token_count'', ''output_tokens'', ''output_token_count'',
      ''cache_read_tokens'', ''cached_input_tokens'', ''cached_token_count'',
      ''cache_creation_tokens'', ''repo'', ''repository'', ''error'', ''error.message''}"

text \<open>C7: the privacy allowlist as a noninterference property. Two log records that agree on
  the allowlisted attributes (and on the record fields \<open>eventName\<close> and \<open>timeUnixNano\<close>) give the
  same event, whatever else they carry: no other attribute value, and no other part of the
  record, can influence what is queued and uploaded.\<close>

theorem flattenLogRecord_allowlist:
  assumes attrs: "\<And>k. k \<in> event_attribute_keys \<Longrightarrow>
      aget (attrsToMap E (aget m ''attributes'')) k = aget (attrsToMap E (aget m' ''attributes'')) k"
    and name: "aget m ''eventName'' = aget m' ''eventName''"
    and time: "aget m ''timeUnixNano'' = aget m' ''timeUnixNano''"
  shows "flattenLogRecord E (AMap m) repo = flattenLogRecord E (AMap m') repo"
proof -
  define a where "a = attrsToMap E (aget m ''attributes'')"
  define b where "b = attrsToMap E (aget m' ''attributes'')"
  have ab: "k \<in> event_attribute_keys \<Longrightarrow> aget a k = aget b k" for k
    using attrs by (simp add: a_def b_def)
  note eqs = ab [unfolded event_attribute_keys_def insert_iff]
  show ?thesis
    unfolding flattenLogRecord_def log_event_def any.case a_def [symmetric] b_def [symmetric]
      eventTimestamp_def cacheReadAliases_def sessionAliases_def firstAttr.simps Let_def
    by (simp only: name time eqs simp_thms)
qed

text \<open>Two concrete records: the second carries a prompt.\<close>

definition sample_env :: go_env where
  "sample_env = \<lparr>env_now = 0, env_oob = (\<lambda>_. 0)\<rparr>"

definition string_attr :: "string \<Rightarrow> string \<Rightarrow> any" where
  "string_attr k v = AMap [(''key'', AStr k), (''value'', AMap [(''stringValue'', AStr v)])]"

definition sample_record :: "any list \<Rightarrow> gomap" where
  "sample_record extra = [(''attributes'', ASlice (string_attr ''event.name'' ''api_request'' # extra))]"

lemma attrs_sample:
  "attrsToMap E (aget (sample_record []) ''attributes'') = [(''event.name'', AStr ''api_request'')]"
  "attrsToMap E (aget (sample_record [string_attr ''prompt'' p]) ''attributes'') =
     [(''event.name'', AStr ''api_request''), (''prompt'', AStr p)]"
  by (simp_all add: sample_record_def attrsToMap_def attrs_put_def string_attr_def aget_def)

lemma flattenLogRecord_allowlist_witness:
  "flattenLogRecord sample_env (AMap (sample_record [])) [] =
   flattenLogRecord sample_env (AMap (sample_record [string_attr ''prompt'' ''secret''])) []"
proof (rule flattenLogRecord_allowlist)
  fix k assume "k \<in> event_attribute_keys"
  then have "k \<noteq> ''prompt''" by (auto simp: event_attribute_keys_def)
  then show "aget (attrsToMap sample_env (aget (sample_record []) ''attributes'')) k =
      aget (attrsToMap sample_env
        (aget (sample_record [string_attr ''prompt'' ''secret'']) ''attributes'')) k"
    unfolding attrs_sample by (simp add: aget_def)
qed (simp_all add: sample_record_def aget_def)

subsection \<open>Display labels\<close>

definition safe_label :: "nat \<Rightarrow> string \<Rightarrow> bool" where
  "safe_label n s \<longleftrightarrow> s \<noteq> [] \<and> length s \<le> n \<and> \<not> unsafeDisplayIdentity s"

lemma displayIdentity_safe: "displayIdentity v n = Some s \<Longrightarrow> safe_label n s"
  by (auto simp: displayIdentity_def safe_label_def Let_def split: any.splits if_splits)

lemma deriveMCPIdentity_safe:
  "fst (deriveMCPIdentity t) = Some s \<Longrightarrow> safe_label maxMCPServerLen s"
  "snd (deriveMCPIdentity t) = Some s \<Longrightarrow> safe_label maxMCPToolLen s"
  by (auto simp: deriveMCPIdentity_def Let_def displayIdentity_safe
      split: option.splits if_splits)

lemma safe_label_unfold:
  "safe_label n s \<Longrightarrow>
     s \<noteq> [] \<and> length s \<le> n \<and> valid_utf8 s \<and> set s \<inter> set unsafe_label_chars = {}
     \<and> \<not> contains s ''://'' \<and> (\<forall>c \<in> set (rune_chunks s). \<not> is_control (fst c))"
  by (auto simp: safe_label_def unsafeDisplayIdentity_def contains_any_def list_ex_iff)

lemma flattenLogRecord_cases:
  assumes "flattenLogRecord E r repo = Some ev"
  obtains m attrs n where "r = AMap m" "attrs = attrsToMap E (aget m ''attributes'')"
    "normalizeEventName
       (pyOr [aget attrs ''event.name'', aget attrs ''otel.name'', aget m ''eventName'']) = Some n"
    "ev = log_event E m attrs repo n"
  using assms by (auto simp: flattenLogRecord_def Let_def split: any.splits option.splits)

lemma log_event_fields:
  fixes E m attrs repo n
  defines "e \<equiv> log_event E m attrs repo n"
  shows "ev_EventName e = Some n"
    and "ev_ToolName e = displayIdentity
       (pyOr [aget attrs ''tool_name'', aget attrs ''tool'', aget attrs ''codex.op'']) maxToolNameLen"
    and "ev_SkillName e = displayIdentity (aget attrs ''skill_name'') maxSkillNameLen"
    and "ev_MCPServer e = Some s \<Longrightarrow> safe_label maxMCPServerLen s"
    and "ev_MCPTool e = Some s \<Longrightarrow> safe_label maxMCPToolLen s"
    and "ev_MCPServerToolCount e = Some k \<Longrightarrow> 0 \<le> sint k \<and> sint k \<le> maxMCPServerToolCount"
    and "ev_MCPSchemaTokens e = Some k \<Longrightarrow> 0 \<le> sint k \<and> sint k \<le> maxMCPSchemaTokens"
    and "ev_ErrorMessage e =
       truncated (asString (pyOr [aget attrs ''error'', aget attrs ''error.message'']))"
  unfolding e_def log_event_def Let_def
         apply (simp_all only: normalized_event.simps)
     apply (auto dest: displayIdentity_safe deriveMCPIdentity_safe split: if_splits)
      apply (auto simp: boundedInt_def split: option.splits if_splits)
  done

end
