(* ===== verification/Noise_Filter.thy ===== *)
theory Noise_Filter
  imports Normalize "HOL-Library.Multiset"
begin

text \<open>
  \<open>internal/filter\<close>: the upload noise policy (\<open>filter.go\<close>) and the metric allowlist
  (\<open>metrics.go\<close>). A \<open>map[string]bool\<close> used as a set is a set; the pending rollups are an
  association list with one bucket per model. Every method holds the filter's mutex, so it is
  one step. Go ranges over a map in an unspecified order: \<open>Flush\<close> takes that order as an
  argument, and its theorems ask only that it is a permutation.

  Shown: the decision is the documented one; no token of a dropped event is lost, whatever the
  sequence of batches and flushes; the metric filter denies by default.
\<close>

definition RollupEventName :: string where
  "RollupEventName = ''token_rollup''"

definition keepFamilies :: "string set" where
  "keepFamilies = {''sse_event'', ''tool_result'', ''tool_decision'', ''hook_execution_start'',
     ''hook_execution_complete'', ''api_error'', ''api_retries_exhausted'', ''compaction''}"

definition dropFamilies :: "string set" where
  "dropFamilies = {''websocket_event''}"

record filter_stats =
  fs_Kept :: int64
  fs_Filtered :: int64
  fs_Rollups :: int64

record bucket =
  b_input :: int64
  b_output :: int64
  b_cacheRead :: int64
  b_cacheCreate :: int64
  b_cost :: float64
  b_hasCost :: bool

record noise_filter =
  nf_keep :: "string set"
  nf_drop :: "string set"
  nf_pending :: "(string \<times> bucket) list"
  nf_stats :: filter_stats

definition empty_bucket :: bucket where
  "empty_bucket = \<lparr>b_input = 0, b_output = 0, b_cacheRead = 0, b_cacheCreate = 0,
     b_cost = Fin 0, b_hasCost = False\<rparr>"

definition newFilter :: "string list \<Rightarrow> string list \<Rightarrow> noise_filter" where
  "newFilter extraKeep extraDrop =
     \<lparr>nf_keep = keepFamilies \<union> set extraKeep, nf_drop = dropFamilies \<union> set extraDrop,
      nf_pending = [], nf_stats = \<lparr>fs_Kept = 0, fs_Filtered = 0, fs_Rollups = 0\<rparr>\<rparr>"

definition name_of :: "string option \<Rightarrow> string" where
  "name_of p = (case p of None \<Rightarrow> [] | Some s \<Rightarrow> s)"

definition shouldKeep :: "noise_filter \<Rightarrow> string \<Rightarrow> bool" where
  "shouldKeep f eventName =
     (let family = trim_prefix eventName ''codex.'' in
      if family \<in> nf_keep f then True else if family \<in> nf_drop f then False else True)"

definition hasValue :: "normalized_event \<Rightarrow> bool" where
  "hasValue ev \<longleftrightarrow> ev_InputTokens ev \<noteq> None \<or> ev_OutputTokens ev \<noteq> None
     \<or> ev_CacheReadTokens ev \<noteq> None \<or> ev_CacheCreateTokens ev \<noteq> None \<or> ev_CostUSD ev \<noteq> None"

text \<open>The additions \<open>accumulate\<close> makes to the bucket of the event's model.\<close>

definition bucket_add :: "bucket \<Rightarrow> normalized_event \<Rightarrow> bucket" where
  "bucket_add b ev =
     (let b = b\<lparr>b_input := b_input b + or_zero (ev_InputTokens ev),
                b_output := b_output b + or_zero (ev_OutputTokens ev),
                b_cacheRead := b_cacheRead b + or_zero (ev_CacheReadTokens ev),
                b_cacheCreate := b_cacheCreate b + or_zero (ev_CacheCreateTokens ev)\<rparr>
      in case ev_CostUSD ev of None \<Rightarrow> b
         | Some c \<Rightarrow> b\<lparr>b_cost := float_add (b_cost b) c, b_hasCost := True\<rparr>)"

definition bucket_of :: "(string \<times> bucket) list \<Rightarrow> string \<Rightarrow> bucket" where
  "bucket_of p key = (case map_of p key of None \<Rightarrow> empty_bucket | Some b \<Rightarrow> b)"

definition accumulate :: "noise_filter \<Rightarrow> normalized_event \<Rightarrow> noise_filter" where
  "accumulate f ev =
     (if \<not> hasValue ev then f
      else (let key = name_of (ev_Model ev) in
            f\<lparr>nf_pending := AList.update key (bucket_add (bucket_of (nf_pending f) key) ev)
                (nf_pending f)\<rparr>))"

fun Apply :: "noise_filter \<Rightarrow> normalized_event list \<Rightarrow> normalized_event list \<times> noise_filter" where
  "Apply f [] = ([], f)"
| "Apply f (ev # evs) =
     (if shouldKeep f (name_of (ev_EventName ev))
      then (let (kept, f') = Apply
              (f\<lparr>nf_stats := (nf_stats f)\<lparr>fs_Kept := fs_Kept (nf_stats f) + 1\<rparr>\<rparr>) evs
            in (ev # kept, f'))
      else Apply
        (accumulate (f\<lparr>nf_stats := (nf_stats f)\<lparr>fs_Filtered := fs_Filtered (nf_stats f) + 1\<rparr>\<rparr>) ev)
        evs)"

definition nonZero :: "int64 \<Rightarrow> int64 option" where
  "nonZero v = (if v = 0 then None else Some v)"

definition rollupEvent :: "string \<Rightarrow> bucket \<Rightarrow> string \<Rightarrow> normalized_event" where
  "rollupEvent model b ts =
     (let ev = empty_event\<lparr>ev_EventName := Some RollupEventName, ev_Timestamp := Some ts,
            ev_InputTokens := nonZero (b_input b), ev_OutputTokens := nonZero (b_output b),
            ev_CacheReadTokens := nonZero (b_cacheRead b),
            ev_CacheCreateTokens := nonZero (b_cacheCreate b)\<rparr>;
          ev = (if model \<noteq> [] then ev\<lparr>ev_Model := Some model\<rparr> else ev)
      in if b_hasCost b then ev\<lparr>ev_CostUSD := Some (b_cost b)\<rparr> else ev)"

definition FlushRollups ::
    "((string \<times> bucket) list \<Rightarrow> (string \<times> bucket) list) \<Rightarrow> string \<Rightarrow> noise_filter
      \<Rightarrow> normalized_event list \<times> noise_filter" where
  "FlushRollups order ts f =
     (if nf_pending f = [] then ([], f)
      else (map (\<lambda>(model, b). rollupEvent model b ts) (order (nf_pending f)),
            f\<lparr>nf_pending := [],
              nf_stats := (nf_stats f)\<lparr>fs_Rollups :=
                fs_Rollups (nf_stats f) + of_nat (length (nf_pending f))\<rparr>\<rparr>))"

subsection \<open>The decision\<close>

text \<open>The noise policy drops exactly the known noise. With the default tables extended by
  the operator's names, an event is dropped if and only if its name, with a leading
  \<open>codex.\<close> removed, is in the drop table and not in the keep table; unknown names are kept, and
  keep wins over drop.\<close>

theorem shouldKeep_newFilter:
  "shouldKeep (newFilter extraKeep extraDrop) n \<longleftrightarrow>
     \<not> (trim_prefix n ''codex.'' \<in> insert ''websocket_event'' (set extraDrop)
        \<and> trim_prefix n ''codex.'' \<notin> keepFamilies \<union> set extraKeep)"
  by (auto simp: shouldKeep_def newFilter_def dropFamilies_def Let_def)

lemma accumulate_frame [simp]:
  "nf_keep (accumulate f ev) = nf_keep f" "nf_drop (accumulate f ev) = nf_drop f"
  "nf_stats (accumulate f ev) = nf_stats f" "shouldKeep (accumulate f ev) = shouldKeep f"
  by (simp_all add: accumulate_def Let_def shouldKeep_def fun_eq_iff)

lemma shouldKeep_stats [simp]: "shouldKeep (f\<lparr>nf_stats := s\<rparr>) = shouldKeep f"
  by (simp add: shouldKeep_def fun_eq_iff)

lemma Apply_kept: "fst (Apply f evs) = filter (\<lambda>ev. shouldKeep f (name_of (ev_EventName ev))) evs"
  by (induction f evs rule: Apply.induct) (auto simp: case_prod_beta)

lemma Apply_frame: "shouldKeep (snd (Apply f evs)) = shouldKeep f"
  by (induction f evs rule: Apply.induct) (auto simp: case_prod_beta)

text \<open>\<open>Apply\<close> returns exactly the events the policy keeps, unchanged and in order, and counts
  each event of the batch once, as kept or as filtered.\<close>

theorem Apply_spec:
  "fst (Apply f evs) = filter (\<lambda>ev. shouldKeep f (name_of (ev_EventName ev))) evs
   \<and> fs_Kept (nf_stats (snd (Apply f evs))) = fs_Kept (nf_stats f) + of_nat (length (fst (Apply f evs)))
   \<and> fs_Filtered (nf_stats (snd (Apply f evs)))
     = fs_Filtered (nf_stats f) + of_nat (length evs - length (fst (Apply f evs)))"
proof -
  have le: "length (fst (Apply f evs)) \<le> length evs" for f evs
    by (simp add: Apply_kept)
  have "fs_Kept (nf_stats (snd (Apply f evs))) = fs_Kept (nf_stats f) + of_nat (length (fst (Apply f evs)))
    \<and> fs_Filtered (nf_stats (snd (Apply f evs)))
      = fs_Filtered (nf_stats f) + of_nat (length evs - length (fst (Apply f evs)))"
    using le by (induction f evs rule: Apply.induct)
      (auto simp: case_prod_beta Suc_diff_le)
  then show ?thesis by (simp add: Apply_kept)
qed

subsection \<open>Conservation of tokens\<close>

definition bucket_tokens :: "bucket \<Rightarrow> token_totals" where
  "bucket_tokens b = Totals (b_input b) (b_output b) (b_cacheRead b) (b_cacheCreate b)"

definition pending_tokens :: "noise_filter \<Rightarrow> token_totals" where
  "pending_tokens f = sum_list (map (bucket_tokens \<circ> snd) (nf_pending f))"

lemma bucket_tokens_add [simp]:
  "bucket_tokens (bucket_add b ev) = event_tokens ev + bucket_tokens b"
  by (simp add: bucket_tokens_def bucket_add_def event_tokens_def plus_token_totals_def Let_def
      split: option.splits)

lemma bucket_tokens_empty [simp]: "bucket_tokens empty_bucket = 0"
  by (simp add: bucket_tokens_def empty_bucket_def zero_token_totals_def)

lemma not_hasValue_tokens: "\<not> hasValue ev \<Longrightarrow> event_tokens ev = 0"
  by (simp add: hasValue_def event_tokens_def zero_token_totals_def)

lemma sum_update_bucket:
  "sum_list (map (bucket_tokens \<circ> snd) (AList.update k (bucket_add (bucket_of p k) ev) p))
     = event_tokens ev + sum_list (map (bucket_tokens \<circ> snd) p)"
  by (induction p) (auto simp: bucket_of_def add.assoc add.left_commute)

lemma accumulate_tokens: "pending_tokens (accumulate f ev) = event_tokens ev + pending_tokens f"
  by (simp add: pending_tokens_def accumulate_def sum_update_bucket not_hasValue_tokens Let_def)

lemma pending_tokens_stats [simp]: "pending_tokens (f\<lparr>nf_stats := s\<rparr>) = pending_tokens f"
  by (simp add: pending_tokens_def)

lemma Apply_tokens:
  "tokens_of (fst (Apply f evs)) + pending_tokens (snd (Apply f evs))
     = tokens_of evs + pending_tokens f"
  by (induction f evs rule: Apply.induct)
    (auto simp: case_prod_beta accumulate_tokens add.assoc add.left_commute add.commute)

lemma rollupEvent_tokens: "event_tokens (rollupEvent m b ts) = bucket_tokens b"
  by (simp add: event_tokens_def rollupEvent_def bucket_tokens_def empty_event_def nonZero_def Let_def)

lemma FlushRollups_tokens:
  assumes "\<And>p. mset (order p) = mset p"
  shows "tokens_of (fst (FlushRollups order ts f)) = pending_tokens f
    \<and> nf_pending (snd (FlushRollups order ts f)) = []"
proof -
  have "sum_list (map (bucket_tokens \<circ> snd) (order p)) = sum_list (map (bucket_tokens \<circ> snd) p)" for p
    using assms [of p] by (metis mset_map sum_mset_sum_list)
  then show ?thesis
    by (simp add: FlushRollups_def pending_tokens_def tokens_of_def comp_def case_prod_beta
        rollupEvent_tokens)
qed

text \<open>A life of the filter: batches and flushes in any order. What it has emitted so far is the
  first component.\<close>

datatype filter_op = ApplyOp "normalized_event list" | FlushOp string

definition run_op ::
    "((string \<times> bucket) list \<Rightarrow> (string \<times> bucket) list)
      \<Rightarrow> normalized_event list \<times> noise_filter \<Rightarrow> filter_op \<Rightarrow> normalized_event list \<times> noise_filter" where
  "run_op order st op = (case op of
     ApplyOp evs \<Rightarrow> (let (out, f) = Apply (snd st) evs in (fst st @ out, f))
   | FlushOp ts \<Rightarrow> (let (out, f) = FlushRollups order ts (snd st) in (fst st @ out, f)))"

definition op_events :: "filter_op \<Rightarrow> normalized_event list" where
  "op_events op = (case op of ApplyOp evs \<Rightarrow> evs | FlushOp _ \<Rightarrow> [])"

lemma run_op_tokens:
  assumes "\<And>p. mset (order p) = mset p"
  shows "tokens_of (fst (run_op order st op)) + pending_tokens (snd (run_op order st op))
    = tokens_of (fst st) + pending_tokens (snd st) + tokens_of (op_events op)"
proof (cases op)
  case (ApplyOp evs)
  then show ?thesis
    using Apply_tokens [of "snd st" evs]
    by (simp add: run_op_def op_events_def case_prod_beta add.assoc add.left_commute add.commute)
next
  case (FlushOp ts)
  then show ?thesis
    using FlushRollups_tokens [OF assms, of ts "snd st"]
    by (simp add: run_op_def op_events_def case_prod_beta pending_tokens_def)
qed

text \<open>Conservation of tokens. Take any sequence of batches and rollup flushes that starts
  from a fresh filter, and any order in which Go visits the pending map: after a final flush,
  the events that have left the filter carry exactly the token totals (input, output, cache
  read, cache create) of the events that went in, and nothing is pending. Dropping noise never
  loses or invents a token.\<close>

theorem filter_conserves_tokens:
  assumes order: "\<And>p. mset (order p) = mset p"
  shows "let (out, f) = run_op order (foldl (run_op order) ([], newFilter ks ds) ops) (FlushOp ts)
    in tokens_of out = tokens_of (concat (map op_events ops)) \<and> nf_pending f = []"
proof -
  have all: "tokens_of (fst (foldl (run_op order) st ops)) + pending_tokens (snd (foldl (run_op order) st ops))
      = tokens_of (fst st) + pending_tokens (snd st) + tokens_of (concat (map op_events ops))" for st
    by (induction ops arbitrary: st)
      (simp_all add: add.assoc [symmetric] run_op_tokens [OF order])
  define st where "st = foldl (run_op order) ([], newFilter ks ds) ops"
  have "nf_pending (snd (run_op order st (FlushOp ts))) = []"
    using FlushRollups_tokens [OF order] by (simp add: run_op_def case_prod_beta)
  moreover from this have "tokens_of (fst (run_op order st (FlushOp ts)))
      = tokens_of (concat (map op_events ops))"
    using run_op_tokens [OF order, of st "FlushOp ts"] all [of "([], newFilter ks ds)"]
    by (simp add: st_def pending_tokens_def newFilter_def op_events_def)
  ultimately show ?thesis by (simp add: st_def case_prod_beta)
qed

lemma filter_conserves_tokens_witness:
  "let noise = empty_event\<lparr>ev_EventName := Some ''codex.websocket_event'', ev_InputTokens := Some 7\<rparr>;
       (out, f) = run_op rev (foldl (run_op rev) ([], newFilter [] []) [ApplyOp [noise, noise]]) (FlushOp [])
   in tokens_of out = Totals 14 0 0 0"
  using filter_conserves_tokens [of rev "[]" "[]" "[ApplyOp [empty_event\<lparr>ev_EventName :=
      Some ''codex.websocket_event'', ev_InputTokens := Some 7\<rparr>, empty_event\<lparr>ev_EventName :=
      Some ''codex.websocket_event'', ev_InputTokens := Some 7\<rparr>]]" "[]"]
  by (simp add: case_prod_beta op_events_def event_tokens_def empty_event_def plus_token_totals_def
      zero_token_totals_def)

subsection \<open>Buckets per model\<close>

definition bucketed :: "noise_filter \<Rightarrow> string \<Rightarrow> normalized_event \<Rightarrow> bool" where
  "bucketed f m ev \<longleftrightarrow> \<not> shouldKeep f (name_of (ev_EventName ev)) \<and> hasValue ev
     \<and> name_of (ev_Model ev) = m"

lemma bucket_of_accumulate:
  "bucket_of (nf_pending (accumulate f ev)) m =
     (if hasValue ev \<and> name_of (ev_Model ev) = m
      then bucket_add (bucket_of (nf_pending f) m) ev else bucket_of (nf_pending f) m)"
  by (auto simp: accumulate_def bucket_of_def update_conv' Let_def)

text \<open>The rollup bucket of a model is the running sum, in arrival order and in Go's float
  arithmetic for the cost, of the dropped events of that model that carry a token count or a
  cost; events of other models, and kept events, leave it alone.\<close>

theorem Apply_bucket:
  "bucket_of (nf_pending (snd (Apply f evs))) m =
     foldl bucket_add (bucket_of (nf_pending f) m) (filter (bucketed f m) evs)"
  by (induction f evs rule: Apply.induct)
    (auto simp: case_prod_beta bucketed_def bucket_of_accumulate)

lemma distinct_pending:
  "distinct (map fst (nf_pending f)) \<Longrightarrow> distinct (map fst (nf_pending (snd (Apply f evs))))"
  by (induction f evs rule: Apply.induct)
    (auto simp: case_prod_beta accumulate_def Let_def distinct_update)

subsection \<open>The metric filter\<close>

definition metricAllowlist :: "string set" where
  "metricAllowlist = {''claude_code.token.usage'', ''claude_code.cost.usage'',
     ''claude_code.commit.count'', ''claude_code.lines_of_code.count''}"

record metric_filter =
  mf_keep :: "string set"
  mf_Kept :: int64
  mf_Filtered :: int64

definition NewMetricFilter :: "string list \<Rightarrow> metric_filter" where
  "NewMetricFilter extraKeep =
     \<lparr>mf_keep = metricAllowlist \<union> set extraKeep, mf_Kept = 0, mf_Filtered = 0\<rparr>"

fun ApplyMetrics :: "metric_filter \<Rightarrow> metric_point list \<Rightarrow> metric_point list \<times> metric_filter" where
  "ApplyMetrics f [] = ([], f)"
| "ApplyMetrics f (p # ps) =
     (if mp_MetricName p \<in> mf_keep f
      then (let (kept, f') = ApplyMetrics (f\<lparr>mf_Kept := mf_Kept f + 1\<rparr>) ps in (p # kept, f'))
      else ApplyMetrics (f\<lparr>mf_Filtered := mf_Filtered f + 1\<rparr>) ps)"

text \<open>The metric filter denies by default: what it lets through is exactly the points whose
  name is one of the four documented counters or one the operator added, in order, and every
  other point is counted as filtered.\<close>

theorem ApplyMetrics_allowlist:
  "fst (ApplyMetrics (NewMetricFilter extra) ps) =
     filter (\<lambda>p. mp_MetricName p \<in> {''claude_code.token.usage'', ''claude_code.cost.usage'',
       ''claude_code.commit.count'', ''claude_code.lines_of_code.count''} \<union> set extra) ps
   \<and> mf_Filtered (snd (ApplyMetrics (NewMetricFilter extra) ps)) =
     of_nat (length ps - length (fst (ApplyMetrics (NewMetricFilter extra) ps)))"
proof -
  have k: "fst (ApplyMetrics f ps) = filter (\<lambda>p. mp_MetricName p \<in> mf_keep f) ps" for f ps
    by (induction f ps rule: ApplyMetrics.induct) (auto simp: case_prod_beta)
  have le: "length (fst (ApplyMetrics f ps)) \<le> length ps" for f ps
    by (simp add: k)
  have "mf_Filtered (snd (ApplyMetrics f ps)) =
      mf_Filtered f + of_nat (length ps - length (fst (ApplyMetrics f ps)))" for f
    using le by (induction f ps rule: ApplyMetrics.induct) (auto simp: case_prod_beta Suc_diff_le)
  then show ?thesis
    using k [of "NewMetricFilter extra" ps] by (simp add: NewMetricFilter_def metricAllowlist_def)
qed

end
