(* ===== verification/Sql_Queue.thy ===== *)
theory Sql_Queue
  imports Noise_Filter
begin

text \<open>
  \<open>internal/queue\<close>: the durable queue of events (\<open>queue.go\<close>) and of metric points
  (\<open>metrics.go\<close>). The two tables have the same columns and the same statements, so the
  statements are written once over rows with a payload of any type and used at both.

  A table is the list of its rows. Each method of \<open>Queue\<close> holds the queue's mutex on the only
  connection of the pool, so a method is one step, made of the SQL statements it runs in order;
  each statement may fail, by the oracle \<open>q_fail\<close>, and a failed statement changes nothing. What
  lies outside the repository is in the environment: the clock, the id SQLite gives to a new row
  (\<open>INTEGER PRIMARY KEY\<close>), the UUIDs, and the size of the database file at each measurement.
  Timestamps are TEXT, written with \<open>timeLayout\<close> and compared as strings.
\<close>

subsection \<open>Rows, statements, environment\<close>

datatype row_state = Pending | Leased | Acked

record 'p qrow =
  row_id :: int
  row_key :: "string option"
  row_payload :: 'p
  row_created :: string
  row_attempts :: int
  row_state :: row_state
  row_until :: "string option"
  row_acked :: "string option"

datatype stmt =
    S_Begin | S_Prepare | S_Mint nat | S_Insert nat | S_Commit
  | S_Count nat | S_Pages nat | S_Delete nat | S_Vacuum nat
  | S_Select | S_Update | S_Prune
  | S_Load nat | S_UpdateItem nat | S_Trim

datatype queue_error = Q_Stmt stmt | Q_Marshal nat

record qenv =
  q_now :: instant
  q_alloc :: "int list \<Rightarrow> int"
  q_uuid :: "nat \<Rightarrow> string"
  q_size :: "nat \<Rightarrow> int"
  q_fail :: "stmt \<Rightarrow> bool"

text \<open>What a leased row hands to the uploader (\<open>Item\<close> and \<open>MetricItem\<close>).\<close>

record 'p item =
  it_ID :: int
  it_Key :: string
  it_Payload :: 'p
  it_Attempts :: int

definition scanItem :: "'p qrow \<Rightarrow> 'p item" where
  "scanItem r = \<lparr>it_ID = row_id r, it_Key = name_of (row_key r), it_Payload = row_payload r,
     it_Attempts = row_attempts r\<rparr>"

text \<open>Capacity caps, after \<open>Open\<close> has applied the defaults.\<close>

record caps =
  cap_rows :: int
  cap_bytes :: int

definition defaultMaxRows :: int where "defaultMaxRows = 50000"
definition defaultMaxBytes :: int where "defaultMaxBytes = 100 * 1024 * 1024"
definition evictChunk :: int where "evictChunk = 512"

definition open_caps :: "caps \<Rightarrow> caps" where
  "open_caps opts =
     \<lparr>cap_rows = (if cap_rows opts \<le> 0 then defaultMaxRows else cap_rows opts),
      cap_bytes = (if cap_bytes opts \<le> 0 then defaultMaxBytes else cap_bytes opts)\<rparr>"

subsection \<open>Payloads\<close>

text \<open>A payload is stored as its JSON text and read back with \<open>json.Unmarshal\<close>. The encoder
  fails on a float that is not finite, and replaces each invalid byte of a string by
  \<open>U+FFFD\<close>; all else survives the round trip, so the payload column is modelled by the value
  that is read back.\<close>

definition json_string :: "string \<Rightarrow> string" where
  "json_string s =
     concat (map (\<lambda>c. if bad_chunk c then [CHR 0xEF, CHR 0xBF, CHR 0xBD] else snd c) (rune_chunks s))"

lemma json_string_valid: "valid_utf8 s \<Longrightarrow> json_string s = s"
proof -
  assume "valid_utf8 s"
  then have eq: "map (\<lambda>c. if bad_chunk c then [CHR 0xEF, CHR 0xBF, CHR 0xBD] else snd c) (rune_chunks s)
      = map snd (rune_chunks s)"
    by (simp add: valid_utf8_def list_all_iff)
  show ?thesis
    unfolding json_string_def eq using chunk_bytes_rune_chunks [of s] by (simp only: chunk_bytes_def)
qed

definition event_json :: "normalized_event \<Rightarrow> normalized_event option" where
  "event_json ev =
     (if marshalable_event ev
      then Some (ev
        \<lparr>ev_EventID := map_option json_string (ev_EventID ev),
         ev_EventName := map_option json_string (ev_EventName ev),
         ev_Timestamp := map_option json_string (ev_Timestamp ev),
         ev_SessionID := map_option json_string (ev_SessionID ev),
         ev_Model := map_option json_string (ev_Model ev),
         ev_ToolName := map_option json_string (ev_ToolName ev),
         ev_MCPServer := map_option json_string (ev_MCPServer ev),
         ev_MCPTool := map_option json_string (ev_MCPTool ev),
         ev_SkillName := map_option json_string (ev_SkillName ev),
         ev_Repo := map_option json_string (ev_Repo ev),
         ev_ErrorMessage := map_option json_string (ev_ErrorMessage ev)\<rparr>)
      else None)"

definition point_json :: "metric_point \<Rightarrow> metric_point option" where
  "point_json p =
     (if marshalable_point p
      then Some (p
        \<lparr>mp_MetricName := json_string (mp_MetricName p),
         mp_Timestamp := map_option json_string (mp_Timestamp p),
         mp_Model := map_option json_string (mp_Model p),
         mp_Repo := map_option json_string (mp_Repo p),
         mp_SessionID := map_option json_string (mp_SessionID p),
         mp_PointID := map_option json_string (mp_PointID p)\<rparr>)
      else None)"

subsection \<open>Enqueue\<close>

text \<open>The insert loop, inside the transaction: row \<open>k\<close> of the batch is marshalled, gets a fresh
  UUID and is inserted as a pending row.\<close>

fun insert_rows ::
    "qenv \<Rightarrow> ('p \<Rightarrow> 'p option) \<Rightarrow> nat \<Rightarrow> 'p list \<Rightarrow> 'p qrow list \<Rightarrow> queue_error + 'p qrow list" where
  "insert_rows E js k [] rows = Inr rows"
| "insert_rows E js k (p # ps) rows =
     (case js p of
        None \<Rightarrow> Inl (Q_Marshal k)
      | Some payload \<Rightarrow>
          if q_fail E (S_Mint k) then Inl (Q_Stmt (S_Mint k))
          else if q_fail E (S_Insert k) then Inl (Q_Stmt (S_Insert k))
          else insert_rows E js (k + 1) ps
            (rows @ [\<lparr>row_id = q_alloc E (map row_id rows), row_key = Some (q_uuid E k),
               row_payload = payload, row_created = format_fixed (q_now E), row_attempts = 0,
               row_state = Pending, row_until = None, row_acked = None\<rparr>]))"

definition insert_batch ::
    "qenv \<Rightarrow> ('p \<Rightarrow> 'p option) \<Rightarrow> 'p list \<Rightarrow> 'p qrow list \<Rightarrow> queue_error + 'p qrow list" where
  "insert_batch E js ps rows =
     (if q_fail E S_Prepare then Inl (Q_Stmt S_Prepare) else insert_rows E js 0 ps rows)"

text \<open>Eviction. \<open>victims\<close> is the inner query of the delete statement.\<close>

definition evictTarget :: "int \<Rightarrow> int \<Rightarrow> int" where
  "evictTarget rows maxRows =
     (let over = rows - maxRows in if over > evictChunk then over else evictChunk)"

definition is_acked :: "'p qrow \<Rightarrow> bool" where
  "is_acked r \<longleftrightarrow> row_state r = Acked"

definition victims :: "int \<Rightarrow> 'p qrow list \<Rightarrow> int list" where
  "victims n rows =
     take (nat n) (map row_id (sort_key row_id (filter is_acked rows)
                               @ sort_key row_id (filter (\<lambda>r. \<not> is_acked r) rows)))"

definition delete_ids :: "int list \<Rightarrow> 'p qrow list \<Rightarrow> 'p qrow list" where
  "delete_ids ids rows = filter (\<lambda>r. row_id r \<notin> set ids) rows"

definition overCap :: "caps \<Rightarrow> int \<Rightarrow> int \<Rightarrow> bool" where
  "overCap c rows bytes \<longleftrightarrow> rows > cap_rows c \<or> bytes > cap_bytes c"

lemma evictTarget_pos: "512 \<le> evictTarget r m"
  by (simp add: evictTarget_def evictChunk_def Let_def)

lemma set_victims: "set (victims n rows) \<subseteq> row_id ` set rows"
  unfolding victims_def by (rule order_trans [OF set_take_subset]) auto

lemma delete_none: "length (delete_ids ids rows) = length rows \<Longrightarrow> delete_ids ids rows = rows"
  by (metis delete_ids_def filter_True length_filter_less less_irrefl)

text \<open>The loop of \<open>evictIfNeeded\<close>: the \<open>k\<close>-th round counts, measures, deletes, vacuums. It
  returns the rows left and the number of rows deleted, with the error that stopped it, if any.
  Every round but the last deletes a row, so it ends whatever the file size does.\<close>

function evict_loop ::
    "qenv \<Rightarrow> caps \<Rightarrow> nat \<Rightarrow> 'p qrow list \<Rightarrow> int \<Rightarrow> (queue_error + unit) \<times> 'p qrow list \<times> int" where
  "evict_loop E c k rows evicted =
     (if q_fail E (S_Count k) then (Inl (Q_Stmt (S_Count k)), rows, evicted)
      else if q_fail E (S_Pages k) then (Inl (Q_Stmt (S_Pages k)), rows, evicted)
      else if \<not> overCap c (int (length rows)) (q_size E k) then (Inr (), rows, evicted)
      else if q_fail E (S_Delete k) then (Inl (Q_Stmt (S_Delete k)), rows, evicted)
      else (let rows' = delete_ids (victims (evictTarget (int (length rows)) (cap_rows c)) rows) rows;
                deleted = int (length rows) - int (length rows')
            in if deleted = 0 then (Inr (), rows', evicted)
               else if q_fail E (S_Vacuum k)
                    then (Inl (Q_Stmt (S_Vacuum k)), rows', evicted + deleted)
               else evict_loop E c (k + 1) rows' (evicted + deleted)))"
  by pat_completeness auto
termination
proof (relation "measure (\<lambda>(_, _, _, rows, _). length rows)")
  fix E :: qenv and c k and rows :: "'p qrow list" and evicted x xa
  assume "x = delete_ids (victims (evictTarget (int (length rows)) (cap_rows c)) rows) rows"
    "xa = int (length rows) - int (length x)" "xa \<noteq> 0"
  moreover from this have "length x \<le> length rows"
    by (simp add: delete_ids_def)
  ultimately show "((E, c, k + 1, x, evicted + xa), E, c, k, rows, evicted)
      \<in> measure (\<lambda>(_, _, _, rows, _). length rows)"
    by simp
qed simp

declare evict_loop.simps [simp del]

text \<open>A table with its counter of evicted rows.\<close>

record 'p table =
  tab_rows :: "'p qrow list"
  tab_evicted :: int

definition enqueue_table ::
    "qenv \<Rightarrow> caps \<Rightarrow> ('p \<Rightarrow> 'p option) \<Rightarrow> 'p list \<Rightarrow> 'p table \<Rightarrow> (queue_error + unit) \<times> 'p table" where
  "enqueue_table E c js ps t =
     (if ps = [] then (Inr (), t)
      else if q_fail E S_Begin then (Inl (Q_Stmt S_Begin), t)
      else (case insert_batch E js ps (tab_rows t) of
          Inl e \<Rightarrow> (Inl e, t)
        | Inr rows \<Rightarrow>
            if q_fail E S_Commit then (Inl (Q_Stmt S_Commit), t)
            else (case evict_loop E c 0 rows (tab_evicted t) of (res, rows', ev) \<Rightarrow>
              (res, \<lparr>tab_rows = rows', tab_evicted = ev\<rparr>))))"

subsection \<open>Lease, ack, nack\<close>

definition leasable :: "string \<Rightarrow> 'p qrow \<Rightarrow> bool" where
  "leasable now r \<longleftrightarrow> row_state r = Pending
     \<or> (row_state r = Leased \<and> (case row_until r of None \<Rightarrow> True | Some u \<Rightarrow> u < now))"

definition selectLeasable :: "instant \<Rightarrow> int \<Rightarrow> 'p qrow list \<Rightarrow> 'p qrow list" where
  "selectLeasable now n rows =
     take (nat n) (sort_key row_id (filter (leasable (format_fixed now)) rows))"

definition updateByIDs :: "('p qrow \<Rightarrow> 'p qrow) \<Rightarrow> int list \<Rightarrow> 'p qrow list \<Rightarrow> 'p qrow list" where
  "updateByIDs f ids rows = map (\<lambda>r. if row_id r \<in> set ids then f r else r) rows"

definition set_leased :: "string \<Rightarrow> 'p qrow \<Rightarrow> 'p qrow" where
  "set_leased until r = r\<lparr>row_state := Leased, row_until := Some until\<rparr>"

definition set_acked :: "string \<Rightarrow> 'p qrow \<Rightarrow> 'p qrow" where
  "set_acked now r = r\<lparr>row_state := Acked, row_acked := Some now, row_until := None\<rparr>"

definition set_nacked :: "'p qrow \<Rightarrow> 'p qrow" where
  "set_nacked r = r\<lparr>row_state := Pending, row_until := None, row_attempts := row_attempts r + 1\<rparr>"

definition update_table ::
    "qenv \<Rightarrow> ('p qrow \<Rightarrow> 'p qrow) \<Rightarrow> int list \<Rightarrow> 'p table \<Rightarrow> (queue_error + unit) \<times> 'p table" where
  "update_table E f ids t =
     (if q_fail E S_Update then (Inl (Q_Stmt S_Update), t)
      else (Inr (), t\<lparr>tab_rows := updateByIDs f ids (tab_rows t)\<rparr>))"

definition lease_table ::
    "qenv \<Rightarrow> int \<Rightarrow> int \<Rightarrow> 'p table \<Rightarrow> (queue_error + 'p item list) \<times> 'p table" where
  "lease_table E n leaseDur t =
     (if n \<le> 0 then (Inr [], t)
      else if q_fail E S_Select then (Inl (Q_Stmt S_Select), t)
      else (let sel = selectLeasable (q_now E) n (tab_rows t) in
        if sel = [] then (Inr [], t)
        else (case update_table E (set_leased (format_fixed (q_now E + leaseDur))) (map row_id sel) t of
            (Inl e, t') \<Rightarrow> (Inl e, t')
          | (Inr _, t') \<Rightarrow> (Inr (map scanItem sel), t'))))"

definition ack_table :: "qenv \<Rightarrow> int list \<Rightarrow> 'p table \<Rightarrow> (queue_error + unit) \<times> 'p table" where
  "ack_table E ids t =
     (if ids = [] then (Inr (), t) else update_table E (set_acked (format_fixed (q_now E))) ids t)"

definition nack_table :: "qenv \<Rightarrow> int list \<Rightarrow> 'p table \<Rightarrow> (queue_error + unit) \<times> 'p table" where
  "nack_table E ids t = (if ids = [] then (Inr (), t) else update_table E set_nacked ids t)"

subsection \<open>Prune, depth, statistics\<close>

definition prunable :: "string \<Rightarrow> 'p qrow \<Rightarrow> bool" where
  "prunable cutoff r \<longleftrightarrow> row_state r = Acked \<and> (case row_acked r of None \<Rightarrow> False | Some a \<Rightarrow> a < cutoff)"

definition prune_table :: "qenv \<Rightarrow> instant \<Rightarrow> 'p table \<Rightarrow> (int \<times> queue_error option) \<times> 'p table" where
  "prune_table E cutoff t =
     (if q_fail E S_Prune then ((0, Some (Q_Stmt S_Prune)), t)
      else (let rows' = filter (\<lambda>r. \<not> prunable (format_fixed cutoff) r) (tab_rows t);
                deleted = int (length (tab_rows t)) - int (length rows')
            in ((deleted, if deleted > 0 \<and> q_fail E (S_Vacuum 0) then Some (Q_Stmt (S_Vacuum 0)) else None),
                t\<lparr>tab_rows := rows'\<rparr>)))"

definition depth_table :: "qenv \<Rightarrow> 'p table \<Rightarrow> queue_error + int" where
  "depth_table E t =
     (if q_fail E (S_Count 0) then Inl (Q_Stmt (S_Count 0))
      else Inr (int (length (filter (\<lambda>r. \<not> is_acked r) (tab_rows t)))))"

record queue_stats =
  qs_Pending :: int
  qs_Leased :: int
  qs_Acked :: int
  qs_Evicted :: int

definition count_state :: "row_state \<Rightarrow> 'p qrow list \<Rightarrow> int" where
  "count_state s rows = int (length (filter (\<lambda>r. row_state r = s) rows))"

definition stats_table :: "qenv \<Rightarrow> 'p table \<Rightarrow> queue_error + queue_stats" where
  "stats_table E t =
     (if q_fail E S_Select then Inl (Q_Stmt S_Select)
      else Inr \<lparr>qs_Pending = count_state Pending (tab_rows t), qs_Leased = count_state Leased (tab_rows t),
                qs_Acked = count_state Acked (tab_rows t), qs_Evicted = tab_evicted t\<rparr>)"

subsection \<open>The methods\<close>

text \<open>\<open>queue.go\<close>, on the \<open>queue\<close> table.\<close>

type_synonym event_table = "normalized_event table"
type_synonym metric_table = "metric_point table"

definition Enqueue ::
    "qenv \<Rightarrow> caps \<Rightarrow> normalized_event list \<Rightarrow> event_table \<Rightarrow> (queue_error + unit) \<times> event_table" where
  "Enqueue E c events t = enqueue_table E c event_json events t"

definition LeaseBatch ::
    "qenv \<Rightarrow> int \<Rightarrow> int \<Rightarrow> event_table \<Rightarrow> (queue_error + normalized_event item list) \<times> event_table" where
  "LeaseBatch E n leaseDur t = lease_table E n leaseDur t"

definition Ack :: "qenv \<Rightarrow> int list \<Rightarrow> event_table \<Rightarrow> (queue_error + unit) \<times> event_table" where
  "Ack E ids t = ack_table E ids t"

definition Nack :: "qenv \<Rightarrow> int list \<Rightarrow> event_table \<Rightarrow> (queue_error + unit) \<times> event_table" where
  "Nack E ids t = nack_table E ids t"

definition PruneAcked :: "qenv \<Rightarrow> instant \<Rightarrow> event_table \<Rightarrow> (int \<times> queue_error option) \<times> event_table" where
  "PruneAcked E cutoff t = prune_table E cutoff t"

definition Depth :: "qenv \<Rightarrow> event_table \<Rightarrow> queue_error + int" where
  "Depth E t = depth_table E t"

definition QueueStats :: "qenv \<Rightarrow> event_table \<Rightarrow> queue_error + queue_stats" where
  "QueueStats E t = stats_table E t"

text \<open>\<open>metrics.go\<close>, on the \<open>metrics_queue\<close> table. Its eviction has the caps, the statements and the
  measurements of the other one, but does not count.\<close>

definition evictMetricsIfNeeded ::
    "qenv \<Rightarrow> caps \<Rightarrow> metric_point qrow list \<Rightarrow> (queue_error + unit) \<times> metric_point qrow list" where
  "evictMetricsIfNeeded E c rows =
     (case evict_loop E c 0 rows 0 of (res, rows', _) \<Rightarrow> (res, rows'))"

definition EnqueueMetrics ::
    "qenv \<Rightarrow> caps \<Rightarrow> metric_point list \<Rightarrow> metric_table \<Rightarrow> (queue_error + unit) \<times> metric_table" where
  "EnqueueMetrics E c points t =
     (if points = [] then (Inr (), t)
      else if q_fail E S_Begin then (Inl (Q_Stmt S_Begin), t)
      else (case insert_batch E point_json points (tab_rows t) of
          Inl e \<Rightarrow> (Inl e, t)
        | Inr rows \<Rightarrow>
            if q_fail E S_Commit then (Inl (Q_Stmt S_Commit), t)
            else (case evictMetricsIfNeeded E c rows of (res, rows') \<Rightarrow>
              (res, t\<lparr>tab_rows := rows'\<rparr>))))"

definition LeaseMetricsBatch ::
    "qenv \<Rightarrow> int \<Rightarrow> int \<Rightarrow> metric_table \<Rightarrow> (queue_error + metric_point item list) \<times> metric_table" where
  "LeaseMetricsBatch E n leaseDur t = lease_table E n leaseDur t"

definition AckMetrics :: "qenv \<Rightarrow> int list \<Rightarrow> metric_table \<Rightarrow> (queue_error + unit) \<times> metric_table" where
  "AckMetrics E ids t = ack_table E ids t"

definition NackMetrics :: "qenv \<Rightarrow> int list \<Rightarrow> metric_table \<Rightarrow> (queue_error + unit) \<times> metric_table" where
  "NackMetrics E ids t = nack_table E ids t"

definition PruneAckedMetrics ::
    "qenv \<Rightarrow> instant \<Rightarrow> metric_table \<Rightarrow> (int \<times> queue_error option) \<times> metric_table" where
  "PruneAckedMetrics E cutoff t = prune_table E cutoff t"

subsection \<open>A concrete environment\<close>

text \<open>An environment in which nothing fails, ids are allotted as SQLite does, and the file is
  small.\<close>

definition sqlite_alloc :: "int list \<Rightarrow> int" where
  "sqlite_alloc ids = foldl max 0 ids + 1"

definition good_env :: "instant \<Rightarrow> qenv" where
  "good_env t = \<lparr>q_now = t, q_alloc = sqlite_alloc, q_uuid = (\<lambda>_. ''u''), q_size = (\<lambda>_. 0),
     q_fail = (\<lambda>_. False)\<rparr>"

definition empty_table :: "'p table" where
  "empty_table = \<lparr>tab_rows = [], tab_evicted = 0\<rparr>"

end
