(* ===== verification/Session_Queue.thy ===== *)
theory Session_Queue
  imports Sql_Queue
begin

text \<open>
  \<open>internal/queue/sessions.go\<close>: the durable session summaries. Normalized events are grouped by
  session and folded into one row per session; each upsert gives the row a new revision, and a
  lease names the revision it uploads.

  The error oracle and the clock are those of \<open>Sql_Queue\<close>. \<open>UpsertSessionEvents\<close> ranges over a Go
  map of groups: the order is an argument. Rows with the same \<open>updated_at\<close> are leased in table
  order.
\<close>

subsection \<open>Labels and stamps\<close>

definition eventStamp :: "string option \<Rightarrow> instant \<Rightarrow> string" where
  "eventStamp raw fallback =
     (case raw of
        Some s \<Rightarrow> (case parse_rfc3339 s of Some t \<Rightarrow> format_rfc3339 t | None \<Rightarrow> format_rfc3339 fallback)
      | None \<Rightarrow> format_rfc3339 fallback)"

definition analyticalModel :: "string option \<Rightarrow> string option" where
  "analyticalModel v = (case v of
     None \<Rightarrow> None
   | Some v \<Rightarrow>
       (let s = trim_space v in
        if s = [] \<or> equal_fold s ''mixed'' \<or> has_prefix (to_lower s) ''mixed:''
           \<or> has_prefix s ''/'' \<or> has_prefix s ''~'' \<or> contains s [CHR 0x5C]
        then None else Some s))"

definition modelKey :: "string option \<Rightarrow> string" where
  "modelKey v = (case v of None \<Rightarrow> CHR 0x00 # ''unknown'' | Some s \<Rightarrow> s)"

definition sanitizeLabel :: "string \<Rightarrow> string" where
  "sanitizeLabel v =
     (let s = trim_space v in if contains s ''/'' \<or> contains s [CHR 0x5C] then [] else s)"

definition terminalEvent :: "string option \<Rightarrow> bool" where
  "terminalEvent v = (case v of
     None \<Rightarrow> False
   | Some v \<Rightarrow>
       (let s = to_lower v in
        contains s ''session.end'' \<or> contains s ''session_end''
        \<or> contains s ''conversation.end'' \<or> contains s ''conversation_end''))"

subsection \<open>Merging an event\<close>

text \<open>The map of models, keyed by \<open>modelKey\<close>.\<close>

type_synonym model_map = "(string \<times> session_model_usage) list"

definition mergeSessionTimes :: "session_summary \<Rightarrow> string \<Rightarrow> session_summary" where
  "mergeSessionTimes summary stamp =
     (let summary = (if ss_StartedAt summary = [] \<or> stamp < ss_StartedAt summary
                     then summary\<lparr>ss_StartedAt := stamp\<rparr> else summary)
      in if stamp > ss_LastActivityAt summary then summary\<lparr>ss_LastActivityAt := stamp\<rparr> else summary)"

definition mergeSessionRepo :: "session_summary \<Rightarrow> normalized_event \<Rightarrow> session_summary" where
  "mergeSessionRepo summary event =
     (case (ss_Repo summary, ev_Repo event) of
        (None, Some r) \<Rightarrow>
          (let repo = sanitizeLabel r in
           if repo \<noteq> [] then summary\<lparr>ss_Repo := Some repo\<rparr> else summary)
      | _ \<Rightarrow> summary)"

definition mergeSessionSource :: "session_summary \<Rightarrow> normalized_event \<Rightarrow> session_summary" where
  "mergeSessionSource summary event =
     (case (ss_Source summary, ev_EventName event) of
        (None, Some n) \<Rightarrow>
          (let source = (case cut ''.'' n of None \<Rightarrow> n | Some (a, _) \<Rightarrow> a) in
           if source \<noteq> [] then summary\<lparr>ss_Source := Some source\<rparr> else summary)
      | _ \<Rightarrow> summary)"

definition mergeSessionLabels :: "session_summary \<Rightarrow> normalized_event \<Rightarrow> session_summary" where
  "mergeSessionLabels summary event = mergeSessionSource (mergeSessionRepo summary event) event"

definition addSessionCost :: "session_summary \<Rightarrow> float64 \<Rightarrow> session_summary" where
  "addSessionCost summary cost =
     (let old = (case ss_CostUSD summary of None \<Rightarrow> Fin 0 | Some c \<Rightarrow> c)
      in summary\<lparr>ss_CostUSD := Some (float_add old cost)\<rparr>)"

definition usage_add :: "session_model_usage \<Rightarrow> normalized_event \<Rightarrow> session_model_usage" where
  "usage_add row event = row
     \<lparr>mu_InputTokens := mu_InputTokens row + or_zero (ev_InputTokens event),
      mu_OutputTokens := mu_OutputTokens row + or_zero (ev_OutputTokens event),
      mu_CacheReadTokens := mu_CacheReadTokens row + or_zero (ev_CacheReadTokens event),
      mu_CacheCreateTokens := mu_CacheCreateTokens row + or_zero (ev_CacheCreateTokens event)\<rparr>"

definition new_usage :: "string option \<Rightarrow> session_model_usage" where
  "new_usage model = \<lparr>mu_Model = model, mu_InputTokens = 0, mu_OutputTokens = 0,
     mu_CacheReadTokens = 0, mu_CacheCreateTokens = 0\<rparr>"

definition mergeSessionUsage ::
    "session_summary \<Rightarrow> model_map \<Rightarrow> normalized_event \<Rightarrow> session_summary \<times> model_map" where
  "mergeSessionUsage summary models event =
     (let model = analyticalModel (ev_Model event);
          key = modelKey model;
          row = (case map_of models key of None \<Rightarrow> new_usage model | Some row \<Rightarrow> row);
          models = AList.update key (usage_add row event) models;
          summary = summary
            \<lparr>ss_InputTokens := ss_InputTokens summary + or_zero (ev_InputTokens event),
             ss_OutputTokens := ss_OutputTokens summary + or_zero (ev_OutputTokens event),
             ss_CacheReadTokens := ss_CacheReadTokens summary + or_zero (ev_CacheReadTokens event),
             ss_CacheCreateTokens := ss_CacheCreateTokens summary + or_zero (ev_CacheCreateTokens event)\<rparr>;
          summary = (case ev_CostUSD event of None \<Rightarrow> summary | Some c \<Rightarrow> addSessionCost summary c);
          summary = (if ev_ToolName event \<noteq> None
                     then summary\<lparr>ss_ToolCalls := ss_ToolCalls summary + 1\<rparr> else summary)
      in (summary, models))"

definition mergeSessionOutcome :: "session_summary \<Rightarrow> normalized_event \<Rightarrow> string \<Rightarrow> session_summary" where
  "mergeSessionOutcome summary event stamp =
     (let summary = (if ev_ErrorMessage event \<noteq> None
            then summary\<lparr>ss_ErrorCount := ss_ErrorCount summary + 1, ss_Outcome := ''failed''\<rparr>
            else summary)
      in if terminalEvent (ev_EventName event) \<and> ss_Outcome summary \<noteq> ''failed''
         then summary\<lparr>ss_Outcome := ''succeeded'', ss_EndedAt := Some stamp\<rparr> else summary)"

definition mergeSessionEvent ::
    "instant \<Rightarrow> session_summary \<times> model_map \<Rightarrow> normalized_event \<Rightarrow> session_summary \<times> model_map" where
  "mergeSessionEvent now acc event =
     (let (summary, models) = acc;
          stamp = eventStamp (ev_Timestamp event) now;
          summary = mergeSessionTimes summary stamp;
          summary = mergeSessionLabels summary event;
          (summary, models) = mergeSessionUsage summary models event
      in (mergeSessionOutcome summary event stamp, models))"

definition finishSessionModels :: "session_summary \<Rightarrow> model_map \<Rightarrow> session_summary" where
  "finishSessionModels summary models =
     (let ms = map (\<lambda>k. the (map_of models k)) (sort (map fst models))
      in summary\<lparr>ss_Models := ms,
           ss_Model := (if length ms = 1 then mu_Model (hd ms) else None)\<rparr>)"

definition setSessionUpdatedAt :: "session_summary \<Rightarrow> instant \<Rightarrow> session_summary" where
  "setSessionUpdatedAt summary now =
     (let updated = now - now mod nanos;
          updated = (case parse_rfc3339 (ss_UpdatedAt summary) of
              None \<Rightarrow> updated
            | Some prior \<Rightarrow> if \<not> updated > prior then prior + nanos else updated)
      in summary\<lparr>ss_UpdatedAt := format_rfc3339 updated\<rparr>)"

definition init_summary :: "session_summary \<Rightarrow> string \<Rightarrow> session_summary" where
  "init_summary summary sessionID =
     (if ss_SessionID summary = []
      then summary\<lparr>ss_SessionID := sessionID, ss_Outcome := ''running'', ss_Models := [],
             ss_ModelBreakdownComplete := True\<rparr>
      else summary)"

definition load_models :: "session_model_usage list \<Rightarrow> model_map" where
  "load_models rows = foldl (\<lambda>m row. AList.update (modelKey (mu_Model row)) row m) [] rows"

definition mergeSessionEvents ::
    "session_summary \<Rightarrow> string \<Rightarrow> normalized_event list \<Rightarrow> instant \<Rightarrow> session_summary" where
  "mergeSessionEvents summary sessionID events now =
     (let summary = init_summary summary sessionID;
          (summary, models) = foldl (mergeSessionEvent now) (summary, load_models (ss_Models summary)) events
      in setSessionUpdatedAt (finishSessionModels summary models) now)"

subsection \<open>Grouping and upsert\<close>

type_synonym session_group = "string \<times> normalized_event list"

definition group_put :: "session_group list \<Rightarrow> normalized_event \<Rightarrow> session_group list" where
  "group_put groups event = (case ev_SessionID event of
     None \<Rightarrow> groups
   | Some sid \<Rightarrow>
       if trim_space sid = [] then groups
       else AList.update sid
         ((case map_of groups sid of None \<Rightarrow> [] | Some g \<Rightarrow> g) @ [event]) groups)"

definition groupSessionEvents :: "normalized_event list \<Rightarrow> session_group list" where
  "groupSessionEvents events = foldl group_put [] events"

record session_row =
  sr_SessionID :: string
  sr_Revision :: int
  sr_Payload :: session_summary
  sr_UpdatedAt :: string
  sr_CreatedAt :: string
  sr_Attempts :: int
  sr_State :: row_state
  sr_LeasedUntil :: "string option"
  sr_AckedAt :: "string option"

definition usage_json :: "session_model_usage \<Rightarrow> session_model_usage" where
  "usage_json u = u\<lparr>mu_Model := map_option json_string (mu_Model u)\<rparr>"

definition summary_json :: "session_summary \<Rightarrow> session_summary option" where
  "summary_json s =
     (if marshalable_summary s
      then Some (s
        \<lparr>ss_SessionID := json_string (ss_SessionID s),
         ss_UpdatedAt := json_string (ss_UpdatedAt s),
         ss_StartedAt := json_string (ss_StartedAt s),
         ss_LastActivityAt := json_string (ss_LastActivityAt s),
         ss_EndedAt := map_option json_string (ss_EndedAt s),
         ss_Title := map_option json_string (ss_Title s),
         ss_Summary := map_option json_string (ss_Summary s),
         ss_Repo := map_option json_string (ss_Repo s),
         ss_WorkspaceLabel := map_option json_string (ss_WorkspaceLabel s),
         ss_Model := map_option json_string (ss_Model s),
         ss_Models := map usage_json (ss_Models s),
         ss_Source := map_option json_string (ss_Source s),
         ss_Outcome := json_string (ss_Outcome s),
         ss_StopReason := map_option json_string (ss_StopReason s)\<rparr>)
      else None)"

definition find_session :: "string \<Rightarrow> session_row list \<Rightarrow> session_row option" where
  "find_session sid rows = find (\<lambda>r. sr_SessionID r = sid) rows"

definition loadSessionSummary :: "session_row list \<Rightarrow> string \<Rightarrow> session_summary" where
  "loadSessionSummary rows sid =
     (case find_session sid rows of None \<Rightarrow> empty_summary | Some r \<Rightarrow> sr_Payload r)"

text \<open>The \<open>INSERT ... ON CONFLICT(session_id) DO UPDATE\<close>.\<close>

definition upsert_row ::
    "string \<Rightarrow> session_summary \<Rightarrow> string \<Rightarrow> string \<Rightarrow> session_row list \<Rightarrow> session_row list" where
  "upsert_row sid payload updated created rows =
     (if find_session sid rows = None
      then rows @ [\<lparr>sr_SessionID = sid, sr_Revision = 1, sr_Payload = payload, sr_UpdatedAt = updated,
             sr_CreatedAt = created, sr_Attempts = 0, sr_State = Pending, sr_LeasedUntil = None,
             sr_AckedAt = None\<rparr>]
      else map (\<lambda>r. if sr_SessionID r = sid
             then r\<lparr>sr_Revision := sr_Revision r + 1, sr_Payload := payload, sr_UpdatedAt := updated,
                    sr_State := Pending, sr_LeasedUntil := None, sr_AckedAt := None\<rparr>
             else r) rows)"

definition upsertSessionGroup ::
    "qenv \<Rightarrow> instant \<Rightarrow> nat \<Rightarrow> session_group \<Rightarrow> session_row list \<Rightarrow> queue_error + session_row list" where
  "upsertSessionGroup E now k g rows = (case g of (sid, events) \<Rightarrow>
     if q_fail E (S_Load k) then Inl (Q_Stmt (S_Load k))
     else (let summary = mergeSessionEvents (loadSessionSummary rows sid) sid events now in
       case summary_json summary of
         None \<Rightarrow> Inl (Q_Marshal k)
       | Some payload \<Rightarrow>
           if q_fail E (S_Insert k) then Inl (Q_Stmt (S_Insert k))
           else Inr (upsert_row sid payload (ss_UpdatedAt summary) (format_fixed now) rows)))"

fun upsert_groups ::
    "qenv \<Rightarrow> instant \<Rightarrow> nat \<Rightarrow> session_group list \<Rightarrow> session_row list \<Rightarrow> queue_error + session_row list" where
  "upsert_groups E now k [] rows = Inr rows"
| "upsert_groups E now k (g # gs) rows =
     (case upsertSessionGroup E now k g rows of
        Inl e \<Rightarrow> Inl e
      | Inr rows' \<Rightarrow> upsert_groups E now (k + 1) gs rows')"

definition maxSessionRows :: nat where "maxSessionRows = 10000"

definition session_acked :: "session_row \<Rightarrow> bool" where
  "session_acked r \<longleftrightarrow> sr_State r = Acked"

definition trim_victims :: "session_row list \<Rightarrow> string list" where
  "trim_victims rows =
     take (length rows - maxSessionRows)
       (map sr_SessionID (sort_key sr_UpdatedAt (filter session_acked rows)
                          @ sort_key sr_UpdatedAt (filter (\<lambda>r. \<not> session_acked r) rows)))"

definition trim_sessions :: "qenv \<Rightarrow> session_row list \<Rightarrow> session_row list" where
  "trim_sessions E rows =
     (if q_fail E S_Trim then rows
      else filter (\<lambda>r. sr_SessionID r \<notin> set (trim_victims rows)) rows)"

definition UpsertSessionEvents ::
    "qenv \<Rightarrow> (session_group list \<Rightarrow> session_group list) \<Rightarrow> normalized_event list \<Rightarrow> instant
      \<Rightarrow> session_row list \<Rightarrow> (queue_error + nat) \<times> session_row list" where
  "UpsertSessionEvents E order events now rows =
     (let groups = groupSessionEvents events in
      if groups = [] then (Inr 0, rows)
      else if q_fail E S_Begin then (Inl (Q_Stmt S_Begin), rows)
      else (case upsert_groups E now 0 (order groups) rows of
          Inl e \<Rightarrow> (Inl e, rows)
        | Inr rows' \<Rightarrow>
            if q_fail E S_Commit then (Inl (Q_Stmt S_Commit), rows)
            else (Inr (length groups), trim_sessions E rows')))"

subsection \<open>Lease, finish, prune\<close>

text \<open>A \<open>SessionLease\<close> is the pair of a session id and a revision.\<close>

type_synonym session_lease = "string \<times> int"

record session_item =
  si_SessionID :: string
  si_Revision :: int
  si_Summary :: session_summary
  si_Attempts :: int

definition scanSessionItem :: "session_row \<Rightarrow> session_item" where
  "scanSessionItem r = \<lparr>si_SessionID = sr_SessionID r, si_Revision = sr_Revision r,
     si_Summary = sr_Payload r, si_Attempts = sr_Attempts r\<rparr>"

definition item_lease :: "session_item \<Rightarrow> session_lease" where
  "item_lease i = (si_SessionID i, si_Revision i)"

definition session_leasable :: "string \<Rightarrow> session_row \<Rightarrow> bool" where
  "session_leasable now r \<longleftrightarrow> sr_State r = Pending
     \<or> (sr_State r = Leased \<and> (case sr_LeasedUntil r of None \<Rightarrow> True | Some u \<Rightarrow> u < now))"

text \<open>An \<open>UPDATE ... WHERE session_id=? AND revision=?\<close>.\<close>

definition update_revision ::
    "(session_row \<Rightarrow> session_row) \<Rightarrow> string \<Rightarrow> int \<Rightarrow> session_row list \<Rightarrow> session_row list" where
  "update_revision f sid n rows =
     map (\<lambda>r. if sr_SessionID r = sid \<and> sr_Revision r = n then f r else r) rows"

text \<open>The loops that run one update per key; the first failure stops the loop and what was
  written stays.\<close>

fun update_each ::
    "qenv \<Rightarrow> (session_row \<Rightarrow> session_row) \<Rightarrow> nat \<Rightarrow> session_lease list \<Rightarrow> session_row list
      \<Rightarrow> (queue_error + unit) \<times> session_row list" where
  "update_each E f k [] rows = (Inr (), rows)"
| "update_each E f k ((sid, n) # keys) rows =
     (if q_fail E (S_UpdateItem k) then (Inl (Q_Stmt (S_UpdateItem k)), rows)
      else update_each E f (k + 1) keys (update_revision f sid n rows))"

definition session_set_leased :: "string \<Rightarrow> session_row \<Rightarrow> session_row" where
  "session_set_leased until r = r\<lparr>sr_State := Leased, sr_LeasedUntil := Some until\<rparr>"

definition session_set_acked :: "string \<Rightarrow> session_row \<Rightarrow> session_row" where
  "session_set_acked now r = r\<lparr>sr_State := Acked, sr_AckedAt := Some now, sr_LeasedUntil := None\<rparr>"

definition session_set_nacked :: "session_row \<Rightarrow> session_row" where
  "session_set_nacked r =
     r\<lparr>sr_State := Pending, sr_Attempts := sr_Attempts r + 1, sr_LeasedUntil := None\<rparr>"

definition LeaseSessionsBatch ::
    "qenv \<Rightarrow> int \<Rightarrow> int \<Rightarrow> session_row list \<Rightarrow> (queue_error + session_item list) \<times> session_row list" where
  "LeaseSessionsBatch E n leaseDur rows =
     (if n \<le> 0 then (Inr [], rows)
      else (let n = (if n > 500 then 500 else n) in
        if q_fail E S_Select then (Inl (Q_Stmt S_Select), rows)
        else (let items = map scanSessionItem (take (nat n) (sort_key sr_UpdatedAt
                  (filter (session_leasable (format_fixed (q_now E))) rows)));
                  (res, rows') = update_each E
                    (session_set_leased (format_fixed (q_now E + leaseDur))) 0 (map item_lease items) rows
              in case res of Inl e \<Rightarrow> (Inl e, rows') | Inr _ \<Rightarrow> (Inr items, rows'))))"

definition finishSessions ::
    "qenv \<Rightarrow> session_lease list \<Rightarrow> bool \<Rightarrow> session_row list \<Rightarrow> (queue_error + unit) \<times> session_row list" where
  "finishSessions E keys ack rows =
     update_each E (if ack then session_set_acked (format_fixed (q_now E)) else session_set_nacked)
       0 keys rows"

definition AckSessions ::
    "qenv \<Rightarrow> session_lease list \<Rightarrow> session_row list \<Rightarrow> (queue_error + unit) \<times> session_row list" where
  "AckSessions E keys rows = finishSessions E keys True rows"

definition NackSessions ::
    "qenv \<Rightarrow> session_lease list \<Rightarrow> session_row list \<Rightarrow> (queue_error + unit) \<times> session_row list" where
  "NackSessions E keys rows = finishSessions E keys False rows"

definition PruneAckedSessions ::
    "qenv \<Rightarrow> instant \<Rightarrow> session_row list \<Rightarrow> (queue_error + int) \<times> session_row list" where
  "PruneAckedSessions E cutoff rows =
     (if q_fail E S_Prune then (Inl (Q_Stmt S_Prune), rows)
      else (let rows' = filter (\<lambda>r. \<not> (sr_State r = Acked \<and> (case sr_AckedAt r of
                   None \<Rightarrow> False | Some a \<Rightarrow> a < format_fixed cutoff))) rows
            in (Inr (int (length rows) - int (length rows')), rows')))"

end
