(* ===== verification/Api_Client.thy ===== *)
theory Api_Client
  imports Counters Session_Queue
begin

text \<open>
  \<open>internal/api\<close>: the typed HTTP client of the ingest API (\<open>client.go\<close>, \<open>device.go\<close>,
  \<open>inventory.go\<close>). A call is a sequence of attempts; an attempt sends a request and classifies the
  reply. The network is an oracle: the reply to the \<open>k\<close>-th request of the client's life, how long
  it took, and whether the caller's context is cancelled after it. A body is the text received and
  the JSON value it decodes to, if any; a JSON integer is an \<open>AInt64\<close>. The client's clock is what
  attempts and back-off sleeps add up to.
\<close>

subsection \<open>Requests, replies, errors\<close>

record inventory_item =
  ii_Kind :: string
  ii_Name :: string
  ii_Source :: string
  ii_Description :: "string option"
  ii_Version :: "string option"
  ii_ScriptCount :: "int64 option"
  ii_ToolCount :: "int64 option"
  ii_SchemaTokens :: "int64 option"
  ii_Present :: "bool option"

text \<open>The request bodies, before encoding.\<close>

datatype payload =
    P_Register string string string
  | P_Heartbeat int64 "telemetry option"
  | P_Events int64 string "normalized_event list"
  | P_Metrics int64 "metric_point list"
  | P_Sessions int64 "session_summary list"
  | P_Rotate
  | P_Inventory int64 string "inventory_item list"
  | P_DeviceAuthorize string
  | P_DeviceToken string

record request =
  rq_Method :: string
  rq_Path :: string
  rq_Key :: "string option"
  rq_Gzip :: bool
  rq_Payload :: "payload option"

record body =
  bd_text :: string
  bd_json :: "any option"

datatype reply = Net_Error | Reply nat body

datatype api_error =
    AuthError string string
  | ConflictError string
  | TransportError
  | ServerError nat
  | StatusError nat
  | DecodeError
  | MarshalError
  | BatchTooLarge nat
  | DeviceTokenError string
  | RetriesExhausted api_error

record net_env =
  net_reply :: "nat \<Rightarrow> request \<Rightarrow> reply"
  net_time :: "nat \<Rightarrow> int"
  net_cancelled :: "nat \<Rightarrow> bool"
  net_size :: "payload \<Rightarrow> nat"
  net_version :: string

record client =
  cl_key :: string
  cl_gzipOK :: bool
  cl_sent :: "request list"
  cl_clock :: int

text \<open>The number of requests sent so far.\<close>

definition cl_calls :: "client \<Rightarrow> nat" where
  "cl_calls c = length (cl_sent c)"

definition httpTimeout :: int where "httpTimeout = 10 * nanos"
definition gzipThreshold :: nat where "gzipThreshold = 4 * 1024"
definition retryDelays :: "int list" where "retryDelays = [1 * nanos, 2 * nanos, 4 * nanos]"

definition CodeKeyInvalid :: string where "CodeKeyInvalid = ''key_invalid''"
definition CodeKeyRevoked :: string where "CodeKeyRevoked = ''key_revoked''"
definition CodeKeyExpired :: string where "CodeKeyExpired = ''key_expired''"
definition CodeKeyRotated :: string where "CodeKeyRotated = ''key_rotated''"

definition NewClient :: "string \<Rightarrow> client" where
  "NewClient collectorKey = \<lparr>cl_key = collectorKey, cl_gzipOK = True, cl_sent = [], cl_clock = 0\<rparr>"

definition SetKey :: "string \<Rightarrow> client \<Rightarrow> client" where
  "SetKey key c = c\<lparr>cl_key := key\<rparr>"

subsection \<open>Decoding replies\<close>

definition dec_policy :: "any \<Rightarrow> policy option" where
  "dec_policy v = Option.bind (as_object v) (\<lambda>m.
     Option.bind (dec_int m ''flush_interval_seconds'') (\<lambda>f.
     Option.bind (dec_int m ''max_batch_size'') (\<lambda>b.
     Option.bind (dec_str m ''refresh_cadence'') (\<lambda>r.
     Option.bind (dec_bool m ''inventory_enabled'') (\<lambda>i.
       Some \<lparr>pol_FlushIntervalSeconds = f, pol_MaxBatchSize = b, pol_RefreshCadence = r,
             pol_InventoryEnabled = i\<rparr>)))))"

record register_out =
  ro_CollectorID :: int64
  ro_Policy :: policy
  ro_KeyExpiresAt :: "string option"

record heartbeat_out =
  ho_OK :: bool
  ho_Policy :: policy
  ho_KeyExpiresAt :: "string option"

record counts =
  ct_Accepted :: int64
  ct_Dropped :: int64
  ct_Duplicates :: int64

record rotate_out =
  rt_CollectorKey :: string
  rt_KeyID :: int64
  rt_KeyExpiresAt :: string
  rt_OldKeyValidUntil :: string

record inventory_out =
  io_Accepted :: int64
  io_Replaced :: bool
  io_ObservedAt :: string

definition dec_register :: "any \<Rightarrow> register_out option" where
  "dec_register v = Option.bind (as_object v) (\<lambda>m.
     Option.bind (dec_int m ''collector_id'') (\<lambda>i.
     Option.bind (dec_policy (aget m ''policy'')) (\<lambda>p.
     Option.bind (dec_ptr m ''key_expires_at'') (\<lambda>e.
       Some \<lparr>ro_CollectorID = i, ro_Policy = p, ro_KeyExpiresAt = e\<rparr>))))"

definition dec_heartbeat :: "any \<Rightarrow> heartbeat_out option" where
  "dec_heartbeat v = Option.bind (as_object v) (\<lambda>m.
     Option.bind (dec_bool m ''ok'') (\<lambda>k.
     Option.bind (dec_policy (aget m ''policy'')) (\<lambda>p.
     Option.bind (dec_ptr m ''key_expires_at'') (\<lambda>e.
       Some \<lparr>ho_OK = k, ho_Policy = p, ho_KeyExpiresAt = e\<rparr>))))"

definition dec_counts :: "any \<Rightarrow> counts option" where
  "dec_counts v = Option.bind (as_object v) (\<lambda>m.
     Option.bind (dec_int m ''accepted'') (\<lambda>a.
     Option.bind (dec_int m ''dropped'') (\<lambda>d.
     Option.bind (dec_int m ''duplicates'') (\<lambda>u.
       Some \<lparr>ct_Accepted = a, ct_Dropped = d, ct_Duplicates = u\<rparr>))))"

definition dec_rotate :: "any \<Rightarrow> rotate_out option" where
  "dec_rotate v = Option.bind (as_object v) (\<lambda>m.
     Option.bind (dec_str m ''collector_key'') (\<lambda>k.
     Option.bind (dec_int m ''key_id'') (\<lambda>i.
     Option.bind (dec_str m ''key_expires_at'') (\<lambda>e.
     Option.bind (dec_str m ''old_key_valid_until'') (\<lambda>u.
       Some \<lparr>rt_CollectorKey = k, rt_KeyID = i, rt_KeyExpiresAt = e, rt_OldKeyValidUntil = u\<rparr>)))))"

definition dec_inventory :: "any \<Rightarrow> inventory_out option" where
  "dec_inventory v = Option.bind (as_object v) (\<lambda>m.
     Option.bind (dec_int m ''accepted'') (\<lambda>a.
     Option.bind (dec_bool m ''replaced'') (\<lambda>r.
     Option.bind (dec_str m ''observed_at'') (\<lambda>t.
       Some \<lparr>io_Accepted = a, io_Replaced = r, io_ObservedAt = t\<rparr>))))"

text \<open>\<open>decodeJSON\<close>. The target is a decoder of what the body parses to; \<open>into\<close> makes one of a
  struct's decoder, \<open>discard\<close> is the \<open>nil\<close> target.\<close>

type_synonym 'o target = "any option \<Rightarrow> 'o option"

definition into :: "(any \<Rightarrow> 'o option) \<Rightarrow> 'o target" where
  "into dec j = Option.bind j dec"

definition discard :: "unit target" where
  "discard j = Some ()"

definition decodeJSON :: "'o target \<Rightarrow> body \<Rightarrow> api_error + 'o" where
  "decodeJSON dec b = (case dec (bd_json b) of None \<Rightarrow> Inl DecodeError | Some v \<Rightarrow> Inr v)"

text \<open>The bodies that are read through a \<open>LimitReader\<close> of 4096 bytes: a longer text is cut, and
  then no longer decodes.\<close>

definition limited_json :: "body \<Rightarrow> any option" where
  "limited_json b = (if length (bd_text b) > 4096 then None else bd_json b)"

definition json_field :: "any option \<Rightarrow> string \<Rightarrow> string" where
  "json_field v k = (case v of
     Some (AMap m) \<Rightarrow> (case aget m k of AStr s \<Rightarrow> s | _ \<Rightarrow> []) | _ \<Rightarrow> [])"

definition parseAuthBody :: "body \<Rightarrow> string \<times> string" where
  "parseAuthBody b = (json_field (limited_json b) ''error'', json_field (limited_json b) ''detail'')"

definition handleResponse :: "'o target \<Rightarrow> nat \<Rightarrow> body \<Rightarrow> bool \<times> (api_error + 'o)" where
  "handleResponse dec status b =
     (if status = 200 then (False, decodeJSON dec b)
      else if status = 401
           then (False, Inl (AuthError (fst (parseAuthBody b)) (snd (parseAuthBody b))))
      else if status = 409 then (False, Inl (ConflictError (snd (parseAuthBody b))))
      else if 500 \<le> status then (True, Inl (ServerError status))
      else (False, Inl (StatusError status)))"

subsection \<open>One attempt\<close>

definition maybeCompress :: "net_env \<Rightarrow> client \<Rightarrow> payload option \<Rightarrow> bool" where
  "maybeCompress N c p = (case p of
     None \<Rightarrow> False
   | Some p \<Rightarrow> if net_size N p \<le> gzipThreshold then False else cl_gzipOK c)"

definition disableGzip :: "client \<Rightarrow> client" where
  "disableGzip c = c\<lparr>cl_gzipOK := False\<rparr>"

definition checkGzipRejected :: "nat \<Rightarrow> body \<Rightarrow> client \<Rightarrow> client" where
  "checkGzipRejected status b c =
     (if status = 415 then disableGzip c
      else if status = 400 \<and> contains (to_lower (take 4096 (bd_text b))) ''gzip'' then disableGzip c
      else c)"

text \<open>The request of an attempt.\<close>

definition request_of ::
    "net_env \<Rightarrow> string \<Rightarrow> string \<Rightarrow> payload option \<Rightarrow> bool \<Rightarrow> client \<Rightarrow> request" where
  "request_of N method path payload auth c =
     \<lparr>rq_Method = method, rq_Path = path, rq_Key = (if auth then Some (cl_key c) else None),
      rq_Gzip = maybeCompress N c payload, rq_Payload = payload\<rparr>"

text \<open>After a 400 the body is restored from the first 4096 bytes; only the text of the error
  message depends on it.\<close>

definition doOnce ::
    "net_env \<Rightarrow> string \<Rightarrow> string \<Rightarrow> payload option \<Rightarrow> bool \<Rightarrow> 'o target \<Rightarrow> client
      \<Rightarrow> (bool \<times> (api_error + 'o)) \<times> client" where
  "doOnce N method path payload auth dec c =
     (let req = request_of N method path payload auth c;
          k = cl_calls c;
          c = c\<lparr>cl_sent := cl_sent c @ [req], cl_clock := cl_clock c + net_time N k\<rparr>
      in case net_reply N k req of
           Net_Error \<Rightarrow> ((True, Inl TransportError), c)
         | Reply status b \<Rightarrow>
             (handleResponse dec status b, if rq_Gzip req then checkGzipRejected status b c else c))"

subsection \<open>Retries\<close>

text \<open>The attempts still allowed are the delays not yet slept. The context is checked after the
  attempt.\<close>

fun retry_loop ::
    "net_env \<Rightarrow> string \<Rightarrow> string \<Rightarrow> payload option \<Rightarrow> bool \<Rightarrow> 'o target \<Rightarrow> int list \<Rightarrow> client
      \<Rightarrow> (api_error + 'o) \<times> client" where
  "retry_loop N method path payload auth dec delays c =
     (case doOnce N method path payload auth dec c of
        ((_, Inr v), c') \<Rightarrow> (Inr v, c')
      | ((retryable, Inl e), c') \<Rightarrow>
          if \<not> retryable \<or> net_cancelled N (cl_calls c) then (Inl e, c')
          else (case delays of
              [] \<Rightarrow> (Inl (RetriesExhausted e), c')
            | d # ds \<Rightarrow> retry_loop N method path payload auth dec ds
                          (c'\<lparr>cl_clock := cl_clock c' + d\<rparr>)))"

declare retry_loop.simps [simp del]

definition doWithRetry ::
    "net_env \<Rightarrow> string \<Rightarrow> string \<Rightarrow> payload option \<Rightarrow> bool \<Rightarrow> 'o target \<Rightarrow> client
      \<Rightarrow> (api_error + 'o) \<times> client" where
  "doWithRetry N method path payload auth dec c =
     retry_loop N method path payload auth dec retryDelays c"

text \<open>\<open>json.Marshal\<close> of the body fails on a float that is not finite.\<close>

definition payload_ok :: "payload \<Rightarrow> bool" where
  "payload_ok p = (case p of
     P_Events _ _ evs \<Rightarrow> list_all marshalable_event evs
   | P_Metrics _ pts \<Rightarrow> list_all marshalable_point pts
   | P_Sessions _ ss \<Rightarrow> list_all marshalable_summary ss
   | _ \<Rightarrow> True)"

definition postJSONAuth ::
    "net_env \<Rightarrow> string \<Rightarrow> payload \<Rightarrow> 'o target \<Rightarrow> bool \<Rightarrow> client \<Rightarrow> (api_error + 'o) \<times> client" where
  "postJSONAuth N path p dec auth c =
     (if \<not> payload_ok p then (Inl MarshalError, c)
      else doWithRetry N ''POST'' path (Some p) auth dec c)"

definition postJSON ::
    "net_env \<Rightarrow> string \<Rightarrow> payload \<Rightarrow> 'o target \<Rightarrow> client \<Rightarrow> (api_error + 'o) \<times> client" where
  "postJSON N path p dec c = postJSONAuth N path p dec True c"

subsection \<open>The endpoints\<close>

definition Register ::
    "net_env \<Rightarrow> string \<Rightarrow> string \<Rightarrow> client \<Rightarrow> (api_error + register_out) \<times> client" where
  "Register N machine userEmail c =
     postJSON N ''/ingest/v1/register'' (P_Register machine userEmail (net_version N)) (into dec_register) c"

definition Heartbeat ::
    "net_env \<Rightarrow> int64 \<Rightarrow> telemetry option \<Rightarrow> client \<Rightarrow> (api_error + heartbeat_out) \<times> client" where
  "Heartbeat N collectorID tel c =
     postJSON N ''/ingest/v1/heartbeat'' (P_Heartbeat collectorID tel) (into dec_heartbeat) c"

definition SendEvents ::
    "net_env \<Rightarrow> int64 \<Rightarrow> normalized_event list \<Rightarrow> client \<Rightarrow> (api_error + counts) \<times> client" where
  "SendEvents N collectorID events c =
     (if length events > unat MaxIngestBatch then (Inl (BatchTooLarge (length events)), c)
      else postJSON N ''/ingest/v1/events'' (P_Events collectorID (net_version N) events) (into dec_counts) c)"

definition SendMetrics ::
    "net_env \<Rightarrow> int64 \<Rightarrow> metric_point list \<Rightarrow> client \<Rightarrow> (api_error + counts) \<times> client" where
  "SendMetrics N collectorID points c =
     (if length points > unat MaxIngestBatch then (Inl (BatchTooLarge (length points)), c)
      else postJSON N ''/ingest/v1/metrics'' (P_Metrics collectorID points) (into dec_counts) c)"

definition maxSessionBatch :: nat where "maxSessionBatch = 500"

definition SendSessions ::
    "net_env \<Rightarrow> int64 \<Rightarrow> session_summary list \<Rightarrow> client \<Rightarrow> (api_error + counts) \<times> client" where
  "SendSessions N collectorID sessions c =
     (if length sessions > maxSessionBatch then (Inl (BatchTooLarge (length sessions)), c)
      else postJSON N ''/ingest/v1/sessions'' (P_Sessions collectorID sessions) (into dec_counts) c)"

definition Health :: "net_env \<Rightarrow> client \<Rightarrow> (api_error + unit) \<times> client" where
  "Health N c = doWithRetry N ''GET'' ''/api/health'' None False discard c"

definition RotateKey :: "net_env \<Rightarrow> client \<Rightarrow> (api_error + rotate_out) \<times> client" where
  "RotateKey N c = postJSON N ''/ingest/v1/keys/rotate'' P_Rotate (into dec_rotate) c"

definition MaxInventoryItems :: nat where "MaxInventoryItems = 2000"

definition SendInventory ::
    "net_env \<Rightarrow> int64 \<Rightarrow> string \<Rightarrow> inventory_item list \<Rightarrow> client \<Rightarrow> (api_error + inventory_out) \<times> client" where
  "SendInventory N collectorID observedAt items c =
     (if length items > MaxInventoryItems then (Inl (BatchTooLarge (length items)), c)
      else postJSON N ''/ingest/v1/inventory'' (P_Inventory collectorID observedAt items) (into dec_inventory) c)"

subsection \<open>\<open>device.go\<close>\<close>

record device_auth =
  da_DeviceCode :: string
  da_UserCode :: string
  da_VerificationURI :: string
  da_VerificationURIComplete :: string
  da_Interval :: int64
  da_ExpiresIn :: int64

record device_token =
  dt_CollectorKey :: string
  dt_KeyID :: int64
  dt_KeyExpiresAt :: string
  dt_UserEmail :: string

definition dec_device_auth :: "any \<Rightarrow> device_auth option" where
  "dec_device_auth v = Option.bind (as_object v) (\<lambda>m.
     Option.bind (dec_str m ''device_code'') (\<lambda>d.
     Option.bind (dec_str m ''user_code'') (\<lambda>u.
     Option.bind (dec_str m ''verification_uri'') (\<lambda>v.
     Option.bind (dec_str m ''verification_uri_complete'') (\<lambda>w.
     Option.bind (dec_int m ''interval'') (\<lambda>i.
     Option.bind (dec_int m ''expires_in'') (\<lambda>e.
       Some \<lparr>da_DeviceCode = d, da_UserCode = u, da_VerificationURI = v,
             da_VerificationURIComplete = w, da_Interval = i, da_ExpiresIn = e\<rparr>)))))))"

definition dec_device_token :: "any \<Rightarrow> device_token option" where
  "dec_device_token v = Option.bind (as_object v) (\<lambda>m.
     Option.bind (dec_str m ''collector_key'') (\<lambda>k.
     Option.bind (dec_int m ''key_id'') (\<lambda>i.
     Option.bind (dec_str m ''key_expires_at'') (\<lambda>e.
     Option.bind (dec_str m ''user_email'') (\<lambda>u.
       Some \<lparr>dt_CollectorKey = k, dt_KeyID = i, dt_KeyExpiresAt = e, dt_UserEmail = u\<rparr>)))))"

definition DeviceAuthorize ::
    "net_env \<Rightarrow> string \<Rightarrow> client \<Rightarrow> (api_error + device_auth) \<times> client" where
  "DeviceAuthorize N deviceName c =
     postJSONAuth N ''/api/device/authorize'' (P_DeviceAuthorize deviceName) (into dec_device_auth) False c"

definition parseDeviceCode :: "body \<Rightarrow> string" where
  "parseDeviceCode b = json_field (limited_json b) ''error''"

text \<open>One poll: a single request, never compressed, never retried.\<close>

definition DeviceToken ::
    "net_env \<Rightarrow> string \<Rightarrow> client \<Rightarrow> (api_error + device_token) \<times> client" where
  "DeviceToken N deviceCode c =
     (let req = \<lparr>rq_Method = ''POST'', rq_Path = ''/api/device/token'', rq_Key = None, rq_Gzip = False,
                 rq_Payload = Some (P_DeviceToken deviceCode)\<rparr>;
          k = cl_calls c;
          c = c\<lparr>cl_sent := cl_sent c @ [req], cl_clock := cl_clock c + net_time N k\<rparr>
      in (case net_reply N k req of
            Net_Error \<Rightarrow> Inl TransportError
          | Reply status b \<Rightarrow>
              if status = 200 then decodeJSON (into dec_device_token) b
              else if status = 400 then Inl (DeviceTokenError (parseDeviceCode b))
              else Inl (StatusError status), c))"

subsection \<open>What an attempt does to the client\<close>

lemma checkGzip_frame [simp]:
  "cl_key (checkGzipRejected st b c) = cl_key c" "cl_sent (checkGzipRejected st b c) = cl_sent c"
  "cl_clock (checkGzipRejected st b c) = cl_clock c"
  "cl_gzipOK (checkGzipRejected st b c) \<Longrightarrow> cl_gzipOK c"
  by (simp_all add: checkGzipRejected_def disableGzip_def split: if_splits)

lemma cl_calls_update [simp]:
  "cl_calls (c\<lparr>cl_clock := t\<rparr>) = cl_calls c" "cl_calls (c\<lparr>cl_key := k\<rparr>) = cl_calls c"
  "cl_calls (c\<lparr>cl_sent := rs\<rparr>) = length rs"
  by (simp_all add: cl_calls_def)

lemma handleResponse_200: "snd (handleResponse dec st b) = Inr v \<Longrightarrow> st = 200"
  by (simp add: handleResponse_def split: if_splits)

lemma doOnce_client:
  assumes "doOnce N m p pl a dec c = (r, c')"
  shows "cl_key c' = cl_key c" "cl_calls c' = cl_calls c + 1"
    "cl_clock c' = cl_clock c + net_time N (cl_calls c)" "cl_gzipOK c' \<Longrightarrow> cl_gzipOK c"
    "cl_sent c' = cl_sent c @ [request_of N m p pl a c]"
    "snd r = Inr v \<Longrightarrow> \<exists>b. net_reply N (cl_calls c) (request_of N m p pl a c) = Reply 200 b"
proof -
  let ?c = "c\<lparr>cl_sent := cl_sent c @ [request_of N m p pl a c],
    cl_clock := cl_clock c + net_time N (cl_calls c)\<rparr>"
  have *: "(r, c') = (case net_reply N (cl_calls c) (request_of N m p pl a c) of
      Net_Error \<Rightarrow> ((True, Inl TransportError), ?c)
    | Reply st b \<Rightarrow> (handleResponse dec st b,
        if rq_Gzip (request_of N m p pl a c) then checkGzipRejected st b ?c else ?c))"
    using assms by (simp only: doOnce_def Let_def)
  show "cl_key c' = cl_key c" "cl_clock c' = cl_clock c + net_time N (cl_calls c)"
    and sent: "cl_sent c' = cl_sent c @ [request_of N m p pl a c]"
    and "cl_gzipOK c' \<Longrightarrow> cl_gzipOK c"
    using * by (auto split: reply.splits if_splits dest: checkGzip_frame(4))
  show "cl_calls c' = cl_calls c + 1" using sent by (simp add: cl_calls_def)
  show "\<exists>b. net_reply N (cl_calls c) (request_of N m p pl a c) = Reply 200 b" if "snd r = Inr v"
    using * that handleResponse_200 [of dec _ _ v] by (auto split: reply.splits)
qed

text \<open>The requests a call adds to the trace.\<close>

definition requests_of ::
    "net_env \<Rightarrow> string \<Rightarrow> string \<Rightarrow> payload option \<Rightarrow> bool \<Rightarrow> client \<Rightarrow> request list \<Rightarrow> bool" where
  "requests_of N m p pl a c reqs \<longleftrightarrow> reqs \<noteq> [] \<and> (\<forall>req \<in> set reqs. rq_Method req = m \<and> rq_Path req = p
     \<and> rq_Key req = (if a then Some (cl_key c) else None) \<and> rq_Payload req = pl
     \<and> (\<not> cl_gzipOK c \<longrightarrow> \<not> rq_Gzip req))"

lemma requests_of_one: "requests_of N m p pl a c [request_of N m p pl a c]"
  by (simp add: requests_of_def request_of_def maybeCompress_def split: option.splits)

lemma requests_of_more:
  assumes "requests_of N m p pl a c1 reqs" "cl_key c1 = cl_key c" "cl_gzipOK c1 \<Longrightarrow> cl_gzipOK c"
  shows "requests_of N m p pl a c (request_of N m p pl a c # reqs)"
  using assms requests_of_one [of N m p pl a c] by (auto simp: requests_of_def)

lemma retry_loop_trace:
  "retry_loop N m p pl a dec ds c = (r, c') \<Longrightarrow>
     \<exists>reqs. cl_sent c' = cl_sent c @ reqs \<and> requests_of N m p pl a c reqs
       \<and> (cl_gzipOK c' \<longrightarrow> cl_gzipOK c) \<and> cl_key c' = cl_key c
       \<and> (\<forall>v. r = Inr v \<longrightarrow> (\<exists>b. net_reply N (cl_calls c' - 1) (last reqs) = Reply 200 b))"
proof (induction ds arbitrary: c)
  case Nil
  obtain rt o1 c1 where once: "doOnce N m p pl a dec c = ((rt, o1), c1)" by (metis prod.exhaust)
  note oc = doOnce_client [OF once]
  have "c' = c1 \<and> (\<forall>v. r = Inr v \<longrightarrow> o1 = Inr v)"
    using Nil once retry_loop.simps [of N m p pl a dec "[]" c] by (auto split: sum.splits if_splits)
  with oc requests_of_one [of N m p pl a c] show ?case
    by (intro exI [of _ "[request_of N m p pl a c]"]) auto
next
  case (Cons d ds)
  obtain rt o1 c1 where once: "doOnce N m p pl a dec c = ((rt, o1), c1)" by (metis prod.exhaust)
  note oc = doOnce_client [OF once]
  let ?c1 = "c1\<lparr>cl_clock := cl_clock c1 + d\<rparr>"
  consider "c' = c1" "\<forall>v. r = Inr v \<longrightarrow> o1 = Inr v" | "retry_loop N m p pl a dec ds ?c1 = (r, c')"
    using Cons(2) once retry_loop.simps [of N m p pl a dec "d # ds" c]
    by (auto split: sum.splits if_splits)
  then show ?case
  proof cases
    case 1
    with oc requests_of_one [of N m p pl a c] show ?thesis
      by (intro exI [of _ "[request_of N m p pl a c]"]) auto
  next
    case 2
    from Cons(1) [OF 2] obtain reqs where reqs: "cl_sent c' = cl_sent c1 @ reqs"
      "requests_of N m p pl a ?c1 reqs" "cl_gzipOK c' \<longrightarrow> cl_gzipOK c1" "cl_key c' = cl_key c1"
      "\<forall>v. r = Inr v \<longrightarrow> (\<exists>b. net_reply N (cl_calls c' - 1) (last reqs) = Reply 200 b)" by auto
    have "requests_of N m p pl a c (request_of N m p pl a c # reqs)"
      using requests_of_more [OF reqs(2)] oc(1,4) by simp
    moreover have "reqs \<noteq> []" using reqs(2) by (simp add: requests_of_def)
    ultimately show ?thesis
      using reqs oc(1,4,5) by (intro exI [of _ "request_of N m p pl a c # reqs"]) auto
  qed
qed

text \<open>The trace of an endpoint: nothing when the call fails before its first request.\<close>

lemma postJSON_trace:
  assumes "postJSON N path p dec c = (r, c')"
  obtains reqs where "cl_sent c' = cl_sent c @ reqs" "cl_key c' = cl_key c"
    "\<And>req. req \<in> set reqs \<Longrightarrow> rq_Path req = path \<and> rq_Payload req = Some p \<and> rq_Key req = Some (cl_key c)"
    "\<And>v. r = Inr v \<Longrightarrow> reqs \<noteq> [] \<and> (\<exists>b. net_reply N (cl_calls c' - 1) (last reqs) = Reply 200 b)"
proof (cases "payload_ok p")
  case True
  with assms have "retry_loop N ''POST'' path (Some p) True dec retryDelays c = (r, c')"
    by (simp add: postJSON_def postJSONAuth_def doWithRetry_def)
  from retry_loop_trace [OF this] that show ?thesis by (auto simp: requests_of_def)
next
  case False
  with assms have "r = Inl MarshalError" "c' = c" by (simp_all add: postJSON_def postJSONAuth_def)
  with that [of "[]"] show ?thesis by simp
qed

lemma retry_loop_client:
  assumes "retry_loop N m p pl a dec ds c = (r, c')"
    and time: "\<forall>k. 0 \<le> net_time N k \<and> net_time N k \<le> httpTimeout" and ds: "\<forall>d \<in> set ds. 0 \<le> d"
  shows "cl_key c' = cl_key c \<and> cl_calls c < cl_calls c' \<and> cl_calls c' \<le> cl_calls c + 1 + length ds
    \<and> cl_clock c \<le> cl_clock c' \<and> cl_clock c' \<le> cl_clock c + httpTimeout * (1 + int (length ds)) + sum_list ds"
  using assms(1) ds
proof (induction ds arbitrary: c)
  case Nil
  obtain rt o1 c1 where once: "doOnce N m p pl a dec c = ((rt, o1), c1)" by (metis prod.exhaust)
  have "c' = c1"
    using Nil(1) once retry_loop.simps [of N m p pl a dec "[]" c] by (auto split: sum.splits if_splits)
  with doOnce_client [OF once] time show ?case by simp
next
  case (Cons d ds)
  obtain rt o1 c1 where once: "doOnce N m p pl a dec c = ((rt, o1), c1)" by (metis prod.exhaust)
  note oc = doOnce_client [OF once]
  have h: "0 \<le> httpTimeout" by (simp add: httpTimeout_def nanos_def)
  have T: "0 \<le> net_time N (cl_calls c)" "net_time N (cl_calls c) \<le> httpTimeout" using time by auto
  from Cons(3) have sum: "0 \<le> sum_list ds" "0 \<le> d" by (auto intro: sum_list_nonneg)
  define W where "W = httpTimeout * (1 + int (length ds))"
  have W: "httpTimeout * (1 + int (length (d # ds))) = W + httpTimeout"
    by (simp add: W_def algebra_simps)
  have "0 \<le> W" using h by (simp add: W_def)
  consider "c' = c1" | "retry_loop N m p pl a dec ds (c1\<lparr>cl_clock := cl_clock c1 + d\<rparr>) = (r, c')"
    using Cons(2) once retry_loop.simps [of N m p pl a dec "d # ds" c]
    by (auto split: sum.splits if_splits)
  then show ?case
  proof cases
    case 1
    with oc T sum \<open>0 \<le> W\<close> show ?thesis unfolding W sum_list.Cons by simp
  next
    case 2
    have "cl_key c' = cl_key c1 \<and> cl_calls c1 < cl_calls c' \<and> cl_calls c' \<le> cl_calls c1 + 1 + length ds
      \<and> cl_clock c1 + d \<le> cl_clock c' \<and> cl_clock c' \<le> cl_clock c1 + d + W + sum_list ds"
      using Cons(1) [OF 2] Cons(3) by (simp add: W_def)
    with oc T sum show ?thesis unfolding W sum_list.Cons by simp
  qed
qed

subsection \<open>The retry policy\<close>

text \<open>A call is bounded. Whatever the backend replies, \<open>doWithRetry\<close> sends at least one and at
  most four requests and never changes the collector key; and as long as every attempt keeps to
  the client's timeout of 10 seconds, it returns within 47 seconds of its start (four attempts
  and sleeps of 1, 2 and 4 seconds).\<close>

theorem doWithRetry_bounded:
  assumes "doWithRetry N m p pl a dec c = (r, c')"
    and "\<forall>k. 0 \<le> net_time N k \<and> net_time N k \<le> httpTimeout"
  shows "cl_calls c < cl_calls c' \<and> cl_calls c' \<le> cl_calls c + 4 \<and> cl_key c' = cl_key c
    \<and> cl_clock c \<le> cl_clock c' \<and> cl_clock c' \<le> cl_clock c + 47 * nanos"
proof -
  have "\<forall>d \<in> set retryDelays. 0 \<le> d" by (simp add: retryDelays_def nanos_def)
  from retry_loop_client [OF assms(1) [unfolded doWithRetry_def] assms(2) this] show ?thesis
    by (simp add: retryDelays_def httpTimeout_def)
qed

definition always :: "reply \<Rightarrow> net_env" where
  "always r = \<lparr>net_reply = (\<lambda>_ _. r), net_time = (\<lambda>_. 0), net_cancelled = (\<lambda>_. False),
     net_size = (\<lambda>_. 0), net_version = []\<rparr>"

lemma doWithRetry_bounded_witness:
  "cl_calls (snd (doWithRetry (always Net_Error) ''GET'' ''/api/health'' None False (discard :: unit target) (NewClient ''k''))) \<le> 4"
  using doWithRetry_bounded [of "always Net_Error" "''GET''" "''/api/health''" None False discard "NewClient ''k''"]
  by (cases "doWithRetry (always Net_Error) ''GET'' ''/api/health'' None False (discard :: unit target) (NewClient ''k'')")
    (simp add: always_def NewClient_def httpTimeout_def nanos_def cl_calls_def)

text \<open>Only server errors and network errors are retried. If the first reply has a status below
  500, exactly one request is sent and the result is that reply's: the decoded body for a 200, an
  \<open>AuthError\<close> with the backend's code for a 401, a \<open>ConflictError\<close> for a 409, and a plain error for
  any other status.\<close>

theorem doWithRetry_terminal:
  assumes "\<And>req. net_reply N (cl_calls c) req = Reply st b" "st < 500"
  shows "fst (doWithRetry N m p pl a dec c) =
      (if st = 200 then decodeJSON dec b
       else if st = 401 then Inl (AuthError (json_field (limited_json b) ''error'')
                                            (json_field (limited_json b) ''detail''))
       else if st = 409 then Inl (ConflictError (json_field (limited_json b) ''detail''))
       else Inl (StatusError st))
    \<and> cl_calls (snd (doWithRetry N m p pl a dec c)) = cl_calls c + 1"
proof -
  obtain c1 where once: "doOnce N m p pl a dec c = (handleResponse dec st b, c1)" "cl_calls c1 = cl_calls c + 1"
    using assms(1) by (auto simp: doOnce_def Let_def cl_calls_def)
  have "fst (handleResponse dec st b) = False"
    using assms(2) by (simp add: handleResponse_def)
  then obtain o1 where h: "handleResponse dec st b = (False, o1)"
    by (metis prod.exhaust fst_conv)
  have "doWithRetry N m p pl a dec c = (o1, c1)"
    unfolding doWithRetry_def retry_loop.simps [of N m p pl a dec retryDelays c] once(1) h
    by (cases o1) simp_all
  then have "doWithRetry N m p pl a dec c = (snd (handleResponse dec st b), c1)"
    by (simp add: h)
  with once(2) assms(2) show ?thesis by (simp add: handleResponse_def parseAuthBody_def)
qed

lemma doWithRetry_terminal_witness:
  "fst (doWithRetry (always (Reply 401 \<lparr>bd_text = [], bd_json = Some (AMap [(''error'', AStr ''key_revoked'')])\<rparr>))
     ''GET'' ''/api/health'' None False (discard :: unit target) (NewClient ''k'')) = Inl (AuthError ''key_revoked'' [])"
  using doWithRetry_terminal [of "always (Reply 401 \<lparr>bd_text = [], bd_json = Some (AMap [(''error'', AStr ''key_revoked'')])\<rparr>)"
      "NewClient ''k''" 401 "\<lparr>bd_text = [], bd_json = Some (AMap [(''error'', AStr ''key_revoked'')])\<rparr>" "''GET''" "''/api/health''" None False discard]
  by (simp add: always_def json_field_def limited_json_def aget_def)

text \<open>The gzip fallback latches. Once the backend has rejected a compressed body (415, or a 400
  whose text mentions gzip) the client never again sends a compressed request, whatever the network
  answers: every request of every later call is uncompressed, and the latch stays set.\<close>

theorem gzip_latch:
  assumes off: "\<not> cl_gzipOK c" and call: "doWithRetry N m p pl a dec c = (r, c')"
  shows "\<not> cl_gzipOK c' \<and> (\<exists>reqs. cl_sent c' = cl_sent c @ reqs \<and> (\<forall>req \<in> set reqs. \<not> rq_Gzip req))"
  using retry_loop_trace [OF call [unfolded doWithRetry_def]] off by (auto simp: requests_of_def)

lemma gzip_latch_witness:
  "\<not> cl_gzipOK (snd (doWithRetry (always Net_Error) ''GET'' ''/api/health'' None False (discard :: unit target) (disableGzip (NewClient ''k''))))"
  using gzip_latch [of "disableGzip (NewClient ''k'')" "always Net_Error" "''GET''" "''/api/health''" None False discard]
  by (cases "doWithRetry (always Net_Error) ''GET'' ''/api/health'' None False (discard :: unit target) (disableGzip (NewClient ''k''))")
    (simp add: disableGzip_def)

text \<open>A batch over the backend's limit is refused before any request is made: more than 2000
  events or points, 500 sessions or 2000 inventory items give an error and leave the client as it
  was.\<close>

theorem batch_limits:
  "(2000 < length evs \<longrightarrow> SendEvents N i evs c = (Inl (BatchTooLarge (length evs)), c))
   \<and> (2000 < length pts \<longrightarrow> SendMetrics N i pts c = (Inl (BatchTooLarge (length pts)), c))
   \<and> (500 < length ss \<longrightarrow> SendSessions N i ss c = (Inl (BatchTooLarge (length ss)), c))
   \<and> (2000 < length items \<longrightarrow> SendInventory N i t items c = (Inl (BatchTooLarge (length items)), c))"
  by (simp add: SendEvents_def SendMetrics_def SendSessions_def SendInventory_def MaxIngestBatch_def
      maxSessionBatch_def MaxInventoryItems_def)

lemma batch_limits_witness:
  "SendSessions (always Net_Error) 1 (replicate 501 empty_summary) (NewClient []) = (Inl (BatchTooLarge 501), NewClient [])"
  using batch_limits [of "[]" "always Net_Error" 1 "NewClient []" "[]" "replicate 501 empty_summary" "[]" "[]"] by simp

end
