(* ===== verification/Config_Store.thy ===== *)
theory Config_Store
  imports Api_Client
begin

text \<open>
  \<open>internal/config\<close> and \<open>internal/credstore\<close>: the persisted configuration, its JSON form with
  unknown fields preserved, the file store with its atomic write, and the store that keeps the
  collector keys in an OS keychain.

  A JSON object is a map from field names to values. Every file-system and keychain operation
  may fail, by an oracle, and a failed operation changes nothing. What a keychain is, is not in
  the repository: it is the interface \<open>Backend\<close>, modelled by its state of stored secrets and an
  oracle for its failures.
\<close>

subsection \<open>Configuration\<close>

record config =
  cfg_APIURL :: string
  cfg_CollectorKey :: string
  cfg_CollectorID :: int64
  cfg_UserEmail :: string
  cfg_Machine :: string
  cfg_Policy :: policy
  cfg_KeyExpiresAt :: string
  cfg_RetentionDays :: int64
  cfg_KeyID :: int64
  cfg_PendingKey :: string
  cfg_PendingKeyID :: int64
  cfg_PendingKeyExpires :: string
  cfg_OldKeyValidUntil :: string
  cfg_LastRotationAt :: string
  cfg_RotationFailures :: int64
  cfg_AuthReason :: string
  cfg_ReceiverPort :: int64
  cfg_ReceiverToken :: string
  cfg_InventoryStatus :: string
  cfg_InventoryLastUploadAt :: string
  cfg_InventoryItemCount :: int64
  cfg_CredentialBackend :: string
  cfg_extra :: gomap

definition knownFields :: "string list" where
  "knownFields = [''api_url'', ''collector_key'', ''collector_id'', ''user_email'', ''machine'',
     ''policy'', ''key_expires_at'', ''retention_days'', ''key_id'', ''pending_key'',
     ''pending_key_id'', ''pending_key_expires_at'', ''old_key_valid_until'', ''last_rotation_at'',
     ''rotation_failures'', ''auth_reason'', ''receiver_port'', ''receiver_token'',
     ''inventory_status'', ''inventory_last_upload_at'', ''inventory_item_count'',
     ''credential_backend'']"

definition DefaultRetentionDays :: int64 where "DefaultRetentionDays = 7"
definition maxRetentionDays :: int64 where "maxRetentionDays = 3650"

definition Retention :: "config \<Rightarrow> int64" where
  "Retention c =
     (if sint (cfg_RetentionDays c) \<le> 0 then DefaultRetentionDays
      else if sint (cfg_RetentionDays c) > sint maxRetentionDays then maxRetentionDays
      else cfg_RetentionDays c)"

text \<open>Whatever \<open>retention_days\<close> the config file holds, zero, negative and absurd values
  included, delivered rows are kept between 1 and 3650 days, and a value in that range is
  taken as it is.\<close>

lemma Retention_bounds:
  "1 \<le> sint (Retention c) \<and> sint (Retention c) \<le> 3650
   \<and> (1 \<le> sint (cfg_RetentionDays c) \<and> sint (cfg_RetentionDays c) \<le> 3650 \<longrightarrow> Retention c = cfg_RetentionDays c)"
  by (auto simp: Retention_def DefaultRetentionDays_def maxRetentionDays_def)

lemma Retention_bounds_witness:
  "\<exists>c. sint (cfg_RetentionDays c) = 30 \<and> Retention c = 30"
proof -
  let ?c = "(undefined :: config)\<lparr>cfg_RetentionDays := 30\<rparr>"
  show ?thesis using Retention_bounds [of ?c] by (intro exI [of _ ?c]) simp
qed

subsection \<open>JSON form\<close>

text \<open>Encoding a struct field. With \<open>omitempty\<close> a zero value is left out.\<close>

definition put_str :: "string \<Rightarrow> string \<Rightarrow> gomap" where
  "put_str k s = [(k, AStr (json_string s))]"

definition put_str_omit :: "string \<Rightarrow> string \<Rightarrow> gomap" where
  "put_str_omit k s = (if s = [] then [] else put_str k s)"

definition put_int :: "string \<Rightarrow> int64 \<Rightarrow> gomap" where
  "put_int k n = [(k, AInt64 n)]"

definition put_int_omit :: "string \<Rightarrow> int64 \<Rightarrow> gomap" where
  "put_int_omit k n = (if n = 0 then [] else put_int k n)"

definition policy_json :: "policy \<Rightarrow> any" where
  "policy_json p = AMap [(''flush_interval_seconds'', AInt64 (pol_FlushIntervalSeconds p)),
     (''max_batch_size'', AInt64 (pol_MaxBatchSize p)),
     (''refresh_cadence'', AStr (json_string (pol_RefreshCadence p))),
     (''inventory_enabled'', ABool (pol_InventoryEnabled p))]"

definition known_json :: "config \<Rightarrow> gomap" where
  "known_json c =
     put_str ''api_url'' (cfg_APIURL c) @ put_str ''collector_key'' (cfg_CollectorKey c)
     @ put_int ''collector_id'' (cfg_CollectorID c) @ put_str ''user_email'' (cfg_UserEmail c)
     @ put_str ''machine'' (cfg_Machine c) @ [(''policy'', policy_json (cfg_Policy c))]
     @ put_str ''key_expires_at'' (cfg_KeyExpiresAt c) @ put_int ''retention_days'' (cfg_RetentionDays c)
     @ put_int_omit ''key_id'' (cfg_KeyID c) @ put_str_omit ''pending_key'' (cfg_PendingKey c)
     @ put_int_omit ''pending_key_id'' (cfg_PendingKeyID c)
     @ put_str_omit ''pending_key_expires_at'' (cfg_PendingKeyExpires c)
     @ put_str_omit ''old_key_valid_until'' (cfg_OldKeyValidUntil c)
     @ put_str_omit ''last_rotation_at'' (cfg_LastRotationAt c)
     @ put_int_omit ''rotation_failures'' (cfg_RotationFailures c)
     @ put_str_omit ''auth_reason'' (cfg_AuthReason c)
     @ put_int_omit ''receiver_port'' (cfg_ReceiverPort c)
     @ put_str_omit ''receiver_token'' (cfg_ReceiverToken c)
     @ put_str_omit ''inventory_status'' (cfg_InventoryStatus c)
     @ put_str_omit ''inventory_last_upload_at'' (cfg_InventoryLastUploadAt c)
     @ put_int_omit ''inventory_item_count'' (cfg_InventoryItemCount c)
     @ put_str_omit ''credential_backend'' (cfg_CredentialBackend c)"

definition not_known :: "string \<times> any \<Rightarrow> bool" where
  "not_known kv \<longleftrightarrow> fst kv \<notin> set knownFields"

definition config_MarshalJSON :: "config \<Rightarrow> gomap" where
  "config_MarshalJSON c = known_json c @ filter not_known (cfg_extra c)"

text \<open>Decoding: every known field must have its type, a missing or \<open>null\<close> field is the zero
  value, and the fields that are not known are kept.\<close>

definition get_str :: "gomap \<Rightarrow> string \<Rightarrow> string" where
  "get_str m k = (case dec_str m k of Some s \<Rightarrow> s | None \<Rightarrow> [])"

definition get_int :: "gomap \<Rightarrow> string \<Rightarrow> int64" where
  "get_int m k = (case dec_int m k of Some n \<Rightarrow> n | None \<Rightarrow> 0)"

definition zero_policy :: policy where
  "zero_policy = \<lparr>pol_FlushIntervalSeconds = 0, pol_MaxBatchSize = 0, pol_RefreshCadence = [],
     pol_InventoryEnabled = False\<rparr>"

definition get_policy :: "gomap \<Rightarrow> string \<Rightarrow> policy" where
  "get_policy m k = (case dec_policy (aget m k) of Some p \<Rightarrow> p | None \<Rightarrow> zero_policy)"

definition stringFields :: "string list" where
  "stringFields = [''api_url'', ''collector_key'', ''user_email'', ''machine'', ''key_expires_at'',
     ''pending_key'', ''pending_key_expires_at'', ''old_key_valid_until'', ''last_rotation_at'',
     ''auth_reason'', ''receiver_token'', ''inventory_status'', ''inventory_last_upload_at'',
     ''credential_backend'']"

definition intFields :: "string list" where
  "intFields = [''collector_id'', ''retention_days'', ''key_id'', ''pending_key_id'',
     ''rotation_failures'', ''receiver_port'', ''inventory_item_count'']"

definition fields_typed :: "gomap \<Rightarrow> bool" where
  "fields_typed m \<longleftrightarrow> list_all (\<lambda>k. dec_str m k \<noteq> None) stringFields
     \<and> list_all (\<lambda>k. dec_int m k \<noteq> None) intFields \<and> dec_policy (aget m ''policy'') \<noteq> None"

definition config_UnmarshalJSON :: "gomap \<Rightarrow> config option" where
  "config_UnmarshalJSON m =
     (if \<not> fields_typed m then None
      else Some \<lparr>cfg_APIURL = get_str m ''api_url'', cfg_CollectorKey = get_str m ''collector_key'',
        cfg_CollectorID = get_int m ''collector_id'', cfg_UserEmail = get_str m ''user_email'',
        cfg_Machine = get_str m ''machine'', cfg_Policy = get_policy m ''policy'',
        cfg_KeyExpiresAt = get_str m ''key_expires_at'',
        cfg_RetentionDays = get_int m ''retention_days'', cfg_KeyID = get_int m ''key_id'',
        cfg_PendingKey = get_str m ''pending_key'', cfg_PendingKeyID = get_int m ''pending_key_id'',
        cfg_PendingKeyExpires = get_str m ''pending_key_expires_at'',
        cfg_OldKeyValidUntil = get_str m ''old_key_valid_until'',
        cfg_LastRotationAt = get_str m ''last_rotation_at'',
        cfg_RotationFailures = get_int m ''rotation_failures'',
        cfg_AuthReason = get_str m ''auth_reason'', cfg_ReceiverPort = get_int m ''receiver_port'',
        cfg_ReceiverToken = get_str m ''receiver_token'',
        cfg_InventoryStatus = get_str m ''inventory_status'',
        cfg_InventoryLastUploadAt = get_str m ''inventory_last_upload_at'',
        cfg_InventoryItemCount = get_int m ''inventory_item_count'',
        cfg_CredentialBackend = get_str m ''credential_backend'',
        cfg_extra = filter not_known m\<rparr>)"

text \<open>The strings of a configuration.\<close>

definition config_strings :: "config \<Rightarrow> string list" where
  "config_strings c = [cfg_APIURL c, cfg_CollectorKey c, cfg_UserEmail c, cfg_Machine c,
     cfg_KeyExpiresAt c, cfg_PendingKey c, cfg_PendingKeyExpires c, cfg_OldKeyValidUntil c,
     cfg_LastRotationAt c, cfg_AuthReason c, cfg_ReceiverToken c, cfg_InventoryStatus c,
     cfg_InventoryLastUploadAt c, cfg_CredentialBackend c, pol_RefreshCadence (cfg_Policy c)]"

definition config_ok :: "config \<Rightarrow> bool" where
  "config_ok c \<longleftrightarrow> list_all valid_utf8 (config_strings c) \<and> list_all not_known (cfg_extra c)"

lemma aget_put:
  "aget (put_str k s @ m) j = (if k = j then AStr (json_string s) else aget m j)"
  "aget (put_str_omit k s @ m) j = (if k = j \<and> s \<noteq> [] then AStr (json_string s) else aget m j)"
  "aget (put_int k n @ m) j = (if k = j then AInt64 n else aget m j)"
  "aget (put_int_omit k n @ m) j = (if k = j \<and> n \<noteq> 0 then AInt64 n else aget m j)"
  "aget ((k, v) # m) j = (if k = j then v else aget m j)"
  by (auto simp: aget_def put_str_def put_str_omit_def put_int_def put_int_omit_def)

lemma aget_extra: "j \<in> set knownFields \<Longrightarrow> aget (filter not_known m) j = ANil"
  by (induction m) (auto simp: aget_def not_known_def)

lemma dec_aget:
  "aget m k = AStr s \<Longrightarrow> dec_str m k = Some s" "aget m k = ANil \<Longrightarrow> dec_str m k = Some []"
  "aget m k = AInt64 n \<Longrightarrow> dec_int m k = Some n" "aget m k = ANil \<Longrightarrow> dec_int m k = Some 0"
  by (simp_all add: dec_str_def dec_int_def)

lemma dec_policy_json: "valid_utf8 (pol_RefreshCadence p) \<Longrightarrow> dec_policy (policy_json p) = Some p"
  by (simp add: policy_json_def dec_policy_def as_object_def dec_int_def dec_str_def dec_bool_def
      aget_def json_string_valid)

lemma aget_str_present:
  assumes "aget m k = (if s = [] then ANil else AStr s)"
  shows "dec_str m k = Some s" "get_str m k = s"
  using assms by (simp_all add: dec_str_def get_str_def)

lemma aget_int_present:
  assumes "aget m k = (if n = 0 then ANil else AInt64 n)"
  shows "dec_int m k = Some n" "get_int m k = n"
  using assms by (simp_all add: dec_int_def get_int_def)

text \<open>Reading each field of the encoded configuration.\<close>

lemma known_fields_read:
  fixes c
  assumes ok: "config_ok c"
  defines "m \<equiv> config_MarshalJSON c"
  shows "dec_str m ''api_url'' = Some (cfg_APIURL c)"
    and "dec_str m ''collector_key'' = Some (cfg_CollectorKey c)"
    and "dec_int m ''collector_id'' = Some (cfg_CollectorID c)"
    and "dec_str m ''user_email'' = Some (cfg_UserEmail c)"
    and "dec_str m ''machine'' = Some (cfg_Machine c)"
    and "dec_policy (aget m ''policy'') = Some (cfg_Policy c)"
    and "dec_str m ''key_expires_at'' = Some (cfg_KeyExpiresAt c)"
    and "dec_int m ''retention_days'' = Some (cfg_RetentionDays c)"
    and "dec_int m ''key_id'' = Some (cfg_KeyID c)"
    and "dec_str m ''pending_key'' = Some (cfg_PendingKey c)"
    and "dec_int m ''pending_key_id'' = Some (cfg_PendingKeyID c)"
    and "dec_str m ''pending_key_expires_at'' = Some (cfg_PendingKeyExpires c)"
    and "dec_str m ''old_key_valid_until'' = Some (cfg_OldKeyValidUntil c)"
    and "dec_str m ''last_rotation_at'' = Some (cfg_LastRotationAt c)"
    and "dec_int m ''rotation_failures'' = Some (cfg_RotationFailures c)"
    and "dec_str m ''auth_reason'' = Some (cfg_AuthReason c)"
    and "dec_int m ''receiver_port'' = Some (cfg_ReceiverPort c)"
    and "dec_str m ''receiver_token'' = Some (cfg_ReceiverToken c)"
    and "dec_str m ''inventory_status'' = Some (cfg_InventoryStatus c)"
    and "dec_str m ''inventory_last_upload_at'' = Some (cfg_InventoryLastUploadAt c)"
    and "dec_int m ''inventory_item_count'' = Some (cfg_InventoryItemCount c)"
    and "dec_str m ''credential_backend'' = Some (cfg_CredentialBackend c)"
proof -
  note ex = aget_extra [unfolded knownFields_def list.set insert_iff empty_iff, of _ "cfg_extra c"]
  have valid: "list_all valid_utf8 (config_strings c)" using ok by (simp add: config_ok_def)
  note js = valid [unfolded config_strings_def list_all_iff list.set] json_string_valid
  note read = m_def config_MarshalJSON_def known_json_def append_assoc dec_str_def dec_int_def
  show "dec_str m ''api_url'' = Some (cfg_APIURL c)"
    and "dec_str m ''collector_key'' = Some (cfg_CollectorKey c)"
    and "dec_int m ''collector_id'' = Some (cfg_CollectorID c)"
    and "dec_str m ''user_email'' = Some (cfg_UserEmail c)"
    and "dec_str m ''machine'' = Some (cfg_Machine c)"
    and "dec_policy (aget m ''policy'') = Some (cfg_Policy c)"
    and "dec_str m ''key_expires_at'' = Some (cfg_KeyExpiresAt c)"
    and "dec_int m ''retention_days'' = Some (cfg_RetentionDays c)"
    and "dec_int m ''key_id'' = Some (cfg_KeyID c)"
    and "dec_str m ''pending_key'' = Some (cfg_PendingKey c)"
    and "dec_int m ''pending_key_id'' = Some (cfg_PendingKeyID c)"
    unfolding read using js by (simp_all add: aget_put ex dec_policy_json)
  show "dec_str m ''pending_key_expires_at'' = Some (cfg_PendingKeyExpires c)"
    and "dec_str m ''old_key_valid_until'' = Some (cfg_OldKeyValidUntil c)"
    and "dec_str m ''last_rotation_at'' = Some (cfg_LastRotationAt c)"
    and "dec_int m ''rotation_failures'' = Some (cfg_RotationFailures c)"
    and "dec_str m ''auth_reason'' = Some (cfg_AuthReason c)"
    and "dec_int m ''receiver_port'' = Some (cfg_ReceiverPort c)"
    and "dec_str m ''receiver_token'' = Some (cfg_ReceiverToken c)"
    and "dec_str m ''inventory_status'' = Some (cfg_InventoryStatus c)"
    and "dec_str m ''inventory_last_upload_at'' = Some (cfg_InventoryLastUploadAt c)"
    and "dec_int m ''inventory_item_count'' = Some (cfg_InventoryItemCount c)"
    and "dec_str m ''credential_backend'' = Some (cfg_CredentialBackend c)"
    unfolding read using js by (simp_all add: aget_put ex dec_policy_json)
qed

lemma extra_kept:
  "config_ok c \<Longrightarrow> filter not_known (config_MarshalJSON c) = cfg_extra c"
proof -
  assume ok: "config_ok c"
  have none: "filter not_known (known_json c) = []"
    by (simp add: known_json_def put_str_def put_str_omit_def put_int_def put_int_omit_def
        not_known_def knownFields_def)
  have "filter not_known (cfg_extra c) = cfg_extra c"
    using ok by (simp add: config_ok_def list_all_iff)
  then show ?thesis by (simp add: config_MarshalJSON_def none)
qed

text \<open>A configuration survives a save and a load unchanged, every typed field and every field
  this client does not know included, so an older client that rewrites the file loses nothing a
  newer one wrote. (Strings are valid UTF-8; a field of \<open>extra\<close> is not a known one.)\<close>

theorem config_roundtrip:
  assumes "config_ok c"
  shows "config_UnmarshalJSON (config_MarshalJSON c) = Some c"
proof -
  note f = known_fields_read [OF assms]
  have typed: "fields_typed (config_MarshalJSON c)"
    by (simp add: fields_typed_def stringFields_def intFields_def f)
  show ?thesis
    unfolding config_UnmarshalJSON_def get_str_def get_int_def get_policy_def f option.case
      extra_kept [OF assms]
    using typed by simp
qed

definition sample_config :: config where
  "sample_config = \<lparr>cfg_APIURL = ''u'', cfg_CollectorKey = ''k'', cfg_CollectorID = 1, cfg_UserEmail = [],
     cfg_Machine = [], cfg_Policy = zero_policy, cfg_KeyExpiresAt = [], cfg_RetentionDays = 0,
     cfg_KeyID = 0, cfg_PendingKey = [], cfg_PendingKeyID = 0, cfg_PendingKeyExpires = [],
     cfg_OldKeyValidUntil = [], cfg_LastRotationAt = [], cfg_RotationFailures = 0, cfg_AuthReason = [],
     cfg_ReceiverPort = 0, cfg_ReceiverToken = [], cfg_InventoryStatus = [],
     cfg_InventoryLastUploadAt = [], cfg_InventoryItemCount = 0, cfg_CredentialBackend = [],
     cfg_extra = [(''future'', AInt64 1)]\<rparr>"

lemma sample_config_ok: "config_ok sample_config"
  by (simp add: config_ok_def config_strings_def sample_config_def zero_policy_def not_known_def
      knownFields_def string_eval)

lemma config_roundtrip_witness:
  "config_UnmarshalJSON (config_MarshalJSON sample_config) = Some sample_config"
  by (rule config_roundtrip [OF sample_config_ok])

end
