(* ===== verification/Cred_Store.thy ===== *)
theory Cred_Store
  imports Config_Store
begin

text \<open>
  The file store of \<open>internal/config\<close> (\<open>FileStore\<close>) and the store of \<open>internal/credstore\<close> that
  wraps it and keeps the collector key and the pending key in an OS keychain.

  The disk is the config file, its content and its permission bits, and the permissions of its
  directory. The environment says which file-system and keychain operations of a call fail. The
  keychain itself is not in the repository: \<open>ce_stored\<close> is what it holds after being told to store
  a secret, so that the read-back of \<open>writeVerified\<close> can disagree. Status texts leave out the
  text of the error they quote.
\<close>

subsection \<open>The file store\<close>

datatype file_content = Corrupt | Object gomap

record disk =
  dk_file :: "(file_content \<times> nat) option"
  dk_dir :: "nat option"

datatype fs_op = FS_Read | FS_Chmod | FS_Mkdir | FS_ChmodDir | FS_CreateTemp | FS_ChmodTemp
  | FS_Write | FS_Close | FS_Rename

datatype store_error = Not_Found | Fs_Failed fs_op | Corrupt_Config | Backend_Unavailable

definition dirPerm :: nat where "dirPerm = 448"
definition filePerm :: nat where "filePerm = 384"

definition DefaultAPIURL :: string where
  "DefaultAPIURL = ''https://collector.agentburndown.com''"

definition legacyDefaultAPIURL :: string where
  "legacyDefaultAPIURL = ''https://app.agentburndown.com''"

text \<open>The first operation of a sequence that fails.\<close>

definition first_failure :: "(fs_op \<Rightarrow> bool) \<Rightarrow> fs_op list \<Rightarrow> fs_op option" where
  "first_failure F ops = find F ops"

definition writeAtomic :: "(fs_op \<Rightarrow> bool) \<Rightarrow> gomap \<Rightarrow> disk \<Rightarrow> store_error option \<times> disk" where
  "writeAtomic F data d =
     (case first_failure F [FS_CreateTemp, FS_ChmodTemp, FS_Write, FS_Close, FS_Rename] of
        Some op \<Rightarrow> (Some (Fs_Failed op), d)
      | None \<Rightarrow> (None, d\<lparr>dk_file := Some (Object data, filePerm)\<rparr>))"

definition FileStore_Save :: "(fs_op \<Rightarrow> bool) \<Rightarrow> config \<Rightarrow> disk \<Rightarrow> store_error option \<times> disk" where
  "FileStore_Save F cfg d =
     (if F FS_Mkdir then (Some (Fs_Failed FS_Mkdir), d)
      else (let d = d\<lparr>dk_dir := (case dk_dir d of None \<Rightarrow> Some dirPerm | Some p \<Rightarrow> Some p)\<rparr> in
        if F FS_ChmodDir then (Some (Fs_Failed FS_ChmodDir), d)
        else writeAtomic F (config_MarshalJSON cfg) (d\<lparr>dk_dir := Some dirPerm\<rparr>)))"

definition FileStore_Load :: "(fs_op \<Rightarrow> bool) \<Rightarrow> disk \<Rightarrow> (store_error + config) \<times> disk" where
  "FileStore_Load F d =
     (case dk_file d of
        None \<Rightarrow> (Inl Not_Found, d)
      | Some (content, perm) \<Rightarrow>
          if F FS_Read then (Inl (Fs_Failed FS_Read), d)
          else if F FS_Chmod then (Inl (Fs_Failed FS_Chmod), d)
          else (let d = d\<lparr>dk_file := Some (content, filePerm)\<rparr> in
            case content of
              Corrupt \<Rightarrow> (Inl Corrupt_Config, d)
            | Object m \<Rightarrow>
                (case config_UnmarshalJSON m of
                   None \<Rightarrow> (Inl Corrupt_Config, d)
                 | Some cfg \<Rightarrow>
                     if cfg_APIURL cfg = legacyDefaultAPIURL
                     then (let cfg = cfg\<lparr>cfg_APIURL := DefaultAPIURL\<rparr> in
                       case FileStore_Save F cfg d of
                         (Some e, d) \<Rightarrow> (Inl e, d)
                       | (None, d) \<Rightarrow> (Inr cfg, d))
                     else (Inr cfg, d))))"

subsection \<open>The credential store\<close>

definition BackendKeychain :: string where "BackendKeychain = ''keychain''"
definition BackendFile :: string where "BackendFile = ''file''"

datatype account = AccountActiveKey | AccountPendingKey

record backend_status =
  bs_Name :: string
  bs_Detail :: string
  bs_Forced :: bool

record cred_env =
  ce_keychain :: bool
  ce_forced :: bool
  ce_load :: "fs_op \<Rightarrow> bool"
  ce_save :: "fs_op \<Rightarrow> bool"
  ce_get_fails :: "account \<Rightarrow> bool"
  ce_set_fails :: "account \<Rightarrow> bool"
  ce_delete_fails :: "account \<Rightarrow> bool"
  ce_stored :: "account \<Rightarrow> string \<Rightarrow> string"

record cred_state =
  cs_disk :: disk
  cs_keys :: "account \<Rightarrow> string option"
  cs_status :: backend_status

definition backendName :: "cred_env \<Rightarrow> string" where
  "backendName E = (if ce_keychain E then BackendKeychain else BackendFile)"

text \<open>\<open>Get\<close>: \<open>None\<close> is an error, \<open>Some None\<close> is not found. The file backend holds nothing.\<close>

definition backend_get :: "cred_env \<Rightarrow> account \<Rightarrow> cred_state \<Rightarrow> string option option" where
  "backend_get E a st =
     (if \<not> ce_keychain E then Some None
      else if ce_get_fails E a then None else Some (cs_keys st a))"

definition forcedFileStatus :: "cred_env \<Rightarrow> backend_status" where
  "forcedFileStatus E = \<lparr>bs_Name = BackendFile, bs_Detail =
     (if ce_forced E then ''BURNDOWN_CONFIG_DIR override forces the plaintext file backend''
      else ''no OS keychain backend on this platform''), bs_Forced = True\<rparr>"

definition noKeyStatus :: backend_status where
  "noKeyStatus = \<lparr>bs_Name = BackendFile, bs_Detail = ''no collector key stored yet'', bs_Forced = True\<rparr>"

definition fallbackStatus :: backend_status where
  "fallbackStatus = \<lparr>bs_Name = BackendFile,
     bs_Detail = ''keychain unavailable, using plaintext fallback'', bs_Forced = False\<rparr>"

definition keychainStatus :: "string \<Rightarrow> backend_status" where
  "keychainStatus detail = \<lparr>bs_Name = BackendKeychain, bs_Detail = detail, bs_Forced = False\<rparr>"

definition writeVerified :: "cred_env \<Rightarrow> account \<Rightarrow> string \<Rightarrow> cred_state \<Rightarrow> bool \<times> cred_state" where
  "writeVerified E a secret st =
     (if ce_set_fails E a then (False, st)
      else (let st = st\<lparr>cs_keys := (cs_keys st)(a := Some (ce_stored E a secret))\<rparr> in
        case backend_get E a st of
          None \<Rightarrow> (False, st)
        | Some None \<Rightarrow> (False, st)
        | Some (Some got) \<Rightarrow> (got = secret, st)))"

definition deletePending :: "cred_env \<Rightarrow> cred_state \<Rightarrow> cred_state" where
  "deletePending E st =
     (if ce_delete_fails E AccountPendingKey then st
      else st\<lparr>cs_keys := (cs_keys st)(AccountPendingKey := None)\<rparr>)"

definition writeSecrets :: "cred_env \<Rightarrow> config \<Rightarrow> cred_state \<Rightarrow> bool \<times> cred_state" where
  "writeSecrets E cfg st =
     (case writeVerified E AccountActiveKey (cfg_CollectorKey cfg) st of
        (False, st) \<Rightarrow> (False, st)
      | (True, st) \<Rightarrow>
          if cfg_PendingKey cfg = [] then (True, deletePending E st)
          else writeVerified E AccountPendingKey (cfg_PendingKey cfg) st)"

definition inner_save :: "cred_env \<Rightarrow> config \<Rightarrow> cred_state \<Rightarrow> store_error option \<times> cred_state" where
  "inner_save E cfg st =
     (case FileStore_Save (ce_save E) cfg (cs_disk st) of (e, d) \<Rightarrow> (e, st\<lparr>cs_disk := d\<rparr>))"

definition scrubbed :: "config \<Rightarrow> config" where
  "scrubbed cfg = cfg\<lparr>cfg_CollectorKey := [], cfg_PendingKey := [], cfg_CredentialBackend := BackendKeychain\<rparr>"

text \<open>\<open>saveScrubbed\<close> returns the configuration it was given, with the marker set on success.\<close>

definition saveScrubbed ::
    "cred_env \<Rightarrow> config \<Rightarrow> cred_state \<Rightarrow> store_error option \<times> config \<times> cred_state" where
  "saveScrubbed E cfg st =
     (case inner_save E (scrubbed cfg) st of
        (Some e, st) \<Rightarrow> (Some e, cfg, st)
      | (None, st) \<Rightarrow> (None, cfg\<lparr>cfg_CredentialBackend := BackendKeychain\<rparr>,
                      st\<lparr>cs_status := keychainStatus ''active''\<rparr>))"

definition save_plain ::
    "cred_env \<Rightarrow> backend_status \<Rightarrow> config \<Rightarrow> cred_state \<Rightarrow> store_error option \<times> config \<times> cred_state" where
  "save_plain E status cfg st =
     (let cfg = cfg\<lparr>cfg_CredentialBackend := []\<rparr>;
          (e, st) = inner_save E cfg (st\<lparr>cs_status := status\<rparr>)
      in (e, cfg, st))"

definition Store_Save ::
    "cred_env \<Rightarrow> config \<Rightarrow> cred_state \<Rightarrow> store_error option \<times> config \<times> cred_state" where
  "Store_Save E cfg st =
     (if backendName E = BackendFile then save_plain E (forcedFileStatus E) cfg st
      else if cfg_CollectorKey cfg = [] then save_plain E noKeyStatus cfg st
      else (case writeSecrets E cfg st of
          (False, st) \<Rightarrow> save_plain E fallbackStatus cfg st
        | (True, st) \<Rightarrow> saveScrubbed E cfg st))"

definition migrateOnLoad :: "cred_env \<Rightarrow> config \<Rightarrow> cred_state \<Rightarrow> config \<times> cred_state" where
  "migrateOnLoad E cfg st =
     (if backendName E = BackendFile then (cfg, st\<lparr>cs_status := forcedFileStatus E\<rparr>)
      else if cfg_CollectorKey cfg = [] then (cfg, st\<lparr>cs_status := noKeyStatus\<rparr>)
      else (case writeSecrets E cfg st of
          (False, st) \<Rightarrow> (cfg, st\<lparr>cs_status := fallbackStatus\<rparr>)
        | (True, st) \<Rightarrow>
            (case saveScrubbed E cfg st of
               (None, cfg, st) \<Rightarrow> (cfg, st)
             | (Some _, cfg, st) \<Rightarrow> (cfg, st\<lparr>cs_status :=
                 keychainStatus ''migrated, but could not remove the plaintext copy''\<rparr>))))"

definition hydratePending :: "cred_env \<Rightarrow> config \<Rightarrow> cred_state \<Rightarrow> config \<times> cred_state" where
  "hydratePending E cfg st =
     (case backend_get E AccountPendingKey st of
        Some (Some pending) \<Rightarrow> (cfg\<lparr>cfg_PendingKey := pending\<rparr>, st)
      | _ \<Rightarrow>
          (let cfg = cfg\<lparr>cfg_PendingKey := [], cfg_PendingKeyExpires := [], cfg_OldKeyValidUntil := [],
                 cfg_PendingKeyID := 0\<rparr>
           in case saveScrubbed E cfg st of
                (None, cfg, st) \<Rightarrow> (cfg, st)
              | (Some _, cfg, st) \<Rightarrow> (cfg, st\<lparr>cs_status :=
                  keychainStatus ''pending key discarded, but could not persist''\<rparr>)))"

definition hydrate :: "cred_env \<Rightarrow> config \<Rightarrow> cred_state \<Rightarrow> (store_error + config) \<times> cred_state" where
  "hydrate E cfg st =
     (case backend_get E AccountActiveKey st of
        None \<Rightarrow> (Inl Backend_Unavailable, st\<lparr>cs_status := keychainStatus ''read failed''\<rparr>)
      | Some None \<Rightarrow> (Inl Backend_Unavailable, st\<lparr>cs_status := keychainStatus ''collector_key missing''\<rparr>)
      | Some (Some key) \<Rightarrow>
          (let cfg = cfg\<lparr>cfg_CollectorKey := key\<rparr>;
               (cfg, st) = (if cfg_PendingKeyID cfg \<noteq> 0 then hydratePending E cfg st else (cfg, st))
           in (Inr cfg, st\<lparr>cs_status := keychainStatus ''active''\<rparr>)))"

definition Store_Load :: "cred_env \<Rightarrow> cred_state \<Rightarrow> (store_error + config) \<times> cred_state" where
  "Store_Load E st =
     (case FileStore_Load (ce_load E) (cs_disk st) of
        (Inl e, d) \<Rightarrow> (Inl e, st\<lparr>cs_disk := d\<rparr>)
      | (Inr cfg, d) \<Rightarrow>
          (let st = st\<lparr>cs_disk := d\<rparr> in
           if cfg_CredentialBackend cfg = BackendKeychain then hydrate E cfg st
           else (let (cfg, st) = migrateOnLoad E cfg st in (Inr cfg, st))))"

subsection \<open>The file is written whole or not at all\<close>

lemma FileStore_Save_cases:
  assumes "FileStore_Save F cfg d = (e, d')"
  shows "(e \<noteq> None \<and> dk_file d' = dk_file d)
    \<or> (e = None \<and> dk_file d' = Some (Object (config_MarshalJSON cfg), filePerm) \<and> dk_dir d' = Some dirPerm)"
  using assms by (auto simp: FileStore_Save_def writeAtomic_def Let_def split: if_splits option.splits)

lemma FileStore_Load_Inr:
  assumes "FileStore_Load F d = (Inr c, d')"
  obtains m p c0 where "dk_file d = Some (Object m, p)" "config_UnmarshalJSON m = Some c0"
    "c = (if cfg_APIURL c0 = legacyDefaultAPIURL then c0\<lparr>cfg_APIURL := DefaultAPIURL\<rparr> else c0)"
    "dk_file d' = (if cfg_APIURL c0 = legacyDefaultAPIURL
       then Some (Object (config_MarshalJSON c), filePerm) else Some (Object m, filePerm))"
  using assms
  by (auto simp: FileStore_Load_def Let_def split: option.splits if_splits file_content.splits prod.splits
      dest!: FileStore_Save_cases)

lemma FileStore_Load_ok:
  assumes "\<And>op. \<not> F op" "dk_file d = Some (Object m, p)" "config_UnmarshalJSON m = Some c0"
  shows "\<exists>d'. FileStore_Load F d =
    (Inr (if cfg_APIURL c0 = legacyDefaultAPIURL then c0\<lparr>cfg_APIURL := DefaultAPIURL\<rparr> else c0), d')"
  using assms by (auto simp: FileStore_Load_def FileStore_Save_def writeAtomic_def first_failure_def Let_def)



text \<open>The migration of the default URL. A load replaces exactly the former default API URL by the
  new one, and persists that; any other URL, and every other field, comes back as the file has
  it.\<close>

theorem FileStore_Load_url:
  assumes "FileStore_Load F d = (Inr c, d')"
  shows "\<exists>m p c0. dk_file d = Some (Object m, p) \<and> config_UnmarshalJSON m = Some c0
    \<and> (cfg_APIURL c0 \<noteq> ''https://app.agentburndown.com'' \<longrightarrow> c = c0 \<and> dk_file d' = Some (Object m, 384))
    \<and> (cfg_APIURL c0 = ''https://app.agentburndown.com'' \<longrightarrow>
        c = c0\<lparr>cfg_APIURL := ''https://collector.agentburndown.com''\<rparr>
        \<and> dk_file d' = Some (Object (config_MarshalJSON c), 384))"
  using assms
proof (cases rule: FileStore_Load_Inr)
  case (1 m p c0)
  then show ?thesis
    unfolding legacyDefaultAPIURL_def DefaultAPIURL_def filePerm_def
    by (intro exI [of _ m] exI [of _ p] exI [of _ c0]) (simp split: if_splits)
qed

lemma FileStore_Load_url_witness:
  "fst (FileStore_Load (\<lambda>_. False) \<lparr>dk_file = Some (Object (config_MarshalJSON sample_config), 420), dk_dir = None\<rparr>)
     = Inr sample_config"
proof -
  let ?d = "\<lparr>dk_file = Some (Object (config_MarshalJSON sample_config), 420), dk_dir = None\<rparr>"
  obtain c d' where l: "FileStore_Load (\<lambda>_. False) ?d = (Inr c, d')"
    using FileStore_Load_ok [of "\<lambda>_. False" ?d, OF _ _ config_roundtrip [OF sample_config_ok]] by auto
  from FileStore_Load_url [OF l] config_roundtrip [OF sample_config_ok]
  have "c = sample_config" by (auto simp: sample_config_def)
  with l show ?thesis by simp
qed

subsection \<open>The key is never lost\<close>

definition quiet :: "cred_env \<Rightarrow> bool" where
  "quiet E \<longleftrightarrow> (\<forall>op. \<not> ce_load E op \<and> \<not> ce_save E op)
     \<and> (\<forall>a. \<not> ce_get_fails E a \<and> \<not> ce_set_fails E a \<and> \<not> ce_delete_fails E a)"

definition url_fixed :: "config \<Rightarrow> config" where
  "url_fixed c = (if cfg_APIURL c = legacyDefaultAPIURL then c\<lparr>cfg_APIURL := DefaultAPIURL\<rparr> else c)"

lemma url_fixed_fields [simp]:
  "cfg_CollectorKey (url_fixed c) = cfg_CollectorKey c" "cfg_PendingKey (url_fixed c) = cfg_PendingKey c"
  "cfg_PendingKeyID (url_fixed c) = cfg_PendingKeyID c"
  "cfg_CredentialBackend (url_fixed c) = cfg_CredentialBackend c"
  by (simp_all add: url_fixed_def)

lemma saveScrubbed_cfg:
  "saveScrubbed E cfg st = (e, cfg', st') \<Longrightarrow> cfg_CollectorKey cfg' = cfg_CollectorKey cfg
     \<and> cfg_PendingKey cfg' = cfg_PendingKey cfg \<and> cs_keys st' = cs_keys st"
  by (auto simp: saveScrubbed_def inner_save_def split: prod.splits option.splits)

lemma migrateOnLoad_keys:
  "migrateOnLoad E cfg st = (cfg', st') \<Longrightarrow>
     cfg_CollectorKey cfg' = cfg_CollectorKey cfg \<and> cfg_PendingKey cfg' = cfg_PendingKey cfg"
  by (auto simp: migrateOnLoad_def split: if_splits prod.splits bool.splits option.splits
      dest!: saveScrubbed_cfg)

lemma hydratePending_key:
  "hydratePending E cfg st = (cfg', st') \<Longrightarrow> cfg_CollectorKey cfg' = cfg_CollectorKey cfg
     \<and> (backend_get E AccountPendingKey st = Some (Some p) \<longrightarrow> cfg_PendingKey cfg' = p)"
  by (auto simp: hydratePending_def Let_def split: option.splits prod.splits dest!: saveScrubbed_cfg)

text \<open>The keys a fault-free load finds, from the file as it decodes and from the keychain.\<close>

lemma Store_Load_quiet:
  assumes q: "quiet E" and f: "dk_file (cs_disk st) = Some (Object m, p)" "config_UnmarshalJSON m = Some c0"
  shows "cfg_CredentialBackend c0 \<noteq> BackendKeychain \<Longrightarrow>
      \<exists>c. fst (Store_Load E st) = Inr c \<and> cfg_CollectorKey c = cfg_CollectorKey c0
        \<and> cfg_PendingKey c = cfg_PendingKey c0"
    and "cfg_CredentialBackend c0 = BackendKeychain \<Longrightarrow> ce_keychain E \<Longrightarrow>
      cs_keys st AccountActiveKey = Some k \<Longrightarrow>
      \<exists>c. fst (Store_Load E st) = Inr c \<and> cfg_CollectorKey c = k
        \<and> (if cfg_PendingKeyID c0 = 0 then cfg_PendingKey c = cfg_PendingKey c0
           else (\<forall>q. cs_keys st AccountPendingKey = Some q \<longrightarrow> cfg_PendingKey c = q))"
proof -
  obtain d' where l: "FileStore_Load (ce_load E) (cs_disk st) = (Inr (url_fixed c0), d')"
    using FileStore_Load_ok [of "ce_load E", OF _ f] q unfolding quiet_def url_fixed_def by blast
  {
    assume "cfg_CredentialBackend c0 \<noteq> BackendKeychain"
    then show "\<exists>c. fst (Store_Load E st) = Inr c \<and> cfg_CollectorKey c = cfg_CollectorKey c0
        \<and> cfg_PendingKey c = cfg_PendingKey c0"
      by (cases "migrateOnLoad E (url_fixed c0) (st\<lparr>cs_disk := d'\<rparr>)")
        (auto simp: Store_Load_def l Let_def dest!: migrateOnLoad_keys)
  }
  assume k: "cfg_CredentialBackend c0 = BackendKeychain" "ce_keychain E" "cs_keys st AccountActiveKey = Some k"
  let ?c1 = "(url_fixed c0)\<lparr>cfg_CollectorKey := k\<rparr>"
  have get: "backend_get E a (st\<lparr>cs_disk := d'\<rparr>) = Some (cs_keys st a)" for a
    using q k(2) by (simp add: backend_get_def quiet_def)
  obtain c2 st2 where h: "hydratePending E ?c1 (st\<lparr>cs_disk := d'\<rparr>) = (c2, st2)" by fastforce
  show "\<exists>c. fst (Store_Load E st) = Inr c \<and> cfg_CollectorKey c = k
        \<and> (if cfg_PendingKeyID c0 = 0 then cfg_PendingKey c = cfg_PendingKey c0
           else (\<forall>q. cs_keys st AccountPendingKey = Some q \<longrightarrow> cfg_PendingKey c = q))"
    using hydratePending_key [OF h] k(1,3)
    by (auto simp: Store_Load_def l Let_def hydrate_def get h)
qed

lemma Store_Load_keychain_key:
  assumes "fst (Store_Load E st) = Inr c" "ce_keychain E"
  obtains m p c0 where "dk_file (cs_disk st) = Some (Object m, p)" "config_UnmarshalJSON m = Some c0"
    "cfg_CredentialBackend c0 \<noteq> BackendKeychain \<and> cfg_CollectorKey c = cfg_CollectorKey c0
     \<or> cfg_CredentialBackend c0 = BackendKeychain
       \<and> cs_keys st AccountActiveKey = Some (cfg_CollectorKey c)"
proof -
  obtain f d' where l: "FileStore_Load (ce_load E) (cs_disk st) = (Inr f, d')"
    using assms(1) by (cases "FileStore_Load (ce_load E) (cs_disk st)")
      (auto simp: Store_Load_def split: sum.splits)
  from l show thesis
  proof (cases rule: FileStore_Load_Inr)
    case (1 m p c0)
    then have f: "f = url_fixed c0" by (simp add: url_fixed_def)
    have "cfg_CredentialBackend c0 \<noteq> BackendKeychain \<and> cfg_CollectorKey c = cfg_CollectorKey c0
     \<or> cfg_CredentialBackend c0 = BackendKeychain \<and> cs_keys st AccountActiveKey = Some (cfg_CollectorKey c)"
      using assms
      by (auto simp: Store_Load_def l f Let_def hydrate_def backend_get_def split: if_splits prod.splits option.splits
          dest!: migrateOnLoad_keys hydratePending_key)
    with 1(1,2) show thesis by (rule that)
  qed
qed

lemma BackendKeychain_ok: "valid_utf8 BackendKeychain" "BackendKeychain \<noteq> []"
  by (simp_all add: BackendKeychain_def string_eval)

lemma config_ok_updates [simp]:
  "config_ok cfg \<Longrightarrow> config_ok (scrubbed cfg)"
  "config_ok cfg \<Longrightarrow> config_ok (cfg\<lparr>cfg_CredentialBackend := []\<rparr>)"
  by (simp_all add: config_ok_def config_strings_def scrubbed_def BackendKeychain_ok)

text \<open>What \<open>writeSecrets\<close> can have done to the keychain.\<close>

lemma writeSecrets_keys:
  assumes "writeSecrets E cfg st = (w, st')" "\<And>a s. ce_stored E a s = s"
  shows "cs_disk st' = cs_disk st"
    and "cs_keys st' AccountActiveKey \<in> {cs_keys st AccountActiveKey, Some (cfg_CollectorKey cfg)}"
    and "w \<Longrightarrow> cs_keys st' AccountActiveKey = Some (cfg_CollectorKey cfg)"
    and "w \<Longrightarrow> cfg_PendingKey cfg \<noteq> [] \<Longrightarrow> cs_keys st' AccountPendingKey = Some (cfg_PendingKey cfg)"
  using assms
  by (auto simp: writeSecrets_def writeVerified_def deletePending_def Let_def
      split: if_splits option.splits prod.splits bool.splits)

lemma inner_save_cases:
  "inner_save E cfg st = (e, st') \<Longrightarrow> cs_keys st' = cs_keys st
    \<and> (e \<noteq> None \<and> dk_file (cs_disk st') = dk_file (cs_disk st)
       \<or> e = None \<and> dk_file (cs_disk st') = Some (Object (config_MarshalJSON cfg), filePerm))"
  by (auto simp: inner_save_def split: prod.splits dest!: FileStore_Save_cases)

text \<open>The three ways a save ends: it failed and the file is untouched, or it wrote the keys in the
  clear, or it wrote the scrubbed configuration with the keys in the keychain.\<close>

lemma Store_Save_cases:
  assumes save: "Store_Save E cfg st = (e, cfg', st')"
    and stored: "\<And>a s. ce_stored E a s = s" and key: "cfg_CollectorKey cfg \<noteq> []"
  shows "cs_keys st' AccountActiveKey \<in> {cs_keys st AccountActiveKey, Some (cfg_CollectorKey cfg)}
    \<and> ((e \<noteq> None \<and> dk_file (cs_disk st') = dk_file (cs_disk st))
     \<or> (e = None \<and> cfg_CredentialBackend cfg' = []
         \<and> dk_file (cs_disk st') = Some (Object (config_MarshalJSON (cfg\<lparr>cfg_CredentialBackend := []\<rparr>)), filePerm))
     \<or> (e = None \<and> ce_keychain E \<and> cfg_CredentialBackend cfg' = BackendKeychain
         \<and> dk_file (cs_disk st') = Some (Object (config_MarshalJSON (scrubbed cfg)), filePerm)
         \<and> cs_keys st' AccountActiveKey = Some (cfg_CollectorKey cfg)
         \<and> (cfg_PendingKey cfg \<noteq> [] \<longrightarrow> cs_keys st' AccountPendingKey = Some (cfg_PendingKey cfg))))"
proof -
  obtain w st1 where w: "writeSecrets E cfg st = (w, st1)" by fastforce
  note keys = writeSecrets_keys [OF w stored]
  have plain: "cs_keys s' = cs_keys s \<and> cfg_CredentialBackend c' = []
      \<and> (e \<noteq> None \<and> dk_file (cs_disk s') = dk_file (cs_disk s)
         \<or> e = None \<and> dk_file (cs_disk s')
             = Some (Object (config_MarshalJSON (cfg\<lparr>cfg_CredentialBackend := []\<rparr>)), filePerm))"
    if "save_plain E status cfg s = (e, c', s')" for status s s' c'
    using that by (auto simp: save_plain_def Let_def split: prod.splits dest!: inner_save_cases)
  consider (off) "\<not> ce_keychain E" | (fail) "ce_keychain E" "\<not> w" | (ok) "ce_keychain E" "w" by blast
  then show ?thesis
  proof cases
    case off
    then have "save_plain E (forcedFileStatus E) cfg st = (e, cfg', st')"
      using save by (simp add: Store_Save_def backendName_def)
    from plain [OF this] show ?thesis by auto
  next
    case fail
    then have "save_plain E fallbackStatus cfg st1 = (e, cfg', st')"
      using save key w by (simp add: Store_Save_def backendName_def BackendKeychain_def BackendFile_def)
    from plain [OF this] keys(1,2) show ?thesis by auto
  next
    case ok
    then have "saveScrubbed E cfg st1 = (e, cfg', st')"
      using save key w by (simp add: Store_Save_def backendName_def BackendKeychain_def BackendFile_def)
    then show ?thesis
      using keys ok
      by (auto simp: saveScrubbed_def split: prod.splits option.splits dest!: inner_save_cases)
  qed
qed

text \<open>C11: no failure loses the collector key. Start from a store whose key can be loaded, and save a
  configuration with a key. Whichever keychain and file-system operations fail during the save,
  one or many, a later load without faults succeeds and returns the old key or the new one; and if
  the save reported success it returns the new collector key and the new pending key. (The
  keychain keeps what it accepts; a pending key has its id; the URL is not the former default.)\<close>

theorem Store_Save_keeps_key:
  assumes save: "Store_Save E cfg st = (e, cfg', st')"
    and before: "fst (Store_Load E0 st) = Inr c0"
    and env: "\<And>a s. ce_stored E a s = s" "quiet E0" "ce_keychain E0" "ce_keychain E"
    and cfg: "config_ok cfg" "cfg_CollectorKey cfg \<noteq> []" "cfg_PendingKey cfg \<noteq> [] \<longleftrightarrow> cfg_PendingKeyID cfg \<noteq> 0"
  shows "\<exists>c. fst (Store_Load E0 st') = Inr c
    \<and> cfg_CollectorKey c \<in> {cfg_CollectorKey c0, cfg_CollectorKey cfg}
    \<and> (e = None \<longrightarrow> cfg_CollectorKey c = cfg_CollectorKey cfg \<and> cfg_PendingKey c = cfg_PendingKey cfg)"
proof -
  note cases = Store_Save_cases [OF save env(1) cfg(2)]
  obtain m p f where f: "dk_file (cs_disk st) = Some (Object m, p)" "config_UnmarshalJSON m = Some f"
    "cfg_CredentialBackend f \<noteq> BackendKeychain \<and> cfg_CollectorKey c0 = cfg_CollectorKey f
     \<or> cfg_CredentialBackend f = BackendKeychain \<and> cs_keys st AccountActiveKey = Some (cfg_CollectorKey c0)"
    using Store_Load_keychain_key [OF before env(3)] by metis
  from cases consider
      (failed) "e \<noteq> None" "dk_file (cs_disk st') = dk_file (cs_disk st)"
        "cs_keys st' AccountActiveKey \<in> {cs_keys st AccountActiveKey, Some (cfg_CollectorKey cfg)}"
    | (plain) "e = None"
        "dk_file (cs_disk st') = Some (Object (config_MarshalJSON (cfg\<lparr>cfg_CredentialBackend := []\<rparr>)), filePerm)"
    | (keychain) "e = None" "dk_file (cs_disk st') = Some (Object (config_MarshalJSON (scrubbed cfg)), filePerm)"
        "cs_keys st' AccountActiveKey = Some (cfg_CollectorKey cfg)"
        "cfg_PendingKey cfg \<noteq> [] \<longrightarrow> cs_keys st' AccountPendingKey = Some (cfg_PendingKey cfg)"
    by blast
  then show ?thesis
  proof cases
    case failed
    note load = Store_Load_quiet [OF env(2) f(1) [folded failed(2)] f(2)]
    show ?thesis
    proof (cases "cfg_CredentialBackend f = BackendKeychain")
      case True
      with f(3) failed(3) obtain k where "cs_keys st' AccountActiveKey = Some k"
        "k \<in> {cfg_CollectorKey c0, cfg_CollectorKey cfg}" by auto
      with load(2) [OF True env(3)] failed(1) show ?thesis by blast
    next
      case False
      with load(1) f(3) failed(1) show ?thesis by auto
    qed
  next
    case plain
    have "config_UnmarshalJSON (config_MarshalJSON (cfg\<lparr>cfg_CredentialBackend := []\<rparr>))
        = Some (cfg\<lparr>cfg_CredentialBackend := []\<rparr>)"
      using config_roundtrip cfg(1) by simp
    from Store_Load_quiet(1) [OF env(2) plain(2) this] plain(1) show ?thesis
      using BackendKeychain_ok(2) by auto
  next
    case keychain
    have "config_UnmarshalJSON (config_MarshalJSON (scrubbed cfg)) = Some (scrubbed cfg)"
      using config_roundtrip cfg(1) by simp
    from Store_Load_quiet(2) [OF env(2) keychain(2) this _ env(3) keychain(3)] keychain(1,4) cfg(3)
    show ?thesis by (auto simp: scrubbed_def split: if_splits)
  qed
qed

text \<open>Once the keys are in the keychain they are gone from the file: if a save ends with the
  keychain marker, the JSON on disk has an empty \<open>collector_key\<close> and no \<open>pending_key\<close>.\<close>

theorem Store_Save_scrubs:
  assumes "Store_Save E cfg st = (None, cfg', st')" "cfg_CredentialBackend cfg' = BackendKeychain"
    "\<And>a s. ce_stored E a s = s" "config_ok cfg" "cfg_CollectorKey cfg \<noteq> []"
  shows "\<exists>m p. dk_file (cs_disk st') = Some (Object m, p)
    \<and> dec_str m ''collector_key'' = Some [] \<and> dec_str m ''pending_key'' = Some []"
proof -
  have "dk_file (cs_disk st') = Some (Object (config_MarshalJSON (scrubbed cfg)), filePerm)"
    using Store_Save_cases [OF assms(1,3,5)] assms(2) BackendKeychain_ok(2) by auto
  moreover have "config_ok (scrubbed cfg)" using assms(4) by simp
  ultimately show ?thesis
    using known_fields_read(2,10) [of "scrubbed cfg"] by (simp add: scrubbed_def)
qed

text \<open>A keychain in which nothing fails.\<close>

definition good_cred :: cred_env where
  "good_cred = \<lparr>ce_keychain = True, ce_forced = False, ce_load = (\<lambda>_. False), ce_save = (\<lambda>_. False),
     ce_get_fails = (\<lambda>_. False), ce_set_fails = (\<lambda>_. False), ce_delete_fails = (\<lambda>_. False),
     ce_stored = (\<lambda>_ s. s)\<rparr>"

definition plain_disk :: cred_state where
  "plain_disk = \<lparr>cs_disk = \<lparr>dk_file = Some (Object (config_MarshalJSON sample_config), 384), dk_dir = Some 448\<rparr>,
     cs_keys = (\<lambda>_. None), cs_status = noKeyStatus\<rparr>"

lemma good_cred_quiet [simp]: "quiet good_cred"
  by (simp add: quiet_def good_cred_def)

lemma plain_load: "\<exists>c0. fst (Store_Load good_cred plain_disk) = Inr c0"
proof -
  have "cfg_CredentialBackend sample_config \<noteq> BackendKeychain"
    using BackendKeychain_ok(2) by (simp add: sample_config_def)
  moreover have "dk_file (cs_disk plain_disk) = Some (Object (config_MarshalJSON sample_config), 384)"
    by (simp add: plain_disk_def)
  ultimately show ?thesis
    using Store_Load_quiet(1) [OF good_cred_quiet _ config_roundtrip [OF sample_config_ok]] by blast
qed

lemma Store_Save_keeps_key_witness:
  "\<exists>c. fst (Store_Load good_cred (snd (snd (Store_Save good_cred sample_config plain_disk)))) = Inr c
     \<and> cfg_CollectorKey c \<in> {''k''}"
proof -
  obtain c0 where c0: "fst (Store_Load good_cred plain_disk) = Inr c0" using plain_load by blast
  obtain e c' st' where s: "Store_Save good_cred sample_config plain_disk = (e, c', st')"
    by (metis prod_cases3)
  have e: "e = None"
    using s by (simp add: Store_Save_def saveScrubbed_def inner_save_def FileStore_Save_def writeAtomic_def
        first_failure_def good_cred_def writeSecrets_def writeVerified_def deletePending_def backend_get_def
        backendName_def BackendKeychain_def BackendFile_def sample_config_def Let_def)
  have stored: "\<And>a s. ce_stored good_cred a s = s" "ce_keychain good_cred" by (simp_all add: good_cred_def)
  have k: "cfg_CollectorKey sample_config = ''k''" "cfg_PendingKey sample_config = []"
    "cfg_PendingKeyID sample_config = 0" by (simp_all add: sample_config_def)
  from Store_Save_keeps_key [OF s c0 stored(1) good_cred_quiet stored(2,2) sample_config_ok] k e s
  show ?thesis by auto
qed

lemma Store_Save_scrubs_witness:
  "\<exists>m p. dk_file (cs_disk (snd (snd (Store_Save good_cred sample_config plain_disk)))) = Some (Object m, p)
     \<and> dec_str m ''collector_key'' = Some []"
proof -
  have s: "fst (Store_Save good_cred sample_config plain_disk) = None
      \<and> cfg_CredentialBackend (fst (snd (Store_Save good_cred sample_config plain_disk))) = BackendKeychain"
    by (simp add: Store_Save_def saveScrubbed_def inner_save_def FileStore_Save_def writeAtomic_def
        first_failure_def good_cred_def writeSecrets_def writeVerified_def deletePending_def backend_get_def
        backendName_def BackendKeychain_def BackendFile_def sample_config_def Let_def)
  obtain e c' st' where eq: "Store_Save good_cred sample_config plain_disk = (e, c', st')"
    by (metis prod_cases3)
  have "cfg_CollectorKey sample_config \<noteq> []" by (simp add: sample_config_def)
  moreover have "\<And>a s. ce_stored good_cred a s = s" by (simp add: good_cred_def)
  ultimately show ?thesis
    using Store_Save_scrubs [of good_cred sample_config plain_disk c' st'] s eq sample_config_ok by auto
qed

end
