(* ===== verification/Uploader.thy ===== *)
theory Uploader
  imports Cred_Store
begin

text \<open>
  \<open>internal/uploader\<close>: the component that drains the durable queues to the backend, keeps the
  policy and the credential state up to date by heartbeats, and rotates the collector key
  (\<open>uploader.go\<close>, \<open>rotation.go\<close>, \<open>inventory.go\<close>).

  The state holds the three queues, the API client, the configuration store (\<open>None\<close> when there
  is none), the counters, and the fields of the Go struct. Whatever may differ from one use to the
  next, the clock, statement failures, file and keychain failures, is an oracle indexed by the
  step counter, which every use advances. Logging is left out. The flush/heartbeat goroutine runs
  its calls one after the other; the inventory goroutine is cut at its locks, and what the other
  goroutine does in between is a parameter.
\<close>

subsection \<open>State\<close>

datatype uploadState = StateActive | StateDegraded

record up_env =
  ue_net :: net_env
  ue_now :: "nat \<Rightarrow> instant"
  ue_queue :: "nat \<Rightarrow> qenv"
  ue_cred :: "nat \<Rightarrow> cred_env"
  ue_collectorID :: int64
  ue_zone :: "instant \<Rightarrow> int"
  ue_discover :: "nat \<Rightarrow> inventory_item list option"

record uploader =
  up_client :: client
  up_events :: event_table
  up_metrics :: metric_table
  up_sessions :: "session_row list"
  up_store :: "cred_state option"
  up_counters :: registry
  up_policy :: policy
  up_mode :: uploadState
  up_authReason :: string
  up_backoff :: int64
  up_trigger :: bool
  up_invRunning :: bool
  up_invCancel :: bool
  up_invCancelled :: bool
  up_invNext :: instant
  up_step :: nat

text \<open>Durations, in nanoseconds.\<close>

definition leaseDuration :: int where "leaseDuration = 2 * 60 * nanos"
definition maxBackoff :: int64 where "maxBackoff = 5 * 60 * second"
definition degradedProbeInterval :: int64 where "degradedProbeInterval = 5 * 60 * second"
definition inventoryRefreshInterval :: int where "inventoryRefreshInterval = 12 * 3600 * nanos"
definition inventoryRetryInterval :: int where "inventoryRetryInterval = 5 * 60 * nanos"
definition rotationLeadTime :: int where "rotationLeadTime = 7 * 24 * 3600 * nanos"
definition rotationRetryInterval :: int where "rotationRetryInterval = 24 * 3600 * nanos"

text \<open>The zero \<open>time.Time\<close>: the first instant of year 1.\<close>

definition zero_time :: instant where "zero_time = - 62135596800 * nanos"

definition tick :: "uploader \<Rightarrow> uploader" where
  "tick w = w\<lparr>up_step := Suc (up_step w)\<rparr>"

definition clock :: "up_env \<Rightarrow> uploader \<Rightarrow> instant" where
  "clock U w = ue_now U (up_step w)"

definition q_at :: "up_env \<Rightarrow> uploader \<Rightarrow> qenv" where
  "q_at U w = (ue_queue U (up_step w))\<lparr>q_now := clock U w\<rparr>"

definition addCounter :: "string \<Rightarrow> int64 \<Rightarrow> uploader \<Rightarrow> uploader" where
  "addCounter name n w = w\<lparr>up_counters := counter_add (up_counters w) name n\<rparr>"

definition setCounter :: "string \<Rightarrow> int64 \<Rightarrow> uploader \<Rightarrow> uploader" where
  "setCounter name n w = w\<lparr>up_counters := counter_set (up_counters w) name n\<rparr>"

definition setNow :: "up_env \<Rightarrow> string \<Rightarrow> uploader \<Rightarrow> uploader" where
  "setNow U name w = tick (setCounter name (i64 (clock U w div nanos)) w)"

text \<open>\<open>New\<close>.\<close>

definition New ::
    "client \<Rightarrow> event_table \<Rightarrow> metric_table \<Rightarrow> session_row list \<Rightarrow> cred_state option \<Rightarrow> registry
      \<Rightarrow> policy \<Rightarrow> string \<Rightarrow> string \<Rightarrow> uploader" where
  "New client events metrics sessions store counters policy invStatus invLast =
     \<lparr>up_client = client, up_events = events, up_metrics = metrics, up_sessions = sessions,
      up_store = store, up_counters = counters, up_policy = policy, up_mode = StateActive,
      up_authReason = [], up_backoff = 0, up_trigger = False, up_invRunning = False,
      up_invCancel = False, up_invCancelled = False,
      up_invNext = (if invStatus = ''current'' then
          (case parse_rfc3339 invLast of Some t \<Rightarrow> t + inventoryRefreshInterval | None \<Rightarrow> zero_time)
        else zero_time),
      up_step = 0\<rparr>"

subsection \<open>The configuration\<close>

definition loadConfig :: "up_env \<Rightarrow> uploader \<Rightarrow> config option \<times> uploader" where
  "loadConfig U w = (case up_store w of
     None \<Rightarrow> (None, w)
   | Some st \<Rightarrow> (case Store_Load (ue_cred U (up_step w)) st of
       (Inl e, st) \<Rightarrow> (None, tick (w\<lparr>up_store := Some st\<rparr>))
     | (Inr cfg, st) \<Rightarrow> (Some cfg, tick (w\<lparr>up_store := Some st\<rparr>))))"

definition saveConfig :: "up_env \<Rightarrow> config \<Rightarrow> uploader \<Rightarrow> uploader" where
  "saveConfig U cfg w = (case up_store w of
     None \<Rightarrow> w
   | Some st \<Rightarrow> (case Store_Save (ue_cred U (up_step w)) cfg st of
       (e, cfg, st) \<Rightarrow> tick (w\<lparr>up_store := Some st\<rparr>)))"

definition mutateConfig :: "up_env \<Rightarrow> (config \<Rightarrow> config) \<Rightarrow> uploader \<Rightarrow> uploader" where
  "mutateConfig U f w = (case loadConfig U w of
     (None, w) \<Rightarrow> w
   | (Some cfg, w) \<Rightarrow> saveConfig U (f cfg) w)"

definition reloadKeyIfChanged :: "up_env \<Rightarrow> uploader \<Rightarrow> uploader" where
  "reloadKeyIfChanged U w = (case loadConfig U w of
     (None, w) \<Rightarrow> w
   | (Some cfg, w) \<Rightarrow>
       if cfg_CollectorKey cfg \<noteq> [] \<and> cfg_CollectorKey cfg \<noteq> cl_key (up_client w)
       then w\<lparr>up_client := SetKey (cfg_CollectorKey cfg) (up_client w)\<rparr> else w)"

subsection \<open>Active and degraded\<close>

definition set_AuthReason :: "string \<Rightarrow> config \<Rightarrow> config" where
  "set_AuthReason reason cfg = cfg\<lparr>cfg_AuthReason := reason\<rparr>"

definition enterDegraded :: "up_env \<Rightarrow> string \<Rightarrow> uploader \<Rightarrow> uploader" where
  "enterDegraded U reason w =
     (let w = w\<lparr>up_mode := StateDegraded, up_authReason := reason\<rparr>;
          w = setCounter cAuthFailed 1 w
      in mutateConfig U (set_AuthReason reason) w)"

definition enterActive :: "up_env \<Rightarrow> uploader \<Rightarrow> uploader" where
  "enterActive U w =
     (let w = w\<lparr>up_mode := StateActive, up_authReason := [], up_backoff := 0\<rparr>;
          w = setCounter cAuthFailed 0 w
      in mutateConfig U (set_AuthReason []) w)"

text \<open>A call of the client, run on the uploader's client.\<close>

definition call :: "(client \<Rightarrow> 'r \<times> client) \<Rightarrow> uploader \<Rightarrow> 'r \<times> uploader" where
  "call f w = (case f (up_client w) of (r, c) \<Rightarrow> (r, w\<lparr>up_client := c\<rparr>))"

text \<open>\<open>errors.As\<close> for an \<open>*AuthError\<close> and for a \<open>*ConflictError\<close>: an exhausted retry wraps the
  last error.\<close>

fun as_auth :: "api_error \<Rightarrow> string option" where
  "as_auth (AuthError code detail) = Some code"
| "as_auth (RetriesExhausted e) = as_auth e"
| "as_auth _ = None"

fun is_conflict :: "api_error \<Rightarrow> bool" where
  "is_conflict (ConflictError d) = True"
| "is_conflict (RetriesExhausted e) = is_conflict e"
| "is_conflict _ = False"

subsection \<open>Key rotation (\<open>rotation.go\<close>)\<close>

definition commit_config :: "config \<Rightarrow> config \<Rightarrow> config" where
  "commit_config cfg c = c\<lparr>cfg_CollectorKey := cfg_PendingKey cfg, cfg_KeyID := cfg_PendingKeyID cfg,
     cfg_KeyExpiresAt := cfg_PendingKeyExpires cfg, cfg_PendingKey := [], cfg_PendingKeyExpires := [],
     cfg_OldKeyValidUntil := [], cfg_PendingKeyID := 0, cfg_RotationFailures := 0\<rparr>"

definition commitPendingKey :: "up_env \<Rightarrow> config \<Rightarrow> uploader \<Rightarrow> uploader" where
  "commitPendingKey U cfg w = mutateConfig U (commit_config cfg) w"

definition discard_pending :: "config \<Rightarrow> config" where
  "discard_pending c = c\<lparr>cfg_PendingKey := [], cfg_PendingKeyExpires := [], cfg_OldKeyValidUntil := [],
     cfg_PendingKeyID := 0, cfg_RotationFailures := cfg_RotationFailures c + 1\<rparr>"

definition verifyPendingKey :: "up_env \<Rightarrow> config \<Rightarrow> uploader \<Rightarrow> bool \<times> uploader" where
  "verifyPendingKey U cfg w =
     (let previous = cl_key (up_client w);
          w = w\<lparr>up_client := SetKey (cfg_PendingKey cfg) (up_client w)\<rparr>
      in case call (Heartbeat (ue_net U) (ue_collectorID U) None) w of
           (Inr out, w) \<Rightarrow> (True, commitPendingKey U cfg w)
         | (Inl e, w) \<Rightarrow>
             (let w = w\<lparr>up_client := SetKey previous (up_client w)\<rparr>
              in if as_auth e \<noteq> None then (False, mutateConfig U discard_pending w) else (False, w)))"

text \<open>\<open>u.now().Format(time.RFC3339)\<close> in the local zone, whose offset in seconds is the
  environment's; the offset is printed in whole minutes.\<close>

definition fmt_zone :: "int \<Rightarrow> string" where
  "fmt_zone off = (if off = 0 then ''Z'' else
     (let m = \<bar>go_quot off 60\<bar> in (if go_quot off 60 < 0 then ''-'' else ''+'') @ pad 2 (m div 60) @ '':'' @ pad 2 (m mod 60)))"

definition format_local :: "up_env \<Rightarrow> instant \<Rightarrow> string" where
  "format_local U t = (let s = format_rfc3339 (t + ue_zone U t * nanos)
     in take (length s - 1) s @ fmt_zone (ue_zone U t))"

definition set_pending :: "rotate_out \<Rightarrow> string \<Rightarrow> config \<Rightarrow> config" where
  "set_pending out now c = c\<lparr>cfg_PendingKey := rt_CollectorKey out, cfg_PendingKeyID := rt_KeyID out,
     cfg_PendingKeyExpires := rt_KeyExpiresAt out, cfg_OldKeyValidUntil := rt_OldKeyValidUntil out,
     cfg_LastRotationAt := now\<rparr>"

definition set_attempt :: "string \<Rightarrow> bool \<Rightarrow> config \<Rightarrow> config" where
  "set_attempt at isConflict c = (let c = c\<lparr>cfg_LastRotationAt := at\<rparr> in
     if isConflict then c else c\<lparr>cfg_RotationFailures := cfg_RotationFailures c + 1\<rparr>)"

definition recordFailedRotateAttempt :: "up_env \<Rightarrow> api_error \<Rightarrow> string \<Rightarrow> uploader \<Rightarrow> uploader" where
  "recordFailedRotateAttempt U e at w = mutateConfig U (set_attempt at (is_conflict e)) w"

definition attemptRotate :: "up_env \<Rightarrow> uploader \<Rightarrow> uploader" where
  "attemptRotate U w = (case call (RotateKey (ue_net U)) w of (res, w) \<Rightarrow>
     (let now = format_local U (clock U w); w = tick w in
      case res of
        Inl e \<Rightarrow> recordFailedRotateAttempt U e now w
      | Inr out \<Rightarrow> mutateConfig U (set_pending out now) w))"

text \<open>The three clock readings of \<open>rotationDue\<close> are those of three steps; \<open>Sub\<close> saturates far
  beyond the day it is compared with.\<close>

definition rotationDue :: "up_env \<Rightarrow> config \<Rightarrow> uploader \<Rightarrow> bool" where
  "rotationDue U cfg w = (case parse_rfc3339 (cfg_KeyExpiresAt cfg) of
     None \<Rightarrow> False
   | Some expires \<Rightarrow>
       if clock U w + rotationLeadTime < expires then False
       else if cfg_LastRotationAt cfg = [] then True
       else (case parse_rfc3339 (cfg_LastRotationAt cfg) of
           None \<Rightarrow> True
         | Some t \<Rightarrow> clock U (tick w) - t \<ge> rotationRetryInterval))"

definition RotateCheckOnce :: "up_env \<Rightarrow> uploader \<Rightarrow> uploader" where
  "RotateCheckOnce U w = (case loadConfig U w of
     (None, w) \<Rightarrow> w
   | (Some cfg, w) \<Rightarrow>
       if cfg_PendingKey cfg \<noteq> [] then snd (verifyPendingKey U cfg w)
       else (let due = rotationDue U cfg w; w = tick (tick w)
             in if due then attemptRotate U w else w))"

subsection \<open>Unauthorized replies\<close>

definition recoverViaPendingKeyOrDegrade :: "up_env \<Rightarrow> uploader \<Rightarrow> uploader" where
  "recoverViaPendingKeyOrDegrade U w = (case loadConfig U w of
     (None, w) \<Rightarrow> enterDegraded U CodeKeyInvalid w
   | (Some cfg, w) \<Rightarrow>
       if cfg_PendingKey cfg = [] then enterDegraded U CodeKeyInvalid w
       else (case verifyPendingKey U cfg w of
           (True, w) \<Rightarrow> enterActive U w
         | (False, w) \<Rightarrow> enterDegraded U CodeKeyInvalid w))"

definition handleAuthError :: "up_env \<Rightarrow> string \<Rightarrow> uploader \<Rightarrow> uploader" where
  "handleAuthError U code w =
     (if code = CodeKeyRotated then recoverViaPendingKeyOrDegrade U w
      else if code = CodeKeyExpired then recoverViaPendingKeyOrDegrade U (attemptRotate U w)
      else enterDegraded U code w)"

subsection \<open>Back-off\<close>

definition onFlushSuccess :: "uploader \<Rightarrow> uploader" where
  "onFlushSuccess w = w\<lparr>up_backoff := 0\<rparr>"

definition widen :: "int64 \<Rightarrow> int64 \<Rightarrow> int64" where
  "widen base backoff =
     (let b = (if backoff = 0 then base else backoff);
          b = b * 2
      in if sint b > sint maxBackoff then maxBackoff else b)"

definition widenBackoff :: "uploader \<Rightarrow> uploader" where
  "widenBackoff w = w\<lparr>up_backoff := widen (FlushInterval (up_policy w)) (up_backoff w)\<rparr>"

definition flushDelay :: "uploader \<Rightarrow> int64" where
  "flushDelay w = (let base = FlushInterval (up_policy w)
     in if sint (up_backoff w) > sint base then up_backoff w else base)"

definition cycleDelay :: "uploader \<Rightarrow> int64" where
  "cycleDelay w = (if up_mode w = StateDegraded then degradedProbeInterval else flushDelay w)"

definition handleSendError :: "up_env \<Rightarrow> api_error \<Rightarrow> uploader \<Rightarrow> uploader" where
  "handleSendError U e w = (case as_auth e of
     Some code \<Rightarrow> handleAuthError U code w
   | None \<Rightarrow> widenBackoff (addCounter cUploadErrors 1 w))"

subsection \<open>Sending a batch\<close>

definition split_items :: "normalized_event item list \<Rightarrow> int list \<times> normalized_event list" where
  "split_items items = (map it_ID items, map (\<lambda>it. (it_Payload it)\<lparr>ev_EventID := Some (it_Key it)\<rparr>) items)"

definition splitMetrics :: "metric_point item list \<Rightarrow> int list \<times> metric_point list" where
  "splitMetrics items = (map it_ID items, map (\<lambda>it. if it_Key it = [] then it_Payload it
     else (it_Payload it)\<lparr>mp_PointID := Some (it_Key it)\<rparr>) items)"

definition splitSessions :: "session_item list \<Rightarrow> session_lease list \<times> session_summary list" where
  "splitSessions items = (map item_lease items, map si_Summary items)"

definition onUploadSuccess :: "up_env \<Rightarrow> counts \<Rightarrow> uploader \<Rightarrow> uploader" where
  "onUploadSuccess U ct w =
     setNow U cLastUploadAt (addCounter cUploadDropped (ct_Dropped ct) (addCounter cUploaded (ct_Accepted ct) w))"

definition on_events ::
    "up_env \<Rightarrow> (qenv \<Rightarrow> event_table \<Rightarrow> 'r \<times> event_table) \<Rightarrow> uploader \<Rightarrow> 'r \<times> uploader" where
  "on_events U f w = (case f (q_at U w) (up_events w) of (r, t) \<Rightarrow> (r, tick (w\<lparr>up_events := t\<rparr>)))"

definition on_metrics ::
    "up_env \<Rightarrow> (qenv \<Rightarrow> metric_table \<Rightarrow> 'r \<times> metric_table) \<Rightarrow> uploader \<Rightarrow> 'r \<times> uploader" where
  "on_metrics U f w = (case f (q_at U w) (up_metrics w) of (r, t) \<Rightarrow> (r, tick (w\<lparr>up_metrics := t\<rparr>)))"

definition on_sessions ::
    "up_env \<Rightarrow> (qenv \<Rightarrow> session_row list \<Rightarrow> 'r \<times> session_row list) \<Rightarrow> uploader \<Rightarrow> 'r \<times> uploader" where
  "on_sessions U f w = (case f (q_at U w) (up_sessions w) of (r, t) \<Rightarrow> (r, tick (w\<lparr>up_sessions := t\<rparr>)))"

definition sendBatch :: "up_env \<Rightarrow> normalized_event item list \<Rightarrow> uploader \<Rightarrow> bool \<times> uploader" where
  "sendBatch U items w = (case split_items items of (ids, events) \<Rightarrow>
     (case call (SendEvents (ue_net U) (ue_collectorID U) events) w of
        (Inl e, w) \<Rightarrow> (False, handleSendError U e (snd (on_events U (\<lambda>E. Nack E ids) w)))
      | (Inr ct, w) \<Rightarrow> (True, onUploadSuccess U ct (snd (on_events U (\<lambda>E. Ack E ids) w)))))"

definition sendMetricsBatch :: "up_env \<Rightarrow> metric_point item list \<Rightarrow> uploader \<Rightarrow> bool \<times> uploader" where
  "sendMetricsBatch U items w = (case splitMetrics items of (ids, points) \<Rightarrow>
     (case call (SendMetrics (ue_net U) (ue_collectorID U) points) w of
        (Inl e, w) \<Rightarrow> (False, handleSendError U e (snd (on_metrics U (\<lambda>E. NackMetrics E ids) w)))
      | (Inr ct, w) \<Rightarrow> (True, setNow U cLastUploadAt (addCounter cMetricsUploaded (ct_Accepted ct)
            (snd (on_metrics U (\<lambda>E. AckMetrics E ids) w))))))"

definition sendSessionsBatch :: "up_env \<Rightarrow> session_item list \<Rightarrow> uploader \<Rightarrow> bool \<times> uploader" where
  "sendSessionsBatch U items w = (case splitSessions items of (keys, sessions) \<Rightarrow>
     (case call (SendSessions (ue_net U) (ue_collectorID U) sessions) w of
        (Inl e, w) \<Rightarrow> (False, handleSendError U e (snd (on_sessions U (\<lambda>E. NackSessions E keys) w)))
      | (Inr ct, w) \<Rightarrow> (True, onUploadSuccess U ct (snd (on_sessions U (\<lambda>E. AckSessions E keys) w)))))"

subsection \<open>Draining a queue\<close>

text \<open>The loop the three flushes share: it may run for ever, and then it is \<open>None\<close>.\<close>

partial_function (option) flush_loop ::
    "(uploader \<Rightarrow> (queue_error + 'i list) \<times> uploader) \<Rightarrow> ('i list \<Rightarrow> uploader \<Rightarrow> bool \<times> uploader)
      \<Rightarrow> uploader \<Rightarrow> uploader option" where
  "flush_loop lease send w = (case lease w of
     (Inl e, w) \<Rightarrow> Some (addCounter cUploadErrors 1 w)
   | (Inr items, w) \<Rightarrow>
       if items = [] then Some (onFlushSuccess w)
       else (case send items w of (ok, w) \<Rightarrow> if ok then flush_loop lease send w else Some w))"

definition leaseEvents :: "up_env \<Rightarrow> int64 \<Rightarrow> uploader \<Rightarrow> (queue_error + normalized_event item list) \<times> uploader" where
  "leaseEvents U n w = on_events U (\<lambda>E. LeaseBatch E (sint n) leaseDuration) w"

definition leaseMetrics :: "up_env \<Rightarrow> int64 \<Rightarrow> uploader \<Rightarrow> (queue_error + metric_point item list) \<times> uploader" where
  "leaseMetrics U n w = on_metrics U (\<lambda>E. LeaseMetricsBatch E (sint n) leaseDuration) w"

definition leaseSessions :: "up_env \<Rightarrow> int64 \<Rightarrow> uploader \<Rightarrow> (queue_error + session_item list) \<times> uploader" where
  "leaseSessions U n w = on_sessions U (\<lambda>E. LeaseSessionsBatch E (sint n) leaseDuration) w"

definition FlushOnce :: "up_env \<Rightarrow> uploader \<Rightarrow> uploader option" where
  "FlushOnce U w = (if up_mode w \<noteq> StateActive then Some w
     else flush_loop (leaseEvents U (BatchSize (up_policy w))) (sendBatch U) w)"

definition FlushMetricsOnce :: "up_env \<Rightarrow> uploader \<Rightarrow> uploader option" where
  "FlushMetricsOnce U w = (if up_mode w \<noteq> StateActive then Some w
     else flush_loop (leaseMetrics U (BatchSize (up_policy w))) (sendMetricsBatch U) w)"

definition FlushSessionsOnce :: "up_env \<Rightarrow> uploader \<Rightarrow> uploader option" where
  "FlushSessionsOnce U w = (if up_mode w \<noteq> StateActive then Some w
     else flush_loop (leaseSessions U (BatchSize (up_policy w))) (sendSessionsBatch U) w)"

subsection \<open>Heartbeats\<close>

definition telemetry_of :: "up_env \<Rightarrow> uploader \<Rightarrow> telemetry" where
  "telemetry_of U w = Report (case Depth (q_at U w) (up_events w) of
       Inl e \<Rightarrow> up_counters w
     | Inr d \<Rightarrow> counter_set (up_counters w) cQueueDepth (i64 d)) (net_version (ue_net U))"

definition scheduleInventory :: "up_env \<Rightarrow> bool \<Rightarrow> uploader \<Rightarrow> bool \<times> uploader" where
  "scheduleInventory U enabled w =
     (if \<not> enabled then
        (False, w\<lparr>up_invCancelled := (up_invCancelled w \<or> up_invCancel w), up_invCancel := False,
                  up_invRunning := False, up_invNext := zero_time\<rparr>)
      else if up_invRunning w \<or> clock U w < up_invNext w then (False, tick w)
      else (True, tick (w\<lparr>up_invRunning := True\<rparr>)))"

definition heartbeat_config :: "policy \<Rightarrow> string option \<Rightarrow> config \<Rightarrow> config" where
  "heartbeat_config policy keyExpiresAt cfg =
     (let cfg = cfg\<lparr>cfg_Policy := policy\<rparr>;
          cfg = (if pol_InventoryEnabled policy then cfg
                 else cfg\<lparr>cfg_InventoryStatus := ''disabled'', cfg_InventoryItemCount := 0\<rparr>)
      in case keyExpiresAt of None \<Rightarrow> cfg | Some e \<Rightarrow> cfg\<lparr>cfg_KeyExpiresAt := e\<rparr>)"

definition onHeartbeatOK :: "up_env \<Rightarrow> policy \<Rightarrow> string option \<Rightarrow> uploader \<Rightarrow> uploader" where
  "onHeartbeatOK U policy keyExpiresAt w =
     (let w = (enterActive U w)\<lparr>up_policy := policy\<rparr> in
      case scheduleInventory U (pol_InventoryEnabled policy) w of (trig, w) \<Rightarrow>
        (let w = setNow U cLastHeartbeatAt w;
             w = mutateConfig U (heartbeat_config policy keyExpiresAt) w
         in if trig then w\<lparr>up_trigger := True\<rparr> else w))"

definition HeartbeatOnce :: "up_env \<Rightarrow> uploader \<Rightarrow> uploader" where
  "HeartbeatOnce U w =
     (let tel = telemetry_of U w; w = tick w in
      case call (Heartbeat (ue_net U) (ue_collectorID U) (Some tel)) w of
        (Inr out, w) \<Rightarrow> onHeartbeatOK U (ho_Policy out) (ho_KeyExpiresAt out) w
      | (Inl e, w) \<Rightarrow> (case as_auth e of
            Some code \<Rightarrow> handleAuthError U code w
          | None \<Rightarrow> addCounter cHeartbeatErrors 1 w))"

definition runCycle :: "up_env \<Rightarrow> uploader \<Rightarrow> uploader option" where
  "runCycle U w =
     (let w = (if up_mode w = StateDegraded then reloadKeyIfChanged U w else w);
          w = HeartbeatOnce U w
      in if up_mode w \<noteq> StateActive then Some w
         else Option.bind (FlushOnce U (RotateCheckOnce U w)) (\<lambda>w.
              Option.bind (FlushMetricsOnce U w) (FlushSessionsOnce U)))"

text \<open>\<open>Run\<close>: what happens before the timer loop.\<close>

definition Run_start :: "up_env \<Rightarrow> uploader \<Rightarrow> uploader" where
  "Run_start U w = (let w = HeartbeatOnce U w
     in if up_mode w = StateActive then RotateCheckOnce U w else w)"

subsection \<open>The inventory worker (\<open>inventory.go\<close>)\<close>

text \<open>\<open>syncInventory\<close> is cut where it holds no lock: \<open>others 0\<close> is what the other goroutine does
  while the items are discovered, \<open>others 1\<close> while they are sent, \<open>others 2\<close> before the result is
  recorded. \<open>gone\<close> says whether the daemon's own context ended.\<close>

definition set_inventory_pending :: "config \<Rightarrow> config" where
  "set_inventory_pending cfg =
     (if cfg_InventoryStatus cfg \<noteq> ''current'' then cfg\<lparr>cfg_InventoryStatus := ''pending''\<rparr> else cfg)"

definition set_inventory :: "string \<Rightarrow> string \<Rightarrow> int64 \<Rightarrow> config \<Rightarrow> config" where
  "set_inventory status observedAt n cfg =
     (let cfg = cfg\<lparr>cfg_InventoryStatus := status, cfg_InventoryItemCount := n\<rparr>
      in if observedAt \<noteq> [] then cfg\<lparr>cfg_InventoryLastUploadAt := observedAt\<rparr> else cfg)"

definition finishInventory ::
    "up_env \<Rightarrow> string \<Rightarrow> string \<Rightarrow> int64 \<Rightarrow> int \<Rightarrow> uploader \<Rightarrow> uploader" where
  "finishInventory U status observedAt n delay w =
     (let w = w\<lparr>up_invRunning := False, up_invCancel := False\<rparr> in
      if \<not> pol_InventoryEnabled (up_policy w) then w
      else (let w = tick (w\<lparr>up_invNext := clock U w + delay\<rparr>)
            in mutateConfig U (set_inventory status observedAt n) w))"

definition inventoryEnabled :: "uploader \<Rightarrow> bool" where
  "inventoryEnabled w = pol_InventoryEnabled (up_policy w)"

text \<open>\<open>buildAndSendInventory\<close>: \<open>Some (n, at)\<close> when the snapshot arrived.\<close>

definition buildAndSendInventory ::
    "up_env \<Rightarrow> (nat \<Rightarrow> uploader \<Rightarrow> uploader) \<Rightarrow> uploader \<Rightarrow> (nat \<times> string) option \<times> uploader" where
  "buildAndSendInventory U others w =
     (let found = ue_discover U (up_step w); w = others 0 (tick w) in
      case found of
        None \<Rightarrow> (None, w)
      | Some items \<Rightarrow>
          if \<not> inventoryEnabled w then (None, w)
          else (let observedAt = format_rfc3339 (clock U w); w = tick w in
            case call (SendInventory (ue_net U) (ue_collectorID U) observedAt items) w of
              (res, w) \<Rightarrow> (case res of Inl e \<Rightarrow> None | Inr out \<Rightarrow> Some (length items, observedAt), others 1 w)))"

definition syncInventory ::
    "up_env \<Rightarrow> (nat \<Rightarrow> uploader \<Rightarrow> uploader) \<Rightarrow> bool \<Rightarrow> uploader \<Rightarrow> uploader" where
  "syncInventory U others gone w =
     (if \<not> inventoryEnabled w then w\<lparr>up_invRunning := False\<rparr>
      else (let w = w\<lparr>up_invCancel := True, up_invCancelled := False\<rparr>;
                w = mutateConfig U set_inventory_pending w
            in case buildAndSendInventory U others w of (res, w) \<Rightarrow>
              (case res of
                 Some (n, observedAt) \<Rightarrow>
                   if inventoryEnabled w
                   then finishInventory U ''current'' observedAt (of_nat n) inventoryRefreshInterval (others 2 w)
                   else w
               | None \<Rightarrow>
                   if \<not> gone \<and> \<not> up_invCancelled w \<and> inventoryEnabled w
                   then finishInventory U ''error'' [] 0 inventoryRetryInterval (others 2 w)
                   else w)))"

end
