(* ===== verification/Codex_Repo.thy ===== *)
theory Codex_Repo
  imports Go_Time Go_Strings Api_Types
begin

text \<open>
  \<open>internal/codexrepo\<close>: from an agent's session id to the repository it works in, by the metadata
  of the session files of Codex and Claude (\<open>resolver.go\<close>), and the repository key
  (\<open>repokey.go\<close>, \<open>salt.go\<close>). Paths are those of a Unix build.

  What lies outside is the environment of a call: the files a walk visits, their size,
  modification time and contents, the answers of \<open>git\<close>, the readings of a JSON text, of a UUID
  (a third-party package) and of a URL, the lower case of the runes that are not ASCII, the hash
  and the random bytes. The state is the resolver's four maps and the salt file.
\<close>

subsection \<open>Paths\<close>

definition split_slash :: "string \<Rightarrow> string list" where
  "split_slash s = split_by (\<lambda>c. c = CHR ''/'') s"

text \<open>\<open>filepath.Ext\<close>, \<open>Base\<close>, \<open>Clean\<close>, \<open>Dir\<close>, \<open>Join\<close>.\<close>

definition path_last :: "string \<Rightarrow> string" where
  "path_last p = rev (takeWhile (\<lambda>c. c \<noteq> CHR ''/'') (rev p))"

definition path_ext :: "string \<Rightarrow> string" where
  "path_ext p = (let r = rev (path_last p); e = takeWhile (\<lambda>c. c \<noteq> CHR ''.'') r
     in if length e < length r then CHR ''.'' # rev e else [])"

definition path_base :: "string \<Rightarrow> string" where
  "path_base p = (if p = [] then ''.''
     else (let b = path_last (trim_right p (CHR ''/'')) in if b = [] then ''/'' else b))"

definition clean_step :: "bool \<Rightarrow> string list \<Rightarrow> string \<Rightarrow> string list" where
  "clean_step rooted acc seg =
     (if seg = [] \<or> seg = ''.'' then acc
      else if seg = ''..'' then
        (case acc of [] \<Rightarrow> if rooted then [] else [seg]
         | prev # rest \<Rightarrow> if prev = ''..'' then seg # acc else rest)
      else seg # acc)"

definition path_clean :: "string \<Rightarrow> string" where
  "path_clean p =
     (if p = [] then ''.''
      else (let rooted = (hd p = CHR ''/'');
                body = join ''/'' (rev (foldl (clean_step rooted) [] (split_slash p)))
            in if rooted then CHR ''/'' # body else if body = [] then ''.'' else body))"

definition path_dir :: "string \<Rightarrow> string" where
  "path_dir p = path_clean (take (length p - length (path_last p)) p)"

definition path_join :: "string list \<Rightarrow> string" where
  "path_join xs = (case filter (\<lambda>x. x \<noteq> []) xs of [] \<Rightarrow> [] | ys \<Rightarrow> path_clean (join ''/'' ys))"

subsection \<open>Environment and state\<close>

text \<open>What \<open>filepath.WalkDir\<close> hands to its callback: an error, a directory, or a file with its
  path and its name.\<close>

datatype walk_entry = Walk_Err | Walk_Dir string | Walk_File string string

record repo_env =
  rx_walk :: "string \<Rightarrow> walk_entry list"
  rx_stat :: "string \<Rightarrow> (nat \<times> instant) option"
  rx_read :: "string \<Rightarrow> string option"
  rx_seek :: "string \<Rightarrow> bool"
  rx_isdir :: "string \<Rightarrow> bool"
  rx_git :: "string list \<Rightarrow> string option"
  rx_json :: "string \<Rightarrow> any option"
  rx_uuid :: "string \<Rightarrow> bool"
  rx_url :: "string \<Rightarrow> (string \<times> string \<times> string \<times> string) option"
  rx_lower :: "nat \<times> string \<Rightarrow> string"
  rx_sha256 :: "string \<Rightarrow> string"
  rx_configdir :: bool
  rx_rand :: "string option"
  rx_mkdir :: bool
  rx_write :: "string \<Rightarrow> string option"

record cache_entry =
  ce_path :: string
  ce_size :: nat
  ce_mod :: instant
  ce_cwd :: string
  ce_repo :: string
  ce_key :: string

definition no_entry :: cache_entry where
  "no_entry = \<lparr>ce_path = [], ce_size = 0, ce_mod = 0, ce_cwd = [], ce_repo = [], ce_key = []\<rparr>"

record resolver =
  rs_sessionsDir :: string
  rs_archiveDir :: string
  rs_claudeDir :: string
  rs_index :: "string \<rightharpoonup> string"
  rs_cache :: "string \<rightharpoonup> cache_entry"
  rs_claudeIndex :: "string \<rightharpoonup> string"
  rs_claudeCache :: "string \<rightharpoonup> cache_entry"
  rs_salt :: "string option"

text \<open>\<open>NewWithHomes\<close>; \<open>codexEnv\<close> and \<open>claudeEnv\<close> are the two environment variables, \<open>home\<close> the
  home directory if there is one.\<close>

definition home_dir :: "string \<Rightarrow> string \<Rightarrow> string option \<Rightarrow> string \<Rightarrow> string" where
  "home_dir given fromEnv home sub =
     (let d = (if given = [] then fromEnv else given)
      in if d = [] then (case home of Some h \<Rightarrow> path_join [h, sub] | None \<Rightarrow> d) else d)"

definition NewWithHomes ::
    "string \<Rightarrow> string \<Rightarrow> string option \<Rightarrow> string option \<Rightarrow> string \<Rightarrow> string \<Rightarrow> resolver" where
  "NewWithHomes codexEnv claudeEnv home salt codexHome claudeHome =
     (let codex = home_dir codexHome codexEnv home ''.codex'';
          claude = home_dir claudeHome claudeEnv home ''.claude''
      in \<lparr>rs_sessionsDir = path_join [codex, ''sessions''],
          rs_archiveDir = path_join [codex, ''archived_sessions''],
          rs_claudeDir = path_join [claude, ''projects''],
          rs_index = Map.empty, rs_cache = Map.empty,
          rs_claudeIndex = Map.empty, rs_claudeCache = Map.empty, rs_salt = salt\<rparr>)"

subsection \<open>Finding the session file\<close>

definition validConversationID :: "repo_env \<Rightarrow> string \<Rightarrow> bool" where
  "validConversationID X sid \<longleftrightarrow> length sid = 36 \<and> rx_uuid X sid"

definition conversationIDFromName :: "repo_env \<Rightarrow> string \<Rightarrow> string" where
  "conversationIDFromName X name =
     (let parts = split_by (\<lambda>c. c = CHR ''-'') (trim_suffix name (path_ext name)) in
      if length parts < 5 then []
      else (let sid = join ''-'' (drop (length parts - 5) parts)
            in if validConversationID X sid then sid else []))"

definition claudeIDFromName :: "repo_env \<Rightarrow> string \<Rightarrow> string" where
  "claudeIDFromName X name =
     (let sid = trim_suffix name (path_ext name) in if validConversationID X sid then sid else [])"

text \<open>The walk callback of both indexes; \<open>ident\<close> gives the id of a file name, or nothing. The
  first error ends the walk.\<close>

fun walk_index :: "(string \<Rightarrow> string) \<Rightarrow> walk_entry list \<Rightarrow> (string \<rightharpoonup> string) \<Rightarrow> (string \<rightharpoonup> string)" where
  "walk_index ident [] index = index"
| "walk_index ident (Walk_Err # es) index = index"
| "walk_index ident (Walk_Dir p # es) index = walk_index ident es index"
| "walk_index ident (Walk_File p name # es) index =
     (if path_ext name \<noteq> ''.jsonl'' then walk_index ident es index
      else (let sid = ident name in
        if sid \<noteq> [] \<and> index sid = None then walk_index ident es (index(sid \<mapsto> p))
        else walk_index ident es index))"

definition refreshIndex :: "repo_env \<Rightarrow> resolver \<Rightarrow> resolver" where
  "refreshIndex X r = r\<lparr>rs_index := foldl (\<lambda>index root. walk_index (conversationIDFromName X) (rx_walk X root) index)
     (rs_index r) [rs_sessionsDir r, rs_archiveDir r]\<rparr>"

definition refreshClaudeIndex :: "repo_env \<Rightarrow> resolver \<Rightarrow> resolver" where
  "refreshClaudeIndex X r = r\<lparr>rs_claudeIndex :=
     walk_index (claudeIDFromName X) (rx_walk X (rs_claudeDir r)) (rs_claudeIndex r)\<rparr>"

definition map_str :: "(string \<rightharpoonup> string) \<Rightarrow> string \<Rightarrow> string" where
  "map_str m k = (case m k of None \<Rightarrow> [] | Some v \<Rightarrow> v)"

definition findSession :: "repo_env \<Rightarrow> string \<Rightarrow> resolver \<Rightarrow> string \<times> resolver" where
  "findSession X sid r =
     (if map_str (rs_index r) sid \<noteq> [] then (map_str (rs_index r) sid, r)
      else (let r = refreshIndex X r in (map_str (rs_index r) sid, r)))"

definition findClaudeSession :: "repo_env \<Rightarrow> string \<Rightarrow> resolver \<Rightarrow> string \<times> resolver" where
  "findClaudeSession X sid r =
     (if map_str (rs_claudeIndex r) sid \<noteq> [] then (map_str (rs_claudeIndex r) sid, r)
      else (let r = refreshClaudeIndex X r in (map_str (rs_claudeIndex r) sid, r)))"

subsection \<open>Reading a session file\<close>

definition maxSessionLineBytes :: nat where "maxSessionLineBytes = 16 * 1024 * 1024"

text \<open>\<open>bufio.Scanner\<close> with \<open>ScanLines\<close>: lines without their end, a final line without one included
  unless it is empty; a line that does not fit the buffer with its end stops the scan.\<close>

definition newline :: char where "newline = CHR 0x0A"

definition drop_cr :: "string \<Rightarrow> string" where
  "drop_cr line = (if line \<noteq> [] \<and> last line = CHR 0x0D then butlast line else line)"

function scan_lines :: "string \<Rightarrow> string list" where
  "scan_lines s =
     (if s = [] then []
      else (let line = takeWhile (\<lambda>c. c \<noteq> newline) s in
        if length line \<ge> maxSessionLineBytes then []
        else drop_cr line # scan_lines (drop (length line + 1) s)))"
  by pat_completeness auto
termination by (relation "measure length") auto

declare scan_lines.simps [simp del]

record codex_event =
  se_Type :: string
  se_ID :: string
  se_CWD :: string

definition dec_session :: "any \<Rightarrow> codex_event option" where
  "dec_session v = Option.bind (as_object v) (\<lambda>m. Option.bind (dec_str m ''type'') (\<lambda>t.
     Option.bind (as_object (aget m ''payload'')) (\<lambda>p. Option.bind (dec_str p ''id'') (\<lambda>i.
     map_option (\<lambda>c. \<lparr>se_Type = t, se_ID = i, se_CWD = c\<rparr>) (dec_str p ''cwd'')))))"

record claude_event =
  cle_SessionID :: string
  cle_CWD :: string

definition dec_claude :: "any \<Rightarrow> claude_event option" where
  "dec_claude v = Option.bind (as_object v) (\<lambda>m. Option.bind (dec_str m ''sessionId'') (\<lambda>i.
     map_option (\<lambda>c. \<lparr>cle_SessionID = i, cle_CWD = c\<rparr>) (dec_str m ''cwd'')))"

definition applicableCWD :: "codex_event \<Rightarrow> string \<Rightarrow> string \<Rightarrow> string" where
  "applicableCWD ev sid current =
     (if se_CWD ev = [] then current
      else if se_Type ev = ''session_meta'' then
        (if se_ID ev = [] \<or> se_ID ev = sid then se_CWD ev else current)
      else if se_Type ev = ''turn_context'' then se_CWD ev else current)"

definition applicableClaudeCWD :: "claude_event \<Rightarrow> string \<Rightarrow> string \<Rightarrow> string" where
  "applicableClaudeCWD ev sid current =
     (if cle_CWD ev = [] \<or> cle_SessionID ev \<noteq> [] \<and> cle_SessionID ev \<noteq> sid then current else cle_CWD ev)"

text \<open>The loop over the lines; one that does not decode is skipped.\<close>

definition fold_lines ::
    "repo_env \<Rightarrow> (any \<Rightarrow> 'e option) \<Rightarrow> ('e \<Rightarrow> string \<Rightarrow> string) \<Rightarrow> string \<Rightarrow> string \<Rightarrow> string" where
  "fold_lines X dec app data cwd = foldl (\<lambda>cwd line. case Option.bind (rx_json X line) dec of
     None \<Rightarrow> cwd | Some ev \<Rightarrow> app ev cwd) cwd (scan_lines data)"

definition readLatestCWD :: "repo_env \<Rightarrow> string \<Rightarrow> string \<Rightarrow> string" where
  "readLatestCWD X path sid = (case rx_read X path of None \<Rightarrow> []
     | Some data \<Rightarrow> fold_lines X dec_session (\<lambda>ev. applicableCWD ev sid) data [])"

definition readLatestClaudeCWD :: "repo_env \<Rightarrow> string \<Rightarrow> string \<Rightarrow> string \<Rightarrow> nat \<Rightarrow> string" where
  "readLatestClaudeCWD X path sid current offset = (case rx_read X path of None \<Rightarrow> current
     | Some data \<Rightarrow>
         if 0 < offset \<and> \<not> rx_seek X path then current
         else fold_lines X dec_claude (\<lambda>ev. applicableClaudeCWD ev sid) (drop offset data) current)"

subsection \<open>The repository label\<close>

definition maxProjectLabelRunes :: nat where "maxProjectLabelRunes = 240"

text \<open>\<open>strings.ToValidUTF8(s, "")\<close>.\<close>

definition to_valid_utf8 :: "string \<Rightarrow> string" where
  "to_valid_utf8 s = chunk_bytes (filter (\<lambda>c. \<not> bad_chunk c) (rune_chunks s))"

definition projectLabel :: "string \<Rightarrow> string" where
  "projectLabel path =
     (let name = trim_space (to_valid_utf8 (path_base path)) in
      if name = ''.'' \<or> name = ''/'' \<or> has_prefix name ''.'' then []
      else (let runes = rune_chunks name in
        if length runes > maxProjectLabelRunes then chunk_bytes (take maxProjectLabelRunes runes) else name))"

definition worktree_markers :: "string list" where
  "worktree_markers = [''/.claude/worktrees/'', ''/.codex/worktrees/'', ''/.worktrees/'']"

fun collapse_at :: "string list \<Rightarrow> string \<Rightarrow> string" where
  "collapse_at [] path = path"
| "collapse_at (marker # ms) path = (case cut marker path of
     Some (before, _) \<Rightarrow> if before \<noteq> [] then before else collapse_at ms path
   | None \<Rightarrow> collapse_at ms path)"

definition collapseWorktreePath :: "string \<Rightarrow> string" where
  "collapseWorktreePath path = collapse_at worktree_markers path"

definition gitCommonRoot :: "repo_env \<Rightarrow> string \<Rightarrow> string" where
  "gitCommonRoot X path =
     (case rx_git X [''-C'', path, ''rev-parse'', ''--path-format=absolute'', ''--git-common-dir''] of
        None \<Rightarrow> []
      | Some out \<Rightarrow> (let commonDir = trim_space out in
          if commonDir = [] then []
          else if path_base commonDir = ''.git'' then path_dir commonDir else []))"

definition resolvedRepoPath :: "repo_env \<Rightarrow> string \<Rightarrow> string" where
  "resolvedRepoPath X cwd =
     (let path = path_clean cwd;
          path = (if rx_isdir X path then path else collapseWorktreePath path);
          root = gitCommonRoot X path
      in if root \<noteq> [] then root else collapseWorktreePath path)"

definition canonicalRepo :: "repo_env \<Rightarrow> string \<Rightarrow> string" where
  "canonicalRepo X cwd = (if trim_space cwd = [] then [] else projectLabel (resolvedRepoPath X cwd))"

subsection \<open>The repository key (\<open>repokey.go\<close>)\<close>

definition fallbackHashHexLen :: nat where "fallbackHashHexLen = 12"

definition lower_with :: "repo_env \<Rightarrow> string \<Rightarrow> string" where
  "lower_with X s = concat (map (\<lambda>c. if fst c < 128 then map lower_char (snd c) else rx_lower X c) (rune_chunks s))"

definition re_space :: "char \<Rightarrow> bool" where
  "re_space c \<longleftrightarrow> byte c \<in> {9, 10, 12, 13, 32}"

text \<open>The match of \<open>scpLikeRemote\<close> after the optional user: host up to the first colon, then a path.\<close>

definition scp_host_path :: "string \<Rightarrow> (string \<times> string) option" where
  "scp_host_path s =
     (let host = takeWhile (\<lambda>c. c \<noteq> CHR '':'') s; path = drop (length host + 1) s in
      if length host < length s \<and> host \<noteq> [] \<and> \<not> list_ex (\<lambda>c. c = CHR ''/'' \<or> re_space c) host
        \<and> path \<noteq> [] \<and> newline \<notin> set path
      then Some (host, path) else None)"

definition scpLikeRemote :: "string \<Rightarrow> (string \<times> string) option" where
  "scpLikeRemote s =
     (let user = takeWhile (\<lambda>c. c \<noteq> CHR ''@'') s;
          m = (if length user < length s \<and> user \<noteq> [] \<and> \<not> list_ex (\<lambda>c. c = CHR ''/'' \<or> re_space c) user
               then scp_host_path (drop (length user + 1) s) else None)
      in if m = None then scp_host_path s else m)"

definition isDriveLetter :: "string \<Rightarrow> bool" where
  "isDriveLetter host \<longleftrightarrow> (case host of [c] \<Rightarrow>
     (97 \<le> byte c \<and> byte c \<le> 122) \<or> (65 \<le> byte c \<and> byte c \<le> 90) | _ \<Rightarrow> False)"

definition normalizeHostPath :: "repo_env \<Rightarrow> string \<Rightarrow> string \<Rightarrow> (string \<times> string) option" where
  "normalizeHostPath X hostname rawPath =
     (let host = lower_with X (trim_space hostname) in
      if host = [] \<or> isDriveLetter host then None
      else (let segments = filter (\<lambda>s. s \<noteq> []) (map (\<lambda>s. lower_with X (trim_space s)) (split_slash rawPath)) in
        if segments = [] then None
        else (let name = trim_suffix (last segments) ''.git'' in
          if name = [] then None else Some (host, join ''/'' (butlast segments @ [name])))))"

definition parseRemote :: "repo_env \<Rightarrow> string \<Rightarrow> (string \<times> string) option" where
  "parseRemote X remote =
     (let viaURL = (case rx_url X remote of
            None \<Rightarrow> None
          | Some (scheme, urlHost, hostname, path) \<Rightarrow>
              if urlHost = [] then None
              else if lower_with X scheme \<in> {''http'', ''https'', ''ssh'', ''git'', ''git+ssh''}
              then normalizeHostPath X hostname path else None)
      in if contains remote ''://'' then viaURL
         else (case scpLikeRemote remote of Some (h, p) \<Rightarrow> normalizeHostPath X h p | None \<Rightarrow> viaURL))"

definition looksLikeLocalPath :: "string \<Rightarrow> bool" where
  "looksLikeLocalPath key \<longleftrightarrow> list_ex (contains key) [''/users/'', ''/home/'', ''~'']
     \<or> isDriveLetter (takeWhile (\<lambda>c. c \<noteq> CHR ''/'') key)"

definition normalizeRemote :: "repo_env \<Rightarrow> string \<Rightarrow> string" where
  "normalizeRemote X remote =
     (let remote = trim_space remote in
      if remote = [] then []
      else (case parseRemote X remote of
          None \<Rightarrow> []
        | Some (host, path) \<Rightarrow>
            if host = [] \<or> path = [] then []
            else (let key = host @ ''/'' @ path in if looksLikeLocalPath key then [] else key)))"

definition namedRepoKey :: "string \<Rightarrow> string" where
  "namedRepoKey path = []"

definition gitOriginRemote :: "repo_env \<Rightarrow> string \<Rightarrow> string" where
  "gitOriginRemote X path = (case rx_git X [''-C'', path, ''remote'', ''get-url'', ''origin''] of
     None \<Rightarrow> [] | Some out \<Rightarrow> trim_space out)"

text \<open>\<open>salt.go\<close>. \<open>rx_rand\<close> is the hex form of the random bytes, \<open>rx_write\<close> what the salt file holds
  after a write of the given text.\<close>

definition generateSalt :: "repo_env \<Rightarrow> string" where
  "generateSalt X = (case rx_rand X of None \<Rightarrow> ''repo-key-salt-unavailable'' | Some h \<Rightarrow> h)"

definition persistSalt :: "repo_env \<Rightarrow> string \<Rightarrow> resolver \<Rightarrow> resolver" where
  "persistSalt X salt r = (if rx_mkdir X then r\<lparr>rs_salt := rx_write X salt\<rparr> else r)"

definition repoKeySalt :: "repo_env \<Rightarrow> resolver \<Rightarrow> string \<times> resolver" where
  "repoKeySalt X r =
     (if \<not> rx_configdir X then (generateSalt X, r)
      else (case map_option trim_space (rs_salt r) of
          Some salt \<Rightarrow> if salt \<noteq> [] then (salt, r)
            else (let salt = generateSalt X in (salt, persistSalt X salt r))
        | None \<Rightarrow> (let salt = generateSalt X in (salt, persistSalt X salt r))))"

definition fallbackHash :: "repo_env \<Rightarrow> string \<Rightarrow> resolver \<Rightarrow> string \<times> resolver" where
  "fallbackHash X path r = (case repoKeySalt X r of (salt, r) \<Rightarrow>
     (take fallbackHashHexLen (rx_sha256 X (path @ [CHR 0x00] @ salt)), r))"

definition RepoKey :: "repo_env \<Rightarrow> string \<Rightarrow> resolver \<Rightarrow> string \<times> resolver" where
  "RepoKey X cwd r =
     (if canonicalRepo X cwd = [] then ([], r)
      else (let path = resolvedRepoPath X cwd in
        if namedRepoKey path \<noteq> [] then (''named:'' @ namedRepoKey path, r)
        else (let remote = gitOriginRemote X path; key = normalizeRemote X remote in
          if remote \<noteq> [] \<and> key \<noteq> [] then (key, r)
          else (case fallbackHash X path r of (h, r) \<Rightarrow> (''local:'' @ h, r)))))"

subsection \<open>Resolving\<close>

definition resolveEntry :: "repo_env \<Rightarrow> string \<Rightarrow> resolver \<Rightarrow> cache_entry \<times> resolver" where
  "resolveEntry X sid r =
     (if \<not> validConversationID X sid then (no_entry, r)
      else (case findSession X sid r of (path, r) \<Rightarrow>
        if path = [] then (no_entry, r)
        else (case rx_stat X path of
            None \<Rightarrow> (no_entry, r\<lparr>rs_index := (rs_index r)(sid := None), rs_cache := (rs_cache r)(sid := None)\<rparr>)
          | Some (sz, modTime) \<Rightarrow>
              (let miss = (let cwd = readLatestCWD X path sid in case RepoKey X cwd r of (key, r) \<Rightarrow>
                     (let e = \<lparr>ce_path = path, ce_size = sz, ce_mod = modTime, ce_cwd = [],
                               ce_repo = canonicalRepo X cwd, ce_key = key\<rparr>
                      in (e, r\<lparr>rs_cache := (rs_cache r)(sid \<mapsto> e)\<rparr>)))
               in case rs_cache r sid of
                    None \<Rightarrow> miss
                  | Some c \<Rightarrow> if ce_path c = path \<and> ce_size c = sz \<and> ce_mod c = modTime then (c, r) else miss))))"

definition cacheUnchanged :: "cache_entry option \<Rightarrow> string \<Rightarrow> nat \<Rightarrow> instant \<Rightarrow> bool" where
  "cacheUnchanged cached path sz modTime = (case cached of None \<Rightarrow> False
     | Some c \<Rightarrow> ce_path c = path \<and> ce_size c = sz \<and> ce_mod c = modTime)"

definition resumePoint :: "cache_entry option \<Rightarrow> string \<Rightarrow> nat \<Rightarrow> string \<times> nat" where
  "resumePoint cached path sz = (case cached of None \<Rightarrow> ([], 0)
     | Some c \<Rightarrow> if ce_path c = path \<and> ce_size c \<le> sz then (ce_cwd c, ce_size c) else ([], 0))"

definition resolveClaudeEntry :: "repo_env \<Rightarrow> string \<Rightarrow> resolver \<Rightarrow> cache_entry \<times> resolver" where
  "resolveClaudeEntry X sid r =
     (if \<not> validConversationID X sid then (no_entry, r)
      else (case findClaudeSession X sid r of (path, r) \<Rightarrow>
        if path = [] then (no_entry, r)
        else (case rx_stat X path of
            None \<Rightarrow> (no_entry, r\<lparr>rs_claudeIndex := (rs_claudeIndex r)(sid := None),
                                rs_claudeCache := (rs_claudeCache r)(sid := None)\<rparr>)
          | Some (sz, modTime) \<Rightarrow>
              if cacheUnchanged (rs_claudeCache r sid) path sz modTime then (the (rs_claudeCache r sid), r)
              else (case resumePoint (rs_claudeCache r sid) path sz of (cwd, offset) \<Rightarrow>
                (let cwd = readLatestClaudeCWD X path sid cwd offset in case RepoKey X cwd r of (key, r) \<Rightarrow>
                   (let e = \<lparr>ce_path = path, ce_size = sz, ce_mod = modTime, ce_cwd = cwd,
                             ce_repo = canonicalRepo X cwd, ce_key = key\<rparr>
                    in (e, r\<lparr>rs_claudeCache := (rs_claudeCache r)(sid \<mapsto> e)\<rparr>)))))))"

definition Resolve :: "repo_env \<Rightarrow> string \<Rightarrow> resolver \<Rightarrow> string \<times> resolver" where
  "Resolve X sid r = (case resolveEntry X sid r of (e, r) \<Rightarrow> (ce_repo e, r))"

definition ResolveKey :: "repo_env \<Rightarrow> string \<Rightarrow> resolver \<Rightarrow> string \<times> resolver" where
  "ResolveKey X sid r = (case resolveEntry X sid r of (e, r) \<Rightarrow> (ce_key e, r))"

definition ResolveClaude :: "repo_env \<Rightarrow> string \<Rightarrow> resolver \<Rightarrow> string \<times> resolver" where
  "ResolveClaude X sid r = (case resolveClaudeEntry X sid r of (e, r) \<Rightarrow> (ce_repo e, r))"

definition ResolveClaudeKey :: "repo_env \<Rightarrow> string \<Rightarrow> resolver \<Rightarrow> string \<times> resolver" where
  "ResolveClaudeKey X sid r = (case resolveClaudeEntry X sid r of (e, r) \<Rightarrow> (ce_key e, r))"

end
