(* ===== verification/Receiver.thy ===== *)
theory Receiver
  imports Counters Go_Strings
begin

text \<open>
  \<open>internal/receiver\<close>: the loopback OTLP/HTTP server the agents post to. A request is what the
  handlers read of an \<open>http.Request\<close>; the pipeline behind the two endpoints is a pair of functions
  on a state of any type, \<open>None\<close> being a panic the receiver recovers from. The parts of \<open>net\<close>
  and \<open>mime\<close> that the guards rest on are written out; the reading of a JSON text is a parameter.
\<close>

subsection \<open>Addresses (\<open>net\<close>)\<close>

abbreviation index_of :: "char \<Rightarrow> string \<Rightarrow> nat" where
  "index_of c s \<equiv> length (takeWhile (\<lambda>x. x \<noteq> c) s)"

text \<open>\<open>net.SplitHostPort\<close>.\<close>

definition split_host_port :: "string \<Rightarrow> (string \<times> string) option" where
  "split_host_port hp =
     (if CHR '':'' \<notin> set hp then None
      else (let i = length hp - 1 - index_of (CHR '':'') (rev hp) in
        if hd hp = CHR ''['' then
          (let end = index_of (CHR '']'') hp in
           if CHR '']'' \<notin> set hp \<or> end + 1 \<noteq> i then None
           else if CHR ''['' \<in> set (drop 1 hp) \<or> CHR '']'' \<in> set (drop (end + 1) hp) then None
           else Some (drop 1 (take end hp), drop (i + 1) hp))
        else if CHR '':'' \<in> set (take i hp) then None
        else if CHR ''['' \<in> set hp \<or> CHR '']'' \<in> set hp then None
        else Some (take i hp, drop (i + 1) hp)))"

text \<open>\<open>net.ParseIP\<close>, to the list of the bytes: four fields without leading zeros, or eight groups of
  at most four hexadecimal digits, one run of which may be left out, and whose end may be written
  as an IPv4 address.\<close>

definition ipv4_field :: "string \<Rightarrow> bool" where
  "ipv4_field f \<longleftrightarrow> f \<noteq> [] \<and> list_all is_digit f \<and> (length f = 1 \<or> hd f \<noteq> CHR ''0'') \<and> digits_val f \<le> 255"

definition parse_ipv4 :: "string \<Rightarrow> nat list option" where
  "parse_ipv4 s = (let fs = split_by (\<lambda>c. c = CHR ''.'') s in
     if length fs = 4 \<and> list_all ipv4_field fs then Some (map digits_val fs) else None)"

definition hex_val :: "char \<Rightarrow> nat option" where
  "hex_val c = (if 48 \<le> byte c \<and> byte c \<le> 57 then Some (byte c - 48)
     else if 97 \<le> byte c \<and> byte c \<le> 102 then Some (byte c - 87)
     else if 65 \<le> byte c \<and> byte c \<le> 70 then Some (byte c - 55) else None)"

definition hex_digits :: "string \<Rightarrow> string" where
  "hex_digits s = takeWhile (\<lambda>c. hex_val c \<noteq> None) s"

definition hex_group :: "string \<Rightarrow> nat" where
  "hex_group ds = foldl (\<lambda>a c. a * 16 + (case hex_val c of None \<Rightarrow> 0 | Some v \<Rightarrow> v)) 0 ds"

text \<open>The loop over the groups: the bytes so far, the position of the ellipsis, the rest.\<close>

fun ipv6_groups :: "nat \<Rightarrow> nat list \<Rightarrow> nat option \<Rightarrow> string \<Rightarrow> (nat list \<times> nat option \<times> string) option" where
  "ipv6_groups 0 ip ell s = Some (ip, ell, s)"
| "ipv6_groups (Suc n) ip ell s =
     (if length ip \<ge> 16 then Some (ip, ell, s)
      else (let ds = hex_digits s; rest = drop (length ds) s in
        if ds = [] \<or> length ds > 4 then None
        else if rest \<noteq> [] \<and> hd rest = CHR ''.'' then
          (if (ell = None \<and> length ip \<noteq> 12) \<or> length ip + 4 > 16 then None
           else map_option (\<lambda>f. (ip @ f, ell, [])) (parse_ipv4 s))
        else (let ip = ip @ [hex_group ds div 256, hex_group ds mod 256] in
          case rest of
            [] \<Rightarrow> Some (ip, ell, [])
          | [c] \<Rightarrow> None
          | c # d # s' \<Rightarrow>
              if c \<noteq> CHR '':'' then None
              else if d \<noteq> CHR '':'' then ipv6_groups n ip ell (d # s')
              else if ell \<noteq> None then None
              else if s' = [] then Some (ip, Some (length ip), [])
              else ipv6_groups n ip (Some (length ip)) s')))"

definition parse_ipv6 :: "string \<Rightarrow> nat list option" where
  "parse_ipv6 s =
     (if s = ''::'' then Some (replicate 16 0)
      else (let lead = has_prefix s ''::'' in
        case ipv6_groups 8 [] (if lead then Some 0 else None) (if lead then drop 2 s else s) of
          None \<Rightarrow> None
        | Some (ip, ell, rest) \<Rightarrow>
            if rest \<noteq> [] then None
            else (case ell of
                None \<Rightarrow> if length ip < 16 then None else Some ip
              | Some e \<Rightarrow> if length ip < 16 then Some (take e ip @ replicate (16 - length ip) 0 @ drop e ip) else None)))"

definition parse_ip :: "string \<Rightarrow> nat list option" where
  "parse_ip s = (case filter (\<lambda>c. c \<in> {CHR ''.'', CHR '':'', CHR ''%''}) s of
     [] \<Rightarrow> None
   | c # _ \<Rightarrow> if c = CHR ''.'' then parse_ipv4 s
       else if c = CHR '':'' \<and> CHR ''%'' \<notin> set s then parse_ipv6 s else None)"

text \<open>\<open>IP.IsLoopback\<close>: an IPv4 address, mapped or not, in 127.0.0.0/8, or \<open>::1\<close>.\<close>

definition is_loopback :: "nat list \<Rightarrow> bool" where
  "is_loopback ip \<longleftrightarrow>
     (if length ip = 4 then hd ip = 127
      else if take 12 ip = replicate 10 0 @ [255, 255] then ip ! 12 = 127
      else ip = replicate 15 0 @ [1])"

definition requireLoopback :: "string \<Rightarrow> bool" where
  "requireLoopback host \<longleftrightarrow> host = ''localhost'' \<or> (case parse_ip host of None \<Rightarrow> False | Some ip \<Rightarrow> is_loopback ip)"

definition isLoopbackHost :: "string \<Rightarrow> bool" where
  "isLoopbackHost host =
     (let h = (case split_host_port host of Some (hostOnly, port) \<Rightarrow> hostOnly | None \<Rightarrow> host);
          h = trim_prefix (trim_suffix h '']'') ''[''
      in equal_fold h ''localhost'' \<or> (case parse_ip h of None \<Rightarrow> False | Some ip \<Rightarrow> is_loopback ip))"

subsection \<open>Media types (\<open>mime\<close>)\<close>

definition token_char :: "char \<Rightarrow> bool" where
  "token_char c \<longleftrightarrow> 32 < byte c \<and> byte c < 127 \<and> c \<notin> set ''()<>@,;:/[]?='' \<and> byte c \<noteq> 34 \<and> byte c \<noteq> 92"

definition tspecial :: "char \<Rightarrow> bool" where
  "tspecial c \<longleftrightarrow> c \<in> set ''()<>@,;:/[]?='' \<or> byte c = 34 \<or> byte c = 92"

definition trim_left :: "string \<Rightarrow> string" where
  "trim_left s = chunk_bytes (dropWhile space_chunk (rune_chunks s))"

definition consume_token :: "string \<Rightarrow> string \<times> string" where
  "consume_token s = (takeWhile token_char s, dropWhile token_char s)"

text \<open>The quoted form, after the opening quote: the value and what follows the closing quote.\<close>

fun quoted :: "string \<Rightarrow> (string \<times> string) option" where
  "quoted [] = None"
| "quoted (c # s) =
     (if byte c = 34 then Some ([], s)
      else if byte c = 92 \<and> s \<noteq> [] \<and> tspecial (hd s) then
        (case s of [] \<Rightarrow> None | d # s' \<Rightarrow> map_option (\<lambda>(v, r). (d # v, r)) (quoted s'))
      else if byte c = 10 \<or> byte c = 13 then None
      else map_option (\<lambda>(v, r). (c # v, r)) (quoted s))"

definition consume_value :: "string \<Rightarrow> string \<times> string" where
  "consume_value s =
     (if s = [] then ([], [])
      else if byte (hd s) = 34 then (case quoted (tl s) of None \<Rightarrow> ([], s) | Some vr \<Rightarrow> vr)
      else consume_token s)"

text \<open>\<open>consumeMediaParam\<close>; \<open>None\<close> is the empty name.\<close>

definition media_param :: "string \<Rightarrow> (string \<times> string \<times> string) option" where
  "media_param v =
     (let r = trim_left v in
      if \<not> has_prefix r '';'' then None
      else (case consume_token (trim_left (drop 1 r)) of (param, r) \<Rightarrow>
        (let param = to_lower param; r = trim_left r in
         if param = [] \<or> \<not> has_prefix r ''='' then None
         else (let r = trim_left (drop 1 r) in case consume_value r of (val, r') \<Rightarrow>
           if val = [] \<and> r' = r then None else Some (param, val, r')))))"

text \<open>The parameters; whether they parse. Each round consumes a character.\<close>

fun media_params :: "nat \<Rightarrow> (string \<rightharpoonup> string) \<Rightarrow> string \<Rightarrow> bool" where
  "media_params 0 seen v \<longleftrightarrow> v = []"
| "media_params (Suc n) seen v \<longleftrightarrow>
     (let v = trim_left v in
      if v = [] then True
      else (case media_param v of
          None \<Rightarrow> trim_space v = '';''
        | Some (key, val, rest) \<Rightarrow>
            (case seen key of Some old \<Rightarrow> old = val | None \<Rightarrow> True)
            \<and> media_params n (seen(key \<mapsto> val)) rest))"

definition isJSONContentType :: "string \<Rightarrow> bool" where
  "isJSONContentType ct \<longleftrightarrow>
     (let base = takeWhile (\<lambda>c. c \<noteq> CHR '';'') ct; params = drop (length base) ct in
      trim_space (to_lower base) = ''application/json'' \<and> media_params (length params) Map.empty params)"

subsection \<open>Requests, responses, the server\<close>

definition DefaultPort :: int where "DefaultPort = 8765"
definition maxBodyBytes :: nat where "maxBodyBytes = 8 * 1024 * 1024"

text \<open>A header is the value \<open>Header.Get\<close> returns, empty when absent. The body is what can be read of
  it, or the error of the read, a body over the cap included; \<open>hq_json\<close> is the reading of a JSON text.\<close>

record http_request =
  hq_method :: string
  hq_path :: string
  hq_host :: string
  hq_origin :: string
  hq_contentType :: string
  hq_token :: string
  hq_body :: "string option"
  hq_json :: "string \<Rightarrow> any option"

datatype resp_body = R_Error string | R_Counts nat nat | R_Health registry

record response =
  hr_status :: nat
  hr_body :: resp_body

definition writeJSON :: "nat \<Rightarrow> resp_body \<Rightarrow> response" where
  "writeJSON status body = \<lparr>hr_status = status, hr_body = body\<rparr>"

type_synonym 's log_handler = "gomap \<Rightarrow> 's \<Rightarrow> (nat \<times> nat) option \<times> 's"

record 's server =
  sv_handler :: "'s log_handler option"
  sv_metricsHandler :: "'s log_handler option"
  sv_counters :: "('s \<Rightarrow> registry) option"
  sv_token :: string
  sv_addr :: "string \<times> int"
  sv_logsReceived :: int64
  sv_metricsReceived :: int64
  sv_tokenMissing :: int64

text \<open>\<open>New\<close>: a host that is not loopback is refused.\<close>

definition NewServer ::
    "string \<Rightarrow> int \<Rightarrow> 's log_handler option \<Rightarrow> 's log_handler option \<Rightarrow> ('s \<Rightarrow> registry) option \<Rightarrow> string
      \<Rightarrow> 's server option" where
  "NewServer cfgHost cfgPort handler metrics counters token =
     (let host = (if cfgHost = [] then ''127.0.0.1'' else cfgHost) in
      if \<not> requireLoopback host then None
      else Some \<lparr>sv_handler = handler, sv_metricsHandler = metrics, sv_counters = counters, sv_token = token,
        sv_addr = (host, if cfgPort = 0 then DefaultPort else cfgPort),
        sv_logsReceived = 0, sv_metricsReceived = 0, sv_tokenMissing = 0\<rparr>)"

definition rejectToken :: "'s server \<Rightarrow> http_request \<Rightarrow> response option \<times> 's server" where
  "rejectToken s r =
     (if hq_token r = [] \<or> sv_token s = [] then (None, s\<lparr>sv_tokenMissing := sv_tokenMissing s + 1\<rparr>)
      else if hq_token r \<noteq> sv_token s then (Some (writeJSON 401 (R_Error ''invalid token'')), s)
      else (None, s))"

definition reject :: "'s server \<Rightarrow> http_request \<Rightarrow> response option \<times> 's server" where
  "reject s r =
     (if hq_origin r \<noteq> [] then (Some (writeJSON 403 (R_Error ''cross-origin requests are not accepted'')), s)
      else if \<not> isLoopbackHost (hq_host r) then (Some (writeJSON 403 (R_Error ''unexpected host'')), s)
      else if hq_method r \<noteq> ''POST'' then (None, s)
      else if \<not> isJSONContentType (hq_contentType r)
        then (Some (writeJSON 415 (R_Error ''unsupported content type'')), s)
      else rejectToken s r)"

definition decodeBody :: "http_request \<Rightarrow> gomap" where
  "decodeBody r = (case hq_body r of
     None \<Rightarrow> []
   | Some data \<Rightarrow>
       if length data > maxBodyBytes then []
       else (case hq_json r data of Some (AMap m) \<Rightarrow> m | _ \<Rightarrow> []))"

text \<open>\<open>invoke\<close>: accepted, dropped, and whether the handler panicked.\<close>

definition invoke :: "'s log_handler option \<Rightarrow> gomap \<Rightarrow> 's \<Rightarrow> (nat \<times> nat \<times> bool) \<times> 's" where
  "invoke handler payload st = (case handler of
     None \<Rightarrow> ((0, 0, False), st)
   | Some h \<Rightarrow> (case h payload st of
       (None, st) \<Rightarrow> ((0, 0, True), st)
     | (Some (accepted, dropped), st) \<Rightarrow> ((accepted, dropped, False), st)))"

definition answer :: "nat \<times> nat \<times> bool \<Rightarrow> response" where
  "answer res = (case res of (accepted, dropped, panicked) \<Rightarrow>
     if panicked then writeJSON 500 (R_Error ''internal error'') else writeJSON 200 (R_Counts accepted dropped))"

definition srvLogs :: "'s server \<Rightarrow> http_request \<Rightarrow> 's \<Rightarrow> response \<times> 's server \<times> 's" where
  "srvLogs s r st = (let s = s\<lparr>sv_logsReceived := sv_logsReceived s + 1\<rparr> in
     case invoke (sv_handler s) (decodeBody r) st of (res, st) \<Rightarrow> (answer res, s, st))"

definition srvMetrics :: "'s server \<Rightarrow> http_request \<Rightarrow> 's \<Rightarrow> response \<times> 's server \<times> 's" where
  "srvMetrics s r st = (let s = s\<lparr>sv_metricsReceived := sv_metricsReceived s + 1\<rparr> in
     case invoke (sv_metricsHandler s) (decodeBody r) st of (res, st) \<Rightarrow> (answer res, s, st))"

definition srvHealth :: "'s server \<Rightarrow> 's \<Rightarrow> response" where
  "srvHealth s st =
     (let own = [''logs_received'' \<mapsto> sv_logsReceived s, ''metrics_received'' \<mapsto> sv_metricsReceived s,
                 ''token_missing'' \<mapsto> sv_tokenMissing s]
      in writeJSON 200 (R_Health (case sv_counters s of None \<Rightarrow> own | Some f \<Rightarrow> own ++ f st)))"

definition ServeHTTP :: "'s server \<Rightarrow> http_request \<Rightarrow> 's \<Rightarrow> response \<times> 's server \<times> 's" where
  "ServeHTTP s r st = (case reject s r of
     (Some resp, s) \<Rightarrow> (resp, s, st)
   | (None, s) \<Rightarrow>
       if hq_method r = ''POST'' \<and> hq_path r = ''/v1/logs'' then srvLogs s r st
       else if hq_method r = ''POST'' \<and> hq_path r = ''/v1/metrics'' then srvMetrics s r st
       else if hq_method r = ''GET'' \<and> hq_path r = ''/healthz'' then (srvHealth s st, s, st)
       else (writeJSON 404 (R_Error ''unknown path''), s, st))"

subsection \<open>What the guards let through\<close>

text \<open>A request that may reach the pipeline.\<close>

definition admitted :: "'s server \<Rightarrow> http_request \<Rightarrow> bool" where
  "admitted s r \<longleftrightarrow> hq_method r = ''POST'' \<and> hq_origin r = [] \<and> isLoopbackHost (hq_host r)
     \<and> isJSONContentType (hq_contentType r) \<and> (hq_token r = [] \<or> sv_token s = [] \<or> hq_token r = sv_token s)"

lemma reject_admitted:
  "fst (reject s r) = None \<longleftrightarrow> admitted s r \<or> (hq_method r \<noteq> ''POST'' \<and> hq_origin r = [] \<and> isLoopbackHost (hq_host r))"
  by (auto simp: reject_def rejectToken_def admitted_def)

lemma reject_handlers [simp]:
  "sv_handler (snd (reject s r)) = sv_handler s" "sv_metricsHandler (snd (reject s r)) = sv_metricsHandler s"
  "sv_token (snd (reject s r)) = sv_token s"
  by (simp_all add: reject_def rejectToken_def)

lemma reject_status: "fst (reject s r) = Some resp \<Longrightarrow> hr_status resp \<in> {401, 403, 415}"
  by (auto simp: reject_def rejectToken_def writeJSON_def split: if_splits)

text \<open>C14: nothing reaches the pipeline past the guards. A request changes the state behind the receiver
  only when it is a POST to one of the two endpoints that names no origin, has a loopback \<open>Host\<close>,
  declares JSON, and presents no wrong token; any other request leaves that state as it is, and is
  answered with 401, 403, 404 or 415, or is a health probe.\<close>

theorem ServeHTTP_guarded:
  assumes "ServeHTTP s r st = (resp, s', st')"
    "\<not> (admitted s r \<and> hq_path r \<in> {''/v1/logs'', ''/v1/metrics''})"
  shows "st' = st \<and> (hr_status resp \<in> {401, 403, 404, 415}
    \<or> (hr_status resp = 200 \<and> hq_method r = ''GET'' \<and> hq_path r = ''/healthz''))"
proof (cases "fst (reject s r)")
  case None
  then have "admitted s r \<or> hq_method r \<noteq> ''POST''" using reject_admitted [of s r] by blast
  with None assms show ?thesis
    by (cases "reject s r") (auto simp: ServeHTTP_def srvHealth_def writeJSON_def Let_def admitted_def split: if_splits)
next
  case (Some x)
  with assms(1) reject_status [OF Some] show ?thesis
    by (cases "reject s r") (auto simp: ServeHTTP_def)
qed

text \<open>An agent never observes a failure of the collector. An admitted POST to an endpoint is answered
  200 with the counts of the pipeline, whatever its body holds, decodable or not; the only other
  answer is 500, when the pipeline panicked, and then nothing of the panic is echoed.\<close>

lemma ServeHTTP_answers:
  assumes "admitted s r" "hq_path r \<in> {''/v1/logs'', ''/v1/metrics''}"
    and "h = (if hq_path r = ''/v1/logs'' then sv_handler s else sv_metricsHandler s)"
  shows "\<exists>s'. ServeHTTP s r st = (case h of
      None \<Rightarrow> (writeJSON 200 (R_Counts 0 0), s', st)
    | Some f \<Rightarrow> (case f (decodeBody r) st of
        (None, st') \<Rightarrow> (writeJSON 500 (R_Error ''internal error''), s', st')
      | (Some (accepted, dropped), st') \<Rightarrow> (writeJSON 200 (R_Counts accepted dropped), s', st')))"
proof -
  obtain s1 where r: "reject s r = (None, s1)" using reject_admitted [of s r] assms(1) by (metis prod.collapse)
  then have h: "sv_handler s1 = sv_handler s" "sv_metricsHandler s1 = sv_metricsHandler s"
    using reject_handlers [of s r] by simp_all
  have "hq_method r = ''POST''" using assms(1) by (simp add: admitted_def)
  with r h assms(2,3) show ?thesis
    by (auto simp: ServeHTTP_def srvLogs_def srvMetrics_def invoke_def answer_def Let_def split: option.splits prod.splits)
qed

text \<open>A server whose pipeline counts the payloads it gets, and two requests.\<close>

definition sample_server :: "nat server" where
  "sample_server = \<lparr>sv_handler = Some (\<lambda>m n. (Some (1, 0), n + 1)), sv_metricsHandler = None, sv_counters = None,
     sv_token = ''t'', sv_addr = (''127.0.0.1'', 8765), sv_logsReceived = 0, sv_metricsReceived = 0, sv_tokenMissing = 0\<rparr>"

definition sample_post :: "string \<Rightarrow> http_request" where
  "sample_post host = \<lparr>hq_method = ''POST'', hq_path = ''/v1/logs'', hq_host = host, hq_origin = [],
     hq_contentType = ''application/json'', hq_token = [], hq_body = Some ''{}'', hq_json = (\<lambda>s. Some (AMap []))\<rparr>"

lemma sample_hosts: "\<not> isLoopbackHost ''evil.com:8765''" "isLoopbackHost ''127.0.0.1:8765''"
  "isJSONContentType ''application/json''"
  by (simp_all add: isLoopbackHost_def split_host_port_def trim_prefix_def trim_suffix_def has_suffix_def parse_ip_def
      parse_ipv4_def ipv4_field_def is_digit_def digits_val_def digit_val_def is_loopback_def equal_fold_def fold_chunk_def
      isJSONContentType_def string_eval)

lemma ServeHTTP_guarded_witness:
  "snd (snd (ServeHTTP sample_server (sample_post ''evil.com:8765'') 0)) = 0"
proof -
  obtain resp s' st' where e: "ServeHTTP sample_server (sample_post ''evil.com:8765'') 0 = (resp, s', st')"
    by (metis prod.exhaust)
  have "\<not> admitted sample_server (sample_post ''evil.com:8765'')"
    using sample_hosts(1) by (simp add: admitted_def sample_post_def)
  with ServeHTTP_guarded [OF e] e show ?thesis by simp
qed

lemma sample_answer:
  "fst (ServeHTTP sample_server (sample_post ''127.0.0.1:8765'') 0) = writeJSON 200 (R_Counts 1 0)"
proof -
  have "admitted sample_server (sample_post ''127.0.0.1:8765'')"
    using sample_hosts by (simp add: admitted_def sample_post_def)
  from ServeHTTP_answers [OF this _ refl, of 0] show ?thesis
    by (auto simp: sample_post_def sample_server_def)
qed

subsection \<open>The bound address is an accepted host\<close>

text \<open>\<open>net.JoinHostPort\<close>.\<close>

definition join_host_port :: "string \<Rightarrow> string \<Rightarrow> string" where
  "join_host_port host port =
     (if CHR '':'' \<in> set host then ''['' @ host @ '']:'' @ port else host @ '':'' @ port)"

definition plain_port :: "string \<Rightarrow> bool" where
  "plain_port p \<longleftrightarrow> list_all is_digit p"

lemma split_by_chars: "c \<in> set s \<Longrightarrow> P c \<or> (\<exists>f \<in> set (split_by P s). c \<in> set f)"
  by (induction s) (auto split: list.splits)

lemma is_digit_cases: "is_digit c \<Longrightarrow> c \<noteq> CHR '':'' \<and> c \<noteq> CHR ''['' \<and> c \<noteq> CHR '']''"
  by (auto simp: is_digit_def byte_def)

lemma parse_ipv4_chars:
  assumes "parse_ipv4 s = Some ip" "c \<in> set s"
  shows "c \<noteq> CHR ''['' \<and> c \<noteq> CHR '']''"
proof -
  have "c = CHR ''.'' \<or> is_digit c"
    using split_by_chars [OF assms(2), of "\<lambda>c. c = CHR ''.''"] assms(1)
    by (auto simp: parse_ipv4_def ipv4_field_def Let_def list_all_iff split: if_splits)
  then show ?thesis using is_digit_cases by auto
qed

lemma hex_digits_chars:
  assumes "c \<in> set s" "c \<notin> set (drop (length (hex_digits s)) s)"
  shows "c \<noteq> CHR ''['' \<and> c \<noteq> CHR '']''"
proof -
  have "c \<in> set (take (length (hex_digits s)) s)"
    using assms by (metis append_take_drop_id set_append Un_iff)
  moreover have "take (length (hex_digits s)) s = hex_digits s"
    unfolding hex_digits_def by (metis append_eq_conv_conj takeWhile_dropWhile_id)
  ultimately have "hex_val c \<noteq> None" unfolding hex_digits_def by (metis set_takeWhileD)
  then show ?thesis by (auto simp: hex_val_def byte_def)
qed

lemma ipv6_groups_chars:
  "ipv6_groups n ip ell s = Some (ip', ell', []) \<Longrightarrow> c \<in> set s \<Longrightarrow> c \<noteq> CHR ''['' \<and> c \<noteq> CHR '']''"
proof (induction n arbitrary: ip ell s)
  case (Suc n)
  define rest where "rest = drop (length (hex_digits s)) s"
  show ?case
  proof (cases "c \<in> set rest")
    case False
    with hex_digits_chars Suc.prems(2) show ?thesis by (simp add: rest_def)
  next
    case True
    show ?thesis
    proof (cases "rest \<noteq> [] \<and> hd rest = CHR ''.''")
      case dot: True
      then obtain f where "parse_ipv4 s = Some f"
        using Suc.prems by (auto simp: Let_def rest_def [symmetric] split: if_splits)
      with Suc.prems(2) show ?thesis using parse_ipv4_chars by blast
    next
      case False
      obtain x y t where r: "rest = x # y # t" "x = CHR '':''"
        using True Suc.prems False by (cases rest; cases "tl rest") (auto simp: Let_def rest_def [symmetric] split: if_splits)
      show ?thesis
      proof (cases "y = CHR '':''")
        case y: True
        then have "t = [] \<or> (\<exists>ip ell. ipv6_groups n ip ell t = Some (ip', ell', []))"
          using Suc.prems False r by (auto simp: Let_def rest_def [symmetric] split: if_splits)
        then show ?thesis using True r y Suc.IH by auto
      next
        case y: False
        then have "\<exists>ip ell. ipv6_groups n ip ell (y # t) = Some (ip', ell', [])"
          using Suc.prems False r by (auto simp: Let_def rest_def [symmetric] split: if_splits)
        then show ?thesis using True r Suc.IH [of _ _ "y # t"] by auto
      qed
    qed
  qed
qed simp

lemma parse_ip_chars:
  assumes "parse_ip s = Some ip"
  shows "CHR ''['' \<notin> set s" "CHR '']'' \<notin> set s"
proof -
  have six: "c \<noteq> CHR ''['' \<and> c \<noteq> CHR '']''" if "parse_ipv6 s = Some ip" "c \<in> set s" for c
  proof (cases "s = ''::''")
    case False
    let ?t = "if has_prefix s ''::'' then drop 2 s else s"
    let ?g = "ipv6_groups 8 [] (if has_prefix s ''::'' then Some 0 else None) ?t"
    have "?g \<noteq> None \<and> snd (snd (the ?g)) = []"
      using that(1) False by (cases ?g) (auto simp: parse_ipv6_def Let_def split: prod.splits if_splits)
    then obtain ip' ell where g: "?g = Some (ip', ell, [])" by (metis option.collapse prod.collapse)
    show ?thesis
    proof (cases "has_prefix s ''::''")
      case True
      then obtain t where "s = ''::'' @ t" unfolding has_prefix_iff by blast
      then have "c = CHR '':'' \<or> c \<in> set ?t" using that(2) True by (auto simp: has_prefix_iff)
      then show ?thesis using ipv6_groups_chars [OF g] by auto
    qed (use ipv6_groups_chars [OF g] that(2) in simp)
  qed (use that(2) in auto)
  then show "CHR ''['' \<notin> set s" "CHR '']'' \<notin> set s"
    using assms parse_ipv4_chars [of s ip] by (auto simp: parse_ip_def split: list.splits if_splits)
qed

lemma index_of_last:
  "c \<notin> set p \<Longrightarrow> length (h @ c # p) - 1 - index_of c (rev (h @ c # p)) = length h"
proof -
  assume "c \<notin> set p"
  then have "takeWhile (\<lambda>x. x \<noteq> c) (rev p @ c # rev h) = rev p" by (subst takeWhile_append2) auto
  then show ?thesis by simp
qed

lemma split_join_host_port:
  assumes "CHR ''['' \<notin> set h" "CHR '']'' \<notin> set h" "plain_port p"
  shows "split_host_port (join_host_port h p) = Some (h, p)"
proof -
  have p: "CHR '':'' \<notin> set p" "CHR ''['' \<notin> set p" "CHR '']'' \<notin> set p"
    using assms(3) is_digit_cases by (auto simp: plain_port_def list_all_iff)
  show ?thesis
  proof (cases "CHR '':'' \<in> set h")
    case False
    with assms(1) have "hd (h @ CHR '':'' # p) \<noteq> CHR ''[''" by (cases h) auto
    with False assms p show ?thesis
      using index_of_last [OF p(1), of h] by (simp add: join_host_port_def split_host_port_def)
  next
    case True
    have e: "takeWhile (\<lambda>x. x \<noteq> CHR '']'') (CHR ''['' # h @ '']:'' @ p) = CHR ''['' # h"
      using assms(2) by (simp add: takeWhile_append2) (subst takeWhile_append2; auto)
    from True assms p e show ?thesis
      using index_of_last [OF p(1), of "CHR ''['' # h @ '']''"]
      by (simp add: join_host_port_def split_host_port_def Let_def)
  qed
qed

text \<open>The receiver accepts its own address. Every host it agrees to bind, written with its port as
  \<open>JoinHostPort\<close> writes it, brackets of an IPv6 address included, passes the check of the \<open>Host\<close>
  header, so the loopback guard never refuses an agent that addresses the bound endpoint.\<close>

theorem bound_host_accepted:
  assumes "requireLoopback h" "plain_port p"
  shows "split_host_port (join_host_port h p) = Some (h, p) \<and> isLoopbackHost (join_host_port h p)"
proof -
  have h: "CHR ''['' \<notin> set h" "CHR '']'' \<notin> set h"
    using assms(1) parse_ip_chars by (auto simp: requireLoopback_def split: option.splits)
  then have t: "trim_prefix (trim_suffix h '']'') ''['' = h"
    by (auto simp: trim_prefix_def trim_suffix_def has_suffix_def has_prefix_iff dest!: arg_cong [where f = set])
  have "equal_fold ''localhost'' ''localhost''" by (simp add: equal_fold_def)
  with t split_join_host_port [OF h assms(2)] assms(1) show ?thesis
    by (auto simp: isLoopbackHost_def requireLoopback_def)
qed

lemma bound_host_accepted_witness:
  "isLoopbackHost (join_host_port ''::1'' ''8765'')"
proof -
  have "requireLoopback ''::1''" "plain_port ''8765''"
    by code_simp+
  then show ?thesis using bound_host_accepted by blast
qed

end
