(* ===== verification/Daemon.thy ===== *)
theory Daemon
  imports Uploader Codex_Repo Receiver
begin

text \<open>
  \<open>internal/daemon\<close>: the pipeline behind the receiver, from a payload to the durable queues
  (\<open>daemon.go\<close>), retention, and the ordered shutdown (\<open>run.go\<close>).

  The daemon shares the queues and the counters with the uploader, so its state contains the
  uploader's; the oracles are indexed by the uploader's step counter. A handler is one sequence
  of steps: the receiver runs several at once, but they meet only inside the filter, the resolver,
  the queue and the counters, each of which runs one operation at a time.
\<close>

subsection \<open>State\<close>

record daemon_env =
  de_up :: up_env
  de_oob :: "float64 \<Rightarrow> int64"
  de_files :: "nat \<Rightarrow> repo_env"
  de_groups :: "nat \<Rightarrow> session_group list \<Rightarrow> session_group list"
  de_rollups :: "nat \<Rightarrow> (string \<times> bucket) list \<Rightarrow> (string \<times> bucket) list"

record daemon =
  dm_up :: uploader
  dm_filter :: noise_filter
  dm_metricFilter :: metric_filter
  dm_repo :: string
  dm_resolver :: "resolver option"
  dm_retentionDays :: int64
  dm_lastRollup :: instant

definition rollupInterval :: int where "rollupInterval = 60 * nanos"

text \<open>The queue is opened with no options, so with the default caps.\<close>

definition queue_caps :: caps where
  "queue_caps = open_caps \<lparr>cap_rows = 0, cap_bytes = 0\<rparr>"

definition step_of :: "daemon \<Rightarrow> nat" where
  "step_of d = up_step (dm_up d)"

definition now_of :: "daemon_env \<Rightarrow> daemon \<Rightarrow> instant" where
  "now_of D d = clock (de_up D) (dm_up d)"

definition on_up :: "(uploader \<Rightarrow> uploader) \<Rightarrow> daemon \<Rightarrow> daemon" where
  "on_up f d = d\<lparr>dm_up := f (dm_up d)\<rparr>"

definition count :: "string \<Rightarrow> int64 \<Rightarrow> daemon \<Rightarrow> daemon" where
  "count name n d = on_up (addCounter name n) d"

text \<open>\<open>assemble\<close>, before the receiver is started; \<open>codex\<close> is the new resolver.\<close>

definition assemble ::
    "config \<Rightarrow> string \<Rightarrow> resolver \<Rightarrow> event_table \<Rightarrow> metric_table \<Rightarrow> session_row list \<Rightarrow> cred_state option
      \<Rightarrow> instant \<Rightarrow> daemon" where
  "assemble cfg repo codex events metrics sessions store now =
     \<lparr>dm_up = New (NewClient (cfg_CollectorKey cfg)) events metrics sessions store counter_new (cfg_Policy cfg)
        (cfg_InventoryStatus cfg) (cfg_InventoryLastUploadAt cfg),
      dm_filter = newFilter [] [], dm_metricFilter = NewMetricFilter [], dm_repo = repo,
      dm_resolver = Some codex, dm_retentionDays = Retention cfg, dm_lastRollup = now\<rparr>"

subsection \<open>Repository attribution\<close>

definition eventSessionID :: "normalized_event \<Rightarrow> string" where
  "eventSessionID ev = (if ev_Repo ev \<noteq> None then [] else name_of (ev_SessionID ev))"

text \<open>One call of a method of the resolver, at the files of the moment.\<close>

definition ask :: "daemon_env \<Rightarrow> (repo_env \<Rightarrow> string \<Rightarrow> resolver \<Rightarrow> string \<times> resolver) \<Rightarrow> string \<Rightarrow> daemon \<Rightarrow> string \<times> daemon" where
  "ask D f sid d = (case dm_resolver d of
     None \<Rightarrow> ([], d)
   | Some r \<Rightarrow> (case f (de_files D (step_of d)) sid r of
       (repo, r) \<Rightarrow> (repo, on_up tick (d\<lparr>dm_resolver := Some r\<rparr>))))"

definition resolveEventRepo :: "daemon_env \<Rightarrow> normalized_event \<Rightarrow> string \<Rightarrow> daemon \<Rightarrow> string \<times> daemon" where
  "resolveEventRepo D ev sid d =
     (if has_prefix (name_of (ev_EventName ev)) ''codex.'' then ask D Resolve sid d
      else (case ask D ResolveClaude sid d of (repo, d) \<Rightarrow>
        if repo \<noteq> [] then (repo, d) else ask D Resolve sid d))"

text \<open>The loop of \<open>enrichRepos\<close>; \<open>seen\<close> is the lookup cache of the batch.\<close>

fun enrich_loop ::
    "daemon_env \<Rightarrow> (string \<rightharpoonup> string) \<Rightarrow> normalized_event list \<Rightarrow> daemon \<Rightarrow> normalized_event list \<times> daemon" where
  "enrich_loop D seen [] d = ([], d)"
| "enrich_loop D seen (ev # evs) d =
     (let sid = eventSessionID ev in
      if sid = [] then (case enrich_loop D seen evs d of (evs, d) \<Rightarrow> (ev # evs, d))
      else (case (case seen sid of Some repo \<Rightarrow> (repo, d) | None \<Rightarrow> resolveEventRepo D ev sid d) of (repo, d) \<Rightarrow>
        (case enrich_loop D (seen(sid \<mapsto> repo)) evs d of (evs, d) \<Rightarrow>
          ((if repo \<noteq> [] then ev\<lparr>ev_Repo := Some repo\<rparr> else ev) # evs, d))))"

definition enrichRepos :: "daemon_env \<Rightarrow> normalized_event list \<Rightarrow> daemon \<Rightarrow> normalized_event list \<times> daemon" where
  "enrichRepos D evs d =
     (if dm_repo d \<noteq> [] \<or> dm_resolver d = None then (evs, d) else enrich_loop D Map.empty evs d)"

subsection \<open>The logs handler\<close>

definition dueRollups :: "daemon_env \<Rightarrow> daemon \<Rightarrow> normalized_event list \<times> daemon" where
  "dueRollups D d =
     (let elapsed = now_of D d - dm_lastRollup d; d = on_up tick d in
      if elapsed < rollupInterval then ([], d)
      else (let d = on_up tick (d\<lparr>dm_lastRollup := now_of D d\<rparr>) in
        case FlushRollups (de_rollups D (step_of d)) (format_rfc3339 (now_of D d)) (dm_filter d) of (rollups, f) \<Rightarrow>
          (rollups, count cRollups (of_nat (length rollups)) (on_up tick (d\<lparr>dm_filter := f\<rparr>)))))"

definition upsert_sessions :: "daemon_env \<Rightarrow> normalized_event list \<Rightarrow> daemon \<Rightarrow> daemon" where
  "upsert_sessions D events d =
     (case on_sessions (de_up D)
         (\<lambda>E. UpsertSessionEvents E (de_groups D (step_of d)) events (now_of D d)) (dm_up d) of
        (Inl e, w) \<Rightarrow> count cErrors 1 (d\<lparr>dm_up := w\<rparr>)
      | (Inr n, w) \<Rightarrow> d\<lparr>dm_up := w\<rparr>)"

definition enqueue_events :: "daemon_env \<Rightarrow> normalized_event list \<Rightarrow> daemon \<Rightarrow> bool \<times> daemon" where
  "enqueue_events D events d = (case on_events (de_up D) (\<lambda>E. Enqueue E queue_caps events) (dm_up d) of
     (Inl e, w) \<Rightarrow> (False, d\<lparr>dm_up := w\<rparr>)
   | (Inr _, w) \<Rightarrow> (True, d\<lparr>dm_up := w\<rparr>))"

definition log_env :: "daemon_env \<Rightarrow> daemon \<Rightarrow> go_env" where
  "log_env D d = \<lparr>env_now = now_of D d, env_oob = de_oob D\<rparr>"

definition handleLogs :: "daemon_env \<Rightarrow> gomap \<Rightarrow> daemon \<Rightarrow> (nat \<times> nat) \<times> daemon" where
  "handleLogs D payload d =
     (case NormalizeLogBatch (log_env D d) payload (dm_repo d) of (events, normDropped) \<Rightarrow>
      (case enrichRepos D events (on_up tick d) of (events, d) \<Rightarrow>
       (let d = count cReceived (of_nat (length events + normDropped)) d;
            d = count cNormalized (of_nat (length events)) d
        in case Apply (dm_filter d) events of (kept, f) \<Rightarrow>
         (let d = count cFiltered (of_nat (length events - length kept)) (d\<lparr>dm_filter := f\<rparr>);
              d = upsert_sessions D events d
          in case dueRollups D d of (rollups, d) \<Rightarrow>
            (case enqueue_events D (kept @ rollups) d of
               (False, d) \<Rightarrow> ((0, length events + normDropped), count cErrors 1 d)
             | (True, d) \<Rightarrow> ((length kept, normDropped + (length events - length kept)),
                 count cQueued (of_nat (length (kept @ rollups))) d))))))"

subsection \<open>The metrics handler, counters\<close>

definition handleMetrics :: "daemon_env \<Rightarrow> gomap \<Rightarrow> daemon \<Rightarrow> (nat \<times> nat) \<times> daemon" where
  "handleMetrics D payload d =
     (case NormalizeMetricsBatch (log_env D d) payload (dm_repo d) of (points, normDropped) \<Rightarrow>
      (let d = count cMetricsNormalized (of_nat (length points)) (on_up tick d) in
       case ApplyMetrics (dm_metricFilter d) points of (kept, f) \<Rightarrow>
        (let d = count cMetricsFiltered (of_nat (length points - length kept)) (d\<lparr>dm_metricFilter := f\<rparr>) in
         case on_metrics (de_up D) (\<lambda>E. EnqueueMetrics E queue_caps kept) (dm_up d) of
           (Inl e, w) \<Rightarrow> ((0, length points + normDropped), count cErrors 1 (d\<lparr>dm_up := w\<rparr>))
         | (Inr _, w) \<Rightarrow> ((length kept, normDropped + (length points - length kept)),
             count cMetricsQueued (of_nat (length kept)) (d\<lparr>dm_up := w\<rparr>)))))"

definition countersSnapshot :: "daemon_env \<Rightarrow> daemon \<Rightarrow> registry" where
  "countersSnapshot D d =
     (case Depth (q_at (de_up D) (dm_up d)) (up_events (dm_up d)) of
        Inl e \<Rightarrow> up_counters (dm_up d)
      | Inr depth \<Rightarrow> counter_set (up_counters (dm_up d)) cQueueDepth (i64 depth))"

text \<open>\<open>startReceiver\<close>: the handlers never panic in the model.\<close>

definition startReceiver :: "daemon_env \<Rightarrow> int \<Rightarrow> string \<Rightarrow> daemon server option" where
  "startReceiver D port token = NewServer [] port
     (Some (\<lambda>payload d. (case handleLogs D payload d of (res, d) \<Rightarrow> (Some res, d))))
     (Some (\<lambda>payload d. (case handleMetrics D payload d of (res, d) \<Rightarrow> (Some res, d))))
     (Some (countersSnapshot D)) token"

subsection \<open>Retention\<close>

text \<open>\<open>time.Now().Add(-time.Duration(d.retentionDays) * 24 * time.Hour)\<close>.\<close>

definition retention_cutoff :: "daemon_env \<Rightarrow> daemon \<Rightarrow> instant" where
  "retention_cutoff D d = now_of D d + sint (- dm_retentionDays d * 24 * (3600 * second))"

definition pruneOnce :: "daemon_env \<Rightarrow> daemon \<Rightarrow> daemon" where
  "pruneOnce D d =
     (let cutoff = retention_cutoff D d; U = de_up D;
          w = snd (on_events U (\<lambda>E. PruneAcked E cutoff) (tick (dm_up d)))
      in case on_metrics U (\<lambda>E. PruneAckedMetrics E cutoff) w of
           ((n, Some e), w) \<Rightarrow> d\<lparr>dm_up := w\<rparr>
         | ((n, None), w) \<Rightarrow> d\<lparr>dm_up := snd (on_sessions U (\<lambda>E. PruneAckedSessions E cutoff) w)\<rparr>)"

text \<open>\<open>runRetention\<close>, cut off after \<open>n\<close> ticks of the hour.\<close>

definition runRetention :: "daemon_env \<Rightarrow> nat \<Rightarrow> daemon \<Rightarrow> daemon" where
  "runRetention D n d = (pruneOnce D ^^ (n + 1)) d"

subsection \<open>Shutdown (\<open>run.go\<close>)\<close>

text \<open>\<open>drain\<close>, after the receiver and the two goroutines have stopped.\<close>

definition final_rollups :: "daemon_env \<Rightarrow> daemon \<Rightarrow> daemon" where
  "final_rollups D d =
     (case FlushRollups (de_rollups D (step_of d)) (format_rfc3339 (now_of D d)) (dm_filter d) of (rollups, f) \<Rightarrow>
       (let d = on_up tick (d\<lparr>dm_filter := f\<rparr>) in
        if rollups = [] then d else snd (enqueue_events D rollups d)))"

definition drain :: "daemon_env \<Rightarrow> daemon \<Rightarrow> daemon option" where
  "drain D d =
     (let U = de_up D; d = final_rollups D d in
      map_option (\<lambda>w. d\<lparr>dm_up := w\<rparr>)
        (Option.bind (FlushOnce U (dm_up d)) (\<lambda>w. Option.bind (FlushMetricsOnce U w) (FlushSessionsOnce U))))"

end
