(* ===== verification/Delivery.thy ===== *)
theory Delivery
  imports Sql_Queue
begin

text \<open>
  The contract between a durable queue and whoever drains it. A queue has undelivered entries,
  each a key and a value, no two with the same key. The drainer leases items, sends them, and acknowledges the ones that
  arrived (\<open>ack\<close>) or gives them back (\<open>nack\<close>). The laws are what makes delivery at least once:
  leasing and giving back never lose an entry, an acknowledgement removes nothing but the entries
  it names, one that is written does remove them, and, while the clock stands still, each lease uses
  up what it hands out.

  The event queue, the metric queue (\<open>Queue_Safety\<close>) and the session queue (\<open>Session_Safety\<close>) are
  interpretations; the uploader is the client.
\<close>

locale delivery_queue =
  fixes ok :: "'q \<Rightarrow> bool"
    and undelivered :: "'q \<Rightarrow> ('k \<times> 'v) set"
    and available :: "string \<Rightarrow> 'q \<Rightarrow> nat"
    and lease :: "qenv \<Rightarrow> int \<Rightarrow> int \<Rightarrow> 'q \<Rightarrow> (queue_error + 'i list) \<times> 'q"
    and ack :: "qenv \<Rightarrow> 'k list \<Rightarrow> 'q \<Rightarrow> (queue_error + unit) \<times> 'q"
    and nack :: "qenv \<Rightarrow> 'k list \<Rightarrow> 'q \<Rightarrow> (queue_error + unit) \<times> 'q"
    and key :: "'i \<Rightarrow> 'k"
    and val :: "'i \<Rightarrow> 'v"
  assumes lease_ok: "ok q \<Longrightarrow> ok (snd (lease E n d q))"
    and ack_ok: "ok q \<Longrightarrow> ok (snd (ack E ks q))"
    and nack_ok: "ok q \<Longrightarrow> ok (snd (nack E ks q))"
    and lease_keeps: "ok q \<Longrightarrow> undelivered (snd (lease E n d q)) = undelivered q"
    and lease_items: "ok q \<Longrightarrow> lease E n d q = (Inr items, q') \<Longrightarrow> i \<in> set items \<Longrightarrow>
        (key i, val i) \<in> undelivered q"
    and ack_keeps: "ok q \<Longrightarrow> x \<in> undelivered q \<Longrightarrow> fst x \<notin> set ks \<Longrightarrow> x \<in> undelivered (snd (ack E ks q))"
    and nack_keeps: "ok q \<Longrightarrow> undelivered q \<subseteq> undelivered (snd (nack E ks q))"
    and lease_uses: "ok q \<Longrightarrow> lease E n d q = (Inr items, q') \<Longrightarrow> 0 \<le> d \<Longrightarrow>
        four_digit_year (q_now E) \<Longrightarrow> four_digit_year (q_now E + d) \<Longrightarrow>
        available (format_fixed (q_now E)) q' + length items \<le> available (format_fixed (q_now E)) q"
    and ack_uses: "ok q \<Longrightarrow> available now (snd (ack E ks q)) \<le> available now q"
    and unique: "ok q \<Longrightarrow> (k, v) \<in> undelivered q \<Longrightarrow> (k, v') \<in> undelivered q \<Longrightarrow> v = v'"
    and finite_undelivered: "ok q \<Longrightarrow> finite (undelivered q)"
    and ack_done: "ok q \<Longrightarrow> ack E ks q = (Inr (), q') \<Longrightarrow> x \<in> undelivered q' \<Longrightarrow>
        x \<in> undelivered q \<and> fst x \<notin> set ks"
begin

text \<open>What one round of a drainer loses: at most the items whose batch arrived.\<close>

lemma round_keeps:
  assumes "ok q" "lease E n d q = (Inr items, q1)" "x \<in> undelivered q"
  shows "x \<in> undelivered (snd (nack E' (map key items) q1))"
    and "x \<in> undelivered (snd (ack E' (map key items) q1)) \<or> (\<exists>i \<in> set items. x = (key i, val i))"
proof -
  have q1: "ok q1" "x \<in> undelivered q1"
    using lease_ok [OF assms(1), of E n d] lease_keeps [OF assms(1), of E n d] assms by simp_all
  show "x \<in> undelivered (snd (nack E' (map key items) q1))" using nack_keeps [OF q1(1)] q1(2) by blast
  show "x \<in> undelivered (snd (ack E' (map key items) q1)) \<or> (\<exists>i \<in> set items. x = (key i, val i))"
  proof (cases "fst x \<in> set (map key items)")
    case True
    then obtain i where i: "i \<in> set items" "fst x = key i" by auto
    have "(key i, val i) \<in> undelivered q" by (rule lease_items [OF assms(1,2) i(1)])
    moreover have "(key i, snd x) \<in> undelivered q" using assms(3) i(2) by (metis prod.collapse)
    ultimately have "x = (key i, val i)" using unique [OF assms(1)] i(2) by (metis prod.collapse)
    with i(1) show ?thesis by blast
  qed (use ack_keeps [OF q1] in blast)
qed

text \<open>A round whose acknowledgement is written leaves strictly less to deliver.\<close>

lemma round_progress:
  assumes "ok q" "lease E n d q = (Inr items, q1)" "items \<noteq> []" "ack E' (map key items) q1 = (Inr (), q2)"
  shows "card (undelivered q2) < card (undelivered q)"
proof -
  have q1: "ok q1" "undelivered q1 = undelivered q"
    using lease_ok [OF assms(1), of E n d] lease_keeps [OF assms(1), of E n d] assms(2) by simp_all
  obtain i where i: "i \<in> set items" using assms(3) by (cases items) auto
  note gone = ack_done [OF q1(1) assms(4)]
  have "undelivered q2 \<subset> undelivered q"
  proof (rule psubsetI)
    show "undelivered q2 \<subseteq> undelivered q" using gone q1(2) by blast
    have "(key i, val i) \<in> undelivered q" by (rule lease_items [OF assms(1,2) i])
    moreover have "(key i, val i) \<notin> undelivered q2" using gone [of "(key i, val i)"] i by auto
    ultimately show "undelivered q2 \<noteq> undelivered q" by blast
  qed
  then show ?thesis by (rule psubset_card_mono [OF finite_undelivered [OF assms(1)]])
qed

end

end
