(* ===== verification/Queue_Safety.thy ===== *)
theory Queue_Safety
  imports Delivery
begin

text \<open>
  What the event and metric queues promise: an invariant of the tables that every method keeps,
  what each method does to the rows, the order of eviction, that a batch is enqueued whole or
  not at all, that a lease is exclusive until it expires, and that a row leaves the queue
  undelivered only by eviction.
\<close>

subsection \<open>The table invariant\<close>

text \<open>SQLite documents that a new \<open>INTEGER PRIMARY KEY\<close> is larger than every id in the
  table.\<close>

definition monotone_alloc :: "qenv \<Rightarrow> bool" where
  "monotone_alloc E \<longleftrightarrow> (\<forall>ids. \<forall>i \<in> set ids. i < q_alloc E ids)"

definition row_ok :: "'p qrow \<Rightarrow> bool" where
  "row_ok r \<longleftrightarrow> (row_state r = Leased \<longleftrightarrow> row_until r \<noteq> None)
     \<and> (row_state r = Acked \<longrightarrow> row_acked r \<noteq> None) \<and> 0 \<le> row_attempts r"

definition rows_ok :: "'p qrow list \<Rightarrow> bool" where
  "rows_ok rows \<longleftrightarrow> sorted_wrt (<) (map row_id rows) \<and> (\<forall>r \<in> set rows. row_ok r)"

definition table_ok :: "'p table \<Rightarrow> bool" where
  "table_ok t \<longleftrightarrow> rows_ok (tab_rows t)"

lemma rows_ok_Nil [simp]: "rows_ok []"
  by (simp add: rows_ok_def)

lemma rows_ok_filter [intro]: "rows_ok rows \<Longrightarrow> rows_ok (filter P rows)"
  by (auto simp: rows_ok_def sorted_wrt_map intro: sorted_wrt_filter)

lemma rows_ok_append:
  "rows_ok rows \<Longrightarrow> row_ok r \<Longrightarrow> \<forall>i \<in> set (map row_id rows). i < row_id r \<Longrightarrow> rows_ok (rows @ [r])"
  by (auto simp: rows_ok_def sorted_wrt_append)

lemma rows_ok_sorted: "rows_ok rows \<Longrightarrow> sort_key row_id (filter P rows) = filter P rows"
  using rows_ok_filter [of rows P]
  by (intro sort_key_id_if_sorted) (simp add: rows_ok_def strict_sorted_iff)

lemma rows_ok_distinct: "rows_ok rows \<Longrightarrow> distinct (map row_id rows)"
  by (simp add: rows_ok_def strict_sorted_iff)

lemma rows_ok_inj: "rows_ok rows \<Longrightarrow> r \<in> set rows \<Longrightarrow> s \<in> set rows \<Longrightarrow> row_id r = row_id s \<Longrightarrow> r = s"
  by (auto dest!: rows_ok_distinct simp: distinct_map inj_on_def)

lemma map_row_id_update [simp]:
  "(\<And>r. row_id (f r) = row_id r) \<Longrightarrow> map row_id (updateByIDs f ids rows) = map row_id rows"
  by (simp add: updateByIDs_def)

lemma row_id_setters [simp]:
  "row_id (set_leased u r) = row_id r" "row_id (set_acked u r) = row_id r"
  "row_id (set_nacked r) = row_id r"
  by (simp_all add: set_leased_def set_acked_def set_nacked_def)

lemma row_ok_setters [simp]:
  "row_ok r \<Longrightarrow> row_ok (set_leased u r)" "row_ok r \<Longrightarrow> row_ok (set_acked u r)"
  "row_ok r \<Longrightarrow> row_ok (set_nacked r)"
  by (simp_all add: row_ok_def set_leased_def set_acked_def set_nacked_def)

lemma rows_ok_update:
  "rows_ok rows \<Longrightarrow> (\<And>r. row_id (f r) = row_id r) \<Longrightarrow> (\<And>r. row_ok r \<Longrightarrow> row_ok (f r))
     \<Longrightarrow> rows_ok (updateByIDs f ids rows)"
  by (auto simp: rows_ok_def) (auto simp: updateByIDs_def)

subsection \<open>Enqueue\<close>

text \<open>The rows a batch adds.\<close>

definition fresh_rows :: "qenv \<Rightarrow> ('p \<Rightarrow> 'p option) \<Rightarrow> nat \<Rightarrow> 'p list \<Rightarrow> 'p qrow list \<Rightarrow> bool" where
  "fresh_rows E js k ps new \<longleftrightarrow>
     map (\<lambda>r. Some (row_payload r)) new = map js ps
     \<and> map row_key new = map (\<lambda>i. Some (q_uuid E i)) [k..<k + length ps]
     \<and> (\<forall>r \<in> set new. row_state r = Pending \<and> row_attempts r = 0 \<and> row_until r = None
          \<and> row_acked r = None \<and> row_created r = format_fixed (q_now E))"

lemma insert_rows_fresh:
  "insert_rows E js k ps rows = Inr rows' \<Longrightarrow> \<exists>new. rows' = rows @ new \<and> fresh_rows E js k ps new"
proof (induction E js k ps rows rule: insert_rows.induct)
  case (2 E js k p ps rows)
  then obtain payload where p: "js p = Some payload" "\<not> q_fail E (S_Mint k)" "\<not> q_fail E (S_Insert k)"
    by (auto split: option.splits if_splits)
  define r where "r = \<lparr>row_id = q_alloc E (map row_id rows), row_key = Some (q_uuid E k),
               row_payload = payload, row_created = format_fixed (q_now E), row_attempts = 0,
               row_state = Pending, row_until = None, row_acked = None\<rparr>"
  obtain new where new: "rows' = (rows @ [r]) @ new" "fresh_rows E js (k + 1) ps new"
    using 2(1) [OF p] 2(2) p unfolding r_def by auto
  then have "fresh_rows E js k (p # ps) (r # new)"
    using p(1) by (simp add: fresh_rows_def r_def upt_conv_Cons del: upt_Suc)
  with new(1) show ?case by (metis append.assoc append_Cons append_Nil)
qed (simp add: fresh_rows_def)

lemma insert_rows_ok:
  "monotone_alloc E \<Longrightarrow> rows_ok rows \<Longrightarrow> insert_rows E js k ps rows = Inr rows' \<Longrightarrow> rows_ok rows'"
proof (induction E js k ps rows rule: insert_rows.induct)
  case (2 E js k p ps rows)
  from 2(2,3) have "rows_ok (rows @ [\<lparr>row_id = q_alloc E (map row_id rows), row_key = Some (q_uuid E k),
      row_payload = payload, row_created = format_fixed (q_now E), row_attempts = 0,
      row_state = Pending, row_until = None, row_acked = None\<rparr>])" for payload
    by (intro rows_ok_append) (simp_all add: row_ok_def monotone_alloc_def)
  with 2 show ?case by (auto split: option.splits if_splits)
qed simp

subsection \<open>Eviction\<close>

definition evict_before :: "'p qrow \<Rightarrow> 'p qrow \<Rightarrow> bool" where
  "evict_before r s \<longleftrightarrow>
     (is_acked r \<and> \<not> is_acked s) \<or> (is_acked r = is_acked s \<and> row_id r < row_id s)"

definition victim_order :: "'p qrow list \<Rightarrow> 'p qrow list" where
  "victim_order rows = filter is_acked rows @ filter (\<lambda>r. \<not> is_acked r) rows"

lemma victim_order_sorted: "rows_ok rows \<Longrightarrow> sorted_wrt evict_before (victim_order rows)"
proof -
  assume "rows_ok rows"
  then have "sorted_wrt (\<lambda>r s. row_id r < row_id s) (filter P rows)" for P
    using rows_ok_filter by (auto simp: rows_ok_def sorted_wrt_map)
  then show ?thesis
    by (auto simp: victim_order_def sorted_wrt_append evict_before_def
        intro!: sorted_wrt_mono_rel [where P = "\<lambda>r s. row_id r < row_id s" and Q = evict_before])
qed

lemma set_victim_order [simp]: "set (victim_order rows) = set rows"
  by (auto simp: victim_order_def)

lemma victims_order: "rows_ok rows \<Longrightarrow> victims n rows = map row_id (take (nat n) (victim_order rows))"
  by (simp add: victims_def rows_ok_sorted victim_order_def take_map)

lemma delete_victims:
  fixes rows :: "'p qrow list" and n :: int
  assumes ok: "rows_ok rows"
  defines "rows' \<equiv> delete_ids (victims n rows) rows"
  shows "set rows' = set (drop (nat n) (victim_order rows))"
    and "r \<in> set rows \<Longrightarrow> r \<notin> set rows' \<Longrightarrow> s \<in> set rows' \<Longrightarrow> evict_before r s"
    and "0 < n \<Longrightarrow> length rows' = length rows \<Longrightarrow> rows = []"
proof -
  define L where "L = victim_order rows"
  have dist: "distinct (map row_id L)"
    using rows_ok_distinct [OF ok] rows_ok_inj [OF ok]
    by (auto simp: L_def victim_order_def distinct_map inj_on_def)
  have L: "L = take (nat n) L @ drop (nat n) L" by simp
  have disj: "row_id ` set (take (nat n) L) \<inter> row_id ` set (drop (nat n) L) = {}"
  proof -
    have "distinct (map row_id (take (nat n) L @ drop (nat n) L))" using dist by simp
    then show ?thesis by (simp only: map_append distinct_append set_map)
  qed
  have set_L: "set rows = set (take (nat n) L) \<union> set (drop (nat n) L)"
    by (metis L L_def set_append set_victim_order)
  show keep: "set rows' = set (drop (nat n) (victim_order rows))"
    using disj set_L by (auto simp: rows'_def delete_ids_def victims_order [OF ok] L_def)
  show "evict_before r s" if "r \<in> set rows" "r \<notin> set rows'" "s \<in> set rows'"
  proof -
    have "r \<in> set (take (nat n) L)" "s \<in> set (drop (nat n) L)"
      using that keep set_L by (auto simp: L_def)
    with take_drop_order [OF victim_order_sorted [OF ok]] show ?thesis by (simp add: L_def)
  qed
  assume n: "0 < n" and len: "length rows' = length rows"
  have "rows' = rows" using len unfolding rows'_def by (rule delete_none)
  have eq: "set (drop (nat n) L) = set rows" unfolding L_def keep [symmetric] \<open>rows' = rows\<close> ..
  have "set (take (nat n) L) \<subseteq> set (drop (nat n) L)" unfolding eq unfolding set_L by (rule Un_upper1)
  then have "row_id ` set (take (nat n) L) = {}"
    using disj image_mono [of "set (take (nat n) L)" "set (drop (nat n) L)" row_id]
    by (simp only: inf.absorb1)
  then have "set (take (nat n) L) = {}" by (simp only: image_is_empty)
  then have "L = []" using n by simp
  then show "rows = []"
    using set_victim_order [of rows] by (simp add: L_def del: set_victim_order)
qed

text \<open>The loop as a whole.\<close>

lemma evict_loop_cases:
  assumes "evict_loop E c k rows ev = (res, rows', ev')"
  obtains (stop) e where "rows' = rows" "ev' = ev" "res = Inl e"
  | (fits) "rows' = rows" "ev' = ev" "res = Inr ()" "\<not> overCap c (int (length rows)) (q_size E k)"
  | (round) mid where
      "mid = delete_ids (victims (evictTarget (int (length rows)) (cap_rows c)) rows) rows"
      "length mid = length rows \<and> rows' = mid \<and> ev' = ev \<and> res = Inr ()
       \<or> length mid \<noteq> length rows \<and> rows' = mid \<and> ev' = ev + (int (length rows) - int (length mid))
          \<and> (\<exists>e. res = Inl e)
       \<or> length mid \<noteq> length rows
          \<and> evict_loop E c (k + 1) mid (ev + (int (length rows) - int (length mid))) = (res, rows', ev')"
proof -
  define mid where "mid = delete_ids (victims (evictTarget (int (length rows)) (cap_rows c)) rows) rows"
  note body = assms [unfolded evict_loop.simps [of E c k rows] mid_def [symmetric] Let_def]
  consider "q_fail E (S_Count k) \<or> q_fail E (S_Pages k)"
    | "\<not> q_fail E (S_Count k)" "\<not> q_fail E (S_Pages k)" "\<not> overCap c (int (length rows)) (q_size E k)"
    | "\<not> q_fail E (S_Count k)" "\<not> q_fail E (S_Pages k)" "overCap c (int (length rows)) (q_size E k)"
    by blast
  then show ?thesis
  proof cases
    case 1
    with body stop show ?thesis by (auto split: if_splits)
  next
    case 2
    with body fits show ?thesis by simp
  next
    case 3
    have "q_fail E (S_Delete k) \<Longrightarrow> ?thesis" using body 3 stop by auto
    moreover have "\<not> q_fail E (S_Delete k) \<Longrightarrow> ?thesis"
      using body 3 by (intro round [OF mid_def]) (auto split: if_splits)
    ultimately show ?thesis by blast
  qed
qed

lemma delete_ids_length: "length (delete_ids ids rows) \<le> length rows"
  by (simp add: delete_ids_def)

lemma evict_loop_inv:
  assumes "rows_ok rows" "evict_loop E c k rows ev = (res, rows', ev')"
  shows "rows_ok rows' \<and> set rows' \<subseteq> set rows \<and> ev' = ev + (int (length rows) - int (length rows'))
    \<and> (\<forall>r \<in> set rows - set rows'. \<forall>s \<in> set rows'. evict_before r s)
    \<and> (res = Inr () \<longrightarrow> rows' = [] \<or> int (length rows') \<le> cap_rows c)"
  using assms
proof (induction "length rows" arbitrary: k rows ev rule: less_induct)
  case less
  from less(3) show ?case
  proof (cases rule: evict_loop_cases)
    case (round mid)
    let ?n = "evictTarget (int (length rows)) (cap_rows c)"
    note dv = delete_victims [OF less(2), where n = ?n, folded round(1)]
    have n: "0 < ?n" using evictTarget_pos [of "int (length rows)" "cap_rows c"] by linarith
    have ok: "rows_ok mid" "set mid \<subseteq> set rows" "length mid \<le> length rows"
      unfolding round(1) delete_ids_def using less(2) by auto
    from round(2) show ?thesis
    proof (elim disjE conjE)
      assume "length mid = length rows" "rows' = mid" "ev' = ev"
      with dv(3) [OF n] show ?thesis by simp
    next
      assume "rows' = mid" "ev' = ev + (int (length rows) - int (length mid))" "\<exists>e. res = Inl e"
      with ok dv(2) show ?thesis by blast
    next
      assume ne: "length mid \<noteq> length rows"
        and ev: "evict_loop E c (k + 1) mid (ev + (int (length rows) - int (length mid))) = (res, rows', ev')"
      with ok(3) have "length mid < length rows" by simp
      note ih = less(1) [OF this ok(1) ev]
      then have "evict_before r s" if "r \<in> set rows - set rows'" "s \<in> set rows'" for r s
        using that dv(2) [of r s] by (cases "r \<in> set mid") auto
      with ih ok(2) show ?thesis by auto
    qed
  qed (use less(2) in \<open>auto simp: overCap_def\<close>)
qed

text \<open>C17: the order of eviction. Whatever the file size reads at each round, and wherever an
  error stops the loop, a row is evicted only before every row that stays: delivered (acked)
  history goes before any undelivered row, and within each class the oldest go first. The loop
  ends; it counts exactly the rows it deletes; and if it reports success the table is within
  its row cap or empty.\<close>

theorem evict_loop_order:
  assumes "rows_ok rows" "evict_loop E c k rows ev = (res, rows', ev')"
  shows "(\<forall>r \<in> set rows - set rows'. \<forall>s \<in> set rows'.
      (is_acked r \<and> \<not> is_acked s) \<or> (is_acked r = is_acked s \<and> row_id r < row_id s))
    \<and> set rows' \<subseteq> set rows \<and> ev' = ev + (int (length rows) - int (length rows'))
    \<and> (res = Inr () \<longrightarrow> rows' = [] \<or> int (length rows') \<le> cap_rows c)"
  using evict_loop_inv [OF assms] by (simp add: evict_before_def)

lemma foldl_max_ge: "(a :: int) \<le> foldl max a ids \<and> (\<forall>i \<in> set ids. i \<le> foldl max a ids)"
proof (induction ids arbitrary: a)
  case (Cons i ids)
  from Cons [of "max a i"] show ?case by auto
qed simp

lemma good_env_alloc [simp]: "monotone_alloc (good_env t)"
  using foldl_max_ge [of 0] by (fastforce simp: monotone_alloc_def good_env_def sqlite_alloc_def)

definition sample_row :: "int \<Rightarrow> row_state \<Rightarrow> nat qrow" where
  "sample_row i s = \<lparr>row_id = i, row_key = None, row_payload = 0, row_created = [], row_attempts = 0,
     row_state = s, row_until = (if s = Leased then Some [] else None),
     row_acked = (if s = Acked then Some [] else None)\<rparr>"

lemma evict_loop_order_witness:
  "evict_loop (good_env 0) \<lparr>cap_rows = 1, cap_bytes = 1\<rparr> 0 [sample_row 1 Pending, sample_row 2 Acked] 0
     = (Inr (), [], 2) \<and> (2::int) = 0 + (2 - 0)"
proof -
  have e: "evict_loop (good_env 0) \<lparr>cap_rows = 1, cap_bytes = 1\<rparr> 0 [sample_row 1 Pending, sample_row 2 Acked] 0
     = (Inr (), [], 2)"
    by (simp add: evict_loop.simps good_env_def overCap_def victims_def evictTarget_def
        evictChunk_def delete_ids_def sample_row_def is_acked_def Let_def)
  have "rows_ok [sample_row 1 Pending, sample_row 2 Acked]"
    by (simp add: rows_ok_def row_ok_def sample_row_def)
  from evict_loop_order [OF this e] e show ?thesis by simp
qed

subsection \<open>Enqueue, whole or not at all\<close>

lemma enqueue_table_cases:
  assumes "enqueue_table E c js ps t = (res, t')"
  obtains (same) "t' = t" "res = Inr () \<Longrightarrow> ps = []"
  | (insert) new where "fresh_rows E js 0 ps new"
      "insert_rows E js 0 ps (tab_rows t) = Inr (tab_rows t @ new)"
      "evict_loop E c 0 (tab_rows t @ new) (tab_evicted t) = (res, tab_rows t', tab_evicted t')"
proof (cases "ps = [] \<or> q_fail E S_Begin \<or> q_fail E S_Prepare \<or> q_fail E S_Commit
    \<or> (\<exists>e. insert_rows E js 0 ps (tab_rows t) = Inl e)")
  case True
  then show ?thesis
    using assms same by (auto simp: enqueue_table_def insert_batch_def split: if_splits sum.splits)
next
  case False
  then obtain rows where rows: "insert_rows E js 0 ps (tab_rows t) = Inr rows"
    by (cases "insert_rows E js 0 ps (tab_rows t)") auto
  obtain new where new: "rows = tab_rows t @ new" "fresh_rows E js 0 ps new"
    using insert_rows_fresh [OF rows] by blast
  have "evict_loop E c 0 rows (tab_evicted t) = (res, tab_rows t', tab_evicted t')"
    using assms False rows
    by (auto simp: enqueue_table_def insert_batch_def split: prod.splits)
  with rows new show ?thesis by (intro insert) simp_all
qed

lemma enqueue_table_ok:
  assumes "monotone_alloc E" "table_ok t" "enqueue_table E c js ps t = (res, t')"
  shows "table_ok t'"
  using assms(3)
proof (cases rule: enqueue_table_cases)
  case (insert new)
  then show ?thesis
    using insert_rows_ok [OF assms(1)] evict_loop_inv assms(2) unfolding table_ok_def by blast
qed (use assms(2) in simp)

lemma fresh_rows_length: "fresh_rows E js k ps new \<Longrightarrow> length new = length ps"
  by (metis fresh_rows_def length_map)

text \<open>A batch of events is enqueued whole or not at all. If \<open>Enqueue\<close> leaves the table
  changed, then a row was inserted for every event of the batch, in order, pending, with its
  own event id and the event as the JSON encoder keeps it, and the old rows are all there too,
  up to what the eviction that follows removes. If anything fails before the commit, one event
  that does not encode included, the table is what it was.\<close>

theorem Enqueue_all_or_nothing:
  assumes "monotone_alloc E" "table_ok t" "Enqueue E c evs t = (res, t')"
  shows "table_ok t' \<and> (t' = t \<or> (\<exists>new. fresh_rows E event_json 0 evs new
    \<and> set (tab_rows t') \<subseteq> set (tab_rows t) \<union> set new
    \<and> (\<forall>r \<in> set (tab_rows t) \<union> set new - set (tab_rows t'). \<forall>s \<in> set (tab_rows t'). evict_before r s)
    \<and> tab_evicted t' - tab_evicted t
      = int (length (tab_rows t) + length evs) - int (length (tab_rows t'))))"
  using assms(3) [unfolded Enqueue_def]
proof (cases rule: enqueue_table_cases)
  case (insert new)
  have "rows_ok (tab_rows t @ new)"
    using insert_rows_ok [OF assms(1) _ insert(2)] assms(2) by (simp add: table_ok_def)
  note inv = evict_loop_inv [OF this insert(3)]
  then have "set (tab_rows t') \<subseteq> set (tab_rows t) \<union> set new"
    "\<forall>r \<in> set (tab_rows t) \<union> set new - set (tab_rows t'). \<forall>s \<in> set (tab_rows t'). evict_before r s"
    unfolding set_append by blast+
  moreover have "tab_evicted t' - tab_evicted t
      = int (length (tab_rows t) + length evs) - int (length (tab_rows t'))"
    using inv fresh_rows_length [OF insert(1)] by simp
  ultimately show ?thesis using insert(1) inv unfolding table_ok_def by blast
qed (use assms(2) in simp)

lemma insert_rows_encodes: "insert_rows E js k ps rows = Inr rows' \<Longrightarrow> \<forall>p \<in> set ps. js p \<noteq> None"
  by (induction E js k ps rows rule: insert_rows.induct) (auto split: option.splits if_splits)

lemma event_json_None: "event_json ev = None \<longleftrightarrow> \<not> marshalable_event ev"
  unfolding event_json_def by simp

text \<open>One event that does not encode, because a cost or a duration of it is NaN or infinite,
  loses the whole batch: \<open>Enqueue\<close> fails and no event of the batch is in the queue.\<close>

theorem Enqueue_not_marshalable:
  assumes "\<not> (\<forall>ev \<in> set evs. marshalable_event ev)"
  shows "\<exists>e. Enqueue E c evs t = (Inl e, t)"
proof -
  obtain e where "insert_rows E event_json 0 evs (tab_rows t) = Inl e"
    using assms insert_rows_encodes [of E event_json 0 evs "tab_rows t"]
    by (cases "insert_rows E event_json 0 evs (tab_rows t)") (auto simp: event_json_None)
  moreover have "evs \<noteq> []" using assms by auto
  ultimately show ?thesis
    by (auto simp: Enqueue_def enqueue_table_def insert_batch_def)
qed

lemma Enqueue_all_or_nothing_witness:
  "table_ok (snd (Enqueue (good_env 0) \<lparr>cap_rows = 5, cap_bytes = 5\<rparr> [empty_event, empty_event] empty_table))"
  using Enqueue_all_or_nothing [of "good_env 0" empty_table "\<lparr>cap_rows = 5, cap_bytes = 5\<rparr>" "[empty_event, empty_event]"]
  by (cases "Enqueue (good_env 0) \<lparr>cap_rows = 5, cap_bytes = 5\<rparr> [empty_event, empty_event] empty_table")
    (simp add: table_ok_def empty_table_def)

lemma Enqueue_not_marshalable_witness:
  "\<exists>e. Enqueue (good_env 0) \<lparr>cap_rows = 5, cap_bytes = 5\<rparr>
     [empty_event, empty_event\<lparr>ev_CostUSD := Some NaN\<rparr>] empty_table = (Inl e, empty_table)"
  by (rule Enqueue_not_marshalable)
    (simp add: marshalable_event_def finite_opt_def float_finite_def)

subsection \<open>Leases\<close>

lemma update_table_cases:
  "update_table E f ids t = (res, t') \<Longrightarrow>
     (res = Inl (Q_Stmt S_Update) \<and> t' = t) \<or> (res = Inr () \<and> t' = t\<lparr>tab_rows := updateByIDs f ids (tab_rows t)\<rparr>)"
  by (auto simp: update_table_def split: if_splits)

lemma leasable_not_acked: "leasable now r \<Longrightarrow> row_state r \<noteq> Acked"
  by (auto simp: leasable_def)

lemma set_selectLeasable: "r \<in> set (selectLeasable now n rows) \<Longrightarrow> r \<in> set rows \<and> leasable (format_fixed now) r"
  by (auto simp: selectLeasable_def dest!: in_set_takeD)

lemma updateByIDs_Nil [simp]: "updateByIDs f [] rows = rows"
  by (simp add: updateByIDs_def)

lemma lease_table_Inr:
  fixes t :: "'p table"
  assumes "lease_table E n d t = (Inr items, t')"
  defines "sel \<equiv> selectLeasable (q_now E) n (tab_rows t)"
  shows "items = map scanItem sel"
    and "t' = t\<lparr>tab_rows := updateByIDs (set_leased (format_fixed (q_now E + d))) (map row_id sel) (tab_rows t)\<rparr>"
  using assms(1) unfolding lease_table_def sel_def [symmetric] Let_def
  by (auto simp: sel_def selectLeasable_def split: if_splits prod.splits sum.splits
      dest!: update_table_cases)

lemma lease_table_Inl: "lease_table E n d t = (Inl e, t') \<Longrightarrow> t' = t"
  by (auto simp: lease_table_def Let_def split: if_splits prod.splits sum.splits
      dest!: update_table_cases)

lemma selectLeasable_spec:
  fixes rows :: "'p qrow list" and n now
  assumes ok: "rows_ok rows"
  defines "sel \<equiv> selectLeasable now n rows"
  shows "int (length sel) \<le> max 0 n" "sorted_wrt (<) (map row_id sel)"
    and "r \<in> set rows \<Longrightarrow> leasable (format_fixed now) r \<Longrightarrow> r \<notin> set sel \<Longrightarrow>
      int (length sel) = max 0 n \<and> (\<forall>s \<in> set sel. row_id s < row_id r)"
    and "updateByIDs f (map row_id sel) rows = map (\<lambda>r. if r \<in> set sel then f r else r) rows"
proof -
  define all where "all = filter (leasable (format_fixed now)) rows"
  have sel: "sel = take (nat n) all"
    using ok by (simp add: sel_def selectLeasable_def all_def rows_ok_sorted)
  have sorted: "sorted_wrt (\<lambda>r s. row_id r < row_id s) all"
    using ok rows_ok_filter by (auto simp: all_def rows_ok_def sorted_wrt_map)
  show "int (length sel) \<le> max 0 n" by (simp add: sel)
  show "sorted_wrt (<) (map row_id sel)"
    using sorted_wrt_take_drop(1) [OF sorted] by (simp add: sel sorted_wrt_map)
  show "int (length sel) = max 0 n \<and> (\<forall>s \<in> set sel. row_id s < row_id r)"
    if "r \<in> set rows" "leasable (format_fixed now) r" "r \<notin> set sel"
  proof -
    have "r \<in> set (drop (nat n) all)"
      using that set_take_or_drop [of r all "nat n"] by (auto simp: sel all_def)
    with take_drop_order [OF sorted] in_set_drop_length [OF this] show ?thesis
      unfolding sel by (metis int_nat_eq max.absorb1 max.absorb2 nle_le)
  qed
  have "set sel \<subseteq> set rows" by (auto simp: sel_def dest: set_selectLeasable)
  then show "updateByIDs f (map row_id sel) rows = map (\<lambda>r. if r \<in> set sel then f r else r) rows"
    unfolding updateByIDs_def by (intro map_cong refl) (use rows_ok_inj [OF ok] in \<open>auto\<close>)
qed

text \<open>What \<open>LeaseBatch\<close> hands out. Each item is a row of the table that was pending or whose
  lease had run out, never an acked one; there are at most \<open>n\<close>, in id order; a leasable row left
  out is newer than every row handed out and is left out only when \<open>n\<close> were; exactly the rows
  handed out are marked leased until the lease ends, and no other row changes. On an error the
  table is unchanged.\<close>

theorem LeaseBatch_spec:
  assumes ok: "table_ok t" and lease: "LeaseBatch E n d t = (Inr items, t')"
  shows "\<exists>sel. items = map scanItem sel \<and> set sel \<subseteq> set (tab_rows t)
    \<and> (\<forall>r \<in> set sel. row_state r \<noteq> Acked \<and> leasable (format_fixed (q_now E)) r)
    \<and> int (length sel) \<le> max 0 n \<and> sorted_wrt (<) (map it_ID items)
    \<and> (\<forall>r \<in> set (tab_rows t). leasable (format_fixed (q_now E)) r \<and> r \<notin> set sel
        \<longrightarrow> int (length sel) = max 0 n \<and> (\<forall>s \<in> set sel. row_id s < row_id r))
    \<and> tab_rows t' = map (\<lambda>r. if r \<in> set sel then set_leased (format_fixed (q_now E + d)) r else r) (tab_rows t)"
proof -
  define sel where "sel = selectLeasable (q_now E) n (tab_rows t)"
  note items = lease_table_Inr [OF lease [unfolded LeaseBatch_def], folded sel_def]
  note spec = selectLeasable_spec [OF ok [unfolded table_ok_def], where n = n and now = "q_now E", folded sel_def]
  have "sorted_wrt (<) (map it_ID items)"
    using spec(2) by (simp add: items(1) comp_def scanItem_def)
  then show ?thesis
    using items spec set_selectLeasable [of _ "q_now E" n "tab_rows t", folded sel_def]
    by (intro exI [of _ sel]) (auto dest: leasable_not_acked)
qed

lemma LeaseBatch_spec_witness:
  "\<exists>items t'. LeaseBatch (good_env 0) 2 5 (\<lparr>tab_rows = [], tab_evicted = 0\<rparr>) = (Inr items, t')
     \<and> int (length items) \<le> max 0 2"
proof -
  let ?t = "\<lparr>tab_rows = [], tab_evicted = 0\<rparr> :: event_table"
  have l: "LeaseBatch (good_env 0) 2 5 ?t = (Inr [], ?t)"
    by (simp add: LeaseBatch_def lease_table_def selectLeasable_def good_env_def)
  have "table_ok ?t" by (simp add: table_ok_def)
  from LeaseBatch_spec [OF this l] l show ?thesis by simp
qed

subsection \<open>Leases are exclusive, and end\<close>

definition ids_of :: "queue_error + 'p item list \<Rightarrow> int set" where
  "ids_of res = (case res of Inl _ \<Rightarrow> {} | Inr items \<Rightarrow> it_ID ` set items)"

lemma lease_marks:
  assumes ok: "table_ok t" and lease: "lease_table E n d t = (Inr items, t')"
    and r: "r \<in> set (tab_rows t')" "row_id r \<in> it_ID ` set items"
  shows "row_state r = Leased" "row_until r = Some (format_fixed (q_now E + d))"
proof -
  note items = lease_table_Inr [OF lease]
  from r items have "row_state r = Leased \<and> row_until r = Some (format_fixed (q_now E + d))"
    by (auto simp: updateByIDs_def set_leased_def scanItem_def image_image)
  then show "row_state r = Leased" "row_until r = Some (format_fixed (q_now E + d))" by auto
qed

lemma lease_ids:
  assumes "lease_table E n d t = (Inr items, t')" "i \<in> it_ID ` set items"
  obtains r where "r \<in> set (tab_rows t)" "row_id r = i" "leasable (format_fixed (q_now E)) r"
  using assms lease_table_Inr(1) [OF assms(1)] set_selectLeasable [of _ "q_now E" n "tab_rows t"]
  by (auto simp: scanItem_def image_image)


lemma year_1970: "four_digit_year 0" "four_digit_year 5"
  by code_simp+


text \<open>A lost lease comes back. If the process that leased a row dies, the row can be leased
  again as soon as the lease has expired: a call that asks for enough rows hands it out.\<close>

theorem LeaseBatch_expires:
  assumes ok: "table_ok t" and r: "r \<in> set (tab_rows t)" "row_state r = Leased"
    and until: "row_until r = Some (format_fixed u)" "u < q_now E"
    and time: "four_digit_year u" "four_digit_year (q_now E)"
    and lease: "LeaseBatch E n d t = (Inr items, t')" "int (length (tab_rows t)) \<le> n"
  shows "scanItem r \<in> set items"
proof -
  have "leasable (format_fixed (q_now E)) r"
    using r until time by (simp add: leasable_def format_fixed_less_iff)
  then have "r \<in> set (filter (leasable (format_fixed (q_now E))) (tab_rows t))" using r by simp
  moreover have "length (filter (leasable (format_fixed (q_now E))) (tab_rows t)) \<le> nat n"
    using lease(2) length_filter_le [of "leasable (format_fixed (q_now E))" "tab_rows t"] by linarith
  ultimately have "r \<in> set (selectLeasable (q_now E) n (tab_rows t))"
    by (simp add: selectLeasable_def)
  then show ?thesis
    using lease_table_Inr(1) [OF lease(1) [unfolded LeaseBatch_def]] by simp
qed

definition lost_row :: "normalized_event qrow" where
  "lost_row = \<lparr>row_id = 1, row_key = Some ''e'', row_payload = empty_event, row_created = [],
     row_attempts = 0, row_state = Leased, row_until = Some (format_fixed 0), row_acked = None\<rparr>"

lemma LeaseBatch_expires_witness:
  "\<exists>items t'. LeaseBatch (good_env 5) 1 7 \<lparr>tab_rows = [lost_row], tab_evicted = 0\<rparr> = (Inr items, t')
     \<and> scanItem lost_row \<in> set items"
proof -
  let ?t = "\<lparr>tab_rows = [lost_row], tab_evicted = 0\<rparr>"
  have "fst (LeaseBatch (good_env 5) 1 7 ?t) = Inr (map scanItem (selectLeasable 5 1 [lost_row]))"
    by (auto simp: LeaseBatch_def lease_table_def good_env_def update_table_def Let_def)
  then obtain items t' where l: "LeaseBatch (good_env 5) 1 7 ?t = (Inr items, t')"
    by (cases "LeaseBatch (good_env 5) 1 7 ?t") auto
  have "scanItem lost_row \<in> set items"
    by (rule LeaseBatch_expires [OF _ _ _ _ _ year_1970(1) _ l, of lost_row])
      (simp_all add: table_ok_def rows_ok_def row_ok_def lost_row_def good_env_def year_1970)
  with l show ?thesis by blast
qed

subsection \<open>Ack, nack, prune\<close>

text \<open>\<open>Ack\<close> marks exactly the named rows delivered, clearing their lease and keeping them for
  the statistics; \<open>Nack\<close> puts exactly the named rows back, pending, with one more attempt. Both
  leave every other row, and on an error every row, as it was.\<close>

theorem Ack_Nack_spec:
  "(case Ack E ids t of
      (Inl _, t') \<Rightarrow> t' = t
    | (Inr _, t') \<Rightarrow> tab_rows t' = map (\<lambda>r. if row_id r \<in> set ids
        then r\<lparr>row_state := Acked, row_acked := Some (format_fixed (q_now E)), row_until := None\<rparr> else r)
        (tab_rows t) \<and> tab_evicted t' = tab_evicted t)
   \<and> (case Nack E ids t of
      (Inl _, t') \<Rightarrow> t' = t
    | (Inr _, t') \<Rightarrow> tab_rows t' = map (\<lambda>r. if row_id r \<in> set ids
        then r\<lparr>row_state := Pending, row_until := None, row_attempts := row_attempts r + 1\<rparr> else r)
        (tab_rows t) \<and> tab_evicted t' = tab_evicted t)"
  by (simp add: Ack_def ack_table_def Nack_def nack_table_def update_table_def updateByIDs_def
      set_acked_def [abs_def] set_nacked_def [abs_def])

lemma row_acked_time: "four_digit_year a \<Longrightarrow> four_digit_year b \<Longrightarrow>
    row_acked r = Some (format_fixed a) \<Longrightarrow> prunable (format_fixed b) r \<longleftrightarrow> row_state r = Acked \<and> a < b"
  by (simp add: prunable_def format_fixed_less_iff)

text \<open>Pruning removes only delivered rows older than the retention cutoff: pending and leased
  rows always stay, a row acked at \<open>a\<close> stays exactly while \<open>a\<close> is not before the cutoff, and the
  count returned is the number of rows removed, also when the vacuum after it fails.\<close>

theorem PruneAcked_spec:
  assumes "PruneAcked E cutoff t = ((n, err), t')" "four_digit_year cutoff"
  shows "n = int (length (tab_rows t)) - int (length (tab_rows t'))
    \<and> (\<forall>r \<in> set (tab_rows t). row_state r \<noteq> Acked \<longrightarrow> r \<in> set (tab_rows t'))
    \<and> set (tab_rows t') \<subseteq> set (tab_rows t)
    \<and> (err = None \<longrightarrow> (\<forall>r \<in> set (tab_rows t). \<forall>a. row_state r = Acked \<and> four_digit_year a
        \<and> row_acked r = Some (format_fixed a) \<longrightarrow> (r \<in> set (tab_rows t') \<longleftrightarrow> cutoff \<le> a)))"
  using assms
  by (auto simp: PruneAcked_def prune_table_def Let_def prunable_def format_fixed_less_iff
      split: if_splits option.splits)

lemma PruneAcked_spec_witness:
  "PruneAcked (good_env 0) 0 \<lparr>tab_rows = [lost_row], tab_evicted = 0\<rparr>
     = ((0, None), \<lparr>tab_rows = [lost_row], tab_evicted = 0\<rparr>) \<and> (0::int) = 1 - 1"
proof -
  have p: "PruneAcked (good_env 0) 0 \<lparr>tab_rows = [lost_row], tab_evicted = 0\<rparr>
     = ((0, None), \<lparr>tab_rows = [lost_row], tab_evicted = 0\<rparr>)"
    by (simp add: PruneAcked_def prune_table_def good_env_def prunable_def lost_row_def)
  from PruneAcked_spec [OF p year_1970(1)] p show ?thesis by simp
qed

text \<open>The depth the daemon reports is the number of undelivered rows, and it is the pending
  and leased counts of the statistics.\<close>

theorem Depth_counts:
  "q_fail E (S_Count 0) \<or> q_fail E S_Select
   \<or> (\<exists>s. QueueStats E t = Inr s \<and> Depth E t = Inr (qs_Pending s + qs_Leased s)
        \<and> qs_Pending s + qs_Leased s + qs_Acked s = int (length (tab_rows t)))"
proof -
  have "int (length (filter (\<lambda>r. \<not> is_acked r) rows)) = count_state Pending rows + count_state Leased rows
    \<and> count_state Pending rows + count_state Leased rows + count_state Acked rows = int (length rows)"
    for rows :: "normalized_event qrow list"
  proof (induction rows)
    case (Cons r rows)
    then show ?case by (cases "row_state r") (simp_all add: count_state_def is_acked_def)
  qed (simp add: count_state_def)
  then show ?thesis
    by (simp add: Depth_def depth_table_def QueueStats_def stats_table_def)
qed

subsection \<open>The queues as delivery queues\<close>

text \<open>The undelivered entries of a table, and the number of rows a lease could take.\<close>

definition table_undelivered :: "'p table \<Rightarrow> (int \<times> string \<times> 'p) set" where
  "table_undelivered t = (\<lambda>r. (row_id r, name_of (row_key r), row_payload r)) ` {r \<in> set (tab_rows t). \<not> is_acked r}"

text \<open>An entry's value is its idempotency key and its payload.\<close>

definition item_val :: "'p item \<Rightarrow> string \<times> 'p" where
  "item_val i = (it_Key i, it_Payload i)"

definition table_available :: "string \<Rightarrow> 'p table \<Rightarrow> nat" where
  "table_available now t = length (filter (leasable now) (tab_rows t))"

lemma lease_table_snd:
  "\<exists>sel. snd (lease_table E n d t) = t\<lparr>tab_rows := updateByIDs
      (set_leased (format_fixed (q_now E + d))) (map row_id sel) (tab_rows t)\<rparr>
    \<and> (sel = [] \<or> sel = selectLeasable (q_now E) n (tab_rows t))"
proof (cases "fst (lease_table E n d t)")
  case (Inl e)
  then have "snd (lease_table E n d t) = t"
    using lease_table_Inl [of E n d t e "snd (lease_table E n d t)"] by (metis prod.collapse)
  then show ?thesis by (intro exI [of _ "[]"]) simp
next
  case (Inr items)
  then have "lease_table E n d t = (Inr items, snd (lease_table E n d t))" by (metis prod.collapse)
  from lease_table_Inr(2) [OF this] show ?thesis by blast
qed

lemma update_table_ok:
  "table_ok t \<Longrightarrow> (\<And>r. row_id (f r) = row_id r) \<Longrightarrow> (\<And>r. row_ok r \<Longrightarrow> row_ok (f r))
     \<Longrightarrow> table_ok (snd (update_table E f ids t))"
  by (auto simp: update_table_def table_ok_def intro: rows_ok_update)

lemma table_undelivered_iff:
  "x \<in> table_undelivered t \<longleftrightarrow>
     (\<exists>r \<in> set (tab_rows t). x = (row_id r, name_of (row_key r), row_payload r) \<and> \<not> is_acked r)"
  by (auto simp: table_undelivered_def)

lemma table_undelivered_update:
  fixes t :: "'p table" and ids :: "int list"
  assumes f: "\<And>r. row_id (f r) = row_id r" "\<And>r. row_payload (f r) = row_payload r"
      "\<And>r. row_key (f r) = row_key r"
  defines "t' \<equiv> t\<lparr>tab_rows := updateByIDs f ids (tab_rows t)\<rparr>"
  shows undelivered_grows: "(\<And>r. r \<in> set (tab_rows t) \<Longrightarrow> row_id r \<in> set ids \<Longrightarrow> \<not> is_acked r \<Longrightarrow> \<not> is_acked (f r)) \<Longrightarrow>
      table_undelivered t \<subseteq> table_undelivered t'"
    and undelivered_shrinks: "(\<And>r. r \<in> set (tab_rows t) \<Longrightarrow> row_id r \<in> set ids \<Longrightarrow> \<not> is_acked (f r) \<Longrightarrow> \<not> is_acked r) \<Longrightarrow>
      table_undelivered t' \<subseteq> table_undelivered t"
    and undelivered_other: "x \<in> table_undelivered t \<Longrightarrow> fst x \<notin> set ids \<Longrightarrow> x \<in> table_undelivered t'"
proof -
  define g where "g r = (if row_id r \<in> set ids then f r else r)" for r
  have g: "row_id (g r) = row_id r" "row_payload (g r) = row_payload r" "row_key (g r) = row_key r" for r
    by (simp_all add: g_def f)
  have "tab_rows t' = map g (tab_rows t)"
    by (simp add: t'_def updateByIDs_def g_def)
  then have mem: "x \<in> table_undelivered t' \<longleftrightarrow> (\<exists>r \<in> set (tab_rows t). x = (row_id r, name_of (row_key r), row_payload r)
      \<and> \<not> is_acked (g r))" for x
    by (simp add: table_undelivered_iff g)
  show "table_undelivered t \<subseteq> table_undelivered t'"
    if "\<And>r. r \<in> set (tab_rows t) \<Longrightarrow> row_id r \<in> set ids \<Longrightarrow> \<not> is_acked r \<Longrightarrow> \<not> is_acked (f r)"
    using that unfolding subset_iff mem table_undelivered_iff [of _ t] g_def by (auto split: if_splits)
  show "table_undelivered t' \<subseteq> table_undelivered t"
    if "\<And>r. r \<in> set (tab_rows t) \<Longrightarrow> row_id r \<in> set ids \<Longrightarrow> \<not> is_acked (f r) \<Longrightarrow> \<not> is_acked r"
    using that unfolding subset_iff mem table_undelivered_iff [of _ t] g_def by (auto split: if_splits)
  show "x \<in> table_undelivered t'" if "x \<in> table_undelivered t" "fst x \<notin> set ids"
    using that unfolding mem table_undelivered_iff [of _ t] g_def by auto
qed

lemma setters_payload [simp]:
  "row_payload (set_leased u r) = row_payload r" "row_payload (set_acked u r) = row_payload r"
  "row_payload (set_nacked r) = row_payload r" "row_key (set_leased u r) = row_key r"
  "row_key (set_acked u r) = row_key r" "row_key (set_nacked r) = row_key r" "is_acked (set_acked u r)"
  "\<not> is_acked (set_leased u r)" "\<not> is_acked (set_nacked r)"
  by (simp_all add: set_leased_def set_acked_def set_nacked_def is_acked_def)

lemma lease_table_keeps:
  assumes "table_ok t"
  shows "table_undelivered (snd (lease_table E n d t)) = table_undelivered t"
proof -
  obtain sel where sel: "snd (lease_table E n d t) = t\<lparr>tab_rows := updateByIDs
      (set_leased (format_fixed (q_now E + d))) (map row_id sel) (tab_rows t)\<rparr>"
    "sel = [] \<or> sel = selectLeasable (q_now E) n (tab_rows t)"
    using lease_table_snd by blast
  have "\<not> is_acked r" if "r \<in> set (tab_rows t)" "row_id r \<in> set (map row_id sel)" for r
  proof -
    from that(2) obtain s where s: "s \<in> set sel" "row_id r = row_id s" by auto
    then have "s \<in> set (tab_rows t) \<and> leasable (format_fixed (q_now E)) s"
      using sel(2) set_selectLeasable by fastforce
    with rows_ok_inj [OF assms [unfolded table_ok_def] that(1)] s(2) leasable_not_acked
    show ?thesis by (auto simp: is_acked_def)
  qed
  then have "table_undelivered t \<subseteq> table_undelivered (snd (lease_table E n d t))"
    "table_undelivered (snd (lease_table E n d t)) \<subseteq> table_undelivered t"
    unfolding sel(1) by (intro undelivered_grows undelivered_shrinks; simp)+
  then show ?thesis by simp
qed

lemma available_update:
  "(\<And>r. r \<in> set rows \<Longrightarrow> row_id r \<in> set ids \<Longrightarrow> leasable now (f r) \<Longrightarrow> leasable now r) \<Longrightarrow>
     length (filter (leasable now) (updateByIDs f ids rows)) \<le> length (filter (leasable now) rows)"
  by (induction rows) (auto simp: updateByIDs_def le_SucI)

lemma lease_table_uses:
  assumes "table_ok t" "lease_table E n d t = (Inr items, t')" "0 \<le> d"
    "four_digit_year (q_now E)" "four_digit_year (q_now E + d)"
  shows "table_available (format_fixed (q_now E)) t' + length items \<le> table_available (format_fixed (q_now E)) t"
proof -
  let ?now = "format_fixed (q_now E)"
  let ?f = "set_leased (format_fixed (q_now E + d))"
  define sel where "sel = selectLeasable (q_now E) n (tab_rows t)"
  note items = lease_table_Inr [OF assms(2), folded sel_def]
  have upd: "updateByIDs ?f (map row_id sel) (tab_rows t) = map (\<lambda>r. if r \<in> set sel then ?f r else r) (tab_rows t)"
    unfolding sel_def by (rule selectLeasable_spec(4) [OF assms(1) [unfolded table_ok_def]])
  have f: "\<not> leasable ?now (?f r)" for r
    using assms(3) format_fixed_less_iff [OF assms(5,4)] by (simp add: leasable_def set_leased_def)
  have "filter (leasable ?now) (map (\<lambda>r. if r \<in> set sel then ?f r else r) rows)
      = filter (\<lambda>r. r \<notin> set sel) (filter (leasable ?now) rows)" for rows
    using f by (induction rows) auto
  then have left: "table_available ?now t' = length (filter (\<lambda>r. r \<notin> set sel) (filter (leasable ?now) (tab_rows t)))"
    by (simp add: table_available_def items(2) upd)
  have "distinct sel"
    using selectLeasable_spec(2) [OF assms(1) [unfolded table_ok_def], where n = n and now = "q_now E", folded sel_def]
    by (simp add: strict_sorted_iff distinct_map)
  then have "length sel = card (set sel)" by (simp add: distinct_card)
  also have "set sel \<subseteq> set (filter (leasable ?now) (tab_rows t))"
    using set_selectLeasable by (fastforce simp: sel_def)
  then have "card (set sel) \<le> card (set (filter (\<lambda>r. r \<in> set sel) (filter (leasable ?now) (tab_rows t))))"
    by (intro card_mono) auto
  also have "\<dots> \<le> length (filter (\<lambda>r. r \<in> set sel) (filter (leasable ?now) (tab_rows t)))"
    by (rule card_length)
  finally have "length sel \<le> length (filter (\<lambda>r. r \<in> set sel) (filter (leasable ?now) (tab_rows t)))" .
  then show ?thesis
    using left sum_length_filter_compl [of "\<lambda>r. r \<in> set sel" "filter (leasable ?now) (tab_rows t)"]
    by (simp add: items(1) table_available_def [of _ t])
qed

lemma lease_table_undelivered:
  assumes "lease_table E n d t = (Inr items, t')" "i \<in> set items"
  shows "(it_ID i, it_Key i, it_Payload i) \<in> table_undelivered t"
proof -
  obtain r where r: "i = scanItem r" "r \<in> set (selectLeasable (q_now E) n (tab_rows t))"
    using assms lease_table_Inr(1) [OF assms(1)] by auto
  from set_selectLeasable [OF r(2)] leasable_not_acked have "r \<in> set (tab_rows t)" "\<not> is_acked r"
    by (auto simp: is_acked_def)
  then show ?thesis unfolding table_undelivered_iff r(1) by (auto simp: scanItem_def)
qed

text \<open>The statements keep the contract, at any payload.\<close>

lemma table_delivery:
  "delivery_queue table_ok table_undelivered table_available lease_table ack_table nack_table it_ID item_val"
proof unfold_locales
  fix q :: "'p table" and E n d items q' i ks x now
  assume ok: "table_ok q"
  show "table_ok (snd (lease_table E n d q))"
    using lease_table_snd [of E n d q] ok by (auto simp: table_ok_def intro!: rows_ok_update)
  show "table_ok (snd (ack_table E ks q))" "table_ok (snd (nack_table E ks q))"
    using ok by (simp_all add: ack_table_def nack_table_def update_table_ok)
  show "table_undelivered (snd (lease_table E n d q)) = table_undelivered q"
    by (rule lease_table_keeps [OF ok])
  show "(it_ID i, item_val i) \<in> table_undelivered q"
    if "lease_table E n d q = (Inr items, q')" "i \<in> set items"
    using lease_table_undelivered [OF that] by (simp add: item_val_def)
  show "x \<in> table_undelivered (snd (ack_table E ks q))" if "x \<in> table_undelivered q" "fst x \<notin> set ks"
    using that undelivered_other [where f = "set_acked (format_fixed (q_now E))" and t = q]
    by (simp add: ack_table_def update_table_def)
  show "table_undelivered q \<subseteq> table_undelivered (snd (nack_table E ks q))"
    using undelivered_grows [where f = set_nacked and t = q]
    by (simp add: nack_table_def update_table_def)
  show "table_available (format_fixed (q_now E)) q' + length items \<le> table_available (format_fixed (q_now E)) q"
    if "lease_table E n d q = (Inr items, q')" "0 \<le> d" "four_digit_year (q_now E)" "four_digit_year (q_now E + d)"
    by (rule lease_table_uses [OF ok that])
  show "table_available now (snd (ack_table E ks q)) \<le> table_available now q"
    using available_update [of "tab_rows q" ks now "set_acked (format_fixed (q_now E))"]
    by (auto simp: ack_table_def update_table_def table_available_def leasable_def set_acked_def)
  show "v = v'" if "(k, v) \<in> table_undelivered q" "(k, v') \<in> table_undelivered q" for k v v'
    using that rows_ok_inj [OF ok [unfolded table_ok_def]] by (auto simp: table_undelivered_iff)
  show "finite (table_undelivered q)" by (simp add: table_undelivered_def)
  show "x \<in> table_undelivered q \<and> fst x \<notin> set ks"
    if "ack_table E ks q = (Inr (), q')" "x \<in> table_undelivered q'"
  proof (cases "ks = []")
    case False
    let ?f = "set_acked (format_fixed (q_now E))"
    from that(1) False have q': "tab_rows q' = map (\<lambda>r. if row_id r \<in> set ks then ?f r else r) (tab_rows q)"
      by (auto simp: ack_table_def update_table_def updateByIDs_def split: if_splits)
    from that(2) show ?thesis
      unfolding table_undelivered_iff q' by (auto split: if_splits)
  qed (use that in \<open>simp add: ack_table_def\<close>)
qed

lemma event_ops_eq: "LeaseBatch = lease_table" "Ack = ack_table" "Nack = nack_table"
  by (simp_all add: fun_eq_iff LeaseBatch_def Ack_def Nack_def)

lemma metric_ops_eq:
  "LeaseMetricsBatch = lease_table" "AckMetrics = ack_table" "NackMetrics = nack_table"
  by (simp_all add: fun_eq_iff LeaseMetricsBatch_def AckMetrics_def NackMetrics_def)

interpretation event_queue: delivery_queue table_ok table_undelivered table_available
  LeaseBatch Ack Nack it_ID item_val
  unfolding event_ops_eq by (rule table_delivery)

interpretation metric_queue: delivery_queue table_ok table_undelivered table_available
  LeaseMetricsBatch AckMetrics NackMetrics it_ID item_val
  unfolding metric_ops_eq by (rule table_delivery)

end
