(* ===== verification/Session_Safety.thy ===== *)
theory Session_Safety
  imports Session_Queue Delivery
begin

text \<open>
  What the session queue promises: totals that are the sum of the events and agree with the
  per-model breakdown, times that bracket the events, outcomes that never turn a failure into a
  success, \<open>updated_at\<close> values that strictly increase, and acknowledgements that never hide a
  newer revision.
\<close>

subsection \<open>Fields an event leaves alone\<close>

named_theorems session_frame

lemma times_frame [session_frame]:
  "ss_SessionID (mergeSessionTimes s st) = ss_SessionID s"
  "ss_UpdatedAt (mergeSessionTimes s st) = ss_UpdatedAt s"
  "ss_Repo (mergeSessionTimes s st) = ss_Repo s"
  "ss_Source (mergeSessionTimes s st) = ss_Source s"
  "ss_Outcome (mergeSessionTimes s st) = ss_Outcome s"
  "ss_ErrorCount (mergeSessionTimes s st) = ss_ErrorCount s"
  "ss_InputTokens (mergeSessionTimes s st) = ss_InputTokens s"
  "ss_OutputTokens (mergeSessionTimes s st) = ss_OutputTokens s"
  "ss_CacheReadTokens (mergeSessionTimes s st) = ss_CacheReadTokens s"
  "ss_CacheCreateTokens (mergeSessionTimes s st) = ss_CacheCreateTokens s"
  by (simp_all add: mergeSessionTimes_def Let_def)

lemma labels_frame [session_frame]:
  "ss_SessionID (mergeSessionLabels s ev) = ss_SessionID s"
  "ss_UpdatedAt (mergeSessionLabels s ev) = ss_UpdatedAt s"
  "ss_StartedAt (mergeSessionLabels s ev) = ss_StartedAt s"
  "ss_LastActivityAt (mergeSessionLabels s ev) = ss_LastActivityAt s"
  "ss_Outcome (mergeSessionLabels s ev) = ss_Outcome s"
  "ss_ErrorCount (mergeSessionLabels s ev) = ss_ErrorCount s"
  "ss_InputTokens (mergeSessionLabels s ev) = ss_InputTokens s"
  "ss_OutputTokens (mergeSessionLabels s ev) = ss_OutputTokens s"
  "ss_CacheReadTokens (mergeSessionLabels s ev) = ss_CacheReadTokens s"
  "ss_CacheCreateTokens (mergeSessionLabels s ev) = ss_CacheCreateTokens s"
  by (simp_all add: mergeSessionLabels_def mergeSessionRepo_def mergeSessionSource_def Let_def
      split: option.splits)

lemma cost_frame [session_frame]:
  "ss_SessionID (addSessionCost s c) = ss_SessionID s"
  "ss_UpdatedAt (addSessionCost s c) = ss_UpdatedAt s"
  "ss_StartedAt (addSessionCost s c) = ss_StartedAt s"
  "ss_LastActivityAt (addSessionCost s c) = ss_LastActivityAt s"
  "ss_Repo (addSessionCost s c) = ss_Repo s"
  "ss_Source (addSessionCost s c) = ss_Source s"
  "ss_Outcome (addSessionCost s c) = ss_Outcome s"
  "ss_ErrorCount (addSessionCost s c) = ss_ErrorCount s"
  "ss_InputTokens (addSessionCost s c) = ss_InputTokens s"
  "ss_OutputTokens (addSessionCost s c) = ss_OutputTokens s"
  "ss_CacheReadTokens (addSessionCost s c) = ss_CacheReadTokens s"
  "ss_CacheCreateTokens (addSessionCost s c) = ss_CacheCreateTokens s"
  by (simp_all add: addSessionCost_def Let_def)

lemma usage_frame [session_frame]:
  "ss_SessionID (fst (mergeSessionUsage s m ev)) = ss_SessionID s"
  "ss_UpdatedAt (fst (mergeSessionUsage s m ev)) = ss_UpdatedAt s"
  "ss_StartedAt (fst (mergeSessionUsage s m ev)) = ss_StartedAt s"
  "ss_LastActivityAt (fst (mergeSessionUsage s m ev)) = ss_LastActivityAt s"
  "ss_Repo (fst (mergeSessionUsage s m ev)) = ss_Repo s"
  "ss_Source (fst (mergeSessionUsage s m ev)) = ss_Source s"
  "ss_Outcome (fst (mergeSessionUsage s m ev)) = ss_Outcome s"
  "ss_ErrorCount (fst (mergeSessionUsage s m ev)) = ss_ErrorCount s"
  "ss_InputTokens (fst (mergeSessionUsage s m ev)) = ss_InputTokens s + or_zero (ev_InputTokens ev)"
  "ss_OutputTokens (fst (mergeSessionUsage s m ev)) = ss_OutputTokens s + or_zero (ev_OutputTokens ev)"
  "ss_CacheReadTokens (fst (mergeSessionUsage s m ev)) = ss_CacheReadTokens s + or_zero (ev_CacheReadTokens ev)"
  "ss_CacheCreateTokens (fst (mergeSessionUsage s m ev)) = ss_CacheCreateTokens s + or_zero (ev_CacheCreateTokens ev)"
  by (simp_all add: mergeSessionUsage_def Let_def cost_frame split: option.splits)

lemma outcome_frame [session_frame]:
  "ss_SessionID (mergeSessionOutcome s ev st) = ss_SessionID s"
  "ss_UpdatedAt (mergeSessionOutcome s ev st) = ss_UpdatedAt s"
  "ss_StartedAt (mergeSessionOutcome s ev st) = ss_StartedAt s"
  "ss_LastActivityAt (mergeSessionOutcome s ev st) = ss_LastActivityAt s"
  "ss_Repo (mergeSessionOutcome s ev st) = ss_Repo s"
  "ss_Source (mergeSessionOutcome s ev st) = ss_Source s"
  "ss_ErrorCount (mergeSessionOutcome s ev st) =
     ss_ErrorCount s + (if ev_ErrorMessage ev \<noteq> None then 1 else 0)"
  "ss_InputTokens (mergeSessionOutcome s ev st) = ss_InputTokens s"
  "ss_OutputTokens (mergeSessionOutcome s ev st) = ss_OutputTokens s"
  "ss_CacheReadTokens (mergeSessionOutcome s ev st) = ss_CacheReadTokens s"
  "ss_CacheCreateTokens (mergeSessionOutcome s ev st) = ss_CacheCreateTokens s"
  by (simp_all add: mergeSessionOutcome_def Let_def)

lemma finish_frame [session_frame]:
  "ss_SessionID (finishSessionModels s m) = ss_SessionID s"
  "ss_UpdatedAt (finishSessionModels s m) = ss_UpdatedAt s"
  "ss_StartedAt (finishSessionModels s m) = ss_StartedAt s"
  "ss_LastActivityAt (finishSessionModels s m) = ss_LastActivityAt s"
  "ss_Repo (finishSessionModels s m) = ss_Repo s"
  "ss_Source (finishSessionModels s m) = ss_Source s"
  "ss_Outcome (finishSessionModels s m) = ss_Outcome s"
  "ss_ErrorCount (finishSessionModels s m) = ss_ErrorCount s"
  "ss_InputTokens (finishSessionModels s m) = ss_InputTokens s"
  "ss_OutputTokens (finishSessionModels s m) = ss_OutputTokens s"
  "ss_CacheReadTokens (finishSessionModels s m) = ss_CacheReadTokens s"
  "ss_CacheCreateTokens (finishSessionModels s m) = ss_CacheCreateTokens s"
  by (simp_all add: finishSessionModels_def Let_def)

lemma updated_frame [session_frame]:
  "ss_SessionID (setSessionUpdatedAt s t) = ss_SessionID s"
  "ss_StartedAt (setSessionUpdatedAt s t) = ss_StartedAt s"
  "ss_LastActivityAt (setSessionUpdatedAt s t) = ss_LastActivityAt s"
  "ss_Repo (setSessionUpdatedAt s t) = ss_Repo s"
  "ss_Source (setSessionUpdatedAt s t) = ss_Source s"
  "ss_Outcome (setSessionUpdatedAt s t) = ss_Outcome s"
  "ss_ErrorCount (setSessionUpdatedAt s t) = ss_ErrorCount s"
  "ss_Models (setSessionUpdatedAt s t) = ss_Models s"
  "ss_InputTokens (setSessionUpdatedAt s t) = ss_InputTokens s"
  "ss_OutputTokens (setSessionUpdatedAt s t) = ss_OutputTokens s"
  "ss_CacheReadTokens (setSessionUpdatedAt s t) = ss_CacheReadTokens s"
  "ss_CacheCreateTokens (setSessionUpdatedAt s t) = ss_CacheCreateTokens s"
  by (simp_all add: setSessionUpdatedAt_def Let_def)

lemma init_frame [session_frame]:
  "ss_UpdatedAt (init_summary s i) = ss_UpdatedAt s"
  "ss_StartedAt (init_summary s i) = ss_StartedAt s"
  "ss_LastActivityAt (init_summary s i) = ss_LastActivityAt s"
  "ss_Repo (init_summary s i) = ss_Repo s"
  "ss_Source (init_summary s i) = ss_Source s"
  "ss_ErrorCount (init_summary s i) = ss_ErrorCount s"
  "ss_InputTokens (init_summary s i) = ss_InputTokens s"
  "ss_OutputTokens (init_summary s i) = ss_OutputTokens s"
  "ss_CacheReadTokens (init_summary s i) = ss_CacheReadTokens s"
  "ss_CacheCreateTokens (init_summary s i) = ss_CacheCreateTokens s"
  "ss_SessionID (init_summary s i) = (if ss_SessionID s = [] then i else ss_SessionID s)"
  by (simp_all add: init_summary_def)

text \<open>The two components of one step, and of a merge.\<close>

lemma mergeSessionEvent_fst:
  "fst (mergeSessionEvent now acc ev) =
     mergeSessionOutcome (fst (mergeSessionUsage (mergeSessionLabels
       (mergeSessionTimes (fst acc) (eventStamp (ev_Timestamp ev) now)) ev) (snd acc) ev)) ev
       (eventStamp (ev_Timestamp ev) now)"
  by (simp add: mergeSessionEvent_def Let_def case_prod_beta)

definition usage_step :: "model_map \<Rightarrow> normalized_event \<Rightarrow> model_map" where
  "usage_step m ev =
     (let model = analyticalModel (ev_Model ev); key = modelKey model
      in AList.update key
        (usage_add (case map_of m key of None \<Rightarrow> new_usage model | Some row \<Rightarrow> row) ev) m)"

lemma mergeSessionEvent_snd: "snd (mergeSessionEvent now acc ev) = usage_step (snd acc) ev"
  by (simp add: mergeSessionEvent_def mergeSessionUsage_def usage_step_def Let_def case_prod_beta)

lemma foldl_models: "snd (foldl (mergeSessionEvent now) acc evs) = foldl usage_step (snd acc) evs"
  by (induction evs arbitrary: acc) (simp_all add: mergeSessionEvent_snd)

lemma mergeSessionEvents_unfold:
  "mergeSessionEvents s sid evs now =
     (let acc = foldl (mergeSessionEvent now) (init_summary s sid, load_models (ss_Models (init_summary s sid))) evs
      in setSessionUpdatedAt (finishSessionModels (fst acc) (snd acc)) now)"
  by (simp add: mergeSessionEvents_def Let_def case_prod_beta)

text \<open>A property that one event keeps holds after all of them.\<close>

lemma foldl_event_inv:
  assumes "P (fst acc)"
    and "\<And>acc ev. ev \<in> set evs \<Longrightarrow> P (fst acc) \<Longrightarrow> P (fst (mergeSessionEvent now acc ev))"
  shows "P (fst (foldl (mergeSessionEvent now) acc evs))"
  using assms by (induction evs arbitrary: acc) auto

subsection \<open>Totals and the model breakdown\<close>

definition summary_tokens :: "session_summary \<Rightarrow> token_totals" where
  "summary_tokens s = Totals (ss_InputTokens s) (ss_OutputTokens s) (ss_CacheReadTokens s)
     (ss_CacheCreateTokens s)"

definition usage_tokens :: "session_model_usage \<Rightarrow> token_totals" where
  "usage_tokens u = Totals (mu_InputTokens u) (mu_OutputTokens u) (mu_CacheReadTokens u)
     (mu_CacheCreateTokens u)"

definition breakdown_tokens :: "session_model_usage list \<Rightarrow> token_totals" where
  "breakdown_tokens us = sum_list (map usage_tokens us)"

definition usage_key :: "session_model_usage \<Rightarrow> string" where
  "usage_key u = modelKey (mu_Model u)"

definition map_keyed :: "model_map \<Rightarrow> bool" where
  "map_keyed m \<longleftrightarrow> distinct (map fst m) \<and> (\<forall>(k, u) \<in> set m. k = usage_key u)"

lemma summary_tokens_event:
  "summary_tokens (fst (mergeSessionEvent now acc ev)) = summary_tokens (fst acc) + event_tokens ev"
  by (simp add: mergeSessionEvent_fst summary_tokens_def event_tokens_def plus_token_totals_def session_frame)

lemma summary_tokens_events:
  "summary_tokens (fst (foldl (mergeSessionEvent now) acc evs)) = summary_tokens (fst acc) + tokens_of evs"
  by (induction evs arbitrary: acc) (simp_all add: summary_tokens_event add.assoc)

lemma usage_add_facts [simp]:
  "usage_tokens (usage_add u ev) = usage_tokens u + event_tokens ev"
  "usage_key (usage_add u ev) = usage_key u" "mu_Model (usage_add u ev) = mu_Model u"
  by (simp_all add: usage_tokens_def usage_add_def event_tokens_def plus_token_totals_def usage_key_def)

lemma new_usage_facts [simp]:
  "usage_tokens (new_usage m) = 0" "usage_key (new_usage m) = modelKey m" "mu_Model (new_usage m) = m"
  by (simp_all add: usage_tokens_def new_usage_def zero_token_totals_def usage_key_def)

lemma sum_update_usage:
  "breakdown_tokens (map snd (AList.update k
      (usage_add (case map_of m k of None \<Rightarrow> new_usage n | Some u \<Rightarrow> u) ev) m))
   = breakdown_tokens (map snd m) + event_tokens ev"
  by (induction m) (auto simp: breakdown_tokens_def add.assoc add.commute add.left_commute)

lemma map_keyed_update:
  "map_keyed m \<Longrightarrow> usage_key u = k \<Longrightarrow> map_keyed (AList.update k u m)"
proof -
  assume m: "map_keyed m" and k: "usage_key u = k"
  have "set (AList.update k u m) \<subseteq> insert (k, u) (set m)"
    by (induction m) auto
  with m k show ?thesis by (auto simp: map_keyed_def distinct_update)
qed

lemma map_keyed_of: "map_keyed m \<Longrightarrow> map_of m k = Some u \<Longrightarrow> usage_key u = k"
  by (auto simp: map_keyed_def dest: map_of_SomeD)

lemma usage_step_facts:
  assumes "map_keyed m"
  shows "map_keyed (usage_step m ev)"
    and "breakdown_tokens (map snd (usage_step m ev)) = breakdown_tokens (map snd m) + event_tokens ev"
  using assms
  by (auto simp: usage_step_def Let_def sum_update_usage map_keyed_of intro!: map_keyed_update
      split: option.split)

lemma usage_steps_facts:
  "map_keyed m \<Longrightarrow> map_keyed (foldl usage_step m evs)
     \<and> breakdown_tokens (map snd (foldl usage_step m evs)) = breakdown_tokens (map snd m) + tokens_of evs"
  by (induction evs arbitrary: m) (simp_all add: usage_step_facts add.assoc)

lemma load_models_aux:
  "distinct (map fst m @ map usage_key us) \<Longrightarrow> map_keyed m \<Longrightarrow>
     foldl (\<lambda>m row. AList.update (modelKey (mu_Model row)) row m) m us = m @ map (\<lambda>u. (usage_key u, u)) us"
proof (induction us arbitrary: m)
  case (Cons u us)
  have "AList.update (usage_key u) u m = m @ [(usage_key u, u)]"
    using Cons(2) by (induction m) auto
  moreover from this have "map_keyed (m @ [(usage_key u, u)])"
    using map_keyed_update [OF Cons(3), of u] by simp
  ultimately show ?case
    using Cons(1) [of "m @ [(usage_key u, u)]"] Cons(2) by (simp add: usage_key_def)
qed simp

lemma load_models_eq:
  "distinct (map usage_key us) \<Longrightarrow> load_models us = map (\<lambda>u. (usage_key u, u)) us"
  using load_models_aux [of "[]" us] by (simp add: load_models_def map_keyed_def)

lemma map_keyed_load: "distinct (map usage_key us) \<Longrightarrow> map_keyed (map (\<lambda>u. (usage_key u, u)) us)"
  by (auto simp: map_keyed_def comp_def)

lemma finish_models:
  assumes "map_keyed m"
  shows "mset (ss_Models (finishSessionModels s m)) = mset (map snd m)"
    and "sorted (map usage_key (ss_Models (finishSessionModels s m)))"
    and "distinct (map usage_key (ss_Models (finishSessionModels s m)))"
proof -
  have d: "distinct (map fst m)" using assms by (simp add: map_keyed_def)
  have models: "ss_Models (finishSessionModels s m) = map (\<lambda>k. the (map_of m k)) (sort (map fst m))"
    by (simp add: finishSessionModels_def Let_def)
  have "mset (map (\<lambda>k. the (map_of m k)) (sort (map fst m))) = mset (map (\<lambda>k. the (map_of m k)) (map fst m))"
    by (simp only: mset_map mset_sort)
  also have "map (\<lambda>k. the (map_of m k)) (map fst m) = map snd m"
    using d by (auto simp: comp_def intro!: map_cong)
  finally show "mset (ss_Models (finishSessionModels s m)) = mset (map snd m)"
    by (simp add: models)
  have "map usage_key (ss_Models (finishSessionModels s m)) = sort (map fst m)"
    unfolding models map_map comp_def
  proof (intro map_idI)
    fix k assume "k \<in> set (sort (map fst m))"
    then obtain u where "map_of m k = Some u"
      by (auto simp: map_of_eq_None_iff dest!: weak_map_of_SomeI)
    then show "usage_key (the (map_of m k)) = k" using map_keyed_of [OF assms] by simp
  qed
  with d show "sorted (map usage_key (ss_Models (finishSessionModels s m)))"
    "distinct (map usage_key (ss_Models (finishSessionModels s m)))"
    by simp_all
qed

definition breakdown_ok :: "session_summary \<Rightarrow> bool" where
  "breakdown_ok s \<longleftrightarrow> summary_tokens s = breakdown_tokens (ss_Models s)
     \<and> distinct (map usage_key (ss_Models s)) \<and> (ss_SessionID s = [] \<longrightarrow> ss_Models s = [])"

text \<open>Merging a batch of events into a session adds exactly the batch's tokens to the
  session's totals, and the per-model breakdown stays a partition of them: one entry per model,
  sorted, whose sums are the session's totals.\<close>

theorem mergeSessionEvents_totals:
  fixes s sid evs now
  assumes "breakdown_ok s"
  defines "s' \<equiv> mergeSessionEvents s sid evs now"
  shows "summary_tokens s' = summary_tokens s + tokens_of evs
    \<and> summary_tokens s' = breakdown_tokens (ss_Models s')
    \<and> distinct (map usage_key (ss_Models s')) \<and> sorted (map usage_key (ss_Models s'))"
proof -
  define s0 where "s0 = init_summary s sid"
  have models0: "ss_Models s0 = ss_Models s"
    using assms(1) by (simp add: s0_def init_summary_def breakdown_ok_def)
  have tok0: "summary_tokens s0 = summary_tokens s"
    by (simp add: s0_def summary_tokens_def init_frame)
  define acc where "acc = foldl (mergeSessionEvent now) (s0, load_models (ss_Models s0)) evs"
  have d: "distinct (map usage_key (ss_Models s))" using assms(1) by (simp add: breakdown_ok_def)
  define m0 where "m0 = map (\<lambda>u. (usage_key u, u)) (ss_Models s)"
  have m: "snd acc = foldl usage_step m0 evs"
    by (simp add: acc_def foldl_models models0 load_models_eq [OF d] m0_def)
  have keyed: "map_keyed m0" unfolding m0_def by (rule map_keyed_load [OF d])
  note steps = usage_steps_facts [OF keyed, of evs, folded m]
  have b0: "breakdown_tokens (map snd m0) = summary_tokens s"
    using assms(1) by (simp add: m0_def comp_def breakdown_ok_def)
  have s': "s' = setSessionUpdatedAt (finishSessionModels (fst acc) (snd acc)) now"
    by (simp add: s'_def mergeSessionEvents_unfold Let_def acc_def s0_def)
  have models: "ss_Models s' = ss_Models (finishSessionModels (fst acc) (snd acc))"
    by (simp add: s' updated_frame)
  have tok: "summary_tokens s' = summary_tokens s + tokens_of evs"
    using summary_tokens_events [of now "(s0, load_models (ss_Models s0))" evs]
    by (simp add: s' summary_tokens_def [of "setSessionUpdatedAt _ _"] session_frame acc_def
        summary_tokens_def [of "fst _", symmetric] tok0)
  have "breakdown_tokens (ss_Models s') = breakdown_tokens (map snd (snd acc))"
    unfolding breakdown_tokens_def sum_mset_sum_list [symmetric] mset_map models
    using finish_models(1) [of "snd acc" "fst acc"] steps by simp
  with steps b0 tok finish_models(2,3) [of "snd acc" "fst acc"] models show ?thesis by simp
qed

lemma mergeSessionEvents_totals_witness:
  "summary_tokens (mergeSessionEvents empty_summary ''s''
     [empty_event\<lparr>ev_InputTokens := Some 10\<rparr>, empty_event\<lparr>ev_OutputTokens := Some 20\<rparr>] 0) = Totals 10 20 0 0"
  using mergeSessionEvents_totals [of empty_summary "''s''"
      "[empty_event\<lparr>ev_InputTokens := Some 10\<rparr>, empty_event\<lparr>ev_OutputTokens := Some 20\<rparr>]" 0]
  by (simp add: breakdown_ok_def summary_tokens_def empty_summary_def breakdown_tokens_def
      zero_token_totals_def event_tokens_def empty_event_def plus_token_totals_def)

subsection \<open>Times\<close>

lemma list_Nil_le [simp]: "([] :: string) \<le> s"
  by (cases s) (simp_all add: list_le_def list_less_def)

definition times_ok :: "string set \<Rightarrow> session_summary \<Rightarrow> bool" where
  "times_ok S s \<longleftrightarrow> (S = {} \<longrightarrow> ss_StartedAt s = [] \<and> ss_LastActivityAt s = [])
     \<and> (S \<noteq> {} \<longrightarrow> ss_StartedAt s \<in> S \<and> ss_LastActivityAt s \<in> S)
     \<and> (\<forall>t \<in> S. ss_StartedAt s \<le> t \<and> t \<le> ss_LastActivityAt s)"

lemma mergeSessionTimes_ok:
  assumes "times_ok S s" "st \<noteq> []" "[] \<notin> S"
  shows "times_ok (insert st S) (mergeSessionTimes s st)"
proof (cases "S = {}")
  case True
  with assms have "ss_StartedAt s = []" "ss_LastActivityAt s = []" by (simp_all add: times_ok_def)
  moreover have "[] < st" using assms(2) list_Nil_le [of st] by (metis order_le_less)
  ultimately show ?thesis using True by (simp add: times_ok_def mergeSessionTimes_def Let_def)
next
  case False
  with assms have s: "ss_StartedAt s \<in> S" "ss_LastActivityAt s \<in> S" "ss_StartedAt s \<noteq> []"
    "\<And>t. t \<in> S \<Longrightarrow> ss_StartedAt s \<le> t \<and> t \<le> ss_LastActivityAt s"
    by (auto simp: times_ok_def)
  have "ss_StartedAt (mergeSessionTimes s st) = min st (ss_StartedAt s)"
    "ss_LastActivityAt (mergeSessionTimes s st) = max st (ss_LastActivityAt s)"
    using s(3) by (auto simp: mergeSessionTimes_def Let_def min_def max_def)
  moreover have "min st (ss_StartedAt s) \<in> insert st S" "max st (ss_LastActivityAt s) \<in> insert st S"
    using s(1,2) by (simp_all add: min_def max_def)
  moreover have "min st (ss_StartedAt s) \<le> t \<and> t \<le> max st (ss_LastActivityAt s)" if "t \<in> insert st S" for t
    using that s(4) by (auto simp: min_le_iff_disj le_max_iff_disj)
  ultimately show ?thesis by (simp add: times_ok_def)
qed

lemma format_rfc3339_nonempty [simp]: "format_rfc3339 t \<noteq> []"
  by (simp add: format_rfc3339_def)

lemma eventStamp_nonempty [simp]: "eventStamp r t \<noteq> []" "[] \<noteq> eventStamp r t"
  by (auto simp: eventStamp_def split: option.splits dest: sym)

definition stamps :: "instant \<Rightarrow> normalized_event list \<Rightarrow> string set" where
  "stamps now evs = (\<lambda>ev. eventStamp (ev_Timestamp ev) now) ` set evs"

lemma events_times:
  "times_ok S (fst acc) \<Longrightarrow> [] \<notin> S \<Longrightarrow>
     times_ok (S \<union> stamps now evs) (fst (foldl (mergeSessionEvent now) acc evs))"
proof (induction evs arbitrary: acc S)
  case (Cons ev evs)
  let ?st = "eventStamp (ev_Timestamp ev) now"
  have "times_ok (insert ?st S) (fst (mergeSessionEvent now acc ev))"
    using mergeSessionTimes_ok [OF Cons(2) _ Cons(3), of ?st]
    by (simp add: mergeSessionEvent_fst times_ok_def session_frame)
  from Cons(1) [OF this] Cons(3) show ?case by (simp add: stamps_def)
qed (simp add: stamps_def)

text \<open>A session's start and last activity are the earliest and the latest of the time stamps
  of all its events: if they were for a set \<open>S\<close> of stamps, then after a batch they are for \<open>S\<close>
  and the batch's stamps, where an event without a valid timestamp counts at the time of the
  upsert. The comparison is the code's, on strings.\<close>

theorem mergeSessionEvents_times:
  assumes "times_ok S s" "[] \<notin> S"
  shows "times_ok (S \<union> stamps now evs) (mergeSessionEvents s sid evs now)"
  using events_times [of S "(init_summary s sid, load_models (ss_Models (init_summary s sid)))" now evs] assms
  by (simp add: mergeSessionEvents_unfold Let_def times_ok_def session_frame)

lemma mergeSessionEvents_times_witness:
  "times_ok (stamps 0 [empty_event, empty_event]) (mergeSessionEvents empty_summary ''s'' [empty_event, empty_event] 0)"
  using mergeSessionEvents_times [of "{}" empty_summary 0 "[empty_event, empty_event]" "''s''"]
  by (simp add: times_ok_def empty_summary_def)

subsection \<open>Outcome\<close>

definition failing :: "normalized_event \<Rightarrow> bool" where
  "failing ev \<longleftrightarrow> ev_ErrorMessage ev \<noteq> None"

lemma outcome_event:
  "ss_Outcome (fst (mergeSessionEvent now acc ev)) =
     (if failing ev \<or> ss_Outcome (fst acc) = ''failed'' then ''failed''
      else if terminalEvent (ev_EventName ev) then ''succeeded'' else ss_Outcome (fst acc))"
  unfolding mergeSessionEvent_fst mergeSessionOutcome_def
  by (simp add: Let_def failing_def session_frame)

lemma outcome_events:
  "ss_Outcome (fst (foldl (mergeSessionEvent now) acc evs)) =
     (if ss_Outcome (fst acc) = ''failed'' \<or> (\<exists>ev \<in> set evs. failing ev) then ''failed''
      else if \<exists>ev \<in> set evs. terminalEvent (ev_EventName ev) then ''succeeded''
      else ss_Outcome (fst acc))"
  by (induction evs arbitrary: acc) (auto simp: outcome_event)

lemma errors_events:
  "ss_ErrorCount (fst (foldl (mergeSessionEvent now) acc evs)) =
     ss_ErrorCount (fst acc) + of_nat (length (filter failing evs))"
  by (induction evs arbitrary: acc)
    (auto simp: mergeSessionEvent_fst session_frame failing_def)

text \<open>The outcome of a session. It is failed exactly when it was failed before or an event of
  the batch carries an error message, so a failure is never turned into a success; otherwise it
  has succeeded when the batch ends the session, and is unchanged when not. The error count
  grows by the number of events with an error message.\<close>

theorem mergeSessionEvents_outcome:
  "ss_Outcome (mergeSessionEvents s sid evs now) =
     (if (ss_SessionID s \<noteq> [] \<and> ss_Outcome s = ''failed'') \<or> (\<exists>ev \<in> set evs. ev_ErrorMessage ev \<noteq> None)
      then ''failed''
      else if \<exists>ev \<in> set evs. terminalEvent (ev_EventName ev) then ''succeeded''
      else if ss_SessionID s = [] then ''running'' else ss_Outcome s)
   \<and> ss_ErrorCount (mergeSessionEvents s sid evs now) =
     ss_ErrorCount s + of_nat (length (filter (\<lambda>ev. ev_ErrorMessage ev \<noteq> None) evs))"
proof -
  have o: "ss_Outcome (init_summary s sid) = (if ss_SessionID s = [] then ''running'' else ss_Outcome s)"
    by (simp add: init_summary_def)
  have f: "failing = (\<lambda>ev. ev_ErrorMessage ev \<noteq> None)"
    by (simp add: failing_def fun_eq_iff)
  show ?thesis
    unfolding mergeSessionEvents_unfold Let_def session_frame outcome_events errors_events fst_conv o
    by (simp add: f)
qed

subsection \<open>Labels\<close>

definition repo_safe :: "session_summary \<Rightarrow> bool" where
  "repo_safe s \<longleftrightarrow> (case ss_Repo s of None \<Rightarrow> True
     | Some r \<Rightarrow> r \<noteq> [] \<and> \<not> contains r ''/'' \<and> \<not> contains r [CHR 0x5C])"

lemma repo_safe_event: "repo_safe (fst acc) \<Longrightarrow> repo_safe (fst (mergeSessionEvent now acc ev))"
proof -
  assume "repo_safe (fst acc)"
  then have "repo_safe (mergeSessionLabels (mergeSessionTimes (fst acc) st) ev)" for st
    by (auto simp: repo_safe_def mergeSessionLabels_def mergeSessionRepo_def mergeSessionSource_def
        sanitizeLabel_def Let_def times_frame split: option.splits)
  then show ?thesis by (simp add: repo_safe_def mergeSessionEvent_fst session_frame)
qed

definition model_safe :: "session_model_usage \<Rightarrow> bool" where
  "model_safe u \<longleftrightarrow> (case mu_Model u of None \<Rightarrow> True
     | Some s \<Rightarrow> s \<noteq> [] \<and> \<not> has_prefix s ''/'' \<and> \<not> has_prefix s ''~'' \<and> \<not> contains s [CHR 0x5C])"

lemma analyticalModel_safe: "mu_Model u = analyticalModel v \<Longrightarrow> model_safe u"
  by (auto simp: analyticalModel_def model_safe_def Let_def split: option.splits if_splits)

lemma model_safe_simps [simp]:
  "model_safe (usage_add u ev) = model_safe u" "model_safe (new_usage (analyticalModel v))"
  by (simp_all add: model_safe_def [of "usage_add u ev"] model_safe_def [of u, symmetric]
      analyticalModel_safe)

definition models_safe :: "model_map \<Rightarrow> bool" where
  "models_safe m \<longleftrightarrow> (\<forall>u \<in> snd ` set m. model_safe u)"

lemma models_safe_update: "models_safe m \<Longrightarrow> model_safe u \<Longrightarrow> models_safe (AList.update k u m)"
  by (induction m) (auto simp: models_safe_def)

lemma usage_step_safe: "models_safe m \<Longrightarrow> models_safe (usage_step m ev)"
  unfolding usage_step_def Let_def
  by (rule models_safe_update) (force simp: models_safe_def dest: map_of_SomeD split: option.split)+

lemma usage_steps_safe: "models_safe m \<Longrightarrow> models_safe (foldl usage_step m evs)"
  by (induction evs arbitrary: m) (simp_all add: usage_step_safe)

definition labels_safe :: "session_summary \<Rightarrow> bool" where
  "labels_safe s \<longleftrightarrow> repo_safe s \<and> (\<forall>u \<in> set (ss_Models s). model_safe u)"

text \<open>No path leaves through a session summary. If its labels were safe, then whatever the
  batch carries the repository label has no slash or backslash, and no model name in the
  breakdown starts like an absolute or home path or holds a backslash.\<close>

theorem mergeSessionEvents_labels:
  assumes "labels_safe s" "breakdown_ok s"
  shows "labels_safe (mergeSessionEvents s sid evs now)"
proof -
  define s0 where "s0 = init_summary s sid"
  define acc where "acc = foldl (mergeSessionEvent now) (s0, load_models (ss_Models s0)) evs"
  have models0: "ss_Models s0 = ss_Models s"
    using assms(2) by (simp add: s0_def init_summary_def breakdown_ok_def)
  have d: "distinct (map usage_key (ss_Models s))" using assms(2) by (simp add: breakdown_ok_def)
  have "repo_safe s0" using assms(1) by (simp add: labels_safe_def repo_safe_def s0_def init_frame)
  then have repo: "repo_safe (fst acc)"
    unfolding acc_def by (intro foldl_event_inv [where P = repo_safe]) (simp_all add: repo_safe_event)
  have load: "load_models (ss_Models s0) = map (\<lambda>u. (usage_key u, u)) (ss_Models s)"
    by (simp add: models0 load_models_eq [OF d])
  have keyed: "map_keyed (snd acc)"
    using usage_steps_facts [OF map_keyed_load [OF d], of evs] by (simp add: acc_def foldl_models load)
  have safe: "models_safe (snd acc)"
    unfolding acc_def foldl_models snd_conv load
    by (rule usage_steps_safe) (use assms(1) in \<open>auto simp: models_safe_def labels_safe_def\<close>)
  have "set (ss_Models (finishSessionModels (fst acc) (snd acc))) = snd ` set (snd acc)"
    using finish_models(1) [OF keyed, of "fst acc"] by (metis set_mset_mset list.set_map)
  with repo safe show ?thesis
    by (simp add: labels_safe_def mergeSessionEvents_unfold Let_def acc_def [symmetric] s0_def [symmetric]
        repo_safe_def session_frame models_safe_def)
qed

lemma mergeSessionEvents_labels_witness:
  "labels_safe (mergeSessionEvents empty_summary ''s'' [empty_event\<lparr>ev_Repo := Some ''/tmp/private''\<rparr>] 0)"
  by (rule mergeSessionEvents_labels)
    (simp_all add: labels_safe_def repo_safe_def empty_summary_def breakdown_ok_def summary_tokens_def
      breakdown_tokens_def zero_token_totals_def)

subsection \<open>\<open>updated_at\<close>\<close>

lemma nanos_pos [simp]: "0 < nanos" by (simp add: nanos_def)

lemma mod_whole: "(t :: int) - t mod n - (t - t mod n) mod n = t - t mod n"
  by (simp add: minus_mod_eq_mult_div)

text \<open>\<open>updated_at\<close> strictly increases from one revision of a session to the next, by a whole
  second at least, also when the clock stands still or goes back, and never lags the clock by a
  second or more; so the backend, which keeps the newest, always takes the later revision.\<close>

theorem setSessionUpdatedAt_increases:
  assumes prior: "parse_rfc3339 (ss_UpdatedAt s) = Some p" "p mod nanos = 0"
    and years: "four_digit_year now" "four_digit_year (p + nanos)"
  shows "\<exists>u. parse_rfc3339 (ss_UpdatedAt (setSessionUpdatedAt s now)) = Some u
    \<and> u mod nanos = 0 \<and> p + nanos \<le> u \<and> now - nanos < u"
proof -
  define w where "w = now - now mod nanos"
  define u where "u = (if w > p then w else p + nanos)"
  have w: "w mod nanos = 0" by (simp add: w_def minus_mod_eq_mult_div)
  have w2: "now - nanos < w" unfolding w_def using pos_mod_bound [of nanos now] nanos_pos by linarith
  have u: "u mod nanos = 0" using w prior(2) by (simp add: u_def)
  have "nanos dvd w - p" using w prior(2) by (simp add: mod_eq_0_iff_dvd dvd_diff)
  then have "p + nanos \<le> w" if "p < w" using that zdvd_imp_le [of nanos "w - p"] by simp
  then have le: "p + nanos \<le> u" by (simp add: u_def)
  have "now - nanos < u"
  proof (cases "p < w")
    case False
    then have "w \<le> p + nanos" by (rule order_trans [OF leI]) (simp add: less_imp_le)
    with w2 False show ?thesis by (simp add: u_def)
  qed (use w2 in \<open>simp add: u_def\<close>)
  note le = le this
  have "parse_rfc3339 (format_rfc3339 u) = Some u"
  proof (cases "w > p")
    case True
    then have "format_rfc3339 u = format_rfc3339 now" by (simp add: u_def w_def format_rfc3339_mod)
    then show ?thesis using parse_format_rfc3339 [OF years(1)] True by (simp add: u_def w_def)
  next
    case False
    then show ?thesis using parse_format_rfc3339 [of u] years(2) u by (simp add: u_def)
  qed
  then show ?thesis
    using u le prior(1)
    by (intro exI [of _ u]) (auto simp: setSessionUpdatedAt_def Let_def w_def [symmetric] u_def)
qed

lemma setSessionUpdatedAt_increases_witness:
  "\<exists>u. parse_rfc3339 (ss_UpdatedAt (setSessionUpdatedAt (empty_summary\<lparr>ss_UpdatedAt := format_rfc3339 0\<rparr>) 0)) = Some u
     \<and> 0 + nanos \<le> u"
proof -
  have y: "four_digit_year 0" "four_digit_year (0 + nanos)" unfolding nanos_def by code_simp+
  have "parse_rfc3339 (ss_UpdatedAt (empty_summary\<lparr>ss_UpdatedAt := format_rfc3339 0\<rparr>)) = Some 0"
    using parse_format_rfc3339 [OF y(1)] by simp
  from setSessionUpdatedAt_increases [OF this _ y] show ?thesis by auto
qed

subsection \<open>Rows by session id\<close>

definition sessions_ok :: "session_row list \<Rightarrow> bool" where
  "sessions_ok rows \<longleftrightarrow> distinct (map sr_SessionID rows)"

lemma find_session_Some:
  "find_session sid rows = Some r \<Longrightarrow> r \<in> set rows \<and> sr_SessionID r = sid"
  by (auto simp: find_session_def find_Some_iff)

lemma find_session_None: "find_session sid rows = None \<longleftrightarrow> sid \<notin> sr_SessionID ` set rows"
  by (auto simp: find_session_def find_None_iff)

lemma find_session_in:
  "sessions_ok rows \<Longrightarrow> r \<in> set rows \<Longrightarrow> find_session (sr_SessionID r) rows = Some r"
  by (induction rows) (auto simp: sessions_ok_def find_session_def)

lemma find_session_map:
  "(\<And>r. sr_SessionID (f r) = sr_SessionID r) \<Longrightarrow>
     find_session sid (map f rows) = map_option f (find_session sid rows)"
  by (induction rows) (simp_all add: find_session_def)

lemma find_session_append:
  "find_session sid (rows @ [r]) =
     (case find_session sid rows of Some r' \<Rightarrow> Some r' | None \<Rightarrow> if sr_SessionID r = sid then Some r else None)"
  by (induction rows) (simp_all add: find_session_def)

text \<open>The row an upsert of \<open>evs\<close> leaves for a session that had the row \<open>old\<close>.\<close>

definition upserted ::
    "instant \<Rightarrow> session_row option \<Rightarrow> string \<Rightarrow> normalized_event list \<Rightarrow> session_row \<Rightarrow> bool" where
  "upserted now old sid evs r \<longleftrightarrow>
     sr_SessionID r = sid \<and> sr_State r = Pending \<and> sr_LeasedUntil r = None \<and> sr_AckedAt r = None
     \<and> sr_Revision r = (case old of None \<Rightarrow> 1 | Some o' \<Rightarrow> sr_Revision o' + 1)
     \<and> summary_json (mergeSessionEvents (case old of None \<Rightarrow> empty_summary | Some o' \<Rightarrow> sr_Payload o') sid evs now)
       = Some (sr_Payload r)"

lemma upsertSessionGroup_find:
  assumes "upsertSessionGroup E now k (s, evs) rows = Inr rows'"
  shows "find_session sid rows' = find_session sid rows \<or> sid = s"
    and "\<exists>r. find_session s rows' = Some r \<and> upserted now (find_session s rows) s evs r"
    and "length rows' \<le> length rows + 1" "sessions_ok rows \<Longrightarrow> sessions_ok rows'"
proof -
  define sm where "sm = mergeSessionEvents (loadSessionSummary rows s) s evs now"
  obtain p where p: "summary_json sm = Some p"
    "rows' = upsert_row s p (ss_UpdatedAt sm) (format_fixed now) rows"
    using assms by (auto simp: upsertSessionGroup_def sm_def Let_def split: if_splits option.splits)
  show "find_session sid rows' = find_session sid rows \<or> sid = s"
    unfolding p(2) upsert_row_def
    by (auto simp: find_session_append find_session_map split: option.split)
      (cases "find_session sid rows"; auto dest: find_session_Some)+
  show "\<exists>r. find_session s rows' = Some r \<and> upserted now (find_session s rows) s evs r"
    using p(1) unfolding p(2) upsert_row_def sm_def
    by (cases "find_session s rows")
      (auto simp: find_session_append find_session_map upserted_def loadSessionSummary_def
        dest: find_session_Some)
  show "length rows' \<le> length rows + 1" by (simp add: p(2) upsert_row_def)
  have ids: "map sr_SessionID (map (\<lambda>r. if sr_SessionID r = s then f r else r) rows) = map sr_SessionID rows"
    if "\<And>r. sr_SessionID (f r) = sr_SessionID r" for f
    unfolding map_map by (rule map_cong) (simp_all add: that)
  show "sessions_ok rows'" if ok: "sessions_ok rows"
  proof (cases "find_session s rows")
    case None
    with ok show ?thesis
      by (simp add: p(2) upsert_row_def sessions_ok_def find_session_None)
  next
    case (Some r)
    with ok show ?thesis
      by (simp only: p(2) upsert_row_def sessions_ok_def option.distinct if_False) (subst ids, simp_all)
  qed
qed

lemma upsert_groups_find:
  assumes "upsert_groups E now k gs rows = Inr rows'" "distinct (map fst gs)"
  shows "(case map_of gs sid of None \<Rightarrow> find_session sid rows' = find_session sid rows
      | Some evs \<Rightarrow> \<exists>r. find_session sid rows' = Some r \<and> upserted now (find_session sid rows) sid evs r)
    \<and> length rows' \<le> length rows + length gs \<and> (sessions_ok rows \<longrightarrow> sessions_ok rows')"
  using assms
proof (induction E now k gs rows rule: upsert_groups.induct)
  case (2 E now k g gs rows)
  obtain s evs where g: "g = (s, evs)" by (cases g)
  obtain mid where mid: "upsertSessionGroup E now k g rows = Inr mid"
    using 2(2) by (cases "upsertSessionGroup E now k g rows") auto
  note step = upsertSessionGroup_find [OF mid [unfolded g]]
  have ih: "(case map_of gs sid of None \<Rightarrow> find_session sid rows' = find_session sid mid
      | Some evs \<Rightarrow> \<exists>r. find_session sid rows' = Some r \<and> upserted now (find_session sid mid) sid evs r)
    \<and> length rows' \<le> length mid + length gs \<and> (sessions_ok mid \<longrightarrow> sessions_ok rows')"
    using 2(1) [OF mid] 2(2,3) mid by simp
  show ?case
  proof (cases "sid = s")
    case True
    then have "map_of gs sid = None" using 2(3) g by (auto simp: map_of_eq_None_iff)
    with ih step(2) True g have "\<exists>r. find_session sid rows' = Some r
        \<and> upserted now (find_session sid rows) sid evs r" by simp
    with ih step(3,4) True g show ?thesis by simp
  next
    case False
    with step(1) [of sid] have "find_session sid mid = find_session sid rows" by simp
    with ih step(3,4) False g show ?thesis by (cases "map_of gs sid") simp_all
  qed
qed simp

lemma group_events:
  "distinct (map fst (groupSessionEvents events))
   \<and> map_of (groupSessionEvents events) sid =
     (let evs = filter (\<lambda>ev. ev_SessionID ev = Some sid) events
      in if trim_space sid = [] \<or> evs = [] then None else Some evs)"
proof (induction events rule: rev_induct)
  case (snoc ev events)
  then show ?case
    by (cases "ev_SessionID ev")
      (auto simp: groupSessionEvents_def group_put_def distinct_update update_conv' Let_def
        simp del: map_of_eq_Some_iff)
qed (simp add: groupSessionEvents_def)

text \<open>What an upsert does to every session. Each session with events in the batch, and a
  non-blank id, has afterwards one pending row at the next revision (at 1 when it is new), free
  of any lease, that holds the merge of its old summary with its events in order; every other
  session is untouched. The order in which Go visits the groups does not matter. (Below the cap
  of 10000 rows.)\<close>

theorem UpsertSessionEvents_spec:
  assumes order: "\<And>gs. mset (order gs) = mset gs"
    and up: "UpsertSessionEvents E order events now rows = (Inr n, rows')"
    and cap: "length rows + length events \<le> 10000" and ok: "sessions_ok rows"
  shows "sessions_ok rows' \<and>
    (let evs = filter (\<lambda>ev. ev_SessionID ev = Some sid) events in
     if trim_space sid = [] \<or> evs = [] then find_session sid rows' = find_session sid rows
     else (\<exists>r. find_session sid rows' = Some r \<and> upserted now (find_session sid rows) sid evs r))"
proof -
  define gs where "gs = groupSessionEvents events"
  note ge = group_events [of events, folded gs_def]
  have perm: "distinct (map fst (order gs))" "map_of (order gs) = map_of gs"
  proof -
    have "mset (map fst (order gs)) = mset (map fst gs)" using order by simp
    then show d: "distinct (map fst (order gs))" using ge by (metis mset_eq_imp_distinct_iff)
    show "map_of (order gs) = map_of gs"
      using d ge order [of gs] by (simp add: map_of_inject_set) (metis set_mset_mset)
  qed
  have len: "length (groupSessionEvents es) \<le> length es" for es
  proof (induction es rule: rev_induct)
    case (snoc ev es)
    have u: "length (AList.update k v xs) \<le> Suc (length xs)" for k v and xs :: "session_group list"
      by (induction xs) auto
    have "length (group_put g ev) \<le> Suc (length g)" for g
      by (cases "ev_SessionID ev") (simp_all add: group_put_def u)
    from le_trans [OF this Suc_le_mono [THEN iffD2, OF snoc]] show ?case
      by (simp add: groupSessionEvents_def)
  qed (simp add: groupSessionEvents_def)
  show ?thesis
  proof (cases "gs = []")
    case True
    then have "rows' = rows" using up by (simp add: UpsertSessionEvents_def gs_def)
    with True ge [of sid] ok show ?thesis by (auto simp: Let_def split: if_splits)
  next
    case False
    then obtain mid where mid: "upsert_groups E now 0 (order gs) rows = Inr mid" "rows' = trim_sessions E mid"
      using up by (auto simp: UpsertSessionEvents_def gs_def [symmetric] split: if_splits sum.splits)
    note find = upsert_groups_find [OF mid(1) perm(1), of sid, unfolded perm(2)]
    have "length (order gs) = length gs" using order by (metis size_mset)
    with find len [of events] cap have "length mid \<le> maxSessionRows"
      by (simp add: gs_def maxSessionRows_def)
    then have "rows' = mid" by (simp add: mid(2) trim_sessions_def trim_victims_def)
    with find ge [of sid] ok show ?thesis by (auto simp: Let_def split: if_splits option.splits)
  qed
qed

text \<open>A concrete upsert of one session.\<close>

definition session_event :: normalized_event where
  "session_event = empty_event\<lparr>ev_SessionID := Some ''s'', ev_InputTokens := Some 5\<rparr>"

lemma trim_space_s: "trim_space ''s'' = ''s''"
  by (simp add: string_eval)

lemma group_sample: "groupSessionEvents [session_event] = [(''s'', [session_event])]"
  by (simp add: groupSessionEvents_def group_put_def session_event_def empty_event_def trim_space_s)

lemma cost_kept:
  "ss_CostUSD (mergeSessionTimes s st) = ss_CostUSD s"
  "ss_CostUSD (mergeSessionLabels s ev) = ss_CostUSD s"
  "ss_CostUSD (mergeSessionOutcome s ev st) = ss_CostUSD s"
  "ss_CostUSD (finishSessionModels s m) = ss_CostUSD s"
  "ss_CostUSD (setSessionUpdatedAt s now) = ss_CostUSD s"
  "ss_CostUSD (init_summary s sid) = ss_CostUSD s"
  "ev_CostUSD ev = None \<Longrightarrow> ss_CostUSD (fst (mergeSessionUsage s m ev)) = ss_CostUSD s"
  by (simp_all add: mergeSessionTimes_def mergeSessionOutcome_def finishSessionModels_def
      setSessionUpdatedAt_def init_summary_def Let_def mergeSessionUsage_def)
    (simp add: mergeSessionLabels_def mergeSessionRepo_def mergeSessionSource_def Let_def
      split: option.splits)

lemma mergeSessionEvents_cost:
  assumes "\<forall>ev \<in> set evs. ev_CostUSD ev = None"
  shows "ss_CostUSD (mergeSessionEvents s sid evs now) = ss_CostUSD s"
proof -
  have "ss_CostUSD (fst (foldl (mergeSessionEvent now) acc evs)) = ss_CostUSD (fst acc)" for acc
    using assms by (induction evs arbitrary: acc) (simp_all add: mergeSessionEvent_fst cost_kept)
  then show ?thesis by (simp add: mergeSessionEvents_unfold Let_def cost_kept)
qed

lemma cost_sample: "ss_CostUSD (mergeSessionEvents empty_summary sid [session_event] now) = None"
  by (subst mergeSessionEvents_cost) (simp_all add: session_event_def empty_event_def empty_summary_def)

lemma upsert_sample:
  "\<exists>rows'. UpsertSessionEvents (good_env 0) (\<lambda>gs. gs) [session_event] 0 [] = (Inr 1, rows')"
proof -
  have "\<exists>p. summary_json (mergeSessionEvents empty_summary ''s'' [session_event] 0) = Some p"
    unfolding summary_json_def by (simp add: marshalable_summary_def cost_sample finite_opt_def)
  then show ?thesis
    by (auto simp: UpsertSessionEvents_def group_sample upsertSessionGroup_def good_env_def
        loadSessionSummary_def find_session_def Let_def split: option.splits)
qed

lemma UpsertSessionEvents_spec_witness:
  "\<exists>rows' r. UpsertSessionEvents (good_env 0) (\<lambda>gs. gs) [session_event] 0 [] = (Inr 1, rows')
     \<and> find_session ''s'' rows' = Some r \<and> sr_Revision r = 1"
proof -
  obtain rows' where up: "UpsertSessionEvents (good_env 0) (\<lambda>gs. gs) [session_event] 0 [] = (Inr 1, rows')"
    using upsert_sample by blast
  have "ev_SessionID session_event = Some ''s''" by (simp add: session_event_def)
  with UpsertSessionEvents_spec [OF _ up, of "''s''"] obtain r where
    "find_session ''s'' rows' = Some r" "upserted 0 None ''s'' [session_event] r"
    by (auto simp: trim_space_s sessions_ok_def find_session_def)
  with up show ?thesis by (auto simp: upserted_def)
qed

subsection \<open>Acknowledging a revision\<close>

lemma update_revision_find:
  assumes "\<And>r. sr_SessionID (f r) = sr_SessionID r"
  shows "find_session sid (update_revision f s n rows) =
    map_option (\<lambda>r. if sid = s \<and> sr_Revision r = n then f r else r) (find_session sid rows)"
proof -
  have "find_session sid (update_revision f s n rows) =
      map_option (\<lambda>r. if sr_SessionID r = s \<and> sr_Revision r = n then f r else r) (find_session sid rows)"
    unfolding update_revision_def by (rule find_session_map) (simp add: assms)
  then show ?thesis
    by (cases "find_session sid rows") (auto dest: find_session_Some)
qed

lemma update_each_find:
  assumes f: "\<And>r. sr_SessionID (f r) = sr_SessionID r" "\<And>r. sr_Revision (f r) = sr_Revision r"
  shows "find_session sid (snd (update_each E f k keys rows)) = None \<longleftrightarrow> find_session sid rows = None"
    and "find_session sid rows = Some r \<Longrightarrow>
      \<exists>r'. find_session sid (snd (update_each E f k keys rows)) = Some r' \<and> sr_Revision r' = sr_Revision r
        \<and> ((sid, sr_Revision r) \<notin> set keys \<longrightarrow> r' = r)"
proof (induction keys arbitrary: k rows r)
  case (Cons key keys)
  obtain s n where key: "key = (s, n)" by (cases key)
  note find = update_revision_find [of f sid s n, OF f(1)]
  {
    case 1
    show ?case using Cons(1) [of "k + 1" "update_revision f s n rows"]
      by (simp add: key find)
  next
    case 2
    then show ?case
      using Cons(2) [of "update_revision f s n rows" _ "k + 1"] find f(2) by (auto simp: key)
  }
qed auto

text \<open>What a loop of updates leaves alone: any function of the rows that a single update
  keeps.\<close>

lemma update_each_map: "(\<And>r. g (f r) = g r) \<Longrightarrow> map g (snd (update_each E f k keys rows)) = map g rows"
proof (induction keys arbitrary: k rows)
  case (Cons key keys)
  have "map g (update_revision f s n rows) = map g rows" for s n
    unfolding update_revision_def map_map by (rule map_cong) (simp_all add: Cons(2))
  with Cons(1) [OF Cons(2)] show ?case by (cases key) simp
qed simp

lemma update_each_ok:
  assumes "\<And>r. sr_SessionID (f r) = sr_SessionID r" "sessions_ok rows"
  shows "sessions_ok (snd (update_each E f k keys rows))"
  using assms(2) update_each_map [of sr_SessionID f, OF assms(1)] by (simp add: sessions_ok_def)

lemma session_setters [simp]:
  "sr_SessionID (session_set_leased u r) = sr_SessionID r" "sr_Revision (session_set_leased u r) = sr_Revision r"
  "sr_SessionID (session_set_acked u r) = sr_SessionID r" "sr_Revision (session_set_acked u r) = sr_Revision r"
  "sr_SessionID (session_set_nacked r) = sr_SessionID r" "sr_Revision (session_set_nacked r) = sr_Revision r"
  "sr_Payload (session_set_leased u r) = sr_Payload r" "sr_Payload (session_set_acked u r) = sr_Payload r"
  "sr_Payload (session_set_nacked r) = sr_Payload r"
  by (simp_all add: session_set_leased_def session_set_acked_def session_set_nacked_def)

lemma LeaseSessionsBatch_Inr:
  assumes "LeaseSessionsBatch E n d rows = (Inr items, rows')"
  defines "f \<equiv> session_set_leased (format_fixed (q_now E + d))"
  shows "rows' = snd (update_each E f 0 (map item_lease items) rows)"
    and "int (length items) \<le> max 0 (min n 500)"
    and "i \<in> set items \<Longrightarrow> \<exists>r \<in> set rows. i = scanSessionItem r \<and> session_leasable (format_fixed (q_now E)) r"
proof -
  define m where "m = (if n > 500 then 500 else n)"
  define sel where "sel = take (nat m) (sort_key sr_UpdatedAt
      (filter (session_leasable (format_fixed (q_now E))) rows))"
  have *: "items = [] \<and> rows' = rows \<and> n \<le> 0 \<or>
      0 < n \<and> items = map scanSessionItem sel \<and> rows' = snd (update_each E f 0 (map item_lease items) rows)"
    using assms(1) unfolding LeaseSessionsBatch_def Let_def m_def [symmetric] sel_def [symmetric] f_def [symmetric]
    by (auto split: if_splits prod.splits sum.splits)
  then show "rows' = snd (update_each E f 0 (map item_lease items) rows)" by auto
  have "length sel \<le> nat m" by (simp add: sel_def)
  then have "int (length sel) \<le> max 0 m" by linarith
  then show "int (length items) \<le> max 0 (min n 500)" using * by (auto simp: m_def split: if_splits)
  have "r \<in> set rows \<and> session_leasable (format_fixed (q_now E)) r" if "r \<in> set sel" for r
    using that by (auto simp: sel_def dest!: in_set_takeD)
  with * show "\<exists>r \<in> set rows. i = scanSessionItem r \<and> session_leasable (format_fixed (q_now E)) r"
    if "i \<in> set items" using that by (elim disjE conjE) (simp, auto simp: image_iff intro!: bexI)
qed

text \<open>C2: an acknowledgement never hides newer data. Suppose a batch of sessions is leased, and
  while it is in flight more events of one of them are upserted. Then, whatever the
  acknowledgement of the batch does, and whether it fails half way or not, that session's row
  keeps the merged summary, stays pending, and will be leased again.\<close>

theorem AckSessions_stale:
  assumes ok: "sessions_ok rows"
    and lease: "LeaseSessionsBatch E n d rows = (Inr items, rows1)" and i: "i \<in> set items"
    and order: "\<And>gs. mset (order gs) = mset gs"
    and up: "UpsertSessionEvents E1 order events now rows1 = (Inr m, rows2)"
    and cap: "length rows1 + length events \<le> 10000"
    and ev: "ev \<in> set events" "ev_SessionID ev = Some (si_SessionID i)" "trim_space (si_SessionID i) \<noteq> []"
    and ack: "AckSessions E2 (map item_lease items) rows2 = (res, rows3)"
  shows "\<exists>r. find_session (si_SessionID i) rows3 = Some r \<and> find_session (si_SessionID i) rows2 = Some r
    \<and> sr_State r = Pending \<and> sr_Revision r = si_Revision i + 1 \<and> session_leasable t r"
proof -
  let ?sid = "si_SessionID i"
  note L = LeaseSessionsBatch_Inr [OF lease]
  obtain r0 where r0: "r0 \<in> set rows" "i = scanSessionItem r0" using L(3) [OF i] by blast
  then have sid: "?sid = sr_SessionID r0" "si_Revision i = sr_Revision r0"
    by (simp_all add: scanSessionItem_def)
  have f0: "find_session ?sid rows = Some r0" using find_session_in [OF ok r0(1)] sid by simp
  obtain r1 where r1: "find_session ?sid rows1 = Some r1" "sr_Revision r1 = sr_Revision r0"
    using update_each_find(2) [of "session_set_leased u" for u, OF session_setters(1,2) f0]
    unfolding L(1) by blast
  have ok1: "sessions_ok rows1" unfolding L(1) by (intro update_each_ok ok) simp
  have "filter (\<lambda>ev. ev_SessionID ev = Some ?sid) events \<noteq> []"
    using ev(1,2) by (auto simp: filter_empty_conv)
  with UpsertSessionEvents_spec [OF order up cap ok1, of ?sid] ev(3) obtain r2 where
    r2: "find_session ?sid rows2 = Some r2"
      "upserted now (Some r1) ?sid (filter (\<lambda>ev. ev_SessionID ev = Some ?sid) events) r2"
    by (auto simp: r1(1))
  have rev: "sr_Revision r2 = si_Revision i + 1" "sr_State r2 = Pending"
    using r2(2) r1(2) sid by (simp_all add: upserted_def)
  have "(?sid, sr_Revision r2) \<notin> set (map item_lease items)"
  proof
    assume "(?sid, sr_Revision r2) \<in> set (map item_lease items)"
    then obtain j where j: "j \<in> set items" "si_SessionID j = ?sid" "si_Revision j = sr_Revision r2"
      by (auto simp: item_lease_def)
    from L(3) [OF j(1)] obtain rj where "rj \<in> set rows" "j = scanSessionItem rj" by blast
    with find_session_in [OF ok] j f0 have "rj = r0" by (force simp: scanSessionItem_def)
    with j(3) \<open>j = _\<close> sid rev show False by (simp add: scanSessionItem_def)
  qed
  then have "find_session ?sid rows3 = Some r2"
    using update_each_find(2) [OF _ _ r2(1), of "session_set_acked (format_fixed (q_now E2))" E2 0
        "map item_lease items"] ack
    by (simp add: AckSessions_def finishSessions_def)
  with r2 rev show ?thesis by (auto simp: session_leasable_def)
qed

definition sent_row :: session_row where
  "sent_row = \<lparr>sr_SessionID = ''s'', sr_Revision = 1, sr_Payload = empty_summary, sr_UpdatedAt = [],
     sr_CreatedAt = [], sr_Attempts = 0, sr_State = Pending, sr_LeasedUntil = None, sr_AckedAt = None\<rparr>"

lemma upsert_sent_row:
  "\<exists>rows'. UpsertSessionEvents (good_env 0) (\<lambda>gs. gs) [session_event] 0
     [session_set_leased u sent_row] = (Inr 1, rows')"
proof -
  have "\<exists>p. summary_json (mergeSessionEvents empty_summary ''s'' [session_event] 0) = Some p"
    unfolding summary_json_def by (simp add: marshalable_summary_def cost_sample finite_opt_def)
  then show ?thesis
    by (auto simp: UpsertSessionEvents_def group_sample upsertSessionGroup_def good_env_def
        loadSessionSummary_def find_session_def Let_def sent_row_def split: option.splits)
qed

lemma AckSessions_stale_witness:
  "\<exists>rows2 r. UpsertSessionEvents (good_env 0) (\<lambda>gs. gs) [session_event] 0
       [session_set_leased (format_fixed 5) sent_row] = (Inr 1, rows2)
     \<and> find_session ''s'' (snd (AckSessions (good_env 0) [(''s'', 1)] rows2)) = Some r \<and> sr_Revision r = 2"
proof -
  let ?i = "scanSessionItem sent_row"
  have lease: "LeaseSessionsBatch (good_env 0) 1 5 [sent_row]
      = (Inr [?i], [session_set_leased (format_fixed 5) sent_row])"
    by (simp add: LeaseSessionsBatch_def good_env_def session_leasable_def sent_row_def scanSessionItem_def
        item_lease_def update_revision_def session_set_leased_def)
  obtain rows2 where up: "UpsertSessionEvents (good_env 0) (\<lambda>gs. gs) [session_event] 0
      [session_set_leased (format_fixed 5) sent_row] = (Inr 1, rows2)"
    using upsert_sent_row by blast
  have i: "si_SessionID ?i = ''s''" "si_Revision ?i = 1" "map item_lease [?i] = [(''s'', 1)]"
    by (simp_all add: scanSessionItem_def sent_row_def item_lease_def)
  have ev: "ev_SessionID session_event = Some ''s''" by (simp add: session_event_def)
  obtain res rows3 where ack: "AckSessions (good_env 0) (map item_lease [?i]) rows2 = (res, rows3)"
    by (cases "AckSessions (good_env 0) (map item_lease [?i]) rows2")
  have ack': "AckSessions (good_env 0) [(''s'', 1)] rows2 = (res, rows3)"
    using ack unfolding i(3) .
  from AckSessions_stale [OF _ lease _ _ up _ _ _ _ ack, of ?i session_event "[]"]
  obtain r where "find_session ''s'' rows3 = Some r" "sr_Revision r = 2"
    by (auto simp: sessions_ok_def i ev trim_space_s)
  then show ?thesis using up ack' by auto
qed

subsection \<open>The session queue as a delivery queue\<close>

text \<open>A session's key is its id with the revision; its value the merged summary.\<close>

definition session_key :: "session_row \<Rightarrow> session_lease" where
  "session_key r = (sr_SessionID r, sr_Revision r)"

definition session_undelivered :: "session_row list \<Rightarrow> (session_lease \<times> session_summary) set" where
  "session_undelivered rows = {(session_key r, sr_Payload r) | r. r \<in> set rows \<and> \<not> session_acked r}"

definition session_available :: "string \<Rightarrow> session_row list \<Rightarrow> nat" where
  "session_available now rows = length (filter (session_leasable now) rows)"

lemma session_undelivered_iff:
  "x \<in> session_undelivered rows \<longleftrightarrow>
     (\<exists>r \<in> set rows. x = (session_key r, sr_Payload r) \<and> \<not> session_acked r)"
  by (auto simp: session_undelivered_def)

lemma session_key_item: "item_lease (scanSessionItem r) = session_key r"
  by (simp add: item_lease_def scanSessionItem_def session_key_def)

lemma acked_setters [simp]:
  "session_acked (session_set_acked u r)" "\<not> session_acked (session_set_leased u r)"
  "\<not> session_acked (session_set_nacked r)"
  by (simp_all add: session_set_leased_def session_set_acked_def session_set_nacked_def session_acked_def)

lemma update_revision_alt:
  "update_revision f s n rows = map (\<lambda>r. if session_key r = (s, n) then f r else r) rows"
  by (simp add: update_revision_def session_key_def)

lemma undelivered_update_revision:
  assumes "\<And>r. session_key (f r) = session_key r" "\<And>r. sr_Payload (f r) = sr_Payload r"
  shows "x \<in> session_undelivered (update_revision f s n rows) \<longleftrightarrow>
    (\<exists>r \<in> set rows. x = (session_key r, sr_Payload r)
       \<and> \<not> session_acked (if session_key r = (s, n) then f r else r))"
proof -
  define g where "g r = (if session_key r = (s, n) then f r else r)" for r
  have g: "session_key (g r) = session_key r" "sr_Payload (g r) = sr_Payload r" for r
    by (simp_all add: g_def assms)
  have rows: "update_revision f s n rows = map g rows" by (simp add: update_revision_alt g_def)
  have "x \<in> session_undelivered (map g rows) \<longleftrightarrow>
      (\<exists>r \<in> set rows. x = (session_key r, sr_Payload r) \<and> \<not> session_acked (g r))"
    by (simp add: session_undelivered_iff g)
  then show ?thesis unfolding rows by (simp only: g_def)
qed

lemma undelivered_lease_step:
  assumes "\<And>r. r \<in> set rows \<Longrightarrow> session_key r = (s, n) \<Longrightarrow> \<not> session_acked r"
  shows "session_undelivered (update_revision (session_set_leased u) s n rows) = session_undelivered rows"
  unfolding set_eq_iff
  by (subst undelivered_update_revision)
     (use assms in \<open>auto simp: session_key_def session_undelivered_iff split: if_splits\<close>)

lemma undelivered_lease:
  assumes "\<And>r. r \<in> set rows \<Longrightarrow> session_key r \<in> set keys \<Longrightarrow> \<not> session_acked r"
  shows "session_undelivered (snd (update_each E (session_set_leased u) k keys rows)) = session_undelivered rows"
  using assms
proof (induction keys arbitrary: k rows)
  case (Cons key keys)
  obtain s n where key: "key = (s, n)" by (cases key)
  let ?rows = "update_revision (session_set_leased u) s n rows"
  have "\<not> session_acked r" if "r \<in> set ?rows" "session_key r \<in> set keys" for r
    using that Cons.prems by (auto simp: update_revision_alt session_key_def split: if_splits)
  note IH = Cons.IH [OF this]
  have "session_undelivered ?rows = session_undelivered rows"
    by (rule undelivered_lease_step) (use Cons.prems key in auto)
  with IH show ?case by (simp add: key)
qed simp

lemma undelivered_ack:
  assumes "x \<in> session_undelivered rows" "fst x \<notin> set keys"
  shows "x \<in> session_undelivered (snd (update_each E (session_set_acked u) k keys rows))"
  using assms
proof (induction keys arbitrary: k rows)
  case (Cons key keys)
  obtain s n where key: "key = (s, n)" by (cases key)
  have "x \<in> session_undelivered (update_revision (session_set_acked u) s n rows)"
    by (subst undelivered_update_revision)
       (use Cons.prems key in \<open>auto simp: session_key_def session_undelivered_iff\<close>)
  from Cons.IH [OF this] Cons.prems(1,2) show ?case by (simp add: key)
qed simp

lemma undelivered_ack_done:
  assumes "fst (update_each E (session_set_acked u) k keys rows) = Inr ()"
    and "x \<in> session_undelivered (snd (update_each E (session_set_acked u) k keys rows))"
  shows "x \<in> session_undelivered rows \<and> fst x \<notin> set keys"
  using assms
proof (induction keys arbitrary: k rows)
  case (Cons key keys)
  obtain s n where key: "key = (s, n)" by (cases key)
  from Cons have "x \<in> session_undelivered (update_revision (session_set_acked u) s n rows)" "fst x \<notin> set keys"
    by (auto simp: key split: if_splits)
  from this(1) have "x \<in> session_undelivered rows \<and> fst x \<noteq> key"
    by (subst (asm) undelivered_update_revision)
       (auto simp: session_key_def session_undelivered_iff key split: if_splits)
  with \<open>fst x \<notin> set keys\<close> show ?case by simp
qed simp

lemma undelivered_nack:
  "x \<in> session_undelivered rows \<Longrightarrow>
     x \<in> session_undelivered (snd (update_each E session_set_nacked k keys rows))"
proof (induction keys arbitrary: k rows)
  case (Cons key keys)
  obtain s n where key: "key = (s, n)" by (cases key)
  have "x \<in> session_undelivered (update_revision session_set_nacked s n rows)"
    by (subst undelivered_update_revision)
       (use Cons.prems key in \<open>auto simp: session_key_def session_undelivered_iff\<close>)
  from Cons.IH [OF this] Cons.prems show ?case by (simp add: key)
qed simp

lemma available_update_revision:
  assumes "\<And>r. \<not> session_leasable now (f r)"
  shows "session_available now (update_revision f s n rows) \<le> session_available now rows"
    and "r \<in> set rows \<Longrightarrow> session_key r = (s, n) \<Longrightarrow> session_leasable now r \<Longrightarrow>
      session_available now (update_revision f s n rows) < session_available now rows"
proof -
  have le: "length (filter (session_leasable now) (update_revision f s n rows))
      \<le> length (filter (session_leasable now) rows)" for rows
    using assms by (induction rows) (auto simp: update_revision_alt le_SucI)
  then show "session_available now (update_revision f s n rows) \<le> session_available now rows"
    by (simp add: session_available_def)
  show "session_available now (update_revision f s n rows) < session_available now rows"
    if "r \<in> set rows" "session_key r = (s, n)" "session_leasable now r"
    using that(1)
  proof (induction rows)
    case (Cons a rows)
    then show ?case using le [of rows] that(2,3) assms
      by (auto simp: session_available_def update_revision_alt)
  qed simp
qed

lemma available_update_each:
  assumes "\<And>r. \<not> session_leasable now (f r)"
  shows "session_available now (snd (update_each E f k keys rows)) \<le> session_available now rows"
proof (induction keys arbitrary: k rows)
  case (Cons key keys)
  obtain s n where key: "key = (s, n)" by (cases key)
  show ?case using Cons.IH [of "k + 1" "update_revision f s n rows"]
      available_update_revision(1) [of now f s n rows, OF assms]
    by (simp add: key)
qed simp

lemma available_lease:
  assumes f: "\<And>r. \<not> session_leasable now (f r)"
  shows "distinct keys \<Longrightarrow> \<forall>key \<in> set keys. \<exists>r \<in> set rows. session_key r = key \<and> session_leasable now r \<Longrightarrow>
    fst (update_each E f k keys rows) = Inr () \<Longrightarrow>
    session_available now (snd (update_each E f k keys rows)) + length keys \<le> session_available now rows"
proof (induction keys arbitrary: k rows)
  case (Cons key keys)
  obtain s n where key: "key = (s, n)" by (cases key)
  let ?rows = "update_revision f s n rows"
  have "\<forall>key \<in> set keys. \<exists>r \<in> set ?rows. session_key r = key \<and> session_leasable now r"
  proof
    fix key' assume k': "key' \<in> set keys"
    then obtain r where r: "r \<in> set rows" "session_key r = key'" "session_leasable now r"
      using Cons.prems(2) by auto
    moreover have "key' \<noteq> (s, n)" using k' Cons.prems(1) key by auto
    ultimately show "\<exists>r \<in> set ?rows. session_key r = key' \<and> session_leasable now r"
      by (intro bexI [of _ r]) (auto simp: update_revision_alt image_iff intro!: bexI [of _ r])
  qed
  moreover obtain r where "r \<in> set rows" "session_key r = (s, n)" "session_leasable now r"
    using Cons.prems(2) key by auto
  ultimately show ?case
    using Cons.IH [of ?rows "k + 1"] Cons.prems available_update_revision(2) [of now f r rows s n, OF f]
    by (auto simp: key split: if_splits)
qed simp

lemma sessions_ok_key:
  "sessions_ok rows \<Longrightarrow> r \<in> set rows \<Longrightarrow> r' \<in> set rows \<Longrightarrow> session_key r = session_key r' \<Longrightarrow> r = r'"
  by (auto simp: sessions_ok_def session_key_def distinct_map dest: inj_onD)

lemma distinct_map_take_sort:
  assumes "distinct (map f rows)"
  shows "distinct (map f (take m (sort_key g rows)))"
proof -
  have rows: "distinct rows" "inj_on f (set rows)" using assms by (simp_all add: distinct_map)
  have "set (take m (sort_key g rows)) \<subseteq> set rows"
    using set_take_subset [of m "sort_key g rows"] by simp
  with rows show ?thesis by (simp add: distinct_map inj_on_subset)
qed

text \<open>What a call of \<open>LeaseSessionsBatch\<close> does to the table, failed or not.\<close>

lemma LeaseSessionsBatch_cases:
  obtains sel where "snd (LeaseSessionsBatch E n d rows) = snd (update_each E
      (session_set_leased (format_fixed (q_now E + d))) 0 (map session_key sel) rows)"
    "\<And>r. r \<in> set sel \<Longrightarrow> r \<in> set rows \<and> session_leasable (format_fixed (q_now E)) r"
    "sessions_ok rows \<Longrightarrow> distinct (map session_key sel)"
    "\<And>items. fst (LeaseSessionsBatch E n d rows) = Inr items \<Longrightarrow> items = map scanSessionItem sel
      \<and> fst (update_each E (session_set_leased (format_fixed (q_now E + d))) 0 (map session_key sel) rows) = Inr ()"
proof -
  define m where "m = (if n > 500 then 500 else n)"
  define s where "s = take (nat m) (sort_key sr_UpdatedAt
      (filter (session_leasable (format_fixed (q_now E))) rows))"
  have "r \<in> set rows \<and> session_leasable (format_fixed (q_now E)) r" if "r \<in> set s" for r
    using that by (auto simp: s_def dest!: in_set_takeD)
  moreover have "distinct (map session_key s)" if "sessions_ok rows"
  proof -
    have "distinct (map sr_SessionID s)"
      using that unfolding sessions_ok_def s_def
      by (intro distinct_map_take_sort distinct_map_filter)
    then show ?thesis by (auto simp: session_key_def distinct_map inj_on_def)
  qed
  moreover have keys: "map item_lease (map scanSessionItem s) = map session_key s"
    by (simp add: session_key_item)
  ultimately have s: "\<And>r. r \<in> set s \<Longrightarrow> r \<in> set rows \<and> session_leasable (format_fixed (q_now E)) r"
    "sessions_ok rows \<Longrightarrow> distinct (map session_key s)" by blast+
  let ?U = "update_each E (session_set_leased (format_fixed (q_now E + d))) 0 (map session_key s) rows"
  show ?thesis
  proof (cases "n \<le> 0 \<or> q_fail E S_Select")
    case True
    then have "snd (LeaseSessionsBatch E n d rows) = rows"
      "\<And>items. fst (LeaseSessionsBatch E n d rows) = Inr items \<Longrightarrow> items = []"
      by (cases "n \<le> 0"; simp add: LeaseSessionsBatch_def Let_def)+
    then show ?thesis by (intro that [of "[]"]) simp_all
  next
    case False
    have keys: "map item_lease (map scanSessionItem s) = map session_key s"
      by (simp add: session_key_item)
    have eq: "LeaseSessionsBatch E n d rows = (case fst ?U of Inl e \<Rightarrow> Inl e
        | Inr _ \<Rightarrow> Inr (map scanSessionItem s), snd ?U)"
      using False unfolding LeaseSessionsBatch_def Let_def m_def [symmetric] s_def [symmetric] keys
      by (simp add: prod.case_eq_if split: sum.splits)
    show ?thesis
    proof (rule that [OF _ s])
      show "snd (LeaseSessionsBatch E n d rows) = snd ?U" by (simp add: eq)
      show "items = map scanSessionItem s \<and> fst ?U = Inr ()"
        if "fst (LeaseSessionsBatch E n d rows) = Inr items" for items
        using that by (simp add: eq split: sum.splits)
    qed
  qed
qed

interpretation session_queue: delivery_queue sessions_ok session_undelivered session_available
  LeaseSessionsBatch AckSessions NackSessions item_lease si_Summary
proof unfold_locales
  fix q :: "session_row list" and E :: qenv and n d items q' i ks x now
  assume ok: "sessions_ok q"
  let ?f = "session_set_leased (format_fixed (q_now E + d))"
  obtain sel where sel: "snd (LeaseSessionsBatch E n d q) = snd (update_each E ?f 0 (map session_key sel) q)"
    "\<And>r. r \<in> set sel \<Longrightarrow> r \<in> set q \<and> session_leasable (format_fixed (q_now E)) r"
    "distinct (map session_key sel)"
    "\<And>items. fst (LeaseSessionsBatch E n d q) = Inr items \<Longrightarrow> items = map scanSessionItem sel
      \<and> fst (update_each E ?f 0 (map session_key sel) q) = Inr ()"
    using LeaseSessionsBatch_cases [of E n d q] ok by metis
  have live: "\<not> session_acked r" if "session_leasable t r" for t r
    using that by (auto simp: session_leasable_def session_acked_def)
  show "sessions_ok (snd (LeaseSessionsBatch E n d q))"
    unfolding sel(1) by (intro update_each_ok ok) simp
  show "sessions_ok (snd (AckSessions E ks q))" "sessions_ok (snd (NackSessions E ks q))"
    unfolding AckSessions_def NackSessions_def finishSessions_def by (intro update_each_ok ok; simp)+
  show "session_undelivered (snd (LeaseSessionsBatch E n d q)) = session_undelivered q"
    unfolding sel(1)
  proof (rule undelivered_lease)
    fix r assume "r \<in> set q" "session_key r \<in> set (map session_key sel)"
    then obtain r' where "r' \<in> set sel" "session_key r = session_key r'" by auto
    with sel(2) sessions_ok_key [OF ok \<open>r \<in> set q\<close>] live show "\<not> session_acked r" by metis
  qed
  show "(item_lease i, si_Summary i) \<in> session_undelivered q"
    if "LeaseSessionsBatch E n d q = (Inr items, q')" "i \<in> set items"
  proof -
    from that sel(4) obtain r where r: "r \<in> set sel" "i = scanSessionItem r" by auto
    with sel(2) live have "r \<in> set q" "\<not> session_acked r" by blast+
    then show ?thesis
      unfolding session_undelivered_iff r(2) session_key_item
      by (intro bexI [of _ r]) (simp_all add: scanSessionItem_def)
  qed
  show "x \<in> session_undelivered (snd (AckSessions E ks q))" if "x \<in> session_undelivered q" "fst x \<notin> set ks"
    using undelivered_ack [OF that] by (simp add: AckSessions_def finishSessions_def)
  show "session_undelivered q \<subseteq> session_undelivered (snd (NackSessions E ks q))"
    using undelivered_nack by (auto simp: NackSessions_def finishSessions_def)
  show "session_available (format_fixed (q_now E)) q' + length items \<le> session_available (format_fixed (q_now E)) q"
    if "LeaseSessionsBatch E n d q = (Inr items, q')" "0 \<le> d" "four_digit_year (q_now E)" "four_digit_year (q_now E + d)"
  proof -
    have items: "items = map scanSessionItem sel" "fst (update_each E ?f 0 (map session_key sel) q) = Inr ()"
      using sel(4) [of items] that(1) by simp_all
    have "\<not> session_leasable (format_fixed (q_now E)) (?f r)" for r
      using that(2) format_fixed_less_iff [OF that(4,3)] by (simp add: session_leasable_def session_set_leased_def)
    from available_lease [of "format_fixed (q_now E)" ?f "map session_key sel" q E 0, OF this sel(3) _ items(2)]
    show ?thesis using sel(1,2) that(1) items(1) by auto
  qed
  show "session_available now (snd (AckSessions E ks q)) \<le> session_available now q"
    unfolding AckSessions_def finishSessions_def
    by (simp, rule available_update_each) (simp add: session_leasable_def session_set_acked_def)
  show "v = v'" if "(k, v) \<in> session_undelivered q" "(k, v') \<in> session_undelivered q" for k v v'
    using that sessions_ok_key [OF ok] by (auto simp: session_undelivered_iff)
  show "finite (session_undelivered q)" by (simp add: session_undelivered_def)
  show "x \<in> session_undelivered q \<and> fst x \<notin> set ks"
    if "AckSessions E ks q = (Inr (), q')" "x \<in> session_undelivered q'"
    using that undelivered_ack_done [where k = 0 and keys = ks and rows = q and x = x and E = E
        and u = "format_fixed (q_now E)"]
    by (simp add: AckSessions_def finishSessions_def)
qed

end
