(* ===== verification/Uploader_Safety.thy ===== *)
theory Uploader_Safety
  imports Uploader Queue_Safety Session_Safety
begin

text \<open>
  What the uploader guarantees: nothing undelivered is dropped unless the backend answered for
  it, a flush ends, nothing is uploaded on an unauthorized key, the back-off is bounded, and a
  rotation never leaves the client on an unverified key.
\<close>

subsection \<open>Frames\<close>

text \<open>What an operation on the configuration changes: the store and the step.\<close>

definition queues :: "uploader \<Rightarrow> event_table \<times> metric_table \<times> session_row list" where
  "queues w = (up_events w, up_metrics w, up_sessions w)"

text \<open>The fields an operation on the configuration leaves alone.\<close>

definition core :: "uploader \<Rightarrow> uploader" where
  "core w = w\<lparr>up_store := None, up_step := 0\<rparr>"

lemma core_tick [simp]: "core (tick w) = core w"
  by (simp add: core_def tick_def)

lemma core_store [simp]: "core (w\<lparr>up_store := st\<rparr>) = core w"
  by (simp add: core_def)

lemma core_fields:
  "core w = core w' \<Longrightarrow> up_client w = up_client w' \<and> queues w = queues w' \<and> up_counters w = up_counters w'
     \<and> up_policy w = up_policy w' \<and> up_mode w = up_mode w' \<and> up_authReason w = up_authReason w'
     \<and> up_backoff w = up_backoff w' \<and> up_invRunning w = up_invRunning w'"
  by (cases w; cases w') (simp add: core_def queues_def)

lemma core_loadConfig: "loadConfig U w = (r, w') \<Longrightarrow> core w' = core w"
proof (cases "up_store w")
  case (Some st)
  obtain x st' where "Store_Load (ue_cred U (up_step w)) st = (x, st')" by (metis prod.exhaust)
  then show "loadConfig U w = (r, w') \<Longrightarrow> core w' = core w"
    using Some by (cases x) (auto simp: loadConfig_def)
qed (simp add: loadConfig_def)

lemma core_saveConfig [simp]: "core (saveConfig U cfg w) = core w"
proof (cases "up_store w")
  case (Some st)
  obtain e c st' where "Store_Save (ue_cred U (up_step w)) cfg st = (e, c, st')" by (metis prod.exhaust)
  then show ?thesis using Some by (simp add: saveConfig_def)
qed (simp add: saveConfig_def)

lemma core_mutateConfig [simp]: "core (mutateConfig U f w) = core w"
proof -
  obtain r w' where load: "loadConfig U w = (r, w')" by (metis prod.exhaust)
  show ?thesis using core_loadConfig [OF load] load by (cases r) (simp_all add: mutateConfig_def)
qed

lemma mutateConfig_fields [simp]:
  "up_client (mutateConfig U f w) = up_client w" "queues (mutateConfig U f w) = queues w"
  "up_counters (mutateConfig U f w) = up_counters w" "up_policy (mutateConfig U f w) = up_policy w"
  "up_mode (mutateConfig U f w) = up_mode w" "up_authReason (mutateConfig U f w) = up_authReason w"
  "up_backoff (mutateConfig U f w) = up_backoff w" "up_invRunning (mutateConfig U f w) = up_invRunning w"
  using core_fields [OF core_mutateConfig, of U f w] by simp_all

lemma loadConfig_fields:
  assumes "loadConfig U w = (r, w')"
  shows "up_client w' = up_client w" "queues w' = queues w" "up_counters w' = up_counters w"
    "up_policy w' = up_policy w" "up_mode w' = up_mode w" "up_authReason w' = up_authReason w"
    "up_backoff w' = up_backoff w" "up_invRunning w' = up_invRunning w"
  using core_fields [OF core_loadConfig [OF assms]] by simp_all

lemma tick_fields [simp]:
  "up_client (tick w) = up_client w" "queues (tick w) = queues w" "up_events (tick w) = up_events w"
  "up_metrics (tick w) = up_metrics w" "up_sessions (tick w) = up_sessions w" "up_counters (tick w) = up_counters w"
  "up_policy (tick w) = up_policy w" "up_mode (tick w) = up_mode w" "up_authReason (tick w) = up_authReason w"
  "up_backoff (tick w) = up_backoff w" "up_invRunning (tick w) = up_invRunning w"
  by (simp_all add: tick_def queues_def)

lemma counter_fields [simp]:
  "up_client (addCounter a n w) = up_client w" "up_client (setCounter a n w) = up_client w"
  "queues (addCounter a n w) = queues w" "queues (setCounter a n w) = queues w"
  "up_mode (addCounter a n w) = up_mode w" "up_mode (setCounter a n w) = up_mode w"
  "up_policy (addCounter a n w) = up_policy w" "up_policy (setCounter a n w) = up_policy w"
  "up_backoff (addCounter a n w) = up_backoff w" "up_backoff (setCounter a n w) = up_backoff w"
  "up_authReason (addCounter a n w) = up_authReason w" "up_authReason (setCounter a n w) = up_authReason w"
  by (simp_all add: addCounter_def setCounter_def queues_def)

lemma setNow_fields [simp]:
  "up_client (setNow U a w) = up_client w" "queues (setNow U a w) = queues w" "up_mode (setNow U a w) = up_mode w"
  "up_policy (setNow U a w) = up_policy w" "up_backoff (setNow U a w) = up_backoff w"
  "up_authReason (setNow U a w) = up_authReason w"
  by (simp_all add: setNow_def)

lemma queues_updates [simp]:
  "queues (w\<lparr>up_client := c\<rparr>) = queues w" "queues (w\<lparr>up_policy := p\<rparr>) = queues w"
  "queues (w\<lparr>up_backoff := b\<rparr>) = queues w" "queues (w\<lparr>up_mode := m\<rparr>) = queues w"
  "queues (w\<lparr>up_authReason := a\<rparr>) = queues w" "queues (w\<lparr>up_trigger := t\<rparr>) = queues w"
  "queues (w\<lparr>up_invRunning := x\<rparr>) = queues w" "queues (w\<lparr>up_invCancel := x\<rparr>) = queues w"
  "queues (w\<lparr>up_counters := x1\<rparr>) = queues w" "queues (w\<lparr>up_invCancelled := x\<rparr>) = queues w" "queues (w\<lparr>up_invNext := y\<rparr>) = queues w"
  by (simp_all add: queues_def)

lemma onFlushSuccess_fields [simp]:
  "up_client (onFlushSuccess w) = up_client w" "queues (onFlushSuccess w) = queues w"
  "up_mode (onFlushSuccess w) = up_mode w" "up_policy (onFlushSuccess w) = up_policy w"
  "up_backoff (onFlushSuccess w) = 0" "up_counters (onFlushSuccess w) = up_counters w"
  "up_authReason (onFlushSuccess w) = up_authReason w"
  by (simp_all add: onFlushSuccess_def queues_def)

lemma queuesD: "queues w' = queues w \<Longrightarrow>
    up_events w' = up_events w \<and> up_metrics w' = up_metrics w \<and> up_sessions w' = up_sessions w"
  by (simp add: queues_def)

lemma enter_fields [simp]:
  "queues (enterDegraded U r w) = queues w" "queues (enterActive U w) = queues w"
  "up_client (enterDegraded U r w) = up_client w" "up_client (enterActive U w) = up_client w"
  "up_mode (enterDegraded U r w) = StateDegraded" "up_mode (enterActive U w) = StateActive"
  "up_authReason (enterDegraded U r w) = r" "up_authReason (enterActive U w) = []"
  "up_backoff (enterDegraded U r w) = up_backoff w" "up_backoff (enterActive U w) = 0"
  "up_policy (enterDegraded U r w) = up_policy w" "up_policy (enterActive U w) = up_policy w"
  "up_counters (enterDegraded U r w) = counter_set (up_counters w) cAuthFailed 1"
  "up_counters (enterActive U w) = counter_set (up_counters w) cAuthFailed 0"
  by (simp_all add: enterDegraded_def enterActive_def Let_def setCounter_def)

subsection \<open>The trace of requests\<close>

text \<open>Between \<open>w\<close> and \<open>w'\<close> the client sent only requests that satisfy \<open>Q\<close>.\<close>

definition sends :: "(request \<Rightarrow> bool) \<Rightarrow> uploader \<Rightarrow> uploader \<Rightarrow> bool" where
  "sends Q w w' \<longleftrightarrow> (\<exists>reqs. cl_sent (up_client w') = cl_sent (up_client w) @ reqs \<and> (\<forall>req \<in> set reqs. Q req))"

text \<open>One of them satisfied \<open>Q\<close> and was answered with a 200.\<close>

definition answered :: "up_env \<Rightarrow> (request \<Rightarrow> bool) \<Rightarrow> uploader \<Rightarrow> uploader \<Rightarrow> bool" where
  "answered U Q w w' \<longleftrightarrow> (\<exists>i b. cl_calls (up_client w) \<le> i \<and> i < cl_calls (up_client w')
     \<and> Q (cl_sent (up_client w') ! i)
     \<and> net_reply (ue_net U) i (cl_sent (up_client w') ! i) = Reply 200 b)"

lemma sends_client: "up_client w' = up_client w \<Longrightarrow> sends Q w w'"
  by (simp add: sends_def)

lemma sends_trans [trans]: "sends Q a b \<Longrightarrow> sends Q b c \<Longrightarrow> sends Q a c"
  by (auto simp: sends_def)

lemma sends_mono: "sends Q a b \<Longrightarrow> (\<And>req. Q req \<Longrightarrow> Q' req) \<Longrightarrow> sends Q' a b"
  by (auto simp: sends_def)

lemma sends_calls: "sends Q a b \<Longrightarrow> cl_calls (up_client a) \<le> cl_calls (up_client b)"
  by (auto simp: sends_def cl_calls_def)

lemma answered_extend:
  assumes "sends Q0 a b" "answered U Q b c" "sends Q1 c d"
  shows "answered U Q a d"
proof -
  from assms(2) obtain i b' where i: "cl_calls (up_client b) \<le> i" "i < cl_calls (up_client c)"
    "Q (cl_sent (up_client c) ! i)" "net_reply (ue_net U) i (cl_sent (up_client c) ! i) = Reply 200 b'"
    by (auto simp: answered_def)
  from assms(3) obtain reqs where reqs: "cl_sent (up_client d) = cl_sent (up_client c) @ reqs"
    by (auto simp: sends_def)
  with i(2) have "cl_sent (up_client d) ! i = cl_sent (up_client c) ! i"
    by (simp add: cl_calls_def nth_append)
  with i sends_calls [OF assms(1)] sends_calls [OF assms(3)] show ?thesis
    unfolding answered_def by (intro exI [of _ i] exI [of _ b']) auto
qed

lemma sends_refl [simp]: "sends Q w w" by (simp add: sends_client)

lemma answered_sends: "answered U Q w w' \<Longrightarrow> up_client w'' = up_client w' \<Longrightarrow> answered U Q w w''"
  by (simp add: answered_def)

text \<open>The requests of an endpoint called on the uploader's client.\<close>

lemma call_postJSON:
  assumes "call (postJSON (ue_net U) path p dec) w = (r, w')"
  shows "sends (\<lambda>req. rq_Path req = path \<and> rq_Payload req = Some p \<and> rq_Key req = Some (cl_key (up_client w))) w w'"
    and "cl_key (up_client w') = cl_key (up_client w)"
    and "\<exists>c. w' = w\<lparr>up_client := c\<rparr>"
    and "r = Inr v \<Longrightarrow> answered U (\<lambda>req. rq_Path req = path \<and> rq_Payload req = Some p
      \<and> rq_Key req = Some (cl_key (up_client w))) w w'"
proof -
  obtain c where c: "postJSON (ue_net U) path p dec (up_client w) = (r, c)" "w' = w\<lparr>up_client := c\<rparr>"
    using assms by (auto simp: call_def split: prod.splits)
  obtain reqs where reqs: "cl_sent c = cl_sent (up_client w) @ reqs" "cl_key c = cl_key (up_client w)"
    "\<And>req. req \<in> set reqs \<Longrightarrow> rq_Path req = path \<and> rq_Payload req = Some p \<and> rq_Key req = Some (cl_key (up_client w))"
    "\<And>v. r = Inr v \<Longrightarrow> reqs \<noteq> [] \<and> (\<exists>b. net_reply (ue_net U) (cl_calls c - 1) (last reqs) = Reply 200 b)"
    using postJSON_trace [OF c(1)] by metis
  show "sends (\<lambda>req. rq_Path req = path \<and> rq_Payload req = Some p \<and> rq_Key req = Some (cl_key (up_client w))) w w'"
    "cl_key (up_client w') = cl_key (up_client w)" "\<exists>c. w' = w\<lparr>up_client := c\<rparr>"
    using reqs c(2) by (auto simp: sends_def)
  show "answered U (\<lambda>req. rq_Path req = path \<and> rq_Payload req = Some p
      \<and> rq_Key req = Some (cl_key (up_client w))) w w'" if r: "r = Inr v"
  proof -
    from reqs(4) [OF r] obtain b where b: "reqs \<noteq> []"
      "net_reply (ue_net U) (cl_calls c - 1) (last reqs) = Reply 200 b" by blast
    obtain rs req where rs: "reqs = rs @ [req]" using b(1) by (cases reqs rule: rev_cases) auto
    have n: "cl_calls c = Suc (cl_calls (up_client w) + length rs)"
      using reqs(1) rs by (simp add: cl_calls_def)
    have req: "cl_sent c ! (cl_calls (up_client w) + length rs) = req"
      using reqs(1) rs by (simp add: cl_calls_def nth_append)
    show ?thesis
      unfolding answered_def c(2)
      using b(2) reqs(3) [of req] rs n req
      by (intro exI [of _ "cl_calls (up_client w) + length rs"] exI [of _ b]) simp
  qed
qed

subsection \<open>Rotation and recovery\<close>

abbreviation heartbeat_path :: string where "heartbeat_path \<equiv> ''/ingest/v1/heartbeat''"
abbreviation rotate_path :: string where "rotate_path \<equiv> ''/ingest/v1/keys/rotate''"

text \<open>A request that carries no collected data, and a heartbeat under a key.\<close>

definition control :: "request \<Rightarrow> bool" where
  "control req \<longleftrightarrow> rq_Path req = heartbeat_path \<or> rq_Path req = rotate_path"

definition heartbeat_under :: "string \<Rightarrow> request \<Rightarrow> bool" where
  "heartbeat_under key req \<longleftrightarrow> rq_Path req = heartbeat_path \<and> rq_Key req = Some key"

lemma heartbeat_control: "heartbeat_under key req \<Longrightarrow> control req"
  by (simp add: heartbeat_under_def control_def)

lemma answered_mono: "answered U Q a b \<Longrightarrow> (\<And>req. Q req \<Longrightarrow> Q' req) \<Longrightarrow> answered U Q' a b"
  by (auto simp: answered_def)

lemma call_Heartbeat:
  assumes "call (Heartbeat (ue_net U) n tel) w = (r, w')"
  shows "sends (heartbeat_under (cl_key (up_client w))) w w'"
    and "cl_key (up_client w') = cl_key (up_client w)"
    and "\<exists>c. w' = w\<lparr>up_client := c\<rparr>"
    and "r = Inr out \<Longrightarrow> answered U (heartbeat_under (cl_key (up_client w))) w w'"
proof -
  have eq: "Heartbeat (ue_net U) n tel = postJSON (ue_net U) heartbeat_path (P_Heartbeat n tel) (into dec_heartbeat)"
    by (simp add: fun_eq_iff Heartbeat_def)
  note c = call_postJSON [OF assms [unfolded eq]]
  show "sends (heartbeat_under (cl_key (up_client w))) w w'"
    using c(1) by (rule sends_mono) (simp add: heartbeat_under_def)
  show "cl_key (up_client w') = cl_key (up_client w)" "\<exists>c. w' = w\<lparr>up_client := c\<rparr>" by (fact c)+
  show "answered U (heartbeat_under (cl_key (up_client w))) w w'" if "r = Inr out"
    using c(4) [OF that] by (rule answered_mono) (simp add: heartbeat_under_def)
qed

lemma call_RotateKey:
  fixes U :: up_env
  assumes "call (RotateKey (ue_net U)) w = (r, w')"
  shows "sends (\<lambda>req. rq_Path req = rotate_path \<and> rq_Key req = Some (cl_key (up_client w))) w w'"
    and "cl_key (up_client w') = cl_key (up_client w)" and "\<exists>c. w' = w\<lparr>up_client := c\<rparr>"
proof -
  have eq: "RotateKey (ue_net U) = postJSON (ue_net U) rotate_path P_Rotate (into dec_rotate)"
    by (simp add: fun_eq_iff RotateKey_def)
  note c = call_postJSON [OF assms [unfolded eq]]
  show "sends (\<lambda>req. rq_Path req = rotate_path \<and> rq_Key req = Some (cl_key (up_client w))) w w'"
    using c(1) by (rule sends_mono) simp
  show "cl_key (up_client w') = cl_key (up_client w)" "\<exists>c. w' = w\<lparr>up_client := c\<rparr>" by (fact c)+
qed

text \<open>What the rotation and recovery operations leave alone.\<close>

definition same_state :: "uploader \<Rightarrow> uploader \<Rightarrow> bool" where
  "same_state w w' \<longleftrightarrow> queues w' = queues w \<and> up_policy w' = up_policy w \<and> up_mode w' = up_mode w
     \<and> up_authReason w' = up_authReason w \<and> up_backoff w' = up_backoff w \<and> up_counters w' = up_counters w"

lemma same_state_trans: "same_state a b \<Longrightarrow> same_state b c \<Longrightarrow> same_state a c"
  by (simp add: same_state_def)

lemma same_state_simps [simp]:
  "same_state w w" "same_state w (mutateConfig U f w') = same_state w w'"
  "same_state w (w'\<lparr>up_client := c\<rparr>) = same_state w w'"
  "same_state w (tick w') = same_state w w'"
  by (simp_all add: same_state_def)

lemma same_state_load: "loadConfig U w = (r, w') \<Longrightarrow> same_state w w'"
  using loadConfig_fields [of U w r w'] by (simp add: same_state_def)

lemma verifyPendingKey_facts:
  assumes "verifyPendingKey U cfg w = (ok, w')"
  shows "same_state w w'"
    and "cl_key (up_client w') = (if ok then cfg_PendingKey cfg else cl_key (up_client w))"
    and "sends (heartbeat_under (cfg_PendingKey cfg)) w w'"
    and "ok \<Longrightarrow> answered U (heartbeat_under (cfg_PendingKey cfg)) w w'"
proof -
  define w0 where "w0 = w\<lparr>up_client := SetKey (cfg_PendingKey cfg) (up_client w)\<rparr>"
  obtain r w1 where hb: "call (Heartbeat (ue_net U) (ue_collectorID U) None) w0 = (r, w1)"
    by (metis prod.exhaust)
  note c = call_Heartbeat [OF hb]
  have key: "cl_key (up_client w0) = cfg_PendingKey cfg" by (simp add: w0_def SetKey_def)
  have sent: "cl_sent (up_client w0) = cl_sent (up_client w)" by (simp add: w0_def SetKey_def)
  have s1: "sends (heartbeat_under (cfg_PendingKey cfg)) w w1"
    using c(1) key sent by (simp add: sends_def)
  obtain c1 where w1: "w1 = w0\<lparr>up_client := c1\<rparr>" using c(3) by blast
  have same: "same_state w w1" by (simp add: w1 w0_def)
  have "same_state w w' \<and>
      cl_key (up_client w') = (if ok then cfg_PendingKey cfg else cl_key (up_client w)) \<and>
      sends (heartbeat_under (cfg_PendingKey cfg)) w w' \<and>
      (ok \<longrightarrow> answered U (heartbeat_under (cfg_PendingKey cfg)) w w')"
  proof (cases r)
    case (Inr out)
    then have w': "ok" "w' = mutateConfig U (commit_config cfg) w1"
      using assms hb by (simp_all add: verifyPendingKey_def Let_def w0_def commitPendingKey_def)
    have "answered U (heartbeat_under (cfg_PendingKey cfg)) w w'"
      using c(4) [OF Inr] key sent by (simp add: answered_def w'(2) cl_calls_def)
    with w' same c(2) key s1 show ?thesis
      by (simp add: sends_def)
  next
    case (Inl e)
    define w2 where "w2 = w1\<lparr>up_client := SetKey (cl_key (up_client w)) (up_client w1)\<rparr>"
    have w': "\<not> ok" "w' = w2 \<or> w' = mutateConfig U discard_pending w2"
      using assms hb Inl by (auto simp: verifyPendingKey_def Let_def w0_def w2_def split: if_splits)
    have "same_state w w2" using same by (simp add: w2_def)
    moreover have "cl_key (up_client w2) = cl_key (up_client w)" by (simp add: w2_def SetKey_def)
    moreover have "sends (heartbeat_under (cfg_PendingKey cfg)) w w2"
      using s1 by (simp add: sends_def w2_def SetKey_def)
    ultimately show ?thesis
      using w' by (auto simp: sends_def)
  qed
  then show "same_state w w'" "cl_key (up_client w') = (if ok then cfg_PendingKey cfg else cl_key (up_client w))"
    "sends (heartbeat_under (cfg_PendingKey cfg)) w w'"
    "ok \<Longrightarrow> answered U (heartbeat_under (cfg_PendingKey cfg)) w w'" by blast+
qed

text \<open>Leaving a field of the state untouched, over the calls that change the client.\<close>

lemma attemptRotate_facts:
  fixes U :: up_env
  shows "same_state w (attemptRotate U w)"
    and "cl_key (up_client (attemptRotate U w)) = cl_key (up_client w)"
    and "sends (\<lambda>req. rq_Path req = rotate_path \<and> rq_Key req = Some (cl_key (up_client w))) w (attemptRotate U w)"
proof -
  obtain r w1 where rot: "call (RotateKey (ue_net U)) w = (r, w1)" by (metis prod.exhaust)
  note c = call_RotateKey [OF rot]
  obtain c1 where w1: "w1 = w\<lparr>up_client := c1\<rparr>" using c(3) by blast
  obtain f where f: "attemptRotate U w = mutateConfig U f (tick w1)"
    by (cases r) (auto simp: attemptRotate_def rot Let_def recordFailedRotateAttempt_def)
  show "same_state w (attemptRotate U w)" by (simp add: f w1)
  show "cl_key (up_client (attemptRotate U w)) = cl_key (up_client w)" using c(2) by (simp add: f)
  show "sends (\<lambda>req. rq_Path req = rotate_path \<and> rq_Key req = Some (cl_key (up_client w))) w (attemptRotate U w)"
    using c(1) by (simp add: f sends_def)
qed

text \<open>The outcome of an attempt to recover: active on a pending key that a heartbeat has verified,
  or degraded on the key in use.\<close>

definition recovered :: "up_env \<Rightarrow> uploader \<Rightarrow> uploader \<Rightarrow> bool" where
  "recovered U w w' \<longleftrightarrow> up_mode w' = StateActive \<and> up_authReason w' = [] \<and> up_backoff w' = 0
     \<and> up_counters w' = counter_set (up_counters w) cAuthFailed 0 \<and> cl_key (up_client w') \<noteq> []
     \<and> answered U (heartbeat_under (cl_key (up_client w'))) w w'"

definition degraded :: "string \<Rightarrow> uploader \<Rightarrow> uploader \<Rightarrow> bool" where
  "degraded reason w w' \<longleftrightarrow> up_mode w' = StateDegraded \<and> up_authReason w' = reason
     \<and> up_counters w' = counter_set (up_counters w) cAuthFailed 1 \<and> up_backoff w' = up_backoff w
     \<and> cl_key (up_client w') = cl_key (up_client w)"

lemma enterDegraded_degraded:
  "same_state w w1 \<Longrightarrow> cl_key (up_client w1) = cl_key (up_client w) \<Longrightarrow> degraded r w (enterDegraded U r w1)"
  by (simp add: degraded_def same_state_def)

lemma recover_facts:
  fixes U :: up_env and w :: uploader
  defines "w' \<equiv> recoverViaPendingKeyOrDegrade U w"
  shows "recovered U w w' \<or> degraded CodeKeyInvalid w w'"
    and "queues w' = queues w" "up_policy w' = up_policy w" "sends control w w'"
proof -
  obtain r w1 where load: "loadConfig U w = (r, w1)" by (metis prod.exhaust)
  note w1 = same_state_load [OF load] loadConfig_fields(1) [OF load]
  have stop: "(recovered U w w' \<or> degraded CodeKeyInvalid w w') \<and> queues w' = queues w
      \<and> up_policy w' = up_policy w \<and> sends control w w'" if "w' = enterDegraded U CodeKeyInvalid w1"
    unfolding that using enterDegraded_degraded [OF w1(1), of CodeKeyInvalid U] w1
    by (auto simp: sends_def same_state_def)
  have "(recovered U w w' \<or> degraded CodeKeyInvalid w w') \<and> queues w' = queues w
      \<and> up_policy w' = up_policy w \<and> sends control w w'"
  proof (cases r)
    case (Some cfg)
    obtain ok w2 where ver: "verifyPendingKey U cfg w1 = (ok, w2)" by (metis prod.exhaust)
    note v = verifyPendingKey_facts [OF ver]
    have same: "same_state w w2" using w1(1) v(1) by (rule same_state_trans)
    have sent: "sends control w w2"
      using sends_mono [OF v(3), of control] heartbeat_control w1(2) by (auto simp: sends_def)
    show ?thesis
    proof (cases "cfg_PendingKey cfg = []")
      case False
      show ?thesis
      proof (cases ok)
        case True
        then have w': "w' = enterActive U w2"
          using False ver by (simp add: w'_def recoverViaPendingKeyOrDegrade_def load Some)
        have "answered U (heartbeat_under (cfg_PendingKey cfg)) w w'"
          using v(4) True w1(2) by (simp add: w' answered_def)
        with True v(2) False same have "recovered U w w'"
          by (simp add: recovered_def w' same_state_def)
        with sent same show ?thesis by (simp add: w' sends_def same_state_def)
      next
        case no: False
        then have w': "w' = enterDegraded U CodeKeyInvalid w2"
          using False ver by (simp add: w'_def recoverViaPendingKeyOrDegrade_def load Some)
        have "degraded CodeKeyInvalid w w'"
          unfolding w' by (rule enterDegraded_degraded [OF same]) (use v(2) no w1(2) in simp)
        with sent same show ?thesis by (simp add: w' sends_def same_state_def)
      qed
    qed (use stop in \<open>simp add: w'_def recoverViaPendingKeyOrDegrade_def load Some\<close>)
  qed (use stop in \<open>simp add: w'_def recoverViaPendingKeyOrDegrade_def load\<close>)
  then show "recovered U w w' \<or> degraded CodeKeyInvalid w w'"
    "queues w' = queues w" "up_policy w' = up_policy w" "sends control w w'" by blast+
qed

lemma recovered_before:
  "same_state a b \<Longrightarrow> sends Q a b \<Longrightarrow> recovered U b c \<Longrightarrow> recovered U a c"
  unfolding recovered_def using answered_extend [of Q a b U _ c control c]
  by (auto simp: same_state_def)

lemma degraded_before:
  "same_state a b \<Longrightarrow> cl_key (up_client b) = cl_key (up_client a) \<Longrightarrow> degraded r b c \<Longrightarrow> degraded r a c"
  by (simp add: degraded_def same_state_def)

lemma handleAuthError_facts:
  fixes U :: up_env and w :: uploader and code :: string
  defines "w' \<equiv> handleAuthError U code w"
  shows "if code \<in> {CodeKeyRotated, CodeKeyExpired} then recovered U w w' \<or> degraded CodeKeyInvalid w w'
      else degraded code w w' \<and> up_client w' = up_client w"
    and "queues w' = queues w" "up_policy w' = up_policy w" "sends control w w'"
proof -
  note r = recover_facts [where U = U and w = w] and a = attemptRotate_facts [where U = U and w = w]
    and ra = recover_facts [where U = U and w = "attemptRotate U w"]
  have s: "sends control w (attemptRotate U w)"
    using a(3) by (rule sends_mono) (simp add: control_def)
  have "(if code \<in> {CodeKeyRotated, CodeKeyExpired} then recovered U w w' \<or> degraded CodeKeyInvalid w w'
      else degraded code w w' \<and> up_client w' = up_client w)
    \<and> queues w' = queues w \<and> up_policy w' = up_policy w \<and> sends control w w'"
  proof (cases "code \<in> {CodeKeyRotated, CodeKeyExpired}")
    case False
    then have w': "w' = enterDegraded U code w" by (simp add: w'_def handleAuthError_def)
    with False show ?thesis using enterDegraded_degraded [of w w code U] by (simp add: sends_client)
  next
    case True
    show ?thesis
    proof (cases "code = CodeKeyRotated")
      case rot: True
      then have "w' = recoverViaPendingKeyOrDegrade U w" by (simp add: w'_def handleAuthError_def)
      with r rot show ?thesis by simp
    next
      case False
      with True have w': "w' = recoverViaPendingKeyOrDegrade U (attemptRotate U w)"
        by (simp add: w'_def handleAuthError_def)
      have "recovered U w w' \<or> degraded CodeKeyInvalid w w'"
        using ra(1) recovered_before [OF a(1) a(3)] degraded_before [OF a(1,2)] by (auto simp: w')
      moreover have "sends control w w'" using sends_trans [OF s ra(4)] by (simp add: w')
      ultimately show ?thesis using True ra(2,3) a(1) by (simp add: w' same_state_def)
    qed
  qed
  then show "if code \<in> {CodeKeyRotated, CodeKeyExpired} then recovered U w w' \<or> degraded CodeKeyInvalid w w'
      else degraded code w w' \<and> up_client w' = up_client w"
    "queues w' = queues w" "up_policy w' = up_policy w" "sends control w w'" by blast+
qed

lemma handleSendError_facts:
  fixes U :: up_env and w :: uploader and e :: api_error
  defines "w' \<equiv> handleSendError U e w"
  shows "queues w' = queues w" "up_policy w' = up_policy w" "sends control w w'"
  using handleAuthError_facts(2,3,4) [where U = U and w = w]
  by (auto simp: w'_def handleSendError_def widenBackoff_def sends_client split: option.splits)

subsection \<open>Draining\<close>

text \<open>What a flush owes a queue: every entry that was undelivered still is, or a request that
  carried it was answered with a 200.\<close>

definition delivers ::
    "up_env \<Rightarrow> ('x \<Rightarrow> request \<Rightarrow> bool) \<Rightarrow> (uploader \<Rightarrow> 'x set) \<Rightarrow> uploader \<Rightarrow> uploader \<Rightarrow> bool" where
  "delivers U carries und w w' \<longleftrightarrow> sends (\<lambda>_. True) w w'
     \<and> (\<forall>x \<in> und w. x \<in> und w' \<or> answered U (carries x) w w')"

lemma delivers_same: "up_client w' = up_client w \<Longrightarrow> und w \<subseteq> und w' \<Longrightarrow> delivers U carries und w w'"
  by (auto simp: delivers_def sends_client)

lemma delivers_trans:
  assumes "delivers U carries und a b" "delivers U carries und b c"
  shows "delivers U carries und a c"
proof -
  note ab = assms(1) [unfolded delivers_def] and bc = assms(2) [unfolded delivers_def]
  have "x \<in> und c \<or> answered U (carries x) a c" if x: "x \<in> und a" for x
  proof (cases "x \<in> und b")
    case True
    with bc answered_extend [of "\<lambda>_. True" a b U "carries x" c "\<lambda>_. True" c] ab show ?thesis by auto
  next
    case False
    with ab x have "answered U (carries x) a b" by blast
    with answered_extend [of "\<lambda>_. True" a a U "carries x" b "\<lambda>_. True" c] bc show ?thesis by auto
  qed
  with sends_trans ab bc show ?thesis by (auto simp: delivers_def)
qed

text \<open>The rule for a flush that returns: a transitive relation that every round has, and the end
  of the loop too.\<close>

lemma flush_loop_rule:
  fixes lease :: "uploader \<Rightarrow> (queue_error + 'a list) \<times> uploader"
  assumes flush: "flush_loop lease send w = Some w'" and inv: "I w"
    and fail: "\<And>w e w1. I w \<Longrightarrow> lease w = (Inl e, w1) \<Longrightarrow> R w (addCounter cUploadErrors 1 w1)"
    and empty: "\<And>w w1. I w \<Longrightarrow> lease w = (Inr [], w1) \<Longrightarrow> R w (onFlushSuccess w1)"
    and stop: "\<And>w items w1 w2. I w \<Longrightarrow> lease w = (Inr items, w1) \<Longrightarrow> items \<noteq> [] \<Longrightarrow>
      send items w1 = (False, w2) \<Longrightarrow> R w w2"
    and round: "\<And>w items w1 w2. I w \<Longrightarrow> lease w = (Inr items, w1) \<Longrightarrow> items \<noteq> [] \<Longrightarrow>
      send items w1 = (True, w2) \<Longrightarrow> I w2 \<and> R w w2"
    and trans: "\<And>a b c. R a b \<Longrightarrow> R b c \<Longrightarrow> R a c"
  shows "R w w'"
proof -
  have "lease = lease \<longrightarrow> send = send \<longrightarrow> I w \<longrightarrow> R w w'"
  proof (rule flush_loop.raw_induct [where P = "\<lambda>l s w y. l = lease \<longrightarrow> s = send \<longrightarrow> I w \<longrightarrow> R w y", OF _ flush])
    fix loop and l :: "uploader \<Rightarrow> (queue_error + 'a list) \<times> uploader" and s w y
    assume IH: "\<And>l s w y. loop l s w = Some y \<Longrightarrow> l = lease \<longrightarrow> s = send \<longrightarrow> I w \<longrightarrow> R w y"
      and body: "(case l w of (Inl e, w) \<Rightarrow> Some (addCounter cUploadErrors 1 w)
        | (Inr items, w) \<Rightarrow> if items = [] then Some (onFlushSuccess w)
            else (case s items w of (ok, w) \<Rightarrow> if ok then loop l s w else Some w)) = Some y"
    show "l = lease \<longrightarrow> s = send \<longrightarrow> I w \<longrightarrow> R w y"
    proof (intro impI)
      assume eq: "l = lease" "s = send" and I: "I w"
      obtain r w1 where lease: "lease w = (r, w1)" by (metis prod.exhaust)
      show "R w y"
      proof (cases r)
        case (Inl e)
        then show ?thesis using body fail [OF I] lease eq by simp
      next
        case (Inr items)
        obtain ok w2 where send: "send items w1 = (ok, w2)" by (metis prod.exhaust)
        show ?thesis
        proof (cases "items = []")
          case True
          then show ?thesis using body empty [OF I] lease eq Inr by simp
        next
          case False
          note lease' = lease [unfolded Inr]
          show ?thesis
          proof (cases ok)
            case True
            with body lease' send False eq have "loop l s w2 = Some y" by simp
            then have "I w2 \<longrightarrow> R w2 y" using IH eq by blast
            with round [OF I lease' False, of w2] send True show ?thesis using trans [of w w2 y] by simp
          next
            case no: False
            with body lease' send False eq have "y = w2" by simp
            with stop [OF I lease' False] send no show ?thesis by simp
          qed
        qed
      qed
    qed
  qed
  with inv show ?thesis by blast
qed

lemma flush_loop_total:
  assumes inv: "I w"
    and round: "\<And>w items w1 w2. I w \<Longrightarrow> lease w = (Inr items, w1) \<Longrightarrow> items \<noteq> [] \<Longrightarrow>
      send items w1 = (True, w2) \<Longrightarrow> I w2 \<and> m w2 < (m w :: nat)"
  shows "\<exists>w'. flush_loop lease send w = Some w'"
  using inv
proof (induction "m w" arbitrary: w rule: less_induct)
  case less
  obtain r w1 where lease: "lease w = (r, w1)" by (metis prod.exhaust)
  show ?case
  proof (cases r)
    case (Inr items)
    obtain ok w2 where send: "send items w1 = (ok, w2)" by (metis prod.exhaust)
    show ?thesis
    proof (cases "items \<noteq> [] \<and> ok")
      case True
      with round [OF less(2), of items w1 w2] lease Inr send have "I w2" "m w2 < m w" by simp_all
      from less(1) [OF this(2,1)] show ?thesis
        using True lease Inr send by (subst flush_loop.simps) simp
    qed (use lease Inr send in \<open>subst flush_loop.simps, auto\<close>)
  qed (use lease in \<open>subst flush_loop.simps, simp\<close>)
qed

text \<open>The two facts about any queue that keeps the contract.\<close>

context delivery_queue begin

lemma flush_delivers:
  fixes get :: "uploader \<Rightarrow> 'q" and lease_op :: "uploader \<Rightarrow> (queue_error + 'i list) \<times> uploader"
  assumes flush: "flush_loop lease_op send_op w = Some w'" and ok: "ok (get w)"
    and lease_op: "\<And>w r w1. lease_op w = (r, w1) \<Longrightarrow>
      up_client w1 = up_client w \<and> (\<exists>E n d. lease E n d (get w) = (r, get w1))"
    and send_op: "\<And>items w b w1. items \<noteq> [] \<Longrightarrow> send_op items w = (b, w1) \<Longrightarrow> sends (\<lambda>_. True) w w1 \<and>
      ((\<exists>E. get w1 = snd (ack E (map key items) (get w)) \<and> (\<forall>i \<in> set items. answered U (carries (key i, val i)) w w1))
       \<or> (\<exists>E. get w1 = snd (nack E (map key items) (get w))))"
    and get: "\<And>w c n. get (addCounter c n w) = get w" "\<And>w. get (onFlushSuccess w) = get w"
  shows "delivers U carries (\<lambda>w. undelivered (get w)) w w' \<and> ok (get w')"
proof -
  let ?R = "\<lambda>w w'. ok (get w) \<longrightarrow> delivers U carries (\<lambda>w. undelivered (get w)) w w' \<and> ok (get w')"
  have quiet: "up_client w1 = up_client w \<and> undelivered (get w1) = undelivered (get w) \<and> ok (get w1)"
    if I: "ok (get w)" and l: "lease_op w = (r, w1)" for w r w1
  proof -
    from lease_op [OF l] obtain E n d where "up_client w1 = up_client w" "lease E n d (get w) = (r, get w1)" by blast
    with lease_keeps [OF I, of E n d] lease_ok [OF I, of E n d] show ?thesis by simp
  qed
  have round: "delivers U carries (\<lambda>w. undelivered (get w)) w w2 \<and> ok (get w2)"
    if I: "ok (get w)" and l: "lease_op w = (Inr items, w1)" and ne: "items \<noteq> []" and s: "send_op items w1 = (b, w2)"
    for w items w1 b w2
  proof -
    from lease_op [OF l] obtain E n d where l': "up_client w1 = up_client w" "lease E n d (get w) = (Inr items, get w1)"
      by blast
    note q = quiet [OF I l]
    have sent: "sends (\<lambda>_. True) w w2" using send_op [OF ne s] l'(1) by (simp add: sends_def)
    have ext: "answered U Q w w2" if "answered U Q w1 w2" for Q
      using that l'(1) by (simp add: answered_def)
    consider (acked) E' where "get w2 = snd (ack E' (map key items) (get w1))"
        "\<forall>i \<in> set items. answered U (carries (key i, val i)) w1 w2"
      | (nacked) E' where "get w2 = snd (nack E' (map key items) (get w1))"
      using send_op [OF ne s] by blast
    then show ?thesis
    proof cases
      case acked
      have "x \<in> undelivered (get w2) \<or> answered U (carries x) w w2" if "x \<in> undelivered (get w)" for x
        using round_keeps(2) [OF I l'(2) that, of E'] acked ext by auto
      with sent show ?thesis using ack_ok q acked(1) by (auto simp: delivers_def)
    next
      case nacked
      have "x \<in> undelivered (get w2)" if "x \<in> undelivered (get w)" for x
        using round_keeps(1) [OF I l'(2) that, of E'] nacked by simp
      with sent show ?thesis using nack_ok q nacked by (auto simp: delivers_def)
    qed
  qed
  have "?R w w'"
  proof (rule flush_loop_rule [where I = "\<lambda>w. ok (get w)" and R = ?R, OF flush ok])
    show "?R w (addCounter cUploadErrors 1 w1)" if "ok (get w)" "lease_op w = (Inl e, w1)" for w e w1
      using quiet [OF that] by (simp add: delivers_same get)
    show "?R w (onFlushSuccess w1)" if "ok (get w)" "lease_op w = (Inr [], w1)" for w w1
      using quiet [OF that] by (simp add: delivers_same get)
    show "?R w w2" if "ok (get w)" "lease_op w = (Inr items, w1)" "items \<noteq> []" "send_op items w1 = (False, w2)"
      for w items w1 w2 using round [OF that] by blast
    show "ok (get w2) \<and> ?R w w2" if "ok (get w)" "lease_op w = (Inr items, w1)" "items \<noteq> []" "send_op items w1 = (True, w2)"
      for w items w1 w2 using round [OF that] by blast
    show "?R a c" if "?R a b" "?R b c" for a b c
      using that delivers_trans [of U carries "\<lambda>w. undelivered (get w)" a b c] by blast
  qed
  with ok show ?thesis by blast
qed

text \<open>A whole flush, with what it leaves of the other queues.\<close>

lemma flush_once:
  fixes get :: "uploader \<Rightarrow> 'q" and lease_op :: "uploader \<Rightarrow> (queue_error + 'i list) \<times> uploader"
    and other :: "uploader \<Rightarrow> 'o"
  assumes flush: "(if up_mode w \<noteq> StateActive then Some w else flush_loop lease_op send_op w) = Some w'"
    and ok: "ok (get w)"
    and lease_op: "\<And>w r w1. lease_op w = (r, w1) \<Longrightarrow>
      up_client w1 = up_client w \<and> (\<exists>E n d. lease E n d (get w) = (r, get w1)) \<and> other w1 = other w"
    and send_op: "\<And>items w b w1. send_op items w = (b, w1) \<Longrightarrow> sends (\<lambda>_. True) w w1 \<and> other w1 = other w \<and>
      (\<exists>E. get w1 = snd ((if b then ack else nack) E (map key items) (get w)))
      \<and> (b \<longrightarrow> (\<forall>i \<in> set items. answered U (carries (key i, val i)) w w1))"
    and get: "\<And>w c n. get (addCounter c n w) = get w" "\<And>w. get (onFlushSuccess w) = get w"
    and other: "\<And>w c n. other (addCounter c n w) = other w" "\<And>w. other (onFlushSuccess w) = other w"
  shows "delivers U carries (\<lambda>w. undelivered (get w)) w w' \<and> ok (get w') \<and> other w' = other w"
proof (cases "up_mode w = StateActive")
  case False
  with flush ok show ?thesis by (simp add: delivers_same)
next
  case True
  with flush have loop: "flush_loop lease_op send_op w = Some w'" by simp
  have "other w' = other w"
    by (rule flush_loop_rule [where I = "\<lambda>_. True" and R = "\<lambda>w w'. other w' = other w", OF loop])
       (auto dest!: lease_op send_op simp: other)
  moreover have "delivers U carries (\<lambda>w. undelivered (get w)) w w' \<and> ok (get w')"
  proof (rule flush_delivers [where get = get, OF loop ok _ _ get])
    show "up_client w1 = up_client w \<and> (\<exists>E n d. lease E n d (get w) = (r, get w1))"
      if "lease_op w = (r, w1)" for w r w1 using lease_op [OF that] by blast
    show "sends (\<lambda>_. True) w w1 \<and> ((\<exists>E. get w1 = snd (ack E (map key items) (get w))
        \<and> (\<forall>i \<in> set items. answered U (carries (key i, val i)) w w1))
      \<or> (\<exists>E. get w1 = snd (nack E (map key items) (get w))))"
      if "items \<noteq> []" "send_op items w = (b, w1)" for items w b w1
      using send_op [OF that(2)] by (cases b) auto
  qed
  ultimately show ?thesis by blast
qed

lemma flush_ends:
  fixes get :: "uploader \<Rightarrow> 'q" and lease_op :: "uploader \<Rightarrow> (queue_error + 'i list) \<times> uploader"
  assumes ok: "ok (get w)"
    and lease_op: "\<And>w r w1. lease_op w = (r, w1) \<Longrightarrow> \<exists>E n d. lease E n d (get w) = (r, get w1)"
    and send_op: "\<And>items w w1. items \<noteq> [] \<Longrightarrow> send_op items w = (True, w1) \<Longrightarrow>
      \<exists>E. ack E (map key items) (get w) = (Inr (), get w1)"
  shows "\<exists>w'. flush_loop lease_op send_op w = Some w'"
proof (rule flush_loop_total [where I = "\<lambda>w. ok (get w)" and m = "\<lambda>w. card (undelivered (get w))"])
  show "ok (get w)" by (rule ok)
  fix w items w1 w2
  assume I: "ok (get w)" and l: "lease_op w = (Inr items, w1)" and ne: "items \<noteq> []"
    and s: "send_op items w1 = (True, w2)"
  from lease_op [OF l] obtain E n d where l': "lease E n d (get w) = (Inr items, get w1)" by blast
  from send_op [OF ne s] obtain E' where a: "ack E' (map key items) (get w1) = (Inr (), get w2)" by blast
  have "ok (get w2)" using ack_ok [of "get w1" E' "map key items"] lease_ok [OF I, of E n d] l' a by simp
  then show "ok (get w2) \<and> card (undelivered (get w2)) < card (undelivered (get w))"
    using round_progress [OF I l' ne a] by simp
qed

end

subsection \<open>The three flushes\<close>

text \<open>An endpoint that refuses a batch over its limit.\<close>

lemma call_limited:
  assumes "call (\<lambda>c. if B then (Inl e, c) else postJSON (ue_net U) path p dec c) w = (r, w')"
  shows "sends (\<lambda>req. rq_Path req = path \<and> rq_Payload req = Some p) w w'"
    and "\<exists>c. w' = w\<lparr>up_client := c\<rparr>"
    and "r = Inr v \<Longrightarrow> answered U (\<lambda>req. rq_Path req = path \<and> rq_Payload req = Some p) w w'"
proof -
  have "sends (\<lambda>req. rq_Path req = path \<and> rq_Payload req = Some p) w w' \<and> (\<exists>c. w' = w\<lparr>up_client := c\<rparr>)
    \<and> (\<forall>v. r = Inr v \<longrightarrow> answered U (\<lambda>req. rq_Path req = path \<and> rq_Payload req = Some p) w w')"
  proof (cases B)
    case True
    with assms have "r = Inl e" "w' = w\<lparr>up_client := up_client w\<rparr>" by (simp_all add: call_def)
    then show ?thesis by (intro conjI exI [of _ "up_client w"]) simp_all
  next
    case False
    with assms have c: "call (postJSON (ue_net U) path p dec) w = (r, w')" by (simp add: call_def)
    note cp = call_postJSON [OF c]
    have "sends (\<lambda>req. rq_Path req = path \<and> rq_Payload req = Some p) w w'"
      using cp(1) by (rule sends_mono) simp
    moreover have "answered U (\<lambda>req. rq_Path req = path \<and> rq_Payload req = Some p) w w'" if "r = Inr v" for v
      using cp(4) [OF that] by (rule answered_mono) simp
    ultimately show ?thesis using cp(3) by blast
  qed
  then show "sends (\<lambda>req. rq_Path req = path \<and> rq_Payload req = Some p) w w'" "\<exists>c. w' = w\<lparr>up_client := c\<rparr>"
    "r = Inr v \<Longrightarrow> answered U (\<lambda>req. rq_Path req = path \<and> rq_Payload req = Some p) w w'" by blast+
qed

lemma on_events_facts:
  assumes "on_events U f w = (r, w')"
  shows "f (q_at U w) (up_events w) = (r, up_events w')" "up_client w' = up_client w"
    "up_metrics w' = up_metrics w" "up_sessions w' = up_sessions w" "up_mode w' = up_mode w"
    "up_backoff w' = up_backoff w" "up_policy w' = up_policy w"
  using assms by (auto simp: on_events_def tick_def split: prod.splits)

lemma on_metrics_facts:
  assumes "on_metrics U f w = (r, w')"
  shows "f (q_at U w) (up_metrics w) = (r, up_metrics w')" "up_client w' = up_client w"
    "up_events w' = up_events w" "up_sessions w' = up_sessions w" "up_mode w' = up_mode w"
    "up_backoff w' = up_backoff w" "up_policy w' = up_policy w"
  using assms by (auto simp: on_metrics_def tick_def split: prod.splits)

lemma on_sessions_facts:
  assumes "on_sessions U f w = (r, w')"
  shows "f (q_at U w) (up_sessions w) = (r, up_sessions w')" "up_client w' = up_client w"
    "up_events w' = up_events w" "up_metrics w' = up_metrics w" "up_mode w' = up_mode w"
    "up_backoff w' = up_backoff w" "up_policy w' = up_policy w"
  using assms by (auto simp: on_sessions_def tick_def split: prod.splits)

lemma onUploadSuccess_fields [simp]:
  "up_client (onUploadSuccess U ct w) = up_client w" "queues (onUploadSuccess U ct w) = queues w"
  "up_mode (onUploadSuccess U ct w) = up_mode w" "up_backoff (onUploadSuccess U ct w) = up_backoff w"
  by (simp_all add: onUploadSuccess_def)

text \<open>A request that carries an entry of each queue.\<close>

definition carries_event :: "int \<times> string \<times> normalized_event \<Rightarrow> request \<Rightarrow> bool" where
  "carries_event x req \<longleftrightarrow> rq_Path req = ''/ingest/v1/events'' \<and> (case x of (i, key, ev) \<Rightarrow>
     \<exists>n v evs. rq_Payload req = Some (P_Events n v evs) \<and> ev\<lparr>ev_EventID := Some key\<rparr> \<in> set evs)"

definition carries_metric :: "int \<times> string \<times> metric_point \<Rightarrow> request \<Rightarrow> bool" where
  "carries_metric x req \<longleftrightarrow> rq_Path req = ''/ingest/v1/metrics'' \<and> (case x of (i, key, p) \<Rightarrow>
     \<exists>n ps. rq_Payload req = Some (P_Metrics n ps)
       \<and> (if key = [] then p else p\<lparr>mp_PointID := Some key\<rparr>) \<in> set ps)"

definition carries_session :: "session_lease \<times> session_summary \<Rightarrow> request \<Rightarrow> bool" where
  "carries_session x req \<longleftrightarrow> rq_Path req = ''/ingest/v1/sessions''
     \<and> (\<exists>n ss. rq_Payload req = Some (P_Sessions n ss) \<and> snd x \<in> set ss)"

text \<open>The shape the three \<open>send*Batch\<close> functions share.\<close>

lemma batch_facts:
  fixes U :: up_env and dec :: "'o target"
  assumes res: "(b, w1) = (case call (\<lambda>c. if B then (Inl e0, c) else postJSON (ue_net U) path p dec c) w of
        (Inl e, w) \<Rightarrow> (False, handleSendError U e (nack_op w))
      | (Inr ct, w) \<Rightarrow> (True, after_op ct (ack_op w)))"
    and ops: "\<And>w. up_client (nack_op w) = up_client w" "\<And>w. up_client (ack_op w) = up_client w"
    and after_op: "\<And>ct w. up_client (after_op ct w) = up_client w" "\<And>ct w. queues (after_op ct w) = queues w"
  shows "sends (\<lambda>_. True) w w1"
    and "b \<Longrightarrow> \<exists>c. queues w1 = queues (ack_op (w\<lparr>up_client := c\<rparr>))"
    and "b \<Longrightarrow> answered U (\<lambda>req. rq_Path req = path \<and> rq_Payload req = Some p) w w1"
    and "\<not> b \<Longrightarrow> \<exists>c. queues w1 = queues (nack_op (w\<lparr>up_client := c\<rparr>))"
proof -
  obtain r w2 where send: "call (\<lambda>c. if B then (Inl e0, c) else postJSON (ue_net U) path p dec c) w = (r, w2)"
    by (metis prod.exhaust)
  note c = call_limited [OF send]
  obtain c2 where c2: "w2 = w\<lparr>up_client := c2\<rparr>" using c(2) by blast
  have sent: "sends (\<lambda>_. True) w w'" if "up_client w' = up_client w2" for w'
    using sends_mono [OF c(1), of "\<lambda>_. True"] that by (simp add: sends_def)
  have "sends (\<lambda>_. True) w w1 \<and> (if b then (\<exists>c. queues w1 = queues (ack_op (w\<lparr>up_client := c\<rparr>)))
      \<and> answered U (\<lambda>req. rq_Path req = path \<and> rq_Payload req = Some p) w w1
    else (\<exists>c. queues w1 = queues (nack_op (w\<lparr>up_client := c\<rparr>))))"
  proof (cases r)
    case (Inr ct)
    then have w1: "b" "w1 = after_op ct (ack_op w2)" using res send by simp_all
    have "answered U (\<lambda>req. rq_Path req = path \<and> rq_Payload req = Some p) w w1"
      using c(3) [OF Inr] by (rule answered_sends) (simp add: w1 after_op ops)
    moreover have "queues w1 = queues (ack_op (w\<lparr>up_client := c2\<rparr>))" by (simp add: w1(2) after_op c2)
    ultimately show ?thesis using w1(1) sent [of w1] by (auto simp: w1(2) after_op ops)
  next
    case (Inl e)
    then have w1: "\<not> b" "w1 = handleSendError U e (nack_op w2)" using res send by simp_all
    note h = handleSendError_facts [where U = U and e = e and w = "nack_op w2"]
    have "sends (\<lambda>_. True) w w1"
      using sends_trans [OF sent [OF ops(1)] sends_mono [OF h(3)]] by (simp add: w1(2))
    moreover have "queues w1 = queues (nack_op (w\<lparr>up_client := c2\<rparr>))" using h(1) by (simp add: w1(2) c2)
    ultimately show ?thesis using w1(1) by auto
  qed
  then show "sends (\<lambda>_. True) w w1" "b \<Longrightarrow> \<exists>c. queues w1 = queues (ack_op (w\<lparr>up_client := c\<rparr>))"
    "b \<Longrightarrow> answered U (\<lambda>req. rq_Path req = path \<and> rq_Payload req = Some p) w w1"
    "\<not> b \<Longrightarrow> \<exists>c. queues w1 = queues (nack_op (w\<lparr>up_client := c\<rparr>))"
    by (simp_all split: if_splits)
qed

lemma on_client [simp]:
  "up_client (snd (on_events U f w)) = up_client w" "up_client (snd (on_metrics U g w)) = up_client w"
  "up_client (snd (on_sessions U h w)) = up_client w"
  by (simp_all add: on_events_def on_metrics_def on_sessions_def split: prod.splits)

lemma q_at_client [simp]: "q_at U (w\<lparr>up_client := c\<rparr>) = q_at U w"
  by (simp add: q_at_def clock_def)

lemma on_queues [simp]:
  "queues (snd (on_events U f w)) = (snd (f (q_at U w) (up_events w)), up_metrics w, up_sessions w)"
  "queues (snd (on_metrics U g w)) = (up_events w, snd (g (q_at U w) (up_metrics w)), up_sessions w)"
  "queues (snd (on_sessions U h w)) = (up_events w, up_metrics w, snd (h (q_at U w) (up_sessions w)))"
  by (simp_all add: queues_def on_events_def on_metrics_def on_sessions_def split: prod.splits)

lemma sendBatch_eq:
  "sendBatch U items w = (case call (\<lambda>c. if length (snd (split_items items)) > unat MaxIngestBatch then (Inl (BatchTooLarge (length (snd (split_items items)))), c)
        else postJSON (ue_net U) ''/ingest/v1/events'' (P_Events (ue_collectorID U) (net_version (ue_net U)) (snd (split_items items)))
          (into dec_counts) c) w of
      (Inl e, w) \<Rightarrow> (False, handleSendError U e (snd (on_events U (\<lambda>E. Nack E (map it_ID items)) w)))
    | (Inr ct, w) \<Rightarrow> (True, onUploadSuccess U ct (snd (on_events U (\<lambda>E. Ack E (map it_ID items)) w))))"
  by (simp add: sendBatch_def split_items_def SendEvents_def [abs_def] cong: if_cong)

lemma sendBatch_facts:
  fixes U :: up_env
  assumes "sendBatch U items w = (b, w1)"
  shows "sends (\<lambda>_. True) w w1"
    "queues w1 = (snd ((if b then Ack else Nack) (q_at U w) (map it_ID items) (up_events w)), up_metrics w, up_sessions w)"
    "b \<Longrightarrow> i \<in> set items \<Longrightarrow> answered U (carries_event (it_ID i, item_val i)) w w1"
proof -
  note f = batch_facts [where after_op = "onUploadSuccess U", OF trans [OF assms [symmetric] sendBatch_eq], simplified]
  show "sends (\<lambda>_. True) w w1" by (rule f(1))
  show "queues w1 = (snd ((if b then Ack else Nack) (q_at U w) (map it_ID items) (up_events w)), up_metrics w, up_sessions w)"
    using f(2,4) by (cases b) auto
  show "answered U (carries_event (it_ID i, item_val i)) w w1" if b "i \<in> set items"
    using f(3) [OF that(1)] that(2)
    by (elim answered_mono) (auto simp: carries_event_def item_val_def split_items_def)
qed

lemma sendMetricsBatch_eq:
  "sendMetricsBatch U items w = (case call (\<lambda>c. if length (snd (splitMetrics items)) > unat MaxIngestBatch then (Inl (BatchTooLarge (length (snd (splitMetrics items)))), c)
        else postJSON (ue_net U) ''/ingest/v1/metrics'' (P_Metrics (ue_collectorID U) (snd (splitMetrics items))) (into dec_counts) c) w of
      (Inl e, w) \<Rightarrow> (False, handleSendError U e (snd (on_metrics U (\<lambda>E. NackMetrics E (map it_ID items)) w)))
    | (Inr ct, w) \<Rightarrow> (True, setNow U cLastUploadAt (addCounter cMetricsUploaded (ct_Accepted ct)
          (snd (on_metrics U (\<lambda>E. AckMetrics E (map it_ID items)) w)))))"
  by (simp add: sendMetricsBatch_def splitMetrics_def SendMetrics_def [abs_def] cong: if_cong)

lemma sendMetricsBatch_facts:
  fixes U :: up_env
  assumes "sendMetricsBatch U items w = (b, w1)"
  shows "sends (\<lambda>_. True) w w1"
    "queues w1 = (up_events w, snd ((if b then AckMetrics else NackMetrics) (q_at U w) (map it_ID items) (up_metrics w)), up_sessions w)"
    "b \<Longrightarrow> i \<in> set items \<Longrightarrow> answered U (carries_metric (it_ID i, item_val i)) w w1"
proof -
  note f = batch_facts [where after_op = "\<lambda>ct w. setNow U cLastUploadAt (addCounter cMetricsUploaded (ct_Accepted ct) w)",
      OF trans [OF assms [symmetric] sendMetricsBatch_eq], simplified]
  show "sends (\<lambda>_. True) w w1" by (rule f(1))
  show "queues w1 = (up_events w, snd ((if b then AckMetrics else NackMetrics) (q_at U w) (map it_ID items) (up_metrics w)), up_sessions w)"
    using f(2,4) by (cases b) auto
  show "answered U (carries_metric (it_ID i, item_val i)) w w1" if b "i \<in> set items"
    using f(3) [OF that(1)] that(2)
    by (elim answered_mono) (auto simp: carries_metric_def item_val_def splitMetrics_def)
qed

lemma sendSessionsBatch_eq:
  "sendSessionsBatch U items w = (case call (\<lambda>c. if length (snd (splitSessions items)) > maxSessionBatch then (Inl (BatchTooLarge (length (snd (splitSessions items)))), c)
        else postJSON (ue_net U) ''/ingest/v1/sessions'' (P_Sessions (ue_collectorID U) (snd (splitSessions items))) (into dec_counts) c) w of
      (Inl e, w) \<Rightarrow> (False, handleSendError U e (snd (on_sessions U (\<lambda>E. NackSessions E (map item_lease items)) w)))
    | (Inr ct, w) \<Rightarrow> (True, onUploadSuccess U ct (snd (on_sessions U (\<lambda>E. AckSessions E (map item_lease items)) w))))"
  by (simp add: sendSessionsBatch_def splitSessions_def SendSessions_def [abs_def] cong: if_cong)

lemma sendSessionsBatch_facts:
  fixes U :: up_env
  assumes "sendSessionsBatch U items w = (b, w1)"
  shows "sends (\<lambda>_. True) w w1"
    "queues w1 = (up_events w, up_metrics w, snd ((if b then AckSessions else NackSessions) (q_at U w) (map item_lease items) (up_sessions w)))"
    "b \<Longrightarrow> i \<in> set items \<Longrightarrow> answered U (carries_session (item_lease i, si_Summary i)) w w1"
proof -
  note f = batch_facts [where after_op = "onUploadSuccess U", OF trans [OF assms [symmetric] sendSessionsBatch_eq], simplified]
  show "sends (\<lambda>_. True) w w1" by (rule f(1))
  show "queues w1 = (up_events w, up_metrics w, snd ((if b then AckSessions else NackSessions) (q_at U w) (map item_lease items) (up_sessions w)))"
    using f(2,4) by (cases b) auto
  show "answered U (carries_session (item_lease i, si_Summary i)) w w1" if b "i \<in> set items"
    using f(3) [OF that(1)] that(2)
    by (elim answered_mono) (auto simp: carries_session_def splitSessions_def)
qed

lemma lease_ops:
  "leaseEvents U n w = (r, w1) \<Longrightarrow> LeaseBatch (q_at U w) (sint n) leaseDuration (up_events w) = (r, up_events w1)
     \<and> up_client w1 = up_client w \<and> up_metrics w1 = up_metrics w \<and> up_sessions w1 = up_sessions w"
  "leaseMetrics U n w = (s, w2) \<Longrightarrow> LeaseMetricsBatch (q_at U w) (sint n) leaseDuration (up_metrics w) = (s, up_metrics w2)
     \<and> up_client w2 = up_client w \<and> up_events w2 = up_events w \<and> up_sessions w2 = up_sessions w"
  "leaseSessions U n w = (t, w3) \<Longrightarrow> LeaseSessionsBatch (q_at U w) (sint n) leaseDuration (up_sessions w) = (t, up_sessions w3)
     \<and> up_client w3 = up_client w \<and> up_events w3 = up_events w \<and> up_metrics w3 = up_metrics w"
  unfolding leaseEvents_def leaseMetrics_def leaseSessions_def
  by (auto dest: on_events_facts on_metrics_facts on_sessions_facts)

lemma queues_eq: "queues w = (a, b, c) \<longleftrightarrow> up_events w = a \<and> up_metrics w = b \<and> up_sessions w = c"
  by (auto simp: queues_def)

lemma FlushOnce_facts:
  fixes U :: up_env
  assumes "FlushOnce U w = Some w'" "table_ok (up_events w)"
  shows "delivers U carries_event (\<lambda>w. table_undelivered (up_events w)) w w' \<and> table_ok (up_events w')
    \<and> (up_metrics w', up_sessions w') = (up_metrics w, up_sessions w)"
proof (rule event_queue.flush_once [where get = up_events and other = "\<lambda>w. (up_metrics w, up_sessions w)",
      OF assms(1) [unfolded FlushOnce_def] assms(2)])
  show "up_client w1 = up_client w \<and> (\<exists>E n d. LeaseBatch E n d (up_events w) = (r, up_events w1))
      \<and> (up_metrics w1, up_sessions w1) = (up_metrics w, up_sessions w)"
    if "leaseEvents U m w = (r, w1)" for m w r w1 using lease_ops(1) [OF that] by auto
  show "sends (\<lambda>_. True) w w1 \<and> (up_metrics w1, up_sessions w1) = (up_metrics w, up_sessions w)
      \<and> (\<exists>E. up_events w1 = snd ((if b then Ack else Nack) E (map it_ID items) (up_events w)))
      \<and> (b \<longrightarrow> (\<forall>i \<in> set items. answered U (carries_event (it_ID i, item_val i)) w w1))"
    if "sendBatch U items w = (b, w1)" for items w b w1
    using sendBatch_facts [OF that] by (auto simp: queues_eq)
qed (simp_all add: addCounter_def onFlushSuccess_def)

lemma FlushMetricsOnce_facts:
  fixes U :: up_env
  assumes "FlushMetricsOnce U w = Some w'" "table_ok (up_metrics w)"
  shows "delivers U carries_metric (\<lambda>w. table_undelivered (up_metrics w)) w w' \<and> table_ok (up_metrics w')
    \<and> (up_events w', up_sessions w') = (up_events w, up_sessions w)"
proof (rule metric_queue.flush_once [where get = up_metrics and other = "\<lambda>w. (up_events w, up_sessions w)",
      OF assms(1) [unfolded FlushMetricsOnce_def] assms(2)])
  show "up_client w1 = up_client w \<and> (\<exists>E n d. LeaseMetricsBatch E n d (up_metrics w) = (r, up_metrics w1))
      \<and> (up_events w1, up_sessions w1) = (up_events w, up_sessions w)"
    if "leaseMetrics U m w = (r, w1)" for m w r w1 using lease_ops(2) [OF that] by auto
  show "sends (\<lambda>_. True) w w1 \<and> (up_events w1, up_sessions w1) = (up_events w, up_sessions w)
      \<and> (\<exists>E. up_metrics w1 = snd ((if b then AckMetrics else NackMetrics) E (map it_ID items) (up_metrics w)))
      \<and> (b \<longrightarrow> (\<forall>i \<in> set items. answered U (carries_metric (it_ID i, item_val i)) w w1))"
    if "sendMetricsBatch U items w = (b, w1)" for items w b w1
    using sendMetricsBatch_facts [OF that] by (auto simp: queues_eq)
qed (simp_all add: addCounter_def onFlushSuccess_def)

lemma FlushSessionsOnce_facts:
  fixes U :: up_env
  assumes "FlushSessionsOnce U w = Some w'" "sessions_ok (up_sessions w)"
  shows "delivers U carries_session (\<lambda>w. session_undelivered (up_sessions w)) w w' \<and> sessions_ok (up_sessions w')
    \<and> (up_events w', up_metrics w') = (up_events w, up_metrics w)"
proof (rule session_queue.flush_once [where get = up_sessions and other = "\<lambda>w. (up_events w, up_metrics w)",
      OF assms(1) [unfolded FlushSessionsOnce_def] assms(2)])
  show "up_client w1 = up_client w \<and> (\<exists>E n d. LeaseSessionsBatch E n d (up_sessions w) = (r, up_sessions w1))
      \<and> (up_events w1, up_metrics w1) = (up_events w, up_metrics w)"
    if "leaseSessions U m w = (r, w1)" for m w r w1 using lease_ops(3) [OF that] by auto
  show "sends (\<lambda>_. True) w w1 \<and> (up_events w1, up_metrics w1) = (up_events w, up_metrics w)
      \<and> (\<exists>E. up_sessions w1 = snd ((if b then AckSessions else NackSessions) E (map item_lease items) (up_sessions w)))
      \<and> (b \<longrightarrow> (\<forall>i \<in> set items. answered U (carries_session (item_lease i, si_Summary i)) w w1))"
    if "sendSessionsBatch U items w = (b, w1)" for items w b w1
    using sendSessionsBatch_facts [OF that] by (auto simp: queues_eq)
qed (simp_all add: addCounter_def onFlushSuccess_def)

subsection \<open>Heartbeats\<close>

lemma scheduleInventory_facts:
  assumes "scheduleInventory U en w = (t, w')"
  shows "queues w' = queues w" "up_client w' = up_client w" "up_mode w' = up_mode w" "up_policy w' = up_policy w"
    "up_authReason w' = up_authReason w" "up_backoff w' = up_backoff w" "up_counters w' = up_counters w"
  using assms by (auto simp: scheduleInventory_def split: if_splits)

lemma onHeartbeatOK_facts:
  fixes U :: up_env and w :: uploader and p :: policy and e :: "string option"
  defines "w' \<equiv> onHeartbeatOK U p e w"
  shows "queues w' = queues w" "up_client w' = up_client w" "up_mode w' = StateActive" "up_policy w' = p"
    "up_authReason w' = []" "up_backoff w' = 0"
    "\<exists>t. up_counters w' = counter_set (counter_set (up_counters w) cAuthFailed 0) cLastHeartbeatAt t"
proof -
  define w1 where "w1 = (enterActive U w)\<lparr>up_policy := p\<rparr>"
  obtain t w2 where sch: "scheduleInventory U (pol_InventoryEnabled p) w1 = (t, w2)" by (metis prod.exhaust)
  note f = scheduleInventory_facts [OF sch]
  define w3 where "w3 = mutateConfig U (heartbeat_config p e) (setNow U cLastHeartbeatAt w2)"
  have w': "w' = (if t then w3\<lparr>up_trigger := True\<rparr> else w3)"
    by (simp add: w'_def onHeartbeatOK_def Let_def w1_def [symmetric] sch w3_def)
  show "queues w' = queues w" "up_client w' = up_client w" "up_mode w' = StateActive" "up_policy w' = p"
    "up_authReason w' = []" "up_backoff w' = 0"
    by (simp_all add: w' w3_def f) (simp_all add: w1_def)
  have "up_counters w3 = counter_set (up_counters w2) cLastHeartbeatAt (i64 (clock U w2 div nanos))"
    by (simp add: w3_def setNow_def setCounter_def)
  moreover have "up_counters w' = up_counters w3" by (simp add: w')
  ultimately show "\<exists>t. up_counters w' = counter_set (counter_set (up_counters w) cAuthFailed 0) cLastHeartbeatAt t"
    using f(7) by (simp add: w1_def) blast
qed

text \<open>How a heartbeat ends: answered, recovered on another key, degraded, or deferred.\<close>

definition hb_ok :: "up_env \<Rightarrow> uploader \<Rightarrow> uploader \<Rightarrow> bool" where
  "hb_ok U w w' \<longleftrightarrow> up_mode w' = StateActive \<and> up_authReason w' = [] \<and> up_backoff w' = 0
     \<and> cl_key (up_client w') = cl_key (up_client w) \<and> answered U (heartbeat_under (cl_key (up_client w))) w w'
     \<and> (\<exists>t. up_counters w' = counter_set (counter_set (up_counters w) cAuthFailed 0) cLastHeartbeatAt t)"

definition hb_deferred :: "uploader \<Rightarrow> uploader \<Rightarrow> bool" where
  "hb_deferred w w' \<longleftrightarrow> up_mode w' = up_mode w \<and> up_authReason w' = up_authReason w \<and> up_backoff w' = up_backoff w
     \<and> cl_key (up_client w') = cl_key (up_client w) \<and> up_policy w' = up_policy w
     \<and> up_counters w' = counter_add (up_counters w) cHeartbeatErrors 1"

lemma HeartbeatOnce_facts:
  fixes U :: up_env and w :: uploader
  defines "w' \<equiv> HeartbeatOnce U w"
  shows "queues w' = queues w" "sends control w w'"
    and "hb_ok U w w' \<or> recovered U w w' \<or> (\<exists>r. degraded r w w') \<or> hb_deferred w w'"
proof -
  obtain r w1 where hb: "call (Heartbeat (ue_net U) (ue_collectorID U) (Some (telemetry_of U w))) (tick w) = (r, w1)"
    by (metis prod.exhaust)
  note c = call_Heartbeat [OF hb]
  obtain c1 where w1: "w1 = (tick w)\<lparr>up_client := c1\<rparr>" using c(3) by blast
  have s1: "sends (heartbeat_under (cl_key (up_client w))) w w1" using c(1) by (simp add: sends_def)
  have same: "same_state w w1" by (simp add: w1)
  have key: "cl_key (up_client w1) = cl_key (up_client w)" using c(2) by simp
  have sc: "sends control w w1" using s1 heartbeat_control by (rule sends_mono)
  have "queues w' = queues w \<and> sends control w w'
    \<and> (hb_ok U w w' \<or> recovered U w w' \<or> (\<exists>r. degraded r w w') \<or> hb_deferred w w')"
  proof (cases r)
    case (Inr out)
    then have w': "w' = onHeartbeatOK U (ho_Policy out) (ho_KeyExpiresAt out) w1"
      by (simp add: w'_def HeartbeatOnce_def Let_def hb)
    note f = onHeartbeatOK_facts [where U = U and w = w1 and p = "ho_Policy out" and e = "ho_KeyExpiresAt out"]
    have "answered U (heartbeat_under (cl_key (up_client w))) w w'"
      using c(4) [OF Inr] f(2) by (simp add: answered_def w')
    then have "hb_ok U w w'" using f key same by (simp add: hb_ok_def w' same_state_def)
    with f same sc show ?thesis by (simp add: w' same_state_def sends_def)
  next
    case (Inl e)
    show ?thesis
    proof (cases "as_auth e")
      case None
      with Inl have "w' = addCounter cHeartbeatErrors 1 w1" by (simp add: w'_def HeartbeatOnce_def Let_def hb)
      with same sc key show ?thesis by (simp add: same_state_def sends_def hb_deferred_def) (simp add: addCounter_def)
    next
      case (Some code)
      with Inl have w': "w' = handleAuthError U code w1" by (simp add: w'_def HeartbeatOnce_def Let_def hb)
      note h = handleAuthError_facts [where U = U and code = code and w = w1]
      have "recovered U w w' \<or> (\<exists>r. degraded r w w')"
      proof -
        have "recovered U w1 w' \<or> (\<exists>r. degraded r w1 w')" using h(1) by (auto simp: w' split: if_splits)
        then show ?thesis using recovered_before [OF same s1] degraded_before [OF same key] by blast
      qed
      with h(2) same sends_trans [OF sc h(4)] show ?thesis by (auto simp: w' same_state_def)
    qed
  qed
  then show "queues w' = queues w" "sends control w w'"
    "hb_ok U w w' \<or> recovered U w w' \<or> (\<exists>r. degraded r w w') \<or> hb_deferred w w'" by blast+
qed

lemma RotateCheckOnce_facts:
  fixes U :: up_env and w :: uploader
  defines "w' \<equiv> RotateCheckOnce U w"
  shows "same_state w w'" "sends control w w'"
proof -
  obtain r w1 where load: "loadConfig U w = (r, w1)" by (metis prod.exhaust)
  note l = same_state_load [OF load] loadConfig_fields(1) [OF load]
  have step: "sends Q w1 w2 \<Longrightarrow> sends Q w w2" for Q w2 using l(2) by (simp add: sends_def)
  have "same_state w w' \<and> sends control w w'"
  proof (cases r)
    case None
    then show ?thesis using l by (simp add: w'_def RotateCheckOnce_def load sends_client)
  next
    case (Some cfg)
    show ?thesis
    proof (cases "cfg_PendingKey cfg = []")
      case False
      obtain ok w2 where ver: "verifyPendingKey U cfg w1 = (ok, w2)" by (metis prod.exhaust)
      have w': "w' = w2" using False Some by (simp add: w'_def RotateCheckOnce_def load ver)
      show ?thesis
        using same_state_trans [OF l(1) verifyPendingKey_facts(1) [OF ver]]
          step [OF sends_mono [OF verifyPendingKey_facts(3) [OF ver] heartbeat_control]] by (simp add: w')
    next
      case True
      define w2 where "w2 = tick (tick w1)"
      have w': "w' = (if rotationDue U cfg w1 then attemptRotate U w2 else w2)"
        using True Some by (simp add: w'_def RotateCheckOnce_def load w2_def Let_def)
      have w2: "same_state w w2" "sends Q w w2" for Q using l by (simp_all add: w2_def sends_client)
      note a = attemptRotate_facts [where U = U and w = w2]
      have "sends control w2 (attemptRotate U w2)" using a(3) by (rule sends_mono) (simp add: control_def)
      then show ?thesis using same_state_trans [OF w2(1) a(1)] sends_trans [OF w2(2)] w2 by (simp add: w')
    qed
  qed
  then show "same_state w w'" "sends control w w'" by blast+
qed

end
