(* ===== verification/Uploader_Props.thy ===== *)
theory Uploader_Props
  imports Uploader_Safety
begin

text \<open>
  The properties of the uploader: delivery, termination of a flush, the degraded state, the
  verification of keys, the back-off, the rotation gate and the consent for inventory.
\<close>

subsection \<open>Delivery\<close>

text \<open>A flush only adds to the trace, whatever the queues hold.\<close>

lemma flush_loop_sends:
  fixes U :: up_env
  assumes "flush_loop lease_op send_op w = Some w'"
    and "\<And>w r w1. lease_op w = (r, w1) \<Longrightarrow> up_client w1 = up_client w"
    and "\<And>items w b w1. send_op items w = (b, w1) \<Longrightarrow> sends (\<lambda>_. True) w w1"
  shows "sends (\<lambda>_. True) w w'"
proof (rule flush_loop_rule [where I = "\<lambda>_. True" and R = "sends (\<lambda>_. True)", OF assms(1)])
  show "sends (\<lambda>_. True) w w2" if "lease_op w = (Inr items, w1)" "send_op items w1 = (False, w2)" for w items w1 w2
    using assms(2) [OF that(1)] assms(3) [OF that(2)] by (simp add: sends_def)
  show "True \<and> sends (\<lambda>_. True) w w2" if "lease_op w = (Inr items, w1)" "send_op items w1 = (True, w2)" for w items w1 w2
    using assms(2) [OF that(1)] assms(3) [OF that(2)] by (simp add: sends_def)
  show "sends (\<lambda>_. True) w (addCounter cUploadErrors 1 w1)" if "lease_op w = (Inl e, w1)" for w e w1
    using assms(2) [OF that] by (simp add: sends_client)
  show "sends (\<lambda>_. True) w (onFlushSuccess w1)" if "lease_op w = (Inr [], w1)" for w w1
    using assms(2) [OF that] by (simp add: sends_client)
qed (auto intro: sends_trans)

lemma flush_sends:
  fixes U :: up_env
  shows "FlushOnce U w = Some w' \<Longrightarrow> sends (\<lambda>_. True) w w'"
    and "FlushMetricsOnce U w = Some w' \<Longrightarrow> sends (\<lambda>_. True) w w'"
    and "FlushSessionsOnce U w = Some w' \<Longrightarrow> sends (\<lambda>_. True) w w'"
proof -
  show "sends (\<lambda>_. True) w w'" if "FlushOnce U w = Some w'"
    using that flush_loop_sends [of "leaseEvents U (BatchSize (up_policy w))" "sendBatch U" w w'] lease_ops(1)
      sendBatch_facts(1) by (auto simp: FlushOnce_def split: if_splits)
  show "sends (\<lambda>_. True) w w'" if "FlushMetricsOnce U w = Some w'"
    using that flush_loop_sends [of "leaseMetrics U (BatchSize (up_policy w))" "sendMetricsBatch U" w w'] lease_ops(2)
      sendMetricsBatch_facts(1) by (auto simp: FlushMetricsOnce_def split: if_splits)
  show "sends (\<lambda>_. True) w w'" if "FlushSessionsOnce U w = Some w'"
    using that flush_loop_sends [of "leaseSessions U (BatchSize (up_policy w))" "sendSessionsBatch U" w w'] lease_ops(3)
      sendSessionsBatch_facts(1) by (auto simp: FlushSessionsOnce_def split: if_splits)
qed

text \<open>The part of a cycle before the flushes.\<close>

definition cycle_start :: "up_env \<Rightarrow> uploader \<Rightarrow> uploader" where
  "cycle_start U w = HeartbeatOnce U (if up_mode w = StateDegraded then reloadKeyIfChanged U w else w)"

lemma reload_facts:
  "queues (reloadKeyIfChanged U w) = queues w" "up_mode (reloadKeyIfChanged U w) = up_mode w"
  "cl_sent (up_client (reloadKeyIfChanged U w)) = cl_sent (up_client w)"
  "up_counters (reloadKeyIfChanged U w) = up_counters w"
  "up_authReason (reloadKeyIfChanged U w) = up_authReason w"
  "up_backoff (reloadKeyIfChanged U w) = up_backoff w"
proof (atomize (full), goal_cases)
  case 1
  obtain r w1 where load: "loadConfig U w = (r, w1)" by (metis prod.exhaust)
  show ?case using loadConfig_fields [OF load] load
    by (cases r) (simp_all add: reloadKeyIfChanged_def SetKey_def)
qed

lemma cycle_start_facts:
  fixes U :: up_env
  shows "queues (cycle_start U w) = queues w" "sends control w (cycle_start U w)"
  using HeartbeatOnce_facts(1,2) [where U = U and w = "if up_mode w = StateDegraded then reloadKeyIfChanged U w else w"]
  by (auto simp: cycle_start_def reload_facts sends_def split: if_splits)

lemma runCycle_cases:
  assumes "runCycle U w = Some w'"
  obtains "up_mode (cycle_start U w) \<noteq> StateActive" "w' = cycle_start U w"
    | w1 w2 where "up_mode (cycle_start U w) = StateActive"
        "FlushOnce U (RotateCheckOnce U (cycle_start U w)) = Some w1" "FlushMetricsOnce U w1 = Some w2"
        "FlushSessionsOnce U w2 = Some w'"
  using assms
  by (auto simp: runCycle_def Let_def cycle_start_def [symmetric] bind_eq_Some_conv split: if_splits)

lemma delivers_queues:
  assumes "sends Q a b" "und b = und a"
  shows "delivers U carries und a b"
  using assms sends_mono [OF assms(1), of "\<lambda>_. True"] by (simp add: delivers_def)

subsection \<open>A cycle ends\<close>

text \<open>Updates of the queues succeed.\<close>

definition writable :: "up_env \<Rightarrow> bool" where
  "writable U \<longleftrightarrow> (\<forall>k. \<not> q_fail (ue_queue U k) S_Update \<and> (\<forall>j. \<not> q_fail (ue_queue U k) (S_UpdateItem j)))"

lemma q_at_writable:
  "writable U \<Longrightarrow> \<not> q_fail (q_at U w) S_Update \<and> (\<forall>j. \<not> q_fail (q_at U w) (S_UpdateItem j))"
  by (simp add: writable_def q_at_def)

lemma ack_table_writes: "\<not> q_fail E S_Update \<Longrightarrow> fst (ack_table E ids t) = Inr ()"
  by (simp add: ack_table_def update_table_def)

lemma update_each_writes: "\<forall>j. \<not> q_fail E (S_UpdateItem j) \<Longrightarrow> fst (update_each E f k keys rows) = Inr ()"
  by (induction keys arbitrary: k rows) auto

lemma Inr_pair: "fst p = Inr () \<Longrightarrow> x = snd p \<Longrightarrow> p = (Inr (), x)"
  by (cases p) simp

lemma flushes_total:
  fixes U :: up_env
  assumes "writable U"
  shows "table_ok (up_events w) \<Longrightarrow> \<exists>w'. FlushOnce U w = Some w'"
    and "table_ok (up_metrics w) \<Longrightarrow> \<exists>w'. FlushMetricsOnce U w = Some w'"
    and "sessions_ok (up_sessions w) \<Longrightarrow> \<exists>w'. FlushSessionsOnce U w = Some w'"
proof -
  note wr = q_at_writable [OF assms]
  show "\<exists>w'. FlushOnce U w = Some w'" if "table_ok (up_events w)"
  proof (cases "up_mode w = StateActive")
    case True
    have "\<exists>w'. flush_loop (leaseEvents U (BatchSize (up_policy w))) (sendBatch U) w = Some w'"
    proof (rule event_queue.flush_ends [where get = up_events, OF that])
      show "\<exists>E n d. LeaseBatch E n d (up_events v) = (r, up_events v1)"
        if "leaseEvents U (BatchSize (up_policy w)) v = (r, v1)" for v r v1 using lease_ops(1) [OF that] by blast
      show "\<exists>E. Ack E (map it_ID items) (up_events v) = (Inr (), up_events v1)"
        if "sendBatch U items v = (True, v1)" for items v v1
        using sendBatch_facts(2) [OF that] wr [of v]
        by (intro exI [of _ "q_at U v"] Inr_pair) (simp_all add: Ack_def ack_table_writes queues_eq)
    qed
    with True show ?thesis by (simp add: FlushOnce_def)
  qed (simp add: FlushOnce_def)
  show "\<exists>w'. FlushMetricsOnce U w = Some w'" if "table_ok (up_metrics w)"
  proof (cases "up_mode w = StateActive")
    case True
    have "\<exists>w'. flush_loop (leaseMetrics U (BatchSize (up_policy w))) (sendMetricsBatch U) w = Some w'"
    proof (rule metric_queue.flush_ends [where get = up_metrics, OF that])
      show "\<exists>E n d. LeaseMetricsBatch E n d (up_metrics v) = (r, up_metrics v1)"
        if "leaseMetrics U (BatchSize (up_policy w)) v = (r, v1)" for v r v1 using lease_ops(2) [OF that] by blast
      show "\<exists>E. AckMetrics E (map it_ID items) (up_metrics v) = (Inr (), up_metrics v1)"
        if "sendMetricsBatch U items v = (True, v1)" for items v v1
        using sendMetricsBatch_facts(2) [OF that] wr [of v]
        by (intro exI [of _ "q_at U v"] Inr_pair) (simp_all add: AckMetrics_def ack_table_writes queues_eq)
    qed
    with True show ?thesis by (simp add: FlushMetricsOnce_def)
  qed (simp add: FlushMetricsOnce_def)
  show "\<exists>w'. FlushSessionsOnce U w = Some w'" if "sessions_ok (up_sessions w)"
  proof (cases "up_mode w = StateActive")
    case True
    have "\<exists>w'. flush_loop (leaseSessions U (BatchSize (up_policy w))) (sendSessionsBatch U) w = Some w'"
    proof (rule session_queue.flush_ends [where get = up_sessions, OF that])
      show "\<exists>E n d. LeaseSessionsBatch E n d (up_sessions v) = (r, up_sessions v1)"
        if "leaseSessions U (BatchSize (up_policy w)) v = (r, v1)" for v r v1 using lease_ops(3) [OF that] by blast
      show "\<exists>E. AckSessions E (map item_lease items) (up_sessions v) = (Inr (), up_sessions v1)"
        if "sendSessionsBatch U items v = (True, v1)" for items v v1
        using sendSessionsBatch_facts(2) [OF that] wr [of v]
        by (intro exI [of _ "q_at U v"] Inr_pair)
           (simp_all add: AckSessions_def finishSessions_def update_each_writes queues_eq)
    qed
    with True show ?thesis by (simp add: FlushSessionsOnce_def)
  qed (simp add: FlushSessionsOnce_def)
qed

lemma cycle_total:
  fixes U :: up_env
  assumes wr: "writable U"
    and ok: "table_ok (up_events w)" "table_ok (up_metrics w)" "sessions_ok (up_sessions w)"
  shows "\<exists>w'. runCycle U w = Some w'"
proof (cases "up_mode (cycle_start U w) = StateActive")
  case True
  define w0 where "w0 = RotateCheckOnce U (cycle_start U w)"
  have "queues w0 = queues w"
    using RotateCheckOnce_facts(1) [of "cycle_start U w" U] cycle_start_facts(1) by (simp add: w0_def same_state_def)
  note q0 = queuesD [OF this]
  obtain w1 where w1: "FlushOnce U w0 = Some w1" using flushes_total(1) [OF wr] ok(1) q0 by metis
  note e = FlushOnce_facts [OF w1]
  obtain w2 where w2: "FlushMetricsOnce U w1 = Some w2" using flushes_total(2) [OF wr, of w1] ok q0 e by auto
  note m = FlushMetricsOnce_facts [OF w2]
  obtain w3 where w3: "FlushSessionsOnce U w2 = Some w3" using flushes_total(3) [OF wr, of w2] ok q0 e m by auto
  from True w1 w2 w3 show ?thesis
    by (simp add: runCycle_def Let_def cycle_start_def [symmetric] w0_def [symmetric])
qed (simp add: runCycle_def Let_def cycle_start_def [symmetric])


subsection \<open>At least once\<close>

text \<open>C1: delivery is at least once. Whatever the backend, the network, the clock and the database do
  during a cycle, an event, a metric point or a session revision that was undelivered before it is
  still undelivered after it, unless a request of the cycle that carried it, with its own
  idempotency key, was answered with a 200.\<close>

theorem runCycle_at_least_once:
  assumes cycle: "runCycle U w = Some w'"
    and ok: "table_ok (up_events w)" "table_ok (up_metrics w)" "sessions_ok (up_sessions w)"
  shows "(\<forall>x \<in> table_undelivered (up_events w).
        x \<in> table_undelivered (up_events w') \<or> answered U (carries_event x) w w')
    \<and> (\<forall>x \<in> table_undelivered (up_metrics w).
        x \<in> table_undelivered (up_metrics w') \<or> answered U (carries_metric x) w w')
    \<and> (\<forall>x \<in> session_undelivered (up_sessions w).
        x \<in> session_undelivered (up_sessions w') \<or> answered U (carries_session x) w w')"
proof -
  let ?E = "delivers U carries_event (\<lambda>w. table_undelivered (up_events w))"
    and ?M = "delivers U carries_metric (\<lambda>w. table_undelivered (up_metrics w))"
    and ?S = "delivers U carries_session (\<lambda>w. session_undelivered (up_sessions w))"
  have same: "?E a b \<and> ?M a b \<and> ?S a b" if "sends Q a b" "queues b = queues a" for Q a b
    using that(1) by (intro conjI; rule delivers_queues) (use queuesD [OF that(2)] in simp_all)
  have "?E w w' \<and> ?M w w' \<and> ?S w w'"
    using cycle
  proof (cases rule: runCycle_cases)
    case 1
    then show ?thesis using same [OF cycle_start_facts(2,1)] by simp
  next
    case (2 w1 w2)
    define w0 where "w0 = RotateCheckOnce U (cycle_start U w)"
    note r = RotateCheckOnce_facts [where U = U and w = "cycle_start U w", folded w0_def]
    have s0: "sends control w w0" using sends_trans [OF cycle_start_facts(2) r(2)] .
    have q0: "queues w0 = queues w" using r(1) cycle_start_facts(1) by (simp add: same_state_def)
    note q0' = queuesD [OF q0]
    note e = FlushOnce_facts [OF 2(2) [folded w0_def]]
    have e: "?E w0 w1" "up_metrics w1 = up_metrics w" "up_sessions w1 = up_sessions w"
      using e q0' ok(1) by simp_all
    have m: "?M w1 w2" "up_events w2 = up_events w1" "up_sessions w2 = up_sessions w"
      using FlushMetricsOnce_facts [OF 2(3)] e ok(2) by simp_all
    have s: "?S w2 w'" "up_events w' = up_events w2" "up_metrics w' = up_metrics w2"
      using FlushSessionsOnce_facts [OF 2(4)] m ok(3) by simp_all
    have t: "sends (\<lambda>_. True) w0 w1" "sends (\<lambda>_. True) w1 w2" "sends (\<lambda>_. True) w2 w'"
      using e(1) m(1) s(1) by (simp_all add: delivers_def)
    note start = same [OF s0 q0]
    have "?E w w'"
      by (rule delivers_trans [OF delivers_trans [OF delivers_trans [OF _ e(1)]]])
         (use start t m(2) s(2) in \<open>auto intro: delivers_queues\<close>)
    moreover have "?M w w'"
      by (rule delivers_trans [OF delivers_trans [OF delivers_trans [OF _ _] m(1)]])
         (use start t e(2) q0' s(3) in \<open>auto intro: delivers_queues\<close>)
    moreover have "?S w w'"
      by (rule delivers_trans [OF delivers_trans [OF delivers_trans [OF _ _] _] s(1)])
         (use start t e(3) q0' m(3) in \<open>auto intro: delivers_queues\<close>)
    ultimately show ?thesis by blast
  qed
  then show ?thesis by (simp add: delivers_def)
qed

text \<open>A collector that is cut off from the network, with one event in its queue.\<close>

definition offline_env :: up_env where
  "offline_env = \<lparr>ue_net = always Net_Error, ue_now = (\<lambda>_. 0), ue_queue = (\<lambda>_. good_env 0),
     ue_cred = (\<lambda>_. good_cred), ue_collectorID = 1, ue_zone = (\<lambda>_. 0), ue_discover = (\<lambda>_. None)\<rparr>"

definition one_event :: event_table where
  "one_event = \<lparr>tab_rows = [\<lparr>row_id = 1, row_key = Some ''u'', row_payload = empty_event, row_created = [],
     row_attempts = 0, row_state = Pending, row_until = None, row_acked = None\<rparr>], tab_evicted = 0\<rparr>"

definition one_policy :: policy where
  "one_policy = \<lparr>pol_FlushIntervalSeconds = 30, pol_MaxBatchSize = 10, pol_RefreshCadence = [],
     pol_InventoryEnabled = False\<rparr>"

definition offline_start :: uploader where
  "offline_start = New (NewClient ''k'') one_event empty_table [] None counter_new one_policy [] []"

lemma offline_writable: "writable offline_env"
  by (simp add: writable_def offline_env_def good_env_def)

lemma offline_silent: "\<not> answered offline_env Q w w'"
  by (simp add: answered_def offline_env_def always_def)

lemma offline_ok:
  "table_ok (up_events offline_start)" "table_ok (up_metrics offline_start)" "sessions_ok (up_sessions offline_start)"
  by (simp_all add: offline_start_def New_def one_event_def empty_table_def table_ok_def rows_ok_def row_ok_def
      sessions_ok_def)


lemma runCycle_at_least_once_witness:
  "\<exists>w'. runCycle offline_env offline_start = Some w' \<and> (1, ''u'', empty_event) \<in> table_undelivered (up_events w')"
proof -
  obtain w' where w': "runCycle offline_env offline_start = Some w'"
    using cycle_total [OF offline_writable offline_ok] by blast
  have "(1, ''u'', empty_event) \<in> table_undelivered (up_events offline_start)"
    by (simp add: offline_start_def New_def one_event_def table_undelivered_iff is_acked_def name_of_def)
  with runCycle_at_least_once [OF w' offline_ok] offline_silent w' show ?thesis by blast
qed

subsection \<open>Degraded\<close>

text \<open>A rejected collector uploads nothing. A cycle that starts degraded, and in which no heartbeat
  is answered with a 200, stays degraded, leaves the queues as they were, and sends nothing but
  heartbeats and key rotations.\<close>

theorem degraded_cycle_probes:
  assumes "up_mode w = StateDegraded" "runCycle U w = Some w'"
    and silent: "\<not> answered U (\<lambda>req. rq_Path req = heartbeat_path) w w'"
  shows "up_mode w' = StateDegraded \<and> queues w' = queues w \<and> sends control w w'"
proof -
  define v where "v = reloadKeyIfChanged U w"
  have v: "queues v = queues w" "up_mode v = StateDegraded" "cl_sent (up_client v) = cl_sent (up_client w)"
    using assms(1) by (simp_all add: v_def reload_facts)
  have start: "cycle_start U w = HeartbeatOnce U v" using assms(1) by (simp add: cycle_start_def v_def)
  have wv: "sends Q w v" for Q using v(3) by (simp add: sends_def)
  have quiet: "up_mode (cycle_start U w) = StateDegraded" if rest: "sends (\<lambda>_. True) (cycle_start U w) w'"
  proof (rule ccontr)
    assume "up_mode (cycle_start U w) \<noteq> StateDegraded"
    then have "\<exists>key. answered U (heartbeat_under key) v (cycle_start U w)"
      using HeartbeatOnce_facts(3) [where U = U and w = v] v(2)
      by (auto simp: start hb_ok_def recovered_def degraded_def hb_deferred_def)
    then obtain key where "answered U (heartbeat_under key) w w'"
      using answered_extend [OF wv [of "\<lambda>_. True"] _ rest] by blast
    then have "answered U (\<lambda>req. rq_Path req = heartbeat_path) w w'"
      by (rule answered_mono) (simp add: heartbeat_under_def)
    with silent show False by blast
  qed
  from assms(2) show ?thesis
  proof (cases rule: runCycle_cases)
    case 1
    with quiet cycle_start_facts [where U = U and w = w] show ?thesis by simp
  next
    case (2 w1 w2)
    have "sends (\<lambda>_. True) (cycle_start U w) w'"
    proof -
      have "sends (\<lambda>_. True) (cycle_start U w) (RotateCheckOnce U (cycle_start U w))"
        using RotateCheckOnce_facts(2) by (rule sends_mono) simp
      also have "sends (\<lambda>_. True) \<dots> w1" using 2(2) by (rule flush_sends)
      also have "sends (\<lambda>_. True) \<dots> w2" using 2(3) by (rule flush_sends)
      also have "sends (\<lambda>_. True) \<dots> w'" using 2(4) by (rule flush_sends)
      finally show ?thesis .
    qed
    from quiet [OF this] 2(1) show ?thesis by simp
  qed
qed

lemma degraded_cycle_probes_witness:
  "\<exists>w'. runCycle offline_env (offline_start\<lparr>up_mode := StateDegraded\<rparr>) = Some w' \<and> up_mode w' = StateDegraded"
proof -
  let ?w = "offline_start\<lparr>up_mode := StateDegraded\<rparr>"
  obtain w' where w': "runCycle offline_env ?w = Some w'"
    using cycle_total [OF offline_writable, of ?w] offline_ok by auto
  with degraded_cycle_probes [OF _ w'] offline_silent show ?thesis by simp
qed

subsection \<open>The state machine\<close>

text \<open>What may happen to a running uploader: its own operations, and the daemon's use of the queues and
  of the other counters. The operations that interleave with an inventory upload are steps too.\<close>

inductive uploader_step :: "up_env \<Rightarrow> uploader \<Rightarrow> uploader \<Rightarrow> bool" for U where
  start_step: "uploader_step U w (Run_start U w)"
| cycle_step: "runCycle U w = Some w' \<Longrightarrow> uploader_step U w w'"
| flush_step: "FlushOnce U w = Some w' \<or> FlushMetricsOnce U w = Some w' \<or> FlushSessionsOnce U w = Some w' \<Longrightarrow>
    uploader_step U w w'"
| inventory_step: "(\<And>i v. others i v = v \<or> uploader_step U v (others i v)) \<Longrightarrow>
    uploader_step U w (syncInventory U others gone w)"
| daemon_step: "counter_get c cAuthFailed = counter_get (up_counters w) cAuthFailed \<Longrightarrow>
    uploader_step U w (w\<lparr>up_events := e, up_metrics := m, up_sessions := s, up_counters := c\<rparr>)"

definition auth_state :: "uploader \<Rightarrow> uploadState \<times> string \<times> int64" where
  "auth_state w = (up_mode w, up_authReason w, counter_get (up_counters w) cAuthFailed)"

text \<open>The counter shown by \<open>status\<close> and \<open>/healthz\<close> agrees with the state.\<close>

definition auth_ok :: "uploader \<Rightarrow> bool" where
  "auth_ok w \<longleftrightarrow> counter_get (up_counters w) cAuthFailed = (if up_mode w = StateDegraded then 1 else 0)
     \<and> (up_mode w = StateActive \<longrightarrow> up_authReason w = [])"

lemma auth_ok_state: "auth_state w' = auth_state w \<Longrightarrow> auth_ok w' = auth_ok w"
  by (simp add: auth_ok_def auth_state_def)

lemma auth_state_simps [simp]:
  "auth_state (tick w) = auth_state w" "auth_state (w\<lparr>up_client := c\<rparr>) = auth_state w"
  "auth_state (mutateConfig U f w) = auth_state w" "auth_state (onFlushSuccess w) = auth_state w"
  "auth_state (w\<lparr>up_events := e\<rparr>) = auth_state w" "auth_state (w\<lparr>up_metrics := m\<rparr>) = auth_state w"
  "auth_state (w\<lparr>up_sessions := s\<rparr>) = auth_state w" "auth_state (widenBackoff w) = auth_state w"
  "auth_state (w\<lparr>up_invRunning := x\<rparr>) = auth_state w" "auth_state (w\<lparr>up_invCancel := x\<rparr>) = auth_state w"
  "auth_state (w\<lparr>up_invCancelled := x\<rparr>) = auth_state w" "auth_state (w\<lparr>up_invNext := y\<rparr>) = auth_state w"
  "a \<noteq> cAuthFailed \<Longrightarrow> auth_state (addCounter a n w) = auth_state w"
  "a \<noteq> cAuthFailed \<Longrightarrow> auth_state (setNow U a w) = auth_state w"
  by (simp_all add: auth_state_def widenBackoff_def) (simp_all add: addCounter_def setNow_def setCounter_def tick_def)

lemma counters_differ [simp]:
  "cUploadErrors \<noteq> cAuthFailed" "cUploaded \<noteq> cAuthFailed" "cUploadDropped \<noteq> cAuthFailed"
  "cLastUploadAt \<noteq> cAuthFailed" "cMetricsUploaded \<noteq> cAuthFailed" "cHeartbeatErrors \<noteq> cAuthFailed"
  "cLastHeartbeatAt \<noteq> cAuthFailed"
  by (simp_all add: counter_names)

lemma auth_call: "call f w = (r, w') \<Longrightarrow> auth_state w' = auth_state w"
  by (auto simp: call_def split: prod.splits)

lemma auth_on [simp]:
  "auth_state (snd (on_events U f w)) = auth_state w" "auth_state (snd (on_metrics U g w)) = auth_state w"
  "auth_state (snd (on_sessions U h w)) = auth_state w"
  by (simp_all add: on_events_def on_metrics_def on_sessions_def split: prod.splits)

lemma auth_ok_facts:
  "recovered U w w' \<Longrightarrow> auth_ok w'" "degraded r w w' \<Longrightarrow> auth_ok w'" "hb_ok U w w' \<Longrightarrow> auth_ok w'"
  "hb_deferred w w' \<Longrightarrow> auth_ok w \<Longrightarrow> auth_ok w'" "same_state w w' \<Longrightarrow> auth_ok w \<Longrightarrow> auth_ok w'"
  by (auto simp: recovered_def degraded_def hb_ok_def hb_deferred_def same_state_def auth_ok_def)

lemma auth_HeartbeatOnce: "auth_ok w \<Longrightarrow> auth_ok (HeartbeatOnce U w)" for U :: up_env
  using HeartbeatOnce_facts(3) [where U = U and w = w] auth_ok_facts by blast

lemma auth_handleSendError: "auth_ok w \<Longrightarrow> auth_ok (handleSendError U e w)" for U :: up_env
proof (cases "as_auth e")
  case (Some code)
  have "recovered U w (handleAuthError U code w) \<or> (\<exists>r. degraded r w (handleAuthError U code w))"
    using handleAuthError_facts(1) [where U = U and w = w and code = code] by (auto split: if_splits)
  then show ?thesis using Some auth_ok_facts(1,2) by (auto simp: handleSendError_def)
next
  case None
  then show "auth_ok w \<Longrightarrow> auth_ok (handleSendError U e w)"
    using auth_ok_state [of "handleSendError U e w" w] by (simp add: handleSendError_def)
qed

lemma auth_send:
  fixes U :: up_env
  shows "sendBatch U items w = (b, w1) \<Longrightarrow> auth_ok w \<Longrightarrow> auth_ok w1"
    and "sendMetricsBatch U mitems w = (b, w1) \<Longrightarrow> auth_ok w \<Longrightarrow> auth_ok w1"
    and "sendSessionsBatch U sitems w = (b, w1) \<Longrightarrow> auth_ok w \<Longrightarrow> auth_ok w1"
proof -
  have err: "auth_ok (handleSendError U e v)" if "auth_state v = auth_state w" "auth_ok w" for e v
    using that auth_handleSendError auth_ok_state by blast
  have ok: "auth_ok v" if "auth_state v = auth_state w" "auth_ok w" for v using that auth_ok_state by blast
  show "auth_ok w1" if "sendBatch U items w = (b, w1)" "auth_ok w"
    using that by (auto simp: sendBatch_def onUploadSuccess_def split: prod.splits sum.splits
        intro!: err intro: ok dest!: auth_call)
  show "auth_ok w1" if "sendMetricsBatch U mitems w = (b, w1)" "auth_ok w"
    using that by (auto simp: sendMetricsBatch_def split: prod.splits sum.splits intro!: err intro: ok dest!: auth_call)
  show "auth_ok w1" if "sendSessionsBatch U sitems w = (b, w1)" "auth_ok w"
    using that by (auto simp: sendSessionsBatch_def onUploadSuccess_def split: prod.splits sum.splits
        intro!: err intro: ok dest!: auth_call)
qed

lemma auth_flush:
  fixes U :: up_env
  assumes "FlushOnce U w = Some w' \<or> FlushMetricsOnce U w = Some w' \<or> FlushSessionsOnce U w = Some w'" "auth_ok w"
  shows "auth_ok w'"
proof -
  have loop: "auth_ok w'" if "flush_loop lease_op send_op w = Some w'"
    and l: "\<And>w r w1. lease_op w = (r, w1) \<Longrightarrow> auth_state w1 = auth_state w"
    and s: "\<And>items w b w1. send_op items w = (b, w1) \<Longrightarrow> auth_ok w \<Longrightarrow> auth_ok w1"
    for lease_op :: "uploader \<Rightarrow> (queue_error + 'x list) \<times> uploader" and send_op
  proof -
    have "auth_ok w \<longrightarrow> auth_ok w'"
    proof (rule flush_loop_rule [where I = "\<lambda>_. True" and R = "\<lambda>w w'. auth_ok w \<longrightarrow> auth_ok w'", OF that(1)])
      show "auth_ok w \<longrightarrow> auth_ok (addCounter cUploadErrors 1 w1)" if "lease_op w = (Inl e, w1)" for w e w1
        using auth_ok_state [of "addCounter cUploadErrors 1 w1" w] l [OF that] by simp
      show "auth_ok w \<longrightarrow> auth_ok (onFlushSuccess w1)" if "lease_op w = (Inr [], w1)" for w w1
        using auth_ok_state [of "onFlushSuccess w1" w] l [OF that] by simp
      show "auth_ok w \<longrightarrow> auth_ok w2" if "lease_op w = (Inr items, w1)" "send_op items w1 = (False, w2)" for w items w1 w2
        using auth_ok_state [OF l [OF that(1)]] s [OF that(2)] by simp
      show "True \<and> (auth_ok w \<longrightarrow> auth_ok w2)" if "lease_op w = (Inr items, w1)" "send_op items w1 = (True, w2)" for w items w1 w2
        using auth_ok_state [OF l [OF that(1)]] s [OF that(2)] by simp
    qed auto
    with assms(2) show ?thesis by blast
  qed
  have lease: "leaseEvents U n w = (r, w1) \<Longrightarrow> auth_state w1 = auth_state w"
    "leaseMetrics U n w = (rm, w1) \<Longrightarrow> auth_state w1 = auth_state w"
    "leaseSessions U n w = (rs, w1) \<Longrightarrow> auth_state w1 = auth_state w" for n w r rm rs w1
    by (auto simp: leaseEvents_def leaseMetrics_def leaseSessions_def on_events_def on_metrics_def on_sessions_def
        split: prod.splits)
  show ?thesis
    using assms loop [of "leaseEvents U (BatchSize (up_policy w))" "sendBatch U", OF _ lease(1) auth_send(1)]
      loop [of "leaseMetrics U (BatchSize (up_policy w))" "sendMetricsBatch U", OF _ lease(2) auth_send(2)]
      loop [of "leaseSessions U (BatchSize (up_policy w))" "sendSessionsBatch U", OF _ lease(3) auth_send(3)]
    by (auto simp: FlushOnce_def FlushMetricsOnce_def FlushSessionsOnce_def split: if_splits)
qed

lemma auth_finish: "auth_ok w \<Longrightarrow> auth_ok (finishInventory U st at n d w)"
  using auth_ok_state [of "finishInventory U st at n d w" w] by (simp add: finishInventory_def Let_def)

lemma auth_syncInventory:
  assumes others: "\<And>i v. auth_ok v \<Longrightarrow> auth_ok (others i v)" and w: "auth_ok w"
  shows "auth_ok (syncInventory U others gone w)"
proof (cases "inventoryEnabled w")
  case True
  define w1 where "w1 = mutateConfig U set_inventory_pending (w\<lparr>up_invCancel := True, up_invCancelled := False\<rparr>)"
  obtain res w2 where b: "buildAndSendInventory U others w1 = (res, w2)" by (metis prod.exhaust)
  have w1: "auth_ok w1" using auth_ok_state [of w1 w] w by (simp add: w1_def)
  have w0: "auth_ok (others 0 (tick w1))" using others auth_ok_state [of "tick w1" w1] w1 by simp
  have "auth_ok w2"
  proof (cases "ue_discover U (up_step w1) = None \<or> \<not> inventoryEnabled (others 0 (tick w1))")
    case True
    then show ?thesis using b w0 by (auto simp: buildAndSendInventory_def Let_def split: option.splits)
  next
    case False
    then obtain items where items: "ue_discover U (up_step w1) = Some items" by auto
    let ?v = "others 0 (tick w1)"
    obtain r w3 where c: "call (SendInventory (ue_net U) (ue_collectorID U)
        (format_rfc3339 (clock U ?v)) items) (tick ?v) = (r, w3)" by (metis prod.exhaust)
    have "w2 = others 1 w3" using b False items c by (simp add: buildAndSendInventory_def Let_def)
    moreover have "auth_ok w3" using auth_ok_state [of w3 ?v] auth_call [OF c] w0 by simp
    ultimately show ?thesis using others by simp
  qed
  with True b others show ?thesis
    by (auto simp: syncInventory_def Let_def w1_def [symmetric] intro: auth_finish split: option.splits)
next
  case False
  then show ?thesis using auth_ok_state [of "w\<lparr>up_invRunning := False\<rparr>" w] w by (simp add: syncInventory_def)
qed

lemma auth_cycle_start: "auth_ok w \<Longrightarrow> auth_ok (cycle_start U w)" for U :: up_env
proof -
  assume "auth_ok w"
  then have "auth_ok (reloadKeyIfChanged U w)" by (simp add: auth_ok_def reload_facts)
  with \<open>auth_ok w\<close> show ?thesis by (simp add: cycle_start_def auth_HeartbeatOnce)
qed

lemma auth_RotateCheckOnce: "auth_ok w \<Longrightarrow> auth_ok (RotateCheckOnce U w)" for U :: up_env
  using RotateCheckOnce_facts(1) [where U = U and w = w] auth_ok_facts(5) by blast

lemma auth_step: "uploader_step U w w' \<Longrightarrow> auth_ok w \<Longrightarrow> auth_ok w'"
proof (induction rule: uploader_step.induct)
  case (start_step w)
  then show ?case by (simp add: Run_start_def Let_def auth_HeartbeatOnce auth_RotateCheckOnce)
next
  case (cycle_step w w')
  from cycle_step(1) show ?case
  proof (cases rule: runCycle_cases)
    case 1
    with auth_cycle_start cycle_step(2) show ?thesis by simp
  next
    case (2 w1 w2)
    have "auth_ok (RotateCheckOnce U (cycle_start U w))"
      using cycle_step(2) auth_cycle_start auth_RotateCheckOnce by blast
    with 2 show ?thesis using auth_flush by blast
  qed
next
  case (flush_step w w')
  then show ?case using auth_flush by blast
next
  case (inventory_step others w gone)
  have "auth_ok (others i v)" if "auth_ok v" for i v using inventory_step(1) [of i v] that by auto
  then show ?case using auth_syncInventory inventory_step(2) by blast
next
  case (daemon_step c w e m s)
  then show ?case by (simp add: auth_ok_def)
qed

text \<open>C10: what the user sees is what the uploader does. Along every run of a new uploader, through
  cycles, flushes, inventory uploads and whatever the daemon does to the queues, the
  \<open>auth_failed\<close> counter is 1 exactly while uploads are paused and 0 otherwise, and an active
  uploader carries no auth reason.\<close>

theorem auth_failed_iff_degraded:
  assumes "(uploader_step U)\<^sup>*\<^sup>* (New client events metrics sessions store counter_new policy st at) w"
  shows "counter_get (up_counters w) cAuthFailed = (if up_mode w = StateDegraded then 1 else 0)
    \<and> (up_mode w = StateActive \<longrightarrow> up_authReason w = [])"
proof -
  have "auth_ok (New client events metrics sessions store counter_new policy st at)"
    by (simp add: auth_ok_def New_def)
  with assms have "auth_ok w"
    by (induction rule: rtranclp_induct) (auto intro: auth_step)
  then show ?thesis by (simp add: auth_ok_def)
qed

lemma auth_failed_iff_degraded_witness:
  "\<exists>w'. runCycle offline_env offline_start = Some w'
     \<and> (counter_get (up_counters w') cAuthFailed = 1 \<longleftrightarrow> up_mode w' = StateDegraded)"
proof -
  obtain w' where w': "runCycle offline_env offline_start = Some w'"
    using cycle_total [OF offline_writable offline_ok] by blast
  then have "(uploader_step offline_env)\<^sup>*\<^sup>* offline_start w'" by (blast intro: cycle_step)
  with auth_failed_iff_degraded [of offline_env "NewClient ''k''" one_event empty_table "[]" None one_policy "[]" "[]" w'] w'
  show ?thesis by (auto simp: offline_start_def)
qed

subsection \<open>Unauthorized replies and keys\<close>

text \<open>How a 401 is handled. For \<open>key_rotated\<close> and \<open>key_expired\<close> the uploader ends active only on a
  pending key under which a heartbeat was answered with a 200, and otherwise degraded for
  \<open>key_invalid\<close> on the key it had; for every other code, known or not, it degrades at once for
  that code, keeps its key and sends nothing. The queues are never touched, and nothing but
  heartbeats and rotations is sent.\<close>

theorem handleAuthError_dispatch:
  fixes U :: up_env and w :: uploader and code :: string
  defines "w' \<equiv> handleAuthError U code w"
  shows "(if code \<in> {''key_rotated'', ''key_expired''}
      then (up_mode w' = StateActive \<and> up_authReason w' = []
             \<and> answered U (heartbeat_under (cl_key (up_client w'))) w w')
         \<or> (up_mode w' = StateDegraded \<and> up_authReason w' = ''key_invalid''
             \<and> cl_key (up_client w') = cl_key (up_client w))
      else up_mode w' = StateDegraded \<and> up_authReason w' = code \<and> up_client w' = up_client w)
    \<and> queues w' = queues w \<and> sends control w w'"
  using handleAuthError_facts [where U = U and code = code and w = w]
  by (auto simp: w'_def recovered_def degraded_def CodeKeyRotated_def CodeKeyExpired_def CodeKeyInvalid_def
      split: if_splits)

text \<open>A change of key that a heartbeat has verified.\<close>

definition key_verified :: "up_env \<Rightarrow> uploader \<Rightarrow> uploader \<Rightarrow> bool" where
  "key_verified U w w' \<longleftrightarrow> sends (\<lambda>_. True) w w' \<and> (cl_key (up_client w') = cl_key (up_client w)
     \<or> answered U (heartbeat_under (cl_key (up_client w'))) w w')"

lemma key_verified_trans:
  assumes "key_verified U a b" "key_verified U b c"
  shows "key_verified U a c"
proof -
  note ab = assms(1) [unfolded key_verified_def] and bc = assms(2) [unfolded key_verified_def]
  have "cl_key (up_client c) = cl_key (up_client a) \<or> answered U (heartbeat_under (cl_key (up_client c))) a c"
  proof (cases "cl_key (up_client c) = cl_key (up_client b)")
    case True
    then show ?thesis
      using ab bc answered_extend [of "\<lambda>_. True" a a U "heartbeat_under (cl_key (up_client c))" b "\<lambda>_. True" c]
      by auto
  next
    case False
    then show ?thesis
      using ab bc answered_extend [of "\<lambda>_. True" a b U "heartbeat_under (cl_key (up_client c))" c "\<lambda>_. True" c]
      by auto
  qed
  with sends_trans ab bc show ?thesis by (auto simp: key_verified_def)
qed

lemma key_verified_client: "up_client w' = up_client w \<Longrightarrow> key_verified U w w'"
  by (simp add: key_verified_def sends_client)

lemma key_verified_facts:
  "sends Q w w' \<Longrightarrow> recovered U w w' \<Longrightarrow> key_verified U w w'"
  "sends Q w w' \<Longrightarrow> degraded r w w' \<Longrightarrow> key_verified U w w'"
  "sends Q w w' \<Longrightarrow> hb_ok U w w' \<Longrightarrow> key_verified U w w'"
  "sends Q w w' \<Longrightarrow> hb_deferred w w' \<Longrightarrow> key_verified U w w'"
  by (auto simp: key_verified_def recovered_def degraded_def hb_ok_def hb_deferred_def intro: sends_mono)

lemma key_HeartbeatOnce: "key_verified U w (HeartbeatOnce U w)" for U :: up_env
  using HeartbeatOnce_facts(2,3) [where U = U and w = w] key_verified_facts by blast

lemma key_RotateCheckOnce: "key_verified U w (RotateCheckOnce U w)" for U :: up_env
proof -
  obtain r w1 where load: "loadConfig U w = (r, w1)" by (metis prod.exhaust)
  have l: "key_verified U w w1" by (rule key_verified_client) (rule loadConfig_fields(1) [OF load])
  have "key_verified U w1 (RotateCheckOnce U w)"
  proof (cases r)
    case None
    then show ?thesis by (simp add: RotateCheckOnce_def load key_verified_client)
  next
    case (Some cfg)
    show ?thesis
    proof (cases "cfg_PendingKey cfg = []")
      case False
      obtain ok w2 where ver: "verifyPendingKey U cfg w1 = (ok, w2)" by (metis prod.exhaust)
      have "RotateCheckOnce U w = w2" using False Some by (simp add: RotateCheckOnce_def load ver)
      then show ?thesis
        using verifyPendingKey_facts(2,3,4) [OF ver] by (auto simp: key_verified_def intro: sends_mono)
    next
      case True
      define w2 where "w2 = tick (tick w1)"
      have w2: "key_verified U w1 w2" by (rule key_verified_client) (simp add: w2_def)
      have "key_verified U w2 (attemptRotate U w2)"
        using attemptRotate_facts(2,3) [where U = U and w = w2] by (auto simp: key_verified_def intro: sends_mono)
      moreover have "RotateCheckOnce U w = (if rotationDue U cfg w1 then attemptRotate U w2 else w2)"
        using True Some by (simp add: RotateCheckOnce_def load w2_def Let_def)
      ultimately show ?thesis using w2 key_verified_trans by auto
    qed
  qed
  with l show ?thesis by (rule key_verified_trans)
qed

lemma key_handleSendError: "key_verified U w (handleSendError U e w)" for U :: up_env
proof (cases "as_auth e")
  case (Some code)
  note h = handleAuthError_facts [where U = U and w = w and code = code]
  have "recovered U w (handleAuthError U code w) \<or> (\<exists>r. degraded r w (handleAuthError U code w))"
    using h(1) by (auto split: if_splits)
  with h(4) key_verified_facts(1,2) Some show ?thesis by (auto simp: handleSendError_def)
qed (simp add: handleSendError_def widenBackoff_def key_verified_client)

lemma key_batch:
  fixes U :: up_env
  assumes "(b, w1) = (case call (\<lambda>c. if B then (Inl e0, c) else postJSON (ue_net U) path p dec c) w of
        (Inl e, w) \<Rightarrow> (False, handleSendError U e (nack_op w))
      | (Inr ct, w) \<Rightarrow> (True, after_op ct (ack_op w)))"
    and ops: "\<And>w. up_client (nack_op w) = up_client w" "\<And>w. up_client (ack_op w) = up_client w"
    and after_op: "\<And>ct w. up_client (after_op ct w) = up_client w"
  shows "key_verified U w w1"
proof -
  obtain r w2 where send: "call (\<lambda>c. if B then (Inl e0, c) else postJSON (ue_net U) path p dec c) w = (r, w2)"
    by (metis prod.exhaust)
  have "cl_key (up_client w2) = cl_key (up_client w)"
  proof (cases B)
    case False
    then have "call (postJSON (ue_net U) path p dec) w = (r, w2)" using send by (simp add: call_def)
    then show ?thesis by (rule call_postJSON(2))
  qed (use send in \<open>auto simp: call_def\<close>)
  then have w2: "key_verified U w w2" using call_limited(1) [OF send] by (auto simp: key_verified_def intro: sends_mono)
  have "key_verified U w2 w1"
  proof (cases r)
    case (Inl e)
    have "key_verified U w2 (nack_op w2)" by (rule key_verified_client) (rule ops)
    from this key_handleSendError have "key_verified U w2 (handleSendError U e (nack_op w2))" by (rule key_verified_trans)
    then show ?thesis using assms(1) send Inl by simp
  next
    case (Inr ct)
    then show ?thesis using assms(1) send by (intro key_verified_client) (simp add: ops after_op)
  qed
  with w2 show ?thesis by (rule key_verified_trans)
qed

lemma key_flush:
  fixes U :: up_env
  assumes "FlushOnce U w = Some w' \<or> FlushMetricsOnce U w = Some w' \<or> FlushSessionsOnce U w = Some w'"
  shows "key_verified U w w'"
proof -
  have loop: "key_verified U w w'" if "flush_loop lease_op send_op w = Some w'"
    and l: "\<And>w r w1. lease_op w = (r, w1) \<Longrightarrow> up_client w1 = up_client w"
    and s: "\<And>items w b w1. send_op items w = (b, w1) \<Longrightarrow> key_verified U w w1"
    for lease_op :: "uploader \<Rightarrow> (queue_error + 'x list) \<times> uploader" and send_op
  proof (rule flush_loop_rule [where I = "\<lambda>_. True" and R = "key_verified U", OF that(1)])
    have kl: "key_verified U w w1" if "lease_op w = (r, w1)" for w r w1
      by (rule key_verified_client) (rule l [OF that])
    show "key_verified U w (addCounter cUploadErrors 1 w1)" if "lease_op w = (Inl e, w1)" for w e w1
      using l [OF that] by (simp add: key_verified_client)
    show "key_verified U w (onFlushSuccess w1)" if "lease_op w = (Inr [], w1)" for w w1
      using l [OF that] by (simp add: key_verified_client)
    show "key_verified U w w2" if "lease_op w = (Inr items, w1)" "send_op items w1 = (False, w2)" for w items w1 w2
      using kl [OF that(1)] s [OF that(2)] by (rule key_verified_trans)
    show "True \<and> key_verified U w w2" if "lease_op w = (Inr items, w1)" "send_op items w1 = (True, w2)" for w items w1 w2
      using key_verified_trans [OF kl [OF that(1)] s [OF that(2)]] by simp
  qed (auto intro: key_verified_trans)
  have e: "key_verified U v w1" if "sendBatch U items v = (b, w1)" for items v b w1
    using key_batch [where after_op = "onUploadSuccess U", OF trans [OF that [symmetric] sendBatch_eq]] by simp
  have m: "key_verified U v w1" if "sendMetricsBatch U items v = (b, w1)" for items v b w1
    using key_batch [where after_op = "\<lambda>ct w. setNow U cLastUploadAt (addCounter cMetricsUploaded (ct_Accepted ct) w)",
        OF trans [OF that [symmetric] sendMetricsBatch_eq]] by simp
  have s: "key_verified U v w1" if "sendSessionsBatch U items v = (b, w1)" for items v b w1
    using key_batch [where after_op = "onUploadSuccess U", OF trans [OF that [symmetric] sendSessionsBatch_eq]] by simp
  show ?thesis
    using assms loop [of "leaseEvents U (BatchSize (up_policy w))" "sendBatch U", OF _ _ e]
      loop [of "leaseMetrics U (BatchSize (up_policy w))" "sendMetricsBatch U", OF _ _ m]
      loop [of "leaseSessions U (BatchSize (up_policy w))" "sendSessionsBatch U", OF _ _ s]
      lease_ops key_verified_client [of w w]
    by (auto simp: FlushOnce_def FlushMetricsOnce_def FlushSessionsOnce_def split: if_splits)
qed



subsection \<open>Back-off\<close>

lemma widen_step:
  assumes "0 < sint base" "sint base \<le> 2 ^ 61" "0 \<le> sint b" "sint b \<le> sint maxBackoff"
  shows "sint (widen base b) = min (2 * (if b = 0 then sint base else sint b)) (sint maxBackoff)"
proof -
  define c where "c = (if b = 0 then base else b)"
  have m: "sint maxBackoff = 300000000000" by (simp add: maxBackoff_def second_def)
  have c: "0 \<le> sint c" "sint c \<le> 2 ^ 61" using assms m by (auto simp: c_def)
  have "i64 (sint c * 2) = c * 2" by (simp add: i64_def)
  moreover have "i64_in_range (sint c * 2)" using c by (simp add: i64_in_range_def)
  ultimately have "sint (c * 2) = sint c * 2" using sint_i64 [of "sint c * 2"] by simp
  then show ?thesis by (auto simp: widen_def Let_def c_def [symmetric] min_def) (auto simp: c_def)
qed

lemma widen_iterate:
  assumes base: "0 < sint base" "sint base \<le> 2 ^ 61"
  shows "sint ((widen base ^^ Suc n) 0) = min (2 ^ Suc n * sint base) (5 * 60 * 1000000000)"
proof (induction n)
  case 0
  have "sint (widen base 0) = min (2 * sint base) (sint maxBackoff)"
    using widen_step [OF base, of 0] by (simp add: maxBackoff_def second_def)
  then show ?case by (simp add: maxBackoff_def second_def)
next
  case (Suc n)
  let ?b = "(widen base ^^ Suc n) 0"
  have m: "sint maxBackoff = 300000000000" by (simp add: maxBackoff_def second_def)
  have pos: "0 < sint ?b" using Suc base by (simp add: min_def)
  have le: "sint ?b \<le> sint maxBackoff" using Suc m by simp
  have nz: "?b \<noteq> 0" using pos by auto
  have "sint ((widen base ^^ Suc (Suc n)) 0) = min (2 * sint ?b) (sint maxBackoff)"
    using widen_step [OF base less_imp_le [OF pos] le] nz by simp
  also have "\<dots> = min (2 ^ Suc (Suc n) * sint base) 300000000000"
    unfolding m Suc using base by (simp add: min_def)
  finally show ?case by simp
qed

text \<open>The back-off doubles and is capped. With a flush interval of at most \<open>2 ^ 61\<close> nanoseconds,
  after \<open>n\<close> failed sends in a row the delay before the next cycle is \<open>2 ^ n\<close> flush intervals, but
  at most five minutes, and never less than one flush interval.\<close>

theorem backoff_doubles:
  assumes "0 < sint (FlushInterval (up_policy w))" "sint (FlushInterval (up_policy w)) \<le> 2 ^ 61"
    and "up_mode w = StateActive" "up_backoff w = 0"
  shows "sint (cycleDelay ((widenBackoff ^^ n) w))
    = max (sint (FlushInterval (up_policy w))) (min (2 ^ n * sint (FlushInterval (up_policy w))) (5 * 60 * 1000000000))"
proof -
  let ?b = "FlushInterval (up_policy w)"
  have w: "(widenBackoff ^^ n) w = w\<lparr>up_backoff := (widen ?b ^^ n) 0\<rparr>"
    using assms(4) by (induction n) (simp_all add: widenBackoff_def)
  have "sint (cycleDelay ((widenBackoff ^^ n) w)) = max (sint ?b) (sint ((widen ?b ^^ n) 0))"
    using assms(3) by (simp add: w cycleDelay_def flushDelay_def Let_def max_def)
  also have "\<dots> = max (sint ?b) (min (2 ^ n * sint ?b) (5 * 60 * 1000000000))"
  proof (cases n)
    case 0
    with assms(1) show ?thesis by (simp add: max_def min_def)
  next
    case (Suc m)
    show ?thesis unfolding Suc widen_iterate [OF assms(1,2)] by simp
  qed
  finally show ?thesis .
qed

lemma backoff_doubles_witness:
  "sint (cycleDelay ((widenBackoff ^^ 3) offline_start)) = 240000000000"
proof -
  have "FlushInterval (up_policy offline_start) = 30000000000"
    by (simp add: offline_start_def New_def one_policy_def FlushInterval_def second_def)
  then show ?thesis
    using backoff_doubles [of offline_start 3] by (simp add: offline_start_def New_def)
qed

text \<open>An outage without a 401 leaves the mode alone.\<close>

lemma offline_retry:
  "\<exists>c'. retry_loop (always Net_Error) m p pl a (dec :: 'o target) ds c = (Inl (RetriesExhausted TransportError), c')"
proof (induction ds arbitrary: c)
  case Nil
  show ?case by (subst retry_loop.simps) (simp add: doOnce_def Let_def always_def)
next
  case (Cons d ds)
  then show ?case by (subst retry_loop.simps) (simp add: doOnce_def Let_def always_def)
qed

lemma offline_call:
  assumes "call (\<lambda>c. if B then (Inl e0, c) else postJSON (always Net_Error) path p (dec :: 'o target) c) w = (r, w')"
    "as_auth e0 = None"
  shows "\<exists>e. r = Inl e \<and> as_auth e = None \<and> up_mode w' = up_mode w"
proof (cases B)
  case False
  obtain c' where "retry_loop (always Net_Error) ''POST'' path (Some p) True dec retryDelays (up_client w)
      = (Inl (RetriesExhausted TransportError), c')"
    using offline_retry by blast
  with False assms show ?thesis
    by (cases "payload_ok p") (auto simp: call_def postJSON_def postJSONAuth_def doWithRetry_def)
qed (use assms in \<open>auto simp: call_def\<close>)

lemma offline_net: "ue_net offline_env = always Net_Error"
  by (simp add: offline_env_def)

lemma offline_batch:
  assumes "(b, w1) = (case call (\<lambda>c. if B then (Inl e0, c) else postJSON (ue_net offline_env) path p (dec :: 'o target) c) w of
        (Inl e, w) \<Rightarrow> (False, handleSendError offline_env e (nack_op w))
      | (Inr ct, w) \<Rightarrow> (True, after_op ct (ack_op w)))"
    and "\<And>w. up_mode (nack_op w) = up_mode w" "as_auth e0 = None"
  shows "up_mode w1 = up_mode w"
proof -
  obtain r w2 where send: "call (\<lambda>c. if B then (Inl e0, c) else postJSON (always Net_Error) path p dec c) w = (r, w2)"
    by (metis prod.exhaust)
  from offline_call [OF this assms(3)] obtain e where "r = Inl e" "as_auth e = None" "up_mode w2 = up_mode w" by blast
  with assms(1) [unfolded offline_net send] assms(2) show ?thesis by (simp add: handleSendError_def widenBackoff_def)
qed

lemma on_mode [simp]:
  "up_mode (snd (on_events U f w)) = up_mode w" "up_mode (snd (on_metrics U g w)) = up_mode w"
  "up_mode (snd (on_sessions U h w)) = up_mode w"
  by (simp_all add: on_events_def on_metrics_def on_sessions_def split: prod.splits)

lemma offline_flush:
  assumes "FlushOnce offline_env w = Some w' \<or> FlushMetricsOnce offline_env w = Some w'
    \<or> FlushSessionsOnce offline_env w = Some w'"
  shows "up_mode w' = up_mode w"
proof -
  have loop: "up_mode w' = up_mode w" if "flush_loop lease_op send_op w = Some w'"
    and l: "\<And>w r w1. lease_op w = (r, w1) \<Longrightarrow> up_mode w1 = up_mode w"
    and s: "\<And>items w b w1. send_op items w = (b, w1) \<Longrightarrow> up_mode w1 = up_mode w"
    for lease_op :: "uploader \<Rightarrow> (queue_error + 'x list) \<times> uploader" and send_op
    by (rule flush_loop_rule [where I = "\<lambda>_. True" and R = "\<lambda>a b. up_mode b = up_mode a", OF that(1)])
       (auto dest!: l s)
  have l: "leaseEvents U n v = (r, w1) \<Longrightarrow> up_mode w1 = up_mode v"
    "leaseMetrics U n v = (rm, w1) \<Longrightarrow> up_mode w1 = up_mode v"
    "leaseSessions U n v = (rs, w1) \<Longrightarrow> up_mode w1 = up_mode v" for U n v r rm rs w1
    by (auto simp: leaseEvents_def leaseMetrics_def leaseSessions_def
        dest: on_events_facts(5) on_metrics_facts(5) on_sessions_facts(5))
  have e: "up_mode w1 = up_mode v" if "sendBatch offline_env items v = (b, w1)" for items v b w1
    by (rule offline_batch [where after_op = "onUploadSuccess offline_env", OF trans [OF that [symmetric] sendBatch_eq]]) simp_all
  have m: "up_mode w1 = up_mode v" if "sendMetricsBatch offline_env items v = (b, w1)" for items v b w1
    by (rule offline_batch [where after_op = "\<lambda>ct w. setNow offline_env cLastUploadAt (addCounter cMetricsUploaded (ct_Accepted ct) w)",
        OF trans [OF that [symmetric] sendMetricsBatch_eq]]) simp_all
  have s: "up_mode w1 = up_mode v" if "sendSessionsBatch offline_env items v = (b, w1)" for items v b w1
    by (rule offline_batch [where after_op = "onUploadSuccess offline_env", OF trans [OF that [symmetric] sendSessionsBatch_eq]]) simp_all
  show ?thesis
    using assms loop [OF _ l(1) e] loop [OF _ l(2) m] loop [OF _ l(3) s]
    by (auto simp: FlushOnce_def FlushMetricsOnce_def FlushSessionsOnce_def split: if_splits)
qed

text \<open>The back-off is forgotten in the cycle that set it. Every flush ends by taking an empty lease
  for a success, so when the sessions queue, flushed last, is empty, a cycle that stays active ends
  with no back-off at all, even if it failed to send a batch of events because the backend was
  unreachable, and the next cycle comes after one plain flush interval.\<close>

theorem runCycle_forgets_backoff:
  assumes cycle: "runCycle U w = Some w'" and active: "up_mode w' = StateActive"
    and empty: "up_sessions w = []" and reads: "\<And>k. \<not> q_fail (ue_queue U k) S_Select"
    and ok: "table_ok (up_events w)" "table_ok (up_metrics w)"
  shows "up_backoff w' = 0 \<and> cycleDelay w' = (if sint (FlushInterval (up_policy w')) < 0 then 0
    else FlushInterval (up_policy w'))"
proof -
  from cycle have "up_backoff w' = 0"
  proof (cases rule: runCycle_cases)
    case 1
    with active show ?thesis by simp
  next
    case (2 w1 w2)
    define w0 where "w0 = RotateCheckOnce U (cycle_start U w)"
    have "queues w0 = queues w"
      using RotateCheckOnce_facts(1) [where U = U and w = "cycle_start U w"] cycle_start_facts(1)
      by (simp add: w0_def same_state_def)
    note q0 = queuesD [OF this]
    have w2: "up_sessions w2 = []"
      using FlushOnce_facts [OF 2(2) [folded w0_def]] FlushMetricsOnce_facts [OF 2(3)] q0 empty ok by simp
    show ?thesis
    proof (cases "up_mode w2 = StateActive")
      case True
      obtain r w3 where l: "leaseSessions U (BatchSize (up_policy w2)) w2 = (r, w3)" by (metis prod.exhaust)
      have "\<not> q_fail (q_at U w2) S_Select" using reads by (simp add: q_at_def)
      then have "r = Inr []"
        using lease_ops(3) [OF l] w2 by (auto simp: LeaseSessionsBatch_def Let_def split: if_splits)
      then have "flush_loop (leaseSessions U (BatchSize (up_policy w2))) (sendSessionsBatch U) w2 = Some (onFlushSuccess w3)"
        using l by (subst flush_loop.simps) simp
      with 2(4) True show ?thesis by (auto simp: FlushSessionsOnce_def)
    next
      case False
      with 2(4) active show ?thesis by (simp add: FlushSessionsOnce_def)
    qed
  qed
  with active show ?thesis by (auto simp: cycleDelay_def flushDelay_def Let_def)
qed

lemma runCycle_forgets_backoff_witness:
  "\<exists>w'. runCycle offline_env offline_start = Some w' \<and> up_backoff w' = 0"
proof -
  obtain w' where w': "runCycle offline_env offline_start = Some w'"
    using cycle_total [OF offline_writable offline_ok] by blast
  have active: "up_mode offline_start = StateActive" by (simp add: offline_start_def New_def)
  obtain r w1 where hb: "call (Heartbeat (ue_net offline_env) (ue_collectorID offline_env)
      (Some (telemetry_of offline_env offline_start))) (tick offline_start) = (r, w1)" by (metis prod.exhaust)
  have "call (\<lambda>c. if False then (Inl TransportError, c) else postJSON (always Net_Error) heartbeat_path
      (P_Heartbeat (ue_collectorID offline_env) (Some (telemetry_of offline_env offline_start))) (into dec_heartbeat) c)
      (tick offline_start) = (r, w1)"
    using hb by (simp add: Heartbeat_def [abs_def] offline_net)
  from offline_call [OF this] obtain e where e: "r = Inl e" "as_auth e = None" "up_mode w1 = up_mode offline_start"
    by auto
  have start: "up_mode (cycle_start offline_env offline_start) = StateActive"
    using active e hb by (simp add: cycle_start_def HeartbeatOnce_def Let_def)
  have "up_mode w' = StateActive"
    using w'
  proof (cases rule: runCycle_cases)
    case (2 w1 w2)
    have "up_mode (RotateCheckOnce offline_env (cycle_start offline_env offline_start)) = StateActive"
      using RotateCheckOnce_facts(1) [where U = offline_env] start by (simp add: same_state_def)
    with 2 offline_flush show ?thesis by metis
  qed (use start in simp)
  moreover have "up_sessions offline_start = []" by (simp add: offline_start_def New_def)
  moreover have "\<And>k. \<not> q_fail (ue_queue offline_env k) S_Select" by (simp add: offline_env_def good_env_def)
  ultimately show ?thesis using runCycle_forgets_backoff [OF w' _ _ _ offline_ok(1,2)] w' by blast
qed

end
