(* ===== verification/Lease_Safety.thy ===== *)
theory Lease_Safety
  imports Uploader_Props
begin

text \<open>
  Leases of a flush. Each round of the uploader takes a lease and, whatever the backend answers,
  ends it: the rows are acknowledged or given back. So a flush of queues without leases, whose
  updates are written, leaves no lease behind.
\<close>

definition idle :: "'p table \<Rightarrow> bool" where
  "idle t \<longleftrightarrow> (\<forall>r \<in> set (tab_rows t). row_state r \<noteq> Leased)"

definition idle_sessions :: "session_row list \<Rightarrow> bool" where
  "idle_sessions rows \<longleftrightarrow> (\<forall>r \<in> set rows. sr_State r \<noteq> Leased)"

subsection \<open>One round\<close>

lemma idle_round:
  assumes "idle t" "lease_table E n d t = (Inr items, t1)" "\<not> q_fail E' S_Update"
  shows "idle (snd (ack_table E' (map it_ID items) t1))" "idle (snd (nack_table E' (map it_ID items) t1))"
proof -
  note l = lease_table_Inr [OF assms(2)]
  have ids: "map it_ID items = map row_id (selectLeasable (q_now E) n (tab_rows t))"
    by (simp add: l(1) scanItem_def)
  have "items = [] \<Longrightarrow> t1 = t" using l ids by (simp add: updateByIDs_Nil)
  moreover have "idle (t1\<lparr>tab_rows := updateByIDs f (map it_ID items) (tab_rows t1)\<rparr>)"
    if "\<And>r :: 'a qrow. row_state (f r) \<noteq> Leased" for f
    unfolding l(2) ids using assms(1) that by (auto simp: idle_def updateByIDs_def)
  moreover have "row_state (set_acked a r) \<noteq> Leased" "row_state (set_nacked r) \<noteq> Leased" for a and r :: "'a qrow"
    by (simp_all add: set_acked_def set_nacked_def)
  ultimately show "idle (snd (ack_table E' (map it_ID items) t1))" "idle (snd (nack_table E' (map it_ID items) t1))"
    using assms(1,3) by (auto simp: ack_table_def nack_table_def update_table_def)
qed

lemma idle_lease_fails: "idle t \<Longrightarrow> lease_table E n d t = (Inl e, t1) \<Longrightarrow> idle t1"
  using lease_table_Inl by blast

lemma idle_lease_empty: "idle t \<Longrightarrow> lease_table E n d t = (Inr [], t1) \<Longrightarrow> idle t1"
  using lease_table_Inr [of E n d t "[]" t1] by (simp add: updateByIDs_Nil)

text \<open>The loop of updates over the keys of a batch.\<close>

lemma update_each_done:
  assumes "\<forall>j. \<not> q_fail E (S_UpdateItem j)" "\<And>r. sr_State (f r) \<noteq> Leased" "\<And>r. session_key (f r) = session_key r"
    and "\<forall>r \<in> set rows. sr_State r = Leased \<longrightarrow> session_key r \<in> set keys"
  shows "idle_sessions (snd (update_each E f k keys rows))"
  using assms(4)
proof (induction keys arbitrary: k rows)
  case Nil
  then show ?case by (auto simp: idle_sessions_def)
next
  case (Cons key keys)
  obtain s n where key: "key = (s, n)" by fastforce
  have "\<forall>r \<in> set (update_revision f s n rows). sr_State r = Leased \<longrightarrow> session_key r \<in> set keys"
    using Cons.prems assms(2,3) by (auto simp: update_revision_alt key)
  with Cons.IH assms(1) show ?case by (simp add: key)
qed

lemma update_each_leases:
  assumes "\<And>r. session_key (f r) = session_key r" "\<forall>r \<in> set rows. sr_State r = Leased \<longrightarrow> session_key r \<in> K"
  shows "\<forall>r \<in> set (snd (update_each E f k keys rows)). sr_State r = Leased \<longrightarrow> session_key r \<in> K \<union> set keys"
  using assms(2)
proof (induction keys arbitrary: k rows K)
  case (Cons key keys)
  obtain s n where key: "key = (s, n)" by fastforce
  have "\<forall>r \<in> set (update_revision f s n rows). sr_State r = Leased \<longrightarrow> session_key r \<in> insert key K"
    using Cons.prems assms(1) by (auto simp: update_revision_alt key)
  from Cons.IH [OF this] Cons.prems show ?case by (auto simp: key)
qed auto

lemma session_key_setters [simp]:
  "session_key (session_set_leased u r) = session_key r" "session_key (session_set_acked u r) = session_key r"
  "session_key (session_set_nacked r) = session_key r"
  by (simp_all add: session_key_def)

lemma idle_sessions_round:
  assumes "idle_sessions rows" "LeaseSessionsBatch E n d rows = (Inr items, rows1)" "\<forall>j. \<not> q_fail E' (S_UpdateItem j)"
  shows "idle_sessions (snd (AckSessions E' (map item_lease items) rows1))"
    "idle_sessions (snd (NackSessions E' (map item_lease items) rows1))"
proof -
  have "\<forall>r \<in> set rows1. sr_State r = Leased \<longrightarrow> session_key r \<in> {} \<union> set (map item_lease items)"
    unfolding LeaseSessionsBatch_Inr(1) [OF assms(2)]
    by (rule update_each_leases) (use assms(1) in \<open>auto simp: idle_sessions_def\<close>)
  then have k: "\<forall>r \<in> set rows1. sr_State r = Leased \<longrightarrow> session_key r \<in> set (map item_lease items)" by simp
  show "idle_sessions (snd (AckSessions E' (map item_lease items) rows1))"
    "idle_sessions (snd (NackSessions E' (map item_lease items) rows1))"
    unfolding AckSessions_def NackSessions_def finishSessions_def
    by (rule update_each_done [OF assms(3) _ _ k]; simp add: session_set_acked_def session_set_nacked_def session_key_def)+
qed

lemma idle_sessions_lease_empty:
  "idle_sessions rows \<Longrightarrow> LeaseSessionsBatch E n d rows = (Inr [], rows1) \<Longrightarrow> idle_sessions rows1"
  using LeaseSessionsBatch_Inr(1) [of E n d rows "[]" rows1] by simp

lemma idle_sessions_lease_fails:
  assumes "idle_sessions rows" "LeaseSessionsBatch E n d rows = (Inl e, rows1)" "\<forall>j. \<not> q_fail E (S_UpdateItem j)"
  shows "idle_sessions rows1"
proof -
  have "fst (update_each E f k keys rows) = Inr ()" for f k keys
    by (rule update_each_writes [OF assms(3)])
  with assms(1,2) show ?thesis
    by (auto simp: LeaseSessionsBatch_def Let_def case_prod_beta split: if_splits sum.splits)
qed

subsection \<open>A flush\<close>

text \<open>The three loops, over the queue that \<open>get\<close> reads.\<close>

lemma flush_loop_idle:
  fixes get :: "uploader \<Rightarrow> 'q"
  assumes flush: "flush_loop lease send w = Some w'" and start: "P (get w)"
    and frame: "\<And>w. get (addCounter cUploadErrors 1 w) = get w" "\<And>w. get (onFlushSuccess w) = get w"
    and fail: "\<And>w e w1. P (get w) \<Longrightarrow> lease w = (Inl e, w1) \<Longrightarrow> P (get w1)"
    and empty: "\<And>w w1. P (get w) \<Longrightarrow> lease w = (Inr [], w1) \<Longrightarrow> P (get w1)"
    and round: "\<And>w items w1 b w2. P (get w) \<Longrightarrow> lease w = (Inr items, w1) \<Longrightarrow> send items w1 = (b, w2) \<Longrightarrow> P (get w2)"
  shows "P (get w')"
proof (rule flush_loop_rule [where I = "\<lambda>w. P (get w)" and R = "\<lambda>a b. P (get b)", OF flush start])
  show "P (get (addCounter cUploadErrors 1 w1))" if "P (get w)" "lease w = (Inl e, w1)" for w e w1
    unfolding frame by (rule fail [OF that])
  show "P (get (onFlushSuccess w1))" if "P (get w)" "lease w = (Inr [], w1)" for w w1
    unfolding frame by (rule empty [OF that])
  show "P (get w2)" if "P (get w)" "lease w = (Inr items, w1)" "send items w1 = (False, w2)" for w items w1 w2
    by (rule round [OF that])
  show "P (get w2) \<and> P (get w2)" if "P (get w)" "lease w = (Inr items, w1)" "send items w1 = (True, w2)" for w items w1 w2
    using round [OF that] by simp
qed

lemma flush_idle:
  fixes U :: up_env
  assumes "writable U"
  shows "FlushOnce U w = Some w' \<Longrightarrow> idle (up_events w) \<Longrightarrow> idle (up_events w')"
    and "FlushMetricsOnce U w = Some w' \<Longrightarrow> idle (up_metrics w) \<Longrightarrow> idle (up_metrics w')"
    and "FlushSessionsOnce U w = Some w' \<Longrightarrow> idle_sessions (up_sessions w) \<Longrightarrow> idle_sessions (up_sessions w')"
proof -
  note wr = q_at_writable [OF assms]
  show "idle (up_events w')" if "FlushOnce U w = Some w'" "idle (up_events w)"
  proof (cases "up_mode w = StateActive")
    case True
    with that(1) have "flush_loop (leaseEvents U (BatchSize (up_policy w))) (sendBatch U) w = Some w'"
      by (simp add: FlushOnce_def)
    then show ?thesis
    proof (rule flush_loop_idle [where get = up_events and P = idle, OF _ that(2)])
      show "idle (up_events v2)" if "idle (up_events v)" "leaseEvents U m v = (Inr items, v1)" "sendBatch U items v1 = (b, v2)"
        for m v items v1 b v2
        using idle_round [of "up_events v" "q_at U v" "sint m" leaseDuration items "up_events v1" "q_at U v1"] lease_ops(1) [OF that(2)]
          sendBatch_facts(2) [OF that(3)] wr that(1)
        by (cases b) (simp_all add: queues_eq LeaseBatch_def Ack_def Nack_def)
    qed (use lease_ops(1) idle_lease_fails idle_lease_empty in \<open>auto simp: LeaseBatch_def addCounter_def onFlushSuccess_def, blast+\<close>)
  qed (use that in \<open>simp add: FlushOnce_def\<close>)
  show "idle (up_metrics w')" if "FlushMetricsOnce U w = Some w'" "idle (up_metrics w)"
  proof (cases "up_mode w = StateActive")
    case True
    with that(1) have "flush_loop (leaseMetrics U (BatchSize (up_policy w))) (sendMetricsBatch U) w = Some w'"
      by (simp add: FlushMetricsOnce_def)
    then show ?thesis
    proof (rule flush_loop_idle [where get = up_metrics and P = idle, OF _ that(2)])
      show "idle (up_metrics v2)" if "idle (up_metrics v)" "leaseMetrics U m v = (Inr items, v1)" "sendMetricsBatch U items v1 = (b, v2)"
        for m v items v1 b v2
        using idle_round [of "up_metrics v" "q_at U v" "sint m" leaseDuration items "up_metrics v1" "q_at U v1"] lease_ops(2) [OF that(2)]
          sendMetricsBatch_facts(2) [OF that(3)] wr that(1)
        by (cases b) (simp_all add: queues_eq LeaseMetricsBatch_def AckMetrics_def NackMetrics_def)
    qed (use lease_ops(2) idle_lease_fails idle_lease_empty in \<open>auto simp: LeaseMetricsBatch_def addCounter_def onFlushSuccess_def, blast+\<close>)
  qed (use that in \<open>simp add: FlushMetricsOnce_def\<close>)
  show "idle_sessions (up_sessions w')" if "FlushSessionsOnce U w = Some w'" "idle_sessions (up_sessions w)"
  proof (cases "up_mode w = StateActive")
    case True
    with that(1) have "flush_loop (leaseSessions U (BatchSize (up_policy w))) (sendSessionsBatch U) w = Some w'"
      by (simp add: FlushSessionsOnce_def)
    then show ?thesis
    proof (rule flush_loop_idle [where get = up_sessions and P = idle_sessions, OF _ that(2)])
      show "idle_sessions (up_sessions v2)" if "idle_sessions (up_sessions v)" "leaseSessions U m v = (Inr items, v1)"
        "sendSessionsBatch U items v1 = (b, v2)" for m v items v1 b v2
        using idle_sessions_round [of "up_sessions v" "q_at U v" "sint m" leaseDuration items "up_sessions v1" "q_at U v1"]
          lease_ops(3) [OF that(2)] sendSessionsBatch_facts(2) [OF that(3)] wr that(1)
        by (cases b) (simp_all add: queues_eq)
      show "idle_sessions (up_sessions v1)" if "idle_sessions (up_sessions v)" "leaseSessions U m v = (Inl e, v1)" for m v e v1
        using lease_ops(3) [OF that(2)] idle_sessions_lease_fails wr that(1) by blast
      show "idle_sessions (up_sessions v1)" if "idle_sessions (up_sessions v)" "leaseSessions U m v = (Inr [], v1)" for m v v1
        using lease_ops(3) [OF that(2)] idle_sessions_lease_empty that(1) by blast
    qed (simp_all add: addCounter_def onFlushSuccess_def)
  qed (use that in \<open>simp add: FlushSessionsOnce_def\<close>)
qed

end
