(* ===== verification/Codex_Safety.thy ===== *)
theory Codex_Safety
  imports Codex_Repo
begin

text \<open>
  What \<open>internal/codexrepo\<close> promises: the label that leaves the machine is a short valid name and
  never a path; a directory has a key exactly when it has a label; the caches of the resolver
  never change an answer as long as the session files grow by whole lines.
\<close>

subsection \<open>Runes of a part of a string\<close>

definition good_chunk :: "nat \<times> string \<Rightarrow> bool" where
  "good_chunk c \<longleftrightarrow> (\<exists>s. s \<noteq> [] \<and> decode_rune s = (fst c, length (snd c))
     \<and> snd c = take (length (snd c)) s \<and> \<not> bad_chunk c)"

lemma good_chunk_decode:
  assumes "c \<in> set (rune_chunks s)" "\<not> bad_chunk c"
  shows "good_chunk c"
  using assms(1)
proof (induction s rule: rune_chunks.induct)
  case (1 s)
  then have ne: "s \<noteq> []" by auto
  obtain r w where d: "decode_rune s = (r, w)" by fastforce
  have w: "w \<le> length s" using decode_rune_width_le [of s] d by simp
  from 1(2) ne d consider "c = (r, take w s)" | "c \<in> set (rune_chunks (drop w s))"
    by (auto simp: rune_chunks_step)
  then show ?case
  proof cases
    case 1
    with ne d w assms(2) show ?thesis unfolding good_chunk_def by (intro exI [of _ s]) simp
  next
    case 2
    then show ?thesis using "1.IH" ne d by simp
  qed
qed

lemma rune_chunks_good:
  assumes "list_all good_chunk cs"
  shows "rune_chunks (chunk_bytes cs) = cs"
  using assms
proof (induction cs)
  case (Cons c cs)
  then obtain s where s: "s \<noteq> []" "decode_rune s = (fst c, length (snd c))"
    "snd c = take (length (snd c)) s" "\<not> bad_chunk c" unfolding good_chunk_def by auto
  let ?t = "snd c @ chunk_bytes cs"
  have pos: "1 \<le> length (snd c)" using decode_rune_width [OF s(1)] s(2) by simp
  then have ne: "?t \<noteq> []" by auto
  have "decode_rune (take (length (snd c)) s @ chunk_bytes cs) = (fst c, length (snd c))"
    by (rule decode_rune_local [OF s(1,2)]) (use s(3,4) in \<open>simp flip: s(3)\<close>)
  then have "decode_rune ?t = (fst c, length (snd c))" using s(3) by metis
  with Cons show ?case by (simp add: rune_chunks_step [OF ne])
qed simp

text \<open>A string made of some of the good runes of another.\<close>

lemma rune_chunks_subseq:
  assumes "set cs \<subseteq> set (rune_chunks s)" "list_all (\<lambda>c. \<not> bad_chunk c) cs"
  shows "rune_chunks (chunk_bytes cs) = cs" "valid_utf8 (chunk_bytes cs)"
proof -
  have "list_all good_chunk cs"
    using assms good_chunk_decode unfolding list_all_iff by blast
  then show r: "rune_chunks (chunk_bytes cs) = cs" by (rule rune_chunks_good)
  show "valid_utf8 (chunk_bytes cs)" using assms(2) by (simp add: valid_utf8_def r)
qed

lemma trim_space_chunks:
  assumes "valid_utf8 s"
  shows "valid_utf8 (trim_space s)" "set (trim_space s) \<subseteq> set s"
proof -
  define cs where "cs = rev (dropWhile space_chunk (rev (dropWhile space_chunk (rune_chunks s))))"
  have sub: "set cs \<subseteq> set (rune_chunks s)"
    by (auto simp: cs_def dest!: set_dropWhileD)
  have good: "list_all (\<lambda>c. \<not> bad_chunk c) cs"
    using assms sub by (auto simp: valid_utf8_def list_all_iff)
  have eq: "trim_space s = chunk_bytes cs" by (simp add: trim_space_def cs_def)
  show "valid_utf8 (trim_space s)" unfolding eq by (rule rune_chunks_subseq [OF sub good])
  have "set (chunk_bytes cs) \<subseteq> set (chunk_bytes (rune_chunks s))"
    using sub by (auto simp: chunk_bytes_def)
  then show "set (trim_space s) \<subseteq> set s" by (simp add: eq)
qed

lemma to_valid_utf8_facts: "valid_utf8 (to_valid_utf8 s)" "set (to_valid_utf8 s) \<subseteq> set s"
proof -
  let ?cs = "filter (\<lambda>c. \<not> bad_chunk c) (rune_chunks s)"
  show "valid_utf8 (to_valid_utf8 s)"
    unfolding to_valid_utf8_def by (rule rune_chunks_subseq [of _ s]) (auto simp: list_all_iff)
  have "set (chunk_bytes ?cs) \<subseteq> set (chunk_bytes (rune_chunks s))"
    by (auto simp: chunk_bytes_def)
  then show "set (to_valid_utf8 s) \<subseteq> set s" by (simp add: to_valid_utf8_def)
qed

lemma path_base_slash: "CHR ''/'' \<in> set (path_base p) \<Longrightarrow> path_base p = ''/''"
  by (auto simp: path_base_def path_last_def Let_def split: if_splits dest: set_takeWhileD)

subsection \<open>The label\<close>

text \<open>C25: no path leaves the machine as a repository label. Whatever working directory a session file
  names and whatever \<open>git\<close> answers, the label is empty, or valid UTF-8 of at most 240 runes that
  contains no slash and does not start with a dot.\<close>

theorem canonicalRepo_safe:
  "CHR ''/'' \<notin> set (canonicalRepo X cwd) \<and> valid_utf8 (canonicalRepo X cwd)
   \<and> length (rune_chunks (canonicalRepo X cwd)) \<le> 240 \<and> \<not> has_prefix (canonicalRepo X cwd) ''.''"
proof -
  have label: "CHR ''/'' \<notin> set (projectLabel p) \<and> valid_utf8 (projectLabel p)
     \<and> length (rune_chunks (projectLabel p)) \<le> 240 \<and> \<not> has_prefix (projectLabel p) ''.''" for p
  proof -
    define name where "name = trim_space (to_valid_utf8 (path_base p))"
    have name: "valid_utf8 name" "set name \<subseteq> set (path_base p)"
      unfolding name_def using trim_space_chunks [OF to_valid_utf8_facts(1) [of "path_base p"]] to_valid_utf8_facts(2)
      by blast+
    have slash: "name = ''/''" if "CHR ''/'' \<in> set name"
    proof -
      have "path_base p = ''/''" using name(2) that path_base_slash by blast
      then show ?thesis unfolding name_def
        by (simp add: to_valid_utf8_def trim_space_def rune_chunks_ascii byte_def bad_chunk_def rune_error_def is_space_def)
    qed
    define cs where "cs = take maxProjectLabelRunes (rune_chunks name)"
    have cs: "set cs \<subseteq> set (rune_chunks name)" "list_all (\<lambda>c. \<not> bad_chunk c) cs"
      using name(1) set_take_subset by (fastforce simp: cs_def valid_utf8_def list_all_iff)+
    have sub: "set (chunk_bytes cs) \<subseteq> set name"
    proof -
      have "set (chunk_bytes cs) \<subseteq> set (chunk_bytes (rune_chunks name))"
        using cs(1) by (auto simp: chunk_bytes_def)
      then show ?thesis by simp
    qed
    have dot: "\<not> has_prefix (chunk_bytes cs) ''.''" if "\<not> has_prefix name ''.''"
    proof -
      have "chunk_bytes cs @ chunk_bytes (drop maxProjectLabelRunes (rune_chunks name)) = name"
        unfolding cs_def chunk_bytes_simps(3) [symmetric] by simp
      then show ?thesis using that unfolding has_prefix_iff by (metis append.assoc)
    qed
    show ?thesis
      using name(1) slash sub dot rune_chunks_subseq [OF cs]
      by (auto simp: projectLabel_def Let_def name_def [symmetric] cs_def [symmetric] maxProjectLabelRunes_def
          has_prefix_def) (auto simp: cs_def maxProjectLabelRunes_def)
  qed
  show ?thesis using label by (simp add: canonicalRepo_def has_prefix_def)
qed

subsection \<open>Reading in pieces\<close>

text \<open>Data that ends with the end of a line, and has no line the scanner would stop at.\<close>

definition whole_lines :: "string \<Rightarrow> bool" where
  "whole_lines d \<longleftrightarrow> (\<exists>ls. d = concat (map (\<lambda>l. l @ [newline]) ls)
     \<and> (\<forall>l \<in> set ls. newline \<notin> set l \<and> length l < maxSessionLineBytes))"

lemma whole_lines_Nil [simp]: "whole_lines []"
  unfolding whole_lines_def by (intro exI [of _ "[]"]) simp

lemma whole_lines_Cons:
  assumes "newline \<notin> set l" "length l < maxSessionLineBytes" "whole_lines d"
  shows "whole_lines (l @ newline # d)"
proof -
  obtain ls where "d = concat (map (\<lambda>l. l @ [newline]) ls)"
    "\<forall>l \<in> set ls. newline \<notin> set l \<and> length l < maxSessionLineBytes"
    using assms(3) unfolding whole_lines_def by blast
  with assms(1,2) show ?thesis unfolding whole_lines_def by (intro exI [of _ "l # ls"]) simp
qed

lemma scan_lines_Nil [simp]: "scan_lines [] = []"
  by (simp add: scan_lines.simps)

lemma scan_lines_line:
  assumes "newline \<notin> set l" "length l < maxSessionLineBytes"
  shows "scan_lines (l @ newline # t) = drop_cr l # scan_lines t"
proof -
  have "takeWhile (\<lambda>c. c \<noteq> newline) (l @ newline # t) = l"
    using assms(1) by (subst takeWhile_append2) auto
  with assms(2) show ?thesis by (subst scan_lines.simps) (simp add: Let_def)
qed

lemma scan_lines_append:
  assumes "whole_lines a"
  shows "scan_lines (a @ b) = scan_lines a @ scan_lines b"
proof -
  obtain ls where "a = concat (map (\<lambda>l. l @ [newline]) ls)"
    "\<forall>l \<in> set ls. newline \<notin> set l \<and> length l < maxSessionLineBytes"
    using assms unfolding whole_lines_def by blast
  then show ?thesis
    by (induction ls arbitrary: a) (simp_all add: scan_lines_line)
qed

lemma fold_lines_append:
  "whole_lines a \<Longrightarrow> fold_lines X dec app (a @ b) cwd = fold_lines X dec app b (fold_lines X dec app a cwd)"
  by (simp add: fold_lines_def scan_lines_append)

subsection \<open>The caches\<close>

text \<open>The answers of a resolver that reads the whole session file each time.\<close>

definition uncached_codex :: "repo_env \<Rightarrow> string \<Rightarrow> resolver \<Rightarrow> string" where
  "uncached_codex X sid r =
     (let path = fst (findSession X sid r) in
      if validConversationID X sid \<and> path \<noteq> [] \<and> rx_stat X path \<noteq> None
      then canonicalRepo X (readLatestCWD X path sid) else [])"

definition uncached_claude :: "repo_env \<Rightarrow> string \<Rightarrow> resolver \<Rightarrow> string" where
  "uncached_claude X sid r =
     (let path = fst (findClaudeSession X sid r) in
      if validConversationID X sid \<and> path \<noteq> [] \<and> rx_stat X path \<noteq> None
      then canonicalRepo X (readLatestClaudeCWD X path sid [] 0) else [])"

text \<open>Session files that hold whole lines, and grow only at their end.\<close>

definition line_files :: "repo_env \<Rightarrow> bool" where
  "line_files X \<longleftrightarrow> (\<forall>p n t. rx_stat X p = Some (n, t) \<longrightarrow>
     rx_seek X p \<and> (\<exists>d. rx_read X p = Some d \<and> length d = n \<and> whole_lines d))"

definition grows :: "repo_env \<Rightarrow> repo_env \<Rightarrow> bool" where
  "grows X X' \<longleftrightarrow> rx_json X' = rx_json X \<and> rx_git X' = rx_git X \<and> rx_isdir X' = rx_isdir X
     \<and> (\<forall>p d. rx_read X p = Some d \<longrightarrow> (\<exists>x. rx_read X' p = Some (d @ x)))"

definition exact :: "repo_env \<Rightarrow> (string \<Rightarrow> string) \<Rightarrow> (string \<Rightarrow> string) \<Rightarrow> cache_entry \<Rightarrow> bool" where
  "exact X latest kept e \<longleftrightarrow> (\<exists>a b. rx_read X (ce_path e) = Some (a @ b) \<and> length a = ce_size e \<and> whole_lines a
     \<and> ce_repo e = canonicalRepo X (latest a) \<and> ce_cwd e = kept a)"

abbreviation codex_latest :: "repo_env \<Rightarrow> string \<Rightarrow> string \<Rightarrow> string" where
  "codex_latest X sid d \<equiv> fold_lines X dec_session (\<lambda>ev. applicableCWD ev sid) d []"

abbreviation claude_latest :: "repo_env \<Rightarrow> string \<Rightarrow> string \<Rightarrow> string" where
  "claude_latest X sid d \<equiv> fold_lines X dec_claude (\<lambda>ev. applicableClaudeCWD ev sid) d []"

definition caches_exact :: "repo_env \<Rightarrow> resolver \<Rightarrow> bool" where
  "caches_exact X r \<longleftrightarrow>
     (\<forall>sid e. rs_cache r sid = Some e \<longrightarrow> exact X (codex_latest X sid) (\<lambda>_. []) e)
     \<and> (\<forall>sid e. rs_claudeCache r sid = Some e \<longrightarrow> exact X (claude_latest X sid) (claude_latest X sid) e)"

lemma canonicalRepo_cong:
  "rx_git X' = rx_git X \<Longrightarrow> rx_isdir X' = rx_isdir X \<Longrightarrow> canonicalRepo X' cwd = canonicalRepo X cwd"
  by (simp add: canonicalRepo_def resolvedRepoPath_def gitCommonRoot_def)

lemma caches_grow:
  assumes "caches_exact X r" "grows X X'"
  shows "caches_exact X' r"
proof -
  note g = assms(2) [unfolded grows_def]
  have c: "canonicalRepo X' = canonicalRepo X"
    by (rule ext) (rule canonicalRepo_cong; use g in blast)
  have l: "\<And>sid. codex_latest X' sid = codex_latest X sid" "\<And>sid. claude_latest X' sid = claude_latest X sid"
    using g by (simp_all add: fold_lines_def fun_eq_iff)
  have "exact X' latest kept e" if "exact X latest kept e" for latest kept e
    using that g unfolding exact_def c by (metis append.assoc)
  with assms(1) show ?thesis
    unfolding caches_exact_def l by blast
qed

lemma RepoKey_maps [simp]:
  "rs_index (snd (RepoKey X cwd r)) = rs_index r" "rs_cache (snd (RepoKey X cwd r)) = rs_cache r"
  "rs_claudeIndex (snd (RepoKey X cwd r)) = rs_claudeIndex r"
  "rs_claudeCache (snd (RepoKey X cwd r)) = rs_claudeCache r"
  by (auto simp: RepoKey_def fallbackHash_def repoKeySalt_def persistSalt_def Let_def
      split: prod.splits option.splits)

lemma find_maps [simp]:
  "rs_cache (snd (findSession X sid r)) = rs_cache r"
  "rs_claudeCache (snd (findSession X sid r)) = rs_claudeCache r"
  "rs_cache (snd (findClaudeSession X sid r)) = rs_cache r"
  "rs_claudeCache (snd (findClaudeSession X sid r)) = rs_claudeCache r"
  by (simp_all add: findSession_def findClaudeSession_def refreshIndex_def refreshClaudeIndex_def Let_def)

lemma exact_whole:
  assumes "exact X latest kept e" "rx_read X (ce_path e) = Some d"
  obtains a b where "d = a @ b" "whole_lines a" "length a = ce_size e"
    "ce_repo e = canonicalRepo X (latest a)" "ce_cwd e = kept a"
  using assms unfolding exact_def by auto

lemma resolveEntry_exact:
  assumes "caches_exact X r" "line_files X"
  shows "ce_repo (fst (resolveEntry X sid r)) = uncached_codex X sid r"
    "caches_exact X (snd (resolveEntry X sid r))"
proof -
  obtain path r1 where f: "findSession X sid r = (path, r1)" by fastforce
  have r1: "rs_cache r1 = rs_cache r" "rs_claudeCache r1 = rs_claudeCache r"
    using find_maps(1,2) [of X sid r] f by simp_all
  have "ce_repo (fst (resolveEntry X sid r)) = uncached_codex X sid r \<and> caches_exact X (snd (resolveEntry X sid r))"
  proof (cases "validConversationID X sid \<and> path \<noteq> [] \<and> rx_stat X path \<noteq> None")
    case False
    with assms(1) r1 show ?thesis
      by (auto simp: resolveEntry_def uncached_codex_def f no_entry_def caches_exact_def Let_def split: option.splits if_splits)
  next
    case True
    then obtain n t where st: "rx_stat X path = Some (n, t)" by auto
    obtain d where d: "rx_read X path = Some d" "length d = n" "whole_lines d"
      using assms(2) st unfolding line_files_def by blast
    have un: "uncached_codex X sid r = canonicalRepo X (codex_latest X sid d)"
      using True by (simp add: uncached_codex_def f Let_def readLatestCWD_def d(1))
    show ?thesis
    proof (cases "\<exists>c. rs_cache r1 sid = Some c \<and> ce_path c = path \<and> ce_size c = n \<and> ce_mod c = t")
      case hit: True
      then obtain c where c: "rs_cache r1 sid = Some c" "ce_path c = path" "ce_size c = n" "ce_mod c = t" by blast
      have e: "exact X (codex_latest X sid) (\<lambda>_. []) c" using assms(1) c(1) r1 by (simp add: caches_exact_def)
      from d(1) c(2) have "rx_read X (ce_path c) = Some d" by simp
      obtain a b where a: "d = a @ b" "length a = ce_size c" "ce_repo c = canonicalRepo X (codex_latest X sid a)"
        using exact_whole [OF e \<open>rx_read X (ce_path c) = Some d\<close>] by metis
      then have "ce_repo c = canonicalRepo X (codex_latest X sid d)" using c(3) d(2) by simp
      moreover have "resolveEntry X sid r = (c, r1)" using True st c by (simp add: resolveEntry_def f)
      ultimately show ?thesis using un assms(1) r1 by (simp add: caches_exact_def)
    next
      case False
      obtain key r2 where k: "RepoKey X (codex_latest X sid d) r1 = (key, r2)" by fastforce
      note r2 = RepoKey_maps [of X "codex_latest X sid d" r1, unfolded k, simplified]
      define e where "e = \<lparr>ce_path = path, ce_size = n, ce_mod = t, ce_cwd = [],
        ce_repo = canonicalRepo X (codex_latest X sid d), ce_key = key\<rparr>"
      have "resolveEntry X sid r = (e, r2\<lparr>rs_cache := (rs_cache r2)(sid \<mapsto> e)\<rparr>)"
        using True st False
        by (cases "rs_cache r1 sid") (simp_all add: resolveEntry_def f readLatestCWD_def d(1) k e_def Let_def, blast)
      moreover have "exact X (codex_latest X sid) (\<lambda>_. []) e"
        unfolding exact_def by (intro exI [of _ d] exI [of _ "[]"]) (simp add: e_def d)
      ultimately show ?thesis using un assms(1) r1 by (auto simp: caches_exact_def r2 e_def)
    qed
  qed
  then show "ce_repo (fst (resolveEntry X sid r)) = uncached_codex X sid r"
    "caches_exact X (snd (resolveEntry X sid r))" by blast+
qed

lemma resolveClaudeEntry_exact:
  assumes "caches_exact X r" "line_files X"
  shows "ce_repo (fst (resolveClaudeEntry X sid r)) = uncached_claude X sid r"
    "caches_exact X (snd (resolveClaudeEntry X sid r))"
proof -
  obtain path r1 where f: "findClaudeSession X sid r = (path, r1)" by fastforce
  have r1: "rs_cache r1 = rs_cache r" "rs_claudeCache r1 = rs_claudeCache r"
    using find_maps(3,4) [of X sid r] f by simp_all
  have "ce_repo (fst (resolveClaudeEntry X sid r)) = uncached_claude X sid r
    \<and> caches_exact X (snd (resolveClaudeEntry X sid r))"
  proof (cases "validConversationID X sid \<and> path \<noteq> [] \<and> rx_stat X path \<noteq> None")
    case False
    with assms(1) r1 show ?thesis
      by (auto simp: resolveClaudeEntry_def uncached_claude_def f no_entry_def caches_exact_def Let_def split: option.splits if_splits)
  next
    case True
    then obtain n t where st: "rx_stat X path = Some (n, t)" by auto
    obtain d where d: "rx_read X path = Some d" "length d = n" "whole_lines d" "rx_seek X path"
      using assms(2) st unfolding line_files_def by blast
    have un: "uncached_claude X sid r = canonicalRepo X (claude_latest X sid d)"
      using True by (simp add: uncached_claude_def f Let_def readLatestClaudeCWD_def d(1))
    have exact: "\<exists>a b. d = a @ b \<and> whole_lines a \<and> length a = ce_size c
        \<and> ce_repo c = canonicalRepo X (claude_latest X sid a) \<and> ce_cwd c = claude_latest X sid a"
      if "rs_claudeCache r1 sid = Some c" "ce_path c = path" for c
    proof -
      have "exact X (claude_latest X sid) (claude_latest X sid) c"
        using assms(1) that(1) r1 by (simp add: caches_exact_def)
      from exact_whole [OF this] d(1) that(2) show ?thesis by metis
    qed
    show ?thesis
    proof (cases "cacheUnchanged (rs_claudeCache r1 sid) path n t")
      case hit: True
      then obtain c where c: "rs_claudeCache r1 sid = Some c" "ce_path c = path" "ce_size c = n"
        by (auto simp: cacheUnchanged_def split: option.splits)
      obtain a b where "d = a @ b" "length a = ce_size c" "ce_repo c = canonicalRepo X (claude_latest X sid a)"
        using exact [OF c(1,2)] by blast
      then have "ce_repo c = canonicalRepo X (claude_latest X sid d)" using c(3) d(2) by simp
      moreover have "resolveClaudeEntry X sid r = (c, r1)" using True st c hit by (simp add: resolveClaudeEntry_def f)
      ultimately show ?thesis using un assms(1) r1 by (simp add: caches_exact_def)
    next
      case False
      obtain cwd off where p: "resumePoint (rs_claudeCache r1 sid) path n = (cwd, off)" by fastforce
      have latest: "readLatestClaudeCWD X path sid cwd off = claude_latest X sid d"
      proof (cases "\<exists>c. rs_claudeCache r1 sid = Some c \<and> ce_path c = path \<and> ce_size c \<le> n")
        case resume: True
        then obtain c where c: "rs_claudeCache r1 sid = Some c" "ce_path c = path" "ce_size c \<le> n" by blast
        from exact [OF c(1,2)] obtain a b where a: "d = a @ b" "whole_lines a" "length a = ce_size c"
          "ce_cwd c = claude_latest X sid a" by blast
        have "cwd = claude_latest X sid a" "off = length a"
          using p c a by (simp_all add: resumePoint_def)
        with a d show ?thesis by (simp add: readLatestClaudeCWD_def fold_lines_append)
      next
        case False
        then have "cwd = []" "off = 0" using p by (auto simp: resumePoint_def split: option.splits if_splits)
        then show ?thesis by (simp add: readLatestClaudeCWD_def d(1))
      qed
      obtain key r2 where k: "RepoKey X (claude_latest X sid d) r1 = (key, r2)" by fastforce
      note r2 = RepoKey_maps [of X "claude_latest X sid d" r1, unfolded k, simplified]
      define e where "e = \<lparr>ce_path = path, ce_size = n, ce_mod = t, ce_cwd = claude_latest X sid d,
        ce_repo = canonicalRepo X (claude_latest X sid d), ce_key = key\<rparr>"
      have "resolveClaudeEntry X sid r = (e, r2\<lparr>rs_claudeCache := (rs_claudeCache r2)(sid \<mapsto> e)\<rparr>)"
        using True st False by (simp add: resolveClaudeEntry_def f p latest k e_def Let_def)
      moreover have "exact X (claude_latest X sid) (claude_latest X sid) e"
        unfolding exact_def by (intro exI [of _ d] exI [of _ "[]"]) (simp add: e_def d)
      ultimately show ?thesis using un assms(1) r1 by (auto simp: caches_exact_def r2 e_def)
    qed
  qed
  then show "ce_repo (fst (resolveClaudeEntry X sid r)) = uncached_claude X sid r"
    "caches_exact X (snd (resolveClaudeEntry X sid r))" by blast+
qed

text \<open>The states a resolver reaches, from a new one, by calls while the session files grow.\<close>

inductive resolver_at :: "repo_env \<Rightarrow> resolver \<Rightarrow> bool" where
  new: "line_files X \<Longrightarrow> resolver_at X (NewWithHomes codexEnv claudeEnv home salt codexHome claudeHome)"
| codex: "resolver_at X r \<Longrightarrow> resolver_at X (snd (resolveEntry X sid r))"
| claude: "resolver_at X r \<Longrightarrow> resolver_at X (snd (resolveClaudeEntry X sid r))"
| later: "resolver_at X r \<Longrightarrow> grows X X' \<Longrightarrow> line_files X' \<Longrightarrow> resolver_at X' r"

lemma resolver_at_exact: "resolver_at X r \<Longrightarrow> line_files X \<and> caches_exact X r"
proof (induction rule: resolver_at.induct)
  case (new X codexEnv claudeEnv home salt codexHome claudeHome)
  then show ?case by (simp add: caches_exact_def NewWithHomes_def Let_def)
qed (use caches_grow resolveEntry_exact(2) resolveClaudeEntry_exact(2) in blast)+

text \<open>C12: the caches of the resolver are invisible. As long as session files hold whole lines and only
  grow at their end, every answer of a resolver, after any calls for any sessions at any earlier
  time, is the one it gives when it reads the whole session file again: the repository of the
  last working directory the file names, although for Claude only the new bytes are read.\<close>

theorem Resolve_uncached:
  assumes "resolver_at X r"
  shows "fst (Resolve X sid r) = uncached_codex X sid r \<and> fst (ResolveClaude X sid r) = uncached_claude X sid r"
  using resolver_at_exact [OF assms] resolveEntry_exact(1) resolveClaudeEntry_exact(1)
  by (simp add: Resolve_def ResolveClaude_def case_prod_beta)

definition session_name :: string where
  "session_name = replicate 36 (CHR ''a'')"

definition session_env :: "string \<Rightarrow> repo_env" where
  "session_env content = \<lparr>rx_walk = (\<lambda>root. [Walk_File ''/s'' (session_name @ ''.jsonl'')]),
     rx_stat = (\<lambda>p. Some (length content, 0)), rx_read = (\<lambda>p. Some content), rx_seek = (\<lambda>p. True),
     rx_isdir = (\<lambda>p. True), rx_git = (\<lambda>a. None),
     rx_json = (\<lambda>l. Some (AMap [(''cwd'', AStr (''/w/'' @ l))])), rx_uuid = (\<lambda>s. True), rx_url = (\<lambda>s. None),
     rx_lower = snd, rx_sha256 = (\<lambda>s. s), rx_configdir = False, rx_rand = None, rx_mkdir = False,
     rx_write = (\<lambda>s. None)\<rparr>"

lemma session_env_lines: "whole_lines c \<Longrightarrow> line_files (session_env c)"
  by (simp add: line_files_def session_env_def)

lemma session_lines:
  "whole_lines (''app'' @ [newline])" "whole_lines (''app'' @ newline # ''lib'' @ [newline])"
  "scan_lines (''app'' @ newline # ''lib'' @ [newline]) = [''app'', ''lib'']"
proof -
  have l: "newline \<notin> set ''app''" "newline \<notin> set ''lib''" "length ''app'' < maxSessionLineBytes"
    "length ''lib'' < maxSessionLineBytes"
    by (simp_all add: newline_def maxSessionLineBytes_def)
  show "whole_lines (''app'' @ [newline])" "whole_lines (''app'' @ newline # ''lib'' @ [newline])"
    by (intro whole_lines_Cons whole_lines_Nil l)+
  show "scan_lines (''app'' @ newline # ''lib'' @ [newline]) = [''app'', ''lib'']"
    unfolding scan_lines_line [OF l(1,3)] scan_lines_line [OF l(2,4)] scan_lines_Nil by (simp add: drop_cr_def)
qed

lemma session_found:
  "fst (findClaudeSession (session_env c) session_name r) = ''/s''"
  if "rs_claudeIndex r session_name \<in> {None, Some ''/s''}"
proof -
  have "path_ext (session_name @ ''.jsonl'') = ''.jsonl''" "trim_suffix (session_name @ ''.jsonl'') ''.jsonl'' = session_name"
    "length session_name = 36" "session_name \<noteq> []"
    by code_simp+
  then show ?thesis
    using that by (auto simp: findClaudeSession_def refreshClaudeIndex_def map_str_def session_env_def claudeIDFromName_def
        validConversationID_def)
qed

lemma session_indexed:
  "rs_claudeIndex (snd (resolveClaudeEntry (session_env c) session_name (NewWithHomes [] [] None None [] []))) session_name
     \<in> {None, Some ''/s''}" (is "rs_claudeIndex (snd (resolveClaudeEntry ?X _ ?r)) _ \<in> _")
proof -
  have "fst (findClaudeSession ?X session_name ?r) = ''/s''"
    by (rule session_found) (simp add: NewWithHomes_def Let_def)
  then have "rs_claudeIndex (snd (findClaudeSession ?X session_name ?r)) session_name = Some ''/s''"
    by (simp add: findClaudeSession_def Let_def map_str_def split: if_splits option.splits)
  moreover have "rs_claudeIndex ?r session_name = None" by (simp add: NewWithHomes_def Let_def)
  ultimately show ?thesis
    by (simp add: resolveClaudeEntry_def Let_def case_prod_beta split: option.splits)
qed

lemma session_repo: "canonicalRepo (session_env c) ''/w/lib'' = ''lib''"
proof -
  have "path_clean ''/w/lib'' = ''/w/lib''" "collapseWorktreePath ''/w/lib'' = ''/w/lib''"
    "projectLabel ''/w/lib'' = ''lib''" "trim_space ''/w/lib'' = ''/w/lib''"
    by (simp_all add: path_clean_def split_slash_def clean_step_def collapseWorktreePath_def worktree_markers_def has_prefix_def
        projectLabel_def path_base_def path_last_def trim_right_def to_valid_utf8_def trim_space_def rune_chunks_ascii byte_def
        bad_chunk_def rune_error_def is_space_def Let_def maxProjectLabelRunes_def)
  then show ?thesis
    by (simp add: canonicalRepo_def resolvedRepoPath_def gitCommonRoot_def session_env_def)
qed

lemma Resolve_uncached_witness:
  "fst (ResolveClaude (session_env (''app'' @ newline # ''lib'' @ [newline])) session_name
     (snd (ResolveClaude (session_env (''app'' @ [newline])) session_name
       (NewWithHomes [] [] None None [] [])))) = ''lib''"
proof -
  let ?c1 = "''app'' @ [newline]" and ?c2 = "''app'' @ newline # ''lib'' @ [newline]"
  let ?r0 = "NewWithHomes [] [] None None [] []"
  let ?r1 = "snd (resolveClaudeEntry (session_env ?c1) session_name ?r0)"
  have g: "grows (session_env ?c1) (session_env ?c2)" by (simp add: grows_def session_env_def)
  have "resolver_at (session_env ?c2) ?r1"
    by (rule resolver_at.later [OF resolver_at.claude [OF resolver_at.new] g]) (rule session_env_lines session_lines)+
  from Resolve_uncached [OF this, of session_name]
  have "fst (ResolveClaude (session_env ?c2) session_name ?r1) = uncached_claude (session_env ?c2) session_name ?r1"
    by blast
  also have "\<dots> = ''lib''"
  proof -
    have "fst (findClaudeSession (session_env ?c2) session_name ?r1) = ''/s''"
      by (rule session_found [OF session_indexed])
    moreover have "readLatestClaudeCWD (session_env ?c2) ''/s'' session_name [] 0 = ''/w/lib''"
      unfolding readLatestClaudeCWD_def fold_lines_def
      using session_lines(3) by (simp add: session_env_def dec_claude_def dec_str_def aget_def as_object_def applicableClaudeCWD_def)
    moreover have "validConversationID (session_env ?c2) session_name" "rx_stat (session_env ?c2) ''/s'' \<noteq> None"
      by (simp_all add: validConversationID_def session_env_def session_name_def)
    ultimately show ?thesis by (simp add: uncached_claude_def Let_def session_repo)
  qed
  finally show ?thesis by (simp add: ResolveClaude_def case_prod_beta)
qed

end
