(* ===== verification/Normalize_Safety.thy ===== *)
theory Normalize_Safety
  imports Normalize
begin

text \<open>
  What \<open>internal/normalize\<close> promises of the values that leave it: bounded display labels and
  counts, an event name with a namespace, an error message cut at a rune boundary, attribute
  lists where the last value of a key wins, and a metrics batch that accounts for every point.
\<close>

subsection \<open>Labels, counts and names of an event\<close>

lemma flattenLogRecord_label_safe:
  assumes "flattenLogRecord E r repo = Some ev"
  shows "ev_ToolName ev = Some s \<Longrightarrow> safe_label 160 s"
    and "ev_MCPServer ev = Some s \<Longrightarrow> safe_label 120 s"
    and "ev_MCPTool ev = Some s \<Longrightarrow> safe_label 160 s"
    and "ev_SkillName ev = Some s \<Longrightarrow> safe_label 160 s"
proof -
  obtain m attrs n where e: "ev = log_event E m attrs repo n"
    using assms by (rule flattenLogRecord_cases)
  note f = log_event_fields [of E m attrs repo n, folded e, unfolded maxToolNameLen_def
      maxSkillNameLen_def maxMCPServerLen_def maxMCPToolLen_def]
  show "ev_ToolName ev = Some s \<Longrightarrow> safe_label 160 s" "ev_SkillName ev = Some s \<Longrightarrow> safe_label 160 s"
    unfolding f(2,3) by (rule displayIdentity_safe, assumption)+
  show "ev_MCPServer ev = Some s \<Longrightarrow> safe_label 120 s" "ev_MCPTool ev = Some s \<Longrightarrow> safe_label 160 s"
    by (rule f(4,5), assumption)+
qed

text \<open>Every display label of a flattened log record (tool name, MCP server, MCP tool,
  skill name), whether read from an attribute or derived from an \<open>mcp__server__tool\<close> name, is
  not empty, no longer than its cap, valid UTF-8, and free of path separators, control
  characters, brackets, comparison signs and URL schemes.\<close>

theorem flattenLogRecord_labels:
  assumes ev: "flattenLogRecord E r repo = Some ev"
    and label: "(l, n) \<in> {(ev_ToolName ev, 160), (ev_MCPServer ev, 120), (ev_MCPTool ev, 160),
      (ev_SkillName ev, 160)}" "l = Some s"
  shows "s \<noteq> [] \<and> length s \<le> n \<and> valid_utf8 s
    \<and> set s \<inter> set (''/'' @ [CHR 0x5C, CHR 0x00, CHR 0x0D, CHR 0x0A] @ ''{}[]=<>'') = {}
    \<and> \<not> contains s ''://'' \<and> (\<forall>c \<in> set (rune_chunks s). \<not> is_control (fst c))"
proof -
  have "safe_label n s"
    using label flattenLogRecord_label_safe [OF ev] by auto
  from safe_label_unfold [OF this] show ?thesis by (simp add: unsafe_label_chars_def)
qed

text \<open>A record with a tool name.\<close>

definition tool_record :: gomap where
  "tool_record = [(''attributes'', ASlice [string_attr ''event.name'' ''tool_result'',
     string_attr ''tool_name'' ''gh''])]"

lemma tool_attrs:
  "attrsToMap E (aget tool_record ''attributes'') =
     [(''event.name'', AStr ''tool_result''), (''tool_name'', AStr ''gh'')]"
  by (simp add: tool_record_def attrsToMap_def attrs_put_def string_attr_def aget_def)

lemma flatten_tool_record:
  "flattenLogRecord E (AMap tool_record) repo =
     Some (log_event E tool_record [(''event.name'', AStr ''tool_result''), (''tool_name'', AStr ''gh'')]
       repo ''claude_code.tool_result'')"
  unfolding flattenLogRecord_def any.case tool_attrs Let_def
  by (simp add: aget_def truthy_def normalizeEventName_def claudeNamespace_def has_prefix_def)

lemma tool_sample:
  "ev_ToolName (log_event E m [(''event.name'', AStr ''tool_result''), (''tool_name'', AStr ''gh'')]
     repo n) = Some ''gh''"
proof -
  have "displayIdentity (AStr ''gh'') maxToolNameLen = Some ''gh''"
    by (simp add: displayIdentity_def maxToolNameLen_def unsafeDisplayIdentity_def
        unsafe_label_chars_def string_eval)
  then show ?thesis by (simp add: log_event_fields aget_def truthy_def)
qed

lemma flattenLogRecord_labels_witness: "length ''gh'' \<le> 160"
  using flattenLogRecord_labels [OF flatten_tool_record [of sample_env "[]"],
      of "Some ''gh''" 160 "''gh''"]
  by (simp add: tool_sample)

text \<open>The MCP counts of an event lie in their documented ranges, 0 to 10000 tools and 0 to
  10 million schema tokens; a value outside is absent from the event, never clamped or wrapped.\<close>

theorem flattenLogRecord_counts:
  assumes "flattenLogRecord E r repo = Some ev"
  shows "case_option True (\<lambda>k. 0 \<le> sint k \<and> sint k \<le> 10000) (ev_MCPServerToolCount ev)
    \<and> case_option True (\<lambda>k. 0 \<le> sint k \<and> sint k \<le> 10000000) (ev_MCPSchemaTokens ev)"
  using assms
proof (cases rule: flattenLogRecord_cases)
  case (1 m attrs n)
  then show ?thesis
    using log_event_fields(6,7) [of E m attrs repo n]
    by (simp add: maxMCPServerToolCount_def maxMCPSchemaTokens_def split: option.splits)
qed

lemma flattenLogRecord_counts_witness:
  "\<exists>ev. flattenLogRecord sample_env (AMap tool_record) [] = Some ev
     \<and> case_option True (\<lambda>k. 0 \<le> sint k \<and> sint k \<le> 10000) (ev_MCPServerToolCount ev)"
  using flattenLogRecord_counts [OF flatten_tool_record [of sample_env "[]"]]
  by (simp add: flatten_tool_record)

lemma normalizeEventName_namespaced:
  "normalizeEventName v = Some n \<Longrightarrow> contains n ''.'' \<and> n \<noteq> ''codex.''"
proof -
  have c: "contains (''claude_code.'' @ s) ''.''" for s
    unfolding contains_iff by (rule exI [of _ "''claude_code''"], rule exI [of _ s]) simp
  assume "normalizeEventName v = Some n"
  then obtain s where s: "s \<noteq> ''codex.''"
    "n = (if contains s ''.'' then s else ''claude_code.'' @ s)"
    unfolding normalizeEventName_def claudeNamespace_def by (cases v) (simp_all split: if_splits)
  show ?thesis
    using s c [of s] by (cases "contains s ''.''") (simp_all only: if_True if_False, simp_all)
qed

lemma flattenLogRecord_name:
  "flattenLogRecord E r repo = Some ev \<Longrightarrow>
     \<exists>n. ev_EventName ev = Some n \<and> contains n ''.'' \<and> n \<noteq> ''codex.''"
  by (erule flattenLogRecord_cases) (simp add: log_event_fields normalizeEventName_namespaced)

subsection \<open>The error message\<close>

lemma cut_invalid_prefix: "\<exists>q. c = cut_invalid c @ q"
proof (induction c rule: cut_invalid.induct)
  case (1 c)
  show ?case
  proof (cases "c \<noteq> [] \<and> \<not> valid_utf8 c")
    case True
    from 1 [OF this] obtain q where "butlast c = cut_invalid (butlast c) @ q" by blast
    then have "c = cut_invalid (butlast c) @ q @ [last c]"
      using True by (metis append.assoc append_butlast_last_id)
    moreover have "cut_invalid c = cut_invalid (butlast c)"
      using True by (subst cut_invalid.simps) simp
    ultimately show ?thesis by metis
  next
    case False
    then have "cut_invalid c = c" by (subst cut_invalid.simps) auto
    then show ?thesis by simp
  qed
qed

lemma cut_invalid_valid [simp]: "valid_utf8 (cut_invalid c)"
proof (induction c rule: cut_invalid.induct)
  case (1 c)
  then show ?case
    by (subst cut_invalid.simps) (cases "c = []"; auto)
qed

text \<open>No valid prefix is longer than what the cut keeps.\<close>

lemma cut_invalid_longest: "valid_utf8 p \<Longrightarrow> c = p @ q \<Longrightarrow> length p \<le> length (cut_invalid c)"
proof (induction c arbitrary: q rule: cut_invalid.induct)
  case (1 c)
  show ?case
  proof (cases "c \<noteq> [] \<and> \<not> valid_utf8 c")
    case True
    with 1(2,3) have "q \<noteq> []" by auto
    with 1(3) have "butlast c = p @ butlast q" by (simp add: butlast_append)
    with 1(1) [OF True 1(2)] True show ?thesis by (subst cut_invalid.simps) simp
  next
    case False
    then have "cut_invalid c = c" by (subst cut_invalid.simps) auto
    with 1(3) show ?thesis by simp
  qed
qed

text \<open>Truncating the error message keeps a prefix of it that is at most 2048 bytes long. A
  message that fits is kept whole; a valid UTF-8 message that does not loses at most the three
  bytes of the rune the cap falls into, and what is kept is valid UTF-8.\<close>

theorem truncated_prefix:
  "\<exists>t q. truncated (Some s) = Some t \<and> s = t @ q \<and> length t \<le> 2048
     \<and> (length s \<le> 2048 \<longrightarrow> t = s)
     \<and> (2048 < length s \<longrightarrow> valid_utf8 t \<and> (valid_utf8 s \<longrightarrow> 2045 \<le> length t))"
proof (cases "length s \<le> 2048")
  case True
  then show ?thesis by (simp add: truncated_def maxErrorMessageLen_def)
next
  case False
  define c where "c = take 2048 s"
  obtain q where q: "c = cut_invalid c @ q" using cut_invalid_prefix by blast
  have s: "s = cut_invalid c @ q @ drop 2048 s"
    using q by (metis append.assoc append_take_drop_id c_def)
  have "2045 \<le> length (cut_invalid c)" if v: "valid_utf8 s"
  proof -
    obtain p r where p: "s = p @ r" "valid_utf8 p" "length p \<le> 2048" "2048 \<le> length p + 3"
      using valid_prefix_near [OF v, of 2048] False by auto
    then have "c = p @ take (2048 - length p) r" by (simp add: c_def)
    from cut_invalid_longest [OF p(2) this] p(4) show ?thesis by simp
  qed
  moreover have "length (cut_invalid c) \<le> 2048"
    using q by (metis c_def length_append le_add1 length_take min.cobounded2 order_trans)
  ultimately show ?thesis
    using False s by (auto simp: truncated_def maxErrorMessageLen_def c_def)
qed

lemma truncated_prefix_witness:
  "\<exists>t. truncated (Some (replicate 2049 CHR ''a'')) = Some t \<and> length t \<le> 2048"
  using truncated_prefix [of "replicate 2049 CHR ''a''"] by blast

subsection \<open>Attribute lists\<close>

text \<open>The key and decoded value an attribute list item contributes, if any.\<close>

definition attr_pair :: "go_env \<Rightarrow> any \<Rightarrow> (string \<times> any) option" where
  "attr_pair E item = (case item of
     AMap m \<Rightarrow> (case aget m ''key'' of
         AStr key \<Rightarrow> if key = [] then None else Some (key, decodeAttrValue E (aget m ''value''))
       | _ \<Rightarrow> None)
   | _ \<Rightarrow> None)"

lemma attrs_put_pair:
  "attrs_put E out item = (case attr_pair E item of None \<Rightarrow> out | Some (k, v) \<Rightarrow> AList.update k v out)"
  by (simp add: attrs_put_def attr_pair_def split: any.splits)

lemma foldl_attrs_put:
  "map_of (foldl (attrs_put E) out l) = map_of out ++ map_of (rev (List.map_filter (attr_pair E) l))"
  "distinct (map fst out) \<Longrightarrow> distinct (map fst (foldl (attrs_put E) out l))"
proof (induction l arbitrary: out)
  case (Cons item l)
  {
    case 1
    show ?case
      using Cons(1) [of "attrs_put E out item"]
      by (auto simp: attrs_put_pair map_filter_simps update_conv' split: option.splits
          intro!: ext simp: map_add_def)
  next
    case 2
    then show ?case
      using Cons(2) [of "attrs_put E out item"]
      by (auto simp: attrs_put_pair distinct_update split: option.splits)
  }
qed (simp_all add: map_filter_simps)

text \<open>Decoding an OTLP attribute list gives a map with one entry per key, and a key has the
  decoded value of the last item that carries it; items that are not objects, or whose key is
  missing, empty or not a string, contribute nothing.\<close>

theorem attrsToMap_last_wins:
  "map_of (attrsToMap E (ASlice l)) = map_of (rev (List.map_filter (attr_pair E) l))
   \<and> distinct (map fst (attrsToMap E (ASlice l)))"
  by (simp add: attrsToMap_def foldl_attrs_put)

subsection \<open>Metric batches\<close>

definition metric_name :: "any \<Rightarrow> string" where
  "metric_name metric = (case metric of
     AMap m \<Rightarrow> (case aget m ''name'' of AStr n \<Rightarrow> n | _ \<Rightarrow> []) | _ \<Rightarrow> [])"

definition named_points :: "any \<Rightarrow> any list" where
  "named_points metric =
     (if metric_name metric = [] then []
      else (case metric of AMap m \<Rightarrow> metric_data_points m | _ \<Rightarrow> []))"

lemma flattenMetric_eq:
  "flattenMetric E metric repo =
     (List.map_filter (\<lambda>dp. flattenDataPoint E dp (metric_name metric) repo) (named_points metric),
      length (filter (\<lambda>dp. flattenDataPoint E dp (metric_name metric) repo = None) (named_points metric)))"
proof (cases "metric_name metric = []")
  case True
  then show ?thesis
    by (auto simp: flattenMetric_def metric_name_def named_points_def map_filter_simps
        split: any.splits)
next
  case False
  then obtain m where m: "metric = AMap m" "aget m ''name'' = AStr (metric_name metric)"
    by (auto simp: metric_name_def split: any.splits)
  have "flattenMetric E metric repo =
      foldl (point_step E (metric_name metric) repo) ([], 0) (named_points metric)"
    using False m by (simp add: flattenMetric_def named_points_def)
  then show ?thesis
    by (simp add: foldl_collect [where g = "\<lambda>dp. flattenDataPoint E dp (metric_name metric) repo",
          OF point_step_def])
qed

lemma foldl_metric_step:
  "foldl (metric_step E repo) (ps, d) ms =
     (ps @ concat (map (\<lambda>m. fst (flattenMetric E m repo)) ms),
      d + sum_list (map (\<lambda>m. snd (flattenMetric E m repo)) ms))"
  by (induction ms arbitrary: ps d) (simp_all add: metric_step_def case_prod_beta)

lemma metric_resource_eq:
  "metric_resource E repo = (\<lambda>acc rm. foldl (metric_step E repo) acc
     (concat (map (map_members ''metrics'') (map_members ''scopeMetrics'' rm))))"
proof -
  have s: "metric_scope E repo = (\<lambda>acc sm. foldl (metric_step E repo) acc (map_members ''metrics'' sm))"
    by (intro ext) (simp add: metric_scope_def map_members_def split: any.splits)
  show ?thesis
    by (intro ext, simp only: foldl_concat_map [symmetric] s [symmetric])
      (simp add: metric_resource_def map_members_def split: any.splits)
qed

lemma NormalizeMetricsBatch_eq:
  "NormalizeMetricsBatch E payload repo =
     (concat (map (\<lambda>m. fst (flattenMetric E m repo)) (metric_values payload)),
      sum_list (map (\<lambda>m. snd (flattenMetric E m repo)) (metric_values payload)))"
  unfolding NormalizeMetricsBatch_def metric_values_def metric_resource_eq foldl_concat_map
    foldl_metric_step by simp

lemma flattenDataPoint_name:
  "flattenDataPoint E dp n repo = Some p \<Longrightarrow> mp_MetricName p = n"
  by (auto simp: flattenDataPoint_def Let_def split: any.splits option.splits)

lemma set_map_filter_name:
  "p \<in> set (List.map_filter (\<lambda>dp. flattenDataPoint E dp n repo) dps) \<Longrightarrow> mp_MetricName p = n"
  by (induction dps) (auto simp: map_filter_simps flattenDataPoint_name split: option.splits if_splits)

text \<open>\<open>NormalizeMetricsBatch\<close> accounts for every data point of every named metric of the
  payload: points plus dropped is their number, and a point carries the name of a metric of the
  payload that is not empty. A metric without a name contributes nothing and is not counted.\<close>

theorem NormalizeMetricsBatch_accounts:
  "length (fst (NormalizeMetricsBatch E payload repo)) + snd (NormalizeMetricsBatch E payload repo)
     = sum_list (map (\<lambda>m. length (named_points m)) (metric_values payload))
   \<and> mp_MetricName ` set (fst (NormalizeMetricsBatch E payload repo))
     \<subseteq> metric_name ` set (metric_values payload) - {[]}"
proof -
  have len: "length (fst (flattenMetric E m repo)) + snd (flattenMetric E m repo)
      = length (named_points m)" for m
    by (simp add: flattenMetric_eq length_map_filter)
  have "sum_list (map (\<lambda>m. length (fst (flattenMetric E m repo))) ms)
      + sum_list (map (\<lambda>m. snd (flattenMetric E m repo)) ms)
      = sum_list (map (\<lambda>m. length (named_points m)) ms)" for ms
    by (induction ms) (simp_all add: len [symmetric])
  moreover have "mp_MetricName p = metric_name m \<and> metric_name m \<noteq> []"
    if "p \<in> set (fst (flattenMetric E m repo))" for p m
    using that set_map_filter_name
    by (cases "metric_name m = []") (auto simp: flattenMetric_eq named_points_def map_filter_simps)
  ultimately show ?thesis
    by (auto simp: NormalizeMetricsBatch_eq length_concat comp_def)
qed

end
