(* ===== verification/Daemon_Safety.thy ===== *)
theory Daemon_Safety
  imports Daemon Lease_Safety Codex_Safety Normalize_Safety
begin

text \<open>
  What the daemon promises: a payload is accounted for record by record; attribution is a function
  of the session; the pipeline neither loses nor invents tokens unless an enqueue fails, and what
  is lost then; retention removes delivered rows only; the shutdown leaves no lease behind; and,
  through the receiver, the answer an agent gets.
\<close>

subsection \<open>Attribution\<close>

text \<open>What attribution leaves alone.\<close>

definition pipeline :: "daemon \<Rightarrow> event_table \<times> metric_table \<times> session_row list \<times> registry \<times> noise_filter
    \<times> metric_filter \<times> string \<times> int64 \<times> instant" where
  "pipeline d = (up_events (dm_up d), up_metrics (dm_up d), up_sessions (dm_up d), up_counters (dm_up d),
     dm_filter d, dm_metricFilter d, dm_repo d, dm_retentionDays d, dm_lastRollup d)"

lemma pipeline_tick [simp]: "pipeline (on_up tick d) = pipeline d"
  by (simp add: pipeline_def on_up_def tick_def)

lemma pipeline_ask: "ask D f sid d = (repo, d') \<Longrightarrow> pipeline d' = pipeline d"
  by (auto simp: ask_def pipeline_def on_up_def tick_def split: option.splits prod.splits)

lemma pipeline_resolve: "resolveEventRepo D ev sid d = (repo, d') \<Longrightarrow> pipeline d' = pipeline d"
  by (auto simp: resolveEventRepo_def dest!: pipeline_ask split: if_splits prod.splits)

definition attribute :: "(string \<Rightarrow> string) \<Rightarrow> normalized_event \<Rightarrow> normalized_event" where
  "attribute g ev = (let sid = eventSessionID ev in
     if sid = [] \<or> g sid = [] then ev else ev\<lparr>ev_Repo := Some (g sid)\<rparr>)"

lemma enrich_loop_spec:
  "\<exists>g. (\<forall>sid r. seen sid = Some r \<longrightarrow> g sid = r) \<and> fst (enrich_loop D seen evs d) = map (attribute g) evs
    \<and> pipeline (snd (enrich_loop D seen evs d)) = pipeline d"
proof (induction evs arbitrary: seen d)
  case Nil
  show ?case by (intro exI [of _ "\<lambda>sid. case seen sid of Some r \<Rightarrow> r | None \<Rightarrow> []"]) simp
next
  case (Cons ev evs)
  show ?case
  proof (cases "eventSessionID ev = []")
    case True
    with Cons [of seen d] show ?thesis by (simp add: case_prod_beta attribute_def)
  next
    case False
    let ?sid = "eventSessionID ev"
    obtain repo d1 where r: "(case seen ?sid of Some repo \<Rightarrow> (repo, d) | None \<Rightarrow> resolveEventRepo D ev ?sid d) = (repo, d1)"
      by fastforce
    then have p: "pipeline d1 = pipeline d" "\<forall>r. seen ?sid = Some r \<longrightarrow> repo = r"
      using pipeline_resolve by (auto split: option.splits)
    obtain g where g: "\<forall>sid r. (seen(?sid \<mapsto> repo)) sid = Some r \<longrightarrow> g sid = r"
      "fst (enrich_loop D (seen(?sid \<mapsto> repo)) evs d1) = map (attribute g) evs"
      "pipeline (snd (enrich_loop D (seen(?sid \<mapsto> repo)) evs d1)) = pipeline d1"
      using Cons [of "seen(?sid \<mapsto> repo)" d1] by blast
    from g(1) have "g ?sid = repo" by simp
    moreover from g(1) p(2) have "\<forall>sid r. seen sid = Some r \<longrightarrow> g sid = r" by (metis fun_upd_apply)
    ultimately show ?thesis
      using False r g(2,3) p(1) by (intro exI [of _ g]) (simp add: case_prod_beta attribute_def Let_def)
  qed
qed

lemma enrichRepos_pipeline: "pipeline (snd (enrichRepos D evs d)) = pipeline d"
  using enrich_loop_spec [of Map.empty D evs d] by (auto simp: enrichRepos_def)

lemma enrichRepos_map: "\<exists>g. fst (enrichRepos D evs d) = map (attribute g) evs"
proof (cases "dm_repo d \<noteq> [] \<or> dm_resolver d = None")
  case True
  have "map (attribute (\<lambda>_. [])) evs = evs" by (rule map_idI) (simp add: attribute_def Let_def)
  with True show ?thesis by (intro exI [of _ "\<lambda>_. []"]) (simp add: enrichRepos_def)
next
  case False
  then show ?thesis using enrich_loop_spec [of Map.empty D evs d] by (auto simp: enrichRepos_def)
qed

text \<open>Attribution is a function of the session. Within a batch there is one repository per session
  id: every event that has a session and no repository of its own gets that of its session, if it
  is known, all other events are left as they are, no event gains, loses or changes anything else,
  and neither the queues nor the filters are touched.\<close>

theorem enrichRepos_spec:
  "(\<exists>g. fst (enrichRepos D evs d) = map (\<lambda>ev.
      if ev_Repo ev = None \<and> name_of (ev_SessionID ev) \<noteq> [] \<and> g (name_of (ev_SessionID ev)) \<noteq> []
      then ev\<lparr>ev_Repo := Some (g (name_of (ev_SessionID ev)))\<rparr> else ev) evs)
   \<and> pipeline (snd (enrichRepos D evs d)) = pipeline d"
proof -
  have "attribute g = (\<lambda>ev. if ev_Repo ev = None \<and> name_of (ev_SessionID ev) \<noteq> [] \<and> g (name_of (ev_SessionID ev)) \<noteq> []
      then ev\<lparr>ev_Repo := Some (g (name_of (ev_SessionID ev)))\<rparr> else ev)" for g
    by (auto simp: attribute_def eventSessionID_def Let_def fun_eq_iff)
  with enrichRepos_map [of D evs d] enrichRepos_pipeline [of D evs d] show ?thesis by metis
qed

subsection \<open>The logs handler\<close>

lemma attribute_tokens: "tokens_of (map (attribute g) evs) = tokens_of evs"
  by (induction evs) (simp_all add: attribute_def event_tokens_def Let_def)

text \<open>The handler up to the rollups: the events, the records dropped, the events kept, the daemon.\<close>

definition log_prepared ::
    "daemon_env \<Rightarrow> gomap \<Rightarrow> daemon \<Rightarrow> normalized_event list \<times> nat \<times> normalized_event list \<times> daemon" where
  "log_prepared D payload d =
     (let (evs, normDropped) = NormalizeLogBatch (log_env D d) payload (dm_repo d);
          (events, d) = enrichRepos D evs (on_up tick d);
          d = count cNormalized (of_nat (length events)) (count cReceived (of_nat (length events + normDropped)) d);
          (kept, f) = Apply (dm_filter d) events;
          d = count cFiltered (of_nat (length events - length kept)) (d\<lparr>dm_filter := f\<rparr>)
      in (events, normDropped, kept, upsert_sessions D events d))"

lemma pipelineD:
  assumes "pipeline d' = pipeline d"
  shows "up_events (dm_up d') = up_events (dm_up d)" "up_metrics (dm_up d') = up_metrics (dm_up d)"
    "up_sessions (dm_up d') = up_sessions (dm_up d)" "up_counters (dm_up d') = up_counters (dm_up d)"
    "dm_filter d' = dm_filter d" "dm_metricFilter d' = dm_metricFilter d" "dm_repo d' = dm_repo d"
    "dm_lastRollup d' = dm_lastRollup d"
  using assms by (simp_all add: pipeline_def)

lemma count_fields [simp]:
  "up_events (dm_up (count n v d)) = up_events (dm_up d)" "up_metrics (dm_up (count n v d)) = up_metrics (dm_up d)"
  "up_sessions (dm_up (count n v d)) = up_sessions (dm_up d)" "dm_filter (count n v d) = dm_filter d"
  "dm_repo (count n v d) = dm_repo d" "dm_lastRollup (count n v d) = dm_lastRollup d"
  "counter_get (up_counters (dm_up (count n v d))) m
     = (if n = m then counter_get (up_counters (dm_up d)) m + v else counter_get (up_counters (dm_up d)) m)"
  by (simp_all add: count_def on_up_def addCounter_def)

lemma handleLogs_eq:
  "handleLogs D payload d = (case log_prepared D payload d of (events, normDropped, kept, d) \<Rightarrow>
     (case dueRollups D d of (rollups, d) \<Rightarrow> (case enqueue_events D (kept @ rollups) d of
        (False, d) \<Rightarrow> ((0, length events + normDropped), count cErrors 1 d)
      | (True, d) \<Rightarrow> ((length kept, normDropped + (length events - length kept)),
          count cQueued (of_nat (length (kept @ rollups))) d))))"
proof -
  obtain evs nd where n: "NormalizeLogBatch (log_env D d) payload (dm_repo d) = (evs, nd)" by fastforce
  obtain es d0 where e: "enrichRepos D evs (on_up tick d) = (es, d0)" by fastforce
  obtain ks f where a: "Apply (dm_filter d0) es = (ks, f)" by fastforce
  show ?thesis by (simp add: handleLogs_def log_prepared_def Let_def n e a)
qed

lemma upsert_fields:
  "up_events (dm_up (upsert_sessions D evs d)) = up_events (dm_up d)"
  "up_metrics (dm_up (upsert_sessions D evs d)) = up_metrics (dm_up d)"
  "dm_filter (upsert_sessions D evs d) = dm_filter d" "dm_lastRollup (upsert_sessions D evs d) = dm_lastRollup d"
  "counter_get (up_counters (dm_up (upsert_sessions D evs d))) cReceived = counter_get (up_counters (dm_up d)) cReceived"
  by (auto simp: upsert_sessions_def on_sessions_def tick_def counter_names split: prod.splits sum.splits)

lemma received_only:
  "cFiltered \<noteq> cReceived" "cNormalized \<noteq> cReceived" "cRollups \<noteq> cReceived" "cErrors \<noteq> cReceived" "cQueued \<noteq> cReceived"
  by (simp_all add: counter_names)

lemma log_prepared_facts:
  assumes "log_prepared D payload d = (events, normDropped, kept, d1)"
  shows "length events + normDropped = length (log_records payload)"
    "tokens_of events = tokens_of (fst (NormalizeLogBatch (log_env D d) payload (dm_repo d)))"
    "Apply (dm_filter d) events = (kept, dm_filter d1)" "dm_lastRollup d1 = dm_lastRollup d"
    "up_events (dm_up d1) = up_events (dm_up d)" "up_metrics (dm_up d1) = up_metrics (dm_up d)"
    "counter_get (up_counters (dm_up d1)) cReceived
       = counter_get (up_counters (dm_up d)) cReceived + of_nat (length (log_records payload))"
proof -
  obtain evs nd where n: "NormalizeLogBatch (log_env D d) payload (dm_repo d) = (evs, nd)" by fastforce
  obtain es d0 where e: "enrichRepos D evs (on_up tick d) = (es, d0)" by fastforce
  obtain ks f where a: "Apply (dm_filter d0) es = (ks, f)" by fastforce
  have eqs: "es = events" "nd = normDropped" "ks = kept"
    and d1: "d1 = upsert_sessions D events (count cFiltered (of_nat (length events - length kept))
      ((count cNormalized (of_nat (length events)) (count cReceived (of_nat (length events + normDropped)) d0))\<lparr>dm_filter := f\<rparr>))"
    using assms n e a by (auto simp: log_prepared_def Let_def)
  note n = n [unfolded eqs] and e = e [unfolded eqs] and a = a [unfolded eqs]
  have p: "pipeline d0 = pipeline d" using enrichRepos_pipeline [of D evs "on_up tick d"] e by simp
  note p = pipelineD [OF p]
  obtain g where g: "events = map (attribute g) evs" using enrichRepos_map [of D evs "on_up tick d"] e by auto
  show len: "length events + normDropped = length (log_records payload)"
    using n g length_map_filter [of "\<lambda>r. flattenLogRecord (log_env D d) r (dm_repo d)" "log_records payload"]
    by (simp add: NormalizeLogBatch_eq)
  show "tokens_of events = tokens_of (fst (NormalizeLogBatch (log_env D d) payload (dm_repo d)))"
    by (simp add: n g attribute_tokens)
  show "Apply (dm_filter d) events = (kept, dm_filter d1)" using a by (simp add: d1 upsert_fields p)
  show "dm_lastRollup d1 = dm_lastRollup d" "up_events (dm_up d1) = up_events (dm_up d)"
    "up_metrics (dm_up d1) = up_metrics (dm_up d)"
    by (simp_all add: d1 upsert_fields p)
  show "counter_get (up_counters (dm_up d1)) cReceived
      = counter_get (up_counters (dm_up d)) cReceived + of_nat (length (log_records payload))"
    by (simp add: d1 upsert_fields p received_only flip: len)
qed

lemma on_up_fields [simp]:
  "dm_up (on_up f d) = f (dm_up d)" "dm_filter (on_up f d) = dm_filter d" "dm_repo (on_up f d) = dm_repo d"
  "dm_lastRollup (on_up f d) = dm_lastRollup d"
  by (simp_all add: on_up_def)

lemma dueRollups_facts:
  assumes "dueRollups D d = (rollups, d')"
  shows "up_events (dm_up d') = up_events (dm_up d)" "up_metrics (dm_up d') = up_metrics (dm_up d)"
    "counter_get (up_counters (dm_up d')) cReceived = counter_get (up_counters (dm_up d)) cReceived"
    "(\<And>k p. mset (de_rollups D k p) = mset p) \<Longrightarrow>
       tokens_of rollups + pending_tokens (dm_filter d') = pending_tokens (dm_filter d)"
    "rollupInterval \<le> now_of D d - dm_lastRollup d \<Longrightarrow> nf_pending (dm_filter d') = []"
proof -
  define late where "late \<longleftrightarrow> rollupInterval \<le> now_of D d - dm_lastRollup d"
  define d1 where "d1 = on_up tick (on_up tick d\<lparr>dm_lastRollup := now_of D (on_up tick d)\<rparr>)"
  obtain rs f where fl: "FlushRollups (de_rollups D (step_of d1)) (format_rfc3339 (now_of D d1)) (dm_filter d1) = (rs, f)"
    by fastforce
  have d1: "up_events (dm_up d1) = up_events (dm_up d)" "up_metrics (dm_up d1) = up_metrics (dm_up d)"
    "up_counters (dm_up d1) = up_counters (dm_up d)" "dm_filter d1 = dm_filter d"
    by (simp_all add: d1_def)
  have eq: "(rollups, d') = (if late then (rs, count cRollups (of_nat (length rs)) (on_up tick (d1\<lparr>dm_filter := f\<rparr>)))
      else ([], on_up tick d))"
    using assms fl by (cases late) (auto simp: dueRollups_def Let_def d1_def late_def)
  then show "up_events (dm_up d') = up_events (dm_up d)" "up_metrics (dm_up d') = up_metrics (dm_up d)"
    "counter_get (up_counters (dm_up d')) cReceived = counter_get (up_counters (dm_up d)) cReceived"
    using d1 received_only by (auto split: if_splits)
  show "tokens_of rollups + pending_tokens (dm_filter d') = pending_tokens (dm_filter d)"
    if "\<And>k p. mset (de_rollups D k p) = mset p"
  proof -
    have "tokens_of rs = pending_tokens (dm_filter d) \<and> nf_pending f = []"
      using FlushRollups_tokens [of "de_rollups D (step_of d1)", OF that, of "format_rfc3339 (now_of D d1)" "dm_filter d1"] fl d1(4) by simp
    then show ?thesis using eq by (auto simp: pending_tokens_def split: if_splits)
  qed
  show "nf_pending (dm_filter d') = []" if "rollupInterval \<le> now_of D d - dm_lastRollup d"
    using eq that fl by (auto simp: late_def FlushRollups_def split: if_splits)
qed

lemma event_json_tokens: "event_json ev = Some p \<Longrightarrow> event_tokens p = event_tokens ev"
  by (auto simp: event_json_def event_tokens_def split: if_splits)

lemma fresh_tokens:
  assumes "fresh_rows E event_json 0 evs new"
  shows "tokens_of (map row_payload new) = tokens_of evs"
proof -
  have "map (\<lambda>r. Some (row_payload r)) new = map event_json evs" using assms by (simp add: fresh_rows_def)
  then show ?thesis
  proof (induction evs arbitrary: new)
    case (Cons ev evs)
    then obtain r rs where "new = r # rs" "event_json ev = Some (row_payload r)"
      "map (\<lambda>r. Some (row_payload r)) rs = map event_json evs" by (cases new) auto
    with Cons.IH event_json_tokens show ?case by simp
  qed simp
qed

lemma enqueue_events_fields:
  assumes "enqueue_events D evs d = (ok, d')"
  shows "dm_filter d' = dm_filter d" "up_counters (dm_up d') = up_counters (dm_up d)"
    "\<exists>E. Enqueue (q_at (de_up D) (dm_up d)) queue_caps evs (up_events (dm_up d)) = (E, up_events (dm_up d')) \<and> (ok \<longleftrightarrow> E = Inr ())"
  using assms by (auto simp: enqueue_events_def on_events_def tick_def split: prod.splits sum.splits)

text \<open>Rows put into the table, up to what eviction then removes, and counts.\<close>

definition enqueued :: "event_table \<Rightarrow> normalized_event qrow list \<Rightarrow> event_table \<Rightarrow> bool" where
  "enqueued t new t' \<longleftrightarrow> table_ok t' \<and> (\<forall>r \<in> set new. row_state r = Pending)
     \<and> set (tab_rows t') \<subseteq> set (tab_rows t) \<union> set new
     \<and> tab_evicted t' - tab_evicted t = int (length (tab_rows t) + length new) - int (length (tab_rows t'))"

lemma Enqueue_enqueued:
  assumes "Enqueue E c evs t = (res, t')" "table_ok t" "monotone_alloc E"
  obtains "t' = t" "res \<noteq> Inr ()" | new where "enqueued t new t'" "tokens_of (map row_payload new) = tokens_of evs"
  using assms(1) [unfolded Enqueue_def]
proof (cases rule: enqueue_table_cases)
  case same
  show ?thesis
  proof (cases "res = Inr ()")
    case True
    with same assms(2) have "enqueued t [] t'" "tokens_of (map row_payload []) = tokens_of evs"
      by (simp_all add: enqueued_def)
    then show ?thesis by (rule that(2))
  qed (use same that(1) in blast)
next
  case (insert new)
  have "rows_ok (tab_rows t @ new)"
    using insert_rows_ok [OF assms(3) _ insert(2)] assms(2) by (simp add: table_ok_def)
  from evict_loop_inv [OF this insert(3)] have "enqueued t new t'"
    using insert(1) by (auto simp: enqueued_def table_ok_def fresh_rows_def)
  then show ?thesis using fresh_tokens [OF insert(1)] by (rule that(2))
qed

lemma handleLogs_counts:
  "case handleLogs D payload d of ((accepted, dropped), d') \<Rightarrow>
     accepted + dropped = length (log_records payload)
     \<and> counter_get (up_counters (dm_up d')) cReceived
       = counter_get (up_counters (dm_up d)) cReceived + of_nat (length (log_records payload))"
proof -
  obtain events nd kept d1 where p: "log_prepared D payload d = (events, nd, kept, d1)" by (metis prod.exhaust)
  obtain rollups d2 where r: "dueRollups D d1 = (rollups, d2)" by fastforce
  obtain ok d3 where e: "enqueue_events D (kept @ rollups) d2 = (ok, d3)" by fastforce
  note f = log_prepared_facts [OF p]
  have "length kept \<le> length events"
    using f(3) Apply_kept [of "dm_filter d" events] by (metis fst_conv length_filter_le)
  then show ?thesis
    using f(1,7) dueRollups_facts(3) [OF r] enqueue_events_fields(2) [OF e] received_only
    by (cases ok) (auto simp: handleLogs_eq p r e)
qed

text \<open>C5: the pipeline conserves tokens. Handling a payload either enqueues rows whose tokens, with those
  left pending in the noise filter, are exactly the tokens of the payload's normalised events plus
  those pending before, so that filtering and rollups lose nothing; or the enqueue failed, nothing
  was put into the queue, and the agent is told that nothing was accepted.\<close>

theorem handleLogs_conserves_tokens:
  assumes run: "handleLogs D payload d = ((accepted, dropped), d')"
    and order: "\<And>k p. mset (de_rollups D k p) = mset p"
    and ok: "table_ok (up_events (dm_up d))" "\<And>k. monotone_alloc (ue_queue (de_up D) k)"
  shows "(\<exists>new. enqueued (up_events (dm_up d)) new (up_events (dm_up d'))
      \<and> tokens_of (map row_payload new) + pending_tokens (dm_filter d')
        = tokens_of (fst (NormalizeLogBatch (log_env D d) payload (dm_repo d))) + pending_tokens (dm_filter d))
    \<or> (up_events (dm_up d') = up_events (dm_up d) \<and> accepted = 0)"
proof -
  obtain events nd kept d1 where p: "log_prepared D payload d = (events, nd, kept, d1)" by (metis prod.exhaust)
  obtain rollups d2 where r: "dueRollups D d1 = (rollups, d2)" by fastforce
  obtain b d3 where e: "enqueue_events D (kept @ rollups) d2 = (b, d3)" by fastforce
  note f = log_prepared_facts [OF p] and g = dueRollups_facts [OF r] and h = enqueue_events_fields [OF e]
  have d': "up_events (dm_up d') = up_events (dm_up d3)" "dm_filter d' = dm_filter d3" "\<not> b \<Longrightarrow> accepted = 0"
    using run by (auto simp: handleLogs_eq p r e split: bool.splits)
  have mono: "monotone_alloc (q_at (de_up D) (dm_up d2))"
    using ok(2) by (simp add: monotone_alloc_def q_at_def)
  obtain E where E: "Enqueue (q_at (de_up D) (dm_up d2)) queue_caps (kept @ rollups) (up_events (dm_up d)) = (E, up_events (dm_up d3))"
    "b \<longleftrightarrow> E = Inr ()" using h(3) f(5) g(1) by auto
  from E(1) ok(1) mono show ?thesis
  proof (cases rule: Enqueue_enqueued)
    case 1
    with E(2) d' show ?thesis by simp
  next
    case (2 new)
    have "tokens_of (kept @ rollups) + pending_tokens (dm_filter d') = tokens_of events + pending_tokens (dm_filter d)"
      using Apply_tokens [of "dm_filter d" events] f(3) g(4) [OF order] d'(2) h(1)
      by (simp add: add.assoc)
    with 2 f(2) d'(1) show ?thesis by metis
  qed
qed

text \<open>What a failed enqueue costs. When the transaction of the queue cannot begin and the rollups are
  due, the handler answers that nothing was accepted and the queue is as it was, but the noise
  filter has been emptied: the tokens it had accumulated from earlier payloads are gone with this
  one, and are counted as rolled up.\<close>

theorem failed_enqueue_drops_rollups:
  assumes run: "handleLogs D payload d = ((accepted, dropped), d')"
    and due: "\<And>k. rollupInterval \<le> ue_now (de_up D) k - dm_lastRollup d"
    and fails: "\<And>k. q_fail (ue_queue (de_up D) k) S_Begin"
  shows "accepted = 0 \<and> up_events (dm_up d') = up_events (dm_up d) \<and> nf_pending (dm_filter d') = []"
proof -
  obtain events nd kept d1 where p: "log_prepared D payload d = (events, nd, kept, d1)" by (metis prod.exhaust)
  obtain rollups d2 where r: "dueRollups D d1 = (rollups, d2)" by fastforce
  obtain b d3 where e: "enqueue_events D (kept @ rollups) d2 = (b, d3)" by fastforce
  note f = log_prepared_facts [OF p] and g = dueRollups_facts [OF r] and h = enqueue_events_fields [OF e]
  have d': "up_events (dm_up d') = up_events (dm_up d3)" "dm_filter d' = dm_filter d3"
    "accepted = (if b then length kept else 0)"
    using run by (auto simp: handleLogs_eq p r e split: bool.splits)
  have "q_fail (q_at (de_up D) (dm_up d2)) S_Begin" using fails by (simp add: q_at_def)
  then have "up_events (dm_up d3) = up_events (dm_up d2)" "b \<Longrightarrow> kept = []"
    using h(3) by (auto simp: Enqueue_def enqueue_table_def split: if_splits)
  moreover have "nf_pending (dm_filter d2) = []"
    using g(5) due f(4) by (simp add: now_of_def clock_def)
  ultimately show ?thesis using d' f(5) g(1) h(1) by auto
qed

subsection \<open>Retention\<close>

text \<open>The stamp before which a delivered row is pruned.\<close>

definition prune_stamp :: "daemon_env \<Rightarrow> daemon \<Rightarrow> string" where
  "prune_stamp D d = format_fixed (now_of D d - sint (dm_retentionDays d) * (24 * 3600 * nanos))"

lemma retention_cutoff_exact:
  assumes "1 \<le> sint (dm_retentionDays d)" "sint (dm_retentionDays d) \<le> 3650"
  shows "format_fixed (retention_cutoff D d) = prune_stamp D d"
proof -
  let ?n = "sint (dm_retentionDays d)"
  have w: "- dm_retentionDays d * 24 * (3600 * second) = i64 (- ?n * (24 * 3600 * nanos))"
    by (simp add: i64_def second_def nanos_def)
  have "i64_in_range (- ?n * (24 * 3600 * nanos))" using assms by (simp add: i64_in_range_def nanos_def)
  then have "sint (- dm_retentionDays d * 24 * (3600 * second)) = - ?n * (24 * 3600 * nanos)"
    unfolding w by (rule sint_i64)
  then show ?thesis by (simp add: retention_cutoff_def prune_stamp_def)
qed

lemma prune_table_rows:
  "r \<in> set (tab_rows t) \<Longrightarrow> r \<in> set (tab_rows (snd (prune_table E c t))) \<or> prunable (format_fixed c) r"
  by (auto simp: prune_table_def Let_def)

definition session_prunable :: "string \<Rightarrow> session_row \<Rightarrow> bool" where
  "session_prunable cutoff r \<longleftrightarrow> sr_State r = Acked \<and> (\<exists>a. sr_AckedAt r = Some a \<and> a < cutoff)"

lemma prune_sessions_rows:
  "r \<in> set rows \<Longrightarrow> r \<in> set (snd (PruneAckedSessions E c rows)) \<or> session_prunable (format_fixed c) r"
  by (auto simp: PruneAckedSessions_def session_prunable_def Let_def split: option.splits)

text \<open>The three tables after \<open>pruneOnce\<close>; the sessions are reached only when the metrics were.\<close>

lemma pruneOnce_tables:
  obtains E1 E2 E3 w1 w2 where
    "up_events (dm_up (pruneOnce D d)) = snd (prune_table E1 (retention_cutoff D d) (up_events (dm_up d)))"
    "up_metrics (dm_up (pruneOnce D d)) = snd (prune_table E2 (retention_cutoff D d) (up_metrics (dm_up d)))"
    "up_sessions (dm_up (pruneOnce D d)) = up_sessions (dm_up d)
       \<and> snd (fst (prune_table E2 (retention_cutoff D d) (up_metrics (dm_up d)))) \<noteq> None
     \<or> up_sessions (dm_up (pruneOnce D d)) = snd (PruneAckedSessions E3 (retention_cutoff D d) (up_sessions (dm_up d)))"
    "E1 = q_at (de_up D) w1" "E2 = q_at (de_up D) w2" "\<exists>w. E3 = q_at (de_up D) w"
proof -
  let ?c = "retention_cutoff D d" and ?U = "de_up D"
  define w1 where "w1 = tick (dm_up d)"
  define w2 where "w2 = snd (on_events ?U (\<lambda>E. PruneAcked E ?c) w1)"
  have e: "up_events w2 = snd (prune_table (q_at ?U w1) ?c (up_events (dm_up d)))"
    "up_metrics w2 = up_metrics (dm_up d)" "up_sessions w2 = up_sessions (dm_up d)"
    by (simp_all add: w2_def w1_def on_events_def PruneAcked_def tick_def case_prod_beta)
  obtain n err w3 where m: "on_metrics ?U (\<lambda>E. PruneAckedMetrics E ?c) w2 = ((n, err), w3)" by (metis prod.exhaust)
  then have w3: "prune_table (q_at ?U w2) ?c (up_metrics (dm_up d)) = ((n, err), up_metrics w3)"
    "up_events w3 = up_events w2" "up_sessions w3 = up_sessions (dm_up d)"
    using e by (auto simp: on_metrics_def PruneAckedMetrics_def tick_def split: prod.splits)
  have r: "pruneOnce D d = (case err of Some e \<Rightarrow> d\<lparr>dm_up := w3\<rparr>
      | None \<Rightarrow> d\<lparr>dm_up := snd (on_sessions ?U (\<lambda>E. PruneAckedSessions E ?c) w3)\<rparr>)"
    using m by (simp add: pruneOnce_def Let_def w2_def w1_def split: option.splits)
  have s: "up_events (snd (on_sessions ?U (\<lambda>E. PruneAckedSessions E ?c) w3)) = up_events w3"
    "up_metrics (snd (on_sessions ?U (\<lambda>E. PruneAckedSessions E ?c) w3)) = up_metrics w3"
    "up_sessions (snd (on_sessions ?U (\<lambda>E. PruneAckedSessions E ?c) w3)) = snd (PruneAckedSessions (q_at ?U w3) ?c (up_sessions (dm_up d)))"
    using w3(3) by (simp_all add: on_sessions_def tick_def case_prod_beta)
  show ?thesis
    by (rule that [of "q_at ?U w1" "q_at ?U w2" "q_at ?U w3" w1 w2])
      (use r s w3 e in \<open>cases err; auto\<close>)+
qed

text \<open>C24: retention removes delivered rows only, and old ones. With the configured retention of 1 to 3650
  days, every event, metric point and session that \<open>pruneOnce\<close> removes was acknowledged, and was so
  before now minus the retention; nothing undelivered is ever lost to retention, whatever fails.
  When no statement fails, nothing older is left in any of the three tables.\<close>

theorem pruneOnce_retention:
  fixes D :: daemon_env and d :: daemon
  assumes days: "1 \<le> sint (dm_retentionDays d)" "sint (dm_retentionDays d) \<le> 3650"
  defines "stamp \<equiv> format_fixed (now_of D d - sint (dm_retentionDays d) * (24 * 3600 * nanos))"
    and "w \<equiv> dm_up d" and "w' \<equiv> dm_up (pruneOnce D d)"
  shows "(\<forall>r \<in> set (tab_rows (up_events w)). r \<in> set (tab_rows (up_events w')) \<or> prunable stamp r)
    \<and> (\<forall>r \<in> set (tab_rows (up_metrics w)). r \<in> set (tab_rows (up_metrics w')) \<or> prunable stamp r)
    \<and> (\<forall>r \<in> set (up_sessions w). r \<in> set (up_sessions w') \<or> session_prunable stamp r)
    \<and> ((\<forall>k s. \<not> q_fail (ue_queue (de_up D) k) s) \<longrightarrow>
        (\<forall>r \<in> set (tab_rows (up_events w')). \<not> prunable stamp r)
        \<and> (\<forall>r \<in> set (tab_rows (up_metrics w')). \<not> prunable stamp r)
        \<and> (\<forall>r \<in> set (up_sessions w'). \<not> session_prunable stamp r))"
proof -
  obtain E1 E2 E3 w1 w2 where t:
    "up_events w' = snd (prune_table E1 (retention_cutoff D d) (up_events w))"
    "up_metrics w' = snd (prune_table E2 (retention_cutoff D d) (up_metrics w))"
    "up_sessions w' = up_sessions w \<and> snd (fst (prune_table E2 (retention_cutoff D d) (up_metrics w))) \<noteq> None
     \<or> up_sessions w' = snd (PruneAckedSessions E3 (retention_cutoff D d) (up_sessions w))"
    "E1 = q_at (de_up D) w1" "E2 = q_at (de_up D) w2" "\<exists>w. E3 = q_at (de_up D) w"
    unfolding w_def w'_def by (rule pruneOnce_tables)
  have st: "format_fixed (retention_cutoff D d) = stamp"
    using retention_cutoff_exact [OF days] by (simp add: stamp_def prune_stamp_def)
  have "\<forall>r \<in> set (tab_rows (up_events w)). r \<in> set (tab_rows (up_events w')) \<or> prunable stamp r"
    "\<forall>r \<in> set (tab_rows (up_metrics w)). r \<in> set (tab_rows (up_metrics w')) \<or> prunable stamp r"
    unfolding t(1,2) using prune_table_rows st by metis+
  moreover have "\<forall>r \<in> set (up_sessions w). r \<in> set (up_sessions w') \<or> session_prunable stamp r"
    using t(3) prune_sessions_rows st by metis
  moreover have "(\<forall>r \<in> set (tab_rows (up_events w')). \<not> prunable stamp r)
      \<and> (\<forall>r \<in> set (tab_rows (up_metrics w')). \<not> prunable stamp r) \<and> (\<forall>r \<in> set (up_sessions w'). \<not> session_prunable stamp r)"
    if ok: "\<forall>k s. \<not> q_fail (ue_queue (de_up D) k) s"
  proof -
    have ok: "\<And>s. \<not> q_fail E1 s" "\<And>s. \<not> q_fail E2 s" "\<And>s. \<not> q_fail E3 s"
      using ok t(4-6) by (auto simp: q_at_def)
    have "up_sessions w' = snd (PruneAckedSessions E3 (retention_cutoff D d) (up_sessions w))"
      using t(3) ok(2) by (auto simp: prune_table_def Let_def)
    then show ?thesis
      using ok t(1,2) by (auto simp: prune_table_def PruneAckedSessions_def session_prunable_def Let_def st split: option.splits)
  qed
  ultimately show ?thesis by blast
qed

subsection \<open>Shutdown\<close>

lemma enqueued_idle: "enqueued t new t' \<Longrightarrow> idle t \<Longrightarrow> table_ok t' \<and> idle t'"
  unfolding enqueued_def idle_def by (auto 4 3)

lemma final_rollups_facts:
  fixes D :: daemon_env
  assumes "\<And>k. monotone_alloc (ue_queue (de_up D) k)" "table_ok (up_events (dm_up d))" "idle (up_events (dm_up d))"
  shows "table_ok (up_events (dm_up (final_rollups D d)))" "idle (up_events (dm_up (final_rollups D d)))"
    "up_metrics (dm_up (final_rollups D d)) = up_metrics (dm_up d)"
    "up_sessions (dm_up (final_rollups D d)) = up_sessions (dm_up d)"
    "nf_pending (dm_filter (final_rollups D d)) = []"
proof -
  obtain rollups f where fl: "FlushRollups (de_rollups D (step_of d)) (format_rfc3339 (now_of D d)) (dm_filter d) = (rollups, f)"
    by fastforce
  define d1 where "d1 = on_up tick (d\<lparr>dm_filter := f\<rparr>)"
  have d1: "up_events (dm_up d1) = up_events (dm_up d)" "up_metrics (dm_up d1) = up_metrics (dm_up d)"
    "up_sessions (dm_up d1) = up_sessions (dm_up d)" "nf_pending (dm_filter d1) = []"
    using fl by (auto simp: d1_def tick_def FlushRollups_def split: if_splits)
  obtain b d2 where e: "enqueue_events D rollups d1 = (b, d2)" by fastforce
  note h = enqueue_events_fields [OF e]
  obtain res where q: "Enqueue (q_at (de_up D) (dm_up d1)) queue_caps rollups (up_events (dm_up d)) = (res, up_events (dm_up d2))"
    using h(3) d1(1) by auto
  have mono: "monotone_alloc (q_at (de_up D) (dm_up d1))" using assms(1) by (simp add: monotone_alloc_def q_at_def)
  from q assms(2) mono have ev: "table_ok (up_events (dm_up d2)) \<and> idle (up_events (dm_up d2))"
  proof (cases rule: Enqueue_enqueued)
    case (2 new)
    then show ?thesis using enqueued_idle assms(3) by blast
  qed (use assms(2,3) in simp)
  have o: "up_metrics (dm_up d2) = up_metrics (dm_up d1)" "up_sessions (dm_up d2) = up_sessions (dm_up d1)"
    using e by (auto simp: enqueue_events_def on_events_def tick_def split: prod.splits sum.splits)
  have eq: "final_rollups D d = (if rollups = [] then d1 else d2)"
    by (simp add: final_rollups_def fl d1_def [symmetric] e Let_def)
  show "table_ok (up_events (dm_up (final_rollups D d)))" "idle (up_events (dm_up (final_rollups D d)))"
    "up_metrics (dm_up (final_rollups D d)) = up_metrics (dm_up d)"
    "up_sessions (dm_up (final_rollups D d)) = up_sessions (dm_up d)"
    "nf_pending (dm_filter (final_rollups D d)) = []"
    using eq ev o d1 h(1) assms(2,3) by simp_all
qed


subsection \<open>Through the receiver\<close>

text \<open>C3: what an agent is told. An admitted POST of logs to the daemon's receiver is answered 200; the
  accepted and dropped counts of the answer add up to the number of log records in the decoded body
  (none when the body does not decode), whatever fails on the way; the daemon has handled exactly
  that payload, and its \<open>received\<close> counter has grown by that number.\<close>

theorem serve_logs:
  assumes start: "startReceiver D port token = Some s0" "sv_handler s = sv_handler s0"
    and r: "admitted s r" "hq_path r = ''/v1/logs''"
  shows "\<exists>accepted dropped s' d'. ServeHTTP s r d = (writeJSON 200 (R_Counts accepted dropped), s', d')
    \<and> handleLogs D (decodeBody r) d = ((accepted, dropped), d')
    \<and> accepted + dropped = length (log_records (decodeBody r))
    \<and> counter_get (up_counters (dm_up d')) cReceived
      = counter_get (up_counters (dm_up d)) cReceived + of_nat (accepted + dropped)"
proof -
  obtain accepted dropped d' where h: "handleLogs D (decodeBody r) d = ((accepted, dropped), d')" by (metis prod.exhaust)
  have "sv_handler s = Some (\<lambda>payload d. (case handleLogs D payload d of (res, d) \<Rightarrow> (Some res, d)))"
    using start by (auto simp: startReceiver_def NewServer_def Let_def split: if_splits)
  with ServeHTTP_answers [OF r(1) _ refl, of d] r(2) h
  have "\<exists>s'. ServeHTTP s r d = (writeJSON 200 (R_Counts accepted dropped), s', d')" by simp
  moreover have "accepted + dropped = length (log_records (decodeBody r))"
    "counter_get (up_counters (dm_up d')) cReceived
      = counter_get (up_counters (dm_up d)) cReceived + of_nat (length (log_records (decodeBody r)))"
    using handleLogs_counts [where D = D and payload = "decodeBody r" and d = d] h by simp_all
  ultimately show ?thesis using h by metis
qed

subsection \<open>A concrete daemon\<close>

text \<open>A daemon that is cut off from the network, with one event in its queue, two tokens pending in its
  filter, and no resolver; the same with a database whose transactions do not begin, an hour later.\<close>

definition sample_denv :: daemon_env where
  "sample_denv = \<lparr>de_up = offline_env, de_oob = (\<lambda>_. 0), de_files = (\<lambda>_. session_env []), de_groups = (\<lambda>_ gs. gs),
     de_rollups = (\<lambda>_ p. p)\<rparr>"

definition broken_denv :: daemon_env where
  "broken_denv = sample_denv\<lparr>de_up := offline_env\<lparr>ue_now := (\<lambda>_. 3600 * nanos),
     ue_queue := (\<lambda>_. (good_env 0)\<lparr>q_fail := (\<lambda>s. s = S_Begin)\<rparr>)\<rparr>\<rparr>"

definition sample_daemon :: daemon where
  "sample_daemon = \<lparr>dm_up = offline_start,
     dm_filter = (newFilter [] [])\<lparr>nf_pending := [(''m'', empty_bucket\<lparr>b_input := 2\<rparr>)]\<rparr>,
     dm_metricFilter = NewMetricFilter [], dm_repo = ''r'', dm_resolver = None, dm_retentionDays = 7, dm_lastRollup = 0\<rparr>"

lemma sample_idle: "idle (up_events offline_start)" "idle (up_metrics offline_start)" "idle_sessions (up_sessions offline_start)"
  by (simp_all add: idle_def idle_sessions_def offline_start_def New_def one_event_def empty_table_def)

lemma sample_mono: "monotone_alloc (ue_queue offline_env k)"
  by (simp add: offline_env_def)

lemma handleLogs_conserves_tokens_witness:
  "\<exists>accepted dropped d'. handleLogs sample_denv [] sample_daemon = ((accepted, dropped), d')
    \<and> ((\<exists>new. enqueued one_event new (up_events (dm_up d'))
          \<and> tokens_of (map row_payload new) + pending_tokens (dm_filter d') = Totals 2 0 0 0)
       \<or> (up_events (dm_up d') = one_event \<and> accepted = 0))"
proof -
  obtain accepted dropped d' where h: "handleLogs sample_denv [] sample_daemon = ((accepted, dropped), d')" by (metis prod.exhaust)
  have "up_events (dm_up sample_daemon) = one_event" by (simp add: sample_daemon_def offline_start_def New_def)
  moreover have "tokens_of (fst (NormalizeLogBatch (log_env sample_denv sample_daemon) [] (dm_repo sample_daemon)))
      + pending_tokens (dm_filter sample_daemon) = Totals 2 0 0 0"
    by (simp add: NormalizeLogBatch_eq log_records_def aget_def asSlice_def map_filter_simps sample_daemon_def
        pending_tokens_def bucket_tokens_def empty_bucket_def plus_token_totals_def zero_token_totals_def)
  moreover have "table_ok one_event" using offline_ok(1) by (simp add: offline_start_def New_def)
  ultimately show ?thesis
    using handleLogs_conserves_tokens [OF h] h sample_mono by (simp add: sample_denv_def)
qed

lemma failed_enqueue_drops_rollups_witness:
  "\<exists>dropped d'. handleLogs broken_denv [] sample_daemon = ((0, dropped), d') \<and> nf_pending (dm_filter d') = []"
proof -
  obtain accepted dropped d' where h: "handleLogs broken_denv [] sample_daemon = ((accepted, dropped), d')" by (metis prod.exhaust)
  from failed_enqueue_drops_rollups [OF h] have "accepted = 0 \<and> nf_pending (dm_filter d') = []"
    by (simp add: broken_denv_def sample_denv_def sample_daemon_def rollupInterval_def)
  with h show ?thesis by blast
qed

lemma pruneOnce_retention_witness:
  "set (tab_rows one_event) \<subseteq> set (tab_rows (up_events (dm_up (pruneOnce sample_denv sample_daemon))))"
proof -
  have "up_events (dm_up sample_daemon) = one_event" by (simp add: sample_daemon_def offline_start_def New_def)
  moreover have "\<not> prunable s r" if "r \<in> set (tab_rows one_event)" for s r
    using that by (simp add: one_event_def prunable_def)
  ultimately show ?thesis
    using pruneOnce_retention [of sample_daemon sample_denv] by (auto simp: sample_daemon_def)
qed


lemma serve_logs_witness:
  "\<exists>s accepted dropped s' d'. startReceiver sample_denv 0 [] = Some s
    \<and> ServeHTTP s (sample_post ''127.0.0.1:8765'') sample_daemon = (writeJSON 200 (R_Counts accepted dropped), s', d')
    \<and> accepted + dropped = 0"
proof -
  have "requireLoopback ''127.0.0.1''"
    by (simp add: requireLoopback_def parse_ip_def parse_ipv4_def ipv4_field_def is_digit_def digits_val_def digit_val_def
        byte_def is_loopback_def Let_def)
  then obtain s where s: "startReceiver sample_denv 0 [] = Some s" by (simp add: startReceiver_def NewServer_def)
  then have "admitted s (sample_post ''127.0.0.1:8765'')"
    using sample_hosts by (simp add: admitted_def sample_post_def)
  from serve_logs [OF s refl this, of sample_daemon] s show ?thesis
    by (auto simp: sample_post_def decodeBody_def maxBodyBytes_def log_records_def aget_def asSlice_def)
qed

end
