(* ===== verification/Inventory_Safety.thy ===== *)
theory Inventory_Safety
  imports Uploader_Props
begin

text \<open>
  Consent of the inventory upload (\<open>uploader/inventory.go\<close>): what \<open>syncInventory\<close> sends and
  records, when the policy may withdraw the consent at any point where the worker holds no lock.
\<close>

lemma finishInventory_client [simp]:
  "up_client (finishInventory U status at n delay w) = up_client w"
  by (simp add: finishInventory_def Let_def tick_def)

lemma call_SendInventory:
  fixes U :: up_env
  assumes "call (SendInventory (ue_net U) cid at items) w = (r, w')"
  shows "sends (\<lambda>req. rq_Path req = ''/ingest/v1/inventory'' \<and> rq_Payload req = Some (P_Inventory cid at items)) w w'"
  using call_limited(1) [of "length items > MaxInventoryItems" "BatchTooLarge (length items)" U] assms
  by (simp add: SendInventory_def [abs_def] cong: if_cong)

lemma if_or: "x = (if c then a else b) \<Longrightarrow> (c \<Longrightarrow> x = a \<Longrightarrow> P) \<Longrightarrow> (x = b \<Longrightarrow> P) \<Longrightarrow> P"
  by (cases c) simp_all

text \<open>Nothing of the inventory leaves without consent. While the other goroutine sends nothing
  itself, a run of \<open>syncInventory\<close> either sends nothing at all, or the consent was there when it
  started and again after the discovery, right before the upload, and all it sends is the snapshot,
  to the inventory endpoint. If the consent is withdrawn while the snapshot is under way, nothing
  is recorded afterwards: the state is as the other goroutine left it.\<close>

theorem syncInventory_consent:
  fixes U :: up_env and others :: "nat \<Rightarrow> uploader \<Rightarrow> uploader" and gone :: bool and w :: uploader
  assumes others: "\<And>k v. up_client (others k v) = up_client v"
  defines "w' \<equiv> syncInventory U others gone w"
  shows "(cl_sent (up_client w') = cl_sent (up_client w)
      \<or> (inventoryEnabled w \<and> (\<exists>v. inventoryEnabled (others 0 v))
         \<and> sends (\<lambda>req. rq_Path req = ''/ingest/v1/inventory'') w w'))
    \<and> (inventoryEnabled w \<and> (\<forall>k v. \<not> inventoryEnabled (others k v)) \<longrightarrow> (\<exists>v. w' = others 0 v \<or> w' = others 1 v))"
proof (cases "inventoryEnabled w")
  case False
  then show ?thesis by (simp add: w'_def syncInventory_def)
next
  case True
  define w1 where "w1 = mutateConfig U set_inventory_pending (w\<lparr>up_invCancel := True, up_invCancelled := False\<rparr>)"
  obtain res w2 where b: "buildAndSendInventory U others w1 = (res, w2)" by (metis prod.exhaust)
  have w': "w' = (case res of
        Some (n, observedAt) \<Rightarrow> if inventoryEnabled w2
          then finishInventory U ''current'' observedAt (of_nat n) inventoryRefreshInterval (others 2 w2) else w2
      | None \<Rightarrow> if \<not> gone \<and> \<not> up_invCancelled w2 \<and> inventoryEnabled w2
          then finishInventory U ''error'' [] 0 inventoryRetryInterval (others 2 w2) else w2)"
    using True b by (simp add: w'_def syncInventory_def Let_def w1_def [symmetric])
  have c: "w' = w2 \<or> inventoryEnabled w2 \<and> (\<exists>st at n d. w' = finishInventory U st at n d (others 2 w2))"
  proof (cases res)
    case None
    have "w' = (if \<not> gone \<and> \<not> up_invCancelled w2 \<and> inventoryEnabled w2
        then finishInventory U ''error'' [] 0 inventoryRetryInterval (others 2 w2) else w2)"
      using w' by (simp only: None option.case)
    then show ?thesis by (rule if_or) blast+
  next
    case (Some x)
    have "w' = (if inventoryEnabled w2
        then finishInventory U ''current'' (snd x) (of_nat (fst x)) inventoryRefreshInterval (others 2 w2) else w2)"
      using w' by (simp only: Some option.case case_prod_beta)
    then show ?thesis by (rule if_or) blast+
  qed
  have fin: "up_client w' = up_client w2" using c others by auto
  have fin2: "\<not> inventoryEnabled w2 \<Longrightarrow> w' = w2" using c by blast
  have w1: "up_client w1 = up_client w" by (simp add: w1_def)
  let ?v = "others 0 (tick w1)"
  show ?thesis
  proof (cases "ue_discover U (up_step w1) = None \<or> \<not> inventoryEnabled ?v")
    case stop: True
    then have "w2 = ?v" using b by (auto simp: buildAndSendInventory_def Let_def split: option.splits)
    with fin fin2 others w1 show ?thesis by (auto simp: tick_def)
  next
    case False
    then obtain items where items: "ue_discover U (up_step w1) = Some items" by auto
    obtain r w3 where c: "call (SendInventory (ue_net U) (ue_collectorID U) (format_rfc3339 (clock U ?v)) items) (tick ?v) = (r, w3)"
      by (metis prod.exhaust)
    have w2: "w2 = others 1 w3" using b False items c by (simp add: buildAndSendInventory_def Let_def)
    have "up_client (tick ?v) = up_client w" using others w1 by (simp add: tick_def)
    then have "sends (\<lambda>req. rq_Path req = ''/ingest/v1/inventory'') w w'"
      using sends_mono [OF call_SendInventory [OF c], of "\<lambda>req. rq_Path req = ''/ingest/v1/inventory''"] others fin
      by (simp add: sends_def w2)
    with False True fin2 w2 show ?thesis by auto
  qed
qed

lemma syncInventory_consent_witness:
  "cl_sent (up_client (syncInventory offline_env (\<lambda>k v. v\<lparr>up_policy := one_policy\<rparr>) False
     (offline_start\<lparr>up_policy := one_policy\<lparr>pol_InventoryEnabled := True\<rparr>\<rparr>))) = []"
  using syncInventory_consent [of "\<lambda>k v. v\<lparr>up_policy := one_policy\<rparr>" offline_env False
      "offline_start\<lparr>up_policy := one_policy\<lparr>pol_InventoryEnabled := True\<rparr>\<rparr>"]
  by (simp add: inventoryEnabled_def one_policy_def offline_start_def New_def NewClient_def)

end
