(* ===== verification/Setup.thy ===== *)
theory Setup
  imports Codex_Repo Receiver
begin

text \<open>
  \<open>internal/setup\<close>: pointing the agents at the receiver. \<open>setup.go\<close> finds the agents and backs
  files up; \<open>codex.go\<close> edits the lines of Codex's \<open>config.toml\<close>; \<open>claude.go\<close> merges keys into the
  \<open>env\<close> object of Claude Code's \<open>settings.json\<close>.

  The state is the agents' files, a map from paths to contents and permission bits. Which
  operation fails, what a failed write leaves behind, the readings of TOML and JSON texts, the
  directories and the clock are the environment. A rendered error keeps its kind and no text.
\<close>

subsection \<open>\<open>setup.go\<close>\<close>

datatype setup_op = Op_Stat | Op_Read | Op_Write | Op_Mkdir

type_synonym agent_files = "string \<rightharpoonup> string \<times> nat"

record setup_env =
  se_home :: "string option"
  se_env :: "string \<Rightarrow> string"
  se_isdir :: "string \<Rightarrow> bool"
  se_lookpath :: "string \<Rightarrow> bool"
  se_stamp :: string
  se_fail :: "setup_op \<Rightarrow> string \<Rightarrow> bool"
  se_torn :: "string \<Rightarrow> (string \<times> nat) option"
  se_created :: "nat \<Rightarrow> nat"
  se_toml :: "string \<Rightarrow> gomap option"
  se_json :: "string \<Rightarrow> any option"
  se_indent :: "gomap \<Rightarrow> string option"

datatype refusal = Invalid_TOML | Otel_Missing | Wrong_Value | Exporter_Missing | Http_Missing
  | Wrong_Endpoint | Wrong_Protocol | Headers_Missing | Wrong_Header

datatype setup_error = No_Home | Stat_Failed | Read_Failed | Write_Failed | Mkdir_Failed
  | Invalid_JSON | Env_Not_Object | Encode_Failed | Refused refusal

definition EnvClaudeDir :: string where "EnvClaudeDir = ''BURNDOWN_CLAUDE_DIR''"
definition EnvCodexDir :: string where "EnvCodexDir = ''BURNDOWN_CODEX_DIR''"

definition agentDir :: "setup_env \<Rightarrow> string \<Rightarrow> string \<Rightarrow> setup_error + string" where
  "agentDir E envKey base =
     (if se_env E envKey \<noteq> [] then Inr (se_env E envKey)
      else (case se_home E of None \<Rightarrow> Inl No_Home | Some h \<Rightarrow> Inr (path_join [h, base])))"

definition ClaudeDir :: "setup_env \<Rightarrow> setup_error + string" where
  "ClaudeDir E = agentDir E EnvClaudeDir ''.claude''"

definition CodexDir :: "setup_env \<Rightarrow> setup_error + string" where
  "CodexDir E = agentDir E EnvCodexDir ''.codex''"

definition detect ::
    "setup_env \<Rightarrow> (setup_env \<Rightarrow> setup_error + string) \<Rightarrow> string \<Rightarrow> setup_error + bool \<times> string" where
  "detect E dirFn binary =
     (case dirFn E of
        Inl e \<Rightarrow> Inl e
      | Inr dir \<Rightarrow>
          if se_isdir E dir then Inr (True, dir)
          else if se_lookpath E binary then Inr (True, dir)
          else Inr (False, dir))"

definition DetectClaude :: "setup_env \<Rightarrow> setup_error + bool \<times> string" where
  "DetectClaude E = detect E ClaudeDir ''claude''"

definition DetectCodex :: "setup_env \<Rightarrow> setup_error + bool \<times> string" where
  "DetectCodex E = detect E CodexDir ''codex''"

text \<open>\<open>os.WriteFile\<close>: an existing file keeps its permission bits; a failed write leaves
  \<open>se_torn\<close> behind. \<open>os.ReadFile\<close>: \<open>Inr None\<close> is a file that does not exist.\<close>

definition write_file :: "setup_env \<Rightarrow> string \<Rightarrow> string \<Rightarrow> nat \<Rightarrow> agent_files \<Rightarrow> bool \<times> agent_files" where
  "write_file E path data perm fs =
     (if se_fail E Op_Write path then (False, fs(path := se_torn E path))
      else (True, fs(path \<mapsto> (data, case fs path of None \<Rightarrow> se_created E perm | Some (_, m) \<Rightarrow> m))))"

definition read_file :: "setup_env \<Rightarrow> string \<Rightarrow> agent_files \<Rightarrow> setup_error + string option" where
  "read_file E path fs =
     (if se_fail E Op_Read path then Inl Read_Failed else Inr (map_option fst (fs path)))"

definition backupFile ::
    "setup_env \<Rightarrow> string \<Rightarrow> string \<Rightarrow> agent_files \<Rightarrow> (setup_error + string) \<times> agent_files" where
  "backupFile E path suffix fs =
     (if se_fail E Op_Stat path then (Inl Stat_Failed, fs)
      else (case fs path of
          None \<Rightarrow> (Inr [], fs)
        | Some (data, mode) \<Rightarrow>
            if se_fail E Op_Read path then (Inl Read_Failed, fs)
            else (let backup = path @ suffix @ se_stamp E in
              case write_file E backup data mode fs of
                (False, fs) \<Rightarrow> (Inl Write_Failed, fs)
              | (True, fs) \<Rightarrow> (Inr backup, fs))))"

text \<open>The end both plans share: make the directory, write the file.\<close>

definition install :: "setup_env \<Rightarrow> string \<Rightarrow> string \<Rightarrow> string \<Rightarrow> agent_files \<Rightarrow> (setup_error + string) \<times> agent_files" where
  "install E path data backup fs =
     (if se_fail E Op_Mkdir (path_dir path) then (Inl Mkdir_Failed, fs)
      else (case write_file E path data 384 fs of
          (False, fs) \<Rightarrow> (Inl Write_Failed, fs)
        | (True, fs) \<Rightarrow> (Inr backup, fs)))"

subsection \<open>Decimal numbers\<close>

fun dec_nat :: "nat \<Rightarrow> string" where
  "dec_nat n = (if n < 10 then [char_of (48 + n)] else dec_nat (n div 10) @ [char_of (48 + n mod 10)])"

declare dec_nat.simps [simp del]

text \<open>\<open>%d\<close>.\<close>

definition itoa :: "int \<Rightarrow> string" where
  "itoa i = (if i < 0 then CHR ''-'' # dec_nat (nat (- i)) else dec_nat (nat i))"

subsection \<open>\<open>claude.go\<close>\<close>

definition TokenHeader :: string where "TokenHeader = ''X-Burndown-Token''"

definition otlpHeaderValue :: "string \<Rightarrow> string" where
  "otlpHeaderValue token = TokenHeader @ ''='' @ token"

definition claudeKeyOrder :: "string list" where
  "claudeKeyOrder =
     [''CLAUDE_CODE_ENABLE_TELEMETRY'', ''OTEL_EXPORTER_OTLP_ENDPOINT'', ''OTEL_EXPORTER_OTLP_PROTOCOL'',
      ''OTEL_METRICS_EXPORTER'', ''OTEL_LOGS_EXPORTER'', ''OTEL_LOG_TOOL_DETAILS'',
      ''OTEL_EXPORTER_OTLP_HEADERS'']"

definition claudeSensitiveKeys :: "string set" where
  "claudeSensitiveKeys = {''OTEL_EXPORTER_OTLP_HEADERS''}"

definition claudeTarget :: "int \<Rightarrow> string \<Rightarrow> (string \<times> string) list" where
  "claudeTarget port token =
     [(''CLAUDE_CODE_ENABLE_TELEMETRY'', ''1''),
      (''OTEL_EXPORTER_OTLP_ENDPOINT'', ''http://localhost:'' @ itoa port),
      (''OTEL_EXPORTER_OTLP_PROTOCOL'', ''http/json''),
      (''OTEL_METRICS_EXPORTER'', ''otlp''),
      (''OTEL_LOGS_EXPORTER'', ''otlp''),
      (''OTEL_LOG_TOOL_DETAILS'', ''1''),
      (''OTEL_EXPORTER_OTLP_HEADERS'', otlpHeaderValue token)]"

text \<open>The additions are a Go map, here in \<open>claudeKeyOrder\<close>.\<close>

record claude_plan =
  clp_Path :: string
  clp_additions :: "(string \<times> string) list"
  clp_settings :: gomap
  clp_env :: gomap

definition ClaudePlan_Empty :: "claude_plan \<Rightarrow> bool" where
  "ClaudePlan_Empty p \<longleftrightarrow> clp_additions p = []"

definition ClaudePlan_Descriptions :: "claude_plan \<Rightarrow> string list" where
  "ClaudePlan_Descriptions p =
     concat (map (\<lambda>k. case map_of (clp_additions p) k of
         None \<Rightarrow> []
       | Some v \<Rightarrow> [k @ ''='' @ (if k \<in> claudeSensitiveKeys then ''<redacted>'' else v)]) claudeKeyOrder)"

definition loadClaudeSettings :: "setup_env \<Rightarrow> string \<Rightarrow> agent_files \<Rightarrow> setup_error + gomap \<times> gomap" where
  "loadClaudeSettings E path fs =
     (case read_file E path fs of
        Inl e \<Rightarrow> Inl e
      | Inr None \<Rightarrow> Inr ([], [])
      | Inr (Some data) \<Rightarrow>
          (case Option.bind (se_json E data) as_object of
             None \<Rightarrow> Inl Invalid_JSON
           | Some settings \<Rightarrow>
               (case aget settings ''env'' of
                  ANil \<Rightarrow> Inr (settings, [])
                | AMap env \<Rightarrow> Inr (settings, env)
                | _ \<Rightarrow> Inl Env_Not_Object)))"

definition PlanClaude :: "setup_env \<Rightarrow> int \<Rightarrow> string \<Rightarrow> agent_files \<Rightarrow> setup_error + claude_plan" where
  "PlanClaude E port token fs =
     (case ClaudeDir E of
        Inl e \<Rightarrow> Inl e
      | Inr dir \<Rightarrow>
          (let path = path_join [dir, ''settings.json''] in
           case loadClaudeSettings E path fs of
             Inl e \<Rightarrow> Inl e
           | Inr (settings, env) \<Rightarrow>
               Inr \<lparr>clp_Path = path,
                    clp_additions = filter (\<lambda>(k, v). map_of env k = None) (claudeTarget port token),
                    clp_settings = settings, clp_env = env\<rparr>))"

definition merged_env :: "claude_plan \<Rightarrow> gomap" where
  "merged_env p = fold (\<lambda>(k, v) m. AList.update k (AStr v) m) (clp_additions p) (clp_env p)"

definition ClaudePlan_Apply ::
    "setup_env \<Rightarrow> claude_plan \<Rightarrow> agent_files \<Rightarrow> (setup_error + string) \<times> agent_files" where
  "ClaudePlan_Apply E p fs =
     (case backupFile E (clp_Path p) ''.json.bak.'' fs of
        (Inl e, fs) \<Rightarrow> (Inl e, fs)
      | (Inr backup, fs) \<Rightarrow>
          (case se_indent E (AList.update ''env'' (AMap (merged_env p)) (clp_settings p)) of
             None \<Rightarrow> (Inl Encode_Failed, fs)
           | Some data \<Rightarrow> install E (clp_Path p) (data @ [newline]) backup fs))"

end
