(* ===== verification/Setup_Codex.thy ===== *)
theory Setup_Codex
  imports Setup
begin

text \<open>
  \<open>internal/setup/codex.go\<close>: the editor of Codex's \<open>config.toml\<close>. It works on lines, with the
  bracket depth at the start of each line; only a line at depth 0 can be a table header or an
  assignment. An index is a natural number, a \<open>-1\<close> is \<open>None\<close>.
\<close>

subsection \<open>Lines and depths\<close>

definition splitLines :: "string \<Rightarrow> string list" where
  "splitLines s =
     (if s = [] then []
      else (let parts = split_by (\<lambda>c. c = newline) s
            in if parts \<noteq> [] \<and> last parts = [] then butlast parts else parts))"

definition join_lines :: "string list \<Rightarrow> string" where
  "join_lines lines = join [newline] lines"

definition ensureTrailingNewline :: "string \<Rightarrow> string" where
  "ensureTrailingNewline text = (if text = [] \<or> has_suffix text [newline] then text else text @ [newline])"

text \<open>\<open>stripStringsAndComments\<close>; the first argument is the open quote.\<close>

fun strip_from :: "char option \<Rightarrow> string \<Rightarrow> string" where
  "strip_from q [] = []"
| "strip_from (Some q) (c # s) = strip_from (if c = q then None else Some q) s"
| "strip_from None (c # s) =
     (if c = CHR ''#'' then []
      else if c = CHR 0x22 \<or> c = CHR 0x27 then strip_from (Some c) s
      else c # strip_from None s)"

definition stripStringsAndComments :: "string \<Rightarrow> string" where
  "stripStringsAndComments line = strip_from None line"

definition bracket :: "char \<Rightarrow> int" where
  "bracket c = (if c = CHR ''['' \<or> c = CHR ''{'' then 1 else if c = CHR '']'' \<or> c = CHR ''}'' then - 1 else 0)"

definition lineDelta :: "string \<Rightarrow> int" where
  "lineDelta line = sum_list (map bracket (stripStringsAndComments line))"

fun depths_from :: "int \<Rightarrow> string list \<Rightarrow> int list" where
  "depths_from d [] = []"
| "depths_from d (line # lines) = d # depths_from (max 0 (d + lineDelta line)) lines"

definition lineDepths :: "string list \<Rightarrow> int list" where
  "lineDepths lines = depths_from 0 lines"

subsection \<open>Table headers\<close>

text \<open>The match of \<open>tableHeaderRe\<close>.\<close>

definition tableHeader :: "string \<Rightarrow> bool" where
  "tableHeader line =
     (case dropWhile re_space line of
        [] \<Rightarrow> False
      | c # r \<Rightarrow>
          c = CHR ''['' \<and> (let name = takeWhile (\<lambda>c. c \<noteq> CHR '']'') r; rest = drop (length name) r
             in name \<noteq> [] \<and> rest \<noteq> [] \<and> list_all re_space (tl rest)))"

definition unquoteSegment :: "string \<Rightarrow> string" where
  "unquoteSegment s =
     (if 2 \<le> length s \<and> (hd s = CHR 0x22 \<or> hd s = CHR 0x27) \<and> last s = hd s
      then butlast (tl s) else s)"

definition splitDottedKey :: "string \<Rightarrow> string list" where
  "splitDottedKey s = map (\<lambda>seg. unquoteSegment (trim_space seg)) (split_by (\<lambda>c. c = CHR ''.'') s)"

definition headerKeyPath :: "string \<Rightarrow> string list option" where
  "headerKeyPath line =
     (let s = trim_space line
      in if has_prefix s ''['' \<and> has_suffix s '']'' \<and> tableHeader s
         then Some (splitDottedKey (butlast (tl s))) else None)"

definition headerMatches :: "string \<Rightarrow> string \<Rightarrow> bool" where
  "headerMatches line table = (headerKeyPath line = Some (splitDottedKey table))"

definition findTable :: "string list \<Rightarrow> int list \<Rightarrow> string \<Rightarrow> nat option" where
  "findTable lines depths table =
     (let i = length (takeWhile (\<lambda>(l, d). \<not> (d = 0 \<and> headerMatches l table)) (zip lines depths))
      in if i < length lines then Some i else None)"

definition tableEnd :: "string list \<Rightarrow> int list \<Rightarrow> nat \<Rightarrow> nat" where
  "tableEnd lines depths start =
     start + 1 + length (takeWhile (\<lambda>(l, d). \<not> (d = 0 \<and> tableHeader l)) (drop (start + 1) (zip lines depths)))"

text \<open>An assignment of a key at the top level of a table.\<close>

definition assigns :: "string \<Rightarrow> string \<times> int \<Rightarrow> bool" where
  "assigns key = (\<lambda>(l, d). d = 0 \<and> has_prefix (trim_space l) (key @ '' =''))"

definition keyPresent :: "string list \<Rightarrow> int list \<Rightarrow> nat \<Rightarrow> nat \<Rightarrow> string \<Rightarrow> bool" where
  "keyPresent lines depths from fin key =
     list_ex (assigns key) (take (fin - from) (drop from (zip lines depths)))"

subsection \<open>Edits\<close>

definition insertAt :: "string list \<Rightarrow> nat \<Rightarrow> string \<Rightarrow> string list" where
  "insertAt lines idx s = take idx lines @ [s] @ drop idx lines"

definition appendTable :: "string list \<Rightarrow> string \<Rightarrow> string \<Rightarrow> string" where
  "appendTable lines table bodyLine =
     (let lines = (if lines \<noteq> [] \<and> trim_space (last lines) \<noteq> [] then lines @ [[]] else lines)
      in join_lines (lines @ [''['' @ table @ '']'', bodyLine]) @ [newline])"

definition ensureTableKey :: "string \<Rightarrow> string \<Rightarrow> string \<Rightarrow> string \<Rightarrow> string \<times> bool" where
  "ensureTableKey text table key val =
     (let lines = splitLines text; depths = lineDepths lines in
      case findTable lines depths table of
        None \<Rightarrow> (appendTable lines table (key @ '' = '' @ val), True)
      | Some start \<Rightarrow>
          (let fin = tableEnd lines depths start in
           if keyPresent lines depths (start + 1) fin key then (ensureTrailingNewline text, False)
           else (join_lines (insertAt lines fin (key @ '' = '' @ val)) @ [newline], True)))"

definition replaceOrInsertTableKey :: "string \<Rightarrow> string \<Rightarrow> string \<Rightarrow> string \<Rightarrow> string \<times> bool" where
  "replaceOrInsertTableKey text table key val =
     (let lines = splitLines text; depths = lineDepths lines; wanted = key @ '' = '' @ val in
      case findTable lines depths table of
        None \<Rightarrow> (appendTable lines table wanted, True)
      | Some start \<Rightarrow>
          (let fin = tableEnd lines depths start;
               idx = start + 1 + length (takeWhile (\<lambda>ld. \<not> assigns key ld)
                       (take (fin - (start + 1)) (drop (start + 1) (zip lines depths))))
           in if idx < fin
              then (if trim_space (lines ! idx) = wanted then (join_lines lines @ [newline], False)
                    else (join_lines (lines[idx := wanted]) @ [newline], True))
              else (join_lines (insertAt lines fin wanted) @ [newline], True)))"

text \<open>The loop of \<open>removeTable\<close> that collapses blank lines at \<open>start\<close>.\<close>

function collapse_blank :: "nat \<Rightarrow> string list \<Rightarrow> string list" where
  "collapse_blank start lines =
     (if start < length lines \<and> trim_space (lines ! start) = [] \<and> 0 < start \<and> trim_space (lines ! (start - 1)) = []
      then collapse_blank start (take start lines @ drop (start + 1) lines) else lines)"
  by pat_completeness auto
termination by (relation "measure (\<lambda>(start, lines). length lines)") auto

declare collapse_blank.simps [simp del]

definition removeTable :: "string \<Rightarrow> string \<Rightarrow> string \<times> bool" where
  "removeTable text table =
     (let lines = splitLines text; depths = lineDepths lines in
      case findTable lines depths table of
        None \<Rightarrow> (ensureTrailingNewline text, False)
      | Some start \<Rightarrow>
          (let fin = tableEnd lines depths start;
               lines = collapse_blank start (take start lines @ drop fin lines)
           in (ensureTrailingNewline (join_lines lines), True)))"

definition ensureCodexExporter :: "string \<Rightarrow> string \<Rightarrow> string \<times> bool" where
  "ensureCodexExporter text rendered =
     (case replaceOrInsertTableKey text ''otel'' ''exporter'' rendered of (text, changed) \<Rightarrow>
      case removeTable text (''otel.exporter.'' @ [CHR 0x22] @ ''otlp-http'' @ [CHR 0x22]) of (text, removed1) \<Rightarrow>
      case removeTable text ''otel.exporter.otlp-http'' of (text, removed2) \<Rightarrow>
        (text, changed \<or> removed1 \<or> removed2))"

subsection \<open>The plan\<close>

text \<open>\<open>quoted_text\<close> puts a text between double quotes.\<close>

definition quoted_text :: "string \<Rightarrow> string" where
  "quoted_text s = [CHR 0x22] @ s @ [CHR 0x22]"

definition codexScalars :: "(string \<times> string \<times> any) list" where
  "codexScalars =
     [(''environment'', quoted_text ''control-center'', AStr ''control-center''),
      (''metrics_exporter'', quoted_text ''none'', AStr ''none''),
      (''trace_exporter'', quoted_text ''none'', AStr ''none''),
      (''log_user_prompt'', ''false'', ABool False)]"

definition codexExporterTable :: "string \<Rightarrow> string \<Rightarrow> string" where
  "codexExporterTable endpoint token =
     ''{ otlp-http = { endpoint = '' @ quoted_text endpoint @ '', protocol = '' @ quoted_text ''json''
       @ '', headers = { '' @ quoted_text TokenHeader @ '' = '' @ quoted_text token @ '' } } }''"

definition codexEndpoint :: "int \<Rightarrow> string" where
  "codexEndpoint port = ''http://127.0.0.1:'' @ itoa port @ ''/v1/logs''"

text \<open>The loop of \<open>editCodex\<close> over the scalars: the text, the changes, the keys added.\<close>

fun ensure_scalars :: "(string \<times> string \<times> any) list \<Rightarrow> string \<Rightarrow> string \<times> string list \<times> (string \<times> any) list" where
  "ensure_scalars [] text = (text, [], [])"
| "ensure_scalars ((key, val, want) # scalars) text =
     (case ensureTableKey text ''otel'' key val of (text, ok) \<Rightarrow>
      case ensure_scalars scalars text of (text, changes, added) \<Rightarrow>
        if ok then (text, (''otel.'' @ key @ '' = '' @ val) # changes, (key, want) # added)
        else (text, changes, added))"

definition editCodex :: "string \<Rightarrow> int \<Rightarrow> string \<Rightarrow> string \<times> string list \<times> (string \<times> any) list" where
  "editCodex text port token =
     (let endpoint = codexEndpoint port in
      case ensure_scalars codexScalars text of (text, changes, added) \<Rightarrow>
      case ensureCodexExporter text (codexExporterTable endpoint token) of (text, changed) \<Rightarrow>
        (ensureTrailingNewline text,
         if changed then changes @ [''otel.exporter = '' @ codexExporterTable endpoint ''<redacted>''] else changes,
         added))"

definition assertCodexExporter :: "gomap \<Rightarrow> int \<Rightarrow> string \<Rightarrow> refusal option" where
  "assertCodexExporter otel port token =
     (case aget otel ''exporter'' of
        AMap exporter \<Rightarrow>
          (case aget exporter ''otlp-http'' of
             AMap inner \<Rightarrow>
               if aget inner ''endpoint'' \<noteq> AStr (codexEndpoint port) then Some Wrong_Endpoint
               else if aget inner ''protocol'' \<noteq> AStr ''json'' then Some Wrong_Protocol
               else (case aget inner ''headers'' of
                   AMap headers \<Rightarrow> if aget headers TokenHeader \<noteq> AStr token then Some Wrong_Header else None
                 | _ \<Rightarrow> Some Headers_Missing)
           | _ \<Rightarrow> Some Http_Missing)
      | _ \<Rightarrow> Some Exporter_Missing)"

definition verifyCodexEdit :: "setup_env \<Rightarrow> string \<Rightarrow> int \<Rightarrow> string \<Rightarrow> (string \<times> any) list \<Rightarrow> refusal option" where
  "verifyCodexEdit E text port token added =
     (case se_toml E text of
        None \<Rightarrow> Some Invalid_TOML
      | Some doc \<Rightarrow>
          (case aget doc ''otel'' of
             AMap otel \<Rightarrow>
               if list_ex (\<lambda>(key, want). map_of otel key \<noteq> Some want) added then Some Wrong_Value
               else assertCodexExporter otel port token
           | _ \<Rightarrow> Some Otel_Missing))"

record codex_plan =
  cxp_Path :: string
  cxp_text :: string
  cxp_changes :: "string list"

definition CodexPlan_Empty :: "codex_plan \<Rightarrow> bool" where
  "CodexPlan_Empty p \<longleftrightarrow> cxp_changes p = []"

definition readIfExists :: "setup_env \<Rightarrow> string \<Rightarrow> agent_files \<Rightarrow> setup_error + string" where
  "readIfExists E path fs =
     (case read_file E path fs of
        Inl e \<Rightarrow> Inl e
      | Inr None \<Rightarrow> Inr []
      | Inr (Some data) \<Rightarrow> Inr data)"

definition PlanCodex :: "setup_env \<Rightarrow> int \<Rightarrow> string \<Rightarrow> agent_files \<Rightarrow> setup_error + codex_plan" where
  "PlanCodex E port token fs =
     (case CodexDir E of
        Inl e \<Rightarrow> Inl e
      | Inr dir \<Rightarrow>
          (let path = path_join [dir, ''config.toml''] in
           case readIfExists E path fs of
             Inl e \<Rightarrow> Inl e
           | Inr text \<Rightarrow>
               (case editCodex text port token of (text, changes, added) \<Rightarrow>
                let plan = \<lparr>cxp_Path = path, cxp_text = text, cxp_changes = changes\<rparr> in
                if CodexPlan_Empty plan then Inr plan
                else (case verifyCodexEdit E text port token added of
                    Some why \<Rightarrow> Inl (Refused why)
                  | None \<Rightarrow> Inr plan))))"

definition CodexPlan_Apply ::
    "setup_env \<Rightarrow> codex_plan \<Rightarrow> agent_files \<Rightarrow> (setup_error + string) \<times> agent_files" where
  "CodexPlan_Apply E p fs =
     (case backupFile E (cxp_Path p) ''.toml.bak.'' fs of
        (Inl e, fs) \<Rightarrow> (Inl e, fs)
      | (Inr backup, fs) \<Rightarrow> install E (cxp_Path p) (cxp_text p) backup fs)"

end
