(* ===== verification/Toml_Lines.thy ===== *)
theory Toml_Lines
  imports Setup_Codex
begin

text \<open>
  The text of \<open>config.toml\<close> as a document: lines, and the tables they form. A text read with
  \<open>splitLines\<close> and written with a final newline is \<open>text_of\<close> its lines; closed lines are a
  preamble and a list of tables, and every edit of \<open>codex.go\<close> is an edit of that list.
\<close>

subsection \<open>Text and lines\<close>

definition lines_ok :: "string list \<Rightarrow> bool" where
  "lines_ok L \<longleftrightarrow> (\<forall>l \<in> set L. newline \<notin> set l)"

definition text_of :: "string list \<Rightarrow> string" where
  "text_of L = concat (map (\<lambda>l. l @ [newline]) L)"

lemma split_by_ne [simp]: "split_by P xs \<noteq> []"
  by (induction xs) (auto split: list.splits)

lemma split_by_member: "f \<in> set (split_by P xs) \<Longrightarrow> \<forall>x \<in> set f. \<not> P x"
proof (induction xs arbitrary: f)
  case (Cons x xs)
  obtain g gs where g: "split_by P xs = g # gs" by (cases "split_by P xs") auto
  with Cons.IH have "\<forall>f \<in> set (g # gs). \<forall>x \<in> set f. \<not> P x" by auto
  with Cons.prems g show ?case by (cases "P x") auto
qed simp

lemma split_by_append_sep: "\<forall>x \<in> set a. \<not> P x \<Longrightarrow> P c \<Longrightarrow> split_by P (a @ c # b) = a # split_by P b"
  by (induction a) auto

lemma join_lines_text: "L \<noteq> [] \<Longrightarrow> join_lines L @ [newline] = text_of L"
  unfolding join_lines_def text_of_def by (induction "[newline]" L rule: join.induct) auto

lemma split_text_of: "lines_ok L \<Longrightarrow> split_by (\<lambda>c. c = newline) (text_of L) = L @ [[]]"
proof (induction L)
  case (Cons l L)
  then have "\<forall>x \<in> set l. x \<noteq> newline" by (auto simp: lines_ok_def)
  from split_by_append_sep [of l "\<lambda>c. c = newline" newline "text_of L", OF this] Cons show ?case
    by (simp add: text_of_def lines_ok_def)
qed (simp add: text_of_def)

lemma text_of_Nil [simp]: "text_of [] = []"
  by (simp add: text_of_def)

lemma text_of_empty [simp]: "text_of L = [] \<longleftrightarrow> L = []"
  by (cases L) (simp_all add: text_of_def)

lemma splitLines_text_of [simp]: "lines_ok L \<Longrightarrow> splitLines (text_of L) = L"
  by (cases "L = []") (simp_all add: splitLines_def Let_def split_text_of)

lemma lines_ok_split: "lines_ok (splitLines s)"
  unfolding lines_ok_def splitLines_def Let_def
  using split_by_member [of _ "\<lambda>c. c = newline" s] by (auto split: if_splits dest: in_set_butlastD)

lemma join_split: "join_lines (split_by (\<lambda>c. c = newline) s) = s"
proof (induction s)
  case (Cons c s)
  obtain f fs where f: "split_by (\<lambda>c. c = newline) s = f # fs" by (cases "split_by (\<lambda>c. c = newline) s") auto
  with Cons have "join_lines (f # fs) = s" by simp
  then show ?case by (cases fs) (auto simp: f join_lines_def)
qed (simp add: join_lines_def)

lemma split_last: "last (split_by (\<lambda>c. c = newline) s) = [] \<longleftrightarrow> s = [] \<or> last s = newline"
proof (induction s)
  case (Cons c s)
  obtain f fs where f: "split_by (\<lambda>c. c = newline) s = f # fs" by (cases "split_by (\<lambda>c. c = newline) s") auto
  show ?case
  proof (cases "s = []")
    case False
    have "fs = [] \<Longrightarrow> f \<noteq> []" using join_split [of s] f False by (auto simp: join_lines_def)
    then show ?thesis using Cons f False by (cases fs) auto
  qed simp
qed simp

lemma suffix_newline: "has_suffix s [newline] \<longleftrightarrow> s \<noteq> [] \<and> last s = newline"
  by (cases s rule: rev_cases) (auto simp: has_suffix_def has_prefix_def)

lemma ensureTrailingNewline_text: "ensureTrailingNewline s = text_of (splitLines s)"
proof (cases "s = []")
  case False
  let ?p = "split_by (\<lambda>c. c = newline) s"
  show ?thesis
  proof (cases "last s = newline")
    case True
    then have "last ?p = []" using split_last by blast
    then obtain q where q: "?p = q @ [[]]" by (metis append_butlast_last_id split_by_ne)
    have "q \<noteq> []" using join_split [of s] q False by (auto simp: join_lines_def)
    have "join_lines (q @ [[]]) = join_lines q @ [newline]"
      unfolding join_lines_def using \<open>q \<noteq> []\<close> by (induction "[newline]" q rule: join.induct) auto
    with join_lines_text [OF \<open>q \<noteq> []\<close>] join_split [of s] q have "s = text_of q" by simp
    with False True q show ?thesis
      by (simp add: ensureTrailingNewline_def suffix_newline splitLines_def)
  next
    case n: False
    then have "last ?p \<noteq> []" using split_last False by blast
    then have "splitLines s = ?p" using False by (simp add: splitLines_def)
    with join_lines_text [of ?p] join_split [of s] False n show ?thesis
      by (simp add: ensureTrailingNewline_def suffix_newline)
  qed
qed (simp add: ensureTrailingNewline_def splitLines_def)

lemma ensureTrailingNewline_of [simp]: "ensureTrailingNewline (text_of L) = text_of L"
  by (cases L rule: rev_cases) (simp_all add: ensureTrailingNewline_def suffix_newline text_of_def)

subsection \<open>Depths\<close>

fun depth_after :: "int \<Rightarrow> string list \<Rightarrow> int" where
  "depth_after d [] = d"
| "depth_after d (l # ls) = depth_after (max 0 (d + lineDelta l)) ls"

abbreviation deco :: "int \<Rightarrow> string list \<Rightarrow> (string \<times> int) list" where
  "deco d L \<equiv> zip L (depths_from d L)"

lemma length_depths [simp]: "length (depths_from d L) = length L"
  by (induction d L rule: depths_from.induct) auto

lemma depth_after_append [simp]: "depth_after d (A @ B) = depth_after (depth_after d A) B"
  by (induction d A rule: depth_after.induct) auto

lemma deco_append: "deco d (A @ B) = deco d A @ deco (depth_after d A) B"
  by (induction d A rule: depth_after.induct) auto

lemma depth_after_nonneg: "0 \<le> d \<Longrightarrow> 0 \<le> depth_after d L"
  by (induction d L rule: depth_after.induct) auto

subsection \<open>Tables\<close>

text \<open>The lines before the first header, and the tables: a header and the lines up to the next one.\<close>

fun tables_from :: "int \<Rightarrow> string list \<Rightarrow> string list \<times> (string \<times> string list) list" where
  "tables_from d [] = ([], [])"
| "tables_from d (l # ls) =
     (case tables_from (max 0 (d + lineDelta l)) ls of (P, ss) \<Rightarrow>
        if d = 0 \<and> tableHeader l then ([], (l, P) # ss) else (l # P, ss))"

definition toml_tables :: "string list \<Rightarrow> string list \<times> (string \<times> string list) list" where
  "toml_tables L = tables_from 0 L"

abbreviation table_lines :: "string \<times> string list \<Rightarrow> string list" where
  "table_lines s \<equiv> fst s # snd s"

definition lines_of :: "string list \<Rightarrow> (string \<times> string list) list \<Rightarrow> string list" where
  "lines_of P ss = P @ concat (map table_lines ss)"

text \<open>A run of lines that starts at depth \<open>d\<close>, closes what it opens and holds no header.\<close>

definition body_ok :: "int \<Rightarrow> string list \<Rightarrow> bool" where
  "body_ok d B \<longleftrightarrow> depth_after d B = 0 \<and> (\<forall>(l, e) \<in> set (deco d B). e = 0 \<longrightarrow> \<not> tableHeader l)"

definition head_depth :: "string \<Rightarrow> int" where
  "head_depth h = max 0 (lineDelta h)"

definition table_ok_lines :: "string \<times> string list \<Rightarrow> bool" where
  "table_ok_lines s \<longleftrightarrow> tableHeader (fst s) \<and> body_ok (head_depth (fst s)) (snd s)"

definition doc :: "string list \<Rightarrow> (string \<times> string list) list \<Rightarrow> string list \<Rightarrow> bool" where
  "doc P ss L \<longleftrightarrow> L = lines_of P ss \<and> body_ok 0 P \<and> list_all table_ok_lines ss"

lemma body_ok_Nil [simp]: "body_ok 0 []"
  by (simp add: body_ok_def)

lemma body_ok_Cons: "body_ok d (l # B) \<longleftrightarrow> (d = 0 \<longrightarrow> \<not> tableHeader l) \<and> body_ok (max 0 (d + lineDelta l)) B"
  by (auto simp: body_ok_def)

lemma body_ok_append:
  "body_ok d A \<Longrightarrow> body_ok 0 B \<Longrightarrow> body_ok d (A @ B)"
  by (auto simp: body_ok_def deco_append)

lemma lines_of_simps [simp]:
  "lines_of P [] = P" "lines_of [] (s # ss) = fst s # lines_of (snd s) ss"
  "lines_of (l # P) ss = l # lines_of P ss"
  by (simp_all add: lines_of_def)

lemma lines_of_append: "lines_of P ss = P @ lines_of [] ss"
  by (simp add: lines_of_def)

lemma tables_from_doc:
  "body_ok d P \<Longrightarrow> list_all table_ok_lines ss \<Longrightarrow> tables_from d (lines_of P ss) = (P, ss)"
proof (induction "length (lines_of P ss)" arbitrary: d P ss rule: less_induct)
  case less
  show ?case
  proof (cases P)
    case (Cons l Q)
    with less show ?thesis by (auto simp: body_ok_Cons)
  next
    case Nil
    with less.prems(1) have "d = 0" by (simp add: body_ok_def)
    show ?thesis
    proof (cases ss)
      case (Cons s ss')
      with less.prems(2) have s: "tableHeader (fst s)" "body_ok (max 0 (lineDelta (fst s))) (snd s)"
        "list_all table_ok_lines ss'" by (auto simp: table_ok_lines_def head_depth_def)
      have "tables_from (max 0 (lineDelta (fst s))) (lines_of (snd s) ss') = (snd s, ss')"
        using less.hyps [OF _ s(2,3)] Cons Nil by simp
      with s(1) show ?thesis by (simp add: Nil Cons \<open>d = 0\<close>)
    qed (simp add: Nil)
  qed
qed

lemma doc_from:
  "depth_after d L = 0 \<Longrightarrow> tables_from d L = (P, ss)
    \<Longrightarrow> L = lines_of P ss \<and> body_ok d P \<and> list_all table_ok_lines ss"
proof (induction d L arbitrary: P ss rule: tables_from.induct)
  case (2 d l ls)
  obtain Q tt where t: "tables_from (max 0 (d + lineDelta l)) ls = (Q, tt)" by fastforce
  with 2 have IH: "ls = lines_of Q tt" "body_ok (max 0 (d + lineDelta l)) Q" "list_all table_ok_lines tt" by auto
  show ?case
  proof (cases "d = 0 \<and> tableHeader l")
    case True
    with t "2.prems"(2) have "P = []" "ss = (l, Q) # tt" by auto
    with True IH show ?thesis
      by (simp add: table_ok_lines_def [of "(l, Q)"] head_depth_def)
  next
    case False
    with t "2.prems"(2) have "P = l # Q" "ss = tt" by auto
    with False IH show ?thesis by (auto simp: body_ok_Cons)
  qed
qed simp

lemma doc_tables: "doc P ss L \<Longrightarrow> toml_tables L = (P, ss)"
  unfolding doc_def toml_tables_def using tables_from_doc by blast

lemma doc_exists: "depth_after 0 L = 0 \<Longrightarrow> doc (fst (toml_tables L)) (snd (toml_tables L)) L"
  unfolding doc_def toml_tables_def using doc_from [of 0 L] by (metis prod.collapse)

lemma tables_closed:
  "list_all table_ok_lines ss \<Longrightarrow> body_ok d P \<Longrightarrow> depth_after d (lines_of P ss) = 0"
proof (induction ss arbitrary: d P)
  case (Cons s ss)
  then have "depth_after (head_depth (fst s)) (lines_of (snd s) ss) = 0"
    by (simp add: table_ok_lines_def)
  with Cons.prems(2) show ?case
    by (simp add: lines_of_append [of P] body_ok_def head_depth_def)
qed (simp add: body_ok_def)

lemma doc_closed: "doc P ss L \<Longrightarrow> depth_after 0 L = 0"
  unfolding doc_def using tables_closed by blast

end
