(* ===== verification/Toml_Edits.thy ===== *)
theory Toml_Edits
  imports Toml_Lines "HOL-Library.Sublist"
begin

text \<open>
  The edits of \<open>codex.go\<close> as edits of a document: which table a search finds, where a table ends,
  and what inserting, replacing and removing does to the preamble and the tables.
\<close>

subsection \<open>Searching a document\<close>

definition tmatch :: "string \<Rightarrow> string \<times> string list \<Rightarrow> bool" where
  "tmatch t s \<longleftrightarrow> headerMatches (fst s) t"

text \<open>A line that is a header once trimmed is one as it stands: no space but the ASCII ones
  around a header.\<close>

definition plain_headers :: "string list \<Rightarrow> bool" where
  "plain_headers L \<longleftrightarrow> (\<forall>l \<in> set L. tableHeader (trim_space l) \<longrightarrow> tableHeader l)"

lemma plain_headers_simps [simp]:
  "plain_headers []" "plain_headers (A @ B) \<longleftrightarrow> plain_headers A \<and> plain_headers B"
  "plain_headers (l # A) \<longleftrightarrow> (tableHeader (trim_space l) \<longrightarrow> tableHeader l) \<and> plain_headers A"
  by (auto simp: plain_headers_def)

lemma matches_header: "plain_headers L \<Longrightarrow> l \<in> set L \<Longrightarrow> headerMatches l t \<Longrightarrow> tableHeader l"
  by (auto simp: plain_headers_def headerMatches_def headerKeyPath_def Let_def split: if_splits)

lemma set_lines_of: "set (lines_of P ss) = set P \<union> (\<Union>s \<in> set ss. insert (fst s) (set (snd s)))"
  by (auto simp: lines_of_def)

lemma lines_of_tables_append: "lines_of P (A @ B) = lines_of P A @ lines_of [] B"
  by (simp add: lines_of_def)

lemma deco_headers:
  "body_ok d P \<Longrightarrow> list_all table_ok_lines A \<Longrightarrow> (l, 0) \<in> set (deco d (lines_of P A)) \<Longrightarrow> tableHeader l
    \<Longrightarrow> \<exists>s \<in> set A. l = fst s"
proof (induction A arbitrary: d P)
  case Nil
  then show ?case by (auto simp: body_ok_def)
next
  case (Cons s A)
  have "deco d (lines_of P (s # A)) = deco d P @ (fst s, 0) # deco (head_depth (fst s)) (lines_of (snd s) A)"
    using Cons.prems(1) by (simp add: lines_of_append [of P] deco_append body_ok_def head_depth_def)
  with Cons.prems consider "(l, 0) \<in> set (deco d P)" | "l = fst s"
    | "(l, 0) \<in> set (deco (head_depth (fst s)) (lines_of (snd s) A))" by auto
  then show ?case
  proof cases
    case 1
    with Cons.prems(1,4) show ?thesis by (auto simp: body_ok_def)
  next
    case 3
    from Cons.IH [OF _ _ this] Cons.prems show ?thesis by (auto simp: table_ok_lines_def)
  qed simp
qed

lemma takeWhile_stop: "\<forall>x \<in> set xs. P x \<Longrightarrow> ys = [] \<or> \<not> P (hd ys) \<Longrightarrow> takeWhile P (xs @ ys) = xs"
  by (induction xs) (auto, cases ys, auto)

lemma findTable_None:
  assumes "doc P ss L" "plain_headers L" "list_all (\<lambda>s. \<not> tmatch t s) ss"
  shows "findTable L (lineDepths L) t = None"
proof -
  have "\<not> (d = 0 \<and> headerMatches l t)" if "(l, d) \<in> set (deco 0 L)" for l d
  proof
    assume h: "d = 0 \<and> headerMatches l t"
    then have "tableHeader l" using matches_header [OF assms(2)] that by (metis in_set_zipE)
    with deco_headers [of 0 P ss l] assms(1) that h obtain s where "s \<in> set ss" "l = fst s"
      unfolding doc_def by blast
    with assms(3) h show False by (auto simp: tmatch_def list_all_iff)
  qed
  then have e: "takeWhile (\<lambda>(l, d). \<not> (d = 0 \<and> headerMatches l t)) (deco 0 L) = deco 0 L"
    by (auto simp: takeWhile_eq_all_conv)
  show ?thesis unfolding findTable_def lineDepths_def e by simp
qed

text \<open>The first table that matches, and its end.\<close>

lemma find_found:
  assumes d: "doc P (A @ s # B) L" and ph: "plain_headers L" and A: "list_all (\<lambda>s. \<not> tmatch t s) A" and m: "tmatch t s"
  shows "findTable L (lineDepths L) t = Some (length (lines_of P A))"
    and "tableEnd L (lineDepths L) (length (lines_of P A)) = length (lines_of P A) + 1 + length (snd s)"
    and "drop (length (lines_of P A) + 1) (zip L (lineDepths L))
      = deco (head_depth (fst s)) (snd s) @ deco 0 (lines_of [] B)"
proof -
  let ?F = "lines_of P A"
  have L: "L = ?F @ fst s # snd s @ lines_of [] B"
    using d by (simp add: doc_def lines_of_tables_append lines_of_append [of "snd s"])
  have ok: "body_ok 0 P" "list_all table_ok_lines A" "table_ok_lines s" "list_all table_ok_lines B"
    using d by (simp_all add: doc_def)
  have z: "depth_after 0 ?F = 0" using tables_closed ok by blast
  have sb: "depth_after (head_depth (fst s)) (snd s) = 0" using ok(3) by (simp add: table_ok_lines_def body_ok_def)
  have D: "zip L (lineDepths L)
      = deco 0 ?F @ (fst s, 0) # deco (head_depth (fst s)) (snd s) @ deco 0 (lines_of [] B)"
    unfolding L lineDepths_def using z sb by (simp add: deco_append head_depth_def)
  have F: "\<not> (e = 0 \<and> headerMatches l t)" if "(l, e) \<in> set (deco 0 ?F)" for l e
  proof
    assume h: "e = 0 \<and> headerMatches l t"
    have "l \<in> set L" using that by (auto simp: L dest: set_zip_leftD)
    then have "tableHeader l" using matches_header [OF ph] h by blast
    with deco_headers [OF ok(1,2)] that h obtain r where "r \<in> set A" "l = fst r" by blast
    with A h show False by (auto simp: tmatch_def list_all_iff)
  qed
  have "takeWhile (\<lambda>(l, d). \<not> (d = 0 \<and> headerMatches l t)) (zip L (lineDepths L)) = deco 0 ?F"
    unfolding D by (rule takeWhile_stop) (use F m in \<open>auto simp: tmatch_def\<close>)
  then show "findTable L (lineDepths L) t = Some (length ?F)" by (simp add: findTable_def L)
  show dr: "drop (length ?F + 1) (zip L (lineDepths L)) = deco (head_depth (fst s)) (snd s) @ deco 0 (lines_of [] B)"
    unfolding D by simp
  have "takeWhile (\<lambda>(l, d). \<not> (d = 0 \<and> tableHeader l)) (deco (head_depth (fst s)) (snd s) @ deco 0 (lines_of [] B))
      = deco (head_depth (fst s)) (snd s)"
  proof (rule takeWhile_stop)
    show "\<forall>x \<in> set (deco (head_depth (fst s)) (snd s)). case x of (l, d) \<Rightarrow> \<not> (d = 0 \<and> tableHeader l)"
      using ok(3) by (auto simp: table_ok_lines_def body_ok_def)
    show "deco 0 (lines_of [] B) = [] \<or> \<not> (case hd (deco 0 (lines_of [] B)) of (l, d) \<Rightarrow> \<not> (d = 0 \<and> tableHeader l))"
      using ok(4) by (cases B) (auto simp: table_ok_lines_def)
  qed
  then show "tableEnd L (lineDepths L) (length ?F) = length ?F + 1 + length (snd s)"
    by (simp add: tableEnd_def dr [simplified])
qed

lemma first_match:
  "list_all (\<lambda>s. \<not> P s) ss \<or> (\<exists>A s B. ss = A @ s # B \<and> list_all (\<lambda>s. \<not> P s) A \<and> P s)"
  using split_list_first_prop [of ss P] by (auto simp: list_all_iff)

subsection \<open>Blank lines\<close>

text \<open>Two tables are alike when they differ in blank lines only.\<close>

definition blank :: "string \<Rightarrow> bool" where
  "blank l \<longleftrightarrow> trim_space l = []"

definition solid :: "int \<Rightarrow> string list \<Rightarrow> (string \<times> int) list" where
  "solid d B = filter (\<lambda>(l, e). \<not> blank l) (deco d B)"

definition alike :: "string \<times> string list \<Rightarrow> string \<times> string list \<Rightarrow> bool" where
  "alike s s' \<longleftrightarrow> fst s = fst s' \<and> solid (head_depth (fst s)) (snd s) = solid (head_depth (fst s)) (snd s')"

definition alike_docs ::
    "string list \<Rightarrow> (string \<times> string list) list \<Rightarrow> string list \<Rightarrow> (string \<times> string list) list \<Rightarrow> bool" where
  "alike_docs P ss P' ss' \<longleftrightarrow> solid 0 P = solid 0 P' \<and> list_all2 alike ss ss'"

lemma alike_refl [simp]: "alike s s"
  by (simp add: alike_def)

lemma alike_refl_list [simp]: "list_all2 alike ss ss"
  by (simp add: list_all2_refl)

lemma alike_docs_sym: "alike_docs P ss P' ss' \<Longrightarrow> alike_docs P' ss' P ss"
  by (auto simp: alike_docs_def list_all2_conv_all_nth alike_def)

lemma blank_Nil [simp]: "blank []"
  by (simp add: blank_def trim_space_def)

lemma not_header_Nil [simp]: "\<not> tableHeader []"
  by (simp add: tableHeader_def)

lemma lineDelta_Nil [simp]: "lineDelta [] = 0"
  by (simp add: lineDelta_def stripStringsAndComments_def)

lemma max_depth_after [simp]: "0 \<le> d \<Longrightarrow> max 0 (depth_after d B) = depth_after d B"
  using depth_after_nonneg by simp

lemma body_blank: "0 \<le> d \<Longrightarrow> body_ok d (B @ [[]]) \<longleftrightarrow> body_ok d B"
  by (auto simp: body_ok_def deco_append)

lemma solid_blank [simp]: "solid d (B @ [[]]) = solid d B"
  by (simp add: solid_def deco_append)

lemma head_depth_nonneg [simp]: "0 \<le> head_depth h"
  by (simp add: head_depth_def)

lemma doc_add_blank:
  assumes "doc P ss L"
  shows "\<exists>P' ss'. doc P' ss' (L @ [[]]) \<and> alike_docs P ss P' ss'"
proof (cases ss rule: rev_cases)
  case Nil
  with assms have "doc (P @ [[]]) [] (L @ [[]])" by (simp add: doc_def body_blank)
  with Nil show ?thesis by (auto simp: alike_docs_def)
next
  case (snoc rr s)
  with assms have "doc P (rr @ [(fst s, snd s @ [[]])]) (L @ [[]])"
    by (simp add: doc_def lines_of_def table_ok_lines_def body_blank)
  moreover have "list_all2 alike ss (rr @ [(fst s, snd s @ [[]])])"
    by (simp add: snoc list_all2_append alike_def)
  ultimately show ?thesis by (auto simp: alike_docs_def)
qed

lemma doc_drop_blank:
  assumes "doc P ss (L @ [[]])"
  shows "\<exists>P' ss'. doc P' ss' L \<and> alike_docs P ss P' ss'"
proof (cases ss rule: rev_cases)
  case Nil
  with assms have "P = L @ [[]]" "body_ok 0 L" using body_blank [of 0 L] by (auto simp: doc_def)
  then have "doc L [] L \<and> alike_docs P ss L []" using Nil by (simp add: doc_def alike_docs_def)
  then show ?thesis by blast
next
  case (snoc rr s)
  with assms have s: "table_ok_lines s" "list_all table_ok_lines rr" "body_ok 0 P"
    "L @ [[]] = lines_of P rr @ fst s # snd s" by (simp_all add: doc_def lines_of_def)
  have "snd s \<noteq> []" using s(1,4) by (auto simp: table_ok_lines_def)
  then obtain b where b: "snd s = b @ [[]]" "L = lines_of P rr @ fst s # b"
    using s(4) by (metis append_butlast_last_id butlast_append butlast_snoc last_appendR last_snoc
      last_ConsR list.distinct(1) butlast.simps(2))
  then have "doc P (rr @ [(fst s, b)]) L" using s
    by (simp add: doc_def lines_of_def table_ok_lines_def body_blank)
  moreover have "list_all2 alike ss (rr @ [(fst s, b)])"
    by (simp add: snoc list_all2_append alike_def b)
  ultimately show ?thesis by (auto simp: alike_docs_def)
qed

subsection \<open>Assignments\<close>

abbreviation tdeco :: "string \<times> string list \<Rightarrow> (string \<times> int) list" where
  "tdeco s \<equiv> deco (head_depth (fst s)) (snd s)"

definition stale_path :: string where
  "stale_path = ''otel.exporter.otlp-http''"

abbreviation otel_table :: "(string \<times> string list) list \<Rightarrow> (string \<times> string list) option" where
  "otel_table ss \<equiv> find (tmatch ''otel'') ss"

text \<open>The first \<open>[otel]\<close> table assigns a key; its first assignment of a key is a given line.\<close>

definition has_key :: "string \<Rightarrow> (string \<times> string list) list \<Rightarrow> bool" where
  "has_key key ss \<longleftrightarrow> (\<exists>s. otel_table ss = Some s \<and> list_ex (assigns key) (tdeco s))"

definition set_to :: "string \<Rightarrow> string \<Rightarrow> (string \<times> string list) list \<Rightarrow> bool" where
  "set_to key wanted ss \<longleftrightarrow> (\<exists>s l. otel_table ss = Some s
     \<and> find (assigns key) (tdeco s) = Some (l, 0) \<and> trim_space l = wanted)"

lemma assigns_solid: "assigns key (l, e) \<Longrightarrow> \<not> blank l"
  by (auto simp: assigns_def blank_def has_prefix_def)

lemma find_filter: "(\<And>x. P x \<Longrightarrow> Q x) \<Longrightarrow> find P (filter Q xs) = find P xs"
  by (induction xs) auto

lemma list_ex_find: "list_ex P xs \<longleftrightarrow> find P xs \<noteq> None"
  by (induction xs) auto

lemma find_solid: "find (assigns key) (solid d B) = find (assigns key) (deco d B)"
  unfolding solid_def by (rule find_filter) (auto dest: assigns_solid)

lemma alike_find: "alike s s' \<Longrightarrow> find (assigns key) (tdeco s) = find (assigns key) (tdeco s')"
  unfolding alike_def by (metis find_solid)

lemma alike_tmatch: "alike s s' \<Longrightarrow> tmatch t s = tmatch t s'"
  by (simp add: alike_def tmatch_def)

lemma alike_list_find:
  "list_all2 alike ss ss' \<Longrightarrow> rel_option alike (find (tmatch t) ss) (find (tmatch t) ss')"
  by (induction rule: list_all2_induct) (auto simp: alike_tmatch)

lemma alike_keys:
  assumes "alike_docs P ss P' ss'"
  shows "has_key key ss \<longleftrightarrow> has_key key ss'" "set_to key w ss \<longleftrightarrow> set_to key w ss'"
proof -
  have r: "rel_option alike (otel_table ss) (otel_table ss')"
    using alike_list_find assms by (simp add: alike_docs_def)
  show "has_key key ss \<longleftrightarrow> has_key key ss'" "set_to key w ss \<longleftrightarrow> set_to key w ss'"
    using r alike_find [of _ _ key]
    by (cases "otel_table ss"; cases "otel_table ss'"; simp add: has_key_def set_to_def list_ex_find)+
qed

subsection \<open>What an edit keeps\<close>

definition other :: "string \<times> string list \<Rightarrow> bool" where
  "other s \<longleftrightarrow> \<not> tmatch ''otel'' s \<and> \<not> tmatch stale_path s"

definition tidy :: "string list \<Rightarrow> string list" where
  "tidy B = filter (\<lambda>l. \<not> blank l) B"

definition exporter_line :: "string \<Rightarrow> bool" where
  "exporter_line l \<longleftrightarrow> has_prefix (trim_space l) ''exporter =''"

definition keeps ::
    "string list \<Rightarrow> (string \<times> string list) list \<Rightarrow> string list \<Rightarrow> (string \<times> string list) list \<Rightarrow> bool" where
  "keeps P ss P' ss' \<longleftrightarrow> tidy P' = tidy P
     \<and> map (map_prod (\<lambda>h. h) tidy) (filter other ss') = map (map_prod (\<lambda>h. h) tidy) (filter other ss)
     \<and> (\<forall>h b. otel_table ss = Some (h, b) \<longrightarrow>
         (\<exists>b'. otel_table ss' = Some (h, b') \<and> subseq (filter (\<lambda>l. \<not> exporter_line l) (tidy b)) (tidy b')))"

lemma keeps_refl [simp]: "keeps P ss P ss"
  by (auto simp: keeps_def)

lemma keeps_trans:
  assumes "keeps P ss P' ss'" "keeps P' ss' P'' ss''"
  shows "keeps P ss P'' ss''"
proof -
  have "\<exists>b''. otel_table ss'' = Some (h, b'') \<and> subseq (filter (\<lambda>l. \<not> exporter_line l) (tidy b)) (tidy b'')"
    if "otel_table ss = Some (h, b)" for h b
  proof -
    from that assms(1) obtain b' where b': "otel_table ss' = Some (h, b')"
      "subseq (filter (\<lambda>l. \<not> exporter_line l) (tidy b)) (tidy b')" unfolding keeps_def by blast
    from b'(1) assms(2) obtain b'' where b'': "otel_table ss'' = Some (h, b'')"
      "subseq (filter (\<lambda>l. \<not> exporter_line l) (tidy b')) (tidy b'')" unfolding keeps_def by blast
    have "subseq (filter (\<lambda>l. \<not> exporter_line l) (tidy b)) (filter (\<lambda>l. \<not> exporter_line l) (tidy b'))"
      using subseq_filter [OF b'(2), of "\<lambda>l. \<not> exporter_line l"] by simp
    with b'' show ?thesis using subseq_order.trans by blast
  qed
  with assms show ?thesis by (simp add: keeps_def)
qed

lemma map_fst_solid: "map fst (solid d B) = tidy B"
  unfolding solid_def tidy_def
  by (induction d B rule: depths_from.induct) auto

lemma alike_tidy: "alike s s' \<Longrightarrow> fst s = fst s' \<and> tidy (snd s) = tidy (snd s')"
  unfolding alike_def by (metis map_fst_solid)

lemma alike_keeps:
  assumes "alike_docs P ss P' ss'"
  shows "keeps P ss P' ss'"
proof -
  have P: "tidy P' = tidy P" using assms by (metis alike_docs_def map_fst_solid)
  have l: "list_all2 alike ss ss'" using assms by (simp add: alike_docs_def)
  then have "map (map_prod (\<lambda>h. h) tidy) (filter other ss') = map (map_prod (\<lambda>h. h) tidy) (filter other ss)"
    by (induction rule: list_all2_induct) (auto simp: other_def alike_tmatch dest: alike_tidy)
  moreover have "\<exists>b'. otel_table ss' = Some (h, b') \<and> subseq (filter (\<lambda>l. \<not> exporter_line l) (tidy b)) (tidy b')"
    if "otel_table ss = Some (h, b)" for h b
    using alike_list_find [OF l, of "''otel''"] that alike_tidy by (fastforce simp: option_rel_Some1)
  ultimately show ?thesis using P by (auto simp: keeps_def)
qed

subsection \<open>Steps\<close>

definition good :: "string list \<Rightarrow> bool" where
  "good L \<longleftrightarrow> lines_ok L \<and> plain_headers L \<and> (\<forall>l \<in> set L. exporter_line l \<longrightarrow> lineDelta l = 0)"

text \<open>A line that the editor inserts.\<close>

definition good_line :: "string \<Rightarrow> string \<Rightarrow> bool" where
  "good_line key l \<longleftrightarrow> newline \<notin> set l \<and> lineDelta l = 0 \<and> \<not> tableHeader l \<and> \<not> tableHeader (trim_space l)
     \<and> has_prefix (trim_space l) (key @ '' ='')"

definition scalar_keys :: "string list" where
  "scalar_keys = map fst codexScalars"

definition stale_count :: "(string \<times> string list) list \<Rightarrow> nat" where
  "stale_count ss = length (filter (tmatch stale_path) ss)"

definition reaches ::
    "string list \<Rightarrow> (string \<times> string list) list \<Rightarrow> string list \<Rightarrow> (string \<times> string list) list \<Rightarrow> bool" where
  "reaches P ss P' ss' \<longleftrightarrow> doc P' ss' (lines_of P' ss') \<and> good (lines_of P' ss') \<and> keeps P ss P' ss'
     \<and> (\<forall>k \<in> set scalar_keys. has_key k ss \<longrightarrow> has_key k ss') \<and> stale_count ss' \<le> stale_count ss"

lemma good_simps [simp]:
  "good []" "good (A @ B) \<longleftrightarrow> good A \<and> good B"
  "good (l # A) \<longleftrightarrow> newline \<notin> set l \<and> (tableHeader (trim_space l) \<longrightarrow> tableHeader l)
     \<and> (exporter_line l \<longrightarrow> lineDelta l = 0) \<and> good A"
  by (auto simp: good_def lines_ok_def)

lemma good_Nil_line [simp]: "\<not> tableHeader (trim_space [])" "\<not> exporter_line []"
  using blank_Nil by (simp_all add: blank_def exporter_line_def has_prefix_def)

lemma good_line_good: "good_line key l \<Longrightarrow> good [l] \<and> body_ok 0 [l] \<and> assigns key (l, 0)"
  by (auto simp: good_line_def body_ok_def assigns_def)

lemma reaches_refl: "doc P ss (lines_of P ss) \<Longrightarrow> good (lines_of P ss) \<Longrightarrow> reaches P ss P ss"
  by (simp add: reaches_def)

lemma reaches_trans: "reaches P ss P' ss' \<Longrightarrow> reaches P' ss' P'' ss'' \<Longrightarrow> reaches P ss P'' ss''"
  unfolding reaches_def using keeps_trans by (meson order_trans)

lemma doc_lines: "doc P ss L \<Longrightarrow> L = lines_of P ss"
  by (simp add: doc_def)

lemma alike_stale:
  assumes "alike_docs P ss P' ss'"
  shows "stale_count ss = stale_count ss'"
proof -
  have "list_all2 alike ss ss'" using assms by (simp add: alike_docs_def)
  then show ?thesis by (induction rule: list_all2_induct) (auto simp: stale_count_def alike_tmatch)
qed

lemma alike_reaches:
  "alike_docs P ss P' ss' \<Longrightarrow> doc P' ss' L \<Longrightarrow> good L \<Longrightarrow> reaches P ss P' ss'"
  unfolding reaches_def using alike_keeps alike_keys(1) alike_stale doc_lines by (metis order_refl)

lemma otel_path: "splitDottedKey ''otel'' = [''otel'']"
  and stale_path_split: "splitDottedKey stale_path = [''otel'', ''exporter'', ''otlp-http'']"
  and stale_quoted: "splitDottedKey (''otel.exporter.'' @ [CHR 0x22] @ ''otlp-http'' @ [CHR 0x22])
    = [''otel'', ''exporter'', ''otlp-http'']"
  by (simp_all add: splitDottedKey_def unquoteSegment_def string_eval stale_path_def)

lemma otel_not_stale: "tmatch ''otel'' s \<Longrightarrow> \<not> tmatch stale_path s"
  by (simp add: tmatch_def headerMatches_def otel_path stale_path_split)

text \<open>Changing the body of the first \<open>[otel]\<close> table.\<close>

lemma otel_first:
  "list_all (\<lambda>s. \<not> tmatch ''otel'' s) A \<Longrightarrow> tmatch ''otel'' s \<Longrightarrow> otel_table (A @ s # B) = Some s"
  by (induction A) auto

lemma replace_reaches:
  assumes d: "doc P (A @ s # B) L" and g: "good L"
    and A: "list_all (\<lambda>s. \<not> tmatch ''otel'' s) A" and m: "tmatch ''otel'' s"
    and b: "body_ok (head_depth (fst s)) b" "good b"
    and keep: "subseq (filter (\<lambda>l. \<not> exporter_line l) (tidy (snd s))) (tidy b)"
    and keys: "\<And>k. k \<in> set scalar_keys \<Longrightarrow> list_ex (assigns k) (tdeco s)
      \<Longrightarrow> list_ex (assigns k) (deco (head_depth (fst s)) b)"
  shows "reaches P (A @ s # B) P (A @ (fst s, b) # B)"
proof -
  have m': "tmatch ''otel'' (fst s, b)" using m by (simp add: tmatch_def)
  note o = otel_first [OF A m] otel_first [OF A m']
  have "doc P (A @ (fst s, b) # B) (lines_of P (A @ (fst s, b) # B))"
    using d b(1) by (simp add: doc_def table_ok_lines_def)
  moreover have "good (lines_of P (A @ (fst s, b) # B))"
    using g b(2) doc_lines [OF d] by (simp add: lines_of_def)
  moreover have "keeps P (A @ s # B) P (A @ (fst s, b) # B)"
    unfolding keeps_def o using m m' keep by (auto simp: other_def)
  moreover have "stale_count (A @ (fst s, b) # B) = stale_count (A @ s # B)"
    using otel_not_stale m m' by (simp add: stale_count_def)
  ultimately show ?thesis
    using keys unfolding reaches_def has_key_def o by auto
qed

end
