(* ===== verification/Toml_Steps.thy ===== *)
theory Toml_Steps
  imports Toml_Edits
begin

text \<open>
  Each edit of \<open>codex.go\<close> takes a document to a document: what \<open>ensureTableKey\<close>,
  \<open>replaceOrInsertTableKey\<close> and \<open>removeTable\<close> return, and that they touch nothing but the first
  \<open>[otel]\<close> table and the stale exporter tables.
\<close>

subsection \<open>A new \<open>[otel]\<close> table\<close>

lemma otel_header: "headerMatches (''['' @ ''otel'' @ '']'') ''otel''" "tableHeader (''['' @ ''otel'' @ '']'')"
  "lineDelta (''['' @ ''otel'' @ '']'') = 0" "newline \<notin> set (''['' @ ''otel'' @ '']'')" "\<not> exporter_line (''['' @ ''otel'' @ '']'')"
  by (simp_all add: headerMatches_def otel_path headerKeyPath_def has_suffix_def tableHeader_def re_space_def lineDelta_def
      stripStringsAndComments_def bracket_def newline_def exporter_line_def splitDottedKey_def unquoteSegment_def string_eval)

lemma append_reaches:
  assumes d: "doc P ss L" and g: "good L" and none: "list_all (\<lambda>s. \<not> tmatch ''otel'' s) ss"
    and l: "good_line key line"
  shows "\<exists>P' ss'. appendTable L ''otel'' line = text_of (lines_of P' ss') \<and> reaches P ss P' ss'
    \<and> otel_table ss' = Some (''['' @ ''otel'' @ '']'', [line])"
proof -
  let ?h = "''['' @ ''otel'' @ '']''"
  let ?L = "if L \<noteq> [] \<and> trim_space (last L) \<noteq> [] then L @ [[]] else L"
  obtain P1 ss1 where 1: "doc P1 ss1 ?L" "alike_docs P ss P1 ss1"
  proof (cases "L \<noteq> [] \<and> trim_space (last L) \<noteq> []")
    case True
    with doc_add_blank [OF d] that show ?thesis by auto
  next
    case False
    with d that show ?thesis by (auto simp: alike_docs_def)
  qed
  have g1: "good ?L" using g by simp
  have r1: "reaches P ss P1 ss1" by (rule alike_reaches [OF 1(2,1) g1])
  have "otel_table ss = None" using none by (simp add: find_None_iff list_all_iff)
  then have n1: "otel_table ss1 = None"
    using alike_list_find [of ss ss1 "''otel''"] 1(2) by (simp add: alike_docs_def)
  have m: "tmatch ''otel'' (?h, [line])" using otel_header(1) by (simp add: tmatch_def)
  have n1': "otel_table (ss1 @ B) = otel_table B" for B using n1 by (induction ss1) (auto split: if_splits)
  have o: "otel_table (ss1 @ [(?h, [line])]) = Some (?h, [line])" using m by (simp add: n1')
  have "table_ok_lines (?h, [line])"
    using good_line_good [OF l] otel_header(2,3) by (simp add: table_ok_lines_def head_depth_def)
  then have d2: "doc P1 (ss1 @ [(?h, [line])]) (lines_of P1 (ss1 @ [(?h, [line])]))"
    using 1(1) by (simp add: doc_def)
  have "good (lines_of P1 (ss1 @ [(?h, [line])]))"
    using g1 doc_lines [OF 1(1)] good_line_good [OF l] otel_header by (auto simp: lines_of_tables_append)
  moreover have "keeps P1 ss1 P1 (ss1 @ [(?h, [line])])"
    using n1 m by (simp add: keeps_def other_def)
  moreover have "stale_count (ss1 @ [(?h, [line])]) = stale_count ss1"
    using otel_not_stale [OF m] by (simp add: stale_count_def)
  ultimately have r2: "reaches P1 ss1 P1 (ss1 @ [(?h, [line])])"
    using d2 n1 by (simp add: reaches_def has_key_def)
  have "appendTable L ''otel'' line = join_lines (?L @ [?h, line]) @ [newline]" by (simp add: appendTable_def)
  also have "\<dots> = text_of (lines_of P1 (ss1 @ [(?h, [line])]))"
    using join_lines_text [of "?L @ [?h, line]"] doc_lines [OF 1(1)] by (simp add: lines_of_tables_append)
  finally show ?thesis using reaches_trans [OF r1 r2] o by blast
qed

lemma not_found: "list_all (\<lambda>s. \<not> tmatch ''otel'' s) ss \<Longrightarrow> otel_table ss = None"
  by (simp add: find_None_iff list_all_iff)

lemma insert_line:
  assumes "doc P (A @ s # B) L"
  shows "insertAt L (length (lines_of P A) + 1 + length (snd s)) k = lines_of P (A @ (fst s, snd s @ [k]) # B)"
  using doc_lines [OF assms]
  by (simp add: insertAt_def lines_of_tables_append lines_of_append [of "snd s"] lines_of_append [of "snd s @ [k]"])

lemma insert_reaches:
  assumes d: "doc P (A @ s # B) L" and g: "good L"
    and A: "list_all (\<lambda>s. \<not> tmatch ''otel'' s) A" and m: "tmatch ''otel'' s"
    and l: "good_line key k"
  shows "reaches P (A @ s # B) P (A @ (fst s, snd s @ [k]) # B)"
proof (rule replace_reaches [OF d g A m])
  have "table_ok_lines s" using d by (simp add: doc_def)
  then show "body_ok (head_depth (fst s)) (snd s @ [k])"
    using good_line_good [OF l] body_ok_append by (auto simp: table_ok_lines_def)
  show "good (snd s @ [k])"
    using g doc_lines [OF d] good_line_good [OF l] by (auto simp: lines_of_tables_append lines_of_append [of "snd s"])
  show "subseq (filter (\<lambda>l. \<not> exporter_line l) (tidy (snd s))) (tidy (snd s @ [k]))"
    using subseq_filter_left [of "\<lambda>l. \<not> exporter_line l" "tidy (snd s)"] subseq_rev_drop_many
    by (auto simp: tidy_def)
  show "list_ex (assigns k') (tdeco s) \<Longrightarrow> list_ex (assigns k') (deco (head_depth (fst s)) (snd s @ [k]))" for k'
    by (simp add: deco_append)
qed

lemma ensure_spec:
  assumes d: "doc P ss L" and g: "good L" and L: "L = splitLines text"
    and l: "good_line key (key @ '' = '' @ val)"
  shows "\<exists>P' ss'. ensureTableKey text ''otel'' key val = (text_of (lines_of P' ss'), \<not> has_key key ss)
    \<and> reaches P ss P' ss' \<and> has_key key ss' \<and> (has_key key ss \<longrightarrow> P' = P \<and> ss' = ss)"
proof (cases "list_all (\<lambda>s. \<not> tmatch ''otel'' s) ss")
  case True
  have ph: "plain_headers L" using g by (simp add: good_def)
  obtain P' ss' where a: "appendTable L ''otel'' (key @ '' = '' @ val) = text_of (lines_of P' ss')" "reaches P ss P' ss'"
    "otel_table ss' = Some (''['' @ ''otel'' @ '']'', [key @ '' = '' @ val])"
    using append_reaches [OF d g True l] by blast
  moreover have "has_key key ss'" using a(3) good_line_good [OF l] otel_header(3)
    by (simp add: has_key_def head_depth_def)
  moreover have "\<not> has_key key ss" using not_found [OF True] by (simp add: has_key_def)
  ultimately show ?thesis using findTable_None [OF d ph True] L
    by (simp add: ensureTableKey_def Let_def) blast
next
  case False
  then obtain A s B where ss: "ss = A @ s # B" and A: "list_all (\<lambda>s. \<not> tmatch ''otel'' s) A" and m: "tmatch ''otel'' s"
    using first_match [of "tmatch ''otel''" ss] by auto
  have ph: "plain_headers L" using g by (simp add: good_def)
  note f = find_found [OF d [unfolded ss] ph A m]
  have k: "keyPresent L (lineDepths L) (length (lines_of P A) + 1) (length (lines_of P A) + 1 + length (snd s)) key
      = list_ex (assigns key) (tdeco s)"
    unfolding keyPresent_def f(3) by simp
  have h: "has_key key ss \<longleftrightarrow> list_ex (assigns key) (tdeco s)"
    using otel_first [OF A m] by (simp add: has_key_def ss)
  show ?thesis
  proof (cases "has_key key ss")
    case True
    then show ?thesis
      using f(1,2) k h L ensureTrailingNewline_text [of "text"] doc_lines [OF d] reaches_refl d g
      by (auto simp: ensureTableKey_def Let_def)
  next
    case n: False
    let ?ss = "A @ (fst s, snd s @ [key @ '' = '' @ val]) # B"
    have "ensureTableKey text ''otel'' key val = (text_of (lines_of P ?ss), True)"
      using f(1,2) k h n L insert_line [OF d [unfolded ss]] join_lines_text
      by (simp add: ensureTableKey_def Let_def lines_of_def)
    moreover have "has_key key ?ss"
      using otel_first [OF A, of "(fst s, snd s @ [key @ '' = '' @ val])" B] m d good_line_good [OF l]
      by (simp add: has_key_def tmatch_def deco_append ss doc_def table_ok_lines_def body_ok_def)
    ultimately show ?thesis
      using insert_reaches [OF d [unfolded ss] g A m l] n ss by (intro exI [of _ P] exI [of _ ?ss]) simp
  qed
qed

lemma scalar_not_exporter: "k \<in> set scalar_keys \<Longrightarrow> assigns k (l, e) \<Longrightarrow> \<not> exporter_line l"
  by (auto simp: scalar_keys_def codexScalars_def assigns_def exporter_line_def has_prefix_iff)

lemma find_deco:
  "find Q (deco d B) = Some y \<Longrightarrow> \<exists>X l Y. B = X @ l # Y \<and> y = (l, depth_after d X) \<and> Q y
     \<and> (\<forall>x \<in> set (deco d X). \<not> Q x) \<and> length X = length (takeWhile (\<lambda>x. \<not> Q x) (deco d B))"
proof (induction d B rule: depths_from.induct)
  case (2 d l ls)
  show ?case
  proof (cases "Q (l, d)")
    case True
    with "2.prems" show ?thesis by (intro exI [of _ "[]"] exI [of _ l] exI [of _ ls]) simp
  next
    case False
    with 2 obtain X k Y where "ls = X @ k # Y" "y = (k, depth_after (max 0 (d + lineDelta l)) X)" "Q y"
      "\<forall>x \<in> set (deco (max 0 (d + lineDelta l)) X). \<not> Q x"
      "length X = length (takeWhile (\<lambda>x. \<not> Q x) (deco (max 0 (d + lineDelta l)) ls))" by auto
    with False show ?thesis by (intro exI [of _ "l # X"]) auto
  qed
qed simp

text \<open>Replacing the first assignment of the exporter.\<close>

lemma exporter_split:
  assumes "find (assigns ''exporter'') (tdeco s) = Some y"
  obtains X l Y where "snd s = X @ l # Y" "exporter_line l" "y = (l, 0)" "depth_after (head_depth (fst s)) X = 0"
    "length (takeWhile (\<lambda>ld. \<not> assigns ''exporter'' ld) (tdeco s)) = length X"
    "\<forall>x \<in> set (deco (head_depth (fst s)) X). \<not> assigns ''exporter'' x"
proof -
  from find_deco [OF assms] obtain X l Y where
    "snd s = X @ l # Y" "y = (l, depth_after (head_depth (fst s)) X)" "assigns ''exporter'' y"
    "\<forall>x \<in> set (deco (head_depth (fst s)) X). \<not> assigns ''exporter'' x"
    "length X = length (takeWhile (\<lambda>ld. \<not> assigns ''exporter'' ld) (tdeco s))" by blast
  moreover from this(2,3) have "exporter_line l" "depth_after (head_depth (fst s)) X = 0"
    by (auto simp: assigns_def exporter_line_def)
  ultimately show ?thesis using that by simp
qed

lemma replace_line:
  assumes d: "doc P (A @ s # B) L" and s: "snd s = X @ l # Y"
  shows "L ! (length (lines_of P A) + 1 + length X) = l"
    and "L[length (lines_of P A) + 1 + length X := w] = lines_of P (A @ (fst s, X @ w # Y) # B)"
proof -
  have L: "L = (lines_of P A @ fst s # X) @ l # Y @ lines_of [] B"
    using doc_lines [OF d] s by (simp add: lines_of_tables_append lines_of_append [of "X @ l # Y"])
  have n: "length (lines_of P A) + 1 + length X = length (lines_of P A @ fst s # X)" by simp
  show "L ! (length (lines_of P A) + 1 + length X) = l" unfolding L n nth_append_length ..
  show "L[length (lines_of P A) + 1 + length X := w] = lines_of P (A @ (fst s, X @ w # Y) # B)"
    unfolding L n list_update_length by (simp add: lines_of_tables_append lines_of_append [of "X @ w # Y"])
qed

lemma find_skip: "\<forall>x \<in> set xs. \<not> Q x \<Longrightarrow> find Q (xs @ ys) = find Q ys"
  by (induction xs) auto

lemma swap_exporter:
  assumes d: "doc P (A @ s # B) L" and g: "good L"
    and A: "list_all (\<lambda>s. \<not> tmatch ''otel'' s) A" and m: "tmatch ''otel'' s"
    and s: "snd s = X @ k # Y" and k: "exporter_line k" and z: "depth_after (head_depth (fst s)) X = 0"
    and X: "\<forall>x \<in> set (deco (head_depth (fst s)) X). \<not> assigns ''exporter'' x"
    and l: "good_line ''exporter'' w" and w: "trim_space w = w"
  shows "reaches P (A @ s # B) P (A @ (fst s, X @ w # Y) # B) \<and> set_to ''exporter'' w (A @ (fst s, X @ w # Y) # B)"
proof -
  let ?d = "head_depth (fst s)"
  have "lineDelta k = 0" using g s k doc_lines [OF d] by (auto simp: good_def set_lines_of)
  then have D: "tdeco s = deco ?d X @ (k, 0) # deco 0 Y" "deco ?d (X @ w # Y) = deco ?d X @ (w, 0) # deco 0 Y"
    and e: "depth_after ?d (X @ w # Y) = depth_after ?d (snd s)"
    using s z l by (simp_all add: deco_append good_line_def)
  have tk: "table_ok_lines s" using d by (simp add: doc_def)
  have "reaches P (A @ s # B) P (A @ (fst s, X @ w # Y) # B)"
  proof (rule replace_reaches [OF d g A m])
    show "body_ok ?d (X @ w # Y)"
      using tk D e l by (auto simp: table_ok_lines_def body_ok_def good_line_def)
    show "good (X @ w # Y)"
      using g doc_lines [OF d] s good_line_good [OF l]
      by (auto simp: lines_of_tables_append lines_of_append [of "X @ k # Y"])
    have "filter (\<lambda>l. \<not> exporter_line l) (tidy (snd s)) = filter (\<lambda>l. \<not> exporter_line l) (tidy X @ tidy Y)"
      using s k by (simp add: tidy_def)
    moreover have "subseq (filter (\<lambda>l. \<not> exporter_line l) (tidy X @ tidy Y)) (tidy X @ tidy Y)"
      by (rule subseq_filter_left)
    moreover have "subseq (tidy X @ tidy Y) (tidy (X @ w # Y))"
      using list_emb_append_mono [of "(=)" "tidy X" "tidy X" "tidy Y" "w # tidy Y"] by (auto simp: tidy_def)
    ultimately show "subseq (filter (\<lambda>l. \<not> exporter_line l) (tidy (snd s))) (tidy (X @ w # Y))"
      using subseq_order.trans by metis
    show "list_ex (assigns k') (deco ?d (X @ w # Y))"
      if "k' \<in> set scalar_keys" "list_ex (assigns k') (tdeco s)" for k'
      using that(2) scalar_not_exporter [OF that(1), of k 0] k unfolding D by auto
  qed
  moreover have "find (assigns ''exporter'') (deco ?d (X @ w # Y)) = Some (w, 0)"
    using find_skip [OF X] good_line_good [OF l] D(2) by simp
  ultimately show ?thesis
    using otel_first [OF A, of "(fst s, X @ w # Y)" B] m w by (simp add: set_to_def tmatch_def)
qed

lemma replace_spec:
  assumes d: "doc P ss L" and g: "good L" and L: "L = splitLines text"
    and l: "good_line ''exporter'' w" and w: "w = ''exporter'' @ '' = '' @ val" "trim_space w = w"
  shows "\<exists>P' ss'. replaceOrInsertTableKey text ''otel'' ''exporter'' val = (text_of (lines_of P' ss'), \<not> set_to ''exporter'' w ss)
    \<and> reaches P ss P' ss' \<and> set_to ''exporter'' w ss' \<and> (set_to ''exporter'' w ss \<longrightarrow> P' = P \<and> ss' = ss)"
proof (cases "list_all (\<lambda>s. \<not> tmatch ''otel'' s) ss")
  case True
  have ph: "plain_headers L" using g by (simp add: good_def)
  obtain P' ss' where a: "appendTable L ''otel'' w = text_of (lines_of P' ss')" "reaches P ss P' ss'"
    "otel_table ss' = Some (''['' @ ''otel'' @ '']'', [w])"
    using append_reaches [OF d g True l] by blast
  moreover have "set_to ''exporter'' w ss'" using a(3) good_line_good [OF l] otel_header(3) w(2)
    by (simp add: set_to_def head_depth_def)
  moreover have "\<not> set_to ''exporter'' w ss" using not_found [OF True] by (simp add: set_to_def)
  ultimately show ?thesis using findTable_None [OF d ph True] L w(1)
    by (intro exI [of _ P'] exI [of _ ss']) (simp add: replaceOrInsertTableKey_def Let_def)
next
  case False
  then obtain A s B where ss: "ss = A @ s # B" and A: "list_all (\<lambda>s. \<not> tmatch ''otel'' s) A" and m: "tmatch ''otel'' s"
    using first_match [of "tmatch ''otel''" ss] by auto
  have ph: "plain_headers L" using g by (simp add: good_def)
  note d' = d [unfolded ss]
  note f = find_found [OF d' ph A m]
  let ?i = "length (takeWhile (\<lambda>ld. \<not> assigns ''exporter'' ld) (tdeco s))"
  have body: "take (length (lines_of P A) + 1 + length (snd s) - (length (lines_of P A) + 1))
      (drop (length (lines_of P A) + 1) (zip L (lineDepths L))) = tdeco s"
    unfolding f(3) by simp
  have st: "set_to ''exporter'' w ss \<longleftrightarrow> (\<exists>l. find (assigns ''exporter'') (tdeco s) = Some (l, 0) \<and> trim_space l = w)"
    using otel_first [OF A m] by (simp add: set_to_def ss)
  have tk: "table_ok_lines s" using d' by (simp add: doc_def)
  have R: "replaceOrInsertTableKey text ''otel'' ''exporter'' val =
      (let idx = length (lines_of P A) + 1 + ?i in
       if ?i < length (snd s)
       then (if trim_space (L ! idx) = w then (text_of L, False) else (text_of (L[idx := w]), True))
       else (text_of (insertAt L (length (lines_of P A) + 1 + length (snd s)) w), True))"
  proof -
    have ne: "L \<noteq> []" "L[i := w] \<noteq> []" "insertAt L i w \<noteq> []" for i
      using doc_lines [OF d'] by (simp_all add: lines_of_def insertAt_def)
    show ?thesis
      unfolding replaceOrInsertTableKey_def Let_def L [symmetric] f(1) option.case f(2) body w(1) [symmetric]
      using ne join_lines_text by simp
  qed
  show ?thesis
  proof (cases "find (assigns ''exporter'') (tdeco s)")
    case None
    then have e: "takeWhile (\<lambda>ld. \<not> assigns ''exporter'' ld) (tdeco s) = tdeco s"
      by (auto simp: takeWhile_eq_all_conv find_None_iff)
    have i: "?i = length (snd s)" unfolding e by simp
    let ?s = "(fst s, snd s @ [w])"
    have "replaceOrInsertTableKey text ''otel'' ''exporter'' val = (text_of (lines_of P (A @ ?s # B)), True)"
      using R i insert_line [OF d'] by (simp add: Let_def)
    moreover have "find (assigns ''exporter'') (tdeco ?s) = Some (w, 0)"
    proof -
      have "depth_after (head_depth (fst s)) (snd s) = 0" using tk by (simp add: table_ok_lines_def body_ok_def)
      moreover have "find (assigns ''exporter'') (tdeco s @ ys) = find (assigns ''exporter'') ys" for ys
        using None by (intro find_skip) (auto simp: find_None_iff)
      ultimately show ?thesis using good_line_good [OF l] by (simp add: deco_append)
    qed
    then have "set_to ''exporter'' w (A @ ?s # B)"
      using otel_first [OF A, of ?s B] m w(2) by (simp add: set_to_def tmatch_def)
    moreover have "\<not> set_to ''exporter'' w ss" using st None by simp
    ultimately show ?thesis
      using insert_reaches [OF d' g A m l] ss by (intro exI [of _ P] exI [of _ "A @ ?s # B"]) simp
  next
    case (Some y)
    then obtain X k Y where x: "snd s = X @ k # Y" "exporter_line k" "y = (k, 0)" "depth_after (head_depth (fst s)) X = 0"
      "?i = length X" "\<forall>x \<in> set (deco (head_depth (fst s)) X). \<not> assigns ''exporter'' x"
      using exporter_split by metis
    note rl = replace_line [OF d' x(1)]
    show ?thesis
    proof (cases "trim_space k = w")
      case True
      then have "set_to ''exporter'' w ss" using st Some x(3) by simp
      moreover have "replaceOrInsertTableKey text ''otel'' ''exporter'' val = (text_of (lines_of P ss), False)"
        using R x(1,5) rl(1) True doc_lines [OF d] by (simp add: Let_def)
      ultimately show ?thesis using reaches_refl d g doc_lines [OF d]
        by (intro exI [of _ P] exI [of _ ss]) simp
    next
      case n: False
      let ?s = "(fst s, X @ w # Y)"
      have "\<not> set_to ''exporter'' w ss" using st Some x(3) n by simp
      moreover have "replaceOrInsertTableKey text ''otel'' ''exporter'' val = (text_of (lines_of P (A @ ?s # B)), True)"
        using R x(1,5) rl n by (simp add: Let_def)
      moreover note swap_exporter [OF d' g A m x(1,2,4,6) l w(2)]
      ultimately show ?thesis using ss by (intro exI [of _ P] exI [of _ "A @ ?s # B"]) simp
    qed
  qed
qed

subsection \<open>Trimming\<close>

lemma rune_chunks_ascii_append:
  "list_all (\<lambda>c. byte c < 128) p \<Longrightarrow> rune_chunks (p @ s) = map (\<lambda>c. (byte c, [c])) p @ rune_chunks s"
  by (induction p) (simp_all add: rune_chunks_ascii)

lemma dropWhile_first: "list_all P xs \<Longrightarrow> \<not> P y \<Longrightarrow> dropWhile P (xs @ y # ys) = y # ys"
  by (induction xs) auto

lemma dropWhile_last_in: "\<not> P y \<Longrightarrow> y \<in> set xs \<Longrightarrow> y \<in> set (dropWhile P xs)"
  by (induction xs) auto

lemma header_not_blank: "tableHeader l \<Longrightarrow> \<not> blank l"
proof -
  assume h: "tableHeader l"
  define w where "w = takeWhile re_space l"
  obtain r where "dropWhile re_space l = CHR ''['' # r"
    using h by (auto simp: tableHeader_def split: list.splits)
  then have l: "l = w @ CHR ''['' # r" unfolding w_def by (metis takeWhile_dropWhile_id)
  have w: "list_all re_space w" unfolding w_def list_all_iff by (auto dest: set_takeWhileD)
  then have a: "list_all (\<lambda>c. byte c < 128) w" by (auto simp: list_all_iff re_space_def)
  have c: "rune_chunks l = map (\<lambda>c. (byte c, [c])) w @ (91, ''['') # rune_chunks r"
    unfolding l rune_chunks_ascii_append [OF a] by (simp add: rune_chunks_ascii byte_def)
  have sp: "\<not> space_chunk (91, ''['')" by (simp add: is_space_def)
  have "list_all space_chunk (map (\<lambda>c. (byte c, [c])) w)"
    using w by (auto simp: list_all_iff re_space_def is_space_def)
  then have "dropWhile space_chunk (rune_chunks l) = (91, ''['') # rune_chunks r"
    unfolding c using sp by (rule dropWhile_first)
  then have "(91, ''['') \<in> set (dropWhile space_chunk (rev (dropWhile space_chunk (rune_chunks l))))"
    using dropWhile_last_in [of space_chunk, OF sp] by simp
  then show ?thesis by (force simp: blank_def trim_space_def chunk_bytes_def)
qed

lemma ascii_trim:
  assumes "list_all (\<lambda>c. byte c < 128) w" "w \<noteq> []" "\<not> is_space (byte (hd w))" "\<not> is_space (byte (last w))"
  shows "trim_space w = w"
proof -
  have c: "rune_chunks w = map (\<lambda>c. (byte c, [c])) w" using rune_chunks_ascii_append [OF assms(1), of "[]"] by simp
  have d: "dropWhile space_chunk (map (\<lambda>c. (byte c, [c])) v) = map (\<lambda>c. (byte c, [c])) v"
    if "v \<noteq> []" "\<not> is_space (byte (hd v))" for v using that by (cases v) auto
  have "dropWhile space_chunk (rev (map (\<lambda>c. (byte c, [c])) w)) = rev (map (\<lambda>c. (byte c, [c])) w)"
    using d [of "rev w"] assms(2,4) by (simp add: rev_map hd_rev)
  then show ?thesis unfolding trim_space_def c using d assms(2,3) by (simp add: chunk_bytes_def comp_def)
qed

subsection \<open>Removing a table\<close>

lemma collapse_stop: "start < length L \<longrightarrow> tableHeader (L ! start) \<Longrightarrow> collapse_blank start L = L"
  using header_not_blank by (subst collapse_blank.simps) (auto simp: blank_def)

lemma text_join:
  assumes "lines_ok L"
  shows "ensureTrailingNewline (join_lines L)
    = text_of (if L \<noteq> [] \<and> last L = [] then butlast L else L)"
proof (cases L rule: rev_cases)
  case (snoc Q l)
  show ?thesis
  proof (cases "l = []")
    case True
    show ?thesis
    proof (cases "Q = []")
      case q: False
      have "join_lines (Q @ [[]]) = join_lines Q @ [newline]"
        unfolding join_lines_def using q by (induction "[newline]" Q rule: join.induct) auto
      with join_lines_text [OF q] True snoc show ?thesis by simp
    qed (simp add: snoc True join_lines_def ensureTrailingNewline_def)
  next
    case False
    have "join_lines (Q @ [l]) \<noteq> [] \<and> last (join_lines (Q @ [l])) = last l"
      unfolding join_lines_def using False by (induction "[newline]" Q rule: join.induct) auto
    moreover have "last l \<noteq> newline" using last_in_set [OF False] assms snoc by (metis in_set_conv_decomp lines_ok_def)
    ultimately show ?thesis
      using join_lines_text [of "Q @ [l]"] snoc False by (simp add: ensureTrailingNewline_def suffix_newline)
  qed
qed (simp add: join_lines_def ensureTrailingNewline_def)

lemma removed_reaches:
  assumes d: "doc P (A @ s # B) L" and g: "good L" and m: "tmatch stale_path s"
  shows "reaches P (A @ s # B) P (A @ B)" "otel_table (A @ B) = otel_table (A @ s # B)"
    "stale_count (A @ B) = stale_count (A @ s # B) - 1"
proof -
  have o: "\<not> tmatch ''otel'' s" using m otel_not_stale by blast
  show t: "otel_table (A @ B) = otel_table (A @ s # B)" using o by (induction A) auto
  show "stale_count (A @ B) = stale_count (A @ s # B) - 1" using m by (simp add: stale_count_def)
  have "doc P (A @ B) (lines_of P (A @ B))" using d by (simp add: doc_def)
  moreover have "good (lines_of P (A @ B))"
    using g doc_lines [OF d] by (auto simp: lines_of_tables_append lines_of_append [of "snd s"])
  moreover have "keeps P (A @ s # B) P (A @ B)" unfolding keeps_def t using m by (auto simp: other_def)
  ultimately show "reaches P (A @ s # B) P (A @ B)"
    unfolding reaches_def has_key_def t by (simp add: stale_count_def)
qed

lemma remove_spec:
  assumes d: "doc P ss L" and g: "good L" and L: "L = splitLines text" and t: "splitDottedKey t = splitDottedKey stale_path"
  shows "\<exists>P' ss'. removeTable text t = (text_of (lines_of P' ss'), 0 < stale_count ss)
    \<and> reaches P ss P' ss' \<and> (set_to key w ss \<longrightarrow> set_to key w ss') \<and> stale_count ss' = stale_count ss - 1
    \<and> (stale_count ss = 0 \<longrightarrow> P' = P \<and> ss' = ss)"
proof (cases "list_all (\<lambda>s. \<not> tmatch stale_path s) ss")
  case True
  then have "stale_count ss = 0" by (simp add: stale_count_def list_all_iff filter_empty_conv)
  moreover have "list_all (\<lambda>s. \<not> tmatch t s) ss" using True t by (simp add: tmatch_def headerMatches_def)
  then have "findTable L (lineDepths L) t = None" using findTable_None [OF d] g by (simp add: good_def)
  ultimately show ?thesis
    using L ensureTrailingNewline_text [of "text"] doc_lines [OF d] reaches_refl d g
    by (intro exI [of _ P] exI [of _ ss]) (simp add: removeTable_def Let_def)
next
  case False
  then obtain A s B where ss: "ss = A @ s # B" and A: "list_all (\<lambda>s. \<not> tmatch stale_path s) A" and m: "tmatch stale_path s"
    using first_match [of "tmatch stale_path" ss] by auto
  note d' = d [unfolded ss]
  have "list_all (\<lambda>s. \<not> tmatch t s) A" "tmatch t s" using A m t by (simp_all add: tmatch_def headerMatches_def)
  note f = find_found [OF d' _ this]
  note r = removed_reaches [OF d' g m]
  have ph: "plain_headers L" using g by (simp add: good_def)
  let ?M = "lines_of P (A @ B)"
  have cut: "take (length (lines_of P A)) L @ drop (length (lines_of P A) + 1 + length (snd s)) L = ?M"
    using doc_lines [OF d'] by (simp add: lines_of_tables_append lines_of_append [of "snd s"])
  have "collapse_blank (length (lines_of P A)) ?M = ?M"
  proof (rule collapse_stop)
    show "length (lines_of P A) < length ?M \<longrightarrow> tableHeader (?M ! length (lines_of P A))"
      using d' by (cases B) (auto simp: lines_of_tables_append doc_def table_ok_lines_def nth_append)
  qed
  then have R: "removeTable text t = (ensureTrailingNewline (join_lines ?M), True)"
    using f(1,2) [OF ph] L cut by (simp add: removeTable_def Let_def)
  have gM: "good ?M" and dM: "doc P (A @ B) ?M" using r(1) by (simp_all add: reaches_def)
  obtain P' ss' where p: "ensureTrailingNewline (join_lines ?M) = text_of (lines_of P' ss')"
    "reaches P (A @ B) P' ss'" "set_to key w (A @ B) = set_to key w ss'" "stale_count (A @ B) = stale_count ss'"
  proof (cases "?M \<noteq> [] \<and> last ?M = []")
    case True
    then obtain Q where Q: "?M = Q @ [[]]" by (metis append_butlast_last_id)
    with doc_drop_blank [of P "A @ B" Q] dM obtain P' ss' where a: "doc P' ss' Q" "alike_docs P (A @ B) P' ss'" by auto
    have "reaches P (A @ B) P' ss'" using alike_reaches [OF a(2,1)] gM Q by simp
    moreover have "ensureTrailingNewline (join_lines ?M) = text_of Q"
      using text_join [of ?M] gM Q by (simp add: good_def)
    ultimately show ?thesis using that [of P' ss'] a doc_lines [OF a(1)] alike_keys(2) [OF a(2)] alike_stale [OF a(2)] by simp
  next
    case False
    have "ensureTrailingNewline (join_lines ?M) = text_of ?M"
      unfolding text_join [of ?M, OF gM [unfolded good_def, THEN conjunct1]] using False by (simp only: if_False)
    then show ?thesis using that [of P "A @ B"] reaches_refl [OF dM gM] by simp
  qed
  have c: "0 < stale_count ss" using m by (simp add: ss stale_count_def)
  have "set_to key w ss \<longrightarrow> set_to key w ss'" using p(3) r(2) unfolding ss set_to_def by simp
  then show ?thesis
    using R p(1,2,4) r(1,3) c reaches_trans unfolding ss
    by (intro exI [of _ P'] exI [of _ ss']) simp
qed
end
