(* ===== verification/Setup_Safety.thy ===== *)
theory Setup_Safety
  imports Toml_Steps
begin

text \<open>
  What \<open>internal/setup\<close> promises: the edit of \<open>config.toml\<close> keeps every table but \<open>[otel]\<close> and the
  stale exporter tables, sets what it says, and changes nothing the second time; the merge of
  \<open>settings.json\<close> keeps every existing key; and no failure loses the settings of an agent.
\<close>

subsection \<open>The lines that are inserted\<close>

definition plain_token :: "string \<Rightarrow> bool" where
  "plain_token t \<longleftrightarrow> list_all (\<lambda>c. 32 < byte c \<and> byte c < 127 \<and> c \<noteq> CHR 0x22) t"

definition exporter_wanted :: "int \<Rightarrow> string \<Rightarrow> string" where
  "exporter_wanted port token = ''exporter'' @ '' = '' @ codexExporterTable (codexEndpoint port) token"

lemma scalar_lines: "list_all (\<lambda>(k, v, w). good_line k (k @ '' = '' @ v)) codexScalars"
  by (simp add: codexScalars_def quoted_text_def good_line_def newline_def lineDelta_def stripStringsAndComments_def
      bracket_def tableHeader_def re_space_def string_eval)

lemma strip_plain:
  "list_all (\<lambda>c. c \<noteq> CHR ''#'' \<and> c \<noteq> CHR 0x22 \<and> c \<noteq> CHR 0x27) a \<Longrightarrow> strip_from None (a @ s) = a @ strip_from None s"
  by (induction a) auto

lemma strip_in_quote: "q \<notin> set a \<Longrightarrow> strip_from (Some q) (a @ q # s) = strip_from None s"
  by (induction a) auto

lemma strip_quoted: "CHR 0x22 \<notin> set a \<Longrightarrow> strip_from None (quoted_text a @ s) = strip_from None s"
  by (simp add: quoted_text_def strip_in_quote)

lemma dec_nat_digits: "c \<in> set (dec_nat n) \<Longrightarrow> 48 \<le> byte c \<and> byte c \<le> 57"
proof (induction n rule: dec_nat.induct)
  case (1 n)
  show ?case
  proof (cases "n < 10")
    case True
    with 1(2) show ?thesis by (subst (asm) dec_nat.simps) (simp add: byte_def)
  next
    case False
    with 1 show ?thesis by (subst (asm) (2) dec_nat.simps) (auto simp: byte_def)
  qed
qed

lemma itoa_chars: "c \<in> set (itoa i) \<Longrightarrow> 45 \<le> byte c \<and> byte c \<le> 57"
  by (auto simp: itoa_def byte_def dest: dec_nat_digits [unfolded byte_def] split: if_splits)

lemma endpoint_chars: "c \<in> set (codexEndpoint port) \<Longrightarrow> 45 \<le> byte c \<and> byte c < 127"
  by (auto simp: codexEndpoint_def byte_def dest: itoa_chars [unfolded byte_def])

definition printable :: "char \<Rightarrow> bool" where
  "printable c \<longleftrightarrow> 32 \<le> byte c \<and> byte c < 127"

lemma exporter_literals:
  "list_all printable (''exporter'' @ '' = '' @ ''{ otlp-http = { endpoint = '')"
  "list_all printable [CHR 0x22]" "list_all printable '', protocol = ''" "list_all printable ''json''"
  "list_all printable '', headers = { ''" "list_all printable TokenHeader" "list_all printable '' = ''"
  "list_all printable '' } } }''"
  by code_simp+

lemma exporter_chars:
  assumes "plain_token token"
  shows "list_all printable (exporter_wanted port token)"
proof -
  have "list_all printable (codexEndpoint port)"
    unfolding list_all_iff printable_def
  proof
    fix c assume "c \<in> set (codexEndpoint port)"
    from endpoint_chars [OF this] show "32 \<le> byte c \<and> byte c < 127" by simp
  qed
  moreover have "list_all printable token"
    using assms unfolding plain_token_def printable_def by (rule list.pred_mono_strong) simp
  moreover have "exporter_wanted port token =
      (''exporter'' @ '' = '' @ ''{ otlp-http = { endpoint = '') @ [CHR 0x22] @ codexEndpoint port @ [CHR 0x22]
      @ '', protocol = '' @ [CHR 0x22] @ ''json'' @ [CHR 0x22] @ '', headers = { '' @ [CHR 0x22] @ TokenHeader
      @ [CHR 0x22] @ '' = '' @ [CHR 0x22] @ token @ [CHR 0x22] @ '' } } }''"
    unfolding exporter_wanted_def codexExporterTable_def quoted_text_def append_assoc ..
  ultimately show ?thesis
    using exporter_literals by (simp only: list_all_append simp_thms)
qed

lemma exporter_good:
  assumes t: "plain_token token"
  shows "good_line ''exporter'' (exporter_wanted port token)" "trim_space (exporter_wanted port token) = exporter_wanted port token"
proof -
  let ?w = "exporter_wanted port token"
  have hd: "?w = ''exporter = '' @ codexExporterTable (codexEndpoint port) token" by (simp add: exporter_wanted_def)
  have "list_all (\<lambda>c. byte c < 128) ?w" using exporter_chars [OF t, of port] by (auto simp: list_all_iff printable_def)
  then show trim: "trim_space ?w = ?w"
    by (rule ascii_trim) (simp_all add: exporter_wanted_def codexExporterTable_def byte_def is_space_def)
  have q: "CHR 0x22 \<notin> set (codexEndpoint port)" "CHR 0x22 \<notin> set token"
    using endpoint_chars [of "CHR 0x22" port] t by (auto simp: byte_def plain_token_def list_all_iff)
  have n: "newline \<notin> set ?w" using exporter_chars [OF t, of port] by (auto simp: list_all_iff printable_def byte_def newline_def)
  have "strip_from None ?w
      = ''exporter = { otlp-http = { endpoint = '' @ '', protocol = '' @ '', headers = { '' @ '' = '' @ '' } } }''"
    unfolding hd codexExporterTable_def
    using strip_plain [of "''exporter = { otlp-http = { endpoint = ''"] strip_plain [of "'', protocol = ''"]
      strip_plain [of "'', headers = { ''"] strip_plain [of "'' = ''"] strip_plain [of "'' } } }''" "[]"]
      strip_quoted [OF q(1)] strip_quoted [OF q(2)] strip_quoted [of "''json''"] strip_quoted [of TokenHeader]
    by (simp add: TokenHeader_def)
  then have "lineDelta ?w = 0" by (simp add: lineDelta_def stripStringsAndComments_def bracket_def)
  moreover have "\<not> tableHeader ?w" by (simp add: hd tableHeader_def re_space_def byte_def)
  ultimately show "good_line ''exporter'' ?w" using n trim by (simp add: good_line_def hd has_prefix_def)
qed

subsection \<open>The edit of \<open>config.toml\<close>\<close>

text \<open>A text the line editor reads right: its brackets close, the table headers have no space but
  blanks and tabs around them, and an exporter set by hand stands on one line, as an inline table
  of TOML does.\<close>

definition editable :: "string \<Rightarrow> bool" where
  "editable text \<longleftrightarrow> (let L = splitLines text in
     depth_after 0 L = 0 \<and> plain_headers L \<and> (\<forall>l \<in> set L. exporter_line l \<longrightarrow> lineDelta l = 0))"

lemma editable_doc:
  "editable text \<Longrightarrow> toml_tables (splitLines text) = (P, ss) \<Longrightarrow> doc P ss (splitLines text) \<and> good (splitLines text)"
  using doc_exists [of "splitLines text"] lines_ok_split by (simp add: editable_def good_def Let_def)

lemma good_text: "good L \<Longrightarrow> splitLines (text_of L) = L"
  by (simp add: good_def)

lemma reachesD: "reaches P ss P' ss' \<Longrightarrow> doc P' ss' (lines_of P' ss') \<and> good (lines_of P' ss')"
  by (simp add: reaches_def)

lemma scalars_spec:
  assumes "list_all (\<lambda>(k, v, w). good_line k (k @ '' = '' @ v)) scs" "fst ` set scs \<subseteq> set scalar_keys"
    "doc P ss (splitLines text)" "good (splitLines text)"
  shows "\<exists>P' ss' text' changes added. ensure_scalars scs text = (text', changes, added)
    \<and> splitLines text' = lines_of P' ss' \<and> reaches P ss P' ss' \<and> (\<forall>k \<in> fst ` set scs. has_key k ss')
    \<and> ((\<forall>k \<in> fst ` set scs. has_key k ss) \<longrightarrow> P' = P \<and> ss' = ss \<and> changes = [] \<and> added = [])"
  using assms
proof (induction scs arbitrary: P ss "text")
  case Nil
  then show ?case using reaches_refl doc_lines by (metis ensure_scalars.simps(1) image_empty empty_iff list.set(1))
next
  case (Cons sc scs)
  obtain k v w where sc: "sc = (k, v, w)" by (cases sc)
  with Cons.prems obtain P1 ss1 where 1: "ensureTableKey text ''otel'' k v = (text_of (lines_of P1 ss1), \<not> has_key k ss)"
    "reaches P ss P1 ss1" "has_key k ss1" "has_key k ss \<longrightarrow> P1 = P \<and> ss1 = ss"
    using ensure_spec [of P ss "splitLines text" "text" k v] by auto
  have g1: "splitLines (text_of (lines_of P1 ss1)) = lines_of P1 ss1" using reachesD [OF 1(2)] good_text by blast
  have "\<exists>P' ss' text' changes added. ensure_scalars scs (text_of (lines_of P1 ss1)) = (text', changes, added)
    \<and> splitLines text' = lines_of P' ss' \<and> reaches P1 ss1 P' ss' \<and> (\<forall>k \<in> fst ` set scs. has_key k ss')
    \<and> ((\<forall>k \<in> fst ` set scs. has_key k ss1) \<longrightarrow> P' = P1 \<and> ss' = ss1 \<and> changes = [] \<and> added = [])"
    by (rule Cons.IH) (use Cons.prems reachesD [OF 1(2)] g1 in auto)
  then obtain P' ss' text' changes added where 2: "ensure_scalars scs (text_of (lines_of P1 ss1)) = (text', changes, added)"
    "splitLines text' = lines_of P' ss'" "reaches P1 ss1 P' ss'" "\<forall>k \<in> fst ` set scs. has_key k ss'"
    "(\<forall>k \<in> fst ` set scs. has_key k ss1) \<longrightarrow> P' = P1 \<and> ss' = ss1 \<and> changes = [] \<and> added = []" by blast
  have "k \<in> set scalar_keys" using Cons.prems(2) sc by simp
  then have "has_key k ss'" using 1(3) 2(3) by (simp add: reaches_def)
  with 1 2 show ?case
    using reaches_trans [OF 1(2) 2(3)] sc
    by (intro exI [of _ P'] exI [of _ ss'] exI [of _ text']
        exI [of _ "if has_key k ss then changes else (''otel.'' @ k @ '' = '' @ v) # changes"]
        exI [of _ "if has_key k ss then added else (k, w) # added"]) auto
qed

lemma exporter_spec:
  assumes "doc P ss (splitLines text)" "good (splitLines text)" "plain_token token"
  shows "\<exists>P' ss' changed. ensureCodexExporter text (codexExporterTable (codexEndpoint port) token)
      = (text_of (lines_of P' ss'), changed)
    \<and> reaches P ss P' ss' \<and> set_to ''exporter'' (exporter_wanted port token) ss' \<and> stale_count ss' \<le> stale_count ss - 2
    \<and> (set_to ''exporter'' (exporter_wanted port token) ss \<and> stale_count ss = 0 \<longrightarrow> P' = P \<and> ss' = ss \<and> \<not> changed)"
proof -
  let ?w = "exporter_wanted port token"
  note w = exporter_good [OF assms(3)]
  obtain P1 ss1 where 1: "replaceOrInsertTableKey text ''otel'' ''exporter'' (codexExporterTable (codexEndpoint port) token)
      = (text_of (lines_of P1 ss1), \<not> set_to ''exporter'' ?w ss)"
    "reaches P ss P1 ss1" "set_to ''exporter'' ?w ss1" "set_to ''exporter'' ?w ss \<longrightarrow> P1 = P \<and> ss1 = ss"
    using replace_spec [OF assms(1,2) refl w(1) exporter_wanted_def w(2)] by blast
  have sp: "splitDottedKey (''otel.exporter.'' @ [CHR 0x22] @ ''otlp-http'' @ [CHR 0x22]) = splitDottedKey stale_path"
    unfolding stale_quoted stale_path_split ..
  note r1 = reachesD [OF 1(2)]
  obtain P2 ss2 where 2: "removeTable (text_of (lines_of P1 ss1)) (''otel.exporter.'' @ [CHR 0x22] @ ''otlp-http'' @ [CHR 0x22])
      = (text_of (lines_of P2 ss2), 0 < stale_count ss1)"
    "reaches P1 ss1 P2 ss2" "set_to ''exporter'' ?w ss2" "stale_count ss2 = stale_count ss1 - 1"
    "stale_count ss1 = 0 \<longrightarrow> P2 = P1 \<and> ss2 = ss1"
    using remove_spec [of P1 ss1 "lines_of P1 ss1", OF _ _ _ sp, of "text_of (lines_of P1 ss1)" "''exporter''" ?w]
      r1 good_text 1(3) by metis
  note r2 = reachesD [OF 2(2)]
  obtain P3 ss3 where 3: "removeTable (text_of (lines_of P2 ss2)) ''otel.exporter.otlp-http''
      = (text_of (lines_of P3 ss3), 0 < stale_count ss2)"
    "reaches P2 ss2 P3 ss3" "set_to ''exporter'' ?w ss3" "stale_count ss3 = stale_count ss2 - 1"
    "stale_count ss2 = 0 \<longrightarrow> P3 = P2 \<and> ss3 = ss2"
    using remove_spec [of P2 ss2 "lines_of P2 ss2" "text_of (lines_of P2 ss2)" stale_path "''exporter''" ?w]
      r2 good_text 2(3) unfolding stale_path_def by metis
  have c: "stale_count ss1 \<le> stale_count ss" using 1(2) by (simp add: reaches_def)
  have e: "ensureCodexExporter text (codexExporterTable (codexEndpoint port) token) = (text_of (lines_of P3 ss3),
      \<not> set_to ''exporter'' ?w ss \<or> 0 < stale_count ss1 \<or> 0 < stale_count ss2)"
    unfolding ensureCodexExporter_def 1(1) prod.case 2(1) 3(1) by simp
  have "reaches P ss P3 ss3" using reaches_trans 1(2) 2(2) 3(2) by blast
  with e 1(4) 2(4,5) 3(3,4,5) c show ?thesis
    by (intro exI [of _ P3] exI [of _ ss3] exI [of _ "\<not> set_to ''exporter'' ?w ss \<or> 0 < stale_count ss1 \<or> 0 < stale_count ss2"]) auto
qed

lemma editCodex_spec:
  assumes e: "editable text" and t: "plain_token token" and p: "toml_tables (splitLines text) = (P, ss)"
  shows "\<exists>P' ss' changes added. editCodex text port token = (text_of (lines_of P' ss'), changes, added)
    \<and> reaches P ss P' ss' \<and> list_all (\<lambda>k. has_key k ss') scalar_keys
    \<and> set_to ''exporter'' (exporter_wanted port token) ss' \<and> stale_count ss' \<le> stale_count ss - 2
    \<and> (list_all (\<lambda>k. has_key k ss) scalar_keys \<and> set_to ''exporter'' (exporter_wanted port token) ss
        \<and> stale_count ss = 0 \<longrightarrow> P' = P \<and> ss' = ss \<and> changes = [] \<and> added = [])"
proof -
  let ?w = "exporter_wanted port token"
  have d: "doc P ss (splitLines text)" "good (splitLines text)" using editable_doc [OF e p] by simp_all
  have k: "fst ` set codexScalars = set scalar_keys" by (simp add: scalar_keys_def)
  from scalars_spec [OF scalar_lines _ d] k obtain P1 ss1 text1 changes added where
    1: "ensure_scalars codexScalars text = (text1, changes, added)" "splitLines text1 = lines_of P1 ss1"
      "reaches P ss P1 ss1" "\<forall>k \<in> set scalar_keys. has_key k ss1"
      "(\<forall>k \<in> set scalar_keys. has_key k ss) \<longrightarrow> P1 = P \<and> ss1 = ss \<and> changes = [] \<and> added = []"
    unfolding k by blast
  from exporter_spec [of P1 ss1 text1, OF _ _ t] reachesD [OF 1(3)] 1(2) obtain P2 ss2 changed where
    2: "ensureCodexExporter text1 (codexExporterTable (codexEndpoint port) token) = (text_of (lines_of P2 ss2), changed)"
      "reaches P1 ss1 P2 ss2" "set_to ''exporter'' ?w ss2" "stale_count ss2 \<le> stale_count ss1 - 2"
      "set_to ''exporter'' ?w ss1 \<and> stale_count ss1 = 0 \<longrightarrow> P2 = P1 \<and> ss2 = ss1 \<and> \<not> changed" by metis
  have "editCodex text port token = (text_of (lines_of P2 ss2),
      if changed then changes @ [''otel.exporter = '' @ codexExporterTable (codexEndpoint port) ''<redacted>''] else changes, added)"
    by (simp add: editCodex_def Let_def 1(1) 2(1))
  moreover have "reaches P ss P2 ss2" using reaches_trans 1(3) 2(2) by blast
  moreover have "list_all (\<lambda>k. has_key k ss2) scalar_keys" using 1(4) 2(2) by (simp add: list_all_iff reaches_def)
  moreover have "stale_count ss1 \<le> stale_count ss" using 1(3) by (simp add: reaches_def)
  then have "stale_count ss2 \<le> stale_count ss - 2" using 2(4) by linarith
  moreover have "list_all (\<lambda>k. has_key k ss) scalar_keys \<and> set_to ''exporter'' ?w ss \<and> stale_count ss = 0
      \<Longrightarrow> P2 = P \<and> ss2 = ss \<and> changes = [] \<and> added = [] \<and> \<not> changed"
    using 1(5) 2(5) by (simp add: list_all_iff)
  ultimately show ?thesis using 2(3) by (intro exI conjI) auto
qed


text \<open>Setting up twice changes nothing: the result of the edit is a fixed point, with no change
  described and no key added, provided at most two stale exporter tables were there (TOML allows
  one).\<close>

lemma editCodex_idempotent:
  assumes "editable text" "plain_token token" "stale_count (snd (toml_tables (splitLines text))) \<le> 2"
  shows "editCodex (fst (editCodex text port token)) port token = (fst (editCodex text port token), [], [])"
proof -
  obtain P ss where p: "toml_tables (splitLines text) = (P, ss)" by (cases "toml_tables (splitLines text)")
  obtain P' ss' changes added where e: "editCodex text port token = (text_of (lines_of P' ss'), changes, added)"
    "reaches P ss P' ss'" "list_all (\<lambda>k. has_key k ss') scalar_keys" "set_to ''exporter'' (exporter_wanted port token) ss'"
    "stale_count ss' \<le> stale_count ss - 2"
    using editCodex_spec [OF assms(1,2) p] by blast
  let ?t = "text_of (lines_of P' ss')"
  note r = reachesD [OF e(2)]
  have s: "splitLines ?t = lines_of P' ss'" using r good_text by blast
  have "depth_after 0 (lines_of P' ss') = 0" using r doc_closed by blast
  then have ed: "editable ?t" using r s by (simp add: editable_def good_def)
  have p': "toml_tables (splitLines ?t) = (P', ss')" using r doc_tables s by simp
  have "stale_count ss' = 0" using e(5) assms(3) p by simp
  with editCodex_spec [OF ed assms(2) p', of port] e(3,4)
  have "editCodex ?t port token = (?t, [], [])" by auto
  then show ?thesis using e(1) by simp
qed

subsection \<open>Files\<close>

lemma backupFile_spec:
  assumes "backupFile E path suf fs = (r, fs')" "suf \<noteq> []"
  shows "fs' path = fs path"
    and "r = Inr b \<Longrightarrow> fs path = Some (c, m) \<Longrightarrow> \<exists>m'. fs' (path @ suf @ se_stamp E) = Some (c, m')"
  using assms
  by (auto simp: backupFile_def write_file_def Let_def split: if_splits option.splits prod.splits)

lemma install_spec:
  assumes "install E path data backup fs = (r, fs')"
  shows "p \<noteq> path \<Longrightarrow> fs' p = fs p" and "r = Inr b \<Longrightarrow> \<exists>m. fs' path = Some (data, m)" and "r = Inr b \<Longrightarrow> b = backup"
    and "fs' path = fs path \<or> (\<exists>m. fs' path = Some (data, m)) \<or> fs' path = se_torn E path"
  using assms by (auto simp: install_def write_file_def split: if_splits)

lemma backup_then_install:
  assumes "backupFile E path suf fs = (r, fs1)" "suf \<noteq> []" "fs path = Some (c, m)"
    and "\<And>b. r = Inr b \<Longrightarrow> (\<forall>p. p \<noteq> path \<longrightarrow> fs2 p = fs1 p)" "\<And>e. r = Inl e \<Longrightarrow> fs2 = fs1"
  shows "\<exists>p m'. p \<in> {path, path @ suf @ se_stamp E} \<and> fs2 p = Some (c, m')"
proof (cases r)
  case (Inl e)
  with assms backupFile_spec(1) [OF assms(1,2)] show ?thesis by auto
next
  case (Inr b)
  have "path @ suf @ se_stamp E \<noteq> path" using assms(2) by simp
  with backupFile_spec(2) [OF assms(1,2) Inr assms(3)] assms(4) [OF Inr] show ?thesis by (metis insertCI)
qed

text \<open>C33: no failure loses an agent's settings. Whatever fails while a plan is applied, a torn write
  included, the text of the settings file from before is afterwards in the file itself or in its
  backup.\<close>

theorem Apply_keeps_original:
  assumes "fs (clp_Path p) = Some (c, m)" "fs (cxp_Path q) = Some (c', m')"
  shows "(\<exists>path mode. path \<in> {clp_Path p, clp_Path p @ ''.json.bak.'' @ se_stamp E}
        \<and> snd (ClaudePlan_Apply E p fs) path = Some (c, mode))
    \<and> (\<exists>path mode. path \<in> {cxp_Path q, cxp_Path q @ ''.toml.bak.'' @ se_stamp E}
        \<and> snd (CodexPlan_Apply E q fs) path = Some (c', mode))"
proof
  obtain r fs1 where b: "backupFile E (clp_Path p) ''.json.bak.'' fs = (r, fs1)" by fastforce
  show "\<exists>path mode. path \<in> {clp_Path p, clp_Path p @ ''.json.bak.'' @ se_stamp E}
        \<and> snd (ClaudePlan_Apply E p fs) path = Some (c, mode)"
    by (rule backup_then_install [OF b _ assms(1)])
      (auto simp: ClaudePlan_Apply_def b install_def write_file_def split: option.splits)
next
  obtain r fs1 where b: "backupFile E (cxp_Path q) ''.toml.bak.'' fs = (r, fs1)" by fastforce
  show "\<exists>path mode. path \<in> {cxp_Path q, cxp_Path q @ ''.toml.bak.'' @ se_stamp E}
        \<and> snd (CodexPlan_Apply E q fs) path = Some (c', mode)"
    by (rule backup_then_install [OF b _ assms(2)])
      (auto simp: CodexPlan_Apply_def b install_def write_file_def)
qed

subsection \<open>\<open>settings.json\<close>\<close>

lemma map_of_fold_update:
  "distinct (map fst adds) \<Longrightarrow>
     map_of (fold (\<lambda>(k, v) m. AList.update k (AStr v) m) adds env) k
       = (case map_of adds k of Some v \<Rightarrow> Some (AStr v) | None \<Rightarrow> map_of env k)"
proof (induction adds arbitrary: env)
  case (Cons a adds)
  obtain k' v where a: "a = (k', v)" by fastforce
  with Cons show ?case
    by (auto simp: update_conv' map_of_eq_None_iff [symmetric] split: option.splits)
qed simp

lemma map_of_filter_absent:
  "map_of (filter (\<lambda>(k, v). map_of env k = None) xs) k = (if map_of env k = None then map_of xs k else None)"
  by (induction xs) auto

lemma distinct_target: "distinct (map fst (claudeTarget port token))"
  by (simp add: claudeTarget_def)

lemma merged_env_lookup:
  assumes "clp_additions p = filter (\<lambda>(k, v). map_of (clp_env p) k = None) (claudeTarget port token)"
  shows "map_of (merged_env p) k = (case map_of (clp_env p) k of
      Some old \<Rightarrow> Some old | None \<Rightarrow> map_option AStr (map_of (claudeTarget port token) k))"
proof -
  have "distinct (map fst (clp_additions p))"
    unfolding assms using distinct_target distinct_map_filter by blast
  then show ?thesis
    unfolding merged_env_def by (simp add: map_of_fold_update assms map_of_filter_absent split: option.splits)
qed

lemma ClaudePlan_written:
  assumes plan: "PlanClaude E port token fs = Inr p" and applied: "ClaudePlan_Apply E p fs = (Inr b, fs')"
  shows "\<exists>document env data mode. fs' (clp_Path p) = Some (data @ [newline], mode) \<and> se_indent E document = Some data
    \<and> (\<forall>k. k \<noteq> ''env'' \<longrightarrow> map_of document k = map_of (clp_settings p) k)
    \<and> map_of document ''env'' = Some (AMap env)
    \<and> (\<forall>k. map_of env k = (case map_of (clp_env p) k of
         Some old \<Rightarrow> Some old | None \<Rightarrow> map_option AStr (map_of (claudeTarget port token) k)))"
proof -
  let ?doc = "AList.update ''env'' (AMap (merged_env p)) (clp_settings p)"
  have adds: "clp_additions p = filter (\<lambda>(k, v). map_of (clp_env p) k = None) (claudeTarget port token)"
    using plan by (auto simp: PlanClaude_def Let_def split: sum.splits)
  obtain r fs1 where b: "backupFile E (clp_Path p) ''.json.bak.'' fs = (r, fs1)" by fastforce
  with applied obtain b1 data where "r = Inr b1" "se_indent E ?doc = Some data"
    "install E (clp_Path p) (data @ [newline]) b1 fs1 = (Inr b, fs')"
    by (auto simp: ClaudePlan_Apply_def split: sum.splits option.splits)
  moreover from this(3) obtain mode where "fs' (clp_Path p) = Some (data @ [newline], mode)"
    using install_spec(2) by blast
  ultimately show ?thesis
    using merged_env_lookup [OF adds]
    by (intro exI [of _ ?doc] exI [of _ "merged_env p"] exI [of _ data] exI [of _ mode]) (simp add: update_conv')
qed

text \<open>The merge into \<open>settings.json\<close>. An applied plan writes a document that differs from the one
  read in the \<open>env\<close> object only; there every key that was set keeps its value, each of the seven
  telemetry keys that was not set gets its target, and nothing else appears.\<close>

theorem PlanClaude_merges:
  assumes plan: "PlanClaude E port token fs = Inr p" and applied: "ClaudePlan_Apply E p fs = (Inr b, fs')"
  shows "\<exists>document env data mode. fs' (clp_Path p) = Some (data @ [newline], mode) \<and> se_indent E document = Some data
    \<and> (\<forall>k. k \<noteq> ''env'' \<longrightarrow> map_of document k = map_of (clp_settings p) k)
    \<and> map_of document ''env'' = Some (AMap env)
    \<and> (\<forall>k. map_of env k = (case map_of (clp_env p) k of
         Some old \<Rightarrow> Some old | None \<Rightarrow> map_option AStr (map_of (claudeTarget port token) k)))"
  by (rule ClaudePlan_written [OF assms])

text \<open>What an encoded document decodes to has an \<open>env\<close> object with the same keys.\<close>

definition json_keeps_env :: "setup_env \<Rightarrow> bool" where
  "json_keeps_env E \<longleftrightarrow> (\<forall>document data env. se_indent E document = Some data \<longrightarrow> map_of document ''env'' = Some (AMap env) \<longrightarrow>
     (\<exists>document' env'. se_json E (data @ [newline]) = Some (AMap document') \<and> map_of document' ''env'' = Some (AMap env')
        \<and> dom (map_of env') = dom (map_of env)))"

text \<open>A second setup of Claude Code has nothing to do, whatever port and token it is given: an
  existing endpoint or token header is never updated.\<close>

theorem PlanClaude_settled:
  assumes plan: "PlanClaude E port token fs = Inr p" and applied: "ClaudePlan_Apply E p fs = (Inr b, fs')"
    and json: "json_keeps_env E"
  shows "\<exists>p'. PlanClaude E port' token' fs' = Inr p' \<and> ClaudePlan_Empty p'"
proof -
  from ClaudePlan_written [OF plan applied] obtain document env data mode where
    d: "fs' (clp_Path p) = Some (data @ [newline], mode)" "se_indent E document = Some data" "map_of document ''env'' = Some (AMap env)"
    "\<forall>k. map_of env k = (case map_of (clp_env p) k of Some old \<Rightarrow> Some old | None \<Rightarrow> map_option AStr (map_of (claudeTarget port token) k))"
    by blast
  from json d(2,3) obtain document' env' where
    j: "se_json E (data @ [newline]) = Some (AMap document')" "map_of document' ''env'' = Some (AMap env')" "dom (map_of env') = dom (map_of env)"
    unfolding json_keeps_env_def by blast
  obtain dir where dir: "ClaudeDir E = Inr dir" "clp_Path p = path_join [dir, ''settings.json'']"
    "\<not> se_fail E Op_Read (clp_Path p)"
    using plan by (auto simp: PlanClaude_def loadClaudeSettings_def read_file_def Let_def split: sum.splits if_splits)
  have "map_of env' k \<noteq> None" if "k \<in> fst ` set (claudeTarget port' token')" for k
  proof -
    have "k \<in> fst ` set (claudeTarget port token)" using that by (simp add: claudeTarget_def)
    then have "map_of (claudeTarget port token) k \<noteq> None" by (simp add: map_of_eq_None_iff)
    then have "map_of env k \<noteq> None" using d(4) by (auto split: option.splits)
    then show ?thesis using j(3) by (metis domIff)
  qed
  then have "filter (\<lambda>(k, v). map_of env' k = None) (claudeTarget port' token') = []"
    by (force simp: filter_empty_conv)
  then show ?thesis
    using dir d(1) j by (simp add: PlanClaude_def loadClaudeSettings_def read_file_def as_object_def aget_def ClaudePlan_Empty_def)
qed

lemma CodexPlan_settled:
  assumes plan: "PlanCodex E port token fs = Inr p" and applied: "CodexPlan_Apply E p fs1 = (Inr b, fs')"
    and old: "old = (case fs (cxp_Path p) of None \<Rightarrow> [] | Some (data, _) \<Rightarrow> data)"
    and ok: "editable old" "plain_token token" "stale_count (snd (toml_tables (splitLines old))) \<le> 2"
  shows "\<exists>p'. PlanCodex E port token fs' = Inr p' \<and> CodexPlan_Empty p' \<and> cxp_text p' = cxp_text p"
proof -
  obtain dir where dir: "CodexDir E = Inr dir" "cxp_Path p = path_join [dir, ''config.toml'']"
    "\<not> se_fail E Op_Read (cxp_Path p)"
    using plan by (auto simp: PlanCodex_def readIfExists_def read_file_def Let_def split: sum.splits if_splits option.splits prod.splits)
  have r: "readIfExists E (cxp_Path p) fs = Inr old"
    using dir(3) old by (cases "fs (cxp_Path p)") (auto simp: readIfExists_def read_file_def)
  have t: "cxp_text p = fst (editCodex old port token)"
    using plan dir r by (auto simp: PlanCodex_def Let_def split: if_splits option.splits prod.splits)
  obtain r1 fs2 where b: "backupFile E (cxp_Path p) ''.toml.bak.'' fs1 = (r1, fs2)" by fastforce
  with applied obtain mode where "fs' (cxp_Path p) = Some (cxp_text p, mode)"
    using install_spec(2) by (fastforce simp: CodexPlan_Apply_def split: sum.splits)
  then have "readIfExists E (cxp_Path p) fs' = Inr (cxp_text p)"
    using dir(3) by (simp add: readIfExists_def read_file_def)
  then show ?thesis
    using dir editCodex_idempotent [OF ok(1,2,3), of port] t
    by (simp add: PlanCodex_def Let_def CodexPlan_Empty_def)
qed

text \<open>Setting up Codex converges. Once an applied plan is on disk, whatever happened to other files
  since it was made, the next plan for the same port and token has nothing to do, which is what the
  doctor asks.\<close>

theorem PlanCodex_converges:
  assumes plan: "PlanCodex E port token fs = Inr p" and applied: "CodexPlan_Apply E p fs1 = (Inr b, fs')"
    and old: "old = (case fs (cxp_Path p) of None \<Rightarrow> [] | Some (data, _) \<Rightarrow> data)"
    and ok: "editable old" "plain_token token" "stale_count (snd (toml_tables (splitLines old))) \<le> 2"
  shows "\<exists>p'. PlanCodex E port token fs' = Inr p' \<and> CodexPlan_Empty p' \<and> cxp_text p' = cxp_text p"
  by (rule CodexPlan_settled [OF assms])

subsection \<open>Witnesses\<close>

definition sample_toml :: string where
  "sample_toml = ''[otel]'' @ newline # ''environment = 1'' @ newline # ''[other]'' @ newline # ''k = [ 2 ]''"

definition sample_setup :: setup_env where
  "sample_setup = \<lparr>se_home = Some ''/h'', se_env = (\<lambda>_. []), se_isdir = (\<lambda>_. True), se_lookpath = (\<lambda>_. False),
     se_stamp = ''20260101-000000'', se_fail = (\<lambda>_ _. False), se_torn = (\<lambda>_. None), se_created = (\<lambda>m. m),
     se_toml = (\<lambda>_. Some [(''otel'', AMap [(''environment'', AStr ''control-center''), (''metrics_exporter'', AStr ''none''),
       (''trace_exporter'', AStr ''none''), (''log_user_prompt'', ABool False),
       (''exporter'', AMap [(''otlp-http'', AMap [(''endpoint'', AStr (codexEndpoint 8765)), (''protocol'', AStr ''json''),
          (''headers'', AMap [(TokenHeader, AStr ''abc'')])])])])]),
     se_json = (\<lambda>s. Some (AMap [(''env'', AMap (map (\<lambda>(k, v). (k, AStr v)) (claudeTarget 8765 ''abc'')))])),
     se_indent = (\<lambda>m. if m = [(''env'', AMap (map (\<lambda>(k, v). (k, AStr v)) (claudeTarget 8765 ''abc'')))] then Some ''x'' else None)\<rparr>"

lemma sample_lines: "splitLines sample_toml = [''[otel]'', ''environment = 1'', ''[other]'', ''k = [ 2 ]'']"
  by (simp add: splitLines_def sample_toml_def newline_def)

lemmas toml_eval = lineDelta_def stripStringsAndComments_def bracket_def tableHeader_def re_space_def exporter_line_def string_eval

lemma sample_toml_ok: "editable sample_toml" "plain_token ''abc''" "stale_count (snd (toml_tables (splitLines sample_toml))) \<le> 2"
proof -
  show "editable sample_toml" by (simp add: editable_def sample_lines toml_eval)
  show "plain_token ''abc''" by (simp add: plain_token_def byte_def)
  have "length (snd (toml_tables (splitLines sample_toml))) = 2"
    by (simp add: sample_lines toml_tables_def toml_eval)
  then show "stale_count (snd (toml_tables (splitLines sample_toml))) \<le> 2"
    using length_filter_le [of "tmatch stale_path" "snd (toml_tables (splitLines sample_toml))"] by (simp add: stale_count_def)
qed


lemma ensure_scalars_added:
  "set (snd (snd (ensure_scalars scs t))) \<subseteq> (\<lambda>(k, v, w). (k, w)) ` set scs"
proof (induction scs t rule: ensure_scalars.induct)
  case (2 key val want scalars t)
  then show ?case
    by (cases "ensureTableKey t ''otel'' key val"; cases "ensure_scalars scalars (fst (ensureTableKey t ''otel'' key val))") auto
qed simp

lemma sample_fields [simp]:
  "se_fail sample_setup op path = False" "se_stamp sample_setup = ''20260101-000000''" "se_created sample_setup m = m"
  "CodexDir sample_setup = Inr (path_join [''/h'', ''.codex''])" "ClaudeDir sample_setup = Inr (path_join [''/h'', ''.claude''])"
  "se_indent sample_setup m0 = (if m0 = [(''env'', AMap (map (\<lambda>(k, v). (k, AStr v)) (claudeTarget 8765 ''abc'')))] then Some ''x'' else None)"
  by (simp_all add: sample_setup_def CodexDir_def ClaudeDir_def agentDir_def)

lemma sample_codex_plan: "\<exists>p. PlanCodex sample_setup 8765 ''abc'' Map.empty = Inr p"
proof -
  obtain t changes added where e: "editCodex [] 8765 ''abc'' = (t, changes, added)" by (metis prod_cases3)
  then have "set added \<subseteq> (\<lambda>(k, v, w). (k, w)) ` set codexScalars"
    using ensure_scalars_added [of codexScalars "[]"] by (simp add: editCodex_def Let_def split: prod.splits)
  then have "\<not> list_ex (\<lambda>(key, want). map_of [(''environment'', AStr ''control-center''), (''metrics_exporter'', AStr ''none''),
       (''trace_exporter'', AStr ''none''), (''log_user_prompt'', ABool False), (''exporter'', v)] key \<noteq> Some want) added" for v
    by (auto simp: list_ex_iff codexScalars_def)
  then have "verifyCodexEdit sample_setup t 8765 ''abc'' added = None"
    by (simp add: verifyCodexEdit_def sample_setup_def assertCodexExporter_def aget_def)
  then show ?thesis
    using e by (simp add: PlanCodex_def readIfExists_def read_file_def Let_def)
qed

lemma sample_claude_plan:
  "\<exists>p fs'. PlanClaude sample_setup 8765 ''abc'' Map.empty = Inr p \<and> ClaudePlan_Apply sample_setup p Map.empty = (Inr [], fs')
     \<and> clp_env p = []"
  by (simp add: PlanClaude_def loadClaudeSettings_def read_file_def Let_def ClaudePlan_Apply_def
      backupFile_def install_def write_file_def merged_env_def claudeTarget_def)

lemma Apply_keeps_original_witness:
  "\<exists>path mode. path \<in> {''s'', ''s.json.bak.20260101-000000''}
     \<and> snd (ClaudePlan_Apply sample_setup \<lparr>clp_Path = ''s'', clp_additions = [], clp_settings = [], clp_env = []\<rparr>
         [''s'' \<mapsto> (''old'', 420)]) path = Some (''old'', mode)"
  using Apply_keeps_original [of "[''s'' \<mapsto> (''old'', 420)]" "\<lparr>clp_Path = ''s'', clp_additions = [], clp_settings = [], clp_env = []\<rparr>"
      "''old''" 420 "\<lparr>cxp_Path = ''s'', cxp_text = [], cxp_changes = []\<rparr>" "''old''" 420 sample_setup]
  by simp

lemma PlanClaude_merges_witness:
  "\<exists>env. map_of env ''OTEL_LOGS_EXPORTER'' = Some (AStr ''otlp'')
     \<and> (\<exists>document. se_indent sample_setup document \<noteq> None \<and> map_of document ''env'' = Some (AMap env))"
proof -
  obtain p fs' where p: "PlanClaude sample_setup 8765 ''abc'' Map.empty = Inr p"
    "ClaudePlan_Apply sample_setup p Map.empty = (Inr [], fs')" "clp_env p = []"
    using sample_claude_plan by blast
  from PlanClaude_merges [OF p(1,2)] p(3) show ?thesis by (force simp: claudeTarget_def)
qed

lemma sample_json: "json_keeps_env sample_setup"
  by (auto simp: json_keeps_env_def sample_setup_def split: if_splits)

lemma PlanClaude_settled_witness:
  "\<exists>p fs' p'. PlanClaude sample_setup 8765 ''abc'' Map.empty = Inr p \<and> ClaudePlan_Apply sample_setup p Map.empty = (Inr [], fs')
     \<and> PlanClaude sample_setup 9999 ''other'' fs' = Inr p' \<and> ClaudePlan_Empty p'"
proof -
  obtain p fs' where p: "PlanClaude sample_setup 8765 ''abc'' Map.empty = Inr p"
    "ClaudePlan_Apply sample_setup p Map.empty = (Inr [], fs')" using sample_claude_plan by blast
  have "\<exists>p'. PlanClaude sample_setup 9999 ''other'' fs' = Inr p' \<and> ClaudePlan_Empty p'"
    by (rule PlanClaude_settled [OF p sample_json])
  with p show ?thesis by blast
qed

lemma PlanCodex_converges_witness:
  "\<exists>p b fs' p'. PlanCodex sample_setup 8765 ''abc'' Map.empty = Inr p \<and> CodexPlan_Apply sample_setup p Map.empty = (Inr b, fs')
     \<and> PlanCodex sample_setup 8765 ''abc'' fs' = Inr p' \<and> CodexPlan_Empty p'"
proof -
  obtain p where p: "PlanCodex sample_setup 8765 ''abc'' Map.empty = Inr p" using sample_codex_plan by blast
  obtain fs' where a: "CodexPlan_Apply sample_setup p Map.empty = (Inr [], fs')"
    by (simp add: CodexPlan_Apply_def backupFile_def install_def write_file_def)
  have "\<exists>p'. PlanCodex sample_setup 8765 ''abc'' fs' = Inr p' \<and> CodexPlan_Empty p' \<and> cxp_text p' = cxp_text p"
    by (rule PlanCodex_converges [OF p a, of "[]"])
      (simp_all add: editable_def splitLines_def sample_toml_ok(2) toml_tables_def stale_count_def)
  with p a show ?thesis by blast
qed

end
