(* ===== verification/Setup_Cmd.thy ===== *)
theory Setup_Cmd
  imports Setup_Safety Cred_Store
begin

text \<open>
  The \<open>setup\<close> command (\<open>cmd/burndown-cli/setup.go\<close>, \<open>port.go\<close>, \<open>internal/setup/token.go\<close>): the
  receiver token, the choice of agents and port, and the run that prints, confirms and applies the
  plans. The state is the agents' files and the credential store; the environment adds what the
  user answers, the random bytes and the platform service. Output is the list of lines printed.
\<close>

subsection \<open>\<open>token.go\<close>\<close>

definition hex_char :: "nat \<Rightarrow> char" where
  "hex_char n = (if n < 10 then char_of (48 + n) else char_of (87 + n))"

text \<open>\<open>hex.EncodeToString\<close>.\<close>

definition hex_encode :: "string \<Rightarrow> string" where
  "hex_encode s = concat (map (\<lambda>c. [hex_char (byte c div 16), hex_char (byte c mod 16)]) s)"

definition tokenBytes :: nat where "tokenBytes = 32"

datatype token_error = Token_Store store_error | Token_Rand

text \<open>\<open>rand.Read\<close> fills \<open>tokenBytes\<close> bytes or fails.\<close>

definition generateToken :: "string option \<Rightarrow> token_error + string" where
  "generateToken rnd = (case rnd of None \<Rightarrow> Inl Token_Rand | Some b \<Rightarrow> Inr (hex_encode (take tokenBytes b)))"

definition zero_config :: config where
  "zero_config = \<lparr>cfg_APIURL = [], cfg_CollectorKey = [], cfg_CollectorID = 0, cfg_UserEmail = [],
     cfg_Machine = [], cfg_Policy = zero_policy, cfg_KeyExpiresAt = [], cfg_RetentionDays = 0,
     cfg_KeyID = 0, cfg_PendingKey = [], cfg_PendingKeyID = 0, cfg_PendingKeyExpires = [],
     cfg_OldKeyValidUntil = [], cfg_LastRotationAt = [], cfg_RotationFailures = 0, cfg_AuthReason = [],
     cfg_ReceiverPort = 0, cfg_ReceiverToken = [], cfg_InventoryStatus = [],
     cfg_InventoryLastUploadAt = [], cfg_InventoryItemCount = 0, cfg_CredentialBackend = [], cfg_extra = []\<rparr>"

definition new_token ::
    "cred_env \<Rightarrow> string option \<Rightarrow> config \<Rightarrow> cred_state \<Rightarrow> (token_error + string) \<times> cred_state" where
  "new_token E rnd cfg st =
     (if cfg_ReceiverToken cfg \<noteq> [] then (Inr (cfg_ReceiverToken cfg), st)
      else (case generateToken rnd of
          Inl e \<Rightarrow> (Inl e, st)
        | Inr token \<Rightarrow>
            (case Store_Save E (cfg\<lparr>cfg_ReceiverToken := token\<rparr>) st of
               (Some e, _, st) \<Rightarrow> (Inl (Token_Store e), st)
             | (None, _, st) \<Rightarrow> (Inr token, st))))"

definition EnsureReceiverToken ::
    "cred_env \<Rightarrow> string option \<Rightarrow> cred_state \<Rightarrow> (token_error + string) \<times> cred_state" where
  "EnsureReceiverToken E rnd st =
     (case Store_Load E st of
        (Inl e, st) \<Rightarrow> if e = Not_Found then new_token E rnd zero_config st else (Inl (Token_Store e), st)
      | (Inr cfg, st) \<Rightarrow> new_token E rnd cfg st)"

subsection \<open>Port and agents\<close>

record setup_flags =
  sf_port :: int
  sf_portSet :: bool
  sf_check :: bool
  sf_all :: bool
  sf_claude :: bool
  sf_codex :: bool
  sf_yes :: bool

record cli =
  cli_files :: agent_files
  cli_creds :: cred_state

record cli_env =
  ci_setup :: setup_env
  ci_open :: bool
  ci_token :: cred_env
  ci_port :: cred_env
  ci_rand :: "string option"
  ci_answer :: "string option"
  ci_service :: "(bool \<times> bool) option"

definition persistedPort :: "bool \<Rightarrow> cred_env \<Rightarrow> cred_state \<Rightarrow> int option \<times> cred_state" where
  "persistedPort opened E st =
     (if \<not> opened then (None, st)
      else (case Store_Load E st of
          (Inl e, st) \<Rightarrow> (None, st)
        | (Inr cfg, st) \<Rightarrow>
            (if sint (cfg_ReceiverPort cfg) \<le> 0 then None else Some (sint (cfg_ReceiverPort cfg)), st)))"

definition resolvePort :: "bool \<Rightarrow> cred_env \<Rightarrow> bool \<Rightarrow> int \<Rightarrow> cred_state \<Rightarrow> int \<times> cred_state" where
  "resolvePort opened E changed flagPort st =
     (if changed then (flagPort, st)
      else (case persistedPort opened E st of
          (Some port, st) \<Rightarrow> (port, st)
        | (None, st) \<Rightarrow> (flagPort, st)))"

record setup_targets =
  tg_claude :: bool
  tg_codex :: bool
  tg_detClaude :: bool
  tg_detCodex :: bool
  tg_claudeDir :: string
  tg_codexDir :: string

definition selectAgents :: "setup_flags \<Rightarrow> bool \<Rightarrow> bool \<Rightarrow> bool \<times> bool" where
  "selectAgents f detClaude detCodex =
     (if \<not> sf_all f \<and> \<not> sf_claude f \<and> \<not> sf_codex f then (detClaude, detCodex)
      else (sf_all f \<or> sf_claude f, sf_all f \<or> sf_codex f))"

definition resolveTargets :: "setup_env \<Rightarrow> setup_flags \<Rightarrow> setup_error + setup_targets" where
  "resolveTargets E f =
     (case DetectClaude E of
        Inl e \<Rightarrow> Inl e
      | Inr (detClaude, claudeDir) \<Rightarrow>
          (case DetectCodex E of
             Inl e \<Rightarrow> Inl e
           | Inr (detCodex, codexDir) \<Rightarrow>
               (let (wantClaude, wantCodex) = selectAgents f detClaude detCodex in
                Inr \<lparr>tg_claude = wantClaude, tg_codex = wantCodex, tg_detClaude = detClaude, tg_detCodex = detCodex,
                     tg_claudeDir = claudeDir, tg_codexDir = codexDir\<rparr>)))"

subsection \<open>Plans\<close>

datatype agent_plan = Claude_Plan claude_plan | Codex_Plan codex_plan

primrec plan_name :: "agent_plan \<Rightarrow> string" where
  "plan_name (Claude_Plan p) = ''Claude Code''"
| "plan_name (Codex_Plan p) = ''Codex''"

primrec plan_Empty :: "agent_plan \<Rightarrow> bool" where
  "plan_Empty (Claude_Plan p) = ClaudePlan_Empty p"
| "plan_Empty (Codex_Plan p) = CodexPlan_Empty p"

primrec plan_Descriptions :: "agent_plan \<Rightarrow> string list" where
  "plan_Descriptions (Claude_Plan p) = ClaudePlan_Descriptions p"
| "plan_Descriptions (Codex_Plan p) = cxp_changes p"

primrec plan_Apply :: "setup_env \<Rightarrow> agent_plan \<Rightarrow> agent_files \<Rightarrow> (setup_error + string) \<times> agent_files" where
  "plan_Apply E (Claude_Plan p) fs = ClaudePlan_Apply E p fs"
| "plan_Apply E (Codex_Plan p) fs = CodexPlan_Apply E p fs"

definition buildPlans ::
    "setup_env \<Rightarrow> setup_targets \<Rightarrow> int \<Rightarrow> string \<Rightarrow> agent_files \<Rightarrow> setup_error + agent_plan list" where
  "buildPlans E t port token fs =
     (case (if tg_claude t then map_sum (\<lambda>e. e) (\<lambda>p. [Claude_Plan p]) (PlanClaude E port token fs) else Inr []) of
        Inl e \<Rightarrow> Inl e
      | Inr plans \<Rightarrow>
          if tg_codex t
          then (case PlanCodex E port token fs of
              Inl e \<Rightarrow> Inl e
            | Inr p \<Rightarrow> Inr (plans @ [Codex_Plan p]))
          else Inr plans)"

definition reportDetection :: "string \<Rightarrow> string \<Rightarrow> bool \<Rightarrow> bool \<Rightarrow> string" where
  "reportDetection name dir detected targeted =
     (if detected \<and> targeted then name @ '': detected ('' @ dir @ '')''
      else if \<not> detected \<and> targeted then name @ '': not detected, configuring anyway ('' @ dir @ '')''
      else if detected \<and> \<not> targeted then name @ '': detected but not selected''
      else name @ '': not detected, skipping'')"

datatype setup_cmd_error = Plan_Failed setup_error | Open_Failed | Token_Failed token_error
  | Changes_Pending | Prompt_Failed | Aborted | Apply_Failed string setup_error

definition gatherPlans ::
    "cli_env \<Rightarrow> setup_flags \<Rightarrow> cli \<Rightarrow> (setup_cmd_error + agent_plan list) \<times> string list \<times> cli" where
  "gatherPlans C f s =
     (case resolveTargets (ci_setup C) f of
        Inl e \<Rightarrow> (Inl (Plan_Failed e), [], s)
      | Inr t \<Rightarrow>
          (let out = [reportDetection ''Claude Code'' (tg_claudeDir t) (tg_detClaude t) (tg_claude t),
                      reportDetection ''Codex'' (tg_codexDir t) (tg_detCodex t) (tg_codex t)] in
           if \<not> tg_claude t \<and> \<not> tg_codex t then (Inr [], out, s)
           else if \<not> ci_open C then (Inl Open_Failed, out, s)
           else (case EnsureReceiverToken (ci_token C) (ci_rand C) (cli_creds s) of
               (Inl e, st) \<Rightarrow> (Inl (Token_Failed e), out, s\<lparr>cli_creds := st\<rparr>)
             | (Inr token, st) \<Rightarrow>
                 (case resolvePort (ci_open C) (ci_port C) (sf_portSet f) (sf_port f) st of (port, st) \<Rightarrow>
                  case buildPlans (ci_setup C) t port token (cli_files s) of
                    Inl e \<Rightarrow> (Inl (Plan_Failed e), out, s\<lparr>cli_creds := st\<rparr>)
                  | Inr plans \<Rightarrow> (Inr plans, out, s\<lparr>cli_creds := st\<rparr>)))))"

definition printPlan :: "agent_plan list \<Rightarrow> string list \<times> bool" where
  "printPlan plans =
     (concat (map (\<lambda>p. if plan_Empty p then [plan_name p @ '': up to date'']
        else (plan_name p @ '': will add'') # map (\<lambda>l. ''  '' @ l) (plan_Descriptions p)) plans),
      list_ex (\<lambda>p. \<not> plan_Empty p) plans)"

definition promptManualDaemonRestart :: "string list" where
  "promptManualDaemonRestart = [''If the collector daemon is already running, restart it (`burndown-cli service start`, or restart `serve`) so it picks up the new token.'']"

text \<open>The service of the environment: whether it runs, and whether a start succeeds.\<close>

definition restartCollectorService :: "cli_env \<Rightarrow> string list" where
  "restartCollectorService C =
     (case ci_service C of
        None \<Rightarrow> promptManualDaemonRestart
      | Some (running, starts) \<Rightarrow>
          if \<not> running then promptManualDaemonRestart
          else if \<not> starts then ''warning: could not restart the collector service automatically'' # promptManualDaemonRestart
          else [''Collector service restarted so it picks up the new token.''])"

fun apply_loop :: "setup_env \<Rightarrow> agent_plan list \<Rightarrow> agent_files \<Rightarrow> setup_cmd_error option \<times> string list \<times> agent_files" where
  "apply_loop E [] fs = (None, [], fs)"
| "apply_loop E (p # plans) fs =
     (if plan_Empty p then apply_loop E plans fs
      else (case plan_Apply E p fs of
          (Inl e, fs) \<Rightarrow> (Some (Apply_Failed (plan_name p) e), [], fs)
        | (Inr backup, fs) \<Rightarrow>
            (case apply_loop E plans fs of (e, out, fs) \<Rightarrow>
              (e, (if backup \<noteq> [] then [plan_name p @ '': backed up to '' @ backup] else [])
                  @ (plan_name p @ '': updated'') # out, fs))))"

definition applyPlans :: "cli_env \<Rightarrow> agent_plan list \<Rightarrow> agent_files \<Rightarrow> setup_cmd_error option \<times> string list \<times> agent_files" where
  "applyPlans C plans fs =
     (case apply_loop (ci_setup C) plans fs of
        (Some e, out, fs) \<Rightarrow> (Some e, out, fs)
      | (None, out, fs) \<Rightarrow>
          (None, out @ ''Restart Claude Code and Codex so the new OTEL settings take effect.'' # restartCollectorService C, fs))"

definition confirm :: "string option \<Rightarrow> bool option" where
  "confirm typed = (case typed of
     None \<Rightarrow> None
   | Some ans \<Rightarrow> Some (trim_space ans \<in> {[], ''y'', ''Y'', ''yes'', ''Yes''}))"

definition runSetup :: "cli_env \<Rightarrow> setup_flags \<Rightarrow> cli \<Rightarrow> setup_cmd_error option \<times> string list \<times> cli" where
  "runSetup C f s =
     (case gatherPlans C f s of
        (Inl e, out, s) \<Rightarrow> (Some e, out, s)
      | (Inr plans, out, s) \<Rightarrow>
          (let (lines, pending) = printPlan plans; out = out @ lines in
           if \<not> pending then (None, out @ [''All detected agents already configured. Nothing to do.''], s)
           else if sf_check f then (Some Changes_Pending, out, s)
           else (case (if sf_yes f then Some True else confirm (ci_answer C)) of
               None \<Rightarrow> (Some Prompt_Failed, out, s)
             | Some False \<Rightarrow> (Some Aborted, out, s)
             | Some True \<Rightarrow>
                 (case applyPlans C plans (cli_files s) of
                    (e, lines, fs) \<Rightarrow> (e, out @ lines, s\<lparr>cli_files := fs\<rparr>)))))"

end
