(* ===== verification/Setup_Cmd_Safety.thy ===== *)
theory Setup_Cmd_Safety
  imports Setup_Cmd
begin

text \<open>
  What the \<open>setup\<close> command promises: the agents' files change only when the user asked for it, and
  nothing that is printed depends on the receiver token.
\<close>

subsection \<open>Who may change the files\<close>

lemma gatherPlans_files: "gatherPlans C f s = (r, out, s') \<Longrightarrow> cli_files s' = cli_files s"
  by (auto simp: gatherPlans_def Let_def split: sum.splits if_splits prod.splits)

text \<open>C34: the agents' files change only after consent: a run that changes one of them has a pending plan, was
  not started with \<open>--check\<close>, and was started with \<open>--yes\<close> or got a yes to its question; a run that
  reports no error and leaves nothing pending changes none. The credential store is another matter:
  the token is generated and saved before \<open>--check\<close> is looked at.\<close>

theorem runSetup_consent:
  assumes "runSetup C f s = (e, out, s')" "cli_files s' \<noteq> cli_files s"
  shows "\<not> sf_check f \<and> (sf_yes f \<or> confirm (ci_answer C) = Some True)
    \<and> (\<exists>plans out1 s1 p. gatherPlans C f s = (Inr plans, out1, s1) \<and> p \<in> set plans \<and> \<not> plan_Empty p)"
proof -
  obtain r out1 s1 where g: "gatherPlans C f s = (r, out1, s1)" by (metis prod_cases3)
  note files = gatherPlans_files [OF g]
  from assms g files obtain plans where r: "r = Inr plans"
    by (cases r) (auto simp: runSetup_def)
  with assms g files show ?thesis
    by (auto simp: runSetup_def printPlan_def Let_def list_ex_iff split: if_splits option.splits bool.splits prod.splits)
qed

subsection \<open>What is printed\<close>

definition public_lines :: "int \<Rightarrow> string set" where
  "public_lines port =
     (\<lambda>(k, v). k @ ''='' @ (if k \<in> claudeSensitiveKeys then ''<redacted>'' else v)) ` set (claudeTarget port [])
     \<union> (\<lambda>(k, v, w). ''otel.'' @ k @ '' = '' @ v) ` set codexScalars
     \<union> {''otel.exporter = '' @ codexExporterTable (codexEndpoint port) ''<redacted>''}"

lemma claude_public:
  assumes "PlanClaude E port token fs = Inr p"
  shows "set (ClaudePlan_Descriptions p) \<subseteq> public_lines port"
proof
  fix l assume "l \<in> set (ClaudePlan_Descriptions p)"
  then obtain k where l: "l \<in> set (case map_of (clp_additions p) k of None \<Rightarrow> []
       | Some v \<Rightarrow> [k @ ''='' @ (if k \<in> claudeSensitiveKeys then ''<redacted>'' else v)])"
    unfolding ClaudePlan_Descriptions_def set_concat set_map by blast
  then obtain v where k: "map_of (clp_additions p) k = Some v"
    "l = k @ ''='' @ (if k \<in> claudeSensitiveKeys then ''<redacted>'' else v)"
    by (cases "map_of (clp_additions p) k") auto
  have "(k, v) \<in> set (claudeTarget port token)"
    using map_of_SomeD [OF k(1)] assms by (auto simp: PlanClaude_def Let_def split: sum.splits)
  then have "(k, if k \<in> claudeSensitiveKeys then otlpHeaderValue [] else v) \<in> set (claudeTarget port [])"
    by (auto simp: claudeTarget_def claudeSensitiveKeys_def)
  then show "l \<in> public_lines port" unfolding k(2) public_lines_def by (force split: if_splits)
qed

lemma ensure_scalars_changes:
  "set (fst (snd (ensure_scalars scs t))) \<subseteq> (\<lambda>(k, v, w). ''otel.'' @ k @ '' = '' @ v) ` set scs"
proof (induction scs t rule: ensure_scalars.induct)
  case (2 key val want scalars t)
  then show ?case
    by (cases "ensureTableKey t ''otel'' key val"; cases "ensure_scalars scalars (fst (ensureTableKey t ''otel'' key val))") auto
qed simp

lemma codex_public:
  assumes "PlanCodex E port token fs = Inr p"
  shows "set (cxp_changes p) \<subseteq> public_lines port"
proof -
  obtain dir text0 where r: "CodexDir E = Inr dir" "readIfExists E (path_join [dir, ''config.toml'']) fs = Inr text0"
    using assms by (auto simp: PlanCodex_def Let_def split: sum.splits)
  then have "cxp_changes p = fst (snd (editCodex text0 port token))"
    using assms by (cases "editCodex text0 port token") (auto simp: PlanCodex_def Let_def split: if_splits option.splits)
  moreover have "set (fst (snd (editCodex text0 port token))) \<subseteq> public_lines port"
    using ensure_scalars_changes [of codexScalars text0]
    by (auto simp: editCodex_def public_lines_def Let_def split: prod.splits if_splits)
  ultimately show ?thesis by simp
qed

text \<open>The plan that is printed never shows the receiver token: every line of every description is
  one of a fixed set that is determined by the port.\<close>

theorem setup_output_public:
  assumes "buildPlans E t port token fs = Inr plans" "p \<in> set plans"
  shows "set (plan_Descriptions p) \<subseteq> public_lines port"
proof -
  from assms consider c where "p = Claude_Plan c" "PlanClaude E port token fs = Inr c"
    | c where "p = Codex_Plan c" "PlanCodex E port token fs = Inr c"
    by (cases "PlanClaude E port token fs"; cases "PlanCodex E port token fs")
      (auto simp: buildPlans_def split: if_splits)
  then show ?thesis using claude_public codex_public by cases simp_all
qed

subsection \<open>The token of the store\<close>

definition file_token :: "cred_state \<Rightarrow> string option" where
  "file_token st = (case dk_file (cs_disk st) of
     Some (Object m, _) \<Rightarrow> map_option cfg_ReceiverToken (config_UnmarshalJSON m) | _ \<Rightarrow> None)"

lemma marshal_token:
  "\<exists>c'. config_UnmarshalJSON (config_MarshalJSON c) = Some c' \<and> cfg_ReceiverToken c' = json_string (cfg_ReceiverToken c)"
proof -
  note ex = aget_extra [unfolded knownFields_def list.set insert_iff empty_iff, of _ "cfg_extra c"]
  have s: "dec_str (config_MarshalJSON c) k \<noteq> None" if "k \<in> set stringFields" for k
    using that unfolding config_MarshalJSON_def known_json_def append_assoc dec_str_def stringFields_def list.set
    by (elim insertE) (simp_all add: aget_put ex)
  have i: "dec_int (config_MarshalJSON c) k \<noteq> None" if "k \<in> set intFields" for k
    using that unfolding config_MarshalJSON_def known_json_def append_assoc dec_int_def intFields_def list.set
    by (elim insertE) (simp_all add: aget_put ex)
  have "aget (config_MarshalJSON c) ''policy'' = policy_json (cfg_Policy c)"
    unfolding config_MarshalJSON_def known_json_def append_assoc by (simp add: aget_put)
  then have "dec_policy (aget (config_MarshalJSON c) ''policy'') \<noteq> None"
    by (simp add: policy_json_def dec_policy_def as_object_def dec_int_def dec_str_def dec_bool_def aget_def)
  with s i have "fields_typed (config_MarshalJSON c)" by (simp add: fields_typed_def list_all_iff)
  moreover have "get_str (config_MarshalJSON c) ''receiver_token'' = json_string (cfg_ReceiverToken c)"
    unfolding config_MarshalJSON_def known_json_def append_assoc get_str_def dec_str_def
    by (simp add: aget_put ex json_string_valid)
  ultimately show ?thesis by (simp add: config_UnmarshalJSON_def)
qed

text \<open>A state whose file holds a configuration with the token \<open>t\<close>.\<close>

lemma file_token_saved:
  assumes "dk_file (cs_disk st) = Some (Object (config_MarshalJSON c), p)" "valid_utf8 (cfg_ReceiverToken c)"
  shows "file_token st = Some (cfg_ReceiverToken c)"
  using assms marshal_token [of c] by (auto simp: file_token_def json_string_valid)

lemma inner_save_token:
  assumes "inner_save E cfg st = (e, st')" "valid_utf8 (cfg_ReceiverToken cfg)"
  shows "e = None \<Longrightarrow> file_token st' = Some (cfg_ReceiverToken cfg)" and "e \<noteq> None \<Longrightarrow> file_token st' = file_token st"
proof -
  obtain d where d: "FileStore_Save (ce_save E) cfg (cs_disk st) = (e, d)" "st' = st\<lparr>cs_disk := d\<rparr>"
    using assms(1) by (auto simp: inner_save_def split: prod.splits)
  show "e = None \<Longrightarrow> file_token st' = Some (cfg_ReceiverToken cfg)"
    using FileStore_Save_cases [OF d(1)] file_token_saved [of st' cfg filePerm] assms(2) d(2) by auto
  show "e \<noteq> None \<Longrightarrow> file_token st' = file_token st"
    using FileStore_Save_cases [OF d(1)] d(2) by (auto simp: file_token_def)
qed

lemma file_token_frame [simp]:
  "file_token (st\<lparr>cs_status := x\<rparr>) = file_token st" "file_token (st\<lparr>cs_keys := k\<rparr>) = file_token st"
  by (simp_all add: file_token_def)

lemma saveScrubbed_token:
  assumes "saveScrubbed E cfg st = (e, cfg', st')" "valid_utf8 (cfg_ReceiverToken cfg)"
  shows "cfg_ReceiverToken cfg' = cfg_ReceiverToken cfg"
    and "e = None \<Longrightarrow> file_token st' = Some (cfg_ReceiverToken cfg)" and "e \<noteq> None \<Longrightarrow> file_token st' = file_token st"
proof -
  have v: "valid_utf8 (cfg_ReceiverToken (scrubbed cfg))" using assms(2) by (simp add: scrubbed_def)
  obtain e1 st1 where i: "inner_save E (scrubbed cfg) st = (e1, st1)" by fastforce
  note t = inner_save_token [OF i v]
  show "cfg_ReceiverToken cfg' = cfg_ReceiverToken cfg"
    "e = None \<Longrightarrow> file_token st' = Some (cfg_ReceiverToken cfg)" "e \<noteq> None \<Longrightarrow> file_token st' = file_token st"
    using assms(1) t unfolding saveScrubbed_def i by (auto simp: scrubbed_def split: option.splits)
qed

lemma writeSecrets_disk: "writeSecrets E cfg st = (ok, st') \<Longrightarrow> cs_disk st' = cs_disk st"
  by (auto simp: writeSecrets_def writeVerified_def deletePending_def Let_def
      split: if_splits prod.splits bool.splits option.splits)

lemma writeSecrets_token: "writeSecrets E cfg st = (ok, st') \<Longrightarrow> file_token st' = file_token st"
  using writeSecrets_disk by (auto simp: file_token_def)

lemma Store_Save_token:
  assumes "Store_Save E cfg st = (None, cfg', st')" "valid_utf8 (cfg_ReceiverToken cfg)"
  shows "file_token st' = Some (cfg_ReceiverToken cfg)"
proof -
  have p: "save_plain E status cfg st0 = (None, cfg', st') \<Longrightarrow> file_token st' = Some (cfg_ReceiverToken cfg)" for status st0
    using inner_save_token(1) [of E "cfg\<lparr>cfg_CredentialBackend := []\<rparr>" "st0\<lparr>cs_status := status\<rparr>" None st'] assms(2)
    by (auto simp: save_plain_def Let_def split: prod.splits)
  show ?thesis
    using assms(1) p saveScrubbed_token(2) [OF _ assms(2)]
    by (auto simp: Store_Save_def split: if_splits prod.splits bool.splits)
qed

text \<open>A load that succeeds returns the token of the file and leaves it there.\<close>

lemma FileStore_Load_token:
  assumes "FileStore_Load F (cs_disk st) = (Inr c, d)" "\<And>t. file_token st = Some t \<Longrightarrow> valid_utf8 t"
  shows "file_token st = Some (cfg_ReceiverToken c) \<and> file_token (st\<lparr>cs_disk := d\<rparr>) = Some (cfg_ReceiverToken c)"
  using assms(1)
proof (cases rule: FileStore_Load_Inr)
  case (1 m p c0)
  have t: "cfg_ReceiverToken c = cfg_ReceiverToken c0" using 1(3) by simp
  have f: "file_token st = Some (cfg_ReceiverToken c)" using 1(1,2) t by (simp add: file_token_def)
  have v: "valid_utf8 (cfg_ReceiverToken c)" using assms(2) [OF f] .
  have "file_token (st\<lparr>cs_disk := d\<rparr>) = Some (cfg_ReceiverToken c)"
  proof (cases "cfg_APIURL c0 = legacyDefaultAPIURL")
    case True
    then show ?thesis using 1(4) file_token_saved [of "st\<lparr>cs_disk := d\<rparr>" c filePerm] v by simp
  next
    case False
    then show ?thesis using 1(2,4) t by (simp add: file_token_def)
  qed
  with f show ?thesis by simp
qed

lemma migrateOnLoad_token:
  assumes "migrateOnLoad E cfg st = (cfg', st')" "file_token st = Some (cfg_ReceiverToken cfg)" "valid_utf8 (cfg_ReceiverToken cfg)"
  shows "cfg_ReceiverToken cfg' = cfg_ReceiverToken cfg \<and> file_token st' = Some (cfg_ReceiverToken cfg)"
proof -
  obtain ok st1 where w: "writeSecrets E cfg st = (ok, st1)" by fastforce
  obtain e cfg2 st2 where s: "saveScrubbed E cfg st1 = (e, cfg2, st2)" by (metis prod_cases3)
  show ?thesis
    using assms(1,2) saveScrubbed_token [OF s assms(3)] writeSecrets_token [OF w]
    by (cases e; cases ok) (auto simp: migrateOnLoad_def w s split: if_splits)
qed

lemma hydratePending_token:
  assumes "hydratePending E cfg st = (cfg', st')" "file_token st = Some (cfg_ReceiverToken cfg)" "valid_utf8 (cfg_ReceiverToken cfg)"
  shows "cfg_ReceiverToken cfg' = cfg_ReceiverToken cfg \<and> file_token st' = Some (cfg_ReceiverToken cfg)"
proof -
  let ?c = "cfg\<lparr>cfg_PendingKey := [], cfg_PendingKeyExpires := [], cfg_OldKeyValidUntil := [], cfg_PendingKeyID := 0\<rparr>"
  obtain e cfg2 st2 where s: "saveScrubbed E ?c st = (e, cfg2, st2)" by (metis prod_cases3)
  have v: "valid_utf8 (cfg_ReceiverToken ?c)" using assms(3) by simp
  show ?thesis
    using assms(1,2) saveScrubbed_token [OF s v]
    by (cases e) (auto simp: hydratePending_def s Let_def split: option.splits)
qed

lemma Store_Load_token:
  assumes "Store_Load E st = (r, st')" "\<And>t. file_token st = Some t \<Longrightarrow> valid_utf8 t"
  shows "r = Inr c \<Longrightarrow> file_token st = Some (cfg_ReceiverToken c) \<and> file_token st' = Some (cfg_ReceiverToken c)"
proof -
  assume r: "r = Inr c"
  obtain c0 d where l: "FileStore_Load (ce_load E) (cs_disk st) = (Inr c0, d)"
    using assms(1) r by (cases "FileStore_Load (ce_load E) (cs_disk st)") (auto simp: Store_Load_def split: sum.splits)
  note f = FileStore_Load_token [OF l assms(2)]
  have v: "valid_utf8 (cfg_ReceiverToken c0)" using assms(2) f by blast
  let ?st = "st\<lparr>cs_disk := d\<rparr>"
  show ?thesis
  proof (cases "cfg_CredentialBackend c0 = BackendKeychain")
    case True
    then have h: "hydrate E c0 ?st = (Inr c, st')" using assms(1) r l by (simp add: Store_Load_def)
    obtain key where key: "backend_get E AccountActiveKey ?st = Some (Some key)"
      using h by (auto simp: hydrate_def split: option.splits)
    let ?c = "c0\<lparr>cfg_CollectorKey := key\<rparr>"
    obtain c2 st2 where p: "hydratePending E ?c ?st = (c2, st2)" by fastforce
    show ?thesis
      using h f hydratePending_token [OF p] v by (auto simp: hydrate_def key Let_def p split: if_splits)
  next
    case False
    obtain c2 st2 where m: "migrateOnLoad E c0 ?st = (c2, st2)" by fastforce
    show ?thesis
      using assms(1) r l False f migrateOnLoad_token [OF m _ v] by (simp add: Store_Load_def m)
  qed
qed

lemma ascii_valid: "list_all (\<lambda>c. byte c < 128) s \<Longrightarrow> valid_utf8 s"
  using rune_chunks_ascii_append [of s "[]"] by (auto simp: valid_utf8_def bad_chunk_def rune_error_def list_all_iff)

lemma plain_valid: "plain_token t \<Longrightarrow> valid_utf8 t"
  unfolding plain_token_def by (rule ascii_valid, erule list.pred_mono_strong) simp

lemma hex_char_plain: "n < 16 \<Longrightarrow> 32 < byte (hex_char n) \<and> byte (hex_char n) < 127 \<and> hex_char n \<noteq> CHR 0x22"
proof -
  assume n: "n < 16"
  then have b: "byte (hex_char n) = (if n < 10 then 48 + n else 87 + n)"
    by (simp add: hex_char_def byte_def)
  have "hex_char n \<noteq> CHR 0x22"
  proof
    assume "hex_char n = CHR 0x22"
    then have "byte (hex_char n) = 34" by (simp add: byte_def)
    with b show False by (simp split: if_splits)
  qed
  with b n show ?thesis by simp
qed

lemma byte_bound: "byte c < 256"
  by (simp add: byte_def)

lemma list_all_concat: "(\<And>c. list_all P (f c)) \<Longrightarrow> list_all P (concat (map f s))"
  by (induction s) auto

lemma hex_plain: "plain_token (hex_encode s)"
  unfolding plain_token_def hex_encode_def
proof (rule list_all_concat)
  fix c
  have "byte c div 16 < 16" "byte c mod 16 < 16" using byte_bound [of c] by auto
  from this [THEN hex_char_plain]
  show "list_all (\<lambda>x. 32 < byte x \<and> byte x < 127 \<and> x \<noteq> CHR 0x22) [hex_char (byte c div 16), hex_char (byte c mod 16)]"
    by (simp only: list.pred_inject simp_thms)
qed

lemma EnsureReceiverToken_spec:
  assumes "EnsureReceiverToken E rnd st = (Inr t, st')"
    and tok: "\<And>t. file_token st = Some t \<Longrightarrow> plain_token t" and rnd: "\<And>b. rnd = Some b \<Longrightarrow> length b = 32"
  shows "plain_token t \<and> t \<noteq> [] \<and> file_token st' = Some t"
proof -
  have fresh: "plain_token t \<and> t \<noteq> [] \<and> file_token st' = Some t"
    if n: "new_token E rnd cfg st0 = (Inr t, st')" "cfg_ReceiverToken cfg = []" for cfg st0
  proof -
    obtain b where b: "rnd = Some b" "generateToken rnd = Inr t" and s: "\<exists>c. Store_Save E (cfg\<lparr>cfg_ReceiverToken := t\<rparr>) st0 = (None, c, st')"
      using n by (auto simp: new_token_def generateToken_def split: option.splits prod.splits sum.splits)
    then have t: "t = hex_encode b" using rnd by (simp add: generateToken_def tokenBytes_def)
    have "t \<noteq> []" using rnd [OF b(1)] t by (cases b) (auto simp: hex_encode_def)
    with t s Store_Save_token plain_valid [OF hex_plain [of b]] hex_plain [of b] show ?thesis by fastforce
  qed
  obtain r st0 where l: "Store_Load E st = (r, st0)" by fastforce
  show ?thesis
  proof (cases r)
    case (Inl e)
    with assms(1) l have "new_token E rnd zero_config st0 = (Inr t, st')"
      by (auto simp: EnsureReceiverToken_def split: if_splits)
    then show ?thesis by (rule fresh) (simp add: zero_config_def)
  next
    case (Inr cfg)
    have n: "new_token E rnd cfg st0 = (Inr t, st')" using assms(1) l Inr by (simp add: EnsureReceiverToken_def)
    have f: "file_token st = Some (cfg_ReceiverToken cfg)" "file_token st0 = Some (cfg_ReceiverToken cfg)"
      using Store_Load_token [OF l _ Inr] tok plain_valid by blast+
    show ?thesis
    proof (cases "cfg_ReceiverToken cfg = []")
      case True
      then show ?thesis by (rule fresh [OF n])
    next
      case False
      then have "t = cfg_ReceiverToken cfg" "st' = st0" using n by (simp_all add: new_token_def)
      with False f tok show ?thesis by simp
    qed
  qed
qed

lemma EnsureReceiverToken_again:
  assumes "file_token st = Some t" "t \<noteq> []" "valid_utf8 t" "fst (Store_Load E st) = Inr c"
  shows "\<exists>st'. EnsureReceiverToken E rnd st = (Inr t, st')"
proof -
  obtain st0 where l: "Store_Load E st = (Inr c, st0)" using assms(4) by (metis prod.collapse)
  have "cfg_ReceiverToken c = t" using Store_Load_token [OF l _ refl] assms(1,3) by auto
  with l assms(2) show ?thesis by (simp add: EnsureReceiverToken_def new_token_def)
qed

text \<open>The receiver token is stable. What a successful \<open>EnsureReceiverToken\<close> returns is a non-empty
  text of printable characters without a quote or a space, and it is in the config file: every later call
  that can load the configuration returns it again, whatever the environment and the random bytes.\<close>

theorem EnsureReceiverToken_stable:
  assumes "EnsureReceiverToken E rnd st = (Inr t, st1)" "fst (Store_Load E' st1) = Inr c"
    and "\<And>t. file_token st = Some t \<Longrightarrow> plain_token t" "\<And>b. rnd = Some b \<Longrightarrow> length b = 32"
  shows "plain_token t \<and> t \<noteq> [] \<and> (\<exists>st2. EnsureReceiverToken E' rnd' st1 = (Inr t, st2))"
proof -
  have s: "plain_token t" "t \<noteq> []" "file_token st1 = Some t"
    using EnsureReceiverToken_spec [OF assms(1,3,4)] by blast+
  with EnsureReceiverToken_again [OF s(3,2) plain_valid [OF s(1)] assms(2)] show ?thesis by blast
qed

subsection \<open>Witnesses\<close>

definition token_config :: config where
  "token_config = sample_config\<lparr>cfg_ReceiverToken := ''abc''\<rparr>"

definition file_cred :: cred_env where "file_cred = good_cred\<lparr>ce_keychain := False\<rparr>"

definition token_state :: cred_state where
  "token_state = \<lparr>cs_disk = \<lparr>dk_file = Some (Object (config_MarshalJSON token_config), 384), dk_dir = Some 448\<rparr>,
     cs_keys = (\<lambda>_. None), cs_status = noKeyStatus\<rparr>"

lemma token_config_ok: "config_ok token_config"
  by (simp add: token_config_def config_ok_def config_strings_def sample_config_def zero_policy_def not_known_def
      knownFields_def string_eval)

lemma token_config_fields [simp]:
  "cfg_APIURL token_config = ''u''" "cfg_CredentialBackend token_config = []" "cfg_ReceiverToken token_config = ''abc''"
  by (simp_all add: token_config_def sample_config_def)

lemma token_loaded:
  assumes "dk_file (cs_disk st) = Some (Object (config_MarshalJSON token_config), p)"
  shows "\<exists>st'. Store_Load file_cred st = (Inr token_config, st')
    \<and> dk_file (cs_disk st') = Some (Object (config_MarshalJSON token_config), filePerm) \<and> cs_status st' = forcedFileStatus file_cred"
proof -
  have "legacyDefaultAPIURL \<noteq> ''u''" "BackendKeychain \<noteq> []" by (simp_all add: legacyDefaultAPIURL_def BackendKeychain_def)
  then show ?thesis
    using assms config_roundtrip [OF token_config_ok]
    by (simp add: Store_Load_def FileStore_Load_def file_cred_def good_cred_def migrateOnLoad_def backendName_def Let_def)
qed

lemma token_ensured:
  "\<exists>st'. EnsureReceiverToken file_cred rnd token_state = (Inr ''abc'', st')
    \<and> dk_file (cs_disk st') = Some (Object (config_MarshalJSON token_config), filePerm)"
  using token_loaded [of token_state] by (auto simp: token_state_def EnsureReceiverToken_def new_token_def)

lemma EnsureReceiverToken_stable_witness:
  "\<exists>st1 st2. EnsureReceiverToken file_cred None token_state = (Inr ''abc'', st1)
     \<and> EnsureReceiverToken file_cred None st1 = (Inr ''abc'', st2)"
proof -
  obtain st1 where 1: "EnsureReceiverToken file_cred None token_state = (Inr ''abc'', st1)"
    "dk_file (cs_disk st1) = Some (Object (config_MarshalJSON token_config), filePerm)" using token_ensured by blast
  obtain st2 where "Store_Load file_cred st1 = (Inr token_config, st2)" using token_loaded [OF 1(2)] by blast
  then have l: "fst (Store_Load file_cred st1) = Inr token_config" by simp
  have "file_token token_state = Some ''abc''"
    using config_roundtrip [OF token_config_ok] by (simp add: file_token_def token_state_def)
  then have "\<exists>st2. EnsureReceiverToken file_cred None st1 = (Inr ''abc'', st2)"
    using EnsureReceiverToken_stable [OF 1(1) l, of None] sample_toml_ok(2) by simp
  with 1(1) show ?thesis by blast
qed

definition sample_cli :: cli_env where
  "sample_cli = \<lparr>ci_setup = sample_setup, ci_open = True, ci_token = file_cred, ci_port = file_cred, ci_rand = None,
     ci_answer = None, ci_service = None\<rparr>"

definition sample_flags :: setup_flags where
  "sample_flags = \<lparr>sf_port = 8765, sf_portSet = True, sf_check = False, sf_all = False, sf_claude = True,
     sf_codex = False, sf_yes = True\<rparr>"

lemma sample_flags_fields [simp]:
  "sf_port sample_flags = 8765" "sf_portSet sample_flags" "\<not> sf_check sample_flags" "sf_yes sample_flags"
  "selectAgents sample_flags a b = (True, False)"
  by (simp_all add: sample_flags_def selectAgents_def)

lemma sample_run: "\<exists>e out s'. runSetup sample_cli sample_flags \<lparr>cli_files = Map.empty, cli_creds = token_state\<rparr> = (e, out, s')
  \<and> cli_files s' \<noteq> Map.empty"
proof -
  obtain st' where t: "EnsureReceiverToken file_cred None token_state = (Inr ''abc'', st')" using token_ensured by blast
  have d: "\<exists>b dir. DetectClaude sample_setup = Inr (b, dir)" "\<exists>b dir. DetectCodex sample_setup = Inr (b, dir)"
    by (auto simp add: DetectClaude_def DetectCodex_def detect_def)
  then obtain x where r: "resolveTargets sample_setup sample_flags = Inr x" "tg_claude x" "\<not> tg_codex x"
    by (auto simp: resolveTargets_def)
  obtain p fs' where p: "PlanClaude sample_setup 8765 ''abc'' Map.empty = Inr p"
    "ClaudePlan_Apply sample_setup p Map.empty = (Inr [], fs')" "\<not> ClaudePlan_Empty p"
    by (simp add: PlanClaude_def loadClaudeSettings_def read_file_def Let_def ClaudePlan_Apply_def ClaudePlan_Empty_def
      backupFile_def install_def write_file_def merged_env_def claudeTarget_def)
  from ClaudePlan_written [OF p(1,2)] have "fs' \<noteq> Map.empty" by auto
  moreover have "gatherPlans sample_cli sample_flags \<lparr>cli_files = Map.empty, cli_creds = token_state\<rparr>
      = (Inr [Claude_Plan p], [reportDetection ''Claude Code'' (tg_claudeDir x) (tg_detClaude x) (tg_claude x),
          reportDetection ''Codex'' (tg_codexDir x) (tg_detCodex x) (tg_codex x)],
         \<lparr>cli_files = Map.empty, cli_creds = st'\<rparr>)"
    by (simp add: gatherPlans_def sample_cli_def r t p(1) resolvePort_def buildPlans_def Let_def)
  ultimately show ?thesis
    using p by (simp add: runSetup_def printPlan_def applyPlans_def Let_def sample_cli_def)
qed

lemma runSetup_consent_witness:
  "\<exists>plans out1 s1 p. gatherPlans sample_cli sample_flags \<lparr>cli_files = Map.empty, cli_creds = token_state\<rparr> = (Inr plans, out1, s1)
     \<and> p \<in> set plans \<and> \<not> plan_Empty p"
proof -
  obtain e out s' where "runSetup sample_cli sample_flags \<lparr>cli_files = Map.empty, cli_creds = token_state\<rparr> = (e, out, s')"
    "cli_files s' \<noteq> Map.empty" using sample_run by blast
  with runSetup_consent [OF this(1)] show ?thesis by simp
qed

lemma setup_output_public_witness:
  "\<exists>p. PlanClaude sample_setup 8765 ''abc'' Map.empty = Inr p \<and> set (plan_Descriptions (Claude_Plan p)) \<subseteq> public_lines 8765"
proof -
  obtain p where p: "PlanClaude sample_setup 8765 ''abc'' Map.empty = Inr p" using sample_claude_plan by blast
  let ?t = "\<lparr>tg_claude = True, tg_codex = False, tg_detClaude = True, tg_detCodex = False, tg_claudeDir = [], tg_codexDir = []\<rparr>"
  have "buildPlans sample_setup ?t 8765 ''abc'' Map.empty = Inr [Claude_Plan p]" by (simp add: buildPlans_def p)
  from setup_output_public [OF this] p show ?thesis by simp
qed

end
