(* ===== verification/Discovery.thy ===== *)
theory Discovery
  imports Codex_Repo Api_Client
begin

text \<open>
  The inventory of an agent installation (\<open>internal/inventory/discover.go\<close>): the bounded walk of a
  directory tree, the names read from skills, plugins and MCP settings, and the test that lets a
  text leave the machine. The file system, the JSON library and Unicode's letter case are the
  environment. A context is the number of its checks until it is cancelled, if it ever is.
\<close>

type_synonym ctx = "nat option"

definition ctx_done :: "ctx \<Rightarrow> bool" where "ctx_done c \<longleftrightarrow> c = Some 0"

definition ctx_next :: "ctx \<Rightarrow> ctx" where "ctx_next c = map_option (\<lambda>n. n - 1) c"

subsection \<open>The walk\<close>

definition maxWalkDepth :: int where "maxWalkDepth = 7"
definition maxWalkFiles :: nat where "maxWalkFiles = 20000"

text \<open>A tree as \<open>os.Lstat\<close> and \<open>os.ReadDir\<close> show it; the listing of a directory may fail, then
  it is what could be read.\<close>

datatype fnode = Regular | Irregular | Symlink | Directory bool "(string \<times> fnode) list"

definition is_dir :: "fnode \<Rightarrow> bool" where
  "is_dir n = (case n of Directory _ _ \<Rightarrow> True | _ \<Rightarrow> False)"

datatype walk_stop = Skip_Dir | Skip_All | Ctx_Err

definition walkDecision :: "bool \<Rightarrow> bool \<Rightarrow> int \<Rightarrow> nat \<Rightarrow> bool \<times> walk_stop option" where
  "walkDecision isDir isSymlink depth seen =
     (if seen > maxWalkFiles then (True, Some Skip_All)
      else if isDir \<and> depth > maxWalkDepth then (True, Some Skip_Dir)
      else if isSymlink then (if isDir then (True, Some Skip_Dir) else (True, None))
      else (False, None))"

definition path_depth :: "string \<Rightarrow> int" where
  "path_depth p = int (length (filter (\<lambda>c. c = CHR ''/'') (path_clean p)))"

type_synonym 's visitor = "string \<Rightarrow> string \<times> fnode \<Rightarrow> ctx \<times> 's \<Rightarrow> ctx \<times> 's"
type_synonym 's walk_state = "nat \<times> ctx \<times> 's"

text \<open>The callback \<open>walkBounded\<close> hands to \<open>filepath.WalkDir\<close>; \<open>failed\<close> says it is called with an
  error.\<close>

definition walk_fn ::
    "int \<Rightarrow> 's visitor \<Rightarrow> string \<Rightarrow> string \<times> fnode \<Rightarrow> bool \<Rightarrow> 's walk_state \<Rightarrow> walk_stop option \<times> 's walk_state" where
  "walk_fn rootDepth visit path entry failed = (\<lambda>(seen, c, s).
     if ctx_done c then (Some Ctx_Err, (seen, c, s))
     else if failed then (None, (seen, ctx_next c, s))
     else (let seen = seen + 1; depth = path_depth path - rootDepth;
               (skip, decision) = walkDecision (is_dir (snd entry)) (snd entry = Symlink) depth seen
           in if decision \<noteq> None \<or> skip then (decision, (seen, ctx_next c, s))
              else (case visit path entry (ctx_next c, s) of (c, s) \<Rightarrow> (None, (seen, c, s)))))"

text \<open>\<open>filepath.WalkDir\<close> below its root.\<close>

fun walk_dir :: "(string \<Rightarrow> string \<times> fnode \<Rightarrow> bool \<Rightarrow> 'w \<Rightarrow> walk_stop option \<times> 'w)
      \<Rightarrow> string \<Rightarrow> string \<Rightarrow> fnode \<Rightarrow> 'w \<Rightarrow> walk_stop option \<times> 'w"
  and walk_entries :: "(string \<Rightarrow> string \<times> fnode \<Rightarrow> bool \<Rightarrow> 'w \<Rightarrow> walk_stop option \<times> 'w)
      \<Rightarrow> string \<Rightarrow> (string \<times> fnode) list \<Rightarrow> 'w \<Rightarrow> walk_stop option \<times> 'w" where
  "walk_dir F path name (Directory failed entries) w =
     (case F path (name, Directory failed entries) False w of
        (Some e, w) \<Rightarrow> (if e = Skip_Dir then None else Some e, w)
      | (None, w) \<Rightarrow>
          (case (if failed then F path (name, Directory failed entries) True w else (None, w)) of
             (Some e, w) \<Rightarrow> (if e = Skip_Dir then None else Some e, w)
           | (None, w) \<Rightarrow> walk_entries F path entries w))"
| "walk_dir F path name node w = F path (name, node) False w"
| "walk_entries F path [] w = (None, w)"
| "walk_entries F path ((name, node) # es) w =
     (case walk_dir F (path_join [path, name]) name node w of
        (Some e, w) \<Rightarrow> (if e = Skip_Dir then None else Some e, w)
      | (None, w) \<Rightarrow> walk_entries F path es w)"

record inventory_roots =
  rt_Codex :: string
  rt_Claude :: string

record plugin_manifest =
  pm_Name :: string
  pm_Description :: string
  pm_Version :: string

text \<open>\<open>dv_manifest\<close> and \<open>dv_servers\<close> are \<open>json.Unmarshal\<close> into the two types of the source, the keys
  of \<open>mcpServers\<close> in the order of the map; \<open>dv_lower\<close> is \<open>strings.ToLower\<close>, \<open>dv_sort\<close> is
  \<open>sort.Slice\<close> with the order of \<open>dedupe\<close>, which need not be stable.\<close>

record disc_env =
  dv_home :: string
  dv_getenv :: "string \<Rightarrow> string"
  dv_lstat :: "string \<Rightarrow> fnode option"
  dv_regular :: "string \<Rightarrow> bool"
  dv_size :: "string \<Rightarrow> nat option"
  dv_read :: "string \<Rightarrow> string option"
  dv_manifest :: "string \<Rightarrow> plugin_manifest option"
  dv_servers :: "string \<Rightarrow> string list option"
  dv_lower :: "string \<Rightarrow> string"
  dv_sort :: "inventory_item list \<Rightarrow> inventory_item list"

definition walkBounded :: "disc_env \<Rightarrow> string \<Rightarrow> 's visitor \<Rightarrow> ctx \<times> 's \<Rightarrow> ctx \<times> 's" where
  "walkBounded V root visit cs =
     (let F = walk_fn (path_depth root) visit in
      case dv_lstat V root of
        None \<Rightarrow> snd (snd (F root ([], Irregular) True (0, cs)))
      | Some node \<Rightarrow> snd (snd (walk_dir F root (path_base root) node (0, cs))))"

definition countRegularFiles :: "disc_env \<Rightarrow> string \<Rightarrow> nat \<Rightarrow> ctx \<Rightarrow> ctx \<times> nat" where
  "countRegularFiles V root cap c =
     walkBounded V root
       (\<lambda>_ entry (c, n). (c, if snd entry = Regular \<and> n < cap then n + 1 else n)) (c, 0)"

subsection \<open>Which texts may leave\<close>

definition forbidden :: "string list" where
  "forbidden = [''/users/'', ''/home/'', [CHR 0x5C] @ ''users'' @ [CHR 0x5C], [CHR 0x5C] @ ''home'' @ [CHR 0x5C],
     ''~/'', ''~'' @ [CHR 0x5C], ''-----begin '',
     ''api_key'', ''api-key'', ''secret='', ''token='', ''password='', ''authorization:'',
     ''bearer '', ''env:'', ''environment='', ''environment:'', ''config:'', ''config='',
     ''prompt:'', ''system prompt'', ''client_secret'', ''aws_access_key_id'',
     ''aws_secret_access_key'', ''private key'', ''ghp_'', ''sk-proj-'']"

definition hasForbiddenMarker :: "string \<Rightarrow> bool" where
  "hasForbiddenMarker lower = list_ex (contains lower) forbidden"

definition unsafeText :: "string \<Rightarrow> nat \<Rightarrow> bool" where
  "unsafeText val cap \<longleftrightarrow>
     (val = [] \<or> length val > cap \<or> \<not> valid_utf8 val
      \<or> contains_any val [CHR ''/'', CHR 0x5C, CHR 0x00, CHR 0x0D, CHR 0x0A])
     \<or> hasForbiddenMarker (to_lower val)
     \<or> list_ex (\<lambda>c. is_control (fst c)) (rune_chunks val)"

definition safeText :: "string \<Rightarrow> nat \<Rightarrow> string" where
  "safeText val cap =
     (let val = collapse_space val in if unsafeText val cap then [] else val)"

definition inv_item :: "string \<Rightarrow> string \<Rightarrow> string \<Rightarrow> inventory_item" where
  "inv_item kind name source =
     \<lparr>ii_Kind = kind, ii_Name = name, ii_Source = source, ii_Description = None, ii_Version = None,
      ii_ScriptCount = None, ii_ToolCount = None, ii_SchemaTokens = None, ii_Present = Some True\<rparr>"

subsection \<open>Skills and plugins\<close>

definition discoverSkills :: "disc_env \<Rightarrow> string \<Rightarrow> string \<Rightarrow> ctx \<Rightarrow> ctx \<times> inventory_item list" where
  "discoverSkills V root source c =
     walkBounded V root (\<lambda>path entry (c, out).
       if is_dir (snd entry) \<or> \<not> equal_fold (fst entry) ''SKILL.md'' then (c, out)
       else (let name = safeText (path_base (path_dir path)) 160 in
         if name = [] then (c, out)
         else (let found = inv_item ''skill'' name source;
                   (c, n) = countRegularFiles V (path_join [path_dir path, ''scripts'']) 100000 c
               in (c, out @ [if n > 0 then found\<lparr>ii_ScriptCount := Some (of_nat n)\<rparr> else found])))) (c, [])"

definition loadPluginManifest :: "disc_env \<Rightarrow> string \<Rightarrow> plugin_manifest option" where
  "loadPluginManifest V path =
     (case dv_size V path of
        None \<Rightarrow> None
      | Some n \<Rightarrow> if n > 256 * 1024 then None
          else (case dv_read V path of None \<Rightarrow> None | Some data \<Rightarrow> dv_manifest V data))"

definition pluginName :: "string \<Rightarrow> string \<Rightarrow> string" where
  "pluginName path configured =
     (let name = safeText configured 160 in
      if name = [] then
        (let parent = path_dir path;
             parent = (if has_prefix (path_base parent) ''.'' then path_dir parent else parent)
         in safeText (path_base parent) 160)
      else name)"

definition pluginAt :: "disc_env \<Rightarrow> string \<Rightarrow> string \<Rightarrow> inventory_item option" where
  "pluginAt V path source =
     (case loadPluginManifest V path of
        None \<Rightarrow> None
      | Some manifest \<Rightarrow>
          (let name = pluginName path (pm_Name manifest) in
           if name = [] then None
           else (let found = inv_item ''plugin'' name source;
                     description = safeText (pm_Description manifest) 300;
                     version = safeText (pm_Version manifest) 80;
                     found = (if description \<noteq> [] then found\<lparr>ii_Description := Some description\<rparr> else found)
                 in Some (if version \<noteq> [] then found\<lparr>ii_Version := Some version\<rparr> else found))))"

definition discoverPlugins :: "disc_env \<Rightarrow> string \<Rightarrow> string \<Rightarrow> ctx \<Rightarrow> ctx \<times> inventory_item list" where
  "discoverPlugins V root source c =
     walkBounded V root (\<lambda>path entry (c, out).
       if is_dir (snd entry) \<or> \<not> equal_fold (fst entry) ''plugin.json'' then (c, out)
       else (case pluginAt V path source of None \<Rightarrow> (c, out) | Some found \<Rightarrow> (c, out @ [found]))) (c, [])"

subsection \<open>\<open>strconv.Unquote\<close>\<close>

definition utf8_bytes :: "nat \<Rightarrow> string" where
  "utf8_bytes r =
     (if r < 128 then [char_of r]
      else if r < 2048 then [char_of (192 + r div 64), char_of (128 + r mod 64)]
      else if r < 65536 then [char_of (224 + r div 4096), char_of (128 + r div 64 mod 64), char_of (128 + r mod 64)]
      else [char_of (240 + r div 262144), char_of (128 + r div 4096 mod 64), char_of (128 + r div 64 mod 64),
            char_of (128 + r mod 64)])"

definition hex_val :: "char \<Rightarrow> nat option" where
  "hex_val c = (let b = byte c in
     if 48 \<le> b \<and> b \<le> 57 then Some (b - 48) else if 97 \<le> b \<and> b \<le> 102 then Some (b - 87)
     else if 65 \<le> b \<and> b \<le> 70 then Some (b - 55) else None)"

fun digits_in :: "(char \<Rightarrow> nat option) \<Rightarrow> nat \<Rightarrow> nat \<Rightarrow> string \<Rightarrow> nat option" where
  "digits_in digit base v [] = Some v"
| "digits_in digit base v (c # s) =
     (case digit c of None \<Rightarrow> None | Some d \<Rightarrow> digits_in digit base (v * base + d) s)"

definition oct_val :: "char \<Rightarrow> nat option" where
  "oct_val c = (if 48 \<le> byte c \<and> byte c \<le> 55 then Some (byte c - 48) else None)"

definition valid_rune :: "nat \<Rightarrow> bool" where
  "valid_rune r \<longleftrightarrow> r < 55296 \<or> (57343 < r \<and> r \<le> 1114111)"

definition digit_escape :: "(char \<Rightarrow> nat option) \<Rightarrow> nat \<Rightarrow> nat \<Rightarrow> string \<Rightarrow> nat option" where
  "digit_escape digit base n s = (if length s < n then None else digits_in digit base 0 (take n s))"

text \<open>\<open>UnquoteChar\<close>: the bytes a character or an escape stands for, and how many it takes.\<close>

definition unquote_escape :: "char \<Rightarrow> char \<Rightarrow> string \<Rightarrow> (string \<times> nat) option" where
  "unquote_escape q c s =
     (let rune = (\<lambda>n. case digit_escape hex_val 16 n s of
            None \<Rightarrow> None | Some v \<Rightarrow> if valid_rune v then Some (utf8_bytes v, n + 2) else None);
          simple = map_of [(CHR ''a'', 7), (CHR ''b'', 8), (CHR ''f'', 12), (CHR ''n'', 10), (CHR ''r'', 13),
            (CHR ''t'', 9), (CHR ''v'', 11), (CHR 0x5C, 92)] in
      case simple c of
        Some v \<Rightarrow> Some ([char_of (v :: nat)], 2)
      | None \<Rightarrow>
          if c = CHR ''x'' then map_option (\<lambda>v. ([char_of v], 4)) (digit_escape hex_val 16 2 s)
          else if c = CHR ''u'' then rune 4
          else if c = CHR ''U'' then rune 8
          else if oct_val c \<noteq> None then
            (case digit_escape oct_val 8 3 (c # s) of
               None \<Rightarrow> None | Some v \<Rightarrow> if v > 255 then None else Some ([char_of v], 4))
          else if c = CHR 0x27 \<or> c = CHR 0x22 then (if c = q then Some ([c], 2) else None)
          else None)"

definition unquoteChar :: "char \<Rightarrow> string \<Rightarrow> (string \<times> nat) option" where
  "unquoteChar q s =
     (case s of
        [] \<Rightarrow> None
      | c # r \<Rightarrow>
          if c = q then None
          else if byte c \<ge> 128 then
            (let (v, w) = decode_rune s in Some (utf8_bytes v, w))
          else if c \<noteq> CHR 0x5C then Some ([c], 1)
          else (case r of [] \<Rightarrow> None | d # r \<Rightarrow> unquote_escape q d r))"

lemma unquoteChar_width: "unquoteChar q s = Some (b, w) \<Longrightarrow> 0 < w \<and> s \<noteq> []"
  using decode_rune_width [of s]
  by (auto simp: unquoteChar_def unquote_escape_def Let_def split: list.splits if_splits option.splits prod.splits)

function unquote_body :: "char \<Rightarrow> string \<Rightarrow> (string \<times> string) option" where
  "unquote_body q s =
     (if s \<noteq> [] \<and> hd s = q then Some ([], tl s)
      else (case unquoteChar q s of
          None \<Rightarrow> None
        | Some (b, w) \<Rightarrow>
            if hd s = newline then None
            else map_option (\<lambda>(t, rest). (b @ t, rest)) (unquote_body q (drop w s))))"
  by pat_completeness auto
termination
  by (relation "measure (length \<circ> snd)") (auto dest!: unquoteChar_width)

declare unquote_body.simps [simp del]

definition unquote :: "string \<Rightarrow> string option" where
  "unquote s =
     (case s of
        [] \<Rightarrow> None
      | q # r \<Rightarrow>
          if q \<notin> set r then None
          else if q = CHR 0x60 then
            (let body = takeWhile (\<lambda>c. c \<noteq> q) r in
             if length body + 1 < length r then None else Some (filter (\<lambda>c. c \<noteq> CHR 0x0D) body))
          else if q = CHR 0x22 then
            (case unquote_body q r of Some (t, []) \<Rightarrow> Some t | _ \<Rightarrow> None)
          else if q = CHR 0x27 then
            (if r = [q] then Some []
             else (case unquoteChar q r of
                 None \<Rightarrow> None
               | Some (b, w) \<Rightarrow> if hd r \<noteq> newline \<and> drop w r = [q] then Some b else None))
          else None)"

subsection \<open>MCP servers\<close>

text \<open>\<open>bufio.Scanner\<close> with its default buffer, which a line has to fit with its end.\<close>

definition maxTokenSize :: nat where "maxTokenSize = 64 * 1024"

definition config_lines :: "string \<Rightarrow> string list" where
  "config_lines data =
     (let ls = split_by (\<lambda>c. c = newline) data;
          ls = (if last ls = [] then butlast ls else ls)
      in map drop_cr (takeWhile (\<lambda>l. length l < maxTokenSize) ls))"

definition trim_both :: "char \<Rightarrow> string \<Rightarrow> string" where
  "trim_both c s = trim_right (dropWhile (\<lambda>x. x = c) s) c"

definition codex_server :: "string \<Rightarrow> string option" where
  "codex_server text =
     (let line = trim_space text in
      if \<not> has_prefix line ''[mcp_servers.'' then None
      else (let line = trim_suffix (trim_space (takeWhile (\<lambda>c. c \<noteq> CHR ''#'') line)) '']'';
                raw = trim_prefix line ''[mcp_servers.'';
                name = (case unquote raw of Some n \<Rightarrow> n | None \<Rightarrow> trim_both (CHR 0x27) raw);
                name = safeText name 160
            in if name = [] then None else Some name))"

fun scan_codex :: "string list \<Rightarrow> ctx \<Rightarrow> ctx \<times> inventory_item list" where
  "scan_codex [] c = (c, [])"
| "scan_codex (l # ls) c =
     (if ctx_done c then (c, [])
      else (case scan_codex ls (ctx_next c) of
          (c, out) \<Rightarrow> (c, (case codex_server l of None \<Rightarrow> [] | Some n \<Rightarrow> [inv_item ''mcp'' n ''codex'']) @ out)))"

definition discoverCodexMCP :: "disc_env \<Rightarrow> string \<Rightarrow> ctx \<Rightarrow> ctx \<times> inventory_item list" where
  "discoverCodexMCP V path c =
     (case dv_read V path of None \<Rightarrow> (c, []) | Some data \<Rightarrow> scan_codex (config_lines data) c)"

definition discoverClaudeMCP :: "disc_env \<Rightarrow> string \<Rightarrow> ctx \<Rightarrow> ctx \<times> inventory_item list" where
  "discoverClaudeMCP V path c =
     (if ctx_done c then (c, [])
      else (ctx_next c,
        (case dv_size V path of
           None \<Rightarrow> []
         | Some n \<Rightarrow> if n > 4 * 1024 * 1024 then []
             else (case dv_read V path of
                 None \<Rightarrow> []
               | Some data \<Rightarrow>
                   (case dv_servers V data of
                      None \<Rightarrow> []
                    | Some names \<Rightarrow> concat (map (\<lambda>n. let val = safeText n 160 in
                        if val = [] then [] else [inv_item ''mcp'' val ''claude-code'']) names))))))"

subsection \<open>The snapshot\<close>

definition item_key :: "disc_env \<Rightarrow> inventory_item \<Rightarrow> string" where
  "item_key V x = ii_Kind x @ [CHR 0x00] @ ii_Source x @ [CHR 0x00] @ dv_lower V (ii_Name x)"

fun dedupe_loop :: "(inventory_item \<Rightarrow> string) \<Rightarrow> string \<Rightarrow> inventory_item list \<Rightarrow> inventory_item list" where
  "dedupe_loop key prev [] = []"
| "dedupe_loop key prev (entry # items) =
     (if key entry \<noteq> prev then entry # dedupe_loop key (key entry) items
      else dedupe_loop key prev items)"

definition dedupe :: "disc_env \<Rightarrow> inventory_item list \<Rightarrow> inventory_item list" where
  "dedupe V items = dedupe_loop (item_key V) [] (dv_sort V items)"

definition discoverAgent ::
    "disc_env \<Rightarrow> string \<times> string \<times> string \<times> string \<Rightarrow> ctx \<times> inventory_item list \<Rightarrow> ctx \<times> inventory_item list" where
  "discoverAgent V = (\<lambda>(root, source, contextFile, contextName) (c, items).
     if root = [] then (c, items)
     else (let (c, skills) = discoverSkills V (path_join [root, ''skills'']) source c;
               (c, plugins) = discoverPlugins V (path_join [root, ''plugins'']) source c
           in (c, items @ skills @ plugins
                 @ (if dv_regular V (path_join [root, contextFile]) then [inv_item ''context'' contextName source] else []))))"

definition envOr :: "disc_env \<Rightarrow> string \<Rightarrow> string \<Rightarrow> string" where
  "envOr V key fallback = (if dv_getenv V key \<noteq> [] then dv_getenv V key else fallback)"

definition DefaultRoots :: "disc_env \<Rightarrow> inventory_roots" where
  "DefaultRoots V =
     \<lparr>rt_Codex = envOr V ''BURNDOWN_CODEX_DIR'' (path_join [dv_home V, ''.codex'']),
      rt_Claude = envOr V ''BURNDOWN_CLAUDE_DIR'' (path_join [dv_home V, ''.claude''])\<rparr>"

text \<open>\<open>None\<close> when the context is already cancelled; otherwise the items and whether it was cancelled
  on the way.\<close>

definition Discover :: "disc_env \<Rightarrow> inventory_roots \<Rightarrow> ctx \<Rightarrow> (inventory_item list \<times> bool) option" where
  "Discover V roots c =
     (if ctx_done c then None
      else (let (c, items) = fold (discoverAgent V)
                  [(rt_Codex roots, ''codex'', ''AGENTS.md'', ''user instructions''),
                   (rt_Claude roots, ''claude-code'', ''CLAUDE.md'', ''user instructions'')] (ctx_next c, []);
                (c, codex) = discoverCodexMCP V (path_join [rt_Codex roots, ''config.toml'']) c;
                (c, claude) = discoverClaudeMCP V (path_join [path_dir (rt_Claude roots), ''.claude.json'']) c;
                items = dedupe V (items @ codex @ claude)
            in Some (take MaxInventoryItems items, ctx_done c)))"

end
