(* ===== verification/Discovery_Safety.thy ===== *)
theory Discovery_Safety
  imports Discovery "HOL-Library.List_Lexorder" "HOL-Library.Multiset"
begin

text \<open>
  What the inventory promises: a walk is bounded and follows no link, every item that is found is
  safe to display, and the keys of a snapshot depend on what is installed only.
\<close>

subsection \<open>Walks\<close>

lemma walk_inv:
  fixes F :: "string \<Rightarrow> string \<times> fnode \<Rightarrow> bool \<Rightarrow> 'w \<Rightarrow> walk_stop option \<times> 'w"
  shows "(\<And>path e failed w. I w \<Longrightarrow> I (snd (F path e failed w))) \<Longrightarrow> I w \<Longrightarrow> I (snd (walk_dir F path name node w))"
    and "(\<And>path e failed w. I w \<Longrightarrow> I (snd (F path e failed w))) \<Longrightarrow> I w \<Longrightarrow> I (snd (walk_entries F path es w))"
proof (induction F path name node w and F path es w rule: walk_dir_walk_entries.induct)
  case (1 F path name failed entries w)
  obtain r w1 where f: "F path (name, Directory failed entries) False w = (r, w1)" by fastforce
  obtain r2 w2 where g: "(if failed then F path (name, Directory failed entries) True w1 else (None, w1)) = (r2, w2)" by fastforce
  have "I w1" using 1(2) [OF 1(3), of path "(name, Directory failed entries)" False] f by simp
  then have "I w2" using 1(2) [of w1 path "(name, Directory failed entries)" True] g by (auto split: if_splits)
  with \<open>I w1\<close> show ?case using f g 1(1) 1(2) by (auto split: option.splits)
next
  case (4 F path name node es w)
  obtain r w1 where f: "walk_dir F (path_join [path, name]) name node w = (r, w1)" by fastforce
  have "I w1" using 4(1) [OF 4(3,4)] f by simp
  then show ?case using f 4(2) [OF f [symmetric]] 4(3) by (auto split: option.splits)
qed auto

lemma walkBounded_inv:
  assumes step: "\<And>seen c s path entry failed. I seen s \<Longrightarrow>
      case snd (walk_fn (path_depth root) visit path entry failed (seen, c, s)) of (seen', c', s') \<Rightarrow> I seen' s'"
    and start: "I 0 s"
  shows "\<exists>seen. I seen (snd (walkBounded V root visit (c, s)))"
proof -
  let ?I = "\<lambda>w. I (fst w) (snd (snd w))"
  have s: "?I (snd (walk_fn (path_depth root) visit path entry failed w))" if "?I w" for path entry failed w
    using step [of "fst w" "snd (snd w)" path entry failed "fst (snd w)"] that by (auto split: prod.splits)
  have "?I (snd (walk_dir (walk_fn (path_depth root) visit) root (path_base root) node (0, c, s)))" for node
    by (rule walk_inv(1)) (use s start in auto)
  moreover have "?I (snd (walk_fn (path_depth root) visit root ([], Irregular) True (0, c, s)))"
    by (rule s) (use start in simp)
  ultimately show ?thesis
    unfolding walkBounded_def Let_def by (cases "dv_lstat V root") (simp_all, blast+)
qed

text \<open>A visit that keeps a property of what it accumulates.\<close>

lemma walkBounded_keeps:
  assumes "\<And>path entry c s. J s \<Longrightarrow> J (snd (visit path entry (c, s)))" "J s"
  shows "J (snd (walkBounded V root visit (c, s)))"
proof -
  have "\<exists>seen :: nat. J (snd (walkBounded V root visit (c, s)))"
    by (rule walkBounded_inv [where I = "\<lambda>_. J"])
      (use assms in \<open>auto simp: walk_fn_def Let_def split: prod.splits if_splits, metis snd_conv\<close>)
  then show ?thesis by blast
qed

text \<open>C35: the walk is bounded and confined. Whatever the tree looks like, at most 20,000 entries are
  visited, none is a symbolic link, and no visited directory is more than seven levels below the
  root.\<close>

theorem walkBounded_bounds:
  "length (snd (walkBounded V root (\<lambda>path entry (c, log). (c, log @ [(path, entry)])) (c, []))) \<le> 20000
   \<and> list_all (\<lambda>(path, entry). snd entry \<noteq> Symlink \<and> \<not> (is_dir (snd entry) \<and> 7 < path_depth path - path_depth root))
       (snd (walkBounded V root (\<lambda>path entry (c, log). (c, log @ [(path, entry)])) (c, [])))"
proof -
  let ?I = "\<lambda>seen log. length log \<le> min seen maxWalkFiles
    \<and> list_all (\<lambda>(path, entry). snd entry \<noteq> Symlink \<and> \<not> (is_dir (snd entry) \<and> 7 < path_depth path - path_depth root)) log"
  have "\<exists>seen. ?I seen (snd (walkBounded V root (\<lambda>path entry (c, log). (c, log @ [(path, entry)])) (c, [])))"
    by (rule walkBounded_inv)
      (auto simp: walk_fn_def walkDecision_def maxWalkDepth_def Let_def split: if_splits)
  then show ?thesis by (auto simp: maxWalkFiles_def)
qed

lemma countRegularFiles_le: "snd (countRegularFiles V root cap c) \<le> cap"
  unfolding countRegularFiles_def by (rule walkBounded_keeps) auto

subsection \<open>Texts\<close>

definition displayable :: "nat \<Rightarrow> string \<Rightarrow> bool" where
  "displayable cap s \<longleftrightarrow> s \<noteq> [] \<and> length s \<le> cap \<and> valid_utf8 s
     \<and> CHR ''/'' \<notin> set s \<and> CHR 0x5C \<notin> set s
     \<and> list_all (\<lambda>c. \<not> is_control (fst c)) (rune_chunks s)
     \<and> list_all (\<lambda>m. \<not> contains (to_lower s) m) forbidden"

lemma safeText_displayable: "safeText s cap \<noteq> [] \<Longrightarrow> displayable cap (safeText s cap)"
  by (auto simp: safeText_def unsafeText_def displayable_def Let_def list_all_iff list_ex_iff hasForbiddenMarker_def
      contains_any_def split: if_splits)

subsection \<open>Items\<close>

definition item_ok :: "inventory_item \<Rightarrow> bool" where
  "item_ok x \<longleftrightarrow> ii_Kind x \<in> {''skill'', ''plugin'', ''context'', ''mcp''} \<and> ii_Source x \<in> {''codex'', ''claude-code''}
     \<and> displayable 160 (ii_Name x)
     \<and> pred_option (displayable 300) (ii_Description x) \<and> pred_option (displayable 80) (ii_Version x)
     \<and> pred_option (\<lambda>n. 1 \<le> sint n \<and> sint n \<le> 100000) (ii_ScriptCount x)
     \<and> ii_ToolCount x = None \<and> ii_SchemaTokens x = None \<and> ii_Present x = Some True"

lemma inv_item_ok:
  "kind \<in> {''skill'', ''plugin'', ''context'', ''mcp''} \<Longrightarrow> source \<in> {''codex'', ''claude-code''} \<Longrightarrow> displayable 160 name
   \<Longrightarrow> item_ok (inv_item kind name source)"
  by (simp add: item_ok_def inv_item_def)

lemma count_ok: "0 < n \<Longrightarrow> n \<le> 100000 \<Longrightarrow> 1 \<le> sint (of_nat n :: int64) \<and> sint (of_nat n :: int64) \<le> 100000"
  by (subst (1 2) signed_of_nat) (simp add: signed_take_bit_int_eq_self)

lemma skills_ok:
  assumes "source \<in> {''codex'', ''claude-code''}"
  shows "list_all item_ok (snd (discoverSkills V root source c))"
  unfolding discoverSkills_def
proof (rule walkBounded_keeps)
  fix path entry c' out assume out: "list_all item_ok out"
  let ?n = "safeText (path_base (path_dir path)) 160"
  obtain c2 n where n: "countRegularFiles V (path_join [path_dir path, ''scripts'']) 100000 c' = (c2, n)" by fastforce
  have le: "n \<le> 100000" using countRegularFiles_le [of V "path_join [path_dir path, ''scripts'']" 100000 c'] n by simp
  have "?n \<noteq> [] \<Longrightarrow> item_ok (inv_item ''skill'' ?n source)" using inv_item_ok safeText_displayable assms by simp
  then have "?n \<noteq> [] \<Longrightarrow> 0 < n \<Longrightarrow> item_ok (inv_item ''skill'' ?n source\<lparr>ii_ScriptCount := Some (of_nat n)\<rparr>)"
    using count_ok le by (simp add: item_ok_def inv_item_def)
  with \<open>?n \<noteq> [] \<Longrightarrow> item_ok (inv_item ''skill'' ?n source)\<close> out n
  show "list_all item_ok (snd (case (c', out) of (c, out) \<Rightarrow>
       if is_dir (snd entry) \<or> \<not> equal_fold (fst entry) ''SKILL.md'' then (c, out)
       else (let name = safeText (path_base (path_dir path)) 160 in
         if name = [] then (c, out)
         else (let found = inv_item ''skill'' name source;
                   (c, n) = countRegularFiles V (path_join [path_dir path, ''scripts'']) 100000 c
               in (c, out @ [if n > 0 then found\<lparr>ii_ScriptCount := Some (of_nat n)\<rparr> else found])))))"
    by (simp add: Let_def)
qed simp

lemma pluginAt_ok: "source \<in> {''codex'', ''claude-code''} \<Longrightarrow> pluginAt V path source = Some x \<Longrightarrow> item_ok x"
  using safeText_displayable
  by (auto simp: pluginAt_def pluginName_def item_ok_def inv_item_def Let_def split: option.splits if_splits)

lemma plugins_ok:
  assumes "source \<in> {''codex'', ''claude-code''}"
  shows "list_all item_ok (snd (discoverPlugins V root source c))"
  unfolding discoverPlugins_def
  by (rule walkBounded_keeps) (use pluginAt_ok [OF assms] in \<open>auto split: option.splits\<close>)

lemma codex_server_ok: "codex_server l = Some n \<Longrightarrow> displayable 160 n"
  using safeText_displayable by (auto simp: codex_server_def Let_def split: if_splits)

lemma scan_codex_ok: "list_all item_ok (snd (scan_codex ls c))"
  by (induction ls c rule: scan_codex.induct)
    (auto intro!: inv_item_ok codex_server_ok split: prod.splits option.splits)

lemma codex_mcp_ok: "list_all item_ok (snd (discoverCodexMCP V path c))"
  by (simp add: discoverCodexMCP_def scan_codex_ok split: option.splits)

lemma claude_mcp_ok: "list_all item_ok (snd (discoverClaudeMCP V path c))"
  using safeText_displayable
  by (auto simp: discoverClaudeMCP_def Let_def list_all_iff intro!: inv_item_ok split: option.splits if_splits)

lemma instructions_ok: "displayable 160 ''user instructions''"
  by (simp add: displayable_def forbidden_def string_eval)

lemma discoverAgent_ok:
  assumes "source \<in> {''codex'', ''claude-code''}" "list_all item_ok items" "displayable 160 name"
  shows "list_all item_ok (snd (discoverAgent V (root, source, file, name) (c, items)))"
proof -
  obtain c1 sk where s: "discoverSkills V (path_join [root, ''skills'']) source c = (c1, sk)" by fastforce
  obtain c2 pl where p: "discoverPlugins V (path_join [root, ''plugins'']) source c1 = (c2, pl)" by fastforce
  have "list_all item_ok sk" "list_all item_ok pl"
    using skills_ok [OF assms(1), of V "path_join [root, ''skills'']" c] plugins_ok [OF assms(1), of V "path_join [root, ''plugins'']" c1] s p
    by simp_all
  with assms s p show ?thesis by (auto simp: discoverAgent_def intro: inv_item_ok)
qed

subsection \<open>The snapshot\<close>

text \<open>Keys in the order of Go's strings.\<close>

definition sort_rank :: "disc_env \<Rightarrow> inventory_item \<Rightarrow> nat list" where
  "sort_rank V x = map byte (item_key V x)"

text \<open>What \<open>sort.Slice\<close> promises.\<close>

definition sorts :: "disc_env \<Rightarrow> bool" where
  "sorts V \<longleftrightarrow> (\<forall>xs. mset (dv_sort V xs) = mset xs \<and> sorted (map (sort_rank V) (dv_sort V xs)))"

lemma byte_inj: "map byte s = map byte t \<longleftrightarrow> s = t"
  by (simp add: inj_map_eq_map inj_def byte_def of_char_eq_iff)

lemma dedupe_loop_spec:
  assumes "sorted (map (sort_rank V) xs)" "\<forall>x \<in> set xs. map byte prev \<le> sort_rank V x"
  shows "sorted_wrt (<) (map (sort_rank V) (dedupe_loop (item_key V) prev xs))
    \<and> (\<forall>x \<in> set (dedupe_loop (item_key V) prev xs). map byte prev < sort_rank V x)
    \<and> set (dedupe_loop (item_key V) prev xs) \<subseteq> set xs
    \<and> insert (map byte prev) (sort_rank V ` set (dedupe_loop (item_key V) prev xs))
        = insert (map byte prev) (sort_rank V ` set xs)"
  using assms
proof (induction xs arbitrary: prev)
  case (Cons x xs)
  show ?case
  proof (cases "item_key V x = prev")
    case True
    with Cons.IH [of prev] Cons.prems show ?thesis by (auto simp: sort_rank_def)
  next
    case False
    then have "map byte prev < sort_rank V x"
      using Cons.prems(2) by (simp add: sort_rank_def byte_inj order.order_iff_strict)
    moreover have "sorted (map (sort_rank V) xs)" "\<forall>y \<in> set xs. map byte (item_key V x) \<le> sort_rank V y"
      using Cons.prems(1) unfolding sort_rank_def [symmetric] by simp_all
    note Cons.IH [OF this]
    ultimately show ?thesis using False by (auto simp: sort_rank_def dest: order.strict_trans)
  qed
qed simp

lemma dedupe_spec:
  assumes "sorts V"
  shows "sorted_wrt (<) (map (sort_rank V) (dedupe V xs))" "set (dedupe V xs) \<subseteq> set xs"
    "sort_rank V ` set (dedupe V xs) = sort_rank V ` set xs"
proof -
  have m: "mset (dv_sort V xs) = mset xs" "sorted (map (sort_rank V) (dv_sort V xs))"
    using assms by (auto simp: sorts_def)
  then have set: "set (dv_sort V xs) = set xs" by (metis set_mset_mset)
  have n: "sort_rank V x \<noteq> []" for x by (simp add: sort_rank_def item_key_def)
  have d: "sorted_wrt (<) (map (sort_rank V) (dedupe V xs)) \<and> (\<forall>x \<in> set (dedupe V xs). map byte [] < sort_rank V x)
    \<and> set (dedupe V xs) \<subseteq> set (dv_sort V xs)
    \<and> insert (map byte []) (sort_rank V ` set (dedupe V xs)) = insert (map byte []) (sort_rank V ` set (dv_sort V xs))"
    unfolding dedupe_def by (rule dedupe_loop_spec [OF m(2)]) simp
  then show "sorted_wrt (<) (map (sort_rank V) (dedupe V xs))" "set (dedupe V xs) \<subseteq> set xs" using set by simp_all
  have "map byte [] \<notin> sort_rank V ` A" for A using n by (metis imageE list.map_disc_iff)
  with d set show "sort_rank V ` set (dedupe V xs) = sort_rank V ` set xs" by (metis insert_ident)
qed

definition found :: "disc_env \<Rightarrow> inventory_roots \<Rightarrow> ctx \<Rightarrow> ctx \<times> inventory_item list" where
  "found V roots c =
     (let (c, items) = fold (discoverAgent V)
            [(rt_Codex roots, ''codex'', ''AGENTS.md'', ''user instructions''),
             (rt_Claude roots, ''claude-code'', ''CLAUDE.md'', ''user instructions'')] (ctx_next c, []);
          (c, codex) = discoverCodexMCP V (path_join [rt_Codex roots, ''config.toml'']) c;
          (c, claude) = discoverClaudeMCP V (path_join [path_dir (rt_Claude roots), ''.claude.json'']) c
      in (c, items @ codex @ claude))"

lemma Discover_found:
  "Discover V roots c = (if ctx_done c then None
     else (case found V roots c of (c, items) \<Rightarrow> Some (take MaxInventoryItems (dedupe V items), ctx_done c)))"
  by (simp add: Discover_def found_def Let_def split: prod.splits)

lemma found_ok: "list_all item_ok (snd (found V roots c))"
proof -
  obtain c1 i1 where 1: "discoverAgent V (rt_Codex roots, ''codex'', ''AGENTS.md'', ''user instructions'') (ctx_next c, []) = (c1, i1)" by fastforce
  obtain c2 i2 where 2: "discoverAgent V (rt_Claude roots, ''claude-code'', ''CLAUDE.md'', ''user instructions'') (c1, i1) = (c2, i2)" by fastforce
  obtain c3 i3 where 3: "discoverCodexMCP V (path_join [rt_Codex roots, ''config.toml'']) c2 = (c3, i3)" by fastforce
  obtain c4 i4 where 4: "discoverClaudeMCP V (path_join [path_dir (rt_Claude roots), ''.claude.json'']) c3 = (c4, i4)" by fastforce
  have "list_all item_ok i1"
    using discoverAgent_ok [of "''codex''" "[]" "''user instructions''" V "rt_Codex roots"] instructions_ok 1 by (metis insertCI list.pred_inject(1) snd_conv)
  then have "list_all item_ok i2"
    using discoverAgent_ok [of "''claude-code''" i1 "''user instructions''" V "rt_Claude roots"] instructions_ok 2 by (metis insertCI snd_conv)
  moreover have "list_all item_ok i3" using codex_mcp_ok [of V "path_join [rt_Codex roots, ''config.toml'']" c2] 3 by simp
  moreover have "list_all item_ok i4" using claude_mcp_ok [of V "path_join [path_dir (rt_Claude roots), ''.claude.json'']" c3] 4 by simp
  ultimately show ?thesis by (simp add: found_def 1 2 3 4)
qed

text \<open>C31: every snapshot is well formed. Each item is of one of the four kinds and two agents, its texts
  are displayable (bounded valid UTF-8 without a path separator, a control character or, in any letter
  case, a marker of a path or a secret), its script count is between 1 and 100,000, no other field is
  set; there are at most 2,000 items, no two with the same key.\<close>

theorem Discover_typed:
  assumes "sorts V" "Discover V roots c = Some (items, gone)"
  shows "list_all item_ok items \<and> length items \<le> 2000 \<and> distinct (map (item_key V) items)"
proof -
  let ?f = "snd (found V roots c)"
  have items: "items = take MaxInventoryItems (dedupe V ?f)"
    using assms(2) by (auto simp: Discover_found split: if_splits prod.splits)
  then have "set items \<subseteq> set ?f" using dedupe_spec(2) [OF assms(1)] set_take_subset by fastforce
  then have "list_all item_ok items" using found_ok [of V roots c] by (auto simp: list_all_iff)
  moreover have "sorted_wrt (<) (map (sort_rank V) items)"
    using dedupe_spec(1) [OF assms(1), of ?f] items by (simp add: sorted_wrt_take flip: take_map)
  then have "distinct (map (map byte \<circ> item_key V) items)"
    by (simp add: strict_sorted_iff sort_rank_def comp_def cong: map_cong)
  then have "distinct (map (item_key V) items)" by (metis distinct_map list.map_comp)
  ultimately show ?thesis using items by (simp add: MaxInventoryItems_def)
qed

lemma walk_frame: "walkBounded (V\<lparr>dv_servers := f, dv_sort := g\<rparr>) = walkBounded V"
  by (intro ext) (simp add: walkBounded_def)

lemma fields_frame:
  "dv_regular (V\<lparr>dv_servers := f, dv_sort := g\<rparr>) = dv_regular V" "dv_size (V\<lparr>dv_servers := f, dv_sort := g\<rparr>) = dv_size V"
  "dv_read (V\<lparr>dv_servers := f, dv_sort := g\<rparr>) = dv_read V" "dv_manifest (V\<lparr>dv_servers := f, dv_sort := g\<rparr>) = dv_manifest V"
  by simp_all

lemma skills_frame: "discoverSkills (V\<lparr>dv_servers := f, dv_sort := g\<rparr>) = discoverSkills V"
  unfolding discoverSkills_def countRegularFiles_def walk_frame ..

lemma plugins_frame: "discoverPlugins (V\<lparr>dv_servers := f, dv_sort := g\<rparr>) = discoverPlugins V"
  unfolding discoverPlugins_def pluginAt_def loadPluginManifest_def walk_frame fields_frame ..

lemma agent_frame: "discoverAgent (V\<lparr>dv_servers := f, dv_sort := g\<rparr>) = discoverAgent V"
  unfolding discoverAgent_def skills_frame plugins_frame fields_frame ..

lemma codex_frame: "discoverCodexMCP (V\<lparr>dv_servers := f, dv_sort := g\<rparr>) = discoverCodexMCP V"
  by (intro ext) (simp add: discoverCodexMCP_def)

lemma claude_frame:
  assumes "\<And>data. rel_option (\<lambda>a b. set a = set b) (dv_servers V data) (f data)"
  shows "fst (discoverClaudeMCP (V\<lparr>dv_servers := f, dv_sort := g\<rparr>) path c) = fst (discoverClaudeMCP V path c)"
    "set (snd (discoverClaudeMCP (V\<lparr>dv_servers := f, dv_sort := g\<rparr>) path c)) = set (snd (discoverClaudeMCP V path c))"
proof -
  show "fst (discoverClaudeMCP (V\<lparr>dv_servers := f, dv_sort := g\<rparr>) path c) = fst (discoverClaudeMCP V path c)"
    by (simp add: discoverClaudeMCP_def)
  show "set (snd (discoverClaudeMCP (V\<lparr>dv_servers := f, dv_sort := g\<rparr>) path c)) = set (snd (discoverClaudeMCP V path c))"
  proof (cases "dv_read V path")
    case (Some data)
    with assms [of data] show ?thesis
      by (cases "dv_servers V data"; cases "f data"; cases "dv_size V path") (simp_all add: discoverClaudeMCP_def)
  qed (simp add: discoverClaudeMCP_def split: option.split)
qed

lemma found_frame:
  assumes "\<And>data. rel_option (\<lambda>a b. set a = set b) (dv_servers V data) (f data)"
  shows "fst (found (V\<lparr>dv_servers := f, dv_sort := g\<rparr>) roots c) = fst (found V roots c)"
    "set (snd (found (V\<lparr>dv_servers := f, dv_sort := g\<rparr>) roots c)) = set (snd (found V roots c))"
  using claude_frame [OF assms, of g]
  by (auto simp: found_def agent_frame codex_frame Let_def split: prod.splits) (metis fst_conv snd_conv)+

text \<open>The keys of a snapshot are determined by what is installed. Neither the order in which Go
  iterates the map of MCP servers nor the sorting algorithm, which need not be stable, changes the
  list of keys, which is strictly increasing.\<close>

theorem Discover_keys_determined:
  assumes "sorts V" "sorts (V\<lparr>dv_servers := f, dv_sort := g\<rparr>)"
    and "\<And>data. rel_option (\<lambda>a b. set a = set b) (dv_servers V data) (f data)"
  shows "map_option (\<lambda>(items, gone). (map (item_key V) items, gone)) (Discover (V\<lparr>dv_servers := f, dv_sort := g\<rparr>) roots c)
    = map_option (\<lambda>(items, gone). (map (item_key V) items, gone)) (Discover V roots c)"
proof -
  let ?V = "V\<lparr>dv_servers := f, dv_sort := g\<rparr>"
  have key: "item_key ?V = item_key V" "sort_rank ?V = sort_rank V" by (intro ext, simp add: item_key_def sort_rank_def)+
  obtain c1 xs where 1: "found V roots c = (c1, xs)" by fastforce
  with found_frame [OF assms(3), of g roots c] obtain ys where 2: "found ?V roots c = (c1, ys)" "set ys = set xs"
    by (cases "found ?V roots c") auto
  have "map (sort_rank V) (dedupe ?V ys) = map (sort_rank V) (dedupe V xs)"
    using dedupe_spec [OF assms(1), of xs] dedupe_spec [OF assms(2), of ys] 2(2) unfolding key
    by (intro strict_sorted_equal) simp_all
  then have "map (map byte) (map (item_key V) (dedupe ?V ys)) = map (map byte) (map (item_key V) (dedupe V xs))"
    by (simp add: sort_rank_def [abs_def] comp_def)
  moreover have "inj (map byte)" by (simp add: inj_def byte_inj)
  ultimately have "map (item_key V) (dedupe ?V ys) = map (item_key V) (dedupe V xs)"
    by (metis inj_map_eq_map inj_mapI)
  then show ?thesis by (simp add: Discover_found 1 2(1) flip: take_map)
qed

subsection \<open>Witnesses\<close>

definition sample_rank :: "inventory_item \<Rightarrow> nat list" where
  "sample_rank x = map byte (ii_Kind x @ [CHR 0x00] @ ii_Source x @ [CHR 0x00] @ ii_Name x)"

definition sample_disc :: disc_env where
  "sample_disc = \<lparr>dv_home = ''/h'', dv_getenv = (\<lambda>_. []), dv_lstat = (\<lambda>_. None), dv_regular = (\<lambda>_. True),
     dv_size = (\<lambda>_. Some 1), dv_read = (\<lambda>_. Some ''x''), dv_manifest = (\<lambda>_. None), dv_servers = (\<lambda>_. Some [''a'', ''b'']),
     dv_lower = (\<lambda>s. s), dv_sort = sort_key sample_rank\<rparr>"

lemma sample_sorts: "sorts (sample_disc\<lparr>dv_servers := f, dv_sort := sort_key sample_rank\<rparr>)"
proof -
  have "sort_rank (sample_disc\<lparr>dv_servers := f, dv_sort := sort_key sample_rank\<rparr>) = sample_rank"
    by (intro ext) (simp add: sort_rank_def item_key_def sample_disc_def sample_rank_def)
  then show ?thesis by (simp add: sorts_def)
qed

lemma sample_sorts': "sorts sample_disc"
proof -
  have "sample_disc\<lparr>dv_servers := dv_servers sample_disc, dv_sort := sort_key sample_rank\<rparr> = sample_disc"
    by (simp add: sample_disc_def)
  with sample_sorts [of "dv_servers sample_disc"] show ?thesis by simp
qed

lemma Discover_typed_witness:
  "\<exists>items gone. Discover sample_disc (DefaultRoots sample_disc) None = Some (items, gone) \<and> length items \<le> 2000"
proof -
  obtain items gone where d: "Discover sample_disc (DefaultRoots sample_disc) None = Some (items, gone)"
    by (cases "found sample_disc (DefaultRoots sample_disc) None") (simp add: Discover_found ctx_done_def)
  from Discover_typed [OF sample_sorts' d] d show ?thesis by blast
qed

lemma Discover_keys_determined_witness:
  "map_option (\<lambda>(items, gone). (map (item_key sample_disc) items, gone))
      (Discover (sample_disc\<lparr>dv_servers := \<lambda>_. Some [''b'', ''a''], dv_sort := sort_key sample_rank\<rparr>) (DefaultRoots sample_disc) None)
   = map_option (\<lambda>(items, gone). (map (item_key sample_disc) items, gone)) (Discover sample_disc (DefaultRoots sample_disc) None)"
  by (rule Discover_keys_determined [OF sample_sorts' sample_sorts]) (auto simp: sample_disc_def)

end
