(* ===== verification/Login.thy ===== *)
theory Login
  imports Setup_Cmd Uploader
begin

text \<open>
  Pairing the machine (\<open>cmd/burndown-cli/login.go\<close>): the device-code poll, the registration with the
  issued key, and what is persisted. The environment answers the two API clients, the waits, the
  browser and the credential store; a wait takes at least as long as it is asked to.
\<close>

subsection \<open>Helpers\<close>

definition keyPrefixLen :: nat where "keyPrefixLen = 14"
definition devicePollFloor :: int where "devicePollFloor = nanos"

datatype login_error = No_Hostname | Authorize_Failed api_error | Cancelled | Code_Expired | Device_Denied
  | No_Email | Key_Rejected string | Api_Failed api_error | Store_Unopened | Store_Failed store_error
  | Load_Failed store_error | Incomplete_Config

record login_env =
  le_net :: net_env
  le_authed :: net_env
  le_host :: "string option"
  le_browser :: bool
  le_late :: "nat \<Rightarrow> nat"
  le_gone :: "nat \<Rightarrow> bool"
  le_opened :: bool
  le_load :: cred_env
  le_save :: cred_env

definition resolveMachine :: "login_env \<Rightarrow> string \<Rightarrow> login_error + string" where
  "resolveMachine L flag =
     (if flag \<noteq> [] then Inr flag else (case le_host L of None \<Rightarrow> Inl No_Hostname | Some h \<Rightarrow> Inr h))"

definition keyPrefix :: "string \<Rightarrow> string" where
  "keyPrefix key = (if length key \<le> keyPrefixLen then key else take keyPrefixLen key)"

definition stringOrEmpty :: "string option \<Rightarrow> string" where
  "stringOrEmpty s = (case s of None \<Rightarrow> [] | Some s \<Rightarrow> s)"

text \<open>The detail, or else the code, of an authentication error anywhere in the chain.\<close>

fun auth_detail :: "api_error \<Rightarrow> string option" where
  "auth_detail (AuthError code detail) = Some (if detail = [] then code else detail)"
| "auth_detail (RetriesExhausted e) = auth_detail e"
| "auth_detail _ = None"

definition loginError :: "api_error \<Rightarrow> login_error" where
  "loginError e = (case auth_detail e of Some detail \<Rightarrow> Key_Rejected detail | None \<Rightarrow> Api_Failed e)"

subsection \<open>The poll\<close>

text \<open>\<open>time.Duration(seconds) * time.Second\<close> wraps.\<close>

definition seconds :: "int64 \<Rightarrow> int" where
  "seconds s = sint (i64 (sint s * nanos))"

definition clampInterval :: "int64 \<Rightarrow> int" where
  "clampInterval s = (if seconds s < devicePollFloor then devicePollFloor else seconds s)"

definition DeviceCodeSlowDown :: string where "DeviceCodeSlowDown = ''slow_down''"
definition DeviceCodeAccessDenied :: string where "DeviceCodeAccessDenied = ''access_denied''"
definition DeviceCodeExpiredToken :: string where "DeviceCodeExpiredToken = ''expired_token''"

text \<open>\<open>None\<close> is an error the switch does not recognise.\<close>

definition deviceTokenOutcome :: "api_error \<Rightarrow> int \<Rightarrow> (login_error + int) option" where
  "deviceTokenOutcome e interval =
     (case e of
        DeviceTokenError code \<Rightarrow>
          Some (if code = DeviceCodeSlowDown then Inr (sint (i64 (interval + nanos)))
                else if code = DeviceCodeAccessDenied then Inl Device_Denied
                else if code = DeviceCodeExpiredToken then Inl Code_Expired
                else Inr interval)
      | _ \<Rightarrow> None)"

partial_function (option) poll_loop ::
    "login_env \<Rightarrow> string \<Rightarrow> int \<Rightarrow> nat \<Rightarrow> int \<Rightarrow> int \<Rightarrow> client \<Rightarrow> ((login_error + device_token) \<times> client) option" where
  "poll_loop L code deadline k interval now c =
     (let now = now + max 0 interval + int (le_late L k) in
      if le_gone L k then Some (Inl Cancelled, c)
      else if now > deadline then Some (Inl Code_Expired, c)
      else (case DeviceToken (le_net L) code c of
          (Inr dt, c) \<Rightarrow> Some (Inr dt, c)
        | (Inl e, c) \<Rightarrow>
            (case deviceTokenOutcome e interval of
               None \<Rightarrow> poll_loop L code deadline (k + 1) interval now c
             | Some (Inl err) \<Rightarrow> Some (Inl err, c)
             | Some (Inr next) \<Rightarrow> poll_loop L code deadline (k + 1) next now c)))"

definition pollDeviceToken ::
    "login_env \<Rightarrow> device_auth \<Rightarrow> client \<Rightarrow> ((login_error + device_token) \<times> client) option" where
  "pollDeviceToken L da c =
     poll_loop L (da_DeviceCode da) (seconds (da_ExpiresIn da)) 0 (clampInterval (da_Interval da)) 0 c"

subsection \<open>What is persisted\<close>

definition login_config :: "string \<Rightarrow> string \<Rightarrow> string \<Rightarrow> string \<Rightarrow> register_out \<Rightarrow> config \<Rightarrow> config" where
  "login_config apiURL key email machine out cfg =
     cfg\<lparr>cfg_APIURL := apiURL, cfg_CollectorKey := key, cfg_UserEmail := email, cfg_Machine := machine,
         cfg_CollectorID := ro_CollectorID out, cfg_Policy := ro_Policy out,
         cfg_KeyExpiresAt := stringOrEmpty (ro_KeyExpiresAt out)\<rparr>"

definition save_config :: "login_env \<Rightarrow> config \<Rightarrow> cred_state \<Rightarrow> login_error option \<times> cred_state" where
  "save_config L cfg st =
     (case Store_Save (le_save L) cfg st of (e, _, st) \<Rightarrow> (map_option Store_Failed e, st))"

definition persistLogin ::
    "login_env \<Rightarrow> string \<Rightarrow> string \<Rightarrow> string \<Rightarrow> string \<Rightarrow> register_out \<Rightarrow> cred_state \<Rightarrow> login_error option \<times> cred_state" where
  "persistLogin L apiURL key email machine out st =
     (case Store_Load (le_load L) st of
        (Inl e, st) \<Rightarrow>
          if e \<noteq> Not_Found then (Some (Load_Failed e), st)
          else save_config L (login_config apiURL key email machine out zero_config) st
      | (Inr cfg, st) \<Rightarrow> save_config L (login_config apiURL key email machine out cfg) st)"

text \<open>The byte sequence of the ellipsis.\<close>

definition ellipsis :: string where "ellipsis = [CHR 0xE2, CHR 0x80, CHR 0xA6]"

definition finishDeviceLogin ::
    "login_env \<Rightarrow> string \<Rightarrow> device_token \<Rightarrow> string \<Rightarrow> cred_state \<Rightarrow> login_error option \<times> string list \<times> cred_state" where
  "finishDeviceLogin L apiURL dt machine st =
     (if dt_UserEmail dt = [] then (Some No_Email, [], st)
      else (case Register (le_authed L) machine (dt_UserEmail dt) (NewClient (dt_CollectorKey dt)) of
          (Inl e, _) \<Rightarrow> (Some (loginError e), [], st)
        | (Inr out, _) \<Rightarrow>
            if \<not> le_opened L then (Some Store_Unopened, [], st)
            else (case persistLogin L apiURL (dt_CollectorKey dt) (dt_UserEmail dt) machine out st of
                (Some e, st) \<Rightarrow> (Some e, [], st)
              | (None, st) \<Rightarrow>
                  (None, [''Logged in. key '' @ keyPrefix (dt_CollectorKey dt) @ ellipsis @ '' collector_id ''
                     @ itoa (sint (ro_CollectorID out)) @ '' machine '' @ machine], st))))"

definition announceDeviceGrant :: "login_env \<Rightarrow> device_auth \<Rightarrow> string list" where
  "announceDeviceGrant L da =
     [''To finish logging in, visit:'', [], ''    '' @ da_VerificationURI da, [],
      ''And enter code: '' @ da_UserCode da, []]
     @ (if le_browser L then [] else [''(could not open a browser automatically)''])
     @ [''Waiting for approval...'']"

text \<open>The result: error, lines on the two outputs, credential store. \<open>None\<close> when the poll never
  ends.\<close>

definition runLogin ::
    "login_env \<Rightarrow> string \<Rightarrow> string \<Rightarrow> cred_state \<Rightarrow> (login_error option \<times> string list \<times> cred_state) option" where
  "runLogin L flag apiURL st =
     (case resolveMachine L flag of
        Inl e \<Rightarrow> Some (Some e, [], st)
      | Inr machine \<Rightarrow>
          (case DeviceAuthorize (le_net L) machine (NewClient []) of
             (Inl e, _) \<Rightarrow> Some (Some (Authorize_Failed e), [], st)
           | (Inr da, c) \<Rightarrow>
               (case pollDeviceToken L da c of
                  None \<Rightarrow> None
                | Some (Inl e, _) \<Rightarrow> Some (Some e, announceDeviceGrant L da, st)
                | Some (Inr dt, _) \<Rightarrow>
                    (case finishDeviceLogin L apiURL dt machine st of
                       (e, out, st) \<Rightarrow> Some (e, announceDeviceGrant L da @ out, st)))))"

subsection \<open>\<open>register\<close>\<close>

definition requireRegisterable :: "config \<Rightarrow> bool" where
  "requireRegisterable cfg \<longleftrightarrow>
     \<not> (cfg_APIURL cfg = [] \<or> cfg_CollectorKey cfg = [] \<or> cfg_UserEmail cfg = [] \<or> cfg_Machine cfg = [])"

definition runRegister :: "login_env \<Rightarrow> cred_state \<Rightarrow> login_error option \<times> string list \<times> cred_state" where
  "runRegister L st =
     (if \<not> le_opened L then (Some Store_Unopened, [], st)
      else (case Store_Load (le_load L) st of
          (Inl e, st) \<Rightarrow> (Some (Load_Failed e), [], st)
        | (Inr cfg, st) \<Rightarrow>
            if \<not> requireRegisterable cfg then (Some Incomplete_Config, [], st)
            else (case Register (le_authed L) (cfg_Machine cfg) (cfg_UserEmail cfg) (NewClient (cfg_CollectorKey cfg)) of
                (Inl e, _) \<Rightarrow> (Some (loginError e), [], st)
              | (Inr out, _) \<Rightarrow>
                  (case save_config L (cfg\<lparr>cfg_CollectorID := ro_CollectorID out, cfg_Policy := ro_Policy out,
                          cfg_KeyExpiresAt := stringOrEmpty (ro_KeyExpiresAt out)\<rparr>) st of
                     (Some e, st) \<Rightarrow> (Some e, [], st)
                   | (None, st) \<Rightarrow>
                       (None, [''Registered. collector_id '' @ itoa (sint (ro_CollectorID out)) @ '' machine '' @ cfg_Machine cfg], st)))))"

end
