(* ===== verification/Login_Safety.thy ===== *)
theory Login_Safety
  imports Login
begin

text \<open>
  What \<open>login\<close> promises: the poll ends and is bounded, nothing is persisted before every step has
  succeeded, and what is persisted is the issued key with the registration, everything else kept.
\<close>

subsection \<open>The poll\<close>

lemma clampInterval_floor: "nanos \<le> clampInterval s"
  by (simp add: clampInterval_def devicePollFloor_def)

lemma DeviceToken_calls: "DeviceToken N code c = (r, c') \<Longrightarrow> cl_calls c' = cl_calls c + 1"
  by (auto simp: DeviceToken_def Let_def cl_calls_def)

lemma slow_down_fits:
  assumes "nanos \<le> i" "i \<le> 9000000000 * nanos"
  shows "sint (i64 (i + nanos)) = i + nanos"
  using assms by (simp add: i64_in_range_def nanos_def)

lemma poll_loop_bound:
  assumes "nanos \<le> interval" "deadline \<le> 9000000000 * nanos" "0 \<le> now"
  shows "\<exists>r c'. poll_loop L code deadline k interval now c = Some (r, c')
    \<and> int (cl_calls c') \<le> int (cl_calls c) + max 0 ((deadline - now) div nanos)"
  using assms
proof (induction "nat (deadline - now)" arbitrary: k interval now c rule: less_induct)
  case less
  let ?now = "now + max 0 interval + int (le_late L k)"
  have n: "0 < nanos" by (simp add: nanos_def)
  have now: "now + nanos \<le> ?now" "0 \<le> ?now" using less.prems n by auto
  obtain r c1 where d: "DeviceToken (le_net L) code c = (r, c1)" by fastforce
  note calls = DeviceToken_calls [OF d]
  show ?case
  proof (cases "le_gone L k \<or> deadline < ?now")
    case True
    then show ?thesis by (subst poll_loop.simps) (auto simp: Let_def)
  next
    case False
    then have dl: "?now \<le> deadline" by simp
    then have room: "(deadline - ?now) div nanos + 1 \<le> (deadline - now) div nanos" "0 \<le> (deadline - ?now) div nanos"
    proof -
      have "(deadline - ?now) div nanos + 1 = (deadline - ?now + nanos) div nanos" using n div_add_self2 [of nanos "deadline - ?now"] by simp
      also have "\<dots> \<le> (deadline - now) div nanos" using now(1) n by (intro zdiv_mono1) auto
      finally show "(deadline - ?now) div nanos + 1 \<le> (deadline - now) div nanos" .
      show "0 \<le> (deadline - ?now) div nanos" using dl n by (simp add: pos_imp_zdiv_nonneg_iff)
    qed
    have again: "\<exists>r c'. poll_loop L code deadline (k + 1) i ?now c1 = Some (r, c')
      \<and> int (cl_calls c') \<le> int (cl_calls c) + max 0 ((deadline - now) div nanos)" if "nanos \<le> i" for i
    proof -
      have "nat (deadline - ?now) < nat (deadline - now)" using dl now(1) n by simp
      from less.hyps [OF this that less.prems(2) now(2), of "k + 1" c1] show ?thesis using calls room by auto
    qed
    have i: "nanos \<le> sint (i64 (interval + nanos))"
      using slow_down_fits [OF less.prems(1)] dl less.prems n by simp
    show ?thesis
    proof (cases r)
      case (Inr dt)
      with False d calls room show ?thesis by (subst poll_loop.simps) (simp add: Let_def)
    next
      case (Inl e)
      show ?thesis
      proof (cases "deviceTokenOutcome e interval")
        case None
        with False d Inl again [OF less.prems(1)] show ?thesis by (subst poll_loop.simps) (simp add: Let_def)
      next
        case (Some a)
        show ?thesis
        proof (cases a)
          case (Inl err)
          with \<open>r = Inl e\<close> Some False d calls room show ?thesis by (subst poll_loop.simps) (simp add: Let_def)
        next
          case (Inr next_i)
          then have "nanos \<le> next_i"
            using Some i less.prems(1) by (auto simp: deviceTokenOutcome_def split: api_error.splits if_splits)
          from again [OF this] Inr \<open>r = Inl e\<close> Some False d show ?thesis by (subst poll_loop.simps) (simp add: Let_def)
        qed
      qed
    qed
  qed
qed

text \<open>C30: the poll ends. Whatever the server answers, slow-downs and errors included, it returns and
  sends at most one request per second of the grant's life, provided that life is less than 285 years
  and no wait is shorter than asked.\<close>

theorem pollDeviceToken_ends:
  assumes "\<bar>sint (da_ExpiresIn da)\<bar> \<le> 9000000000"
  shows "\<exists>r c'. pollDeviceToken L da c = Some (r, c')
    \<and> int (cl_calls c') \<le> int (cl_calls c) + max 0 (sint (da_ExpiresIn da))"
proof -
  have s: "seconds (da_ExpiresIn da) = sint (da_ExpiresIn da) * nanos"
    unfolding seconds_def using assms by (intro sint_i64) (auto simp: i64_in_range_def nanos_def abs_le_iff)
  have "seconds (da_ExpiresIn da) \<le> 9000000000 * nanos" unfolding s using assms by (simp add: nanos_def)
  from poll_loop_bound [OF clampInterval_floor this, of 0 L "da_DeviceCode da" 0 "da_Interval da" c]
  show ?thesis by (simp add: pollDeviceToken_def s nanos_def)
qed

subsection \<open>What is persisted\<close>

text \<open>C29: nothing is persisted before every step has succeeded. A login that fails with anything but
  an error of the credential store leaves the store as it was: an interrupted or expired grant, a
  refused registration or a server that returns no email writes nothing.\<close>

theorem runLogin_all_or_nothing:
  assumes "runLogin L flag apiURL st = Some (Some e, out, st')" "e \<notin> range Load_Failed \<union> range Store_Failed"
  shows "st' = st"
  using assms
  by (auto simp: runLogin_def finishDeviceLogin_def persistLogin_def save_config_def
      split: sum.splits option.splits prod.splits if_splits)

lemma Store_Save_written:
  assumes "Store_Save E cfg st = (None, cfg', st')"
  shows "dk_file (cs_disk st') = Some (Object (config_MarshalJSON (cfg\<lparr>cfg_CredentialBackend := []\<rparr>)), filePerm)
    \<or> dk_file (cs_disk st') = Some (Object (config_MarshalJSON (scrubbed cfg)), filePerm)
      \<and> cs_keys st' AccountActiveKey = Some (cfg_CollectorKey cfg)"
proof -
  have plain: "dk_file (cs_disk st') = Some (Object (config_MarshalJSON (cfg\<lparr>cfg_CredentialBackend := []\<rparr>)), filePerm)"
    if "save_plain E status cfg st0 = (None, cfg', st')" for status st0
    using that by (auto simp: save_plain_def inner_save_def Let_def split: prod.splits dest: FileStore_Save_cases)
  have keychain: "dk_file (cs_disk st') = Some (Object (config_MarshalJSON (scrubbed cfg)), filePerm)
      \<and> cs_keys st' AccountActiveKey = Some (cfg_CollectorKey cfg)"
    if w: "writeSecrets E cfg st = (True, st0)" and s: "saveScrubbed E cfg st0 = (None, cfg', st')" and k: "ce_keychain E" for st0
  proof -
    have "cs_keys st0 AccountActiveKey = Some (cfg_CollectorKey cfg)"
      using w k by (auto simp: writeSecrets_def writeVerified_def deletePending_def backend_get_def Let_def
          split: if_splits option.splits prod.splits bool.splits)
    with s show ?thesis
      by (auto simp: saveScrubbed_def inner_save_def split: option.splits prod.splits dest: FileStore_Save_cases)
  qed
  show ?thesis
    using assms plain keychain
    by (auto simp: Store_Save_def backendName_def split: if_splits prod.splits bool.splits)
qed

lemma save_config_written:
  assumes "save_config L cfg st = (None, st')"
  shows "dk_file (cs_disk st') = Some (Object (config_MarshalJSON (cfg\<lparr>cfg_CredentialBackend := []\<rparr>)), filePerm)
    \<or> dk_file (cs_disk st') = Some (Object (config_MarshalJSON (scrubbed cfg)), filePerm)
      \<and> cs_keys st' AccountActiveKey = Some (cfg_CollectorKey cfg)"
  using assms Store_Save_written [of "le_save L" cfg st] by (auto simp: save_config_def split: prod.splits)

text \<open>A login that succeeds has got a token from the poll, with an email, and registered the
  machine with that key; what is on disk is the configuration that was there (or the empty one), with
  exactly the seven login fields replaced, and the key is in it, or in the keychain and not in it.\<close>

theorem runLogin_persists:
  assumes "runLogin L flag apiURL st = Some (None, out, st')"
  shows "\<exists>cfg0 dt reg machine.
     (fst (Store_Load (le_load L) st) = Inr cfg0 \<or> fst (Store_Load (le_load L) st) = Inl Not_Found \<and> cfg0 = zero_config)
   \<and> (\<exists>da c c'. pollDeviceToken L da c = Some (Inr dt, c')) \<and> dt_UserEmail dt \<noteq> []
   \<and> fst (Register (le_authed L) machine (dt_UserEmail dt) (NewClient (dt_CollectorKey dt))) = Inr reg
   \<and> (let cfg = login_config apiURL (dt_CollectorKey dt) (dt_UserEmail dt) machine reg cfg0 in
       dk_file (cs_disk st') = Some (Object (config_MarshalJSON (cfg\<lparr>cfg_CredentialBackend := []\<rparr>)), 384)
       \<or> dk_file (cs_disk st') = Some (Object (config_MarshalJSON (scrubbed cfg)), 384)
         \<and> cs_keys st' AccountActiveKey = Some (dt_CollectorKey dt))"
proof -
  from assms obtain machine da c dt c' lines where
    p: "pollDeviceToken L da c = Some (Inr dt, c')" and f: "finishDeviceLogin L apiURL dt machine st = (None, lines, st')"
    by (auto simp: runLogin_def split: sum.splits option.splits prod.splits)
  from f obtain reg c2 where r: "dt_UserEmail dt \<noteq> []"
    "Register (le_authed L) machine (dt_UserEmail dt) (NewClient (dt_CollectorKey dt)) = (Inr reg, c2)"
    "persistLogin L apiURL (dt_CollectorKey dt) (dt_UserEmail dt) machine reg st = (None, st')"
    by (auto simp: finishDeviceLogin_def split: sum.splits option.splits prod.splits if_splits)
  from r(3) obtain cfg0 st0 where l:
    "fst (Store_Load (le_load L) st) = Inr cfg0 \<or> fst (Store_Load (le_load L) st) = Inl Not_Found \<and> cfg0 = zero_config"
    and s: "save_config L (login_config apiURL (dt_CollectorKey dt) (dt_UserEmail dt) machine reg cfg0) st0 = (None, st')"
    by (auto simp: persistLogin_def split: sum.splits prod.splits if_splits)
  have "cfg_CollectorKey (login_config apiURL (dt_CollectorKey dt) (dt_UserEmail dt) machine reg cfg0) = dt_CollectorKey dt"
    by (simp add: login_config_def)
  with save_config_written [OF s] l p r show ?thesis unfolding Let_def filePerm_def by (metis fst_conv)
qed

subsection \<open>A lost key\<close>

text \<open>The configuration says that the key is in the keychain, and the keychain has none.\<close>

definition key_lost :: "cred_env \<Rightarrow> cred_state \<Rightarrow> bool" where
  "key_lost E st \<longleftrightarrow> backend_get E AccountActiveKey st = Some None
     \<and> (\<exists>m p c. dk_file (cs_disk st) = Some (Object m, p) \<and> config_UnmarshalJSON m = Some c
          \<and> cfg_CredentialBackend c = BackendKeychain \<and> cfg_APIURL c \<noteq> legacyDefaultAPIURL)"

text \<open>A login cannot repair a lost key. The error of a load in that state tells the user to log
  in, but persisting a login starts with the same load: it fails, the issued key is dropped, and the
  state is as lost as before.\<close>

theorem persistLogin_key_lost:
  assumes "key_lost (le_load L) st" "\<And>op. \<not> ce_load (le_load L) op"
  shows "\<exists>st'. persistLogin L apiURL key email machine out st = (Some (Load_Failed Backend_Unavailable), st')
    \<and> key_lost (le_load L) st' \<and> cs_keys st' = cs_keys st"
proof -
  from assms(1) obtain m p c where m: "dk_file (cs_disk st) = Some (Object m, p)" "config_UnmarshalJSON m = Some c"
    "cfg_CredentialBackend c = BackendKeychain" "cfg_APIURL c \<noteq> legacyDefaultAPIURL" and b: "backend_get (le_load L) AccountActiveKey st = Some None"
    by (auto simp: key_lost_def)
  obtain d where d: "FileStore_Load (ce_load (le_load L)) (cs_disk st) = (Inr c, d)"
    using FileStore_Load_ok [of "ce_load (le_load L)", OF _ m(1,2)] assms(2) m(4) by auto
  have f: "dk_file d = Some (Object m, filePerm)"
    using d m by (elim FileStore_Load_Inr) (auto split: if_splits)
  have "backend_get (le_load L) AccountActiveKey (st\<lparr>cs_disk := d\<rparr>) = Some None"
    using b by (simp add: backend_get_def split: if_splits)
  then have "Store_Load (le_load L) st = (Inl Backend_Unavailable, st\<lparr>cs_disk := d, cs_status := keychainStatus ''collector_key missing''\<rparr>)"
    using d m(3) by (simp add: Store_Load_def hydrate_def Let_def)
  moreover have "key_lost (le_load L) (st\<lparr>cs_disk := d, cs_status := keychainStatus ''collector_key missing''\<rparr>)"
    using f m(2-4) b by (simp add: key_lost_def backend_get_def split: if_splits)
  ultimately show ?thesis by (simp add: persistLogin_def)
qed

subsection \<open>Witnesses\<close>

definition login_reply :: any where
  "login_reply = AMap [(''expires_in'', AInt64 900), (''collector_key'', AStr ''abd_k''), (''user_email'', AStr ''u'')]"

definition login_cred :: cred_env where "login_cred = good_cred\<lparr>ce_keychain := False\<rparr>"

definition sample_login :: login_env where
  "sample_login = \<lparr>le_net = always (Reply 200 \<lparr>bd_text = [], bd_json = Some login_reply\<rparr>),
     le_authed = always (Reply 200 \<lparr>bd_text = [], bd_json = Some login_reply\<rparr>), le_host = Some ''h'', le_browser = True,
     le_late = (\<lambda>_. 0), le_gone = (\<lambda>_. False), le_opened = True, le_load = login_cred, le_save = login_cred\<rparr>"

definition fresh_state :: cred_state where
  "fresh_state = \<lparr>cs_disk = \<lparr>dk_file = None, dk_dir = None\<rparr>, cs_keys = (\<lambda>_. None), cs_status = noKeyStatus\<rparr>"

lemmas reply_eval = login_reply_def into_def decodeJSON_def handleResponse_def as_object_def dec_int_def dec_str_def
  dec_ptr_def dec_bool_def aget_def

lemma sample_authorize:
  "\<exists>c. DeviceAuthorize (le_net sample_login) m (NewClient []) =
     (Inr \<lparr>da_DeviceCode = [], da_UserCode = [], da_VerificationURI = [], da_VerificationURIComplete = [],
        da_Interval = 0, da_ExpiresIn = 900\<rparr>, c)"
  by (simp add: DeviceAuthorize_def postJSONAuth_def payload_ok_def doWithRetry_def retry_loop.simps doOnce_def
      sample_login_def always_def dec_device_auth_def reply_eval Let_def)

lemma sample_token:
  "\<exists>c'. DeviceToken (le_net sample_login) code c =
     (Inr \<lparr>dt_CollectorKey = ''abd_k'', dt_KeyID = 0, dt_KeyExpiresAt = [], dt_UserEmail = ''u''\<rparr>, c')"
  by (simp add: DeviceToken_def sample_login_def always_def dec_device_token_def reply_eval Let_def)

lemma sample_register:
  "\<exists>out c. Register (le_authed sample_login) m u (NewClient k) = (Inr out, c)"
  by (simp add: Register_def postJSON_def postJSONAuth_def payload_ok_def doWithRetry_def retry_loop.simps doOnce_def
      sample_login_def always_def dec_register_def dec_policy_def reply_eval Let_def)

lemma login_persisted: "\<exists>st'. persistLogin sample_login u k m e out fresh_state = (None, st')"
  by (simp add: persistLogin_def Store_Load_def FileStore_Load_def fresh_state_def sample_login_def login_cred_def
      good_cred_def save_config_def Store_Save_def backendName_def save_plain_def inner_save_def FileStore_Save_def
      writeAtomic_def first_failure_def Let_def)

lemma pollDeviceToken_ends_witness:
  "\<exists>r c'. pollDeviceToken sample_login \<lparr>da_DeviceCode = [], da_UserCode = [], da_VerificationURI = [],
      da_VerificationURIComplete = [], da_Interval = 0, da_ExpiresIn = 900\<rparr> (NewClient []) = Some (r, c') \<and> cl_calls c' \<le> 900"
  using pollDeviceToken_ends [of "\<lparr>da_DeviceCode = [], da_UserCode = [], da_VerificationURI = [],
      da_VerificationURIComplete = [], da_Interval = 0, da_ExpiresIn = 900\<rparr>" sample_login "NewClient []"]
  by (simp add: NewClient_def cl_calls_def)

lemma sample_poll:
  "\<exists>c'. pollDeviceToken sample_login \<lparr>da_DeviceCode = [], da_UserCode = [], da_VerificationURI = [],
      da_VerificationURIComplete = [], da_Interval = 0, da_ExpiresIn = 900\<rparr> c
    = Some (Inr \<lparr>dt_CollectorKey = ''abd_k'', dt_KeyID = 0, dt_KeyExpiresAt = [], dt_UserEmail = ''u''\<rparr>, c')"
proof -
  obtain c' where t: "DeviceToken (le_net sample_login) [] c =
     (Inr \<lparr>dt_CollectorKey = ''abd_k'', dt_KeyID = 0, dt_KeyExpiresAt = [], dt_UserEmail = ''u''\<rparr>, c')" using sample_token by blast
  have l: "le_late sample_login 0 = 0" "\<not> le_gone sample_login 0" by (simp_all add: sample_login_def)
  have s: "seconds 900 = 900 * nanos" "clampInterval 0 = nanos"
    by (simp_all add: seconds_def clampInterval_def devicePollFloor_def nanos_def i64_in_range_def)
  show ?thesis
    by (simp add: pollDeviceToken_def s) (subst poll_loop.simps, simp add: t l nanos_def Let_def)
qed

lemma login_run: "\<exists>out st'. runLogin sample_login [] ''https://a'' fresh_state = Some (None, out, st')"
proof -
  obtain c where a: "DeviceAuthorize (le_net sample_login) ''h'' (NewClient []) =
     (Inr \<lparr>da_DeviceCode = [], da_UserCode = [], da_VerificationURI = [], da_VerificationURIComplete = [],
        da_Interval = 0, da_ExpiresIn = 900\<rparr>, c)" using sample_authorize by blast
  obtain c' where p: "pollDeviceToken sample_login \<lparr>da_DeviceCode = [], da_UserCode = [], da_VerificationURI = [],
      da_VerificationURIComplete = [], da_Interval = 0, da_ExpiresIn = 900\<rparr> c
    = Some (Inr \<lparr>dt_CollectorKey = ''abd_k'', dt_KeyID = 0, dt_KeyExpiresAt = [], dt_UserEmail = ''u''\<rparr>, c')"
    using sample_poll by blast
  obtain reg c2 where r: "Register (le_authed sample_login) ''h'' ''u'' (NewClient ''abd_k'') = (Inr reg, c2)" using sample_register by blast
  obtain st' where s: "persistLogin sample_login ''https://a'' ''abd_k'' ''u'' ''h'' reg fresh_state = (None, st')" using login_persisted by blast
  have "le_host sample_login = Some ''h''" "le_opened sample_login" by (simp_all add: sample_login_def)
  then show ?thesis by (simp add: runLogin_def resolveMachine_def a p finishDeviceLogin_def r s)
qed

lemma runLogin_persists_witness:
  "\<exists>out st' content. runLogin sample_login [] ''https://a'' fresh_state = Some (None, out, st')
     \<and> dk_file (cs_disk st') = Some (content, 384)"
proof -
  obtain out st' where r: "runLogin sample_login [] ''https://a'' fresh_state = Some (None, out, st')" using login_run by blast
  from runLogin_persists [OF r] r show ?thesis unfolding Let_def by blast
qed

lemma runLogin_all_or_nothing_witness:
  "\<exists>out. runLogin (sample_login\<lparr>le_gone := \<lambda>_. True\<rparr>) [] ''https://a'' fresh_state = Some (Some Cancelled, out, fresh_state)"
proof -
  let ?L = "sample_login\<lparr>le_gone := \<lambda>_. True\<rparr>"
  obtain c where a: "DeviceAuthorize (le_net ?L) ''h'' (NewClient []) =
     (Inr \<lparr>da_DeviceCode = [], da_UserCode = [], da_VerificationURI = [], da_VerificationURIComplete = [],
        da_Interval = 0, da_ExpiresIn = 900\<rparr>, c)" using sample_authorize by auto
  have "pollDeviceToken ?L da c = Some (Inl Cancelled, c)" for da
    by (simp add: pollDeviceToken_def) (subst poll_loop.simps, simp add: Let_def)
  moreover have "le_host ?L = Some ''h''" by (simp add: sample_login_def)
  ultimately obtain out st' where r: "runLogin ?L [] ''https://a'' fresh_state = Some (Some Cancelled, out, st')"
    using a by (simp add: runLogin_def resolveMachine_def)
  with runLogin_all_or_nothing [OF r] show ?thesis by auto
qed

definition lost_state :: cred_state where
  "lost_state = \<lparr>cs_disk = \<lparr>dk_file = Some (Object (config_MarshalJSON (sample_config\<lparr>cfg_CredentialBackend := BackendKeychain\<rparr>)), 384),
     dk_dir = Some 448\<rparr>, cs_keys = (\<lambda>_. None), cs_status = noKeyStatus\<rparr>"

lemma lost_state_lost: "key_lost good_cred lost_state"
proof -
  have "config_ok (sample_config\<lparr>cfg_CredentialBackend := BackendKeychain\<rparr>)"
    by (simp add: config_ok_def config_strings_def sample_config_def zero_policy_def not_known_def knownFields_def
        BackendKeychain_def string_eval)
  from config_roundtrip [OF this] show ?thesis
    by (simp add: key_lost_def lost_state_def backend_get_def good_cred_def)
      (simp add: sample_config_def legacyDefaultAPIURL_def)
qed

lemma persistLogin_key_lost_witness:
  "\<exists>st'. persistLogin (sample_login\<lparr>le_load := good_cred\<rparr>) ''u'' ''k'' ''e'' ''m''
       \<lparr>ro_CollectorID = 7, ro_Policy = zero_policy, ro_KeyExpiresAt = None\<rparr> lost_state
     = (Some (Load_Failed Backend_Unavailable), st')"
  using persistLogin_key_lost [of "sample_login\<lparr>le_load := good_cred\<rparr>" lost_state "''u''" "''k''" "''e''" "''m''"]
    lost_state_lost by (auto simp: good_cred_def)

end
