(* ===== verification/Doctor.thy ===== *)
theory Doctor
  imports Setup_Cmd Uploader Receiver
begin

text \<open>
  The health checks (\<open>internal/doctor\<close>) with \<open>internal/version/release.go\<close> and the \<open>doctor\<close>
  command. A probe's answer, the platform's service, the queue database and the texts of errors come
  from the environment; the configuration, the agents' files and the API client are the models of the
  other theories.
\<close>

subsection \<open>Results\<close>

datatype status = Pass | Warn | Fail | Skip

fun status_text :: "status \<Rightarrow> string" where
  "status_text Pass = ''pass''" | "status_text Warn = ''warn''" | "status_text Fail = ''fail''" | "status_text Skip = ''skip''"

fun exitCode :: "status \<Rightarrow> nat" where
  "exitCode Warn = 1" | "exitCode Fail = 2" | "exitCode Pass = 0" | "exitCode Skip = 0"

record check_result =
  rs_Name :: string
  rs_Status :: status
  rs_Detail :: string
  rs_Hint :: string

definition pass :: "string \<Rightarrow> string \<Rightarrow> check_result" where
  "pass name detail = \<lparr>rs_Name = name, rs_Status = Pass, rs_Detail = detail, rs_Hint = []\<rparr>"

definition warn :: "string \<Rightarrow> string \<Rightarrow> string \<Rightarrow> check_result" where
  "warn name detail hint = \<lparr>rs_Name = name, rs_Status = Warn, rs_Detail = detail, rs_Hint = hint\<rparr>"

definition fail :: "string \<Rightarrow> string \<Rightarrow> string \<Rightarrow> check_result" where
  "fail name detail hint = \<lparr>rs_Name = name, rs_Status = Fail, rs_Detail = detail, rs_Hint = hint\<rparr>"

definition Aggregate :: "check_result list \<Rightarrow> status" where
  "Aggregate results =
     foldl (\<lambda>worst r. if exitCode (rs_Status r) > exitCode worst then rs_Status r else worst) Pass results"

definition ExitCode :: "check_result list \<Rightarrow> nat" where
  "ExitCode results =
     foldl (\<lambda>code r. if exitCode (rs_Status r) > code then exitCode (rs_Status r) else code) 0 results"

text \<open>\<open>report.go\<close>: the fields of the JSON document, and the lines of the table.\<close>

definition result_json :: "check_result \<Rightarrow> any" where
  "result_json r = AMap ([(''name'', AStr (rs_Name r)), (''status'', AStr (status_text (rs_Status r))),
     (''detail'', AStr (rs_Detail r))] @ (if rs_Hint r = [] then [] else [(''hint'', AStr (rs_Hint r))]))"

definition WriteJSON :: "check_result list \<Rightarrow> any" where
  "WriteJSON results = AMap [(''status'', AStr (status_text (Aggregate results))),
     (''results'', ASlice (map result_json results))]"

definition pad_right :: "nat \<Rightarrow> string \<Rightarrow> string" where
  "pad_right n s = s @ replicate (n - length s) (CHR '' '')"

definition WriteText :: "check_result list \<Rightarrow> string list" where
  "WriteText results =
     concat (map (\<lambda>r. (''['' @ pad_right 4 (status_text (rs_Status r)) @ ''] '' @ pad_right 10 (rs_Name r) @ '' '' @ rs_Detail r)
        # (if rs_Hint r = [] then [] else [''         fix: '' @ rs_Hint r])) results)
     @ [[], ''overall: '' @ status_text (Aggregate results)]"

subsection \<open>Environment\<close>

datatype cause = By_Store store_error | By_Api api_error | By_Setup setup_error | By_Version | By_Queue string
  | By_Service string

datatype service_state = State_Running | State_Not_Installed | State_Stopped

datatype service_env = Service_Unsupported | Service_Unresolved string | Service_Failing string
  | Service_Status service_state int

text \<open>The queue database when the daemon is down: absent, or opened with a failure, an integrity
  check and a depth.\<close>

datatype queue_env = No_Database | Open_Fails string | Check_Fails string | Depth_Fails string | Intact nat

record doctor_env =
  dx_now :: int
  dx_version :: string
  dx_release :: reply
  dx_healthz :: reply
  dx_health :: net_env
  dx_heartbeat :: net_env
  dx_load :: cred_env
  dx_setup :: setup_env
  dx_service :: service_env
  dx_queue :: queue_env
  dx_text :: "cause \<Rightarrow> string"

record doctor =
  dr_port :: int
  dr_queuePath :: string
  dr_cfgPath :: string
  dr_cfgDir :: string

definition orInt :: "int \<Rightarrow> int \<Rightarrow> int" where "orInt v fallback = (if v = 0 then fallback else v)"

definition orStr :: "string \<Rightarrow> string \<Rightarrow> string" where "orStr v fallback = (if v = [] then fallback else v)"

text \<open>\<open>New\<close> with an empty configuration but for the port; a default path that cannot be found is
  \<open>None\<close>.\<close>

definition New_doctor :: "int \<Rightarrow> bool \<Rightarrow> string option \<Rightarrow> string option \<Rightarrow> string option \<Rightarrow> doctor option" where
  "New_doctor port opened dir storePath queuePath =
     (if \<not> opened then None
      else (case dir of
          None \<Rightarrow> None
        | Some dir \<Rightarrow>
            (case queuePath of
               None \<Rightarrow> None
             | Some qp \<Rightarrow> Some \<lparr>dr_port = orInt port DefaultPort, dr_queuePath = qp,
                 dr_cfgPath = orStr [] (case storePath of Some p \<Rightarrow> p | None \<Rightarrow> dir @ ''/config.json''),
                 dr_cfgDir = orStr [] dir\<rparr>)))"

subsection \<open>Probes\<close>

text \<open>\<open>LatestRelease\<close>: \<open>None\<close> is an error; the body is read up to a mebibyte.\<close>

definition LatestRelease :: "reply \<Rightarrow> string option" where
  "LatestRelease r =
     (case r of
        Net_Error \<Rightarrow> None
      | Reply code b \<Rightarrow>
          if code = 404 then Some []
          else if code \<noteq> 200 then None
          else if length (bd_text b) > 2 ^ 20 then None
          else Option.bind (bd_json b) (\<lambda>v. Option.bind (as_object v) (\<lambda>m. dec_str m ''tag_name'')))"

fun dec_counters :: "gomap \<Rightarrow> (string \<times> int64) list option" where
  "dec_counters [] = Some []"
| "dec_counters ((k, v) # m) =
     (case (case v of AInt64 n \<Rightarrow> Some n | ANil \<Rightarrow> Some 0 | _ \<Rightarrow> None) of
        None \<Rightarrow> None
      | Some n \<Rightarrow> map_option ((#) (k, n)) (dec_counters m))"

text \<open>\<open>probeHealthz\<close>: the counters of a daemon that answers.\<close>

definition probeHealthz :: "reply \<Rightarrow> (string \<times> int64) list option" where
  "probeHealthz r =
     (case r of
        Net_Error \<Rightarrow> None
      | Reply code b \<Rightarrow>
          if code \<noteq> 200 then None
          else Option.bind (bd_json b) (\<lambda>v. Option.bind (as_object v) (\<lambda>m. Option.bind (dec_bool m ''ok'') (\<lambda>_.
                 Option.bind (as_object (aget m ''counters'')) dec_counters))))"

record config_perms =
  pm_file :: "nat option"
  pm_dir :: "nat option"

text \<open>\<open>statConfigPerms\<close>, before the load repairs the mode of the file.\<close>

definition statConfigPerms :: "cred_state \<Rightarrow> config_perms" where
  "statConfigPerms st = \<lparr>pm_file = map_option snd (dk_file (cs_disk st)), pm_dir = dk_dir (cs_disk st)\<rparr>"

subsection \<open>The checks\<close>

definition loginHint :: string where "loginHint = ''run `burndown-cli login`''"

definition credstoreHint :: string where
  "credstoreHint = ''unlock the login keychain (or run `security unlock-keychain`) and retry''"

definition normalizeTag :: "string \<Rightarrow> string" where "normalizeTag s = trim_prefix s ''v''"

definition checkVersion :: "doctor_env \<Rightarrow> check_result" where
  "checkVersion D =
     (let cur = dx_version D in
      case LatestRelease (dx_release D) of
        None \<Rightarrow> pass ''version'' (''running '' @ cur @ ''; could not check latest ('' @ dx_text D By_Version @ '')'')
      | Some latest \<Rightarrow>
          if latest = [] then pass ''version'' (''running '' @ cur @ ''; no published releases yet'')
          else if cur = ''dev'' then pass ''version'' (''development build; latest release is '' @ latest)
          else if normalizeTag cur = normalizeTag latest then pass ''version'' (''up to date ('' @ cur @ '')'')
          else warn ''version'' (''running '' @ cur @ '', latest is '' @ latest) ''download the latest release from GitHub'')"

fun octal :: "nat \<Rightarrow> string" where
  "octal n = (if n < 8 then [char_of (48 + n)] else octal (n div 8) @ [char_of (48 + n mod 8)])"

text \<open>\<open>%04o\<close>.\<close>

definition octal4 :: "nat \<Rightarrow> string" where
  "octal4 n = replicate (4 - length (octal n)) (CHR ''0'') @ octal n"

definition checkConfig :: "doctor_env \<Rightarrow> doctor \<Rightarrow> store_error + config \<Rightarrow> config_perms \<Rightarrow> check_result" where
  "checkConfig D d cfg perms =
     (case cfg of
        Inl e \<Rightarrow> fail ''config'' (''config missing or unreadable: '' @ dx_text D (By_Store e)) loginHint
      | Inr cfg \<Rightarrow>
          if cfg_CollectorKey cfg = [] then fail ''config'' ''no collector key stored'' loginHint
          else if pm_file perms \<noteq> None \<and> pm_file perms \<noteq> Some 384
          then warn ''config'' (''config file mode is '' @ octal4 (the (pm_file perms)) @ '', want 0600'')
                 (''run `chmod 600 '' @ dr_cfgPath d @ ''`'')
          else if pm_dir perms \<noteq> None \<and> pm_dir perms \<noteq> Some 448
          then warn ''config'' (''config dir mode is '' @ octal4 (the (pm_dir perms)) @ '', want 0700'')
                 (''run `chmod 700 '' @ dr_cfgDir d @ ''`'')
          else pass ''config'' ''present, key set, permissions 0600/0700'')"

definition checkCredstore :: "doctor_env \<Rightarrow> store_error + config \<Rightarrow> backend_status \<Rightarrow> check_result" where
  "checkCredstore D cfg status =
     (case cfg of
        Inl e \<Rightarrow> if e = Backend_Unavailable
          then fail ''credstore'' (''credential backend unavailable: '' @ dx_text D (By_Store e)) credstoreHint
          else pass ''credstore'' ''n/a (no config yet)''
      | Inr _ \<Rightarrow>
          if bs_Name status = BackendKeychain then pass ''credstore'' (''OS keychain: '' @ bs_Detail status)
          else if bs_Forced status then pass ''credstore'' (''plaintext file: '' @ bs_Detail status)
          else warn ''credstore'' (''plaintext file fallback: '' @ bs_Detail status) credstoreHint)"

definition checkBackend :: "doctor_env \<Rightarrow> store_error + config \<Rightarrow> check_result" where
  "checkBackend D cfg =
     (let none = fail ''backend'' ''no api_url configured'' loginHint in
      case cfg of
        Inl _ \<Rightarrow> none
      | Inr cfg \<Rightarrow>
          if cfg_APIURL cfg = [] then none
          else (case fst (Health (dx_health D) (NewClient (cfg_CollectorKey cfg))) of
              Inl e \<Rightarrow> fail ''backend'' (''GET /api/health failed: '' @ dx_text D (By_Api e))
                         ''check api_url and network connectivity''
            | Inr _ \<Rightarrow> pass ''backend'' (''reachable at '' @ cfg_APIURL cfg)))"

text \<open>The code, or else the detail, of an authentication error anywhere in the chain.\<close>

fun auth_reason :: "api_error \<Rightarrow> string option" where
  "auth_reason (AuthError code detail) = Some (if code = [] then detail else code)"
| "auth_reason (RetriesExhausted e) = auth_reason e"
| "auth_reason _ = None"

definition checkHeartbeat :: "doctor_env \<Rightarrow> store_error + config \<Rightarrow> check_result" where
  "checkHeartbeat D cfg =
     (let none = fail ''heartbeat'' ''collector not registered'' loginHint in
      case cfg of
        Inl _ \<Rightarrow> none
      | Inr cfg \<Rightarrow>
          if cfg_CollectorKey cfg = [] \<or> cfg_CollectorID cfg = 0 then none
          else (case fst (Heartbeat (dx_heartbeat D) (cfg_CollectorID cfg) None (NewClient (cfg_CollectorKey cfg))) of
              Inr _ \<Rightarrow> pass ''heartbeat'' (''ok (collector_id '' @ itoa (sint (cfg_CollectorID cfg)) @ '')'')
            | Inl e \<Rightarrow>
                (case auth_reason e of
                   Some reason \<Rightarrow> fail ''heartbeat'' (''authentication rejected: '' @ reason) loginHint
                 | None \<Rightarrow> fail ''heartbeat'' (''heartbeat failed: '' @ dx_text D (By_Api e))
                     ''check api_url and network connectivity'')))"

text \<open>\<open>Time.Sub\<close>, behind \<open>time.Until\<close> and \<open>time.Since\<close>, saturates at the range of a duration.\<close>

definition time_sub :: "int \<Rightarrow> int \<Rightarrow> int" where
  "time_sub t u = max (- (2 ^ 63)) (min (2 ^ 63 - 1) (t - u))"

text \<open>\<open>int(time.Until(t).Hours() / 24)\<close>. The division is exact here; Go's is of binary64 numbers and
  may round up the displayed number of days when the expiry is less than a few microseconds below a
  whole number of days and more than 85 days away, which no verdict depends on.\<close>

definition days_until :: "int \<Rightarrow> int \<Rightarrow> int" where
  "days_until now t = go_quot (time_sub t now) (24 * 3600 * nanos)"

definition checkKeyExpiry :: "doctor_env \<Rightarrow> store_error + config \<Rightarrow> check_result" where
  "checkKeyExpiry D cfg =
     (let none = pass ''key_expiry'' ''n/a (no key stored yet)'' in
      case cfg of
        Inl _ \<Rightarrow> none
      | Inr cfg \<Rightarrow>
          if cfg_CollectorKey cfg = [] then none
          else if sint (cfg_RotationFailures cfg) > 0
          then warn ''key_expiry'' (''automatic rotation has failed '' @ itoa (sint (cfg_RotationFailures cfg))
                 @ '' time(s) in a row'') loginHint
          else if cfg_KeyExpiresAt cfg = [] then pass ''key_expiry'' ''key does not expire''
          else (case parse_rfc3339 (cfg_KeyExpiresAt cfg) of
              None \<Rightarrow> pass ''key_expiry'' (''key expiry unparseable: '' @ cfg_KeyExpiresAt cfg)
            | Some expires \<Rightarrow>
                (let days = days_until (dx_now D) expires in
                 if days < 0 then fail ''key_expiry'' ''key has expired'' loginHint
                 else if days < 14 then warn ''key_expiry'' (''key expires in '' @ itoa days @ ''d'') loginHint
                 else pass ''key_expiry'' (''expires in '' @ itoa days @ ''d''))))"

definition checkInventory :: "doctor_env \<Rightarrow> store_error + config \<Rightarrow> check_result" where
  "checkInventory D cfg =
     (case cfg of
        Inl _ \<Rightarrow> pass ''inventory'' ''n/a (no collector config yet)''
      | Inr cfg \<Rightarrow>
          if \<not> pol_InventoryEnabled (cfg_Policy cfg) then pass ''inventory'' ''disabled by organization policy''
          else if cfg_InventoryStatus cfg = ''current''
          then (case parse_rfc3339 (cfg_InventoryLastUploadAt cfg) of
              Some observed \<Rightarrow>
                if time_sub (dx_now D) observed < 24 * 3600 * nanos
                then pass ''inventory'' (''current ('' @ itoa (sint (cfg_InventoryItemCount cfg)) @ '' items; values hidden)'')
                else warn ''inventory'' ''enabled, but the last snapshot is stale''
                       ''keep the collector running and check network connectivity''
            | None \<Rightarrow> warn ''inventory'' ''enabled, but the last snapshot is stale''
                       ''keep the collector running and check network connectivity'')
          else if cfg_InventoryStatus cfg \<in> {''pending'', []}
          then warn ''inventory'' ''enabled, waiting for the first sanitized snapshot''
                 ''keep the collector running through the next heartbeat''
          else warn ''inventory'' ''enabled, but the last snapshot attempt failed''
                 ''check network connectivity; the collector retries automatically'')"

definition checkDaemon :: "bool \<Rightarrow> int \<Rightarrow> check_result" where
  "checkDaemon daemonUp port =
     (if daemonUp then pass ''daemon'' (''listening on 127.0.0.1:'' @ itoa port)
      else fail ''daemon'' ''daemon not responding on /healthz'' ''run `burndown-cli service install` or `burndown-cli serve`'')"

definition checkQueue :: "doctor_env \<Rightarrow> doctor \<Rightarrow> (string \<times> int64) list option \<Rightarrow> check_result" where
  "checkQueue D d hz =
     (let aside = ''move '' @ dr_queuePath d @ '' aside and restart the collector'' in
      case hz of
        Some counters \<Rightarrow> pass ''queue'' (''depth '' @ itoa (sint (or_zero (map_of counters cQueueDepth))) @ '' (reported by daemon)'')
      | None \<Rightarrow>
          (case dx_queue D of
             No_Database \<Rightarrow> pass ''queue'' ''no queue database yet''
           | Open_Fails e \<Rightarrow> fail ''queue'' (''cannot open queue db: '' @ dx_text D (By_Queue e))
               (''file a bug or move '' @ dr_queuePath d @ '' aside and restart'')
           | Check_Fails e \<Rightarrow> fail ''queue'' (''integrity check failed: '' @ dx_text D (By_Queue e)) aside
           | Depth_Fails e \<Rightarrow> fail ''queue'' (''cannot read queue depth: '' @ dx_text D (By_Queue e)) aside
           | Intact depth \<Rightarrow> pass ''queue'' (''intact, depth '' @ itoa (int depth))))"

definition service_text :: "service_state \<Rightarrow> int \<Rightarrow> string" where
  "service_text s pid = (case s of
     State_Running \<Rightarrow> ''running'' @ (if pid > 0 then '' (pid '' @ itoa pid @ '')'' else [])
   | State_Not_Installed \<Rightarrow> ''not-installed'' | State_Stopped \<Rightarrow> ''stopped'')"

definition checkService :: "doctor_env \<Rightarrow> check_result" where
  "checkService D =
     (case dx_service D of
        Service_Unsupported \<Rightarrow> \<lparr>rs_Name = ''service'', rs_Status = Skip,
          rs_Detail = ''service management not supported on this platform'', rs_Hint = []\<rparr>
      | Service_Unresolved e \<Rightarrow> fail ''service'' (''cannot resolve service: '' @ dx_text D (By_Service e)) ''reinstall burndown-cli''
      | Service_Failing e \<Rightarrow> fail ''service'' (''cannot query service: '' @ dx_text D (By_Service e)) ''run `burndown-cli service install`''
      | Service_Status s pid \<Rightarrow>
          (case s of
             State_Running \<Rightarrow> pass ''service'' (''running ('' @ service_text s pid @ '')'')
           | State_Not_Installed \<Rightarrow> warn ''service'' ''launchd job not installed'' ''run `burndown-cli service install`''
           | State_Stopped \<Rightarrow> warn ''service'' ''installed but not running'' ''run `burndown-cli service start`''))"

subsection \<open>The agents\<close>

record agent_check =
  ac_name :: string
  ac_detected :: bool
  ac_ok :: bool
  ac_problem :: string

text \<open>\<open>plan\<close> is the error of the planner or whether its plan is empty.\<close>

definition inspectAgent ::
    "doctor_env \<Rightarrow> string \<Rightarrow> setup_error + bool \<times> string \<Rightarrow> setup_error + bool \<Rightarrow> agent_check" where
  "inspectAgent D name detected plan =
     (let bad = (\<lambda>problem. \<lparr>ac_name = name, ac_detected = True, ac_ok = False, ac_problem = problem\<rparr>) in
      case detected of
        Inl e \<Rightarrow> bad (dx_text D (By_Setup e))
      | Inr (det, _) \<Rightarrow>
          if \<not> det then \<lparr>ac_name = name, ac_detected = False, ac_ok = False, ac_problem = []\<rparr>
          else (case plan of
              Inl e \<Rightarrow> bad (dx_text D (By_Setup e))
            | Inr complete \<Rightarrow>
                if \<not> complete then bad ''OTEL settings missing or incomplete''
                else \<lparr>ac_name = name, ac_detected = True, ac_ok = True, ac_problem = []\<rparr>))"

definition checkAgents :: "doctor_env \<Rightarrow> int \<Rightarrow> store_error + config \<Rightarrow> agent_files \<Rightarrow> check_result" where
  "checkAgents D port cfg fs =
     (let E = dx_setup D;
          token = (case cfg of Inl _ \<Rightarrow> [] | Inr cfg \<Rightarrow> cfg_ReceiverToken cfg);
          inspected =
            [inspectAgent D ''Claude Code'' (DetectClaude E) (map_sum (\<lambda>e. e) ClaudePlan_Empty (PlanClaude E port token fs)),
             inspectAgent D ''Codex'' (DetectCodex E) (map_sum (\<lambda>e. e) CodexPlan_Empty (PlanCodex E port token fs))];
          present = filter ac_detected inspected;
          misconfig = map (\<lambda>c. ac_name c @ '': '' @ ac_problem c) (filter (\<lambda>c. \<not> ac_ok c) present)
      in if misconfig \<noteq> [] then fail ''agents'' (join ''; '' misconfig) ''run `burndown-cli setup`''
         else if present = [] then warn ''agents'' ''no supported agent detected (Claude Code, Codex)''
                ''install Claude Code or Codex, then run `burndown-cli setup`''
         else pass ''agents'' (''OTEL configured: '' @ join '', '' (map ac_name present)))"

text \<open>\<open>Run\<close>: the results and the credential store after its load.\<close>

definition Run :: "doctor_env \<Rightarrow> doctor \<Rightarrow> agent_files \<Rightarrow> cred_state \<Rightarrow> check_result list \<times> cred_state" where
  "Run D d fs st =
     (let perms = statConfigPerms st in
      case Store_Load (dx_load D) st of (cfg, st) \<Rightarrow>
        (let hz = probeHealthz (dx_healthz D); daemonUp = (hz \<noteq> None) in
         ([checkVersion D, checkConfig D d cfg perms, checkCredstore D cfg (cs_status st), checkBackend D cfg,
           checkHeartbeat D cfg, checkKeyExpiry D cfg, checkDaemon daemonUp (dr_port d), checkAgents D (dr_port d) cfg fs,
           checkInventory D cfg, checkQueue D d hz, checkService D], st)))"

text \<open>\<open>runDoctor\<close>: the exit code and what is written.\<close>

definition runDoctor ::
    "doctor_env \<Rightarrow> doctor \<Rightarrow> bool \<Rightarrow> agent_files \<Rightarrow> cred_state \<Rightarrow> nat \<times> (any + string list) \<times> cred_state" where
  "runDoctor D d asJSON fs st =
     (case Run D d fs st of (results, st) \<Rightarrow>
        (ExitCode results, if asJSON then Inl (WriteJSON results) else Inr (WriteText results), st))"

end
