(* ===== verification/Doctor_Safety.thy ===== *)
theory Doctor_Safety
  imports Doctor Setup_Cmd_Safety
begin

text \<open>
  What the doctor promises: every problem comes with a hint, the exit code is the worst status, an
  exit code of zero means that the collector works, and what \<open>setup\<close> did is what it asks for.
\<close>

subsection \<open>Results\<close>

lemmas check_defs = pass_def warn_def fail_def

definition hinted :: "check_result \<Rightarrow> bool" where
  "hinted r \<longleftrightarrow> (rs_Hint r \<noteq> [] \<longleftrightarrow> rs_Status r \<in> {Warn, Fail})"

lemma hinted_checks [simp]:
  "hinted (pass n dt)" "h \<noteq> [] \<Longrightarrow> hinted (warn n dt h)" "h \<noteq> [] \<Longrightarrow> hinted (fail n dt h)"
  by (simp_all add: hinted_def check_defs)

lemma hints [simp]: "loginHint \<noteq> []" "credstoreHint \<noteq> []"
  by (simp_all add: loginHint_def credstoreHint_def)

lemma rs_simps [simp]:
  "rs_Status (pass n dt) = Pass" "rs_Status (warn n dt h) = Warn" "rs_Status (fail n dt h) = Fail"
  "rs_Name (pass n dt) = n" "rs_Name (warn n dt h) = n" "rs_Name (fail n dt h) = n"
  by (simp_all add: check_defs)

lemma checks_hinted:
  "hinted (checkVersion D)" "hinted (checkConfig D d cfg perms)" "hinted (checkCredstore D cfg s)"
  "hinted (checkBackend D cfg)" "hinted (checkHeartbeat D cfg)" "hinted (checkKeyExpiry D cfg)"
  "hinted (checkDaemon up port)" "hinted (checkAgents D port cfg fs)" "hinted (checkInventory D cfg)"
  "hinted (checkQueue D d hz)" "hinted (checkService D)"
            apply (simp add: checkVersion_def Let_def split: option.split)
           apply (simp add: checkConfig_def split: sum.split)
          apply (simp add: checkCredstore_def split: sum.split)
         apply (simp add: checkBackend_def Let_def split: sum.split)
        apply (simp add: checkHeartbeat_def Let_def split: sum.split option.split)
       apply (simp add: checkKeyExpiry_def Let_def split: sum.split option.split)
      apply (simp add: checkDaemon_def)
     apply (simp add: checkAgents_def Let_def)
    apply (simp add: checkInventory_def split: sum.split option.split)
   apply (simp add: checkQueue_def Let_def split: option.split queue_env.split)
  apply (simp add: checkService_def split: service_env.split service_state.split)
  apply (simp add: hinted_def)
  done

lemma checks_named:
  "rs_Name (checkVersion D) = ''version''" "rs_Name (checkConfig D d cfg perms) = ''config''"
  "rs_Name (checkCredstore D cfg s) = ''credstore''" "rs_Name (checkBackend D cfg) = ''backend''"
  "rs_Name (checkHeartbeat D cfg) = ''heartbeat''" "rs_Name (checkKeyExpiry D cfg) = ''key_expiry''"
  "rs_Name (checkDaemon up port) = ''daemon''" "rs_Name (checkAgents D port cfg fs) = ''agents''"
  "rs_Name (checkInventory D cfg) = ''inventory''" "rs_Name (checkQueue D d hz) = ''queue''" "rs_Name (checkService D) = ''service''"
            apply (simp add: checkVersion_def Let_def split: option.split)
           apply (simp add: checkConfig_def split: sum.split)
          apply (simp add: checkCredstore_def split: sum.split)
         apply (simp add: checkBackend_def Let_def split: sum.split)
        apply (simp add: checkHeartbeat_def Let_def split: sum.split option.split)
       apply (simp add: checkKeyExpiry_def Let_def split: sum.split option.split)
      apply (simp add: checkDaemon_def)
     apply (simp add: checkAgents_def Let_def)
    apply (simp add: checkInventory_def split: sum.split option.split)
   apply (simp add: checkQueue_def Let_def split: option.split queue_env.split)
  apply (simp add: checkService_def split: service_env.split service_state.split)
  done

text \<open>A run reports the eleven checks in their order, whatever the state of the machine is, and a
  result has a hint exactly when it is a warning or a failure.\<close>

theorem Run_well_formed:
  "map rs_Name (fst (Run D d fs st)) = [''version'', ''config'', ''credstore'', ''backend'', ''heartbeat'', ''key_expiry'',
     ''daemon'', ''agents'', ''inventory'', ''queue'', ''service'']
   \<and> list_all (\<lambda>r. (rs_Hint r \<noteq> []) = (rs_Status r \<in> {Warn, Fail})) (fst (Run D d fs st))"
  using checks_hinted unfolding hinted_def
  by (simp add: Run_def Let_def checks_named split: prod.split)

lemma Aggregate_fold:
  "exitCode (foldl (\<lambda>worst r. if exitCode (rs_Status r) > exitCode worst then rs_Status r else worst) w rs)
    = fold max (map (exitCode \<circ> rs_Status) rs) (exitCode w)"
proof (induction rs arbitrary: w)
  case (Cons r rs)
  then show ?case by (cases "exitCode w < exitCode (rs_Status r)") (simp_all add: max_def)
qed simp

lemma ExitCode_fold:
  "foldl (\<lambda>code r. if exitCode (rs_Status r) > code then exitCode (rs_Status r) else code) c rs
    = fold max (map (exitCode \<circ> rs_Status) rs) c"
proof (induction rs arbitrary: c)
  case (Cons r rs)
  then show ?case by (cases "c < exitCode (rs_Status r)") (simp_all add: max_def)
qed simp

lemma ExitCode_Max: "ExitCode rs = Max (insert 0 ((exitCode \<circ> rs_Status) ` set rs))"
  using Max.set_eq_fold [of 0 "map (exitCode \<circ> rs_Status) rs"] by (simp add: ExitCode_def ExitCode_fold)

lemma ExitCode_0: "ExitCode rs = 0 \<longleftrightarrow> list_all (\<lambda>r. rs_Status r \<in> {Pass, Skip}) rs"
proof -
  have "ExitCode rs = 0 \<longleftrightarrow> (\<forall>r \<in> set rs. exitCode (rs_Status r) = 0)"
    unfolding ExitCode_Max by (subst Max_eq_iff) auto
  moreover have "exitCode s = 0 \<longleftrightarrow> s \<in> {Pass, Skip}" for s by (cases s) auto
  ultimately show ?thesis by (simp add: list_all_iff)
qed

text \<open>The exit code is that of the aggregate status: 2 exactly when a check fails, 0 exactly when
  every check passes or does not apply.\<close>

theorem ExitCode_Aggregate:
  "ExitCode rs = exitCode (Aggregate rs)
   \<and> (ExitCode rs = 2) = list_ex (\<lambda>r. rs_Status r = Fail) rs
   \<and> (ExitCode rs = 0) = list_all (\<lambda>r. rs_Status r \<in> {Pass, Skip}) rs"
proof -
  have "ExitCode rs = exitCode (Aggregate rs)"
    by (simp add: ExitCode_def Aggregate_def Aggregate_fold ExitCode_fold)
  moreover have e: "exitCode s \<le> 2" "exitCode s = 2 \<longleftrightarrow> s = Fail" for s by (cases s; simp)+
  have "ExitCode rs = 2 \<longleftrightarrow> (\<exists>r \<in> set rs. exitCode (rs_Status r) = 2)"
    unfolding ExitCode_Max by (subst Max_eq_iff) (use e(1) in \<open>auto simp: image_iff\<close>)
  then have "(ExitCode rs = 2) = list_ex (\<lambda>r. rs_Status r = Fail) rs" by (simp add: e(2) list_ex_iff)
  ultimately show ?thesis using ExitCode_0 [of rs] by blast
qed

subsection \<open>The agents\<close>

definition agents_ready :: "setup_env \<Rightarrow> int \<Rightarrow> string \<Rightarrow> agent_files \<Rightarrow> bool" where
  "agents_ready E port token fs \<longleftrightarrow> (\<exists>a dir b dir'. DetectClaude E = Inr (a, dir) \<and> DetectCodex E = Inr (b, dir') \<and> (a \<or> b)
     \<and> (a \<longrightarrow> (\<exists>p. PlanClaude E port token fs = Inr p \<and> ClaudePlan_Empty p))
     \<and> (b \<longrightarrow> (\<exists>q. PlanCodex E port token fs = Inr q \<and> CodexPlan_Empty q)))"

definition token_of :: "store_error + config \<Rightarrow> string" where
  "token_of cfg = (case cfg of Inl _ \<Rightarrow> [] | Inr cfg \<Rightarrow> cfg_ReceiverToken cfg)"

lemma inspectAgent_fields:
  "ac_detected (inspectAgent D n det plan) \<longleftrightarrow> (\<forall>dir. det \<noteq> Inr (False, dir))"
  "ac_ok (inspectAgent D n det plan) \<longleftrightarrow> (\<exists>dir. det = Inr (True, dir)) \<and> plan = Inr True"
  by (auto simp: inspectAgent_def Let_def split: sum.splits)

lemma checkAgents_Pass:
  "rs_Status (checkAgents D port cfg fs) = Pass \<longleftrightarrow> agents_ready (dx_setup D) port (token_of cfg) fs"
proof -
  let ?E = "dx_setup D" and ?t = "token_of cfg"
  define c where "c = map_sum (\<lambda>e. e) ClaudePlan_Empty (PlanClaude ?E port ?t fs)"
  define x where "x = map_sum (\<lambda>e. e) CodexPlan_Empty (PlanCodex ?E port ?t fs)"
  define a where "a = inspectAgent D ''Claude Code'' (DetectClaude ?E) c"
  define b where "b = inspectAgent D ''Codex'' (DetectCodex ?E) x"
  have "rs_Status (checkAgents D port cfg fs) = Pass
      \<longleftrightarrow> (ac_detected a \<or> ac_detected b) \<and> (ac_detected a \<longrightarrow> ac_ok a) \<and> (ac_detected b \<longrightarrow> ac_ok b)"
    unfolding checkAgents_def Let_def token_of_def [symmetric] c_def [symmetric] x_def [symmetric] a_def [symmetric] b_def [symmetric]
    by simp
  moreover have "c = Inr True \<longleftrightarrow> (\<exists>p. PlanClaude ?E port ?t fs = Inr p \<and> ClaudePlan_Empty p)"
    "x = Inr True \<longleftrightarrow> (\<exists>q. PlanCodex ?E port ?t fs = Inr q \<and> CodexPlan_Empty q)"
    unfolding c_def x_def by (cases "PlanClaude ?E port ?t fs"; cases "PlanCodex ?E port ?t fs"; simp)+
  ultimately show ?thesis
    unfolding a_def b_def inspectAgent_fields agents_ready_def
    by (cases "DetectClaude ?E"; cases "DetectCodex ?E") auto
qed

lemma checkAgents_not_Skip: "rs_Status (checkAgents D port cfg fs) \<noteq> Skip"
  by (simp add: checkAgents_def Let_def)

text \<open>C27: an exit code of zero is earned. When the doctor exits with 0, the configuration loads and
  has a key, the file is private, the back end answered, a heartbeat with the stored key was accepted,
  the daemon answered, and at least one agent is installed and every installed one has nothing left to
  configure.\<close>

theorem Run_sound:
  assumes "ExitCode (fst (Run D d fs st)) = 0"
  shows "\<exists>cfg out reply. fst (Store_Load (dx_load D) st) = Inr cfg \<and> cfg_CollectorKey cfg \<noteq> []
    \<and> map_option snd (dk_file (cs_disk st)) \<in> {None, Some 384} \<and> dk_dir (cs_disk st) \<in> {None, Some 448}
    \<and> fst (Health (dx_health D) (NewClient (cfg_CollectorKey cfg))) = Inr out
    \<and> fst (Heartbeat (dx_heartbeat D) (cfg_CollectorID cfg) None (NewClient (cfg_CollectorKey cfg))) = Inr reply
    \<and> probeHealthz (dx_healthz D) \<noteq> None
    \<and> agents_ready (dx_setup D) (dr_port d) (cfg_ReceiverToken cfg) fs"
proof -
  obtain r st' where l: "Store_Load (dx_load D) st = (r, st')" by fastforce
  have c: "rs_Status (checkConfig D d r (statConfigPerms st)) \<in> {Pass, Skip}" "rs_Status (checkBackend D r) \<in> {Pass, Skip}"
    "rs_Status (checkHeartbeat D r) \<in> {Pass, Skip}"
    "rs_Status (checkDaemon (probeHealthz (dx_healthz D) \<noteq> None) (dr_port d)) \<in> {Pass, Skip}"
    "rs_Status (checkAgents D (dr_port d) r fs) \<in> {Pass, Skip}"
    using assms unfolding ExitCode_0 by (simp_all add: Run_def l Let_def)
  then obtain cfg where r: "r = Inr cfg" by (cases r) (simp_all add: checkConfig_def)
  have "cfg_CollectorKey cfg \<noteq> []" "map_option snd (dk_file (cs_disk st)) \<in> {None, Some 384}" "dk_dir (cs_disk st) \<in> {None, Some 448}"
    using c(1) by (auto simp: checkConfig_def r statConfigPerms_def split: if_splits)
  moreover obtain out where "fst (Health (dx_health D) (NewClient (cfg_CollectorKey cfg))) = Inr out"
    using c(2) by (auto simp: checkBackend_def r Let_def split: if_splits sum.splits)
  moreover obtain reply where "fst (Heartbeat (dx_heartbeat D) (cfg_CollectorID cfg) None (NewClient (cfg_CollectorKey cfg))) = Inr reply"
    using c(3) by (auto simp: checkHeartbeat_def r Let_def split: if_splits sum.splits option.splits)
  moreover have "probeHealthz (dx_healthz D) \<noteq> None" using c(4) by (auto simp: checkDaemon_def split: if_splits)
  moreover have "agents_ready (dx_setup D) (dr_port d) (cfg_ReceiverToken cfg) fs"
    using c(5) checkAgents_Pass [of D "dr_port d" r fs] checkAgents_not_Skip [of D "dr_port d" r fs] r by (simp add: token_of_def)
  ultimately show ?thesis using l r by auto
qed

lemma PlanClaude_frame:
  assumes "ClaudeDir E = Inr dir" "fs' (path_join [dir, ''settings.json'']) = fs (path_join [dir, ''settings.json''])"
  shows "PlanClaude E port token fs' = PlanClaude E port token fs"
  using assms by (simp add: PlanClaude_def loadClaudeSettings_def read_file_def Let_def)

lemma backupFile_frame:
  "backupFile E path suf fs = (r, fs') \<Longrightarrow> x \<noteq> path @ suf @ se_stamp E \<Longrightarrow> fs' x = fs x"
  by (auto simp: backupFile_def write_file_def Let_def split: if_splits option.splits prod.splits)

lemma CodexPlan_Apply_frame:
  assumes "CodexPlan_Apply E q fs = (r, fs')" "x \<noteq> cxp_Path q" "x \<noteq> cxp_Path q @ ''.toml.bak.'' @ se_stamp E"
  shows "fs' x = fs x"
proof -
  obtain r1 fs1 where b: "backupFile E (cxp_Path q) ''.toml.bak.'' fs = (r1, fs1)" by fastforce
  have "fs1 x = fs x" by (rule backupFile_frame [OF b]) (use assms(3) in simp)
  then show ?thesis
    using assms(1) b install_spec(1) [of E "cxp_Path q" "cxp_text q" _ fs1 r fs' x] assms(2) by (auto simp: CodexPlan_Apply_def split: sum.splits)
qed

text \<open>C28: what \<open>setup\<close> does is what the doctor asks for. After the plans of both agents, made from the
  same files, have been applied one after the other, the doctor finds both configured for that port
  and token.\<close>

theorem setup_satisfies_doctor:
  assumes detected: "DetectClaude (dx_setup D) = Inr (True, cdir)" "DetectCodex (dx_setup D) = Inr (True, xdir)"
    and plans: "PlanClaude (dx_setup D) port token fs = Inr p" "PlanCodex (dx_setup D) port token fs = Inr q"
    and applied: "ClaudePlan_Apply (dx_setup D) p fs = (Inr b, fs1)" "CodexPlan_Apply (dx_setup D) q fs1 = (Inr b', fs2)"
    and apart: "clp_Path p \<noteq> cxp_Path q" "clp_Path p \<noteq> cxp_Path q @ ''.toml.bak.'' @ se_stamp (dx_setup D)"
    and json: "json_keeps_env (dx_setup D)"
    and old: "old = (case fs (cxp_Path q) of None \<Rightarrow> [] | Some (data, _) \<Rightarrow> data)"
      "editable old" "plain_token token" "stale_count (snd (toml_tables (splitLines old))) \<le> 2"
  shows "rs_Status (checkAgents D port (Inr (cfg\<lparr>cfg_ReceiverToken := token\<rparr>)) fs2) = Pass"
proof -
  obtain p' where p': "PlanClaude (dx_setup D) port token fs1 = Inr p'" "ClaudePlan_Empty p'"
    using PlanClaude_settled [where port' = port and token' = token, OF plans(1) applied(1) json] by blast
  obtain dir where dir: "ClaudeDir (dx_setup D) = Inr dir" "clp_Path p = path_join [dir, ''settings.json'']"
    using plans(1) by (auto simp: PlanClaude_def Let_def split: sum.splits)
  have "fs2 (clp_Path p) = fs1 (clp_Path p)" by (rule CodexPlan_Apply_frame [OF applied(2) apart])
  then have "PlanClaude (dx_setup D) port token fs2 = Inr p'" using PlanClaude_frame [OF dir(1)] dir(2) p'(1) by metis
  moreover obtain q' where "PlanCodex (dx_setup D) port token fs2 = Inr q'" "CodexPlan_Empty q'"
    using CodexPlan_settled [OF plans(2) applied(2) old] by blast
  ultimately have "agents_ready (dx_setup D) port token fs2"
    using detected p'(2) by (auto simp: agents_ready_def)
  then show ?thesis by (simp add: checkAgents_Pass token_of_def)
qed

text \<open>The doctor misses a stale endpoint. Once Claude Code has been set up for one port and token,
  the check passes for every other port and every other stored token, although the agent still posts
  to the old port with the old token.\<close>

theorem doctor_misses_stale_endpoint:
  assumes detected: "DetectClaude (dx_setup D) = Inr (True, cdir)" "DetectCodex (dx_setup D) = Inr (False, xdir)"
    and plan: "PlanClaude (dx_setup D) port token fs = Inr p" "ClaudePlan_Apply (dx_setup D) p fs = (Inr b, fs1)"
    and json: "json_keeps_env (dx_setup D)"
  shows "rs_Status (checkAgents D port' cfg fs1) = Pass"
proof -
  obtain p' where "PlanClaude (dx_setup D) port' (token_of cfg) fs1 = Inr p'" "ClaudePlan_Empty p'"
    using PlanClaude_settled [where port' = port' and token' = "token_of cfg", OF plan json] by blast
  then show ?thesis unfolding checkAgents_Pass agents_ready_def using detected by blast
qed

subsection \<open>The expiry of the key\<close>

text \<open>The verdict on the key's expiry. It fails from a whole day after the expiry, warns from
  fourteen days before, and passes earlier: for a day an expired key is only about to expire.\<close>

theorem key_expiry_window:
  assumes "cfg_CollectorKey cfg \<noteq> []" "sint (cfg_RotationFailures cfg) \<le> 0" "cfg_KeyExpiresAt cfg \<noteq> []"
    and "parse_rfc3339 (cfg_KeyExpiresAt cfg) = Some t" "\<bar>t - dx_now D\<bar> < 2 ^ 63"
  shows "rs_Status (checkKeyExpiry D (Inr cfg)) =
    (if t + 24 * 3600 * nanos \<le> dx_now D then Fail else if t < dx_now D + 14 * (24 * 3600 * nanos) then Warn else Pass)"
proof -
  let ?day = "24 * 3600 * nanos" and ?u = "t - dx_now D"
  have s: "time_sub t (dx_now D) = ?u" using assms(5) by (auto simp: time_sub_def)
  have d: "0 < ?day" by (simp add: nanos_def)
  have "go_quot ?u ?day < 0 \<longleftrightarrow> ?u \<le> - ?day"
    unfolding go_quot_def Let_def using d
    by (auto simp: nanos_def)
  moreover have "go_quot ?u ?day < 14 \<longleftrightarrow> ?u < 14 * ?day"
    unfolding go_quot_def Let_def using d
    by (auto simp: nanos_def)
  ultimately show ?thesis
    using assms(1-4) by (simp add: checkKeyExpiry_def days_until_def s Let_def)
qed

subsection \<open>Witnesses\<close>

text \<open>A machine with Claude Code only.\<close>

definition claude_only :: setup_env where
  "claude_only = sample_setup\<lparr>se_isdir := \<lambda>d. d = path_join [''/h'', ''.claude'']\<rparr>"

definition ok_net :: net_env where
  "ok_net = always (Reply 200 \<lparr>bd_text = [], bd_json = Some (AMap [])\<rparr>)"

definition sample_doctor_env :: doctor_env where
  "sample_doctor_env = \<lparr>dx_now = 0, dx_version = ''dev'', dx_release = Net_Error,
     dx_healthz = Reply 200 \<lparr>bd_text = [], bd_json = Some (AMap [])\<rparr>, dx_health = ok_net, dx_heartbeat = ok_net,
     dx_load = file_cred, dx_setup = claude_only, dx_service = Service_Unsupported, dx_queue = No_Database, dx_text = (\<lambda>_. [])\<rparr>"

definition sample_doctor :: doctor where
  "sample_doctor = \<lparr>dr_port = 8765, dr_queuePath = ''q'', dr_cfgPath = ''c'', dr_cfgDir = ''d''\<rparr>"

lemma path_eval: "path_join [''/h'', ''.claude''] = ''/h/.claude''" "path_join [''/h'', ''.codex''] = ''/h/.codex''"
  "path_join [''/h/.claude'', ''settings.json''] = ''/h/.claude/settings.json''" "path_join [''/h/.codex'', ''config.toml''] = ''/h/.codex/config.toml''"
  by (simp_all add: path_join_def path_clean_def split_slash_def clean_step_def Let_def)

lemma claude_only_detects:
  "DetectClaude claude_only = Inr (True, ''/h/.claude'')" "DetectCodex claude_only = Inr (False, ''/h/.codex'')"
  by (simp_all add: DetectClaude_def DetectCodex_def detect_def ClaudeDir_def CodexDir_def agentDir_def claude_only_def
      sample_setup_def path_eval)

lemma claude_only_plan:
  "PlanClaude claude_only port token fs = PlanClaude sample_setup port token fs"
  "ClaudePlan_Apply claude_only p fs = ClaudePlan_Apply sample_setup p fs"
  "json_keeps_env claude_only"
proof -
  have f: "se_home claude_only = se_home sample_setup" "se_env claude_only = se_env sample_setup" "se_fail claude_only = se_fail sample_setup"
    "se_json claude_only = se_json sample_setup" "se_indent claude_only = se_indent sample_setup" "se_stamp claude_only = se_stamp sample_setup"
    "se_torn claude_only = se_torn sample_setup" "se_created claude_only = se_created sample_setup"
    by (simp_all add: claude_only_def)
  show "PlanClaude claude_only port token fs = PlanClaude sample_setup port token fs"
    unfolding PlanClaude_def ClaudeDir_def agentDir_def loadClaudeSettings_def read_file_def f ..
  show "ClaudePlan_Apply claude_only p fs = ClaudePlan_Apply sample_setup p fs"
    unfolding ClaudePlan_Apply_def backupFile_def install_def write_file_def f ..
  show "json_keeps_env claude_only" using sample_json unfolding json_keeps_env_def f .
qed

lemma claude_only_ready:
  "\<exists>fs. \<forall>port token. agents_ready claude_only port token fs"
proof -
  obtain p fs' where p: "PlanClaude sample_setup 8765 ''abc'' Map.empty = Inr p"
    "ClaudePlan_Apply sample_setup p Map.empty = (Inr [], fs')" using sample_claude_plan by blast
  have "agents_ready claude_only port token fs'" for port token
    using PlanClaude_settled [OF p sample_json, of port token]
    by (auto simp: claude_only_plan agents_ready_def claude_only_detects)
  then show ?thesis by blast
qed

lemma ok_net_replies:
  "\<exists>out. fst (Health ok_net c) = Inr out" "\<exists>out. fst (Heartbeat ok_net i tel c) = Inr out"
  by (simp_all add: Health_def Heartbeat_def postJSON_def postJSONAuth_def payload_ok_def doWithRetry_def retry_loop.simps
      doOnce_def ok_net_def always_def discard_def into_def decodeJSON_def handleResponse_def dec_heartbeat_def dec_policy_def
      as_object_def dec_int_def dec_str_def dec_bool_def dec_ptr_def aget_def Let_def)

lemma sample_doctor_run: "\<exists>fs. ExitCode (fst (Run sample_doctor_env sample_doctor fs token_state)) = 0"
proof -
  obtain fs where fs: "agents_ready claude_only port token fs" for port token using claude_only_ready by blast
  obtain st' where l: "Store_Load file_cred token_state = (Inr token_config, st')" "cs_status st' = forcedFileStatus file_cred"
    using token_loaded [of token_state] by (auto simp: token_state_def)
  then have status: "bs_Name (cs_status st') \<noteq> BackendKeychain" "bs_Forced (cs_status st')"
    by (simp_all add: forcedFileStatus_def BackendFile_def BackendKeychain_def)
  have cfg: "cfg_CollectorKey token_config \<noteq> []" "cfg_CollectorID token_config \<noteq> 0" "cfg_RotationFailures token_config = 0"
    "cfg_KeyExpiresAt token_config = []" "\<not> pol_InventoryEnabled (cfg_Policy token_config)"
    by (simp_all add: token_config_def sample_config_def zero_policy_def)
  have "rs_Status (checkAgents sample_doctor_env 8765 (Inr token_config) fs) = Pass"
    unfolding checkAgents_Pass using fs by (simp add: sample_doctor_env_def)
  moreover have "rs_Status (checkBackend sample_doctor_env (Inr token_config)) = Pass"
    using ok_net_replies(1) [of "NewClient (cfg_CollectorKey token_config)"] by (auto simp: checkBackend_def sample_doctor_env_def)
  moreover have "rs_Status (checkHeartbeat sample_doctor_env (Inr token_config)) = Pass"
    using ok_net_replies(2) [of "cfg_CollectorID token_config" None "NewClient (cfg_CollectorKey token_config)"] cfg(1,2)
    by (auto simp: checkHeartbeat_def sample_doctor_env_def)
  moreover have hz: "probeHealthz (dx_healthz sample_doctor_env) = Some []"
    by (simp add: sample_doctor_env_def probeHealthz_def as_object_def dec_bool_def aget_def)
  moreover have "rs_Status (checkConfig sample_doctor_env sample_doctor (Inr token_config) (statConfigPerms token_state)) = Pass"
    using cfg(1) by (simp add: checkConfig_def statConfigPerms_def token_state_def)
  ultimately have "list_all (\<lambda>r. rs_Status r \<in> {Pass, Skip}) (fst (Run sample_doctor_env sample_doctor fs token_state))"
    using status cfg l
    by (simp add: Run_def Let_def checkVersion_def LatestRelease_def checkCredstore_def checkKeyExpiry_def checkDaemon_def
        checkInventory_def checkQueue_def checkService_def) (simp add: sample_doctor_env_def sample_doctor_def LatestRelease_def)
  then show ?thesis using ExitCode_0 by blast
qed

lemma Run_sound_witness:
  "\<exists>fs cfg. ExitCode (fst (Run sample_doctor_env sample_doctor fs token_state)) = 0
     \<and> fst (Store_Load (dx_load sample_doctor_env) token_state) = Inr cfg \<and> cfg_CollectorKey cfg \<noteq> []"
proof -
  obtain fs where "ExitCode (fst (Run sample_doctor_env sample_doctor fs token_state)) = 0" using sample_doctor_run by blast
  with Run_sound [OF this] show ?thesis by blast
qed

lemma doctor_misses_stale_endpoint_witness:
  "\<exists>fs1. rs_Status (checkAgents sample_doctor_env 9999 (Inl Not_Found) fs1) = Pass"
proof -
  have D: "dx_setup sample_doctor_env = claude_only" by (simp add: sample_doctor_env_def)
  obtain p fs' where p: "PlanClaude sample_setup 8765 ''abc'' Map.empty = Inr p"
    "ClaudePlan_Apply sample_setup p Map.empty = (Inr [], fs')" using sample_claude_plan by blast
  have "rs_Status (checkAgents sample_doctor_env 9999 (Inl Not_Found) fs') = Pass"
    by (rule doctor_misses_stale_endpoint [of sample_doctor_env "''/h/.claude''" "''/h/.codex''" 8765 "''abc''" Map.empty p "[]"])
      (use p claude_only_detects claude_only_plan in \<open>simp_all add: D\<close>)
  then show ?thesis by blast
qed

lemma setup_satisfies_doctor_witness:
  "\<exists>fs2. rs_Status (checkAgents (sample_doctor_env\<lparr>dx_setup := sample_setup\<rparr>) 8765
     (Inr (token_config\<lparr>cfg_ReceiverToken := ''abc''\<rparr>)) fs2) = Pass"
proof -
  let ?D = "sample_doctor_env\<lparr>dx_setup := sample_setup\<rparr>"
  have D: "dx_setup ?D = sample_setup" by simp
  have det: "DetectClaude sample_setup = Inr (True, ''/h/.claude'')" "DetectCodex sample_setup = Inr (True, ''/h/.codex'')"
    by (simp_all add: DetectClaude_def DetectCodex_def detect_def path_eval) (simp_all add: sample_setup_def)
  obtain p fs1 where p: "PlanClaude sample_setup 8765 ''abc'' Map.empty = Inr p"
    "ClaudePlan_Apply sample_setup p Map.empty = (Inr [], fs1)" using sample_claude_plan by blast
  obtain q where q: "PlanCodex sample_setup 8765 ''abc'' Map.empty = Inr q" using sample_codex_plan by blast
  obtain b' fs2 where a: "CodexPlan_Apply sample_setup q fs1 = (Inr b', fs2)"
    by (cases "fs1 (cxp_Path q)") (auto simp: CodexPlan_Apply_def backupFile_def install_def write_file_def Let_def)
  have "clp_Path p = ''/h/.claude/settings.json''"
    using p(1) by (auto simp: PlanClaude_def Let_def path_eval split: sum.splits)
  moreover have "cxp_Path q = ''/h/.codex/config.toml''"
    using q by (auto simp: PlanCodex_def Let_def path_eval split: sum.splits prod.splits if_splits option.splits)
  ultimately have apart: "clp_Path p \<noteq> cxp_Path q" "clp_Path p \<noteq> cxp_Path q @ ''.toml.bak.'' @ se_stamp sample_setup" by simp_all
  have e: "editable []" "stale_count (snd (toml_tables (splitLines []))) \<le> 2"
    by (simp_all add: editable_def splitLines_def toml_tables_def stale_count_def)
  have "rs_Status (checkAgents ?D 8765 (Inr (token_config\<lparr>cfg_ReceiverToken := ''abc''\<rparr>)) fs2) = Pass"
    by (rule setup_satisfies_doctor [of ?D "''/h/.claude''" "''/h/.codex''" 8765 "''abc''" Map.empty p q "[]" fs1 b' fs2 "[]"])
      (use det p q a apart sample_json e sample_toml_ok(2) in \<open>simp_all only: D option.case not_False_eq_True simp_thms\<close>)
  then show ?thesis by blast
qed

lemma key_expiry_window_witness:
  "rs_Status (checkKeyExpiry (sample_doctor_env\<lparr>dx_now := 3600 * nanos\<rparr>)
     (Inr (sample_config\<lparr>cfg_KeyExpiresAt := format_rfc3339 0\<rparr>))) = Warn"
proof -
  have y: "four_digit_year 0" by code_simp
  then have p: "parse_rfc3339 (format_rfc3339 0) = Some 0" using parse_format_rfc3339 [of 0] by simp
  moreover have "format_rfc3339 0 \<noteq> []" by (simp add: format_rfc3339_def split: prod.split)
  ultimately show ?thesis
    using key_expiry_window [of "sample_config\<lparr>cfg_KeyExpiresAt := format_rfc3339 0\<rparr>" 0 "sample_doctor_env\<lparr>dx_now := 3600 * nanos\<rparr>"]
    by (simp add: sample_config_def nanos_def)
qed

end
