(* ===== verification/Ledger.thy ===== *)
theory Ledger
  imports Queue_Safety
begin

text \<open>
  What the event queue promises, without rows, states, leases or time: a ledger of the entries still
  to be delivered and of those that were. The methods of \<open>queue.go\<close>, each with any failures of its
  statements, refine its steps, so every run of the queue is a run of the ledger.
\<close>

subsection \<open>The ledger\<close>

text \<open>An entry is a row id with its idempotency key and its payload.\<close>

type_synonym 'p entry = "int \<times> string \<times> 'p"

record 'p ledger =
  lg_todo :: "'p entry set"
  lg_done :: "'p entry set"

datatype 'p deed = Stores "'p list" | Hands "'p item list" | Delivers "int list" | Returns "int list" | Forgets | Refuses

text \<open>A batch is stored whole, under new ids; what is stored may push entries out, the delivered ones
  first and of the others the oldest. Only entries to be delivered are handed out, and handing out
  changes nothing. A delivery moves exactly the entries it names. Giving back forgets that an entry
  was delivered, if it was. Delivered entries may be forgotten at any time.\<close>

inductive ledger_step :: "('p \<Rightarrow> 'p option) \<Rightarrow> 'p ledger \<Rightarrow> 'p deed \<Rightarrow> 'p ledger \<Rightarrow> bool" for js where
  store: "map (\<lambda>(_, _, p). Some p) new = map js ps \<Longrightarrow> distinct (map fst new) \<Longrightarrow>
     fst ` set new \<inter> fst ` (lg_todo l \<union> lg_done l) = {} \<Longrightarrow>
     todo \<subseteq> lg_todo l \<union> set new \<Longrightarrow> ended \<subseteq> lg_done l \<Longrightarrow>
     (\<And>x y. x \<in> lg_todo l \<union> set new - todo \<Longrightarrow> y \<in> ended \<Longrightarrow> False) \<Longrightarrow>
     (\<And>x y. x \<in> lg_todo l \<union> set new - todo \<Longrightarrow> y \<in> todo \<Longrightarrow> fst x < fst y) \<Longrightarrow>
     (\<And>x y. x \<in> lg_done l - ended \<Longrightarrow> y \<in> ended \<Longrightarrow> fst x < fst y) \<Longrightarrow>
     ledger_step js l (Stores ps) \<lparr>lg_todo = todo, lg_done = ended\<rparr>"
| hand: "(\<And>i. i \<in> set items \<Longrightarrow> (it_ID i, it_Key i, it_Payload i) \<in> lg_todo l) \<Longrightarrow> ledger_step js l (Hands items) l"
| deliver: "ledger_step js l (Delivers ids)
     \<lparr>lg_todo = {x \<in> lg_todo l. fst x \<notin> set ids}, lg_done = lg_done l \<union> {x \<in> lg_todo l. fst x \<in> set ids}\<rparr>"
| return: "ledger_step js l (Returns ids)
     \<lparr>lg_todo = lg_todo l \<union> {x \<in> lg_done l. fst x \<in> set ids}, lg_done = {x \<in> lg_done l. fst x \<notin> set ids}\<rparr>"
| forget: "ended \<subseteq> lg_done l \<Longrightarrow> ledger_step js l Forgets (l\<lparr>lg_done := ended\<rparr>)"
| refuse: "ledger_step js l Refuses l"

inductive ledger_run :: "('p \<Rightarrow> 'p option) \<Rightarrow> 'p ledger \<Rightarrow> 'p deed list \<Rightarrow> 'p ledger \<Rightarrow> bool" for js where
  idle: "ledger_run js l [] l"
| more: "ledger_step js l d l' \<Longrightarrow> ledger_run js l' ds l'' \<Longrightarrow> ledger_run js l (d # ds) l''"

inductive_cases ledger_storeE: "ledger_step js l (Stores ps) l'"
inductive_simps ledger_simps [simp]:
  "ledger_step js l (Hands items) l'" "ledger_step js l (Delivers ids) l'" "ledger_step js l (Returns ids) l'"
  "ledger_step js l Forgets l'" "ledger_step js l Refuses l'"
inductive_simps ledger_run_simps: "ledger_run js l [] l'" "ledger_run js l (d # ds) l'"

subsection \<open>The queue\<close>

text \<open>A call of a method, with what it did: an \<open>Enqueue\<close> that changed the table stored its batch,
  whatever it returned.\<close>

inductive queue_step :: "event_table \<Rightarrow> normalized_event deed \<Rightarrow> event_table \<Rightarrow> bool" where
  enqueued: "monotone_alloc E \<Longrightarrow> Enqueue E c evs t = (res, t') \<Longrightarrow>
     queue_step t (if t' = t then Refuses else Stores evs) t'"
| leased: "LeaseBatch E n d t = (Inr items, t') \<Longrightarrow> queue_step t (Hands items) t'"
| unleased: "LeaseBatch E n d t = (Inl e, t') \<Longrightarrow> queue_step t Refuses t'"
| acked: "Ack E ids t = (Inr u, t') \<Longrightarrow> queue_step t (Delivers ids) t'"
| unacked: "Ack E ids t = (Inl e, t') \<Longrightarrow> queue_step t Refuses t'"
| nacked: "Nack E ids t = (Inr u, t') \<Longrightarrow> queue_step t (Returns ids) t'"
| unnacked: "Nack E ids t = (Inl e, t') \<Longrightarrow> queue_step t Refuses t'"
| pruned: "PruneAcked E cutoff t = (res, t') \<Longrightarrow> queue_step t Forgets t'"

inductive queue_run :: "event_table \<Rightarrow> normalized_event deed list \<Rightarrow> event_table \<Rightarrow> bool" where
  idle: "queue_run t [] t"
| more: "queue_step t d t' \<Longrightarrow> queue_run t' ds t'' \<Longrightarrow> queue_run t (d # ds) t''"

definition entry :: "'p qrow \<Rightarrow> 'p entry" where
  "entry r = (row_id r, name_of (row_key r), row_payload r)"

definition entries :: "('p qrow \<Rightarrow> bool) \<Rightarrow> 'p qrow list \<Rightarrow> 'p entry set" where
  "entries P rows = entry ` {r \<in> set rows. P r}"

definition ledger_of :: "'p table \<Rightarrow> 'p ledger" where
  "ledger_of t = \<lparr>lg_todo = entries (\<lambda>r. \<not> is_acked r) (tab_rows t), lg_done = entries is_acked (tab_rows t)\<rparr>"

lemma fst_entry [simp]: "fst (entry r) = row_id r"
  by (simp add: entry_def)

lemma fst_image_entry: "fst ` entry ` S = row_id ` S"
  by (simp add: image_image)

lemma entry_setters [simp]:
  "entry (set_leased u r) = entry r" "entry (set_acked u r) = entry r" "entry (set_nacked r) = entry r"
  by (simp_all add: entry_def)

lemma todo_undelivered: "lg_todo (ledger_of t) = table_undelivered t"
  by (simp add: ledger_of_def entries_def table_undelivered_def entry_def)

subsection \<open>Simulation\<close>

lemma entries_iff: "x \<in> entries P rows \<longleftrightarrow> (\<exists>r \<in> set rows. x = entry r \<and> P r)"
  by (auto simp: entries_def)

lemma entries_update:
  assumes f: "\<And>r. entry (f r) = entry r"
  shows "x \<in> entries P (updateByIDs f ids rows) \<longleftrightarrow>
    (\<exists>r \<in> set rows. x = entry r \<and> (if fst x \<in> set ids then P (f r) else P r))"
proof -
  define g where "g r = (if row_id r \<in> set ids then f r else r)" for r
  have "updateByIDs f ids rows = map g rows" by (simp add: updateByIDs_def g_def)
  moreover have "entry (g r) = entry r" for r by (simp add: g_def f)
  ultimately have "x \<in> entries P (updateByIDs f ids rows) \<longleftrightarrow> (\<exists>r \<in> set rows. x = entry r \<and> P (g r))"
    by (simp add: entries_iff)
  also have "\<dots> \<longleftrightarrow> (\<exists>r \<in> set rows. x = entry r \<and> (if fst x \<in> set ids then P (f r) else P r))"
    by (auto simp: g_def)
  finally show ?thesis .
qed

lemma sim_ack:
  assumes "Ack E ids t = (Inr u, t')"
  shows "ledger_of t' = \<lparr>lg_todo = {x \<in> lg_todo (ledger_of t). fst x \<notin> set ids},
    lg_done = lg_done (ledger_of t) \<union> {x \<in> lg_todo (ledger_of t). fst x \<in> set ids}\<rparr>"
proof -
  have rows: "tab_rows t' = updateByIDs (set_acked (format_fixed (q_now E))) ids (tab_rows t)"
    using assms by (auto simp: Ack_def ack_table_def update_table_def updateByIDs_def split: if_splits)
  have "entries (\<lambda>r. \<not> is_acked r) (tab_rows t') = {x \<in> entries (\<lambda>r. \<not> is_acked r) (tab_rows t). fst x \<notin> set ids}"
    by (rule set_eqI) (simp add: rows entries_update, auto simp: entries_iff)
  moreover have "entries is_acked (tab_rows t') = entries is_acked (tab_rows t)
      \<union> {x \<in> entries (\<lambda>r. \<not> is_acked r) (tab_rows t). fst x \<in> set ids}"
    by (rule set_eqI) (simp add: rows entries_update, auto simp: entries_iff)
  ultimately show ?thesis by (simp add: ledger_of_def)
qed

lemma sim_nack:
  assumes "Nack E ids t = (Inr u, t')"
  shows "ledger_of t' = \<lparr>lg_todo = lg_todo (ledger_of t) \<union> {x \<in> lg_done (ledger_of t). fst x \<in> set ids},
    lg_done = {x \<in> lg_done (ledger_of t). fst x \<notin> set ids}\<rparr>"
proof -
  have rows: "tab_rows t' = updateByIDs set_nacked ids (tab_rows t)"
    using assms by (auto simp: Nack_def nack_table_def update_table_def updateByIDs_def split: if_splits)
  have "entries (\<lambda>r. \<not> is_acked r) (tab_rows t') = entries (\<lambda>r. \<not> is_acked r) (tab_rows t)
      \<union> {x \<in> entries is_acked (tab_rows t). fst x \<in> set ids}"
    by (rule set_eqI) (simp add: rows entries_update, auto simp: entries_iff)
  moreover have "entries is_acked (tab_rows t') = {x \<in> entries is_acked (tab_rows t). fst x \<notin> set ids}"
    by (rule set_eqI) (simp add: rows entries_update, auto simp: entries_iff)
  ultimately show ?thesis by (simp add: ledger_of_def)
qed

lemma sim_lease:
  assumes "table_ok t" "LeaseBatch E n d t = (res, t')"
  shows "ledger_of t' = ledger_of t"
proof -
  from assms(2) have t': "t' = snd (lease_table E n d t)" by (simp add: LeaseBatch_def)
  obtain sel where sel0: "t' = t\<lparr>tab_rows := updateByIDs
      (set_leased (format_fixed (q_now E + d))) (map row_id sel) (tab_rows t)\<rparr>"
    "sel = [] \<or> sel = selectLeasable (q_now E) n (tab_rows t)"
    unfolding t' using lease_table_snd by blast
  then have sel: "tab_rows t' = updateByIDs (set_leased (format_fixed (q_now E + d))) (map row_id sel) (tab_rows t)"
    "sel = [] \<or> sel = selectLeasable (q_now E) n (tab_rows t)"
    by simp_all
  have live: "\<not> is_acked r" if "r \<in> set (tab_rows t)" "row_id r \<in> row_id ` set sel" for r
  proof -
    from that(2) obtain s where s: "s \<in> set sel" "row_id r = row_id s" by auto
    then have "s \<in> set (tab_rows t) \<and> leasable (format_fixed (q_now E)) s"
      using sel(2) set_selectLeasable by fastforce
    with rows_ok_inj [OF assms(1) [unfolded table_ok_def] that(1)] s(2) leasable_not_acked
    show ?thesis by (auto simp: is_acked_def)
  qed
  have same: "entries P (tab_rows t') = entries P (tab_rows t)"
    if "\<And>r. \<not> is_acked r \<Longrightarrow> P (set_leased (format_fixed (q_now E + d)) r) = P r" for P
  proof (rule set_eqI)
    fix x
    show "x \<in> entries P (tab_rows t') \<longleftrightarrow> x \<in> entries P (tab_rows t)"
      unfolding sel(1) entries_update [OF entry_setters(1)] entries_iff [of x P "tab_rows t"]
      by (rule bex_cong [OF refl]) (auto simp: live that)
  qed
  have "entries is_acked (tab_rows t') = entries is_acked (tab_rows t)"
    by (rule same) simp
  moreover have "entries (\<lambda>r. \<not> is_acked r) (tab_rows t') = entries (\<lambda>r. \<not> is_acked r) (tab_rows t)"
    by (rule same) simp
  ultimately show ?thesis by (simp add: ledger_of_def)
qed

lemma sim_prune:
  assumes "PruneAcked E cutoff t = (res, t')"
  shows "lg_todo (ledger_of t') = lg_todo (ledger_of t)" "lg_done (ledger_of t') \<subseteq> lg_done (ledger_of t)"
  using assms
  by (auto simp: PruneAcked_def prune_table_def Let_def ledger_of_def entries_def prunable_def is_acked_def
      split: if_splits)

lemma sim_enqueue:
  assumes "monotone_alloc E" "table_ok t" "Enqueue E c evs t = (res, t')" "t' \<noteq> t"
  shows "ledger_step event_json (ledger_of t) (Stores evs) (ledger_of t')"
  using assms(3) [unfolded Enqueue_def]
proof (cases rule: enqueue_table_cases)
  case (insert new)
  have ok: "rows_ok (tab_rows t @ new)"
    using insert_rows_ok [OF assms(1) _ insert(2)] assms(2) by (simp add: table_ok_def)
  note inv = evict_loop_inv [OF ok insert(3)]
  have ids: "distinct (map row_id new)" "row_id ` set (tab_rows t) \<inter> row_id ` set new = {}"
    using rows_ok_distinct [OF ok] by simp_all
  have pending: "\<not> is_acked r" if "r \<in> set new" for r
    using that insert(1) by (simp add: fresh_rows_def is_acked_def)
  have gone: "evict_before r s" if "r \<in> set (tab_rows t) \<union> set new" "r \<notin> set (tab_rows t')" "s \<in> set (tab_rows t')" for r s
    using that inv by auto
  have kept: "set (tab_rows t') \<subseteq> set (tab_rows t) \<union> set new" using inv by simp
  have pays: "map (\<lambda>(_, _, p). Some p) (map entry new) = map event_json evs"
    using insert(1) by (simp add: fresh_rows_def entry_def comp_def)
  have todo: "lg_todo (ledger_of t) \<union> set (map entry new) = entries (\<lambda>r. \<not> is_acked r) (tab_rows t @ new)"
    using pending by (auto simp: ledger_of_def entries_def)
  have dead: "lg_done (ledger_of t) = entries is_acked (tab_rows t @ new)"
    using pending by (auto simp: ledger_of_def entries_def)
  have lost: "evict_before r s" if "entry r \<notin> entries P (tab_rows t')" "P r" "r \<in> set (tab_rows t @ new)"
      "s \<in> set (tab_rows t')" for r s P
    using that gone [of r s] by (auto simp: entries_def)
  have "ledger_step event_json (ledger_of t) (Stores evs)
      \<lparr>lg_todo = entries (\<lambda>r. \<not> is_acked r) (tab_rows t'), lg_done = entries is_acked (tab_rows t')\<rparr>"
  proof (rule ledger_step.store [OF pays])
    show "distinct (map fst (map entry new))" using ids by (simp add: comp_def)
    show "fst ` set (map entry new) \<inter> fst ` (lg_todo (ledger_of t) \<union> lg_done (ledger_of t)) = {}"
      using ids(2) by (simp add: ledger_of_def entries_def image_Un fst_image_entry) blast
    show "entries (\<lambda>r. \<not> is_acked r) (tab_rows t') \<subseteq> lg_todo (ledger_of t) \<union> set (map entry new)"
      unfolding todo using kept by (auto simp: entries_def)
    show "entries is_acked (tab_rows t') \<subseteq> lg_done (ledger_of t)"
      unfolding dead using kept by (auto simp: entries_def)
  next
    fix x y
    assume x: "x \<in> lg_todo (ledger_of t) \<union> set (map entry new) - entries (\<lambda>r. \<not> is_acked r) (tab_rows t')"
    then obtain r where r: "r \<in> set (tab_rows t @ new)" "x = entry r" "\<not> is_acked r"
      unfolding todo entries_iff Diff_iff by blast
    note lost = lost [OF _ _ r(1), where P = "\<lambda>r. \<not> is_acked r"]
    show False if "y \<in> entries is_acked (tab_rows t')"
      using that lost x r by (auto simp: entries_iff [of y] evict_before_def)
    show "fst x < fst y" if "y \<in> entries (\<lambda>r. \<not> is_acked r) (tab_rows t')"
      using that lost x r by (auto simp: entries_iff [of y] evict_before_def)
  next
    fix x y
    assume x: "x \<in> lg_done (ledger_of t) - entries is_acked (tab_rows t')"
    then obtain r where r: "r \<in> set (tab_rows t @ new)" "x = entry r" "is_acked r"
      unfolding dead entries_iff Diff_iff by blast
    note lost = lost [OF _ _ r(1), where P = is_acked]
    show "fst x < fst y" if "y \<in> entries is_acked (tab_rows t')"
      using that lost x r by (auto simp: entries_iff [of y] evict_before_def)
  qed
  then show ?thesis by (simp add: ledger_of_def)
qed (use assms(4) in simp)

subsection \<open>Runs\<close>

lemma ack_or_nack_table:
  "Ack E ids t = (res, t') \<or> Nack E ids t = (res, t') \<Longrightarrow> table_ok t \<Longrightarrow> table_ok t'"
  "Ack E ids t = (Inl e, t') \<or> Nack E ids t = (Inl e, t') \<Longrightarrow> t' = t"
proof -
  have "table_ok t \<Longrightarrow> table_ok (snd (Ack E ids t))" "table_ok t \<Longrightarrow> table_ok (snd (Nack E ids t))"
    by (simp_all add: Ack_def ack_table_def Nack_def nack_table_def update_table_ok)
  then show "Ack E ids t = (res, t') \<or> Nack E ids t = (res, t') \<Longrightarrow> table_ok t \<Longrightarrow> table_ok t'" by auto
  show "Ack E ids t = (Inl e, t') \<or> Nack E ids t = (Inl e, t') \<Longrightarrow> t' = t"
    by (auto simp: Ack_def ack_table_def Nack_def nack_table_def update_table_def split: if_splits)
qed

lemma sim_step:
  assumes "table_ok t" "queue_step t d t'"
  shows "table_ok t' \<and> ledger_step event_json (ledger_of t) d (ledger_of t')"
  using assms(2)
proof cases
  case (enqueued E c evs res)
  then show ?thesis
    using assms(1) sim_enqueue enqueue_table_ok unfolding Enqueue_def by (auto intro: ledger_step.refuse)
next
  case (leased E n dur items)
  have "table_ok t'" using leased(2) lease_table_snd [of E n dur t] assms(1)
    by (auto simp: LeaseBatch_def table_ok_def intro!: rows_ok_update)
  moreover have "(it_ID i, it_Key i, it_Payload i) \<in> lg_todo (ledger_of t)" if "i \<in> set items" for i
    unfolding todo_undelivered by (rule lease_table_undelivered [OF _ that]) (use leased(2) in \<open>simp add: LeaseBatch_def\<close>)
  ultimately show ?thesis
    unfolding leased(1) sim_lease [OF assms(1) leased(2)] by (auto intro: ledger_step.hand)
next
  case (unleased E n dur e)
  have "t' = t" using lease_table_Inl unleased(2) unfolding LeaseBatch_def by blast
  with unleased assms(1) show ?thesis by (simp add: ledger_step.refuse)
next
  case (acked E ids u)
  with ack_or_nack_table(1) assms(1) show ?thesis
    unfolding acked(1) sim_ack [OF acked(2)] by (blast intro: ledger_step.deliver)
next
  case (nacked E ids u)
  with ack_or_nack_table(1) assms(1) show ?thesis
    unfolding nacked(1) sim_nack [OF nacked(2)] by (blast intro: ledger_step.return)
next
  case (unacked E ids e)
  with ack_or_nack_table(2) assms(1) show ?thesis by (metis ledger_step.refuse)
next
  case (unnacked E ids e)
  with ack_or_nack_table(2) assms(1) show ?thesis by (metis ledger_step.refuse)
next
  case (pruned E cutoff res)
  have "table_ok t'" using pruned assms(1)
    by (auto simp: PruneAcked_def prune_table_def table_ok_def Let_def split: if_splits)
  moreover have "ledger_step event_json (ledger_of t) Forgets (ledger_of t \<lparr>lg_done := lg_done (ledger_of t')\<rparr>)"
    by (rule ledger_step.forget [OF sim_prune(2) [OF pruned(2)]])
  moreover have "ledger_of t\<lparr>lg_done := lg_done (ledger_of t')\<rparr> = ledger_of t'"
    using sim_prune(1) [OF pruned(2)] by (simp add: ledger_of_def)
  ultimately show ?thesis unfolding pruned(1) by simp
qed

lemma sim_run:
  assumes "queue_run t ds t'" "table_ok t"
  shows "table_ok t' \<and> ledger_run event_json (ledger_of t) ds (ledger_of t')"
  using assms
proof induction
  case (more t d t' ds t'')
  from sim_step [OF more(4,1)] more(3) show ?case by (auto intro: ledger_run.more)
qed (simp add: ledger_run.idle)

text \<open>C18: the event queue refines the ledger. Whatever statements fail, however the clock moves and
  whatever size the file reads, every sequence of calls of \<open>Enqueue\<close>, \<open>LeaseBatch\<close>, \<open>Ack\<close>,
  \<open>Nack\<close> and \<open>PruneAcked\<close> does to the entries what the ledger's steps do: batches are stored
  whole under new ids, what they push out goes in the promised order, a lease changes nothing and hands out
  only what is undelivered, a delivery moves exactly the entries it names, and pruning forgets only
  delivered ones.\<close>

theorem queue_refines_ledger:
  assumes "table_ok t" "queue_run t ds t'"
  shows "ledger_run event_json (ledger_of t) ds (ledger_of t')"
  using sim_run [OF assms(2,1)] ..

text \<open>What holds of every run of the ledger holds of the queue.\<close>

lemma ledger_run_append:
  "ledger_run js l (ds @ es) l'' \<longleftrightarrow> (\<exists>l'. ledger_run js l ds l' \<and> ledger_run js l' es l'')"
  by (induction ds arbitrary: l) (auto simp: ledger_run_simps)

definition restored :: "('p \<Rightarrow> 'p option) \<Rightarrow> int \<Rightarrow> 'p \<Rightarrow> 'p deed \<Rightarrow> bool" where
  "restored js i p d \<longleftrightarrow>
     (case d of Returns ids \<Rightarrow> i \<in> set ids | Stores ps \<Rightarrow> Some p \<in> js ` set ps | _ \<Rightarrow> False)"

lemma restored_iff:
  "restored js i p d \<longleftrightarrow> (\<exists>back. d = Returns back \<and> i \<in> set back) \<or> (\<exists>ps. d = Stores ps \<and> Some p \<in> js ` set ps)"
  by (cases d) (auto simp: restored_def)

lemma ledger_step_todo:
  assumes "ledger_step js l d l'" "x \<in> lg_todo l'" "x \<notin> lg_todo l"
  shows "restored js (fst x) (snd (snd x)) d"
  using assms
proof cases
  case (store new ps todo ended)
  with assms(2,3) have "x \<in> set new" by auto
  then have "Some (snd (snd x)) \<in> set (map (\<lambda>(_, _, p). Some p) new)" by (force simp: case_prod_beta)
  then show ?thesis unfolding store(3) by (simp add: restored_def store(1))
qed (use assms(2,3) in \<open>auto simp: restored_def\<close>)

lemma ledger_run_todo:
  assumes "ledger_run js l ds l'" "x \<in> lg_todo l'" "x \<notin> lg_todo l"
  shows "\<exists>d \<in> set ds. restored js (fst x) (snd (snd x)) d"
  using assms by induction (auto dest: ledger_step_todo)

lemma ledger_no_redelivery:
  fixes l :: "'p ledger"
  assumes "ledger_run js l (ds @ Delivers ids # es @ [Hands items]) l'" "i \<in> set items" "it_ID i \<in> set ids"
  shows "\<exists>d \<in> set es. restored js (it_ID i) (it_Payload i) d"
proof -
  from assms(1) obtain l1 :: "'p ledger" where run: "ledger_run js \<lparr>lg_todo = {x \<in> lg_todo l1. fst x \<notin> set ids},
      lg_done = lg_done l1 \<union> {x \<in> lg_todo l1. fst x \<in> set ids}\<rparr> es l'"
    and hand: "\<forall>i \<in> set items. (it_ID i, it_Key i, it_Payload i) \<in> lg_todo l'"
    by (simp only: ledger_run_append ledger_run_simps ledger_simps) blast
  from ledger_run_todo [OF run bspec [OF hand assms(2)]] assms(3) show ?thesis by simp
qed

text \<open>C19: an acknowledged event is not sent again. Once \<open>Ack\<close> has named an event, no later
  \<open>LeaseBatch\<close> hands it out, whatever calls come between, unless one of these gave it back
  (\<open>Nack\<close>) or stored it anew.\<close>

theorem queue_no_redelivery:
  assumes "table_ok t" "queue_run t (ds @ Delivers ids # es @ [Hands items]) t'"
    "i \<in> set items" "it_ID i \<in> set ids"
  shows "\<exists>d \<in> set es. (\<exists>back. d = Returns back \<and> it_ID i \<in> set back)
    \<or> (\<exists>evs. d = Stores evs \<and> Some (it_Payload i) \<in> event_json ` set evs)"
proof -
  from sim_run [OF assms(2,1)] have "ledger_run event_json (ledger_of t) (ds @ Delivers ids # es @ [Hands items]) (ledger_of t')" ..
  from ledger_no_redelivery [OF this assms(3,4)] show ?thesis
    unfolding restored_iff .
qed

text \<open>A run: an event is stored, leased, acknowledged, given back and leased again.\<close>

definition run_row :: "normalized_event qrow" where
  "run_row = \<lparr>row_id = 1, row_key = Some ''u'', row_payload = empty_event, row_created = format_fixed 0,
     row_attempts = 0, row_state = Pending, row_until = None, row_acked = None\<rparr>"

definition run_caps :: caps where "run_caps = \<lparr>cap_rows = 5, cap_bytes = 5\<rparr>"

abbreviation run_table :: "normalized_event qrow \<Rightarrow> event_table" where
  "run_table r \<equiv> \<lparr>tab_rows = [r], tab_evicted = 0\<rparr>"

lemma run_enqueue: "Enqueue (good_env 0) run_caps [empty_event] empty_table = (Inr (), run_table run_row)"
proof -
  have "event_json empty_event = Some empty_event"
    by (simp add: event_json_def marshalable_event_def empty_event_def finite_opt_def)
  then show ?thesis
    by (simp add: Enqueue_def enqueue_table_def insert_batch_def good_env_def empty_table_def sqlite_alloc_def
        run_row_def run_caps_def evict_loop.simps overCap_def)
qed

lemma run_steps:
  assumes "row_id r = 1"
  shows "row_state r = Pending \<Longrightarrow>
      LeaseBatch (good_env 0) 1 1 (run_table r) = (Inr [scanItem r], run_table (set_leased (format_fixed 1) r))"
    and "Ack (good_env 0) [1] (run_table r) = (Inr (), run_table (set_acked (format_fixed 0) r))"
    and "Nack (good_env 0) [1] (run_table r) = (Inr (), run_table (set_nacked r))"
  using assms by (simp_all add: LeaseBatch_def lease_table_def good_env_def selectLeasable_def leasable_def update_table_def
      updateByIDs_def Ack_def ack_table_def Nack_def nack_table_def)

definition run_acked :: "normalized_event qrow" where
  "run_acked = set_acked (format_fixed 0) (set_leased (format_fixed 1) run_row)"

lemma run_row_simps [simp]: "row_id run_row = 1" "row_state run_row = Pending" "row_id run_acked = 1"
  by (simp_all add: run_row_def run_acked_def)

lemma run_until_acked:
  "queue_run empty_table [Stores [empty_event], Hands [scanItem run_row], Delivers [1]] (run_table run_acked)"
proof (rule queue_run.more)
  show "queue_step empty_table (Stores [empty_event]) (run_table run_row)"
    using queue_step.enqueued [OF good_env_alloc run_enqueue] by (simp add: empty_table_def)
  show "queue_run (run_table run_row) [Hands [scanItem run_row], Delivers [1]] (run_table run_acked)"
    unfolding run_acked_def
    by (rule queue_run.more [OF queue_step.leased [OF run_steps(1)] queue_run.more [OF queue_step.acked [OF run_steps(2)] queue_run.idle]])
      simp_all
qed

lemma empty_table_ok: "table_ok empty_table"
  by (simp add: table_ok_def empty_table_def)

lemma ledger_of_ends:
  "ledger_of empty_table = \<lparr>lg_todo = {}, lg_done = {}\<rparr>"
  "ledger_of (run_table run_acked) = \<lparr>lg_todo = {}, lg_done = {(1, ''u'', empty_event)}\<rparr>"
proof -
  have "is_acked run_acked" "entry run_acked = (1, ''u'', empty_event)"
    by (simp_all add: run_acked_def) (simp add: entry_def run_row_def name_of_def)
  then have "entries is_acked [run_acked] = {(1, ''u'', empty_event)}" "entries (\<lambda>r. \<not> is_acked r) [run_acked] = {}"
    by (auto simp: entries_iff)
  then show "ledger_of empty_table = \<lparr>lg_todo = {}, lg_done = {}\<rparr>"
    "ledger_of (run_table run_acked) = \<lparr>lg_todo = {}, lg_done = {(1, ''u'', empty_event)}\<rparr>"
    by (simp_all add: ledger_of_def entries_def empty_table_def)
qed

lemma queue_refines_ledger_witness:
  "ledger_run event_json \<lparr>lg_todo = {}, lg_done = {}\<rparr>
     [Stores [empty_event], Hands [scanItem run_row], Delivers [1]] \<lparr>lg_todo = {}, lg_done = {(1, ''u'', empty_event)}\<rparr>"
  using queue_refines_ledger [OF empty_table_ok run_until_acked] unfolding ledger_of_ends .

lemma queue_run_append: "queue_run t ds t' \<Longrightarrow> queue_run t' es t'' \<Longrightarrow> queue_run t (ds @ es) t''"
  by (induction rule: queue_run.induct) (auto intro: queue_run.intros)

lemma queue_no_redelivery_witness:
  "\<exists>d \<in> {Returns [1]} :: normalized_event deed set. (\<exists>back. d = Returns back \<and> (1::int) \<in> set back)
    \<or> (\<exists>evs. d = Stores evs \<and> Some empty_event \<in> event_json ` set evs)"
proof -
  have "queue_run (run_table run_acked) [Returns [1], Hands [scanItem (set_nacked run_acked)]]
      (run_table (set_leased (format_fixed 1) (set_nacked run_acked)))"
    by (rule queue_run.more [OF queue_step.nacked [OF run_steps(3)] queue_run.more [OF queue_step.leased [OF run_steps(1)] queue_run.idle]])
      (simp_all add: set_nacked_def)
  from queue_run_append [OF run_until_acked this]
  have run: "queue_run empty_table ([Stores [empty_event], Hands [scanItem run_row]] @ Delivers [1] # [Returns [1]]
      @ [Hands [scanItem (set_nacked run_acked)]]) (run_table (set_leased (format_fixed 1) (set_nacked run_acked)))"
    by simp
  from queue_no_redelivery [OF empty_table_ok run, of "scanItem (set_nacked run_acked)"] show ?thesis
    by (simp add: scanItem_def run_acked_def run_row_def set_acked_def set_leased_def set_nacked_def)
qed

end
