(* ===== verification/Service.thy ===== *)
theory Service
  imports Doctor
begin

text \<open>
  \<open>internal/platform\<close> and \<open>cmd/burndown-cli/service.go\<close>: the collector as a background service of
  the operating system. \<open>launchctl\<close> and the Windows service manager are not in the repository: a run
  of them is a function of the environment on the manager's own state, of type \<open>'w\<close>. The two
  backends are values of the interface \<open>Service\<close>, a record of its methods, and the commands are
  written over it.
\<close>

subsection \<open>The interface\<close>

datatype launch_verb = Bootout | Bootstrap | Kickstart

datatype scm_error = Scm_Not_Installed | Scm_Other

datatype service_error =
    Unsupported | No_Executable | No_Home | No_Config_Dir
  | Launch_Agents_Dir | Log_Dir | Write_Plist | Remove_Plist
  | Launchctl_Failed launch_verb string
  | Service_Not_Installed
  | Build_Failed | Install_Failed | Start_Failed | Uninstall_Failed | Restart_Failed | Stop_Failed | Query_Failed

text \<open>\<open>Service\<close>: what the methods return and the state they leave.\<close>

record 's service =
  Install :: "'s \<Rightarrow> service_error option \<times> 's"
  Uninstall :: "'s \<Rightarrow> service_error option \<times> 's"
  Start :: "'s \<Rightarrow> service_error option \<times> 's"
  Stop :: "'s \<Rightarrow> service_error option \<times> 's"
  StatusOf :: "'s \<Rightarrow> (service_error + service_state \<times> int) \<times> 's"

definition Label :: string where "Label = ''com.agentburndown.collector''"

subsection \<open>The property list\<close>

text \<open>\<open>xml.EscapeText\<close>: markup and the line characters become references, and a rune outside XML's
  range, or an invalid byte, becomes \<open>U+FFFD\<close>.\<close>

definition xml_char :: "nat \<Rightarrow> bool" where
  "xml_char r \<longleftrightarrow> r = 9 \<or> r = 10 \<or> r = 13 \<or> (32 \<le> r \<and> r \<le> 55295) \<or> (57344 \<le> r \<and> r \<le> 65533) \<or> (65536 \<le> r \<and> r \<le> 1114111)"

definition escape_chunk :: "nat \<times> string \<Rightarrow> string" where
  "escape_chunk c =
     (if fst c = 34 then ''&#34;'' else if fst c = 39 then ''&#39;'' else if fst c = 38 then ''&amp;''
      else if fst c = 60 then ''&lt;'' else if fst c = 62 then ''&gt;'' else if fst c = 9 then ''&#x9;''
      else if fst c = 10 then ''&#xA;'' else if fst c = 13 then ''&#xD;''
      else if \<not> xml_char (fst c) \<or> bad_chunk c then [CHR 0xEF, CHR 0xBF, CHR 0xBD]
      else snd c)"

definition escape :: "string \<Rightarrow> string" where
  "escape s = concat (map escape_chunk (rune_chunks s))"

record plistParams =
  pl_Label :: string
  pl_Program :: string
  pl_Args :: "string list"
  pl_StdoutPath :: string
  pl_StderrPath :: string

abbreviation nl :: char where "nl \<equiv> CHR 0x0A"
abbreviation tb :: char where "tb \<equiv> CHR 0x09"
abbreviation dq :: char where "dq \<equiv> CHR 0x22"

definition writeStringEntry :: "string \<Rightarrow> string \<Rightarrow> string" where
  "writeStringEntry key val =
     tb # ''<key>'' @ key @ ''</key>'' @ nl # tb # ''<string>'' @ escape val @ ''</string>'' @ [nl]"

definition renderPlist :: "plistParams \<Rightarrow> string" where
  "renderPlist p =
     ''<?xml version='' @ dq # ''1.0'' @ dq # '' encoding='' @ dq # ''UTF-8'' @ dq # ''?>'' @ nl #
     ''<!DOCTYPE plist PUBLIC '' @ dq # ''-//Apple//DTD PLIST 1.0//EN'' @ dq # '' '' @
     dq # ''http://www.apple.com/DTDs/PropertyList-1.0.dtd'' @ dq # ''>'' @ nl #
     ''<plist version='' @ dq # ''1.0'' @ dq # ''>'' @ nl # ''<dict>'' @ nl #
     writeStringEntry ''Label'' (pl_Label p) @
     tb # ''<key>ProgramArguments</key>'' @ nl # tb # ''<array>'' @ nl #
     concat (map (\<lambda>arg. tb # tb # ''<string>'' @ escape arg @ ''</string>'' @ [nl]) (pl_Program p # pl_Args p)) @
     tb # ''</array>'' @ nl #
     tb # ''<key>RunAtLoad</key>'' @ nl # tb # ''<true/>'' @ nl #
     tb # ''<key>KeepAlive</key>'' @ nl # tb # ''<true/>'' @ nl #
     writeStringEntry ''StandardOutPath'' (pl_StdoutPath p) @
     writeStringEntry ''StandardErrorPath'' (pl_StderrPath p) @
     ''</dict>'' @ nl # ''</plist>'' @ [nl]"

subsection \<open>The output of \<open>launchctl print\<close>\<close>

text \<open>\<open>pidRe\<close>, matched at the start of a line. \<open>p\<close> and \<open>=\<close> are no space, so skipping all the spaces
  there are is the only way to match.\<close>

definition pid_here :: "string \<Rightarrow> string option" where
  "pid_here s =
     (let s = dropWhile re_space s in
      if \<not> has_prefix s ''pid'' then None
      else (let s = dropWhile re_space (drop 3 s) in
        if \<not> has_prefix s ''='' then None
        else (let ds = takeWhile is_digit (dropWhile re_space (drop 1 s)) in
          if ds = [] then None else Some ds)))"

fun pidRe :: "bool \<Rightarrow> string \<Rightarrow> string option" where
  "pidRe line_start [] = None"
| "pidRe line_start (c # s) =
     (case (if line_start then pid_here (c # s) else None) of
        Some ds \<Rightarrow> Some ds
      | None \<Rightarrow> pidRe (c = nl) s)"

definition parsePrintOutput :: "string \<Rightarrow> service_state \<times> int" where
  "parsePrintOutput out =
     (case pidRe True out of
        None \<Rightarrow> (State_Stopped, 0)
      | Some ds \<Rightarrow>
          (case parse_int ds of None \<Rightarrow> (State_Stopped, 0) | Some pid \<Rightarrow> (State_Running, sint pid)))"

subsection \<open>launchd\<close>

text \<open>The disk holds the property list or not; \<open>launchctl\<close> gets its arguments and finds the file.\<close>

record 'w launchd_state =
  ld_plist :: "string option"
  ld_os :: 'w

record 'w darwin_env =
  da_run :: "string list \<Rightarrow> string option \<Rightarrow> 'w \<Rightarrow> (bool \<times> string) \<times> 'w"
  da_mkdir :: "string \<Rightarrow> bool"
  da_writes :: bool
  da_torn :: "string option"
  da_removes :: bool

record darwinService =
  ds_uid :: int
  ds_program :: string
  ds_plistPath :: string
  ds_stdoutPath :: string
  ds_stderrPath :: string

definition serviceLogDir :: "string option \<Rightarrow> service_error + string" where
  "serviceLogDir dir = (case dir of None \<Rightarrow> Inl No_Config_Dir | Some d \<Rightarrow> Inr (path_join [d, ''logs'']))"

definition newDarwinService ::
    "string option \<Rightarrow> string option \<Rightarrow> string option \<Rightarrow> int \<Rightarrow> service_error + darwinService" where
  "newDarwinService exe home configDir uid =
     (case exe of None \<Rightarrow> Inl No_Executable
      | Some exe \<Rightarrow>
          (case home of None \<Rightarrow> Inl No_Home
           | Some home \<Rightarrow>
               (case serviceLogDir configDir of Inl e \<Rightarrow> Inl e
                | Inr logs \<Rightarrow> Inr \<lparr>ds_uid = uid, ds_program = exe,
                    ds_plistPath = path_join [home, ''Library'', ''LaunchAgents'', Label @ ''.plist''],
                    ds_stdoutPath = path_join [logs, ''collector.out.log''],
                    ds_stderrPath = path_join [logs, ''collector.err.log'']\<rparr>)))"

definition domain_of :: "darwinService \<Rightarrow> string" where
  "domain_of d = ''gui/'' @ itoa (ds_uid d)"

definition target_of :: "darwinService \<Rightarrow> string" where
  "target_of d = ''gui/'' @ itoa (ds_uid d) @ ''/'' @ Label"

definition launchctl :: "'w darwin_env \<Rightarrow> string list \<Rightarrow> 'w launchd_state \<Rightarrow> (bool \<times> string) \<times> 'w launchd_state" where
  "launchctl E args s = (case da_run E args (ld_plist s) (ld_os s) of (r, w) \<Rightarrow> (r, s\<lparr>ld_os := w\<rparr>))"

definition fileExists :: "'w launchd_state \<Rightarrow> bool" where
  "fileExists s \<longleftrightarrow> ld_plist s \<noteq> None"

definition loaded :: "'w darwin_env \<Rightarrow> darwinService \<Rightarrow> 'w launchd_state \<Rightarrow> bool \<times> 'w launchd_state" where
  "loaded E d s = (case launchctl E [''print'', target_of d] s of ((ok, _), s) \<Rightarrow> (ok, s))"

definition service_plist :: "darwinService \<Rightarrow> string" where
  "service_plist d = renderPlist \<lparr>pl_Label = Label, pl_Program = ds_program d, pl_Args = [''serve''],
     pl_StdoutPath = ds_stdoutPath d, pl_StderrPath = ds_stderrPath d\<rparr>"

text \<open>A failed write leaves something or nothing where there was no file, and something where there
  was one.\<close>

definition writePlist :: "'w darwin_env \<Rightarrow> darwinService \<Rightarrow> 'w launchd_state \<Rightarrow> service_error option \<times> 'w launchd_state" where
  "writePlist E d s =
     (if \<not> da_mkdir E (path_dir (ds_plistPath d)) then (Some Launch_Agents_Dir, s)
      else if \<not> da_mkdir E (path_dir (ds_stdoutPath d)) then (Some Log_Dir, s)
      else if \<not> da_writes E
           then (Some Write_Plist, s\<lparr>ld_plist := (if fileExists s then Some (name_of (da_torn E)) else da_torn E)\<rparr>)
      else (None, s\<lparr>ld_plist := Some (service_plist d)\<rparr>))"

definition launch ::
    "'w darwin_env \<Rightarrow> launch_verb \<Rightarrow> string list \<Rightarrow> 'w launchd_state \<Rightarrow> service_error option \<times> 'w launchd_state" where
  "launch E verb args s =
     (case launchctl E args s of ((ok, out), s) \<Rightarrow> (if ok then None else Some (Launchctl_Failed verb out), s))"

definition darwin_Install :: "'w darwin_env \<Rightarrow> darwinService \<Rightarrow> 'w launchd_state \<Rightarrow> service_error option \<times> 'w launchd_state" where
  "darwin_Install E d s =
     (case writePlist E d s of
        (Some e, s) \<Rightarrow> (Some e, s)
      | (None, s) \<Rightarrow>
          (case loaded E d s of (up, s) \<Rightarrow>
             (let s = (if up then snd (launchctl E [''bootout'', target_of d] s) else s)
              in launch E Bootstrap [''bootstrap'', domain_of d, ds_plistPath d] s)))"

definition darwin_Uninstall :: "'w darwin_env \<Rightarrow> darwinService \<Rightarrow> 'w launchd_state \<Rightarrow> service_error option \<times> 'w launchd_state" where
  "darwin_Uninstall E d s =
     (if \<not> fileExists s then (None, s)
      else (case loaded E d s of (up, s) \<Rightarrow>
        (case (if up then launch E Bootout [''bootout'', target_of d] s else (None, s)) of
           (Some e, s) \<Rightarrow> (Some e, s)
         | (None, s) \<Rightarrow> if da_removes E then (None, s\<lparr>ld_plist := None\<rparr>) else (Some Remove_Plist, s))))"

definition darwin_Start :: "'w darwin_env \<Rightarrow> darwinService \<Rightarrow> 'w launchd_state \<Rightarrow> service_error option \<times> 'w launchd_state" where
  "darwin_Start E d s =
     (if \<not> fileExists s then (Some Service_Not_Installed, s)
      else (case loaded E d s of (up, s) \<Rightarrow>
        if \<not> up then launch E Bootstrap [''bootstrap'', domain_of d, ds_plistPath d] s
        else launch E Kickstart [''kickstart'', ''-k'', target_of d] s))"

definition darwin_Stop :: "'w darwin_env \<Rightarrow> darwinService \<Rightarrow> 'w launchd_state \<Rightarrow> service_error option \<times> 'w launchd_state" where
  "darwin_Stop E d s =
     (case loaded E d s of (up, s) \<Rightarrow>
        if \<not> up then (None, s) else launch E Bootout [''bootout'', target_of d] s)"

definition darwin_Status ::
    "'w darwin_env \<Rightarrow> darwinService \<Rightarrow> 'w launchd_state \<Rightarrow> (service_error + service_state \<times> int) \<times> 'w launchd_state" where
  "darwin_Status E d s =
     (case launchctl E [''print'', target_of d] s of ((ok, out), s) \<Rightarrow>
        (Inr (if ok then parsePrintOutput out
              else if fileExists s then (State_Stopped, 0) else (State_Not_Installed, 0)), s))"

definition darwin :: "'w darwin_env \<Rightarrow> darwinService \<Rightarrow> 'w launchd_state service" where
  "darwin E d = \<lparr>Install = darwin_Install E d, Uninstall = darwin_Uninstall E d, Start = darwin_Start E d,
     Stop = darwin_Stop E d, StatusOf = darwin_Status E d\<rparr>"

subsection \<open>The Windows service manager\<close>

datatype scm_status = StatusUnknown | StatusRunning | StatusStopped

record 'w scm =
  sc_Status :: "'w \<Rightarrow> scm_status \<times> scm_error option"
  sc_Install :: "'w \<Rightarrow> bool \<times> 'w"
  sc_Uninstall :: "'w \<Rightarrow> bool \<times> 'w"
  sc_Start :: "'w \<Rightarrow> bool \<times> 'w"
  sc_Stop :: "'w \<Rightarrow> bool \<times> 'w"
  sc_Restart :: "'w \<Rightarrow> bool \<times> 'w"

definition newWindowsService :: "'w scm option \<Rightarrow> service_error + 'w scm" where
  "newWindowsService svc = (case svc of None \<Rightarrow> Inl Build_Failed | Some svc \<Rightarrow> Inr svc)"

definition or_else :: "service_error \<Rightarrow> bool \<times> 'w \<Rightarrow> service_error option \<times> 'w" where
  "or_else e r = (if fst r then None else Some e, snd r)"

definition windows_Install :: "'w scm \<Rightarrow> 'w \<Rightarrow> service_error option \<times> 'w" where
  "windows_Install W s =
     (let s = (if fst (sc_Status W s) \<noteq> StatusUnknown then snd (sc_Uninstall W (snd (sc_Stop W s))) else s) in
      case sc_Install W s of
        (False, s) \<Rightarrow> (Some Install_Failed, s)
      | (True, s) \<Rightarrow> or_else Start_Failed (sc_Start W s))"

definition windows_Uninstall :: "'w scm \<Rightarrow> 'w \<Rightarrow> service_error option \<times> 'w" where
  "windows_Uninstall W s =
     (if snd (sc_Status W s) = Some Scm_Not_Installed then (None, s)
      else or_else Uninstall_Failed (sc_Uninstall W (snd (sc_Stop W s))))"

definition windows_Start :: "'w scm \<Rightarrow> 'w \<Rightarrow> service_error option \<times> 'w" where
  "windows_Start W s =
     (if snd (sc_Status W s) = Some Scm_Not_Installed then (Some Service_Not_Installed, s)
      else or_else Restart_Failed (sc_Restart W s))"

definition windows_Stop :: "'w scm \<Rightarrow> 'w \<Rightarrow> service_error option \<times> 'w" where
  "windows_Stop W s =
     (case sc_Status W s of (st, err) \<Rightarrow>
        if err = Some Scm_Not_Installed \<or> st \<noteq> StatusRunning then (None, s)
        else or_else Stop_Failed (sc_Stop W s))"

definition toState :: "scm_status \<Rightarrow> scm_error option \<Rightarrow> service_error + service_state \<times> int" where
  "toState st err =
     (if err = Some Scm_Not_Installed then Inr (State_Not_Installed, 0)
      else if err \<noteq> None then Inl Query_Failed
      else (case st of
          StatusRunning \<Rightarrow> Inr (State_Running, 0)
        | StatusStopped \<Rightarrow> Inr (State_Stopped, 0)
        | StatusUnknown \<Rightarrow> Inr (State_Not_Installed, 0)))"

definition windows :: "'w scm \<Rightarrow> 'w service" where
  "windows W = \<lparr>Install = windows_Install W, Uninstall = windows_Uninstall W, Start = windows_Start W,
     Stop = windows_Stop W, StatusOf = (\<lambda>s. (toState (fst (sc_Status W s)) (snd (sc_Status W s)), s))\<rparr>"

subsection \<open>The commands\<close>

definition printStatus :: "'s service \<Rightarrow> 's \<Rightarrow> service_error option \<times> string list \<times> 's" where
  "printStatus S s =
     (case StatusOf S s of
        (Inl e, s) \<Rightarrow> (Some e, [], s)
      | (Inr (st, pid), s) \<Rightarrow> (None, [''Status: '' @ service_text st pid], s))"

definition svcInstall :: "'s service \<Rightarrow> 's \<Rightarrow> service_error option \<times> string list \<times> 's" where
  "svcInstall S s =
     (case Install S s of
        (Some e, s) \<Rightarrow> (Some e, [], s)
      | (None, s) \<Rightarrow> (case printStatus S s of (e, out, s) \<Rightarrow> (e, ''Service installed and loaded.'' # out, s)))"

definition svcUninstall :: "'s service \<Rightarrow> 's \<Rightarrow> service_error option \<times> string list \<times> 's" where
  "svcUninstall S s =
     (case StatusOf S s of
        (Inl e, s) \<Rightarrow> (Some e, [], s)
      | (Inr (st, _), s) \<Rightarrow>
          if st = State_Not_Installed then (None, [''Service is not installed; nothing to do.''], s)
          else (case Uninstall S s of
              (Some e, s) \<Rightarrow> (Some e, [], s)
            | (None, s) \<Rightarrow> (None, [''Service stopped and removed.''], s)))"

definition svcStart :: "'s service \<Rightarrow> 's \<Rightarrow> service_error option \<times> string list \<times> 's" where
  "svcStart S s =
     (case Start S s of
        (Some e, s) \<Rightarrow> (Some e, [], s)
      | (None, s) \<Rightarrow> (case printStatus S s of (e, out, s) \<Rightarrow> (e, ''Service started.'' # out, s)))"

definition svcStop :: "'s service \<Rightarrow> 's \<Rightarrow> service_error option \<times> string list \<times> 's" where
  "svcStop S s =
     (case Stop S s of
        (Some e, s) \<Rightarrow> (Some e, [], s)
      | (None, s) \<Rightarrow> (None, [''Service stopped.''], s))"

datatype svc_cmd = Cmd_Install | Cmd_Uninstall | Cmd_Start | Cmd_Stop | Cmd_Status

text \<open>\<open>serviceAction\<close>: the platform's service is resolved first.\<close>

definition serviceAction ::
    "service_error + 's service \<Rightarrow> svc_cmd \<Rightarrow> 's \<Rightarrow> service_error option \<times> string list \<times> 's" where
  "serviceAction svc c s =
     (case svc of
        Inl e \<Rightarrow> (Some e, [], s)
      | Inr S \<Rightarrow> (case c of Cmd_Install \<Rightarrow> svcInstall S s | Cmd_Uninstall \<Rightarrow> svcUninstall S s
          | Cmd_Start \<Rightarrow> svcStart S s | Cmd_Stop \<Rightarrow> svcStop S s | Cmd_Status \<Rightarrow> printStatus S s))"

end
