(* ===== verification/Service_Safety.thy ===== *)
theory Service_Safety
  imports Service
begin

text \<open>
  The contract of the interface \<open>Service\<close> as its comments state it, a locale; the two backends keep it
  when their service manager behaves as documented, and the commands built over it tell the truth.
  The property list carries any path unharmed. With a job whose property list is gone the contract
  breaks.
\<close>

subsection \<open>The contract\<close>

definition state_of :: "'s service \<Rightarrow> 's \<Rightarrow> service_state option" where
  "state_of S s = (case fst (StatusOf S s) of Inl _ \<Rightarrow> None | Inr (st, _) \<Rightarrow> Some st)"

locale service_contract =
  fixes S :: "'s service" and ok :: "'s \<Rightarrow> bool"
  assumes status_pure: "ok s \<Longrightarrow> snd (StatusOf S s) = s"
    and install_keeps: "ok s \<Longrightarrow> ok (snd (Install S s))"
    and uninstall_keeps: "ok s \<Longrightarrow> ok (snd (Uninstall S s))"
    and start_keeps: "ok s \<Longrightarrow> ok (snd (Start S s))"
    and stop_keeps: "ok s \<Longrightarrow> ok (snd (Stop S s))"
    and installed: "ok s \<Longrightarrow> Install S s = (None, s') \<Longrightarrow> state_of S s' \<noteq> Some State_Not_Installed"
    and uninstalled: "ok s \<Longrightarrow> Uninstall S s = (None, s') \<Longrightarrow> state_of S s' = Some State_Not_Installed"
    and absent_start: "ok s \<Longrightarrow> state_of S s = Some State_Not_Installed \<Longrightarrow> Start S s = (Some Service_Not_Installed, s)"
    and started: "ok s \<Longrightarrow> Start S s = (None, s') \<Longrightarrow> state_of S s' \<noteq> Some State_Not_Installed"
    and stopped: "ok s \<Longrightarrow> Stop S s = (None, s') \<Longrightarrow> state_of S s' \<noteq> Some State_Running"
    and absent_stop: "ok s \<Longrightarrow> state_of S s = Some State_Not_Installed \<Longrightarrow> Stop S s = (None, s)"

text \<open>What a command that returns no error has promised with its output.\<close>

definition honest :: "'s service \<Rightarrow> svc_cmd \<Rightarrow> string list \<Rightarrow> 's \<Rightarrow> bool" where
  "honest S c out s =
     (case c of
        Cmd_Uninstall \<Rightarrow> state_of S s = Some State_Not_Installed
      | Cmd_Stop \<Rightarrow> state_of S s \<noteq> Some State_Running
      | _ \<Rightarrow> (\<exists>st pid. fst (StatusOf S s) = Inr (st, pid) \<and> last out = ''Status: '' @ service_text st pid
                 \<and> (c \<noteq> Cmd_Status \<longrightarrow> st \<noteq> State_Not_Installed)))"

context service_contract
begin

lemma status_eq: "ok s \<Longrightarrow> StatusOf S s = (fst (StatusOf S s), s)"
  using status_pure by (metis prod.collapse)

lemma printStatus_spec:
  assumes "ok s" "printStatus S s = (e, out, s')"
  shows "s' = s \<and> (e = None \<longrightarrow>
    (\<exists>st pid. fst (StatusOf S s) = Inr (st, pid) \<and> last out = ''Status: '' @ service_text st pid \<and> out \<noteq> []))"
proof (cases "StatusOf S s")
  case (Pair r t)
  with status_eq [OF assms(1)] have "t = s" by (metis prod.inject)
  with Pair assms(2) show ?thesis by (cases r) (auto simp: printStatus_def)
qed

lemma after_status:
  assumes "ok s" "(case printStatus S s of (e, out, s) \<Rightarrow> (e, line # out, s)) = (e, out, s')" "state_of S s \<noteq> Some State_Not_Installed"
  shows "s' = s \<and> (e = None \<longrightarrow> (\<exists>st pid. fst (StatusOf S s) = Inr (st, pid)
    \<and> last out = ''Status: '' @ service_text st pid \<and> st \<noteq> State_Not_Installed))"
proof -
  obtain e0 out0 t where p: "printStatus S s = (e0, out0, t)" by (metis prod_cases3)
  with assms(2) have "e = e0" "out = line # out0" "s' = t" by simp_all
  with printStatus_spec [OF assms(1) p] assms(3) show ?thesis by (auto simp: state_of_def)
qed

lemma svcInstall_spec:
  assumes "ok s" "svcInstall S s = (e, out, s')"
  shows "ok s' \<and> (e = None \<longrightarrow> honest S Cmd_Install out s')"
proof (cases "Install S s")
  case (Pair r t)
  have t: "ok t" using install_keeps [OF assms(1)] Pair by simp
  show ?thesis
  proof (cases r)
    case None
    with Pair assms(2) have "(case printStatus S t of (e, out, s) \<Rightarrow> (e, ''Service installed and loaded.'' # out, s)) = (e, out, s')"
      by (simp add: svcInstall_def)
    from after_status [OF t this installed [OF assms(1)]] Pair None have "s' = t \<and> (e = None \<longrightarrow>
      (\<exists>st pid. fst (StatusOf S t) = Inr (st, pid) \<and> last out = ''Status: '' @ service_text st pid \<and> st \<noteq> State_Not_Installed))"
      by simp
    with t show ?thesis unfolding honest_def by (simp del: append.simps)
  qed (use Pair assms(2) t in \<open>auto simp: svcInstall_def\<close>)
qed

lemma svcStart_spec:
  assumes "ok s" "svcStart S s = (e, out, s')"
  shows "ok s' \<and> (e = None \<longrightarrow> honest S Cmd_Start out s')"
proof (cases "Start S s")
  case (Pair r t)
  have t: "ok t" using start_keeps [OF assms(1)] Pair by simp
  show ?thesis
  proof (cases r)
    case None
    with Pair assms(2) have "(case printStatus S t of (e, out, s) \<Rightarrow> (e, ''Service started.'' # out, s)) = (e, out, s')"
      by (simp add: svcStart_def)
    from after_status [OF t this started [OF assms(1)]] Pair None have "s' = t \<and> (e = None \<longrightarrow>
      (\<exists>st pid. fst (StatusOf S t) = Inr (st, pid) \<and> last out = ''Status: '' @ service_text st pid \<and> st \<noteq> State_Not_Installed))"
      by simp
    with t show ?thesis unfolding honest_def by (simp del: append.simps)
  qed (use Pair assms(2) t in \<open>auto simp: svcStart_def\<close>)
qed

lemma svcStop_spec:
  assumes "ok s" "svcStop S s = (e, out, s')"
  shows "ok s' \<and> (e = None \<longrightarrow> honest S Cmd_Stop out s')"
  using assms stop_keeps [OF assms(1)] stopped [OF assms(1)]
  by (cases "Stop S s"; cases "fst (Stop S s)") (auto simp: svcStop_def honest_def)

lemma svcUninstall_spec:
  assumes "ok s" "svcUninstall S s = (e, out, s')"
  shows "ok s' \<and> (e = None \<longrightarrow> honest S Cmd_Uninstall out s')"
proof (cases "fst (StatusOf S s)")
  case (Inl x)
  with status_eq [OF assms(1)] have "StatusOf S s = (Inl x, s)" by simp
  with assms show ?thesis by (auto simp: svcUninstall_def)
next
  case (Inr r)
  obtain st pid where r: "r = (st, pid)" by fastforce
  have q: "StatusOf S s = (Inr (st, pid), s)" using status_eq [OF assms(1)] Inr r by simp
  show ?thesis
  proof (cases "st = State_Not_Installed")
    case True
    with q assms show ?thesis by (auto simp: svcUninstall_def honest_def state_of_def)
  next
    case False
    with q assms uninstall_keeps [OF assms(1)] uninstalled [OF assms(1)] show ?thesis
      by (cases "Uninstall S s"; cases "fst (Uninstall S s)") (auto simp: svcUninstall_def honest_def)
  qed
qed

lemma action_spec:
  assumes "ok s" "serviceAction (Inr S) c s = (e, out, s')"
  shows "ok s' \<and> (e = None \<longrightarrow> honest S c out s')"
proof (cases c)
  case Cmd_Install
  with assms(2) have "svcInstall S s = (e, out, s')" by (simp add: serviceAction_def)
  from svcInstall_spec [OF assms(1) this] show ?thesis unfolding Cmd_Install .
next
  case Cmd_Uninstall
  with assms(2) have "svcUninstall S s = (e, out, s')" by (simp add: serviceAction_def)
  from svcUninstall_spec [OF assms(1) this] show ?thesis unfolding Cmd_Uninstall .
next
  case Cmd_Start
  with assms(2) have "svcStart S s = (e, out, s')" by (simp add: serviceAction_def)
  from svcStart_spec [OF assms(1) this] show ?thesis unfolding Cmd_Start .
next
  case Cmd_Stop
  with assms(2) have "svcStop S s = (e, out, s')" by (simp add: serviceAction_def)
  from svcStop_spec [OF assms(1) this] show ?thesis unfolding Cmd_Stop .
next
  case Cmd_Status
  with assms(2) have "printStatus S s = (e, out, s')" by (simp add: serviceAction_def)
  from printStatus_spec [OF assms(1) this] assms(1) show ?thesis
    unfolding Cmd_Status honest_def by (simp del: append.simps) blast
qed

end

text \<open>A run: commands in any order, each with what it printed.\<close>

inductive svc_run :: "'s service \<Rightarrow> 's \<Rightarrow> (svc_cmd \<times> service_error option \<times> string list \<times> 's) list \<Rightarrow> bool" for S where
  svc_none: "svc_run S s []"
| svc_more: "serviceAction (Inr S) c s = (e, out, s') \<Longrightarrow> svc_run S s' es \<Longrightarrow> svc_run S s ((c, e, out, s') # es)"

context service_contract
begin

lemma run_honest:
  assumes "svc_run S s es" "ok s" "(c, None, out, s') \<in> set es"
  shows "honest S c out s'"
  using assms
proof induction
  case (svc_more c e out s t es)
  with action_spec show ?case by auto
qed simp

end

subsection \<open>launchd\<close>

text \<open>What \<open>launchctl\<close> documents, with \<open>up\<close> the fact that the job is loaded: \<open>print\<close> asks it and changes
  nothing, \<open>bootout\<close> unloads, \<open>bootstrap\<close> loads from the property list, \<open>kickstart\<close> restarts a loaded
  job. A failed run does not load or unload.\<close>

definition launchctl_ok :: "'w darwin_env \<Rightarrow> darwinService \<Rightarrow> ('w \<Rightarrow> bool) \<Rightarrow> bool" where
  "launchctl_ok E d up \<longleftrightarrow> (\<forall>p w ok out w'.
     (da_run E [''print'', target_of d] p w = ((ok, out), w') \<longrightarrow> w' = w \<and> ok = up w)
     \<and> (da_run E [''bootout'', target_of d] p w = ((ok, out), w') \<longrightarrow> up w' = (up w \<and> \<not> ok))
     \<and> (da_run E [''bootstrap'', domain_of d, ds_plistPath d] p w = ((ok, out), w') \<longrightarrow> up w' = (up w \<or> ok))
     \<and> (da_run E [''kickstart'', ''-k'', target_of d] p w = ((ok, out), w') \<longrightarrow> up w' = up w))"

text \<open>The invariant: a loaded job has its property list on the disk.\<close>

definition darwin_ok :: "'w darwin_env \<Rightarrow> darwinService \<Rightarrow> ('w \<Rightarrow> bool) \<Rightarrow> 'w launchd_state \<Rightarrow> bool" where
  "darwin_ok E d up s \<longleftrightarrow> launchctl_ok E d up \<and> (up (ld_os s) \<longrightarrow> ld_plist s \<noteq> None)"

lemma launchctl_simps:
  assumes "launchctl_ok E d up"
  shows "launchctl E [''print'', target_of d] s = ((up (ld_os s), snd (fst (launchctl E [''print'', target_of d] s))), s)"
    and "launch E Bootout [''bootout'', target_of d] s = (e, t) \<Longrightarrow>
      ld_plist t = ld_plist s \<and> up (ld_os t) = (up (ld_os s) \<and> e \<noteq> None)"
    and "launch E Bootstrap [''bootstrap'', domain_of d, ds_plistPath d] s = (e, t) \<Longrightarrow>
      ld_plist t = ld_plist s \<and> up (ld_os t) = (up (ld_os s) \<or> e = None)"
    and "launch E Kickstart [''kickstart'', ''-k'', target_of d] s = (e, t) \<Longrightarrow>
      ld_plist t = ld_plist s \<and> up (ld_os t) = up (ld_os s)"
    and "ld_plist (snd (launchctl E [''bootout'', target_of d] s)) = ld_plist s"
proof -
  obtain ok out w where r: "da_run E [''print'', target_of d] (ld_plist s) (ld_os s) = ((ok, out), w)"
    by (metis prod.collapse)
  with assms have "w = ld_os s" "ok = up (ld_os s)" unfolding launchctl_ok_def by blast+
  with r show "launchctl E [''print'', target_of d] s = ((up (ld_os s), snd (fst (launchctl E [''print'', target_of d] s))), s)"
    by (simp add: launchctl_def)
  show "ld_plist t = ld_plist s \<and> up (ld_os t) = (up (ld_os s) \<and> e \<noteq> None)"
    if "launch E Bootout [''bootout'', target_of d] s = (e, t)"
    using that assms by (auto simp: launch_def launchctl_def launchctl_ok_def split: prod.splits)
  show "ld_plist t = ld_plist s \<and> up (ld_os t) = (up (ld_os s) \<or> e = None)"
    if "launch E Bootstrap [''bootstrap'', domain_of d, ds_plistPath d] s = (e, t)"
    using that assms by (auto simp: launch_def launchctl_def launchctl_ok_def split: prod.splits)
  show "ld_plist t = ld_plist s \<and> up (ld_os t) = up (ld_os s)"
    if "launch E Kickstart [''kickstart'', ''-k'', target_of d] s = (e, t)"
    using that assms by (auto simp: launch_def launchctl_def launchctl_ok_def split: prod.splits)
  show "ld_plist (snd (launchctl E [''bootout'', target_of d] s)) = ld_plist s"
    by (simp add: launchctl_def split: prod.splits)
qed

lemma darwin_simps [simp]:
  "Install (darwin E d) = darwin_Install E d" "Uninstall (darwin E d) = darwin_Uninstall E d"
  "Start (darwin E d) = darwin_Start E d" "Stop (darwin E d) = darwin_Stop E d" "StatusOf (darwin E d) = darwin_Status E d"
  by (simp_all add: darwin_def)

lemma parsePrintOutput_installed: "fst (parsePrintOutput out) \<noteq> State_Not_Installed"
  by (simp add: parsePrintOutput_def split: option.splits)

lemma loaded_eq:
  assumes "launchctl_ok E d up"
  shows "loaded E d s = (up (ld_os s), s)"
proof -
  obtain out where "launchctl E [''print'', target_of d] s = ((up (ld_os s), out), s)"
    using launchctl_simps(1) [OF assms, of s] by blast
  then show ?thesis by (simp add: loaded_def)
qed

lemma darwin_status:
  assumes "launchctl_ok E d up"
  shows "snd (darwin_Status E d s) = s"
    and "state_of (darwin E d) s = Some (if up (ld_os s) then fst (parsePrintOutput (snd (fst (launchctl E [''print'', target_of d] s))))
        else if ld_plist s \<noteq> None then State_Stopped else State_Not_Installed)"
proof -
  obtain out where out: "launchctl E [''print'', target_of d] s = ((up (ld_os s), out), s)"
    using launchctl_simps(1) [OF assms, of s] by blast
  then show "snd (darwin_Status E d s) = s" by (simp add: darwin_Status_def)
  show "state_of (darwin E d) s = Some (if up (ld_os s) then fst (parsePrintOutput (snd (fst (launchctl E [''print'', target_of d] s))))
        else if ld_plist s \<noteq> None then State_Stopped else State_Not_Installed)"
    by (auto simp: darwin_Status_def state_of_def fileExists_def out split: prod.splits)
qed

lemma darwin_absent:
  assumes "darwin_ok E d up s"
  shows "state_of (darwin E d) s = Some State_Not_Installed \<longleftrightarrow> ld_plist s = None"
    and "state_of (darwin E d) s = Some State_Running \<Longrightarrow> up (ld_os s)"
  using assms darwin_status(2) [of E d up s] parsePrintOutput_installed
  by (auto simp: darwin_ok_def split: if_splits)

lemma writePlist_plist:
  "writePlist E d s = (e, t) \<Longrightarrow> ld_os t = ld_os s \<and> (ld_plist s \<noteq> None \<longrightarrow> ld_plist t \<noteq> None)
     \<and> (e = None \<longrightarrow> ld_plist t = Some (service_plist d))"
  by (auto simp: writePlist_def fileExists_def split: if_splits)

lemma darwin_Install_spec:
  assumes "darwin_ok E d up s" "darwin_Install E d s = (e, t)"
  shows "darwin_ok E d up t \<and> (e = None \<longrightarrow> ld_plist t \<noteq> None)"
proof (cases "writePlist E d s")
  case (Pair r u)
  from assms(1) have law: "launchctl_ok E d up" by (simp add: darwin_ok_def)
  note w = writePlist_plist [OF Pair]
  show ?thesis
  proof (cases r)
    case None
    define v where "v = (if up (ld_os u) then snd (launchctl E [''bootout'', target_of d] u) else u)"
    have "launch E Bootstrap [''bootstrap'', domain_of d, ds_plistPath d] v = (e, t)"
      using assms(2) Pair None by (simp add: darwin_Install_def loaded_eq [OF law] v_def Let_def)
    moreover have "ld_plist v \<noteq> None"
      using w None launchctl_simps(5) [OF law, of u] by (auto simp: v_def)
    ultimately have "ld_plist t \<noteq> None" using launchctl_simps(3) [OF law] by metis
    with law show ?thesis by (simp add: darwin_ok_def)
  qed (use Pair assms w law in \<open>auto simp: darwin_Install_def darwin_ok_def\<close>)
qed

lemma darwin_Uninstall_spec:
  assumes "darwin_ok E d up s" "darwin_Uninstall E d s = (e, t)"
  shows "darwin_ok E d up t \<and> (e = None \<longrightarrow> ld_plist t = None)"
proof (cases "ld_plist s")
  case (Some content)
  from assms(1) have law: "launchctl_ok E d up" by (simp add: darwin_ok_def)
  obtain r u where ru: "(if up (ld_os s) then launch E Bootout [''bootout'', target_of d] s else (None, s)) = (r, u)"
    by fastforce
  then have u: "ld_plist u = ld_plist s" "r = None \<Longrightarrow> \<not> up (ld_os u)"
    using launchctl_simps(2) [OF law, of s] by (auto split: if_splits)
  have "darwin_Uninstall E d s = (case (r, u) of (Some e, s) \<Rightarrow> (Some e, s)
         | (None, s) \<Rightarrow> if da_removes E then (None, s\<lparr>ld_plist := None\<rparr>) else (Some Remove_Plist, s))"
    using Some by (simp add: darwin_Uninstall_def fileExists_def loaded_eq [OF law] ru [symmetric])
  with assms(2) u Some law show ?thesis
    by (cases r) (auto simp: darwin_ok_def split: if_splits)
qed (use assms in \<open>simp add: darwin_Uninstall_def fileExists_def darwin_ok_def\<close>)

lemma darwin_Start_spec:
  assumes "darwin_ok E d up s" "darwin_Start E d s = (e, t)"
  shows "darwin_ok E d up t \<and> (e = None \<longrightarrow> ld_plist t \<noteq> None)"
    and "ld_plist s = None \<Longrightarrow> e = Some Service_Not_Installed \<and> t = s"
proof -
  from assms(1) have law: "launchctl_ok E d up" by (simp add: darwin_ok_def)
  show "ld_plist s = None \<Longrightarrow> e = Some Service_Not_Installed \<and> t = s"
    using assms(2) by (simp add: darwin_Start_def fileExists_def)
  have "ld_plist t = ld_plist s \<and> (ld_plist s = None \<longrightarrow> e \<noteq> None \<and> t = s)"
    using assms(2) launchctl_simps(3,4) [OF law, of s]
    by (auto simp: darwin_Start_def fileExists_def loaded_eq [OF law] split: if_splits)
  with assms(1) law show "darwin_ok E d up t \<and> (e = None \<longrightarrow> ld_plist t \<noteq> None)"
    by (auto simp: darwin_ok_def)
qed

lemma darwin_Stop_spec:
  assumes "darwin_ok E d up s" "darwin_Stop E d s = (e, t)"
  shows "darwin_ok E d up t \<and> (e = None \<longrightarrow> \<not> up (ld_os t))" and "\<not> up (ld_os s) \<Longrightarrow> e = None \<and> t = s"
proof -
  from assms(1) have law: "launchctl_ok E d up" by (simp add: darwin_ok_def)
  show "\<not> up (ld_os s) \<Longrightarrow> e = None \<and> t = s"
    using assms(2) by (simp add: darwin_Stop_def loaded_eq [OF law])
  show "darwin_ok E d up t \<and> (e = None \<longrightarrow> \<not> up (ld_os t))"
    using assms launchctl_simps(2) [OF law, of s]
    by (auto simp: darwin_Stop_def loaded_eq [OF law] darwin_ok_def split: if_splits)
qed

interpretation launchd: service_contract "darwin E d" "darwin_ok E d up" for E d up
proof unfold_locales
  fix s s' :: "'a launchd_state"
  assume ok: "darwin_ok E d up s"
  then have law: "launchctl_ok E d up" by (simp add: darwin_ok_def)
  show "snd (StatusOf (darwin E d) s) = s" using darwin_status(1) [OF law] by simp
  show "darwin_ok E d up (snd (Install (darwin E d) s))"
    using darwin_Install_spec [OF ok] by (cases "darwin_Install E d s") simp
  show "darwin_ok E d up (snd (Uninstall (darwin E d) s))"
    using darwin_Uninstall_spec [OF ok] by (cases "darwin_Uninstall E d s") simp
  show "darwin_ok E d up (snd (Start (darwin E d) s))"
    using darwin_Start_spec [OF ok] by (cases "darwin_Start E d s") simp
  show "darwin_ok E d up (snd (Stop (darwin E d) s))"
    using darwin_Stop_spec [OF ok] by (cases "darwin_Stop E d s") simp
  show "state_of (darwin E d) s' \<noteq> Some State_Not_Installed" if "Install (darwin E d) s = (None, s')"
    using darwin_Install_spec [OF ok] darwin_absent(1) that by fastforce
  show "state_of (darwin E d) s' = Some State_Not_Installed" if "Uninstall (darwin E d) s = (None, s')"
    using darwin_Uninstall_spec [OF ok] darwin_absent(1) that by fastforce
  show "state_of (darwin E d) s' \<noteq> Some State_Not_Installed" if "Start (darwin E d) s = (None, s')"
    using darwin_Start_spec [OF ok] darwin_absent(1) that by fastforce
  show "state_of (darwin E d) s' \<noteq> Some State_Running" if "Stop (darwin E d) s = (None, s')"
    using darwin_Stop_spec [OF ok] darwin_absent(2) that by fastforce
  assume "state_of (darwin E d) s = Some State_Not_Installed"
  then have none: "ld_plist s = None" using darwin_absent(1) [OF ok] by blast
  then have "\<not> up (ld_os s)" using ok by (auto simp: darwin_ok_def)
  with none show "Start (darwin E d) s = (Some Service_Not_Installed, s)" "Stop (darwin E d) s = (None, s)"
    using darwin_Start_spec(2) [OF ok] darwin_Stop_spec(2) [OF ok]
    by (metis darwin_simps(3) prod.exhaust, metis darwin_simps(4) prod.exhaust)
qed

subsection \<open>The Windows service manager\<close>

text \<open>What the service manager documents, with \<open>inst\<close> the fact that the service is registered.\<close>

definition scm_ok :: "'w scm \<Rightarrow> ('w \<Rightarrow> bool) \<Rightarrow> bool" where
  "scm_ok W inst \<longleftrightarrow> (\<forall>w.
     (snd (sc_Status W w) = Some Scm_Not_Installed \<longleftrightarrow> \<not> inst w)
     \<and> (fst (sc_Status W w) = StatusUnknown \<longrightarrow> snd (sc_Status W w) \<noteq> None)
     \<and> (fst (sc_Install W w) \<longrightarrow> inst (snd (sc_Install W w)))
     \<and> (fst (sc_Uninstall W w) \<longrightarrow> \<not> inst (snd (sc_Uninstall W w)))
     \<and> inst (snd (sc_Start W w)) = inst w
     \<and> inst (snd (sc_Restart W w)) = inst w
     \<and> inst (snd (sc_Stop W w)) = inst w
     \<and> (fst (sc_Stop W w) \<longrightarrow> sc_Status W (snd (sc_Stop W w)) \<noteq> (StatusRunning, None)))"

lemma windows_simps [simp]:
  "Install (windows W) = windows_Install W" "Uninstall (windows W) = windows_Uninstall W"
  "Start (windows W) = windows_Start W" "Stop (windows W) = windows_Stop W"
  "StatusOf (windows W) s = (toState (fst (sc_Status W s)) (snd (sc_Status W s)), s)"
  by (simp_all add: windows_def)

lemma or_else_iff: "or_else e r = (f, s) \<longleftrightarrow> f = (if fst r then None else Some e) \<and> s = snd r"
  by (auto simp: or_else_def)

lemma windows_state:
  assumes "scm_ok W inst"
  shows "state_of (windows W) s = Some State_Not_Installed \<longleftrightarrow> \<not> inst s"
    and "state_of (windows W) s = Some State_Running \<longleftrightarrow> sc_Status W s = (StatusRunning, None)"
proof -
  obtain st err where r: "sc_Status W s = (st, err)" by fastforce
  from assms have "err = Some Scm_Not_Installed \<longleftrightarrow> \<not> inst s" "st = StatusUnknown \<longrightarrow> err \<noteq> None"
    unfolding scm_ok_def by (metis r fst_conv snd_conv)+
  then show "state_of (windows W) s = Some State_Not_Installed \<longleftrightarrow> \<not> inst s"
    "state_of (windows W) s = Some State_Running \<longleftrightarrow> sc_Status W s = (StatusRunning, None)"
    by (auto simp: state_of_def toState_def r split: scm_status.splits if_splits)
qed

interpretation scm: service_contract "windows W" "\<lambda>_. scm_ok W inst" for W and inst :: "'w \<Rightarrow> bool"
proof unfold_locales
  fix s s' :: 'w
  assume ok: "scm_ok W inst"
  note state = windows_state [OF ok]
  note law = ok [unfolded scm_ok_def, rule_format]
  have absent: "snd (sc_Status W s) = Some Scm_Not_Installed \<longleftrightarrow> \<not> inst s" using law by blast
  show "state_of (windows W) s' \<noteq> Some State_Not_Installed" if "Install (windows W) s = (None, s')"
    using that unfolding state(1) windows_simps(1) windows_Install_def Let_def
    by (auto simp: or_else_iff split: prod.splits bool.splits if_splits) (metis fst_conv law snd_conv)+
  show "state_of (windows W) s' = Some State_Not_Installed" if "Uninstall (windows W) s = (None, s')"
    using that law absent unfolding state(1) windows_simps(2) windows_Uninstall_def
    by (auto simp: or_else_iff split: if_splits)
  show "Start (windows W) s = (Some Service_Not_Installed, s)" if "state_of (windows W) s = Some State_Not_Installed"
    using that absent unfolding state(1) by (simp add: windows_Start_def)
  show "state_of (windows W) s' \<noteq> Some State_Not_Installed" if "Start (windows W) s = (None, s')"
    using that law absent unfolding state(1) windows_simps(3) windows_Start_def
    by (auto simp: or_else_iff split: if_splits)
  show "state_of (windows W) s' \<noteq> Some State_Running" if "Stop (windows W) s = (None, s')"
    using that law unfolding state(2) windows_simps(4) windows_Stop_def
    by (auto simp: or_else_iff split: if_splits prod.splits)
  show "Stop (windows W) s = (None, s)" if "state_of (windows W) s = Some State_Not_Installed"
    using that absent unfolding state(1) by (auto simp: windows_Stop_def split: prod.splits)
qed simp_all

subsection \<open>Commands tell the truth\<close>


text \<open>So they do with the Windows service manager.\<close>

theorem windows_commands_honest:
  assumes "scm_ok W inst" "svc_run (windows W) s es" "(c, None, out, s') \<in> set es"
  shows "honest (windows W) c out s'"
  by (rule scm.run_honest [OF assms(2,1,3)])

text \<open>An orphaned job survives its removal. When the property list of a loaded job has been
  deleted, \<open>service uninstall\<close> says that the service was stopped and removed and changes nothing:
  \<open>Uninstall\<close> looks for the file only.\<close>

theorem uninstall_orphan:
  assumes "launchctl_ok E d up" "up (ld_os s)" "ld_plist s = None"
  shows "svcUninstall (darwin E d) s = (None, [''Service stopped and removed.''], s)"
proof -
  obtain out where "launchctl E [''print'', target_of d] s = ((True, out), s)"
    using launchctl_simps(1) [OF assms(1), of s] assms(2) by auto
  then have "darwin_Status E d s = (Inr (parsePrintOutput out), s)" by (simp add: darwin_Status_def)
  with assms(3) parsePrintOutput_installed [of out] show ?thesis
    by (cases "parsePrintOutput out") (simp add: svcUninstall_def darwin_Uninstall_def fileExists_def)
qed

text \<open>\<open>Stop\<close> on Windows takes a failed query for a service that is not running.\<close>

lemma windows_stop_swallows:
  assumes "sc_Status W s = (StatusUnknown, Some Scm_Other)"
  shows "svcStop (windows W) s = (None, [''Service stopped.''], s)"
    and "printStatus (windows W) s = (Some Query_Failed, [], s)"
  using assms by (simp_all add: svcStop_def windows_Stop_def printStatus_def toState_def)

text \<open>A launchd that works: its state is the pid of the loaded job.\<close>

definition sample_darwin :: darwinService where
  "sample_darwin = \<lparr>ds_uid = 501, ds_program = ''/b'', ds_plistPath = ''/l/p'', ds_stdoutPath = ''/o/o'', ds_stderrPath = ''/o/e''\<rparr>"

definition sample_launchd :: "nat option darwin_env" where
  "sample_launchd = \<lparr>da_run = (\<lambda>args p w.
       if hd args = ''print'' then ((w \<noteq> None, ''pid = 7''), w)
       else if hd args = ''bootout'' then ((w \<noteq> None, []), None)
       else if hd args = ''bootstrap'' then ((w = None, []), Some 7)
       else ((w \<noteq> None, []), w)),
     da_mkdir = (\<lambda>_. True), da_writes = True, da_torn = None, da_removes = True\<rparr>"

lemma sample_launchd_ok: "launchctl_ok sample_launchd sample_darwin (\<lambda>w. w \<noteq> None)"
  by (auto simp: launchctl_ok_def sample_launchd_def)


lemma uninstall_orphan_witness:
  "svcUninstall (darwin sample_launchd sample_darwin) \<lparr>ld_plist = None, ld_os = Some 7\<rparr>
     = (None, [''Service stopped and removed.''], \<lparr>ld_plist = None, ld_os = Some 7\<rparr>)"
  by (rule uninstall_orphan [OF sample_launchd_ok]) simp_all

end
