(* ===== verification/Plist_Safety.thy ===== *)
theory Plist_Safety
  imports Service
begin

text \<open>
  The property list of the service is read back: a model of what a reader of XML finds in the
  \<open>string\<close> elements of a text, and the round trip of \<open>renderPlist\<close>.
\<close>

subsection \<open>Reading the property list back\<close>

text \<open>What a reader of XML makes of a text: the contents of its \<open>string\<close> elements, with the
  references resolved.\<close>

definition references :: "(string \<times> char) list" where
  "references = [(''&#34;'', CHR 0x22), (''&#39;'', CHR 0x27), (''&amp;'', CHR ''&''), (''&lt;'', CHR ''<''),
     (''&gt;'', CHR ''>''), (''&#x9;'', tb), (''&#xA;'', nl), (''&#xD;'', CHR 0x0D)]"

function xml_unescape :: "string \<Rightarrow> string" where
  "xml_unescape [] = []"
| "xml_unescape (c # s) =
     (case find (\<lambda>r. has_prefix (c # s) (fst r)) references of
        None \<Rightarrow> c # xml_unescape s
      | Some r \<Rightarrow> snd r # xml_unescape (drop (length (fst r) - 1) s))"
  by pat_completeness auto
termination by (relation "measure length") auto

fun xml_strings :: "string \<Rightarrow> string list" where
  "xml_strings [] = []"
| "xml_strings (c # s) =
     (if has_prefix (c # s) ''<string>''
      then xml_unescape (takeWhile (\<lambda>c. c \<noteq> CHR ''<'') (drop 7 s)) # xml_strings s else xml_strings s)"

definition xml_text :: "string \<Rightarrow> bool" where
  "xml_text s \<longleftrightarrow> valid_utf8 s \<and> (\<forall>c \<in> set (rune_chunks s). xml_char (fst c))"

lemma chunk_shape:
  "x \<in> set (rune_chunks s) \<Longrightarrow> bad_chunk x \<or> (\<exists>c. x = (byte c, [c]) \<and> byte c < 128)
     \<or> (128 \<le> fst x \<and> (\<forall>c \<in> set (snd x). 128 \<le> byte c))"
proof (induction s rule: rune_chunks.induct)
  case (1 s)
  have first: "bad_chunk (r, take w s) \<or> (\<exists>c. (r, take w s) = (byte c, [c]) \<and> byte c < 128)
     \<or> (128 \<le> r \<and> (\<forall>c \<in> set (take w s). 128 \<le> byte c))" if "s \<noteq> []" "decode_rune s = (r, w)" for r w
    using that by (cases s)
      (auto simp: Let_def bad_chunk_def rune_error_def second_ok_def cont_byte_def split: list.splits if_splits)
  show ?case
  proof (cases "s = []")
    case False
    obtain r w where d: "decode_rune s = (r, w)" by fastforce
    show ?thesis
      using first [OF False d] 1(2) "1.IH" [OF False d [symmetric] refl] rune_chunks_step [OF False] d by auto
  qed (use 1(2) in simp)
qed

lemma unescape_plain:
  "\<forall>c \<in> set b. c \<noteq> CHR ''&'' \<Longrightarrow> xml_unescape (b @ t) = b @ xml_unescape t"
  by (induction b) (auto simp: references_def has_prefix_def)

lemma byte_eq: "byte c = byte d \<longleftrightarrow> c = d"
  by (simp add: byte_def)

lemma byte_values:
  "byte (CHR 0x22) = 34" "byte (CHR 0x27) = 39" "byte (CHR ''&'') = 38" "byte (CHR ''<'') = 60" "byte (CHR ''>'') = 62"
  "byte tb = 9" "byte nl = 10" "byte (CHR 0x0D) = 13"
  by (simp_all add: byte_def)

lemma unescape_reference: "(e, c) \<in> set references \<Longrightarrow> xml_unescape (e @ t) = c # xml_unescape t"
  by (auto simp: references_def has_prefix_def)

lemma escape_reference:
  "c \<in> snd ` set references \<Longrightarrow> (escape_chunk (byte c, [c]), c) \<in> set references
     \<and> CHR ''<'' \<notin> set (escape_chunk (byte c, [c]))"
  unfolding references_def
  by (simp only: list.set image_insert image_empty insert_iff empty_iff snd_conv, elim disjE)
    (simp_all add: escape_chunk_def byte_values)

lemma unescape_chunk:
  assumes "x \<in> set (rune_chunks s)" "\<not> bad_chunk x" "xml_char (fst x)"
  shows "xml_unescape (escape_chunk x @ t) = snd x @ xml_unescape t" "CHR ''<'' \<notin> set (escape_chunk x)"
proof -
  have wide: "128 \<le> byte c \<Longrightarrow> c \<noteq> CHR ''&'' \<and> c \<noteq> CHR ''<''" for c by (auto simp: byte_def)
  have "xml_unescape (escape_chunk x @ t) = snd x @ xml_unescape t \<and> CHR ''<'' \<notin> set (escape_chunk x)"
    using chunk_shape [OF assms(1)] assms(2)
  proof (elim disjE exE conjE)
    fix c
    assume c: "x = (byte c, [c])" "byte c < 128"
    show ?thesis
    proof (cases "c \<in> snd ` set references")
      case True
      with c(1) escape_reference [OF True] unescape_reference show ?thesis by simp
    next
      case False
      then have 2: "c \<noteq> CHR ''&''" "c \<noteq> CHR ''<''" by (auto simp: references_def)
      have "byte c \<notin> {34, 39, 38, 60, 62, 9, 10, 13}"
        using False unfolding byte_values [symmetric] insert_iff byte_eq by (simp add: references_def)
      then have "escape_chunk x = [c]" using c assms(2,3) by (simp add: escape_chunk_def)
      with 2 c(1) unescape_plain [of "[c]" t] show ?thesis by simp
    qed
  next
    assume w: "128 \<le> fst x" "\<forall>c \<in> set (snd x). 128 \<le> byte c"
    then have "escape_chunk x = snd x" using assms(2,3) by (simp add: escape_chunk_def)
    with w(2) wide unescape_plain [of "snd x" t] show ?thesis by auto
  qed simp
  then show "xml_unescape (escape_chunk x @ t) = snd x @ xml_unescape t" "CHR ''<'' \<notin> set (escape_chunk x)" by blast+
qed

lemma escape_spec:
  assumes "xml_text s"
  shows "xml_unescape (escape s) = s" "CHR ''<'' \<notin> set (escape s)"
proof -
  have good: "\<not> bad_chunk x" "xml_char (fst x)" if "x \<in> set (rune_chunks s)" for x
    using assms that by (auto simp: xml_text_def valid_utf8_def list_all_iff)
  have "set cs \<subseteq> set (rune_chunks s) \<Longrightarrow> xml_unescape (concat (map escape_chunk cs)) = chunk_bytes cs" for cs
    by (induction cs) (auto simp: unescape_chunk(1) [of _ s] good)
  from this [of "rune_chunks s"] show "xml_unescape (escape s) = s" by (simp add: escape_def)
  show "CHR ''<'' \<notin> set (escape s)"
    using unescape_chunk(2) good unfolding escape_def by auto
qed

lemma xml_strings_skip: "CHR ''<'' \<notin> set a \<Longrightarrow> xml_strings (a @ t) = xml_strings t"
  by (induction a) (auto simp: has_prefix_def)

lemma xml_strings_element:
  assumes "xml_text v"
  shows "xml_strings (''<string>'' @ escape v @ ''</string>'' @ t) = v # xml_strings t"
proof -
  have "takeWhile (\<lambda>c. c \<noteq> CHR ''<'') (escape v @ ''</string>'' @ t) = escape v"
    using escape_spec(2) [OF assms] by (subst takeWhile_append2) auto
  then have "xml_strings (''<string>'' @ escape v @ ''</string>'' @ t) = v # xml_strings (escape v @ ''</string>'' @ t)"
    using escape_spec(1) [OF assms] by (simp add: has_prefix_def)
  also have "xml_strings (escape v @ ''</string>'' @ t) = xml_strings (''</string>'' @ t)"
    by (rule xml_strings_skip [OF escape_spec(2) [OF assms]])
  also have "\<dots> = xml_strings t" by (simp add: has_prefix_def)
  finally show ?thesis .
qed

lemma xml_strings_lead:
  "c \<noteq> CHR ''<'' \<Longrightarrow> xml_strings (c # t) = xml_strings t"
  "d \<noteq> CHR ''s'' \<Longrightarrow> xml_strings (c # d # t) = xml_strings (d # t)"
  by (simp_all add: has_prefix_def)

lemmas xml_lead = xml_strings_lead xml_strings.simps(1)

lemma xml_strings_line:
  assumes "xml_text v"
  shows "xml_strings (tb # ''<string>'' @ escape v @ ''</string>'' @ nl # t) = v # xml_strings t"
  using xml_strings_element [OF assms, of "nl # t"]
  by (simp add: xml_lead(1) del: xml_strings.simps(2) append.simps(2))

lemma xml_strings_entry:
  assumes "xml_text v" "CHR ''<'' \<notin> set key"
  shows "xml_strings (writeStringEntry key v @ t) = v # xml_strings t"
proof -
  define rest where "rest = tb # ''<string>'' @ escape v @ ''</string>'' @ nl # t"
  have "writeStringEntry key v @ t = tb # ''<key>'' @ key @ ''</key>'' @ nl # rest"
    by (simp add: writeStringEntry_def rest_def)
  moreover have "xml_strings (tb # ''<key>'' @ u) = xml_strings u" "xml_strings (''</key>'' @ nl # u) = xml_strings u" for u
    by (simp_all add: xml_lead del: xml_strings.simps(2))
  ultimately have "xml_strings (writeStringEntry key v @ t) = xml_strings rest"
    by (simp only: xml_strings_skip [OF assms(2)])
  then show ?thesis unfolding rest_def xml_strings_line [OF assms(1)] .
qed

lemma xml_strings_args:
  assumes "\<forall>v \<in> set vs. xml_text v"
  shows "xml_strings (concat (map (\<lambda>arg. tb # tb # ''<string>'' @ escape arg @ ''</string>'' @ [nl]) vs) @ t) = vs @ xml_strings t"
  using assms
proof (induction vs)
  case (Cons v vs)
  define u where "u = concat (map (\<lambda>arg. tb # tb # ''<string>'' @ escape arg @ ''</string>'' @ [nl]) vs) @ t"
  have "concat (map (\<lambda>arg. tb # tb # ''<string>'' @ escape arg @ ''</string>'' @ [nl]) (v # vs)) @ t
      = tb # tb # ''<string>'' @ escape v @ ''</string>'' @ nl # u"
    by (simp add: u_def)
  moreover have "xml_strings (tb # tb # ''<string>'' @ escape v @ ''</string>'' @ nl # u) = v # xml_strings u"
    using xml_strings_line [of v u] Cons.prems by (simp add: xml_lead(1) del: xml_strings.simps(2) append.simps(2))
  ultimately show ?case using Cons by (simp only: u_def) simp
qed simp

text \<open>C37: the property list carries what it was given. Whatever text the executable's path or the
  log directory holds, markup included, a reader finds exactly the label, the program, its arguments and
  the two paths as the strings of the file, in this order.\<close>

theorem renderPlist_roundtrip:
  assumes "\<forall>v \<in> set (pl_Label p # pl_Program p # pl_Args p @ [pl_StdoutPath p, pl_StderrPath p]). xml_text v"
  shows "xml_strings (renderPlist p) = pl_Label p # pl_Program p # pl_Args p @ [pl_StdoutPath p, pl_StderrPath p]"
proof -
  have "xml_strings (''</dict>'' @ nl # ''</plist>'' @ [nl]) = []"
    by (simp add: xml_strings_lead del: xml_strings.simps(2))
  moreover have "\<forall>v \<in> set (pl_Program p # pl_Args p). xml_text v" "xml_text (pl_Label p)"
    "xml_text (pl_StdoutPath p)" "xml_text (pl_StderrPath p)"
    using assms by simp_all
  moreover note xml_strings_args [OF this(1)]
  ultimately show ?thesis
    unfolding renderPlist_def
    by (simp add: xml_strings_lead xml_strings_entry del: xml_strings.simps(2) list.map(2) concat.simps(2))
qed

lemma renderPlist_roundtrip_witness:
  "xml_strings (renderPlist \<lparr>pl_Label = Label, pl_Program = ''/a<b>&c'', pl_Args = [''serve''],
     pl_StdoutPath = ''/o'', pl_StderrPath = ''/e''\<rparr>) = [Label, ''/a<b>&c'', ''serve'', ''/o'', ''/e'']"
proof -
  have "xml_text v" if "v \<in> {Label, ''/a<b>&c'', ''serve'', ''/o'', ''/e''}" for v
    using that by (auto simp: Label_def xml_text_def string_eval xml_char_def)
  then show ?thesis
    using renderPlist_roundtrip [of "\<lparr>pl_Label = Label, pl_Program = ''/a<b>&c'', pl_Args = [''serve''],
     pl_StdoutPath = ''/o'', pl_StderrPath = ''/e''\<rparr>"] by simp
qed

end
