(* ===== verification/Stats.thy ===== *)
theory Stats
  imports Queue_Safety Doctor "HOL-Library.Multiset"
begin

text \<open>
  \<open>internal/queue/stats.go\<close> and \<open>cmd/burndown-cli/stats.go\<close>: the local usage report over the
  acknowledged events that are still in the queue. The two queries are SQL; an aggregate over no value
  is \<open>NULL\<close>, an integer sum out of range is an error of the query. How SQLite adds floats, and whether
  a statement fails, is in the environment. The table the text report is laid out with is left out.
\<close>

subsection \<open>The queries\<close>

record DailyStat =
  da_Date :: string
  da_Events :: int64
  da_InputTokens :: int64
  da_OutputTokens :: int64
  da_CacheReadTokens :: int64
  da_CacheCreateTokens :: int64
  da_CostUSD :: float64

record ToolStat =
  ts_Tool :: string
  ts_Count :: int64

record StatsReport =
  sp_Since :: instant
  sp_Daily :: "DailyStat list"
  sp_Tools :: "ToolStat list"

datatype stats_error = Daily_Failed | Tools_Failed | Path_Failed | Read_Failed

record stats_env =
  sx_daily_fails :: bool
  sx_tools_fails :: bool
  sx_float_sum :: "float64 list \<Rightarrow> float64"

definition DefaultTopTools :: int where "DefaultTopTools = 10"

text \<open>\<open>substr(s, 1, n)\<close> counts characters.\<close>

definition substr :: "nat \<Rightarrow> string \<Rightarrow> string" where
  "substr n s = chunk_bytes (take n (rune_chunks s))"

definition acked_since :: "string \<Rightarrow> normalized_event qrow \<Rightarrow> bool" where
  "acked_since cutoff r \<longleftrightarrow> row_state r = Acked \<and> (case row_acked r of None \<Rightarrow> False | Some a \<Rightarrow> cutoff \<le> a)"

definition day_of_row :: "normalized_event qrow \<Rightarrow> string" where
  "day_of_row r = (case ev_Timestamp (row_payload r) of
     Some t \<Rightarrow> substr 10 t | None \<Rightarrow> substr 10 (name_of (row_acked r)))"

text \<open>\<open>COALESCE(SUM(json_extract(payload, '$.f')), 0)\<close> of an integer field: \<open>NULL\<close>s do not count.\<close>

definition int_values :: "(normalized_event \<Rightarrow> int64 option) \<Rightarrow> normalized_event qrow list \<Rightarrow> int list" where
  "int_values f rows = map sint (List.map_filter (\<lambda>r. f (row_payload r)) rows)"

definition sql_sum :: "(normalized_event \<Rightarrow> int64 option) \<Rightarrow> normalized_event qrow list \<Rightarrow> int64 option" where
  "sql_sum f rows = (let s = sum_list (int_values f rows) in if i64_in_range s then Some (i64 s) else None)"

definition scanDaily :: "stats_env \<Rightarrow> string \<Rightarrow> normalized_event qrow list \<Rightarrow> DailyStat option" where
  "scanDaily X day rows =
     Option.bind (sql_sum ev_InputTokens rows) (\<lambda>i.
     Option.bind (sql_sum ev_OutputTokens rows) (\<lambda>out.
     Option.bind (sql_sum ev_CacheReadTokens rows) (\<lambda>cr.
     Option.bind (sql_sum ev_CacheCreateTokens rows) (\<lambda>cc.
       Some \<lparr>da_Date = day, da_Events = of_nat (length rows), da_InputTokens = i, da_OutputTokens = out,
         da_CacheReadTokens = cr, da_CacheCreateTokens = cc,
         da_CostUSD = (case List.map_filter (\<lambda>r. ev_CostUSD (row_payload r)) rows of
            [] \<Rightarrow> Fin 0 | vs \<Rightarrow> sx_float_sum X vs)\<rparr>))))"

text \<open>A group is read, and may fail, before the next.\<close>

fun scan_groups :: "('a \<Rightarrow> 'b option) \<Rightarrow> 'a list \<Rightarrow> 'b list option" where
  "scan_groups f [] = Some []"
| "scan_groups f (x # xs) = Option.bind (f x) (\<lambda>y. Option.bind (scan_groups f xs) (\<lambda>ys. Some (y # ys)))"

definition groups :: "('a \<Rightarrow> string) \<Rightarrow> 'a list \<Rightarrow> string list" where
  "groups f xs = sort (remdups (map f xs))"

definition dailyStats :: "stats_env \<Rightarrow> string \<Rightarrow> normalized_event qrow list \<Rightarrow> stats_error + DailyStat list" where
  "dailyStats X cutoff rows =
     (if sx_daily_fails X then Inl Daily_Failed
      else (let rows = filter (acked_since cutoff) rows in
        case scan_groups (\<lambda>day. scanDaily X day (filter (\<lambda>r. day_of_row r = day) rows)) (groups day_of_row rows) of
          None \<Rightarrow> Inl Daily_Failed | Some ds \<Rightarrow> Inr ds))"

definition topTools :: "stats_env \<Rightarrow> string \<Rightarrow> int \<Rightarrow> normalized_event qrow list \<Rightarrow> stats_error + ToolStat list" where
  "topTools X cutoff limit rows =
     (let limit = (if limit \<le> 0 then DefaultTopTools else limit);
          names = List.map_filter (\<lambda>r. ev_ToolName (row_payload r)) (filter (acked_since cutoff) rows)
      in if sx_tools_fails X then Inl Tools_Failed
         else Inr (map (\<lambda>t. \<lparr>ts_Tool = t, ts_Count = of_nat (count_list names t)\<rparr>)
           (take (nat limit) (sort_key (\<lambda>t. - int (count_list names t)) (groups (\<lambda>t. t) names)))))"

definition StatsSince :: "stats_env \<Rightarrow> instant \<Rightarrow> int \<Rightarrow> normalized_event qrow list \<Rightarrow> stats_error + StatsReport" where
  "StatsSince X since limit rows =
     (let cutoff = format_fixed since in
      case dailyStats X cutoff rows of
        Inl e \<Rightarrow> Inl e
      | Inr daily \<Rightarrow>
          (case topTools X cutoff limit rows of
             Inl e \<Rightarrow> Inl e
           | Inr tools \<Rightarrow> Inr \<lparr>sp_Since = since, sp_Daily = daily, sp_Tools = tools\<rparr>))"

subsection \<open>The command\<close>

record statsTotals =
  tt_Events :: int64
  tt_InputTokens :: int64
  tt_OutputTokens :: int64
  tt_CacheReadTokens :: int64
  tt_CacheCreateTokens :: int64
  tt_CostUSD :: float64

definition add_day :: "statsTotals \<Rightarrow> DailyStat \<Rightarrow> statsTotals" where
  "add_day t d = \<lparr>tt_Events = tt_Events t + da_Events d,
     tt_InputTokens = tt_InputTokens t + da_InputTokens d,
     tt_OutputTokens = tt_OutputTokens t + da_OutputTokens d,
     tt_CacheReadTokens = tt_CacheReadTokens t + da_CacheReadTokens d,
     tt_CacheCreateTokens = tt_CacheCreateTokens t + da_CacheCreateTokens d,
     tt_CostUSD = float_add (tt_CostUSD t) (da_CostUSD d)\<rparr>"

definition sumTotals :: "DailyStat list \<Rightarrow> statsTotals" where
  "sumTotals daily = foldl add_day \<lparr>tt_Events = 0, tt_InputTokens = 0, tt_OutputTokens = 0,
     tt_CacheReadTokens = 0, tt_CacheCreateTokens = 0, tt_CostUSD = Fin 0\<rparr> daily"

record statsOutput =
  so_Days :: int64
  so_Since :: instant
  so_Daily :: "DailyStat list"
  so_Totals :: statsTotals
  so_TopTools :: "ToolStat list"

text \<open>\<open>cfg\<close> is what \<open>loadStatusConfig\<close> returned.\<close>

definition effectiveDays :: "config option \<Rightarrow> int64 \<Rightarrow> int64" where
  "effectiveDays cfg days =
     (let retention = (case cfg of None \<Rightarrow> DefaultRetentionDays | Some cfg \<Rightarrow> Retention cfg)
      in if sint days \<le> 0 \<or> sint days > sint retention then retention else days)"

text \<open>What \<open>OpenReadOnly\<close> finds.\<close>

datatype stats_db = Db_Path_Unknown | Db_Missing | Db_Unreadable | Db_Open "normalized_event qrow list"

definition loadStats :: "stats_env \<Rightarrow> instant \<Rightarrow> stats_db \<Rightarrow> int64 \<Rightarrow> stats_error + StatsReport" where
  "loadStats X now db days =
     (let since = now + sint (- days * i64 (24 * 3600 * nanos)) in
      case db of
        Db_Path_Unknown \<Rightarrow> Inl Path_Failed
      | Db_Missing \<Rightarrow> Inr \<lparr>sp_Since = since, sp_Daily = [], sp_Tools = []\<rparr>
      | Db_Unreadable \<Rightarrow> Inl Read_Failed
      | Db_Open rows \<Rightarrow> StatsSince X since DefaultTopTools rows)"

definition runStats :: "stats_env \<Rightarrow> config option \<Rightarrow> instant \<Rightarrow> stats_db \<Rightarrow> int64 \<Rightarrow> stats_error + statsOutput" where
  "runStats X cfg now db days =
     (let days = effectiveDays cfg days in
      case loadStats X now db days of
        Inl e \<Rightarrow> Inl e
      | Inr report \<Rightarrow> Inr \<lparr>so_Days = days, so_Since = sp_Since report, so_Daily = sp_Daily report,
          so_Totals = sumTotals (sp_Daily report), so_TopTools = sp_Tools report\<rparr>)"

end
