(* ===== verification/Stats_Safety.thy ===== *)
theory Stats_Safety
  imports Stats
begin

text \<open>
  The local usage report adds up: the days partition the acknowledged rows of the window, the totals are
  those of the window, the tools are ranked by their exact counts, and the window is within the retention.
\<close>

subsection \<open>Grouping\<close>

lemma scan_groups_all2: "scan_groups f xs = Some ys \<Longrightarrow> list_all2 (\<lambda>x y. f x = Some y) xs ys"
  by (induction xs arbitrary: ys) (auto simp: bind_eq_Some_conv)

lemma groups_props: "sorted (groups f xs)" "distinct (groups f xs)" "set (groups f xs) = f ` set xs"
  by (simp_all add: groups_def)

lemma sum_list_partition:
  fixes h :: "'a \<Rightarrow> 'b :: comm_monoid_add"
  assumes "distinct ks" "f ` set xs \<subseteq> set ks"
  shows "sum_list (map (\<lambda>k. sum_list (map h (filter (\<lambda>x. f x = k) xs))) ks) = sum_list (map h xs)"
  using assms(2)
proof (induction xs)
  case (Cons x xs)
  have split: "sum_list (map h (filter (\<lambda>x. f x = k) (x # xs)))
      = (if f x = k then h x else 0) + sum_list (map h (filter (\<lambda>x. f x = k) xs))" for k
    by simp
  have "sum_list (map (\<lambda>k. if f x = k then h x else 0) ks) = h x"
    using assms(1) Cons.prems by (simp add: sum_list_distinct_conv_sum_set)
  with Cons show ?case unfolding split by (simp add: sum_list_addf)
qed simp

lemma int_values_sum: "sum_list (int_values f rows) = sum_list (map (\<lambda>r. sint (or_zero (f (row_payload r)))) rows)"
  by (induction rows) (auto simp: int_values_def List.map_filter_def split: option.splits)

lemma i64_sint_sum: "i64 (sum_list (map (\<lambda>r. sint (h r)) rows)) = sum_list (map h rows)"
  by (induction rows) (simp_all add: i64_add i64_def)

lemma sql_sum_Some:
  "sql_sum f rows = Some v \<Longrightarrow> v = sum_list (map (\<lambda>r. or_zero (f (row_payload r))) rows)"
  by (auto simp: sql_sum_def Let_def int_values_sum i64_sint_sum split: if_splits)

subsection \<open>Totals\<close>

lemma sumTotals_fields:
  "tt_Events (foldl add_day t ds) = tt_Events t + sum_list (map da_Events ds)"
  "tt_InputTokens (foldl add_day t ds) = tt_InputTokens t + sum_list (map da_InputTokens ds)"
  "tt_OutputTokens (foldl add_day t ds) = tt_OutputTokens t + sum_list (map da_OutputTokens ds)"
  "tt_CacheReadTokens (foldl add_day t ds) = tt_CacheReadTokens t + sum_list (map da_CacheReadTokens ds)"
  "tt_CacheCreateTokens (foldl add_day t ds) = tt_CacheCreateTokens t + sum_list (map da_CacheCreateTokens ds)"
  by (induction ds arbitrary: t) (simp_all add: add_day_def add.assoc)

definition token_sum :: "(normalized_event \<Rightarrow> int64 option) \<Rightarrow> normalized_event qrow list \<Rightarrow> int64" where
  "token_sum f rows = sum_list (map (\<lambda>r. or_zero (f (row_payload r))) rows)"

lemma scanDaily_fields:
  assumes "scanDaily X day rows = Some d"
  shows "da_Date d = day" "da_Events d = of_nat (length rows)"
    "da_InputTokens d = token_sum ev_InputTokens rows" "da_OutputTokens d = token_sum ev_OutputTokens rows"
    "da_CacheReadTokens d = token_sum ev_CacheReadTokens rows"
    "da_CacheCreateTokens d = token_sum ev_CacheCreateTokens rows"
  using assms by (auto simp: scanDaily_def bind_eq_Some_conv token_sum_def dest: sql_sum_Some)

lemma dailyStats_Inr:
  assumes "dailyStats X cutoff rows = Inr ds"
  defines "rs \<equiv> filter (acked_since cutoff) rows"
  shows "map da_Date ds = groups day_of_row rs"
    and "\<forall>d \<in> set ds. scanDaily X (da_Date d) (filter (\<lambda>r. day_of_row r = da_Date d) rs) = Some d"
proof -
  have "scan_groups (\<lambda>day. scanDaily X day (filter (\<lambda>r. day_of_row r = day) rs)) (groups day_of_row rs) = Some ds"
    using assms(1) by (auto simp: dailyStats_def rs_def Let_def split: if_splits option.splits)
  then have all: "list_all2 (\<lambda>day d. scanDaily X day (filter (\<lambda>r. day_of_row r = day) rs) = Some d) (groups day_of_row rs) ds"
    by (rule scan_groups_all2)
  then have "list_all2 (\<lambda>day d. day = da_Date d) (groups day_of_row rs) ds"
    by (rule list_all2_mono) (simp add: scanDaily_fields(1))
  then show dates: "map da_Date ds = groups day_of_row rs"
    by (simp add: list_all2_conv_all_nth list_eq_iff_nth_eq)
  show "\<forall>d \<in> set ds. scanDaily X (da_Date d) (filter (\<lambda>r. day_of_row r = da_Date d) rs) = Some d"
    using all
  proof (induction rule: list_all2_induct)
    case (Cons day days d ds)
    with scanDaily_fields(1) [OF Cons(1)] show ?case by simp
  qed simp
qed

lemma daily_sum:
  fixes g :: "DailyStat \<Rightarrow> int64"
  assumes "dailyStats X cutoff rows = Inr ds"
    and "\<And>day rs d. scanDaily X day rs = Some d \<Longrightarrow> g d = sum_list (map h rs)"
  shows "sum_list (map g ds) = sum_list (map h (filter (acked_since cutoff) rows))"
proof -
  let ?rs = "filter (acked_since cutoff) rows"
  note daily = dailyStats_Inr [OF assms(1)]
  have "map g ds = map (\<lambda>d. sum_list (map h (filter (\<lambda>r. day_of_row r = da_Date d) ?rs))) ds"
    using daily(2) assms(2) by auto
  also have "\<dots> = map (\<lambda>k. sum_list (map h (filter (\<lambda>r. day_of_row r = k) ?rs))) (groups day_of_row ?rs)"
    unfolding daily(1) [symmetric] by simp
  also have "sum_list \<dots> = sum_list (map h ?rs)"
    by (rule sum_list_partition) (simp_all add: groups_props)
  finally show ?thesis .
qed

lemma of_nat_length: "of_nat (length xs) = sum_list (map (\<lambda>_. 1 :: int64) xs)"
  by (simp add: sum_list_triv)

subsection \<open>Ranking\<close>

definition ranks_before :: "string list \<Rightarrow> string \<Rightarrow> string \<Rightarrow> bool" where
  "ranks_before names t u \<longleftrightarrow> count_list names t > count_list names u
     \<or> (count_list names t = count_list names u \<and> t < u)"

lemma insort_key_ranked:
  fixes f :: "string \<Rightarrow> int"
  assumes "\<forall>y \<in> set xs. x < y" "sorted_wrt (\<lambda>a b. f a < f b \<or> f a = f b \<and> a < b) xs"
  shows "sorted_wrt (\<lambda>a b. f a < f b \<or> f a = f b \<and> a < b) (insort_key f x xs)"
  using assms
proof (induction xs)
  case (Cons y ys)
  show ?case
  proof (cases "f x \<le> f y")
    case True
    have "f x < f z \<or> f x = f z \<and> x < z" if "z \<in> set (y # ys)" for z
      using that True Cons.prems by fastforce
    with True Cons.prems(2) show ?thesis by simp
  next
    case False
    with Cons show ?thesis by (auto simp: set_insort_key)
  qed
qed simp

lemma sort_key_ranked:
  fixes f :: "string \<Rightarrow> int"
  assumes "sorted xs" "distinct xs"
  shows "sorted_wrt (\<lambda>a b. f a < f b \<or> f a = f b \<and> a < b) (sort_key f xs)"
  using assms
proof (induction xs)
  case (Cons x xs)
  then have "\<forall>y \<in> set (sort_key f xs). x < y" by (metis distinct.simps(2) order.not_eq_order_implies_strict set_sort sorted_simps(2))
  with Cons show ?case by (simp add: insort_key_ranked)
qed simp

definition tool_names :: "string \<Rightarrow> normalized_event qrow list \<Rightarrow> string list" where
  "tool_names cutoff rows = List.map_filter (\<lambda>r. ev_ToolName (row_payload r)) (filter (acked_since cutoff) rows)"

lemma topTools_spec:
  assumes "topTools X cutoff limit rows = Inr tools" "0 < limit"
  defines "names \<equiv> tool_names cutoff rows"
  shows "map ts_Count tools = map (\<lambda>t. of_nat (count_list names (ts_Tool t))) tools"
    and "sorted_wrt (ranks_before names) (map ts_Tool tools)"
    and "length tools = min (nat limit) (card (set names))"
    and "t \<in> set names - ts_Tool ` set tools \<Longrightarrow> u \<in> set tools \<Longrightarrow> ranks_before names (ts_Tool u) t"
    and "ts_Tool ` set tools \<subseteq> set names"
proof -
  define L where "L = sort_key (\<lambda>t. - int (count_list names t)) (groups (\<lambda>t. t) names)"
  have tools: "tools = map (\<lambda>t. \<lparr>ts_Tool = t, ts_Count = of_nat (count_list names t)\<rparr>) (take (nat limit) L)"
    using assms(1,2) by (auto simp: topTools_def L_def names_def tool_names_def Let_def split: if_splits)
  then have listed: "map ts_Tool tools = take (nat limit) L" by (simp add: comp_def)
  then have set_listed: "ts_Tool ` set tools = set (take (nat limit) L)" by (metis set_map)
  have ranked: "sorted_wrt (ranks_before names) L"
    using sort_key_ranked [OF groups_props(1,2), of "\<lambda>t. - int (count_list names t)"]
    unfolding L_def by (rule sorted_wrt_mono_rel [rotated]) (auto simp: ranks_before_def)
  have L: "set L = set names" "length L = card (set names)" by (simp_all add: L_def groups_def length_remdups_card_conv)
  show "map ts_Count tools = map (\<lambda>t. of_nat (count_list names (ts_Tool t))) tools" by (simp add: tools)
  show "sorted_wrt (ranks_before names) (map ts_Tool tools)"
    unfolding listed by (rule sorted_wrt_take_drop(1) [OF ranked])
  show "length tools = min (nat limit) (card (set names))" by (simp add: tools L(2) min.commute)
  show "ts_Tool ` set tools \<subseteq> set names" unfolding set_listed L(1) [symmetric] by (rule set_take_subset)
  assume "t \<in> set names - ts_Tool ` set tools" "u \<in> set tools"
  then have "ts_Tool u \<in> set (take (nat limit) L)" "t \<in> set (drop (nat limit) L)"
    using set_take_or_drop [of t L "nat limit"] set_listed L(1) by auto
  then show "ranks_before names (ts_Tool u) t" by (rule take_drop_order [OF ranked])
qed

subsection \<open>The report\<close>

lemma StatsSince_Inr:
  assumes "StatsSince X since limit rows = Inr report"
  shows "dailyStats X (format_fixed since) rows = Inr (sp_Daily report)"
    "topTools X (format_fixed since) limit rows = Inr (sp_Tools report)" "sp_Since report = since"
  using assms by (auto simp: StatsSince_def Let_def split: sum.splits)

lemma runStats_Inr:
  assumes "runStats X cfg now (Db_Open rows) days = Inr out"
  obtains report where "StatsSince X (so_Since out) DefaultTopTools rows = Inr report"
    "so_Daily out = sp_Daily report" "so_TopTools out = sp_Tools report" "so_Totals out = sumTotals (sp_Daily report)"
    "so_Days out = effectiveDays cfg days" "so_Since out = now + sint (- so_Days out * i64 (24 * 3600 * nanos))"
proof -
  from assms obtain report where r: "loadStats X now (Db_Open rows) (effectiveDays cfg days) = Inr report"
    "out = \<lparr>so_Days = effectiveDays cfg days, so_Since = sp_Since report, so_Daily = sp_Daily report,
          so_Totals = sumTotals (sp_Daily report), so_TopTools = sp_Tools report\<rparr>"
    by (auto simp: runStats_def Let_def split: sum.splits)
  from r(1) have s: "StatsSince X (now + sint (- effectiveDays cfg days * i64 (24 * 3600 * nanos))) DefaultTopTools rows = Inr report"
    by (simp add: loadStats_def Let_def)
  show ?thesis using s StatsSince_Inr(3) [OF s] r(2) by (intro that [of report]) simp_all
qed


text \<open>The window: from one day to the retention, at most ten years, and the multiplication does not
  overflow.\<close>

theorem runStats_window:
  assumes "runStats X cfg now (Db_Open rows) days = Inr out"
  shows "1 \<le> sint (so_Days out) \<and> sint (so_Days out) \<le> 3650
    \<and> (\<forall>c. cfg = Some c \<longrightarrow> sint (so_Days out) \<le> sint (Retention c))
    \<and> so_Since out = now - sint (so_Days out) * (24 * 3600 * nanos)"
proof -
  obtain report where r: "so_Days out = effectiveDays cfg days"
    "so_Since out = now + sint (- so_Days out * i64 (24 * 3600 * nanos))"
    using runStats_Inr [OF assms] by metis
  have ret: "1 \<le> sint (Retention c) \<and> sint (Retention c) \<le> 3650" for c
    by (auto simp: Retention_def DefaultRetentionDays_def maxRetentionDays_def)
  have days: "1 \<le> sint (so_Days out)" "sint (so_Days out) \<le> 3650"
    "\<forall>c. cfg = Some c \<longrightarrow> sint (so_Days out) \<le> sint (Retention c)"
    using ret [of "the cfg"] unfolding r(1) effectiveDays_def Let_def
    by (auto simp: DefaultRetentionDays_def split: option.splits)
  define n where "n = sint (so_Days out)"
  have w: "so_Days out = i64 n" by (simp add: n_def i64_def)
  have "- so_Days out * i64 (24 * 3600 * nanos) = i64 (- n * (24 * 3600 * nanos))"
    by (simp add: w i64_def)
  moreover have "i64_in_range (- n * (24 * 3600 * nanos))"
    using days(1,2) by (simp add: i64_in_range_def nanos_def n_def)
  ultimately have "sint (- so_Days out * i64 (24 * 3600 * nanos)) = - n * (24 * 3600 * nanos)" by simp
  with days r(2) show ?thesis by (simp add: n_def)
qed

text \<open>A table with one acknowledged event.\<close>

definition stats_row :: "normalized_event qrow" where
  "stats_row = \<lparr>row_id = 1, row_key = Some ''u'',
     row_payload = empty_event\<lparr>ev_Timestamp := Some ''2026-01-02T03'', ev_ToolName := Some ''Read'', ev_InputTokens := Some 5\<rparr>,
     row_created = [], row_attempts = 0, row_state = Acked, row_until = None, row_acked = Some (replicate 4 (CHR ''9''))\<rparr>"

definition sample_stats :: stats_env where
  "sample_stats = \<lparr>sx_daily_fails = False, sx_tools_fails = False, sx_float_sum = (\<lambda>_. Fin 0)\<rparr>"

lemma sample_stats_simps [simp]: "\<not> sx_daily_fails sample_stats" "\<not> sx_tools_fails sample_stats"
  by (simp_all add: sample_stats_def)

lemma sample_report: "\<exists>out. runStats sample_stats None now (Db_Open [stats_row]) 0 = Inr out"
proof -
  have "\<exists>d. scanDaily sample_stats day [stats_row] = Some d" for day
    by (simp add: scanDaily_def sql_sum_def int_values_def stats_row_def empty_event_def List.map_filter_def i64_in_range_def)
  then obtain f where f: "scanDaily sample_stats day [stats_row] = Some (f day)" for day by metis
  have "\<exists>ds. dailyStats sample_stats cutoff [stats_row] = Inr ds" for cutoff
    by (cases "acked_since cutoff stats_row") (simp_all add: dailyStats_def groups_def f)
  then obtain ds where ds: "dailyStats sample_stats cutoff [stats_row] = Inr (ds cutoff)" for cutoff by metis
  have "\<exists>ts. topTools sample_stats cutoff 10 [stats_row] = Inr ts" for cutoff
    by (simp add: topTools_def Let_def)
  then obtain ts where "topTools sample_stats cutoff 10 [stats_row] = Inr (ts cutoff)" for cutoff by metis
  then show ?thesis by (simp add: runStats_def loadStats_def StatsSince_def DefaultTopTools_def ds Let_def)
qed


lemma runStats_window_witness:
  "\<exists>out. runStats sample_stats None 0 (Db_Open [stats_row]) 0 = Inr out \<and> sint (so_Days out) \<le> 3650"
proof -
  obtain out where r: "runStats sample_stats None 0 (Db_Open [stats_row]) 0 = Inr out" using sample_report by blast
  with runStats_window [OF r] show ?thesis by blast
qed

end
