(* ===== verification/Status_Cmd.thy ===== *)
theory Status_Cmd
  imports Login Doctor Setup_Cmd
begin

text \<open>
  \<open>cmd/burndown-cli/status.go\<close> and \<open>health.go\<close>: the report of the configured identity, the key's expiry
  and the daemon's counters, as text or JSON. The credential store, the answer of the health probe, the
  clock and the version are the environment.
\<close>

subsection \<open>The report\<close>

record inventoryStatus =
  is_Enabled :: bool
  is_Status :: string
  is_LastUploadAt :: string
  is_ItemCount :: int64

record statusReport =
  sr_DaemonUp :: bool
  sr_APIURL :: string
  sr_Machine :: string
  sr_KeyPrefix :: string
  sr_CollectorID :: int64
  sr_KeyExpiresAt :: string
  sr_RotationPending :: bool
  sr_RotationFailures :: int64
  sr_LastRotationAt :: string
  sr_AuthReason :: string
  sr_Counters :: "(string \<times> int64) list"
  sr_Telemetry :: "telemetry option"
  sr_Inventory :: "inventoryStatus option"

record status_env =
  st_open :: bool
  st_load :: cred_env
  st_healthz :: "int \<Rightarrow> reply"
  st_now :: instant
  st_version :: string

definition empty_report :: statusReport where
  "empty_report = \<lparr>sr_DaemonUp = False, sr_APIURL = [], sr_Machine = [], sr_KeyPrefix = [], sr_CollectorID = 0,
     sr_KeyExpiresAt = [], sr_RotationPending = False, sr_RotationFailures = 0, sr_LastRotationAt = [],
     sr_AuthReason = [], sr_Counters = [], sr_Telemetry = None, sr_Inventory = None\<rparr>"

text \<open>The load may migrate the file, as every load does.\<close>

definition loadStatusConfig :: "bool \<Rightarrow> cred_env \<Rightarrow> cred_state \<Rightarrow> config option \<times> cred_state" where
  "loadStatusConfig opened E st =
     (if \<not> opened then (None, st)
      else (case Store_Load E st of
          (Inl e, st) \<Rightarrow> (None, st)
        | (Inr cfg, st) \<Rightarrow> (Some cfg, st)))"

definition report_of :: "status_env \<Rightarrow> config option \<Rightarrow> (string \<times> int64) list option \<Rightarrow> statusReport" where
  "report_of S cfg hz =
     (let r = (case cfg of
          None \<Rightarrow> empty_report
        | Some cfg \<Rightarrow> empty_report\<lparr>sr_APIURL := cfg_APIURL cfg, sr_Machine := cfg_Machine cfg,
            sr_KeyPrefix := keyPrefix (cfg_CollectorKey cfg), sr_CollectorID := cfg_CollectorID cfg,
            sr_KeyExpiresAt := cfg_KeyExpiresAt cfg, sr_RotationPending := (cfg_PendingKey cfg \<noteq> []),
            sr_RotationFailures := cfg_RotationFailures cfg, sr_LastRotationAt := cfg_LastRotationAt cfg,
            sr_AuthReason := cfg_AuthReason cfg,
            sr_Inventory := Some \<lparr>is_Enabled = pol_InventoryEnabled (cfg_Policy cfg),
              is_Status = cfg_InventoryStatus cfg, is_LastUploadAt = cfg_InventoryLastUploadAt cfg,
              is_ItemCount = cfg_InventoryItemCount cfg\<rparr>\<rparr>)
      in case hz of
          None \<Rightarrow> r
        | Some counters \<Rightarrow> r\<lparr>sr_DaemonUp := True, sr_Counters := counters,
            sr_Telemetry := Some (Report (map_of counters) (st_version S))\<rparr>)"

subsection \<open>Text\<close>

definition orDash :: "string \<Rightarrow> string" where "orDash s = (if s = [] then ''-'' else s)"

definition keyDisplay :: "string \<Rightarrow> string" where
  "keyDisplay shown = (if shown = [] then ''-'' else shown @ [CHR 0xE2, CHR 0x80, CHR 0xA6])"

definition idDisplay :: "int64 \<Rightarrow> string" where
  "idDisplay i = (if i = 0 then ''-'' else itoa (sint i))"

definition expiryDisplay :: "instant \<Rightarrow> string \<Rightarrow> string" where
  "expiryDisplay now ts =
     (case parse_rfc3339 ts of
        None \<Rightarrow> ts
      | Some expires \<Rightarrow>
          if time_sub expires now \<le> 0 then ''EXPIRED''
          else (let days = days_until now expires in
            if days < 1 then ''expires in <1d'' else ''expires in '' @ itoa days @ ''d''))"

definition rotationDisplay :: "instant \<Rightarrow> statusReport \<Rightarrow> string" where
  "rotationDisplay now r =
     (if sr_KeyExpiresAt r = [] then ''never expires'' else expiryDisplay now (sr_KeyExpiresAt r))
     @ (if sr_RotationPending r then '' (rotation pending verification)'' else [])
     @ (if sint (sr_RotationFailures r) > 0
        then '' (rotation failing: '' @ itoa (sint (sr_RotationFailures r))
             @ '' attempt(s), run `burndown-cli login` if this continues)'' else [])"

definition unixDisplay :: "int64 \<Rightarrow> string" where
  "unixDisplay sec = (if sec = 0 then ''never'' else format_rfc3339 (sint sec * nanos))"

definition writeCounters :: "(string \<times> int64) list \<Rightarrow> string list" where
  "writeCounters cs =
     (let c = counter_get (map_of cs) in
      [''received:     '' @ itoa (sint (c cReceived)),
       ''filtered:     '' @ itoa (sint (c cFiltered)),
       ''queued:       '' @ itoa (sint (c cQueued)),
       ''queue_depth:  '' @ itoa (sint (c cQueueDepth)),
       ''uploaded:     '' @ itoa (sint (c cUploaded)),
       ''errors:       '' @ itoa (sint (c cErrors + c cUploadErrors)),
       ''last_upload:  '' @ unixDisplay (c cLastUploadAt)])"

definition writeTextReport :: "instant \<Rightarrow> statusReport \<Rightarrow> string list" where
  "writeTextReport now r =
     [if sr_DaemonUp r then ''daemon: running'' else ''daemon: not running'',
      ''api_url:      '' @ orDash (sr_APIURL r),
      ''machine:      '' @ orDash (sr_Machine r),
      ''key:          '' @ keyDisplay (sr_KeyPrefix r),
      ''collector_id: '' @ idDisplay (sr_CollectorID r)]
     @ (if sr_KeyPrefix r \<noteq> [] then [''key_expiry:   '' @ rotationDisplay now r] else [])
     @ (if sr_AuthReason r \<noteq> []
        then [''auth:         DEGRADED ('' @ sr_AuthReason r @ '') '' @ [CHR 0xE2, CHR 0x80, CHR 0x94]
              @ '' run `burndown-cli login`''] else [])
     @ (case sr_Inventory r of None \<Rightarrow> []
        | Some i \<Rightarrow> [''inventory:    '' @ orDash (is_Status i)
            @ (if is_Enabled i then '' ('' @ itoa (sint (is_ItemCount i)) @ '' items; last upload ''
                 @ orDash (is_LastUploadAt i) @ '')'' else [])])
     @ (if sr_DaemonUp r then writeCounters (sr_Counters r) else [])"

subsection \<open>JSON\<close>

definition opt_str :: "string \<Rightarrow> string \<Rightarrow> gomap" where
  "opt_str k v = (if v = [] then [] else [(k, AStr v)])"

definition telemetry_json :: "telemetry \<Rightarrow> any" where
  "telemetry_json t = AMap [(''received'', AInt64 (tel_Received t)), (''filtered'', AInt64 (tel_Filtered t)),
     (''uploaded'', AInt64 (tel_Uploaded t)), (''dropped'', AInt64 (tel_Dropped t)),
     (''errors'', AInt64 (tel_Errors t)), (''queue_depth'', AInt64 (tel_QueueDepth t)),
     (''version'', AStr (tel_Version t))]"

definition inventory_json :: "inventoryStatus \<Rightarrow> any" where
  "inventory_json i = AMap ([(''enabled'', ABool (is_Enabled i)), (''status'', AStr (is_Status i))]
     @ opt_str ''last_upload_at'' (is_LastUploadAt i) @ [(''item_count'', AInt64 (is_ItemCount i))])"

definition writeJSONReport :: "statusReport \<Rightarrow> any" where
  "writeJSONReport r = AMap
     ([(''daemon_up'', ABool (sr_DaemonUp r)), (''api_url'', AStr (sr_APIURL r)), (''machine'', AStr (sr_Machine r)),
       (''key_prefix'', AStr (sr_KeyPrefix r)), (''collector_id'', AInt64 (sr_CollectorID r))]
      @ opt_str ''key_expires_at'' (sr_KeyExpiresAt r)
      @ (if sr_RotationPending r then [(''rotation_pending'', ABool True)] else [])
      @ (if sr_RotationFailures r = 0 then [] else [(''rotation_failures'', AInt64 (sr_RotationFailures r))])
      @ opt_str ''last_rotation_at'' (sr_LastRotationAt r)
      @ opt_str ''auth_reason'' (sr_AuthReason r)
      @ (if sr_Counters r = [] then [] else [(''counters'', AMap (map (\<lambda>(k, v). (k, AInt64 v)) (sr_Counters r)))])
      @ (case sr_Telemetry r of None \<Rightarrow> [] | Some t \<Rightarrow> [(''telemetry'', telemetry_json t)])
      @ (case sr_Inventory r of None \<Rightarrow> [] | Some i \<Rightarrow> [(''inventory'', inventory_json i)]))"

subsection \<open>The command\<close>

definition runStatus ::
    "status_env \<Rightarrow> bool \<Rightarrow> int \<Rightarrow> bool \<Rightarrow> cred_state \<Rightarrow> (any + string list) \<times> cred_state" where
  "runStatus S portSet flagPort asJSON st =
     (case resolvePort (st_open S) (st_load S) portSet flagPort st of (port, st) \<Rightarrow>
      case loadStatusConfig (st_open S) (st_load S) st of (cfg, st) \<Rightarrow>
        (let r = report_of S cfg (probeHealthz (st_healthz S port)) in
         (if asJSON then Inl (writeJSONReport r) else Inr (writeTextReport (st_now S) r), st)))"

end
