(* ===== verification/Status_Safety.thy ===== *)
theory Status_Safety
  imports Status_Cmd Doctor_Safety
begin

text \<open>
  The report of \<open>status\<close>: no more than a prefix of the key in use, and nothing of the pending key or the
  receiver's token, can be told from it; and what it says of the key's expiry, against the doctor.
\<close>

subsection \<open>Secrecy\<close>

text \<open>Two configurations that differ in their keys and the receiver's token only.\<close>

definition same_but_keys :: "config \<Rightarrow> config \<Rightarrow> bool" where
  "same_but_keys c d \<longleftrightarrow> (\<exists>key pending token. d = c\<lparr>cfg_CollectorKey := key, cfg_PendingKey := pending, cfg_ReceiverToken := token\<rparr>)"

text \<open>The report is the same when the keys share their first fourteen bytes and there is a pending key in
  both or in neither.\<close>

theorem status_hides_keys:
  assumes "same_but_keys c d" "keyPrefix (cfg_CollectorKey c) = keyPrefix (cfg_CollectorKey d)"
    "cfg_PendingKey c = [] \<longleftrightarrow> cfg_PendingKey d = []"
  shows "writeJSONReport (report_of S (Some c) hz) = writeJSONReport (report_of S (Some d) hz)
    \<and> writeTextReport now (report_of S (Some c) hz) = writeTextReport now (report_of S (Some d) hz)"
proof -
  have "report_of S (Some c) hz = report_of S (Some d) hz"
    using assms by (auto simp: same_but_keys_def report_of_def)
  then show ?thesis by simp
qed

subsection \<open>The expiry of the key\<close>

lemma expiryDisplay_window:
  assumes "parse_rfc3339 ts = Some t" "\<bar>t - now\<bar> < 2 ^ 63"
  shows "expiryDisplay now ts = (if t \<le> now then ''EXPIRED''
    else if t < now + 24 * 3600 * nanos then ''expires in <1d''
    else ''expires in '' @ itoa ((t - now) div (24 * 3600 * nanos)) @ ''d'')"
proof -
  have s: "time_sub t now = t - now" using assms(2) by (auto simp: time_sub_def)
  have "now < t \<Longrightarrow> days_until now t = (t - now) div (24 * 3600 * nanos)"
    by (simp add: days_until_def s go_quot_def Let_def nanos_def)
  moreover have "(t - now) div (24 * 3600 * nanos) < 1 \<longleftrightarrow> t < now + 24 * 3600 * nanos"
    by (auto simp: nanos_def)
  ultimately show ?thesis by (simp add: expiryDisplay_def assms(1) s Let_def)
qed

text \<open>Two views of an expired key. \<open>status\<close> calls a key expired from the instant it expires; the doctor
  fails it from a whole day later, and until then only warns that it is about to. Before the
  expiry \<open>status\<close> shows the whole days left, and the doctor warns from fourteen days before.\<close>

theorem key_expiry_views:
  assumes "cfg_CollectorKey cfg \<noteq> []" "sint (cfg_RotationFailures cfg) \<le> 0" "cfg_KeyExpiresAt cfg \<noteq> []"
    and "parse_rfc3339 (cfg_KeyExpiresAt cfg) = Some t" "\<bar>t - dx_now D\<bar> < 2 ^ 63"
  shows "rs_Status (checkKeyExpiry D (Inr cfg)) =
      (if t + 24 * 3600 * nanos \<le> dx_now D then Fail else if t < dx_now D + 14 * (24 * 3600 * nanos) then Warn else Pass)
    \<and> expiryDisplay (dx_now D) (cfg_KeyExpiresAt cfg) = (if t \<le> dx_now D then ''EXPIRED''
      else if t < dx_now D + 24 * 3600 * nanos then ''expires in <1d''
      else ''expires in '' @ itoa ((t - dx_now D) div (24 * 3600 * nanos)) @ ''d'')"
  using key_expiry_window [OF assms] expiryDisplay_window [OF assms(4,5)] by simp

lemma status_hides_keys_witness:
  "writeTextReport 0 (report_of S (Some sample_config) None)
    = writeTextReport 0 (report_of S (Some (sample_config\<lparr>cfg_ReceiverToken := ''t''\<rparr>)) None)"
proof -
  have "same_but_keys sample_config (sample_config\<lparr>cfg_ReceiverToken := ''t''\<rparr>)"
    unfolding same_but_keys_def
    by (intro exI [of _ "cfg_CollectorKey sample_config"] exI [of _ "cfg_PendingKey sample_config"] exI [of _ "''t''"]) simp
  from status_hides_keys [OF this] show ?thesis by simp
qed

lemma key_expiry_views_witness:
  "rs_Status (checkKeyExpiry (sample_doctor_env\<lparr>dx_now := 3600 * nanos\<rparr>)
     (Inr (sample_config\<lparr>cfg_KeyExpiresAt := format_rfc3339 0\<rparr>))) = Warn
   \<and> expiryDisplay (3600 * nanos) (format_rfc3339 0) = ''EXPIRED''"
proof -
  have y: "four_digit_year 0" by code_simp
  then have p: "parse_rfc3339 (format_rfc3339 0) = Some 0" using parse_format_rfc3339 [of 0] by simp
  moreover have "format_rfc3339 0 \<noteq> []" by (simp add: format_rfc3339_def split: prod.split)
  ultimately show ?thesis
    using key_expiry_views [of "sample_config\<lparr>cfg_KeyExpiresAt := format_rfc3339 0\<rparr>" 0 "sample_doctor_env\<lparr>dx_now := 3600 * nanos\<rparr>"]
    by (simp add: sample_config_def nanos_def)
qed

end
