(* ===== verification/Serve_Cmd.thy ===== *)
theory Serve_Cmd
  imports Status_Cmd Daemon
begin

text \<open>
  \<open>cmd/burndown-cli/serve.go\<close>, \<open>sendtest.go\<close> and \<open>health.go\<close>: what is checked and written before the
  daemon runs, and the command that posts a synthetic event to it and looks at its counters. The network
  is a function from a request to a response, or none, on a state of any type; the JSON encoder and
  decoder are the environment.
\<close>

subsection \<open>serve\<close>

datatype serve_error = Store_Not_Open | Not_Loaded store_error | Incomplete_Config | Port_Not_Saved store_error | Daemon_Not_Built

definition loadServeConfig :: "cred_env \<Rightarrow> cred_state \<Rightarrow> (serve_error + config) \<times> cred_state" where
  "loadServeConfig E st =
     (case Store_Load E st of
        (Inl e, st) \<Rightarrow> (Inl (Not_Loaded e), st)
      | (Inr cfg, st) \<Rightarrow>
          (if cfg_APIURL cfg = [] \<or> cfg_CollectorKey cfg = [] \<or> cfg_CollectorID cfg = 0
           then Inl Incomplete_Config else Inr cfg, st))"

text \<open>The configuration is a pointer: the save may change it.\<close>

definition persistReceiverPort ::
    "cred_env \<Rightarrow> config \<Rightarrow> int64 \<Rightarrow> cred_state \<Rightarrow> store_error option \<times> config \<times> cred_state" where
  "persistReceiverPort E cfg port st =
     (if cfg_ReceiverPort cfg = port then (None, cfg, st)
      else Store_Save E (cfg\<lparr>cfg_ReceiverPort := port\<rparr>) st)"

text \<open>Up to the run of the daemon: the configuration it was built with.\<close>

definition runServe ::
    "bool \<Rightarrow> cred_env \<Rightarrow> cred_env \<Rightarrow> bool \<Rightarrow> int64 \<Rightarrow> cred_state \<Rightarrow> (serve_error + config) \<times> cred_state" where
  "runServe opened EL ES builds port st =
     (if \<not> opened then (Inl Store_Not_Open, st)
      else (case loadServeConfig EL st of
          (Inl e, st) \<Rightarrow> (Inl e, st)
        | (Inr cfg, st) \<Rightarrow>
            (case persistReceiverPort ES cfg port st of
               (Some e, _, st) \<Rightarrow> (Inl (Port_Not_Saved e), st)
             | (None, cfg, st) \<Rightarrow> (if builds then Inr cfg else Inl Daemon_Not_Built, st))))"

subsection \<open>send-test\<close>

type_synonym 'w network = "http_request \<Rightarrow> 'w \<Rightarrow> response option \<times> 'w"

record json_codec =
  jc_marshal :: "gomap \<Rightarrow> string"
  jc_unmarshal :: "string \<Rightarrow> any option"

datatype sendtest_error = Not_Reachable | Post_Failed | Reprobe_Failed | Not_Queued int

definition local_host :: "int \<Rightarrow> string" where
  "local_host port = ''127.0.0.1:'' @ itoa port"

definition get_request :: "json_codec \<Rightarrow> int \<Rightarrow> string \<Rightarrow> http_request" where
  "get_request J port path = \<lparr>hq_method = ''GET'', hq_path = path, hq_host = local_host port, hq_origin = [],
     hq_contentType = [], hq_token = [], hq_body = Some [], hq_json = jc_unmarshal J\<rparr>"

text \<open>\<open>probeHealthz\<close>: the counters of the answer; an object without counters has none.\<close>

definition counters_of :: "resp_body \<Rightarrow> registry" where
  "counters_of b = (case b of R_Health r \<Rightarrow> r | _ \<Rightarrow> Map.empty)"

definition probe :: "'w network \<Rightarrow> json_codec \<Rightarrow> int \<Rightarrow> 'w \<Rightarrow> registry option \<times> 'w" where
  "probe net J port w =
     (case net (get_request J port ''/healthz'') w of
        (None, w) \<Rightarrow> (None, w)
      | (Some resp, w) \<Rightarrow> (if hr_status resp \<noteq> 200 then None else Some (counters_of (hr_body resp)), w))"

definition attr :: "string \<Rightarrow> string \<Rightarrow> any" where
  "attr k v = AMap [(''key'', AStr k), (''value'', AMap [(''stringValue'', AStr v)])]"

definition syntheticLogPayload :: gomap where
  "syntheticLogPayload = [(''resourceLogs'', ASlice [AMap [(''scopeLogs'', ASlice [AMap [(''logRecords'', ASlice [AMap
     [(''attributes'', ASlice [attr ''event.name'' ''api_request'', attr ''session.id'' ''send-test'',
        attr ''model'' ''send-test'',
        AMap [(''key'', AStr ''input_tokens''), (''value'', AMap [(''intValue'', AStr ''1'')])]])]])]])]])]"

definition receiverToken :: "bool \<Rightarrow> cred_env \<Rightarrow> cred_state \<Rightarrow> string \<times> cred_state" where
  "receiverToken opened E st =
     (case loadStatusConfig opened E st of
        (None, st) \<Rightarrow> ([], st) | (Some cfg, st) \<Rightarrow> (cfg_ReceiverToken cfg, st))"

definition post_request :: "json_codec \<Rightarrow> int \<Rightarrow> string \<Rightarrow> http_request" where
  "post_request J port token = \<lparr>hq_method = ''POST'', hq_path = ''/v1/logs'', hq_host = local_host port, hq_origin = [],
     hq_contentType = ''application/json'', hq_token = token, hq_body = Some (jc_marshal J syntheticLogPayload),
     hq_json = jc_unmarshal J\<rparr>"

text \<open>The status is not looked at: any JSON object is an answer, with a zero where it has no count.\<close>

definition accepted_of :: "resp_body \<Rightarrow> nat" where
  "accepted_of b = (case b of R_Counts accepted dropped \<Rightarrow> accepted | _ \<Rightarrow> 0)"

definition postSyntheticLog :: "'w network \<Rightarrow> json_codec \<Rightarrow> int \<Rightarrow> string \<Rightarrow> 'w \<Rightarrow> nat option \<times> 'w" where
  "postSyntheticLog net J port token w =
     (case net (post_request J port token) w of
        (None, w) \<Rightarrow> (None, w)
      | (Some resp, w) \<Rightarrow> (Some (accepted_of (hr_body resp)), w))"

definition runSendTest ::
    "'w network \<Rightarrow> json_codec \<Rightarrow> int \<Rightarrow> string \<Rightarrow> 'w \<Rightarrow> (sendtest_error + nat \<times> int64) \<times> 'w" where
  "runSendTest net J port token w =
     (case probe net J port w of
        (None, w) \<Rightarrow> (Inl Not_Reachable, w)
      | (Some before, w) \<Rightarrow>
          (case postSyntheticLog net J port token w of
             (None, w) \<Rightarrow> (Inl Post_Failed, w)
           | (Some accepted, w) \<Rightarrow>
               (case probe net J port w of
                  (None, w) \<Rightarrow> (Inl Reprobe_Failed, w)
                | (Some after, w) \<Rightarrow>
                    (let delta = counter_get after cQueued - counter_get before cQueued in
                     (if sint delta \<le> 0 then Inl (Not_Queued (int accepted)) else Inr (accepted, delta), w)))))"

text \<open>The network of a daemon that is running: its server, over its own state.\<close>

definition daemon_network :: "(daemon server \<times> daemon) network" where
  "daemon_network r w = (case w of (s, d) \<Rightarrow> (case ServeHTTP s r d of (resp, s, d) \<Rightarrow> (Some resp, (s, d))))"

end
