(* ===== verification/Serve_Safety.thy ===== *)
theory Serve_Safety
  imports Serve_Cmd Daemon_Safety Setup_Safety
begin

text \<open>
  The test event goes all the way: what \<open>send-test\<close> posts passes the guards of the receiver, the
  normaliser and the filter, and its report says exactly whether the queue took it.
\<close>

subsection \<open>The event\<close>

definition test_event :: "normalized_event \<Rightarrow> bool" where
  "test_event ev \<longleftrightarrow> ev_EventName ev = Some ''claude_code.api_request'' \<and> ev_SessionID ev = Some ''send-test''
     \<and> ev_InputTokens ev = Some 1"

lemma coerce_one: "coerceIntRaw E (AStr ''1'') = AInt64 1"
proof -
  have "trim_space ''1'' = ''1''" by (simp add: string_eval)
  then show ?thesis
    by (simp add: coerceIntRaw_def parse_int_def digits_val_def digit_val_def is_digit_def byte_def i64_in_range_def)
qed

abbreviation test_attrs :: gomap where
  "test_attrs \<equiv> [(''event.name'', AStr ''api_request''), (''session.id'', AStr ''send-test''),
     (''model'', AStr ''send-test''), (''input_tokens'', AInt64 1)]"

lemma test_attrs_decoded:
  "attrsToMap E (ASlice [attr ''event.name'' ''api_request'', attr ''session.id'' ''send-test'', attr ''model'' ''send-test'',
       AMap [(''key'', AStr ''input_tokens''), (''value'', AMap [(''intValue'', AStr ''1'')])]]) = test_attrs"
  by (simp add: attrsToMap_def attrs_put_def attr_def aget_def coerce_one)

lemma test_record:
  assumes "attrsToMap E (aget m ''attributes'') = test_attrs"
  shows "\<exists>ev. flattenLogRecord E (AMap m) repo = Some ev \<and> test_event ev \<and> marshalable_event ev"
proof -
  have "normalizeEventName (pyOr [aget test_attrs ''event.name'', aget test_attrs ''otel.name'', aget m ''eventName''])
      = Some ''claude_code.api_request''"
    by (simp add: aget_def truthy_def normalizeEventName_def claudeNamespace_def contains.simps has_prefix_def)
  then have "flattenLogRecord E (AMap m) repo = Some (log_event E m test_attrs repo ''claude_code.api_request'')"
    by (simp add: flattenLogRecord_def assms)
  moreover have "test_event (log_event E m test_attrs repo ''claude_code.api_request'')"
    by (simp add: test_event_def log_event_def Let_def aget_def sessionAliases_def asString_def truthy_def numericTruthy_def intOrNil_def)
  moreover have "marshalable_event (log_event E m test_attrs repo ''claude_code.api_request'')"
    by (simp add: marshalable_event_def log_event_def Let_def aget_def floatOrNil_def finite_opt_def)
  ultimately show ?thesis by blast
qed

lemma test_batch:
  "\<exists>ev. NormalizeLogBatch E syntheticLogPayload repo = ([ev], 0) \<and> test_event ev \<and> marshalable_event ev"
proof -
  let ?m = "[(''attributes'', ASlice [attr ''event.name'' ''api_request'', attr ''session.id'' ''send-test'',
      attr ''model'' ''send-test'', AMap [(''key'', AStr ''input_tokens''), (''value'', AMap [(''intValue'', AStr ''1'')])]])]"
  have "log_records syntheticLogPayload = [AMap ?m]"
    by (simp add: log_records_def syntheticLogPayload_def map_members_def aget_def asSlice_def)
  moreover obtain ev where "flattenLogRecord E (AMap ?m) repo = Some ev" "test_event ev" "marshalable_event ev"
    using test_record [of E ?m repo] test_attrs_decoded [of E] by (auto simp: aget_def)
  ultimately show ?thesis by (simp add: NormalizeLogBatch_eq map_filter_simps)
qed

subsection \<open>The handler\<close>

lemma queued_only:
  "cReceived \<noteq> cQueued" "cNormalized \<noteq> cQueued" "cFiltered \<noteq> cQueued" "cRollups \<noteq> cQueued" "cErrors \<noteq> cQueued"
  "cQueueDepth \<noteq> cQueued"
  by (simp_all add: counter_names)

lemma upsert_queued:
  "counter_get (up_counters (dm_up (upsert_sessions D evs d))) cQueued = counter_get (up_counters (dm_up d)) cQueued"
  using queued_only(5)
  by (auto simp: upsert_sessions_def on_sessions_def tick_def split: prod.splits sum.splits)

lemma log_prepared_queued:
  assumes "log_prepared D payload d = (events, nd, kept, d1)"
  shows "counter_get (up_counters (dm_up d1)) cQueued = counter_get (up_counters (dm_up d)) cQueued"
proof -
  obtain evs nd' where n: "NormalizeLogBatch (log_env D d) payload (dm_repo d) = (evs, nd')" by fastforce
  obtain es d0 where e: "enrichRepos D evs (on_up tick d) = (es, d0)" by fastforce
  obtain ks f where a: "Apply (dm_filter d0) es = (ks, f)" by fastforce
  have "up_counters (dm_up d0) = up_counters (dm_up d)"
    using pipelineD(4) [OF enrichRepos_pipeline [of D evs "on_up tick d"]] e by (simp add: on_up_def tick_def)
  with assms n e a queued_only show ?thesis by (auto simp: log_prepared_def Let_def upsert_queued)
qed

lemma dueRollups_queued:
  assumes "dueRollups D d = (rollups, d')" "\<And>k p. length (de_rollups D k p) = length p"
  shows "counter_get (up_counters (dm_up d')) cQueued = counter_get (up_counters (dm_up d)) cQueued"
    and "length rollups \<le> length (nf_pending (dm_filter d))"
  using assms queued_only
  by (auto simp: dueRollups_def FlushRollups_def Let_def on_up_def tick_def split: if_splits)

lemma attribute_test: "test_event ev \<Longrightarrow> test_event (attribute g ev)"
  by (simp add: attribute_def test_event_def Let_def)

lemma handle_test:
  assumes keep: "nf_drop (dm_filter d) = dropFamilies"
    and order: "\<And>k p. length (de_rollups D k p) = length p"
    and run: "handleLogs D syntheticLogPayload d = ((accepted, dropped), d')"
  shows "\<exists>E evs res. Enqueue E queue_caps evs (up_events (dm_up d)) = (res, up_events (dm_up d'))
    \<and> (\<exists>ev \<in> set evs. test_event ev) \<and> length evs \<le> 1 + length (nf_pending (dm_filter d)) \<and> evs \<noteq> []
    \<and> accepted = (if res = Inr () then 1 else 0)
    \<and> counter_get (up_counters (dm_up d')) cQueued
      = counter_get (up_counters (dm_up d)) cQueued + (if res = Inr () then of_nat (length evs) else 0)"
proof -
  obtain events nd kept d1 where p: "log_prepared D syntheticLogPayload d = (events, nd, kept, d1)" by (metis prod.exhaust)
  obtain rollups d2 where r: "dueRollups D d1 = (rollups, d2)" by fastforce
  obtain b d3 where e: "enqueue_events D (kept @ rollups) d2 = (b, d3)" by fastforce
  note f = log_prepared_facts [OF p] and q = dueRollups_queued [OF r order] and h = enqueue_events_fields [OF e]
  obtain ev where ev: "NormalizeLogBatch (log_env D d) syntheticLogPayload (dm_repo d) = ([ev], 0)" "test_event ev"
    using test_batch by blast
  obtain g where "events = map (attribute g) [ev]" "nd = 0"
    using p ev(1) enrichRepos_map [of D "[ev]" "on_up tick d"] by (auto simp: log_prepared_def Let_def split: prod.splits)
  then have events: "events = [attribute g ev]" "nd = 0" by simp_all
  have t: "test_event (attribute g ev)" by (rule attribute_test [OF ev(2)])
  then have "shouldKeep (dm_filter d) (name_of (ev_EventName (attribute g ev)))"
    using keep by (simp add: test_event_def shouldKeep_def name_of_def dropFamilies_def trim_prefix_def has_prefix_def)
  then have kept: "kept = [attribute g ev]" "nf_pending (dm_filter d1) = nf_pending (dm_filter d)"
    using f(3) events by (auto simp: Let_def dest: arg_cong [where f = nf_pending])
  from kept(1) have one: "length kept = 1" by simp
  obtain res where res: "Enqueue (q_at (de_up D) (dm_up d2)) queue_caps (kept @ rollups) (up_events (dm_up d)) = (res, up_events (dm_up d3))"
    "b \<longleftrightarrow> res = Inr ()" using h(3) f(5) dueRollups_facts(1) [OF r] by auto
  have d': "up_events (dm_up d') = up_events (dm_up d3)" "accepted = (if b then 1 else 0)"
    "counter_get (up_counters (dm_up d')) cQueued
      = counter_get (up_counters (dm_up d3)) cQueued + (if b then of_nat (length (kept @ rollups)) else 0)"
    using run queued_only(5) one by (auto simp: handleLogs_eq p r e split: bool.splits)
  have "counter_get (up_counters (dm_up d3)) cQueued = counter_get (up_counters (dm_up d)) cQueued"
    using h(2) q(1) log_prepared_queued [OF p] by simp
  moreover have "length (kept @ rollups) \<le> 1 + length (nf_pending (dm_filter d))" using kept q(2) by simp
  ultimately show ?thesis
    using res d' t kept(1)
    by (intro exI [of _ "q_at (de_up D) (dm_up d2)"] exI [of _ "kept @ rollups"] exI [of _ res]) simp
qed

subsection \<open>Through the receiver\<close>

lemma startReceiver_fields:
  assumes "startReceiver D port token = Some s"
  shows "sv_handler s = Some (\<lambda>payload d. (case handleLogs D payload d of (res, d) \<Rightarrow> (Some res, d)))"
    "sv_counters s = Some (countersSnapshot D)" "sv_token s = token"
  using assms by (auto simp: startReceiver_def NewServer_def Let_def split: if_splits)

lemma reject_counters [simp]: "sv_counters (snd (reject s r)) = sv_counters s"
  by (simp add: reject_def rejectToken_def)

lemma ServeHTTP_counters:
  assumes "ServeHTTP s r d = (resp, s', d')"
  shows "sv_counters s' = sv_counters s"
proof (cases "reject s r")
  case (Pair x s1)
  then have "sv_counters s1 = sv_counters s" using reject_counters [of s r] by simp
  with assms Pair show ?thesis
    by (cases x) (auto simp: ServeHTTP_def srvLogs_def srvMetrics_def Let_def split: if_splits prod.splits)
qed

lemma snapshot_queued:
  "counter_get (own ++ countersSnapshot D d) cQueued
    = (case up_counters (dm_up d) cQueued of Some v \<Rightarrow> v | None \<Rightarrow> counter_get own cQueued)"
  using queued_only(6)
  by (simp add: countersSnapshot_def counter_get_def counter_set_def map_add_def split: sum.splits option.splits)

lemma local_host_ok: "0 \<le> port \<Longrightarrow> isLoopbackHost (local_host port)"
proof -
  assume "0 \<le> port"
  then have "plain_port (itoa port)"
    using dec_nat_digits by (simp add: plain_port_def itoa_def is_digit_def list_all_iff)
  moreover have "requireLoopback ''127.0.0.1''"
    by (simp add: requireLoopback_def parse_ip_def parse_ipv4_def ipv4_field_def is_digit_def digits_val_def digit_val_def
        byte_def is_loopback_def Let_def)
  ultimately show ?thesis
    using bound_host_accepted [of "''127.0.0.1''" "itoa port"] by (simp add: join_host_port_def local_host_def)
qed

lemma probe_daemon:
  assumes "0 \<le> port" "sv_counters s = Some (countersSnapshot D)"
  shows "\<exists>reg. probe daemon_network J port (s, d) = (Some reg, (s, d))
    \<and> counter_get reg cQueued = counter_get (up_counters (dm_up d)) cQueued"
proof -
  let ?r = "get_request J port ''/healthz''"
  have "reject s ?r = (None, s)"
    using local_host_ok [OF assms(1)] by (simp add: reject_def get_request_def)
  then have "ServeHTTP s ?r d = (srvHealth s d, s, d)" by (simp add: ServeHTTP_def get_request_def)
  moreover have "counter_get (counters_of (hr_body (srvHealth s d))) cQueued = counter_get (up_counters (dm_up d)) cQueued"
    by (simp add: srvHealth_def writeJSON_def counters_of_def assms(2) snapshot_queued Let_def)
      (simp add: counter_get_def cQueued_def split: option.splits)
  ultimately show ?thesis by (simp add: probe_def daemon_network_def srvHealth_def writeJSON_def Let_def)
qed

lemma post_daemon:
  assumes start: "startReceiver D port0 token = Some s"
    and codec: "jc_unmarshal J (jc_marshal J syntheticLogPayload) = Some (AMap syntheticLogPayload)"
      "length (jc_marshal J syntheticLogPayload) \<le> maxBodyBytes"
    and port: "0 \<le> port" and run: "handleLogs D syntheticLogPayload d = ((accepted, dropped), d')"
  shows "\<exists>s'. postSyntheticLog daemon_network J port token (s, d) = (Some accepted, (s', d'))
    \<and> sv_counters s' = Some (countersSnapshot D)"
proof -
  let ?r = "post_request J port token"
  note st = startReceiver_fields [OF start]
  have adm: "admitted s ?r"
    using local_host_ok [OF port] sample_hosts(3) st(3) by (simp add: admitted_def post_request_def)
  have body: "decodeBody ?r = syntheticLogPayload"
    using codec by (simp add: decodeBody_def post_request_def)
  obtain s' where s': "ServeHTTP s ?r d = (writeJSON 200 (R_Counts accepted dropped), s', d')"
    using ServeHTTP_answers [OF adm _ refl, of d] st(1) body run by (auto simp: post_request_def)
  with ServeHTTP_counters [OF s'] st(2) show ?thesis
    by (simp add: postSyntheticLog_def daemon_network_def writeJSON_def accepted_of_def)
qed


definition test_codec :: json_codec where
  "test_codec = \<lparr>jc_marshal = (\<lambda>_. ''{}''), jc_unmarshal = (\<lambda>_. Some (AMap syntheticLogPayload))\<rparr>"


end
