(* ===== verification/Queue_Schema.thy ===== *)
theory Queue_Schema
  imports Sql_Queue
begin

text \<open>
  The database file of \<open>internal/queue\<close>: its schema, and \<open>Open\<close>, \<open>OpenReadOnly\<close>, \<open>Check\<close> (\<open>queue.go\<close>,
  \<open>metrics.go\<close>, \<open>sessions.go\<close>). The catalogue lists the tables, with their columns and rows, and the
  indexes; the statements of \<open>Open\<close> are those of SQL on it. A row lists the cells it stores, and a column
  it does not list reads as \<open>NULL\<close>, which is what \<open>ALTER TABLE ADD COLUMN\<close> leaves in old rows. The
  pragmas change no table. Statement \<open>k\<close> of an \<open>Open\<close> fails when the oracle says so.
\<close>

subsection \<open>Catalogue and statements\<close>

datatype sql_value = S_Null | S_Int int | S_Text string

datatype sql_type = INTEGER | TEXT

record column =
  cn_name :: string
  cn_type :: sql_type
  cn_pk :: bool
  cn_notnull :: bool
  cn_default :: "sql_value option"

type_synonym sql_row = "(string \<times> sql_value) list"

record sql_table =
  st_columns :: "column list"
  st_rows :: "sql_row list"

record database =
  db_tables :: "(string \<times> sql_table) list"
  db_indexes :: "(string \<times> string) list"

datatype ddl =
    Pragma string
  | Create_Table string "column list"
  | Create_Index string string "string list"
  | Add_Column string column

datatype sql_error = No_Table string | No_Column string | Name_Taken string | Duplicate_Column string | Not_Null string
  | Io_Error

definition col_names :: "column list \<Rightarrow> string list" where
  "col_names cs = map cn_name cs"

definition lookup_table :: "database \<Rightarrow> string \<Rightarrow> sql_table option" where
  "lookup_table db t = map_of (db_tables db) t"

definition put_table :: "string \<Rightarrow> sql_table \<Rightarrow> database \<Rightarrow> database" where
  "put_table t tb db = db\<lparr>db_tables := map (\<lambda>(n, x). (n, if n = t then tb else x)) (db_tables db)\<rparr>"

definition has_index :: "database \<Rightarrow> string \<Rightarrow> bool" where
  "has_index db i \<longleftrightarrow> i \<in> fst ` set (db_indexes db)"

fun exec_ddl :: "ddl \<Rightarrow> database \<Rightarrow> sql_error + database" where
  "exec_ddl (Pragma p) db = Inr db"
| "exec_ddl (Create_Table t cs) db =
     (if lookup_table db t \<noteq> None then Inr db
      else if has_index db t then Inl (Name_Taken t)
      else Inr (db\<lparr>db_tables := db_tables db @ [(t, \<lparr>st_columns = cs, st_rows = []\<rparr>)]\<rparr>))"
| "exec_ddl (Create_Index i t cs) db =
     (if has_index db i then Inr db
      else if lookup_table db i \<noteq> None then Inl (Name_Taken i)
      else case lookup_table db t of
          None \<Rightarrow> Inl (No_Table t)
        | Some tb \<Rightarrow>
            if set cs \<subseteq> set (col_names (st_columns tb))
            then Inr (db\<lparr>db_indexes := db_indexes db @ [(i, t)]\<rparr>)
            else Inl (No_Column t))"
| "exec_ddl (Add_Column t c) db =
     (case lookup_table db t of
        None \<Rightarrow> Inl (No_Table t)
      | Some tb \<Rightarrow>
          if cn_name c \<in> set (col_names (st_columns tb)) then Inl (Duplicate_Column (cn_name c))
          else Inr (put_table t (tb\<lparr>st_columns := st_columns tb @ [c]\<rparr>) db))"

text \<open>An \<open>INSERT\<close> that names the cells it gives: the others take their default, an \<open>INTEGER PRIMARY
  KEY\<close> a fresh id.\<close>

definition cell_value :: "int \<Rightarrow> sql_row \<Rightarrow> column \<Rightarrow> sql_value" where
  "cell_value fresh given c =
     (case map_of given (cn_name c) of
        Some v \<Rightarrow> v
      | None \<Rightarrow> if cn_pk c \<and> cn_type c = INTEGER then S_Int fresh
                else (case cn_default c of Some d \<Rightarrow> d | None \<Rightarrow> S_Null))"

definition insert_sql :: "int \<Rightarrow> string \<Rightarrow> sql_row \<Rightarrow> database \<Rightarrow> sql_error + database" where
  "insert_sql fresh t given db =
     (case lookup_table db t of
        None \<Rightarrow> Inl (No_Table t)
      | Some tb \<Rightarrow>
          if \<not> fst ` set given \<subseteq> set (col_names (st_columns tb)) then Inl (No_Column t)
          else if list_ex (\<lambda>c. cn_notnull c \<and> cell_value fresh given c = S_Null) (st_columns tb)
          then Inl (Not_Null t)
          else Inr (put_table t (tb\<lparr>st_rows := st_rows tb
                 @ [map (\<lambda>c. (cn_name c, cell_value fresh given c)) (st_columns tb)]\<rparr>) db))"

subsection \<open>The schema\<close>

definition plain :: "string \<Rightarrow> column" where
  "plain n = \<lparr>cn_name = n, cn_type = TEXT, cn_pk = False, cn_notnull = False, cn_default = None\<rparr>"

definition required :: "string \<Rightarrow> column" where
  "required n = (plain n)\<lparr>cn_notnull := True\<rparr>"

definition row_key_column :: column where
  "row_key_column = \<lparr>cn_name = ''id'', cn_type = INTEGER, cn_pk = True, cn_notnull = False, cn_default = None\<rparr>"

definition counted :: "string \<Rightarrow> int \<Rightarrow> column" where
  "counted n v = \<lparr>cn_name = n, cn_type = INTEGER, cn_pk = False, cn_notnull = True, cn_default = Some (S_Int v)\<rparr>"

text \<open>The columns every queue table ends with.\<close>

definition lease_columns :: "column list" where
  "lease_columns = [counted ''attempts'' 0, (required ''state'')\<lparr>cn_default := Some (S_Text ''pending'')\<rparr>,
     plain ''leased_until'', plain ''acked_at'']"

definition queue_columns :: "column list" where
  "queue_columns = [row_key_column, required ''event_id'', required ''payload'', required ''created_at''] @ lease_columns"

definition queue_stmts :: "ddl list" where
  "queue_stmts = [Pragma ''journal_mode=WAL'', Pragma ''busy_timeout=5000'', Pragma ''auto_vacuum=INCREMENTAL'',
     Create_Table ''queue'' queue_columns,
     Create_Index ''idx_queue_state'' ''queue'' [''state'', ''id'']]"

definition point_id_column :: column where
  "point_id_column = plain ''point_id''"

text \<open>The \<open>metrics_queue\<close> of the first release, without \<open>point_id\<close>, and the one of today.\<close>

definition metrics_columns_v1 :: "column list" where
  "metrics_columns_v1 = [row_key_column, required ''payload'', required ''created_at''] @ lease_columns"

definition metrics_columns :: "column list" where
  "metrics_columns = metrics_columns_v1 @ [point_id_column]"

definition metrics_stmts :: "ddl list" where
  "metrics_stmts = [Create_Table ''metrics_queue'' metrics_columns,
     Create_Index ''idx_metrics_queue_state'' ''metrics_queue'' [''state'', ''id'']]"

definition session_columns :: "column list" where
  "session_columns = [\<lparr>cn_name = ''session_id'', cn_type = TEXT, cn_pk = True, cn_notnull = False, cn_default = None\<rparr>,
     counted ''revision'' 1, required ''payload'', required ''updated_at'', required ''created_at''] @ lease_columns"

definition session_stmts :: "ddl list" where
  "session_stmts = [Create_Table ''sessions_queue'' session_columns,
     Create_Index ''idx_sessions_queue_state'' ''sessions_queue'' [''state'', ''updated_at'']]"

subsection \<open>Open\<close>

text \<open>\<open>op_fail k\<close>: statement \<open>k\<close> fails. The statements of \<open>init\<close> are 0 to 4, of \<open>initMetrics\<close> 5 to 8
  (7 is the \<open>table_info\<close> query, 8 the \<open>ALTER TABLE\<close>), of \<open>initSessions\<close> 9 and 10.\<close>

record open_env =
  op_connect :: bool
  op_fail :: "nat \<Rightarrow> bool"

datatype open_error = Connect_Failed | Schema_Error nat sql_error

fun exec_stmts :: "(nat \<Rightarrow> bool) \<Rightarrow> nat \<Rightarrow> ddl list \<Rightarrow> database \<Rightarrow> (open_error + unit) \<times> database" where
  "exec_stmts F k [] db = (Inr (), db)"
| "exec_stmts F k (s # ss) db =
     (if F k then (Inl (Schema_Error k Io_Error), db)
      else case exec_ddl s db of
          Inl e \<Rightarrow> (Inl (Schema_Error k e), db)
        | Inr db' \<Rightarrow> exec_stmts F (k + 1) ss db')"

definition initQueue :: "(nat \<Rightarrow> bool) \<Rightarrow> database \<Rightarrow> (open_error + unit) \<times> database" where
  "initQueue F db = exec_stmts F 0 queue_stmts db"

text \<open>\<open>PRAGMA table_info\<close> lists the columns of a table, and none for a table that is not there.\<close>

definition table_info :: "database \<Rightarrow> string \<Rightarrow> column list" where
  "table_info db t = (case lookup_table db t of None \<Rightarrow> [] | Some tb \<Rightarrow> st_columns tb)"

fun scan_columns :: "column list \<Rightarrow> string \<Rightarrow> bool" where
  "scan_columns [] column = False"
| "scan_columns (c # cs) column = (if cn_name c = column then True else scan_columns cs column)"

definition hasColumn :: "(nat \<Rightarrow> bool) \<Rightarrow> database \<Rightarrow> string \<Rightarrow> string \<Rightarrow> open_error + bool" where
  "hasColumn F db t column =
     (if F 7 then Inl (Schema_Error 7 Io_Error) else Inr (scan_columns (table_info db t) column))"

definition migrateMetricsPointID :: "(nat \<Rightarrow> bool) \<Rightarrow> database \<Rightarrow> (open_error + unit) \<times> database" where
  "migrateMetricsPointID F db =
     (case hasColumn F db ''metrics_queue'' ''point_id'' of
        Inl e \<Rightarrow> (Inl e, db)
      | Inr has \<Rightarrow>
          if has then (Inr (), db)
          else exec_stmts F 8 [Add_Column ''metrics_queue'' point_id_column] db)"

definition initMetrics :: "(nat \<Rightarrow> bool) \<Rightarrow> database \<Rightarrow> (open_error + unit) \<times> database" where
  "initMetrics F db =
     (case exec_stmts F 5 metrics_stmts db of
        (Inl e, db) \<Rightarrow> (Inl e, db)
      | (Inr _, db) \<Rightarrow> migrateMetricsPointID F db)"

definition initSessions :: "(nat \<Rightarrow> bool) \<Rightarrow> database \<Rightarrow> (open_error + unit) \<times> database" where
  "initSessions F db = exec_stmts F 9 session_stmts db"

definition Queue_Open :: "open_env \<Rightarrow> caps \<Rightarrow> database \<Rightarrow> (open_error + caps) \<times> database" where
  "Queue_Open E opts db =
     (if \<not> op_connect E then (Inl Connect_Failed, db)
      else case initQueue (op_fail E) db of
          (Inl e, db) \<Rightarrow> (Inl e, db)
        | (Inr _, db) \<Rightarrow> (case initMetrics (op_fail E) db of
              (Inl e, db) \<Rightarrow> (Inl e, db)
            | (Inr _, db) \<Rightarrow> (case initSessions (op_fail E) db of
                  (Inl e, db) \<Rightarrow> (Inl e, db)
                | (Inr _, db) \<Rightarrow> (Inr (open_caps opts), db))))"

text \<open>\<open>OpenReadOnly\<close> asks for the file first, and takes the default caps.\<close>

datatype file_stat = Stat_Missing | Stat_Fails | Stat_Found

datatype ro_error = Ro_Not_Exist | Ro_Stat | Ro_Connect

definition OpenReadOnly :: "file_stat \<Rightarrow> bool \<Rightarrow> ro_error + caps" where
  "OpenReadOnly stat connects =
     (case stat of
        Stat_Missing \<Rightarrow> Inl Ro_Not_Exist
      | Stat_Fails \<Rightarrow> Inl Ro_Stat
      | Stat_Found \<Rightarrow> if \<not> connects then Inl Ro_Connect
                      else Inr \<lparr>cap_rows = defaultMaxRows, cap_bytes = defaultMaxBytes\<rparr>)"

subsection \<open>Check\<close>

text \<open>The answer of \<open>PRAGMA integrity_check\<close>, when it answers, and whether the two counts fail.\<close>

record check_env =
  ck_integrity :: "string option"
  ck_fail :: "nat \<Rightarrow> bool"

datatype check_error = Integrity_Unreadable | Integrity_Bad string | Queryability sql_error | Sessions_Queryability sql_error

definition count_rows :: "bool \<Rightarrow> database \<Rightarrow> string \<Rightarrow> sql_error + int" where
  "count_rows fails db t =
     (if fails then Inl Io_Error
      else case lookup_table db t of
          None \<Rightarrow> Inl (No_Table t)
        | Some tb \<Rightarrow> Inr (int (length (st_rows tb))))"

definition Check :: "check_env \<Rightarrow> database \<Rightarrow> check_error option" where
  "Check K db =
     (case ck_integrity K of
        None \<Rightarrow> Some Integrity_Unreadable
      | Some result \<Rightarrow>
          if result \<noteq> ''ok'' then Some (Integrity_Bad result)
          else (case count_rows (ck_fail K 0) db ''queue'' of
              Inl e \<Rightarrow> Some (Queryability e)
            | Inr _ \<Rightarrow> (case count_rows (ck_fail K 1) db ''sessions_queue'' of
                  Inl e \<Rightarrow> Some (Sessions_Queryability e)
                | Inr _ \<Rightarrow> None)))"

text \<open>\<open>sizeBytes\<close> of the two pragmas it reads, in 64 bits.\<close>

definition sizeBytes :: "int64 option \<Rightarrow> int64 option \<Rightarrow> int64 option" where
  "sizeBytes pageCount pageSize =
     (case pageCount of
        None \<Rightarrow> None
      | Some n \<Rightarrow> (case pageSize of None \<Rightarrow> None | Some s \<Rightarrow> Some (n * s)))"

text \<open>The statement of \<open>updateByIDs\<close>: one bind marker for each argument.\<close>

definition placeholders :: "nat \<Rightarrow> string" where
  "placeholders n = trim_suffix (concat (replicate n ''?,'')) '',''"

definition update_query :: "string \<Rightarrow> string \<Rightarrow> nat \<Rightarrow> string" where
  "update_query table setClause n =
     ''UPDATE '' @ table @ '' SET '' @ setClause @ '' WHERE id IN ('' @ placeholders n @ '')''"

end
