(* ===== verification/Schema_Safety.thy ===== *)
theory Schema_Safety
  imports Queue_Schema Queue_Safety
begin

text \<open>
  Opening the database (\<open>Queue_Schema\<close>). A file of any earlier release is brought to the schema of today
  with its rows kept, and the statements that insert rows and the check of the doctor then work; an \<open>Open\<close>
  that was cut off anywhere is completed by the next one to the same file. The second half is about the byte
  cap: what eviction does when the file does not shrink.
\<close>

subsection \<open>Runs of steps that can be restarted\<close>

fun run_steps :: "('s \<Rightarrow> 'e + 's) list \<Rightarrow> 's \<Rightarrow> ('e + unit) \<times> 's" where
  "run_steps [] x = (Inr (), x)"
| "run_steps (s # ss) x = (case s x of Inl e \<Rightarrow> (Inl e, x) | Inr y \<Rightarrow> run_steps ss y)"

text \<open>Every step leaves a state it does not change, and no step undoes another.\<close>

locale restartable =
  fixes steps :: "('s \<Rightarrow> 'e + 's) list"
  assumes settles: "\<lbrakk>s \<in> set steps; s x = Inr y\<rbrakk> \<Longrightarrow> s y = Inr y"
    and stays: "\<lbrakk>s \<in> set steps; s' \<in> set steps; s x = Inr x; s' x = Inr y\<rbrakk> \<Longrightarrow> s y = Inr y"
begin

lemma settled_after:
  "\<lbrakk>set xs \<subseteq> set steps; s \<in> set steps; s x = Inr x\<rbrakk> \<Longrightarrow> s (snd (run_steps xs x)) = Inr (snd (run_steps xs x))"
proof (induction xs arbitrary: x)
  case (Cons s' xs)
  show ?case
  proof (cases "s' x")
    case (Inr y)
    with Cons.prems have "s y = Inr y"
      by (auto intro: stays)
    with Cons.IH [of y] Cons.prems Inr show ?thesis by simp
  qed (use Cons.prems in simp)
qed simp

lemma rerun:
  "set (xs @ ys) \<subseteq> set steps \<Longrightarrow> run_steps (xs @ ys) (snd (run_steps xs x)) = run_steps (xs @ ys) x"
proof (induction xs arbitrary: x)
  case (Cons s xs)
  show ?case
  proof (cases "s x")
    case (Inr y)
    with Cons.prems have "s y = Inr y"
      by (auto intro: settles)
    with Cons.prems have "s (snd (run_steps xs y)) = Inr (snd (run_steps xs y))"
      by (intro settled_after) auto
    with Cons.IH [of y] Cons.prems Inr show ?thesis by simp
  qed simp
qed simp

lemma rerun_prefix: "run_steps steps (snd (run_steps (take n steps) x)) = run_steps steps x"
  using rerun [of "take n steps" "drop n steps"] by simp

end

subsection \<open>Catalogues only grow\<close>

definition extends :: "database \<Rightarrow> database \<Rightarrow> bool" where
  "extends db db' \<longleftrightarrow>
     (\<forall>t tb. lookup_table db t = Some tb \<longrightarrow>
        (\<exists>cs. lookup_table db' t = Some (tb\<lparr>st_columns := st_columns tb @ cs\<rparr>)))
     \<and> (\<forall>i. has_index db i \<longrightarrow> has_index db' i)"

lemma extends_lookup:
  "extends a b \<Longrightarrow> lookup_table a t = Some tb
    \<Longrightarrow> \<exists>cs. lookup_table b t = Some (tb\<lparr>st_columns := st_columns tb @ cs\<rparr>)"
  unfolding extends_def by blast

lemma extends_index: "extends a b \<Longrightarrow> has_index a i \<Longrightarrow> has_index b i"
  unfolding extends_def by blast

lemma extends_refl: "extends db db"
  unfolding extends_def by (auto intro: exI [of _ "[]"])

lemma extends_trans: "extends a b \<Longrightarrow> extends b c \<Longrightarrow> extends a c"
  unfolding extends_def by (fastforce simp: append_assoc)

lemma scan_columns_iff: "scan_columns cs c \<longleftrightarrow> c \<in> set (col_names cs)"
  by (induction cs) (auto simp: col_names_def)

lemma extends_columns:
  assumes "extends a b" "scan_columns (table_info a t) c"
  shows "scan_columns (table_info b t) c"
proof (cases "lookup_table a t")
  case (Some tb)
  with extends_lookup [OF assms(1)] obtain cs
    where "lookup_table b t = Some (tb\<lparr>st_columns := st_columns tb @ cs\<rparr>)" by blast
  with Some assms(2) show ?thesis
    by (simp add: scan_columns_iff table_info_def col_names_def)
qed (use assms(2) in \<open>simp add: table_info_def\<close>)

lemma lookup_put:
  "lookup_table db t \<noteq> None \<Longrightarrow> lookup_table (put_table t tb db) u = (if u = t then Some tb else lookup_table db u)"
proof -
  have "map_of (map (\<lambda>(n, x). (n, if n = t then tb else x)) xs) u
      = (if u = t then map_option (\<lambda>_. tb) (map_of xs t) else map_of xs u)" for xs
    by (induction xs) auto
  then show "lookup_table db t \<noteq> None \<Longrightarrow> ?thesis"
    by (auto simp: lookup_table_def put_table_def)
qed

lemma indexes_put [simp]: "has_index (put_table t tb db) i = has_index db i"
  by (simp add: has_index_def put_table_def)

lemma extends_put: "lookup_table db t = Some tb \<Longrightarrow> extends db (put_table t (tb\<lparr>st_columns := st_columns tb @ cs\<rparr>) db)"
  unfolding extends_def by (auto simp: lookup_put intro: exI [of _ "[]"])

lemma exec_extends: "exec_ddl s db = Inr db' \<Longrightarrow> extends db db'"
proof (cases s)
  case (Create_Table t cs)
  then show "exec_ddl s db = Inr db' \<Longrightarrow> ?thesis"
    by (auto simp: extends_def lookup_table_def has_index_def map_add_Some_iff intro: exI [of _ "[]"] split: if_splits)
next
  case (Create_Index i t cs)
  then show "exec_ddl s db = Inr db' \<Longrightarrow> ?thesis"
    by (auto simp: extends_def lookup_table_def has_index_def intro: exI [of _ "[]"] split: if_splits option.splits)
next
  case (Add_Column t c)
  then show "exec_ddl s db = Inr db' \<Longrightarrow> ?thesis"
    by (auto split: if_splits option.splits dest: extends_put)
qed (simp add: extends_refl)


subsection \<open>An interrupted Open\<close>

definition ensure_point_id :: "database \<Rightarrow> sql_error + database" where
  "ensure_point_id db =
     (if scan_columns (table_info db ''metrics_queue'') ''point_id'' then Inr db
      else exec_ddl (Add_Column ''metrics_queue'' point_id_column) db)"

text \<open>The statements as steps that report their number.\<close>

definition numbered :: "nat \<Rightarrow> ('a \<Rightarrow> sql_error + 'b) \<Rightarrow> 'a \<Rightarrow> open_error + 'b" where
  "numbered k f x = (case f x of Inl e \<Rightarrow> Inl (Schema_Error k e) | Inr y \<Rightarrow> Inr y)"

fun number :: "nat \<Rightarrow> ddl list \<Rightarrow> (database \<Rightarrow> open_error + database) list" where
  "number k [] = []"
| "number k (s # ss) = numbered k (exec_ddl s) # number (k + 1) ss"

definition metrics_steps :: "(database \<Rightarrow> open_error + database) list" where
  "metrics_steps = number 5 metrics_stmts @ [numbered 8 ensure_point_id]"

definition open_steps :: "(database \<Rightarrow> open_error + database) list" where
  "open_steps = number 0 queue_stmts @ metrics_steps @ number 9 session_stmts"

lemma numbered_Inr [simp]: "numbered k f x = Inr y \<longleftrightarrow> f x = Inr y"
  by (auto simp: numbered_def split: sum.splits)

text \<open>The steps \<open>CREATE ... IF NOT EXISTS\<close>, which is all but the migration and the pragmas.\<close>

definition creates :: "ddl \<Rightarrow> bool" where
  "creates s = (case s of Add_Column _ _ \<Rightarrow> False | _ \<Rightarrow> True)"

lemma create_settles: "creates s \<Longrightarrow> exec_ddl s x = Inr y \<Longrightarrow> exec_ddl s y = Inr y"
  by (cases s)
     (auto simp: creates_def lookup_table_def has_index_def map_add_Some_iff split: if_splits option.splits)

lemma create_stays:
  assumes "creates s" "exec_ddl s x = Inr x" "extends x y"
  shows "exec_ddl s y = Inr y"
proof (cases s)
  case (Create_Table t cs)
  with assms(2) have "lookup_table x t \<noteq> None"
    by (auto split: if_splits dest: arg_cong [of _ _ db_tables])
  with assms(3) Create_Table show ?thesis by (auto dest: extends_lookup)
next
  case (Create_Index i t cs)
  with assms(2) have "has_index x i"
    by (auto split: if_splits option.splits dest: arg_cong [of _ _ db_indexes])
  with assms(3) Create_Index show ?thesis by (simp add: extends_index)
qed (use assms in \<open>auto simp: creates_def\<close>)

lemma ensure_extends: "ensure_point_id x = Inr y \<Longrightarrow> extends x y"
  unfolding ensure_point_id_def
  by (auto simp: extends_refl simp del: exec_ddl.simps split: if_splits dest: exec_extends)

lemma ensure_settles: "ensure_point_id x = Inr y \<Longrightarrow> ensure_point_id y = Inr y"
  unfolding ensure_point_id_def
  by (auto simp: table_info_def lookup_put scan_columns_iff col_names_def point_id_column_def plain_def
        split: if_splits option.splits)

lemma ensure_fixed: "ensure_point_id x = Inr x \<Longrightarrow> scan_columns (table_info x ''metrics_queue'') ''point_id''"
proof (rule ccontr)
  assume fixed: "ensure_point_id x = Inr x" and miss: "\<not> scan_columns (table_info x ''metrics_queue'') ''point_id''"
  then obtain tb where tb: "lookup_table x ''metrics_queue'' = Some tb"
    and same: "put_table ''metrics_queue'' (tb\<lparr>st_columns := st_columns tb @ [point_id_column]\<rparr>) x = x"
    by (auto simp: ensure_point_id_def split: if_splits option.splits)
  have "lookup_table x ''metrics_queue'' = Some (tb\<lparr>st_columns := st_columns tb @ [point_id_column]\<rparr>)"
    using lookup_put [of x "''metrics_queue''" _ "''metrics_queue''"] tb same by (metis option.distinct(1))
  with tb have "st_columns tb = st_columns tb @ [point_id_column]"
    by (metis option.inject sql_table.select_convs(1) sql_table.surjective sql_table.update_convs(1))
  then show False by simp
qed

lemma ensure_stays: "ensure_point_id x = Inr x \<Longrightarrow> extends x y \<Longrightarrow> ensure_point_id y = Inr y"
  unfolding ensure_point_id_def [of y] by (simp add: extends_columns [OF _ ensure_fixed])

lemma set_number: "s \<in> set (number k ss) \<Longrightarrow> \<exists>j. \<exists>d \<in> set ss. s = numbered j (exec_ddl d)"
  by (induction k ss rule: number.induct) auto

lemma open_step_cases:
  assumes "s \<in> set open_steps"
  shows "\<exists>k. s = numbered k ensure_point_id \<or> (\<exists>d. creates d \<and> s = numbered k (exec_ddl d))"
proof -
  have "list_all creates (queue_stmts @ metrics_stmts @ session_stmts)"
    by (simp add: queue_stmts_def metrics_stmts_def session_stmts_def creates_def)
  then have "\<exists>k d. creates d \<and> s = numbered k (exec_ddl d)"
    if "s \<in> set (number j ss)" "set ss \<subseteq> set (queue_stmts @ metrics_stmts @ session_stmts)" for j ss
    using set_number [OF that(1)] that(2) unfolding list_all_iff by blast
  with assms show ?thesis unfolding open_steps_def metrics_steps_def by (simp add: subset_iff) blast
qed

lemma open_step_extends: "s \<in> set open_steps \<Longrightarrow> s x = Inr y \<Longrightarrow> extends x y"
  using open_step_cases [of s] ensure_extends [of x y] exec_extends [of _ x y] by auto

interpretation open_run: restartable open_steps
proof
  fix s x y assume "s \<in> set open_steps" "s x = Inr y"
  then show "s y = Inr y"
    using open_step_cases [of s] ensure_settles [of x y] create_settles [of _ x y] by auto
next
  fix s s' x y assume s: "s \<in> set open_steps" "s' \<in> set open_steps" "s x = Inr x" "s' x = Inr y"
  then have "extends x y" using open_step_extends by blast
  with s show "s y = Inr y"
    using open_step_cases [of s] ensure_stays [of x y] create_stays [of _ x y] by auto
qed

text \<open>A result of running some of the steps: all of them, or those before the one that failed.\<close>

definition performed :: "('s \<Rightarrow> 'e + 's) list \<Rightarrow> 's \<Rightarrow> ('d + unit) \<times> 's \<Rightarrow> bool" where
  "performed ss x r \<longleftrightarrow> (case fst r of
     Inr _ \<Rightarrow> run_steps ss x = (Inr (), snd r)
   | Inl _ \<Rightarrow> (\<exists>n. snd r = snd (run_steps (take n ss) x)))"

lemma run_append: "run_steps xs x = (Inr u, y) \<Longrightarrow> run_steps (xs @ ys) x = run_steps ys y"
  by (induction xs arbitrary: x) (auto split: sum.splits)

lemma performed_ok: "performed xs x (Inr u, y) \<Longrightarrow> performed ys y r \<Longrightarrow> performed (xs @ ys) x r"
  unfolding performed_def
  by (auto simp: run_append split: sum.splits intro: exI [of _ "length xs + _"])

lemma performed_failed: "performed xs x (Inl e, y) \<Longrightarrow> performed (xs @ ys) x (Inl e', y)"
proof -
  assume "performed xs x (Inl e, y)"
  then obtain n where "y = snd (run_steps (take n xs) x)"
    by (auto simp: performed_def)
  then have "y = snd (run_steps (take (min n (length xs)) (xs @ ys)) x)"
    by (simp add: min_def)
  then show ?thesis unfolding performed_def fst_conv snd_conv sum.case by (rule exI)
qed

lemma performed_exec: "performed (number k ss) db (exec_stmts F k ss db)"
proof (induction F k ss db rule: exec_stmts.induct)
  case (2 F k s ss db)
  show ?case
  proof (cases "F k")
    case True
    then show ?thesis by (auto simp: performed_def intro: exI [of _ 0])
  next
    case False
    show ?thesis
    proof (cases "exec_ddl s db")
      case (Inl e)
      with False show ?thesis by (auto simp: performed_def numbered_def intro: exI [of _ 0])
    next
      case (Inr d)
      with 2 [OF False Inr] have "performed ([numbered k (exec_ddl s)] @ number (k + 1) ss) db (exec_stmts F (k + 1) ss d)"
        by (intro performed_ok [of _ db "()" d]) (simp_all add: performed_def numbered_def)
      with False Inr show ?thesis by simp
    qed
  qed
qed (simp add: performed_def)

lemma performed_cong: "f x = g x \<Longrightarrow> performed [f] x r = performed [g] x r"
proof -
  assume "f x = g x"
  then have all: "run_steps (take n [f]) x = run_steps (take n [g]) x" for n
    by (simp add: take_Cons')
  from all [of 1] have "run_steps [f] x = run_steps [g] x" by simp
  with all show ?thesis unfolding performed_def by presburger
qed

lemma performed_nothing: "performed ss x (Inl e, x)"
  by (auto simp: performed_def intro: exI [of _ 0])

lemma performed_migrate: "performed [numbered 8 ensure_point_id] db (migrateMetricsPointID F db)"
proof (cases "F 7 \<or> scan_columns (table_info db ''metrics_queue'') ''point_id''")
  case True
  then show ?thesis
    by (cases "F 7")
       (simp_all add: migrateMetricsPointID_def hasColumn_def performed_nothing,
        simp add: performed_def ensure_point_id_def numbered_def)
next
  case False
  let ?add = "numbered 8 (exec_ddl (Add_Column ''metrics_queue'' point_id_column))"
  from False have "numbered 8 ensure_point_id db = numbered 8 (exec_ddl (Add_Column ''metrics_queue'' point_id_column)) db"
    by (simp add: ensure_point_id_def numbered_def)
  moreover have "performed [?add] db (exec_stmts F 8 [Add_Column ''metrics_queue'' point_id_column] db)"
    using performed_exec [of 8 "[Add_Column ''metrics_queue'' point_id_column]" db F] by simp
  ultimately have "performed [numbered 8 ensure_point_id] db (exec_stmts F 8 [Add_Column ''metrics_queue'' point_id_column] db)"
    by (rule iffD2 [OF performed_cong])
  with False show ?thesis
    by (simp add: migrateMetricsPointID_def hasColumn_def del: exec_stmts.simps exec_ddl.simps)
qed

lemma performed_metrics: "performed metrics_steps db (initMetrics F db)"
  unfolding metrics_steps_def initMetrics_def
  using performed_exec [of 5 metrics_stmts db F]
  by (auto split: prod.split sum.split intro: performed_failed performed_ok performed_migrate)

lemma performed_open: "performed open_steps db (map_prod (map_sum id (\<lambda>_. ())) id (Queue_Open E opts db))"
proof (cases "op_connect E")
  case True
  obtain r1 d1 where 1: "initQueue (op_fail E) db = (r1, d1)" by fastforce
  obtain r2 d2 where 2: "initMetrics (op_fail E) d1 = (r2, d2)" by fastforce
  obtain r3 d3 where 3: "initSessions (op_fail E) d2 = (r3, d3)" by fastforce
  have p: "performed (number 0 queue_stmts) db (r1, d1)" "performed metrics_steps d1 (r2, d2)"
      "performed (number 9 session_stmts) d2 (r3, d3)"
    using performed_exec [of 0 queue_stmts db "op_fail E"] performed_metrics [of d1 "op_fail E"]
      performed_exec [of 9 session_stmts d2 "op_fail E"] 1 2 3
    by (simp_all add: initQueue_def initSessions_def)
  then have p2: "performed (metrics_steps @ number 9 session_stmts) d1 (r3, d3)" if "r2 = Inr ()"
    using that by (auto intro: performed_ok)
  have "performed open_steps db (map_sum id (\<lambda>_. ()) (case r1 of Inl e \<Rightarrow> Inl e | Inr _ \<Rightarrow>
        (case r2 of Inl e \<Rightarrow> Inl e | Inr _ \<Rightarrow> (case r3 of Inl e \<Rightarrow> Inl e | Inr _ \<Rightarrow> Inr c))),
      (case r1 of Inl _ \<Rightarrow> d1 | Inr _ \<Rightarrow> (case r2 of Inl _ \<Rightarrow> d2 | Inr _ \<Rightarrow> d3)))" for c
    unfolding open_steps_def using p p2
    by (cases r1; cases r2; cases r3) (auto intro: performed_failed performed_ok)
  moreover have "map_prod (map_sum id (\<lambda>_. ())) id (Queue_Open E opts db)
    = (map_sum id (\<lambda>_. ()) (case r1 of Inl e \<Rightarrow> Inl e | Inr _ \<Rightarrow>
        (case r2 of Inl e \<Rightarrow> Inl e | Inr _ \<Rightarrow> (case r3 of Inl e \<Rightarrow> Inl e | Inr _ \<Rightarrow> Inr (open_caps opts)))),
      (case r1 of Inl _ \<Rightarrow> d1 | Inr _ \<Rightarrow> (case r2 of Inl _ \<Rightarrow> d2 | Inr _ \<Rightarrow> d3)))"
    using True 1 2 3 by (cases r1; cases r2; cases r3) (simp_all add: Queue_Open_def)
  ultimately show ?thesis by simp
qed (simp add: Queue_Open_def performed_nothing)

text \<open>When no statement fails by itself, an \<open>Open\<close> is the run of all the steps.\<close>

definition no_failures :: "open_env \<Rightarrow> bool" where
  "no_failures E \<longleftrightarrow> op_connect E \<and> op_fail E = (\<lambda>_. False)"

lemma exec_run: "exec_stmts (\<lambda>_. False) k ss db = run_steps (number k ss) db"
  by (induction k ss arbitrary: db rule: number.induct) (auto simp: numbered_def simp del: exec_ddl.simps split: sum.splits)

lemma run_append_all:
  "run_steps (xs @ ys) x = (case run_steps xs x of (Inl e, y) \<Rightarrow> (Inl e, y) | (Inr _, y) \<Rightarrow> run_steps ys y)"
  by (induction xs arbitrary: x) (auto split: sum.splits)

lemma migrate_run: "migrateMetricsPointID (\<lambda>_. False) db = run_steps [numbered 8 ensure_point_id] db"
  by (auto simp: migrateMetricsPointID_def hasColumn_def ensure_point_id_def numbered_def split: sum.splits)

lemma metrics_run: "initMetrics (\<lambda>_. False) db = run_steps metrics_steps db"
  unfolding metrics_steps_def initMetrics_def exec_run migrate_run run_append_all by simp

lemma open_run:
  "no_failures E \<Longrightarrow> Queue_Open E opts db =
     (case run_steps open_steps db of (Inl e, d) \<Rightarrow> (Inl e, d) | (Inr _, d) \<Rightarrow> (Inr (open_caps opts), d))"
  unfolding no_failures_def open_steps_def run_append_all
  by (auto simp: Queue_Open_def initQueue_def initSessions_def exec_run metrics_run split: prod.split sum.split)

lemma Open_resumes_lemma:
  assumes "no_failures E'"
  shows "Queue_Open E' opts (snd (Queue_Open E opts' db)) = Queue_Open E' opts db"
proof -
  have "\<exists>n. snd (Queue_Open E opts' db) = snd (run_steps (take n open_steps) db)"
    using performed_open [of db E opts'] unfolding performed_def
    by (auto simp: split: sum.splits intro: exI [of _ "length open_steps"])
  then obtain n where "snd (Queue_Open E opts' db) = snd (run_steps (take n open_steps) db)" ..
  with open_run.rerun_prefix [of n db] show ?thesis
    by (simp add: open_run [OF assms])
qed

subsection \<open>Databases of earlier releases\<close>

text \<open>What a release may have left: each table is missing or has its columns, \<open>metrics_queue\<close> perhaps those
  of the first release; and the names of the package are not used for something else.\<close>

definition columns_in :: "database \<Rightarrow> string \<Rightarrow> column list list \<Rightarrow> bool" where
  "columns_in db t css \<longleftrightarrow> (case lookup_table db t of None \<Rightarrow> True | Some tb \<Rightarrow> st_columns tb \<in> set css)"

definition deployed :: "database \<Rightarrow> bool" where
  "deployed db \<longleftrightarrow>
     columns_in db ''queue'' [queue_columns]
     \<and> columns_in db ''metrics_queue'' [metrics_columns_v1, metrics_columns]
     \<and> columns_in db ''sessions_queue'' [session_columns]
     \<and> list_all (\<lambda>n. \<not> has_index db n) [''queue'', ''metrics_queue'', ''sessions_queue'']
     \<and> list_all (\<lambda>i. lookup_table db i = None)
         [''idx_queue_state'', ''idx_metrics_queue_state'', ''idx_sessions_queue_state'']"

definition has_columns :: "database \<Rightarrow> string \<Rightarrow> column list \<Rightarrow> bool" where
  "has_columns db t cs \<longleftrightarrow> (\<exists>tb. lookup_table db t = Some tb \<and> st_columns tb = cs)"

definition current :: "database \<Rightarrow> bool" where
  "current db \<longleftrightarrow>
     has_columns db ''queue'' queue_columns \<and> has_columns db ''metrics_queue'' metrics_columns
     \<and> has_columns db ''sessions_queue'' session_columns
     \<and> list_all (has_index db) [''idx_queue_state'', ''idx_metrics_queue_state'', ''idx_sessions_queue_state'']"

text \<open>The pair of statements every table is made with.\<close>

definition with_table :: "string \<Rightarrow> column list \<Rightarrow> database \<Rightarrow> string \<Rightarrow> sql_table option" where
  "with_table t cs db = (lookup_table db)(t \<mapsto>
     (case lookup_table db t of None \<Rightarrow> \<lparr>st_columns = cs, st_rows = []\<rparr> | Some tb \<Rightarrow> tb))"

lemma create_table_result:
  assumes "\<not> has_index db t"
  obtains d where "exec_ddl (Create_Table t cs) db = Inr d" "lookup_table d = with_table t cs db"
    "has_index d = has_index db"
proof (cases "lookup_table db t")
  case None
  let ?d = "db\<lparr>db_tables := db_tables db @ [(t, \<lparr>st_columns = cs, st_rows = []\<rparr>)]\<rparr>"
  have "lookup_table ?d = with_table t cs db" "has_index ?d = has_index db"
    using None by (auto simp: with_table_def lookup_table_def has_index_def fun_eq_iff map_add_def split: option.split)
  with None assms that [of ?d] show thesis by simp
next
  case (Some tb)
  then have "lookup_table db = with_table t cs db"
    by (simp add: with_table_def fun_upd_idem)
  with Some that [of db] show thesis by simp
qed

lemma create_index_result:
  assumes "lookup_table db i = None" "lookup_table db t = Some tb" "set cs \<subseteq> set (col_names (st_columns tb))"
  obtains d where "exec_ddl (Create_Index i t cs) db = Inr d" "lookup_table d = lookup_table db"
    "\<And>j. has_index d j \<longleftrightarrow> has_index db j \<or> j = i"
proof (cases "has_index db i")
  case True
  with that [of db] show thesis by auto
next
  case False
  let ?d = "db\<lparr>db_indexes := db_indexes db @ [(i, t)]\<rparr>"
  have "lookup_table ?d = lookup_table db" "\<And>j. has_index ?d j \<longleftrightarrow> has_index db j \<or> j = i"
    by (auto simp: lookup_table_def has_index_def)
  with False assms that [of ?d] show thesis by simp
qed

lemma table_and_index:
  assumes "\<not> has_index db t" "lookup_table db i = None" "i \<noteq> t"
    and "columns_in db t css" "list_all (\<lambda>c. set ics \<subseteq> set (col_names c)) (cs # css)"
  shows "\<exists>d. run_steps (number k [Create_Table t cs, Create_Index i t ics]) db = (Inr (), d)
    \<and> lookup_table d = with_table t cs db \<and> (\<forall>j. has_index d j \<longleftrightarrow> has_index db j \<or> j = i)"
proof -
  obtain d where d: "exec_ddl (Create_Table t cs) db = Inr d" "lookup_table d = with_table t cs db"
      "has_index d = has_index db"
    using create_table_result [OF assms(1)] .
  let ?tb = "the (lookup_table d t)"
  have tb: "lookup_table d t = Some ?tb" "set ics \<subseteq> set (col_names (st_columns ?tb))"
    unfolding d(2) with_table_def using assms(4,5)
    by (cases "lookup_table db t"; auto simp: columns_in_def list_all_iff)+
  have "lookup_table d i = None"
    using assms(2,3) d(2) by (simp add: with_table_def)
  from create_index_result [OF this tb] obtain e where e: "exec_ddl (Create_Index i t ics) d = Inr e"
      "lookup_table e = lookup_table d" "\<And>j. has_index e j \<longleftrightarrow> has_index d j \<or> j = i"
    by blast
  show ?thesis
    by (rule exI [of _ e]) (use d e in \<open>simp add: numbered_def del: exec_ddl.simps\<close>)
qed

lemma schema_columns:
  "set [''state'', ''id''] \<subseteq> set (col_names queue_columns)"
  "set [''state'', ''id''] \<subseteq> set (col_names metrics_columns)"
  "set [''state'', ''id''] \<subseteq> set (col_names metrics_columns_v1)"
  "set [''state'', ''updated_at''] \<subseteq> set (col_names session_columns)"
  "scan_columns metrics_columns ''point_id''" "\<not> scan_columns metrics_columns_v1 ''point_id''"
  by (simp_all add: col_names_def queue_columns_def metrics_columns_def metrics_columns_v1_def session_columns_def
      lease_columns_def row_key_column_def counted_def required_def plain_def point_id_column_def)

lemma point_id_result:
  assumes "lookup_table db ''metrics_queue'' = Some tb" "st_columns tb \<in> {metrics_columns_v1, metrics_columns}"
  obtains d where "ensure_point_id db = Inr d" "has_index d = has_index db"
    "lookup_table d = (lookup_table db)(''metrics_queue'' \<mapsto> tb\<lparr>st_columns := metrics_columns\<rparr>)"
proof (cases "st_columns tb = metrics_columns")
  case True
  then have "lookup_table db = (lookup_table db)(''metrics_queue'' \<mapsto> tb\<lparr>st_columns := metrics_columns\<rparr>)"
    using assms(1) by (auto intro!: fun_upd_idem [symmetric])
  with True assms(1) that [of db] show thesis
    by (simp add: ensure_point_id_def table_info_def schema_columns)
next
  case False
  let ?d = "put_table ''metrics_queue'' (tb\<lparr>st_columns := metrics_columns\<rparr>) db"
  from False assms have "st_columns tb = metrics_columns_v1" by simp
  with assms(1) have "ensure_point_id db = Inr ?d"
    using schema_columns(6) unfolding scan_columns_iff
    by (simp add: ensure_point_id_def table_info_def scan_columns_iff metrics_columns_def point_id_column_def plain_def)
  moreover have "lookup_table ?d = (lookup_table db)(''metrics_queue'' \<mapsto> tb\<lparr>st_columns := metrics_columns\<rparr>)"
    using assms(1) by (auto simp: lookup_put)
  ultimately show thesis using that [of ?d] by (auto simp: fun_eq_iff)
qed

lemma with_table_other [simp]: "u \<noteq> t \<Longrightarrow> with_table t cs db u = lookup_table db u"
  by (simp add: with_table_def)

lemma with_table_columns:
  "columns_in db t css \<Longrightarrow> \<exists>tb. with_table t cs db t = Some tb \<and> st_columns tb \<in> set (cs # css)"
  by (cases "lookup_table db t") (auto simp: with_table_def columns_in_def)

lemma run_extends: "set xs \<subseteq> set open_steps \<Longrightarrow> extends x (snd (run_steps xs x))"
proof (induction xs arbitrary: x)
  case (Cons s xs)
  then show ?case
    by (auto simp: extends_refl split: sum.split intro: extends_trans open_step_extends)
qed (simp add: extends_refl)

lemma run_pragma: "run_steps (number k (Pragma p # ss)) db = run_steps (number (k + 1) ss) db"
  by (simp add: numbered_def)

lemma open_makes_current:
  assumes "deployed db"
  obtains d where "run_steps open_steps db = (Inr (), d)" "current d"
proof -
  note dep = assms [unfolded deployed_def list.pred_inject]
  have "\<exists>d. run_steps (number 3 [Create_Table ''queue'' queue_columns, Create_Index ''idx_queue_state'' ''queue'' [''state'', ''id'']]) db = (Inr (), d)
      \<and> lookup_table d = with_table ''queue'' queue_columns db \<and> (\<forall>j. has_index d j \<longleftrightarrow> has_index db j \<or> j = ''idx_queue_state'')"
    by (rule table_and_index [where css = "[queue_columns]"]) (use dep schema_columns in \<open>auto simp: with_table_def columns_in_def\<close>)
  then obtain d1 where d1: "run_steps (number 3 [Create_Table ''queue'' queue_columns, Create_Index ''idx_queue_state'' ''queue'' [''state'', ''id'']]) db = (Inr (), d1)"
      "lookup_table d1 = with_table ''queue'' queue_columns db" "\<forall>j. has_index d1 j \<longleftrightarrow> has_index db j \<or> j = ''idx_queue_state''"
    by blast
  have "\<exists>d. run_steps (number 5 [Create_Table ''metrics_queue'' metrics_columns, Create_Index ''idx_metrics_queue_state'' ''metrics_queue'' [''state'', ''id'']]) d1 = (Inr (), d)
      \<and> lookup_table d = with_table ''metrics_queue'' metrics_columns d1 \<and> (\<forall>j. has_index d j \<longleftrightarrow> has_index d1 j \<or> j = ''idx_metrics_queue_state'')"
    by (rule table_and_index [where css = "[metrics_columns_v1, metrics_columns]"]) (use dep schema_columns d1(2,3) in \<open>auto simp: with_table_def columns_in_def\<close>)
  then obtain d2 where d2: "run_steps (number 5 [Create_Table ''metrics_queue'' metrics_columns, Create_Index ''idx_metrics_queue_state'' ''metrics_queue'' [''state'', ''id'']]) d1 = (Inr (), d2)"
      "lookup_table d2 = with_table ''metrics_queue'' metrics_columns d1" "\<forall>j. has_index d2 j \<longleftrightarrow> has_index d1 j \<or> j = ''idx_metrics_queue_state''"
    by blast
  have "columns_in d1 ''metrics_queue'' [metrics_columns_v1, metrics_columns]"
    using dep by (simp add: columns_in_def d1(2))
  then obtain tb where tb: "lookup_table d2 ''metrics_queue'' = Some tb" "st_columns tb \<in> {metrics_columns_v1, metrics_columns}"
    using with_table_columns [of d1 "''metrics_queue''" "[metrics_columns_v1, metrics_columns]" metrics_columns]
    by (auto simp: d2(2))
  obtain d3 where d3: "ensure_point_id d2 = Inr d3" "has_index d3 = has_index d2"
      "lookup_table d3 = (lookup_table d2)(''metrics_queue'' \<mapsto> tb\<lparr>st_columns := metrics_columns\<rparr>)"
    using point_id_result [OF tb] .
  have "\<exists>d. run_steps (number 9 [Create_Table ''sessions_queue'' session_columns, Create_Index ''idx_sessions_queue_state'' ''sessions_queue'' [''state'', ''updated_at'']]) d3 = (Inr (), d)
      \<and> lookup_table d = with_table ''sessions_queue'' session_columns d3 \<and> (\<forall>j. has_index d j \<longleftrightarrow> has_index d3 j \<or> j = ''idx_sessions_queue_state'')"
    by (rule table_and_index [where css = "[session_columns]"]) (use dep schema_columns d1(2,3) d2(2,3) d3(2,3) in \<open>auto simp: with_table_def columns_in_def\<close>)
  then obtain d4 where d4: "run_steps (number 9 [Create_Table ''sessions_queue'' session_columns, Create_Index ''idx_sessions_queue_state'' ''sessions_queue'' [''state'', ''updated_at'']]) d3 = (Inr (), d4)"
      "lookup_table d4 = with_table ''sessions_queue'' session_columns d3" "\<forall>j. has_index d4 j \<longleftrightarrow> has_index d3 j \<or> j = ''idx_sessions_queue_state''"
    by blast
  have "run_steps (number 0 queue_stmts) db = (Inr (), d1)"
    unfolding queue_stmts_def run_pragma using d1(1) by (simp only: one_add_one add_0 numeral_plus_one semiring_norm)
  moreover have "run_steps metrics_steps d1 = (Inr (), d3)"
    unfolding metrics_steps_def metrics_stmts_def run_append_all d2(1) using d3(1) by (simp add: numbered_def)
  moreover have "run_steps (number 9 session_stmts) d3 = (Inr (), d4)"
    unfolding session_stmts_def by (rule d4(1))
  ultimately have "run_steps open_steps db = (Inr (), d4)"
    unfolding open_steps_def run_append_all by simp
  moreover have "current d4"
    unfolding current_def has_columns_def list.pred_inject d4(2)
    using with_table_columns [of db "''queue''" "[queue_columns]" queue_columns]
      with_table_columns [of d3 "''sessions_queue''" "[session_columns]" session_columns] dep d1(3) d2(3) d3(2) d4(3)
    by (auto simp: d3(3) d2(2) d1(2) columns_in_def)
  ultimately show thesis using that by blast
qed

subsection \<open>What works on the schema of today\<close>

text \<open>The cells the insert statements of \<open>insertEvents\<close>, \<open>insertMetrics\<close> and \<open>upsertSessionGroup\<close> give.\<close>

definition event_cells :: "string \<Rightarrow> string \<Rightarrow> string \<Rightarrow> sql_row" where
  "event_cells key payload now = [(''event_id'', S_Text key), (''payload'', S_Text payload), (''created_at'', S_Text now)]"

definition metric_cells :: "string \<Rightarrow> string \<Rightarrow> string \<Rightarrow> sql_row" where
  "metric_cells key payload now = [(''payload'', S_Text payload), (''created_at'', S_Text now), (''point_id'', S_Text key)]"

definition session_cells :: "string \<Rightarrow> string \<Rightarrow> string \<Rightarrow> string \<Rightarrow> sql_row" where
  "session_cells session payload updated now = [(''session_id'', S_Text session), (''payload'', S_Text payload),
     (''updated_at'', S_Text updated), (''created_at'', S_Text now)]"

text \<open>A row of the model of the statements (\<open>Sql_Queue\<close>), as cells.\<close>

definition text_cell :: "string option \<Rightarrow> sql_value" where
  "text_cell v = (case v of None \<Rightarrow> S_Null | Some s \<Rightarrow> S_Text s)"

definition state_text :: "row_state \<Rightarrow> string" where
  "state_text s = (case s of Pending \<Rightarrow> ''pending'' | Leased \<Rightarrow> ''leased'' | Acked \<Rightarrow> ''acked'')"

definition stored :: "string \<Rightarrow> ('p \<Rightarrow> string) \<Rightarrow> 'p qrow \<Rightarrow> string \<Rightarrow> sql_value" where
  "stored key js r = (\<lambda>_. S_Null)(''id'' := S_Int (row_id r), key := text_cell (row_key r),
     ''payload'' := S_Text (js (row_payload r)), ''created_at'' := S_Text (row_created r),
     ''attempts'' := S_Int (row_attempts r), ''state'' := S_Text (state_text (row_state r)),
     ''leased_until'' := text_cell (row_until r), ''acked_at'' := text_cell (row_acked r))"

definition read_cell :: "sql_row \<Rightarrow> string \<Rightarrow> sql_value" where
  "read_cell row c = (case map_of row c of None \<Rightarrow> S_Null | Some v \<Rightarrow> v)"

text \<open>The new row of \<open>insert_rows\<close>.\<close>

definition fresh_row :: "int \<Rightarrow> string \<Rightarrow> 'p \<Rightarrow> string \<Rightarrow> 'p qrow" where
  "fresh_row i key payload now = \<lparr>row_id = i, row_key = Some key, row_payload = payload, row_created = now,
     row_attempts = 0, row_state = Pending, row_until = None, row_acked = None\<rparr>"

definition inserts :: "int \<Rightarrow> string \<Rightarrow> sql_row \<Rightarrow> database \<Rightarrow> (string \<Rightarrow> sql_value) \<Rightarrow> bool" where
  "inserts i t cells db cell \<longleftrightarrow>
     (\<exists>db' tb row. insert_sql i t cells db = Inr db' \<and> lookup_table db t = Some tb
        \<and> lookup_table db' t = Some (tb\<lparr>st_rows := st_rows tb @ [row]\<rparr>) \<and> read_cell row = cell)"

lemma insertsI:
  assumes "has_columns db t cs" "fst ` set cells \<subseteq> set (col_names cs)"
    and "\<not> list_ex (\<lambda>c. cn_notnull c \<and> cell_value i cells c = S_Null) cs"
    and "read_cell (map (\<lambda>c. (cn_name c, cell_value i cells c)) cs) = cell"
  shows "inserts i t cells db cell"
proof -
  obtain tb where "lookup_table db t = Some tb" "st_columns tb = cs"
    using assms(1) by (auto simp: has_columns_def)
  with assms(2-4) show ?thesis
    by (auto simp: inserts_def insert_sql_def lookup_put)
qed

lemmas schema_defs = col_names_def queue_columns_def metrics_columns_def metrics_columns_v1_def session_columns_def
  lease_columns_def row_key_column_def counted_def required_def plain_def point_id_column_def

lemma insert_event:
  "has_columns db ''queue'' queue_columns
    \<Longrightarrow> inserts i ''queue'' (event_cells key (js p) now) db (stored ''event_id'' js (fresh_row i key p now))"
  by (erule insertsI)
     (auto simp: schema_defs event_cells_def cell_value_def read_cell_def stored_def fresh_row_def text_cell_def state_text_def
       intro!: ext)

lemma insert_metric:
  "has_columns db ''metrics_queue'' metrics_columns
    \<Longrightarrow> inserts i ''metrics_queue'' (metric_cells key (js p) now) db (stored ''point_id'' js (fresh_row i key p now))"
  by (erule insertsI)
     (auto simp: schema_defs metric_cells_def cell_value_def read_cell_def stored_def fresh_row_def text_cell_def state_text_def
       intro!: ext)

lemma insert_session:
  "has_columns db ''sessions_queue'' session_columns
    \<Longrightarrow> inserts i ''sessions_queue'' (session_cells session payload updated now) db
      ((\<lambda>_. S_Null)(''session_id'' := S_Text session, ''revision'' := S_Int 1, ''payload'' := S_Text payload,
        ''updated_at'' := S_Text updated, ''created_at'' := S_Text now, ''attempts'' := S_Int 0,
        ''state'' := S_Text ''pending''))"
  by (erule insertsI) (auto simp: schema_defs session_cells_def cell_value_def read_cell_def intro!: ext)

text \<open>Without the migration the insert of a metric fails.\<close>

lemma insert_metric_v1:
  "has_columns db ''metrics_queue'' metrics_columns_v1
    \<Longrightarrow> insert_sql i ''metrics_queue'' (metric_cells key payload now) db = Inl (No_Column ''metrics_queue'')"
  by (auto simp: has_columns_def insert_sql_def metric_cells_def schema_defs)

lemma check_current: "current db \<Longrightarrow> Check \<lparr>ck_integrity = Some ''ok'', ck_fail = (\<lambda>_. False)\<rparr> db = None"
  by (auto simp: Check_def count_rows_def current_def has_columns_def)


text \<open>A file of the first release with one metric, and an \<open>Open\<close> that breaks off before the migration.\<close>

definition first_release :: database where
  "first_release = \<lparr>db_tables = [(''metrics_queue'',
      \<lparr>st_columns = metrics_columns_v1, st_rows = [[(''id'', S_Int 1), (''payload'', S_Text ''{}'')]]\<rparr>)], db_indexes = []\<rparr>"

lemma first_release_deployed: "deployed first_release"
  by (simp add: deployed_def columns_in_def first_release_def lookup_table_def has_index_def)


text \<open>An update binds as many arguments as it has markers.\<close>

lemma placeholders_Suc: "placeholders (Suc n) = concat (replicate n ''?,'') @ ''?''"
proof -
  have eq: "concat (replicate (Suc n) ''?,'') = concat (replicate n ''?,'') @ ''?,''"
    by (induction n) auto
  show ?thesis
    unfolding placeholders_def eq trim_suffix_def has_suffix_def has_prefix_def by simp
qed

lemma placeholders_markers: "count_list (placeholders n) CHR ''?'' = n"
proof (cases n)
  case (Suc m)
  have "count_list (concat (replicate k ''?,'')) CHR ''?'' = k" for k
    by (induction k) auto
  with Suc show ?thesis by (simp add: placeholders_Suc)
qed (simp add: placeholders_def trim_suffix_def has_suffix_def)

lemma update_markers:
  "count_list table CHR ''?'' = 0
    \<Longrightarrow> count_list (update_query table setClause n) CHR ''?'' = count_list setClause CHR ''?'' + n"
  by (simp add: update_query_def placeholders_markers)

subsection \<open>The byte cap\<close>

lemma victims_nonempty: "rows \<noteq> [] \<Longrightarrow> 0 < n \<Longrightarrow> length (delete_ids (victims n rows) rows) \<noteq> length rows"
proof
  assume "rows \<noteq> []" "0 < n" and len: "length (delete_ids (victims n rows) rows) = length rows"
  have "set (sort_key row_id (filter is_acked rows) @ sort_key row_id (filter (\<lambda>r. \<not> is_acked r) rows)) = set rows"
    by auto
  with \<open>rows \<noteq> []\<close> \<open>0 < n\<close> have "victims n rows \<noteq> []"
    unfolding victims_def by (metis Nil_is_map_conv take_eq_Nil set_empty zero_less_nat_eq less_irrefl)
  then obtain i where i: "i \<in> set (victims n rows)"
    by (cases "victims n rows") auto
  with set_victims [of n rows] obtain r where "r \<in> set rows" "row_id r = i" by blast
  with delete_none [OF len] have "r \<in> set (delete_ids (victims n rows) rows)" by simp
  with i \<open>row_id r = i\<close> show False by (simp add: delete_ids_def)
qed

lemma oversized_loop:
  assumes "\<forall>k. q_size E k > cap_bytes c" "evict_loop E c k rows ev = (Inr (), rows', ev')"
  shows "rows' = []"
  using assms(2)
proof (induction "length rows" arbitrary: k rows ev rule: less_induct)
  case less
  from less(2) show ?case
  proof (cases rule: evict_loop_cases)
    case (round mid)
    have "0 < evictTarget (int (length rows)) (cap_rows c)"
      using evictTarget_pos [of "int (length rows)" "cap_rows c"] by linarith
    from victims_nonempty [OF _ this, of rows] have "rows \<noteq> [] \<Longrightarrow> length mid \<noteq> length rows"
      by (simp add: round(1))
    moreover have "length mid \<le> length rows"
      unfolding round(1) by (rule delete_ids_length)
    ultimately show ?thesis
      using round less(1) [of mid "k + 1"] by (cases "rows = []") auto
  qed (use assms(1) in \<open>simp_all add: overCap_def\<close>)
qed

lemma oversized_table:
  "\<forall>k. q_size E k > cap_bytes c \<Longrightarrow> ps \<noteq> [] \<Longrightarrow> enqueue_table E c js ps t = (Inr (), t') \<Longrightarrow> tab_rows t' = []"
  by (erule enqueue_table_cases) (auto dest: oversized_loop)

text \<open>\<open>EnqueueMetrics\<close> is the same as \<open>Enqueue\<close> but for the counter.\<close>

lemma EnqueueMetrics_table:
  "EnqueueMetrics E c ps t = (case enqueue_table E c point_json ps (t\<lparr>tab_evicted := 0\<rparr>) of
     (res, t') \<Rightarrow> (res, t\<lparr>tab_rows := tab_rows t'\<rparr>))"
  by (auto simp: EnqueueMetrics_def enqueue_table_def evictMetricsIfNeeded_def split: prod.split sum.split)

text \<open>C40: the byte cap is measured on the whole file, of three tables, and after a delete it falls only when
  the vacuum shrinks the file. As long as the file reads over the cap, an \<open>Enqueue\<close> that reports success has
  deleted every row of its table, delivered or not, the events it was given included; and an
  \<open>EnqueueMetrics\<close> every row of its own, whichever table fills the file.\<close>

theorem oversized_file_loses_all:
  assumes "\<forall>k. q_size E k > cap_bytes c"
  shows "(events \<noteq> [] \<and> Enqueue E c events t = (Inr (), t') \<longrightarrow> tab_rows t' = [])
    \<and> (points \<noteq> [] \<and> EnqueueMetrics E c points m = (Inr (), m') \<longrightarrow> tab_rows m' = [])"
proof (intro conjI impI; elim conjE)
  assume "events \<noteq> []" "Enqueue E c events t = (Inr (), t')"
  then show "tab_rows t' = []"
    unfolding Enqueue_def by (rule oversized_table [OF assms])
next
  assume "points \<noteq> []" and m': "EnqueueMetrics E c points m = (Inr (), m')"
  obtain r u where u: "enqueue_table E c point_json points (m\<lparr>tab_evicted := 0\<rparr>) = (r, u)" by fastforce
  with m' have "r = Inr ()" "m' = m\<lparr>tab_rows := tab_rows u\<rparr>"
    by (simp_all add: EnqueueMetrics_table)
  with oversized_table [OF assms \<open>points \<noteq> []\<close>] u show "tab_rows m' = []" by simp
qed

definition full_disk_env :: qenv where
  "full_disk_env = (good_env 0)\<lparr>q_size := (\<lambda>_. 200)\<rparr>"

definition waiting_row :: "normalized_event qrow" where
  "waiting_row = fresh_row 1 ''v'' empty_event (format_fixed 0)"

lemma full_disk_rounds:
  assumes "row_id r = 1" "row_id s = 2" "row_state r = Pending" "row_state s = Pending"
  shows "evict_loop full_disk_env \<lparr>cap_rows = 10, cap_bytes = 100\<rparr> 0 [r, s] 0 = (Inr (), [], 2)"
proof -
  have none: "\<not> q_fail full_disk_env x" "q_size full_disk_env k = 200" for x k
    by (simp_all add: full_disk_env_def good_env_def)
  have "evict_loop full_disk_env \<lparr>cap_rows = 10, cap_bytes = 100\<rparr> 1 [] 2 = (Inr (), [], 2)"
    by (subst evict_loop.simps) (simp add: none overCap_def victims_def delete_ids_def)
  moreover have "delete_ids (victims 512 [r, s]) [r, s] = []"
    using assms by (simp add: victims_def is_acked_def delete_ids_def)
  ultimately show ?thesis
    by (subst evict_loop.simps) (simp add: none overCap_def evictTarget_def evictChunk_def Let_def)
qed

lemma oversized_file_loses_all_witness:
  "Enqueue full_disk_env \<lparr>cap_rows = 10, cap_bytes = 100\<rparr> [empty_event] \<lparr>tab_rows = [waiting_row], tab_evicted = 0\<rparr>
    = (Inr (), \<lparr>tab_rows = [], tab_evicted = 2\<rparr>)
   \<and> tab_rows (snd (Enqueue full_disk_env \<lparr>cap_rows = 10, cap_bytes = 100\<rparr> [empty_event]
        \<lparr>tab_rows = [waiting_row], tab_evicted = 0\<rparr>)) = []"
proof -
  let ?r = "Enqueue full_disk_env \<lparr>cap_rows = 10, cap_bytes = 100\<rparr> [empty_event] \<lparr>tab_rows = [waiting_row], tab_evicted = 0\<rparr>"
  have "event_json empty_event = Some empty_event"
    by (simp add: event_json_def marshalable_event_def empty_event_def finite_opt_def)
  then have r: "?r = (Inr (), \<lparr>tab_rows = [], tab_evicted = 2\<rparr>)"
    using full_disk_rounds [of waiting_row "fresh_row 2 ''u'' empty_event (format_fixed 0)"]
    by (simp add: Enqueue_def enqueue_table_def insert_batch_def sqlite_alloc_def full_disk_env_def good_env_def
        waiting_row_def fresh_row_def)
  have "\<forall>k. q_size full_disk_env k > cap_bytes \<lparr>cap_rows = 10, cap_bytes = 100\<rparr>"
    by (simp add: full_disk_env_def)
  from oversized_file_loses_all [OF this, of "[empty_event]" "\<lparr>tab_rows = [waiting_row], tab_evicted = 0\<rparr>"
      "snd ?r" "[]" empty_table empty_table] r
  show ?thesis by simp
qed

end
