(* ===== verification/Uploader_Run.thy ===== *)
theory Uploader_Run
  imports Uploader
begin

text \<open>
  The two goroutines of \<open>Uploader.Run\<close> (\<open>uploader.go\<close>): the timer loop and the inventory worker of
  \<open>inventory.go\<close>. Each is a program counter between two points where the other may run, and they share the
  uploader. The mutex \<open>mu\<close> is never held across such a point. \<open>storeMu\<close> is: the worker holds it from the
  check of the consent to the write of its result, and a step of the loop that writes the configuration waits
  for it. The trigger channel holds at most one token. The context of a sync is cancelled when the consent
  goes (\<open>up_invCancelled\<close>) or when the context of \<open>Run\<close> is done.
\<close>

subsection \<open>The timer loop\<close>

text \<open>A heartbeat up to its reply, and the critical sections of \<open>onHeartbeatOK\<close>.\<close>

definition beat :: "up_env \<Rightarrow> uploader \<Rightarrow> (api_error + heartbeat_out) \<times> uploader" where
  "beat U w = (let tel = telemetry_of U w; w = tick w
     in call (Heartbeat (ue_net U) (ue_collectorID U) (Some tel)) w)"

definition beat_failed :: "up_env \<Rightarrow> api_error \<Rightarrow> uploader \<Rightarrow> uploader" where
  "beat_failed U e w = (case as_auth e of
     Some code \<Rightarrow> handleAuthError U code w
   | None \<Rightarrow> addCounter cHeartbeatErrors 1 w)"

definition publishPolicy :: "up_env \<Rightarrow> policy \<Rightarrow> uploader \<Rightarrow> bool \<times> uploader" where
  "publishPolicy U p w = scheduleInventory U (pol_InventoryEnabled p) (w\<lparr>up_policy := p\<rparr>)"

definition persistPolicy :: "up_env \<Rightarrow> policy \<Rightarrow> string option \<Rightarrow> uploader \<Rightarrow> uploader" where
  "persistPolicy U p e w = mutateConfig U (heartbeat_config p e) (setNow U cLastHeartbeatAt w)"

text \<open>A cycle before its heartbeat, and after it. \<open>first\<close> is the one before the loop of \<open>Run\<close>, which only
  checks the rotation.\<close>

definition cycle_begin :: "up_env \<Rightarrow> bool \<Rightarrow> uploader \<Rightarrow> uploader" where
  "cycle_begin U first w = (if \<not> first \<and> up_mode w = StateDegraded then reloadKeyIfChanged U w else w)"

definition cycle_end :: "up_env \<Rightarrow> bool \<Rightarrow> uploader \<Rightarrow> uploader option" where
  "cycle_end U first w =
     (if up_mode w \<noteq> StateActive then Some w
      else if first then Some (RotateCheckOnce U w)
      else Option.bind (FlushOnce U (RotateCheckOnce U w)) (\<lambda>w.
           Option.bind (FlushMetricsOnce U w) (FlushSessionsOnce U)))"

datatype cycle_pc =
    C_Begin bool
  | C_Active bool policy "string option"
  | C_Policy bool policy "string option"
  | C_Persist bool policy "string option" bool
  | C_Trigger bool bool
  | C_End bool
  | C_Select
  | C_Left

fun cycle_step :: "up_env \<Rightarrow> cycle_pc \<Rightarrow> uploader \<Rightarrow> (cycle_pc \<times> uploader) option" where
  "cycle_step U (C_Begin first) w =
     (case beat U (cycle_begin U first w) of
        (Inl e, w) \<Rightarrow> Some (C_End first, beat_failed U e w)
      | (Inr out, w) \<Rightarrow> Some (C_Active first (ho_Policy out) (ho_KeyExpiresAt out), w))"
| "cycle_step U (C_Active first p e) w = Some (C_Policy first p e, enterActive U w)"
| "cycle_step U (C_Policy first p e) w =
     (case publishPolicy U p w of (trig, w) \<Rightarrow> Some (C_Persist first p e trig, w))"
| "cycle_step U (C_Persist first p e trig) w = Some (C_Trigger first trig, persistPolicy U p e w)"
| "cycle_step U (C_Trigger first trig) w =
     Some (C_End first, if trig then w\<lparr>up_trigger := True\<rparr> else w)"
| "cycle_step U (C_End first) w = map_option (Pair C_Select) (cycle_end U first w)"
| "cycle_step U C_Select w = None"
| "cycle_step U C_Left w = None"

fun writes_config :: "cycle_pc \<Rightarrow> bool" where
  "writes_config (C_Begin _) = True"
| "writes_config (C_Active _ _ _) = True"
| "writes_config (C_Persist _ _ _ _) = True"
| "writes_config (C_End _) = True"
| "writes_config _ = False"

text \<open>The \<open>select\<close> of the loop: the timer, or the end of the context.\<close>

inductive cycle_moves :: "up_env \<Rightarrow> bool \<Rightarrow> cycle_pc \<times> uploader \<Rightarrow> cycle_pc \<times> uploader \<Rightarrow> bool" for U ended where
  timer: "cycle_moves U ended (C_Select, w) (C_Begin False, w)"
| leave: "ended \<Longrightarrow> cycle_moves U ended (C_Select, w) (C_Left, w)"
| run: "cycle_step U c w = Some r \<Longrightarrow> cycle_moves U ended (c, w) r"

subsection \<open>The inventory worker\<close>

datatype worker_pc =
    W_Select
  | W_Start
  | W_Mark
  | W_Discover
  | W_Found "inventory_item list"
  | W_Send string "inventory_item list" "int list"
  | W_Backoff string "inventory_item list" "int list"
  | W_Result "(nat \<times> string) option"
  | W_Check
  | W_Retry
  | W_Finish string string int64 int
  | W_Record string string int64
  | W_Over

text \<open>One attempt of \<open>SendInventory\<close>; \<open>net/http\<close> sends nothing on a context that is done.\<close>

definition attempt :: "up_env \<Rightarrow> string \<Rightarrow> inventory_item list \<Rightarrow> uploader \<Rightarrow> (bool \<times> (api_error + inventory_out)) \<times> uploader" where
  "attempt U at items w = call (doOnce (ue_net U) ''POST'' ''/ingest/v1/inventory''
     (Some (P_Inventory (ue_collectorID U) at items)) True (into dec_inventory)) w"

text \<open>The context of the sync under way is done.\<close>

definition dead :: "bool \<Rightarrow> uploader \<Rightarrow> bool" where
  "dead ended w \<longleftrightarrow> ended \<or> up_invCancelled w"

text \<open>\<open>syncInventory\<close>, \<open>buildAndSendInventory\<close>, \<open>finishInventory\<close>, and the retry loop of the client.\<close>

fun worker_step :: "up_env \<Rightarrow> bool \<Rightarrow> worker_pc \<Rightarrow> uploader \<Rightarrow> worker_pc \<times> uploader" where
  "worker_step U ended W_Start w =
     (if \<not> inventoryEnabled w then (W_Select, w\<lparr>up_invRunning := False\<rparr>)
      else (W_Mark, w\<lparr>up_invCancel := True, up_invCancelled := False\<rparr>))"
| "worker_step U ended W_Mark w = (W_Discover, mutateConfig U set_inventory_pending w)"
| "worker_step U ended W_Discover w =
     (case ue_discover U (up_step w) of
        None \<Rightarrow> (W_Result None, tick w)
      | Some items \<Rightarrow> (W_Found items, tick w))"
| "worker_step U ended (W_Found items) w =
     (if \<not> inventoryEnabled w then (W_Result None, w)
      else if length items > MaxInventoryItems then (W_Result None, tick w)
      else (W_Send (format_rfc3339 (clock U w)) items retryDelays, tick w))"
| "worker_step U ended (W_Send at items delays) w =
     (if dead ended w then (W_Result None, w)
      else (case attempt U at items w of
          ((_, Inr out), w) \<Rightarrow> (W_Result (Some (length items, at)), w)
        | ((retryable, Inl e), w) \<Rightarrow> (if retryable then W_Backoff at items delays else W_Result None, w)))"
| "worker_step U ended (W_Backoff at items delays) w =
     (if dead ended w then (W_Result None, w)
      else (case delays of
          [] \<Rightarrow> (W_Result None, w)
        | d # ds \<Rightarrow> (W_Send at items ds, w\<lparr>up_client := (up_client w)\<lparr>cl_clock := cl_clock (up_client w) + d\<rparr>\<rparr>)))"
| "worker_step U ended (W_Result res) w =
     (case res of
        Some (n, at) \<Rightarrow>
          if inventoryEnabled w then (W_Finish ''current'' at (of_nat n) inventoryRefreshInterval, w) else (W_Check, w)
      | None \<Rightarrow> (W_Check, w))"
| "worker_step U ended W_Check w = (if dead ended w then W_Select else W_Retry, w)"
| "worker_step U ended W_Retry w =
     (if inventoryEnabled w then W_Finish ''error'' [] 0 inventoryRetryInterval else W_Select, w)"
| "worker_step U ended (W_Finish status at n delay) w =
     (let w = w\<lparr>up_invRunning := False, up_invCancel := False\<rparr> in
      if \<not> pol_InventoryEnabled (up_policy w) then (W_Select, w)
      else (W_Record status at n, tick (w\<lparr>up_invNext := clock U w + delay\<rparr>)))"
| "worker_step U ended (W_Record status at n) w = (W_Select, mutateConfig U (set_inventory status at n) w)"
| "worker_step U ended W_Select w = (W_Select, w)"
| "worker_step U ended W_Over w = (W_Over, w)"

definition cancelInventory :: "uploader \<Rightarrow> uploader" where
  "cancelInventory w = w\<lparr>up_invCancelled := up_invCancelled w \<or> up_invCancel w\<rparr>"

fun holds_store :: "worker_pc \<Rightarrow> bool" where
  "holds_store (W_Record _ _ _) = True"
| "holds_store _ = False"

text \<open>The \<open>select\<close> of \<open>runInventory\<close>: when both are ready, either may be taken.\<close>

inductive worker_moves :: "up_env \<Rightarrow> bool \<Rightarrow> worker_pc \<times> uploader \<Rightarrow> worker_pc \<times> uploader \<Rightarrow> bool" for U ended where
  wake: "up_trigger w \<Longrightarrow> worker_moves U ended (W_Select, w) (W_Start, w\<lparr>up_trigger := False\<rparr>)"
| quit: "ended \<Longrightarrow> worker_moves U ended (W_Select, w) (W_Over, cancelInventory w)"
| work: "k \<noteq> W_Select \<Longrightarrow> k \<noteq> W_Over \<Longrightarrow> worker_moves U ended (k, w) (worker_step U ended k w)"

subsection \<open>Run\<close>

record sys =
  sy_cycle :: cycle_pc
  sy_worker :: worker_pc
  sy_up :: uploader
  sy_ended :: bool

text \<open>\<open>Run\<close> returns when the loop has been left and the worker is over.\<close>

definition returned :: "sys \<Rightarrow> bool" where
  "returned s \<longleftrightarrow> sy_cycle s = C_Left \<and> sy_worker s = W_Over"

inductive run_step :: "up_env \<Rightarrow> sys \<Rightarrow> sys \<Rightarrow> bool" for U where
  signal: "run_step U s (s\<lparr>sy_ended := True\<rparr>)"
| cycle: "\<lbrakk>cycle_moves U (sy_ended s) (sy_cycle s, sy_up s) (c, w);
           writes_config (sy_cycle s) \<longrightarrow> \<not> holds_store (sy_worker s)\<rbrakk>
    \<Longrightarrow> run_step U s (s\<lparr>sy_cycle := c, sy_up := w\<rparr>)"
| worker: "worker_moves U (sy_ended s) (sy_worker s, sy_up s) (k, w)
    \<Longrightarrow> run_step U s (s\<lparr>sy_worker := k, sy_up := w\<rparr>)"

definition run_init :: "uploader \<Rightarrow> sys" where
  "run_init w = \<lparr>sy_cycle = C_Begin True, sy_worker = W_Select, sy_up = w, sy_ended = False\<rparr>"

text \<open>The states of a run of an uploader made by \<open>New\<close>.\<close>

definition idle_inventory :: "uploader \<Rightarrow> bool" where
  "idle_inventory w \<longleftrightarrow> \<not> up_trigger w \<and> \<not> up_invRunning w \<and> \<not> up_invCancel w"

inductive reachable :: "up_env \<Rightarrow> uploader \<Rightarrow> sys \<Rightarrow> bool" for U w where
  start: "reachable U w (run_init w)"
| next_: "\<lbrakk>reachable U w s; run_step U s s'\<rbrakk> \<Longrightarrow> reachable U w s'"

inductive_cases cycle_movesE: "cycle_moves U ended (c, w) r"
inductive_cases worker_movesE: "worker_moves U ended (k, w) r"
inductive_cases run_stepE: "run_step U s s'"

subsection \<open>The steps put together\<close>

text \<open>Without the worker in between, the steps of the loop are the methods.\<close>

lemma HeartbeatOnce_steps:
  "HeartbeatOnce U w = (case beat U w of
     (Inl e, w) \<Rightarrow> beat_failed U e w
   | (Inr out, w) \<Rightarrow>
       (case publishPolicy U (ho_Policy out) (enterActive U w) of (trig, w) \<Rightarrow>
         (let w = persistPolicy U (ho_Policy out) (ho_KeyExpiresAt out) w
          in if trig then w\<lparr>up_trigger := True\<rparr> else w)))"
proof -
  obtain r w1 where b: "beat U w = (r, w1)" by fastforce
  then have call: "call (Heartbeat (ue_net U) (ue_collectorID U) (Some (telemetry_of U w))) (tick w) = (r, w1)"
    by (simp add: beat_def Let_def)
  show ?thesis
  proof (cases r)
    case (Inl e)
    with b call show ?thesis by (simp add: HeartbeatOnce_def Let_def beat_failed_def)
  next
    case (Inr out)
    obtain t w2 where "publishPolicy U (ho_Policy out) (enterActive U w1) = (t, w2)" by fastforce
    with Inr b call show ?thesis
      by (simp add: HeartbeatOnce_def Let_def onHeartbeatOK_def publishPolicy_def persistPolicy_def)
  qed
qed

fun cycle_run :: "up_env \<Rightarrow> nat \<Rightarrow> cycle_pc \<Rightarrow> uploader \<Rightarrow> uploader option" where
  "cycle_run U 0 c w = None"
| "cycle_run U (Suc n) c w = (if c = C_Select then Some w
     else Option.bind (cycle_step U c w) (\<lambda>(c, w). cycle_run U n c w))"

lemma cycle_run_end:
  "Option.bind (map_option (Pair C_Select) x) (\<lambda>(c, w). cycle_run U (Suc n) c w) = x"
  by (cases x) simp_all

lemma cycle_run_begin:
  "cycle_run U 7 (C_Begin first) w = cycle_end U first (HeartbeatOnce U (cycle_begin U first w))"
proof -
  obtain r w1 where b: "beat U (cycle_begin U first w) = (r, w1)" by fastforce
  show ?thesis
  proof (cases r)
    case (Inl e)
    with b show ?thesis by (simp add: HeartbeatOnce_steps eval_nat_numeral cycle_run_end)
  next
    case (Inr out)
    obtain t w2 where "publishPolicy U (ho_Policy out) (enterActive U w1) = (t, w2)" by fastforce
    with Inr b show ?thesis by (simp add: HeartbeatOnce_steps eval_nat_numeral cycle_run_end Let_def)
  qed
qed

lemma cycle_run_runCycle: "cycle_run U 7 (C_Begin False) w = runCycle U w"
  by (simp add: cycle_run_begin runCycle_def cycle_end_def cycle_begin_def Let_def del: cycle_run.simps)

lemma cycle_run_Run_start: "cycle_run U 7 (C_Begin True) w = Some (Run_start U w)"
  by (simp add: cycle_run_begin Run_start_def cycle_end_def cycle_begin_def Let_def del: cycle_run.simps)

end
