(* ===== verification/Run_Safety.thy ===== *)
theory Run_Safety
  imports Uploader_Run Inventory_Safety
begin

text \<open>
  The interleavings of \<open>Uploader.Run\<close>: an invariant of every reachable state, by induction over the runs, from
  which the consent of the inventory upload and the absence of a lost wake-up follow for every schedule of the
  two goroutines; and the end of a run after the context is done.
\<close>

subsection \<open>Frame\<close>

text \<open>What the two goroutines share about the inventory. Only the steps that publish a policy and fire the
  trigger, and the worker, change it.\<close>

definition shared :: "uploader \<Rightarrow> bool \<times> bool \<times> bool \<times> bool \<times> bool" where
  "shared w = (inventoryEnabled w, up_trigger w, up_invRunning w, up_invCancel w, up_invCancelled w)"

lemma shared_updates [simp]:
  "shared (tick w) = shared w" "shared (w\<lparr>up_client := c\<rparr>) = shared w" "shared (w\<lparr>up_store := st\<rparr>) = shared w"
  "shared (w\<lparr>up_counters := r\<rparr>) = shared w" "shared (w\<lparr>up_mode := m\<rparr>) = shared w"
  "shared (w\<lparr>up_authReason := a\<rparr>) = shared w" "shared (w\<lparr>up_backoff := b\<rparr>) = shared w"
  "shared (w\<lparr>up_events := e\<rparr>) = shared w" "shared (w\<lparr>up_metrics := me\<rparr>) = shared w"
  "shared (w\<lparr>up_sessions := s\<rparr>) = shared w" "shared (w\<lparr>up_invNext := n\<rparr>) = shared w"
  "shared (addCounter x i w) = shared w" "shared (setCounter x i w) = shared w" "shared (setNow U x w) = shared w"
  "shared (onFlushSuccess w) = shared w" "shared (widenBackoff w) = shared w"
  by (simp_all add: shared_def inventoryEnabled_def tick_def addCounter_def setCounter_def setNow_def
      onFlushSuccess_def widenBackoff_def)

lemma shared_core: "core v = core w \<Longrightarrow> shared v = shared w"
  by (cases v; cases w) (simp add: core_def shared_def inventoryEnabled_def)

lemma shared_loadConfig: "loadConfig U w = (r, v) \<Longrightarrow> shared v = shared w"
  by (rule shared_core) (rule core_loadConfig)

lemma shared_mutateConfig [simp]: "shared (mutateConfig U f w) = shared w"
  by (rule shared_core) simp

lemma shared_call: "call f w = (r, v) \<Longrightarrow> shared v = shared w"
  by (auto simp: call_def split: prod.splits)

lemma shared_enter [simp]: "shared (enterActive U w) = shared w" "shared (enterDegraded U r w) = shared w"
  by (simp_all add: enterActive_def enterDegraded_def Let_def)

lemma shared_reload [simp]: "shared (reloadKeyIfChanged U w) = shared w"
  by (auto simp: reloadKeyIfChanged_def shared_loadConfig split: prod.split option.split)

lemma shared_verify: "verifyPendingKey U cfg w = (b, v) \<Longrightarrow> shared v = shared w"
  by (auto simp: verifyPendingKey_def commitPendingKey_def Let_def dest!: shared_call split: prod.splits sum.splits if_splits)

lemma shared_rotate [simp]: "shared (attemptRotate U w) = shared w"
  by (auto simp: attemptRotate_def recordFailedRotateAttempt_def Let_def dest!: shared_call split: prod.split sum.split)

lemma shared_recover [simp]: "shared (recoverViaPendingKeyOrDegrade U w) = shared w"
  by (auto simp: recoverViaPendingKeyOrDegrade_def dest!: shared_verify shared_loadConfig
      split: prod.split option.split bool.split)

lemma shared_auth [simp]: "shared (handleAuthError U code w) = shared w"
  by (simp add: handleAuthError_def)

lemma shared_RotateCheckOnce [simp]: "shared (RotateCheckOnce U w) = shared w"
proof -
  obtain r v where load: "loadConfig U w = (r, v)" by fastforce
  show ?thesis
  proof (cases r)
    case None
    with load show ?thesis by (simp add: RotateCheckOnce_def shared_loadConfig [OF load])
  next
    case (Some cfg)
    obtain b u where "verifyPendingKey U cfg v = (b, u)" by fastforce
    with Some load show ?thesis
      using shared_loadConfig [OF load] by (simp add: RotateCheckOnce_def Let_def shared_verify)
  qed
qed

lemma shared_sendError [simp]: "shared (handleSendError U e w) = shared w"
  by (simp add: handleSendError_def split: option.split)

lemma shared_on [simp]:
  "shared (snd (on_events U f w)) = shared w" "shared (snd (on_metrics U g w)) = shared w"
  "shared (snd (on_sessions U h w)) = shared w"
  by (simp_all add: on_events_def on_metrics_def on_sessions_def split: prod.split)

lemma shared_send:
  "sendBatch U items w = (b, v) \<Longrightarrow> shared v = shared w"
  "sendMetricsBatch U mitems w = (b, v) \<Longrightarrow> shared v = shared w"
  "sendSessionsBatch U sitems w = (b, v) \<Longrightarrow> shared v = shared w"
  by (auto simp: sendBatch_def sendMetricsBatch_def sendSessionsBatch_def onUploadSuccess_def
      dest!: shared_call split: prod.splits sum.splits)

lemma shared_flush_loop:
  assumes "flush_loop lease send w = Some v"
    and lease: "\<And>w r v. lease w = (r, v) \<Longrightarrow> shared v = shared w"
    and send: "\<And>items w b v. send items w = (b, v) \<Longrightarrow> shared v = shared w"
  shows "shared v = shared w"
proof (rule flush_loop_rule [where I = "\<lambda>_. True" and R = "\<lambda>a b. shared b = shared a", OF assms(1)])
  fix w items w1 w2 b
  show "shared w2 = shared w" if "lease w = (Inr items, w1)" "send items w1 = (False, w2)"
    using lease [OF that(1)] send [OF that(2)] by simp
  show "True \<and> shared w2 = shared w" if "lease w = (Inr items, w1)" "send items w1 = (True, w2)"
    using lease [OF that(1)] send [OF that(2)] by simp
qed (simp_all add: lease)

lemma shared_lease:
  "leaseEvents U n w = (r, v) \<Longrightarrow> shared v = shared w"
  "leaseMetrics U n w = (rm, v) \<Longrightarrow> shared v = shared w"
  "leaseSessions U n w = (rs, v) \<Longrightarrow> shared v = shared w"
  by (auto simp: leaseEvents_def leaseMetrics_def leaseSessions_def on_events_def on_metrics_def on_sessions_def
      split: prod.splits)

lemma shared_flush:
  "FlushOnce U w = Some v \<Longrightarrow> shared v = shared w"
  "FlushMetricsOnce U w = Some v \<Longrightarrow> shared v = shared w"
  "FlushSessionsOnce U w = Some v \<Longrightarrow> shared v = shared w"
  unfolding FlushOnce_def FlushMetricsOnce_def FlushSessionsOnce_def
  using shared_flush_loop [OF _ shared_lease(1) shared_send(1)] shared_flush_loop [OF _ shared_lease(2) shared_send(2)]
    shared_flush_loop [OF _ shared_lease(3) shared_send(3)]
  by (simp_all split: if_splits)

lemma shared_cycle_end: "cycle_end U first w = Some v \<Longrightarrow> shared v = shared w"
  by (auto simp: cycle_end_def bind_eq_Some_conv split: if_splits dest!: shared_flush)

lemma shared_beat: "beat U (cycle_begin U first w) = (r, v) \<Longrightarrow> shared v = shared w"
  by (auto simp: beat_def cycle_begin_def Let_def dest!: shared_call split: if_splits)

lemma shared_beat_failed [simp]: "shared (beat_failed U e w) = shared w"
  by (simp add: beat_failed_def split: option.split)

subsection \<open>The invariant\<close>

fun syncing :: "worker_pc \<Rightarrow> bool" where
  "syncing W_Select = False"
| "syncing W_Start = False"
| "syncing (W_Record _ _ _) = False"
| "syncing W_Over = False"
| "syncing _ = True"

text \<open>The loop has decided to fire the trigger, and not yet done so.\<close>

fun owes_trigger :: "cycle_pc \<Rightarrow> bool" where
  "owes_trigger (C_Persist _ _ _ trig) = trig"
| "owes_trigger (C_Trigger _ trig) = trig"
| "owes_trigger _ = False"

text \<open>A sync whose context is not cancelled has the consent, and its cancel function is registered; and
  a sync that is marked as running is on its way.\<close>

definition run_inv :: "cycle_pc \<Rightarrow> worker_pc \<Rightarrow> bool \<Rightarrow> bool \<times> bool \<times> bool \<times> bool \<times> bool \<Rightarrow> bool" where
  "run_inv c k ended v \<longleftrightarrow> (case v of (enabled, trigger, running, cancel, cancelled) \<Rightarrow>
     (syncing k \<and> \<not> cancelled \<longrightarrow> enabled \<and> cancel)
     \<and> (\<not> ended \<and> running \<longrightarrow> trigger \<or> owes_trigger c \<or> k = W_Start \<or> syncing k \<and> \<not> cancelled))"

lemma publishPolicy_shared:
  assumes "publishPolicy U p w = (t, v)" "shared w = (en, tr, ru, ca, cd)"
  shows "shared v = (if pol_InventoryEnabled p then (True, tr, ru \<or> t, ca, cd) else (False, tr, False, False, cd \<or> ca))
     \<and> (\<not> pol_InventoryEnabled p \<longrightarrow> \<not> t)"
proof (cases "pol_InventoryEnabled p")
  case True
  let ?u = "w\<lparr>up_policy := p\<rparr>"
  have "(t, v) = (if up_invRunning w \<or> clock U ?u < up_invNext w then (False, tick ?u)
      else (True, tick (?u\<lparr>up_invRunning := True\<rparr>)))"
    using assms(1) True by (simp add: publishPolicy_def scheduleInventory_def)
  then show ?thesis
    using assms(2) True by (cases "up_invRunning w \<or> clock U ?u < up_invNext w")
      (simp_all add: shared_def inventoryEnabled_def tick_def)
next
  case False
  with assms show ?thesis
    by (auto simp: publishPolicy_def scheduleInventory_def shared_def inventoryEnabled_def)
qed

lemma shared_trigger: "shared w = (en, tr, ru, ca, cd) \<Longrightarrow> shared (w\<lparr>up_trigger := x\<rparr>) = (en, x, ru, ca, cd)"
  by (simp add: shared_def inventoryEnabled_def)

lemma shared_cancel: "shared w = (en, tr, ru, ca, cd) \<Longrightarrow> shared (cancelInventory w) = (en, tr, ru, ca, cd \<or> ca)"
  by (simp add: shared_def inventoryEnabled_def cancelInventory_def)

lemma cycle_step_inv:
  assumes "cycle_step U c w = Some (c', v)" "run_inv c k ended (shared w)"
  shows "run_inv c' k ended (shared v)"
proof (cases c)
  case (C_Begin first)
  then have "\<not> owes_trigger c" "\<not> owes_trigger c'" "shared v = shared w"
    using assms(1) by (auto split: prod.splits sum.splits dest: shared_beat)
  with assms(2) show ?thesis by (simp add: run_inv_def)
next
  case (C_Policy first p e)
  obtain en tr ru ca cd where w: "shared w = (en, tr, ru, ca, cd)" by (metis prod_cases5)
  obtain t where t: "publishPolicy U p w = (t, v)" "c' = C_Persist first p e t"
    using assms(1) C_Policy by (auto split: prod.splits)
  from publishPolicy_shared [OF t(1) w] assms(2) C_Policy t(2) show ?thesis
    by (auto simp: run_inv_def w)
next
  case (C_Trigger first trig)
  obtain en tr ru ca cd where w: "shared w = (en, tr, ru, ca, cd)" by (metis prod_cases5)
  with assms C_Trigger shared_trigger [OF w, of True] show ?thesis
    by (cases trig) (auto simp: run_inv_def)
qed (use assms in \<open>auto simp: run_inv_def persistPolicy_def dest!: shared_cycle_end\<close>)

lemma shared_attempt: "attempt U at items w = (r, v) \<Longrightarrow> shared v = shared w"
  by (simp add: attempt_def shared_call)

lemma run_inv_keep:
  "run_inv c k ended x \<Longrightarrow> syncing k \<Longrightarrow> syncing k' \<Longrightarrow> run_inv c k' ended x"
  unfolding run_inv_def by (cases x) auto

text \<open>The steps inside a sync leave the shared fields alone.\<close>

definition inside :: "worker_pc \<Rightarrow> bool" where
  "inside k \<longleftrightarrow> (case k of W_Mark \<Rightarrow> True | W_Discover \<Rightarrow> True | W_Found _ \<Rightarrow> True | W_Send _ _ _ \<Rightarrow> True
     | W_Backoff _ _ _ \<Rightarrow> True | W_Result _ \<Rightarrow> True | _ \<Rightarrow> False)"

lemma worker_step_inside:
  assumes "inside k" "worker_step U ended k w = (k', v)"
  shows "syncing k \<and> syncing k' \<and> shared v = shared w"
proof (cases k)
  case (W_Send at items ds)
  obtain b r u where a: "attempt U at items w = ((b, r), u)" by (metis prod.exhaust)
  with shared_attempt [OF a] assms(2) W_Send show ?thesis
    by (cases r) (auto split: if_splits)
next
  case (W_Backoff at items ds)
  with assms(2) show ?thesis by (cases ds) (auto split: if_splits)
next
  case (W_Result res)
  with assms(2) show ?thesis by (auto split: option.splits if_splits)
qed (use assms in \<open>auto simp: inside_def split: option.splits if_splits\<close>)

lemma worker_step_inv:
  assumes step: "worker_step U ended k w = (k', v)" and inv: "run_inv c k ended (shared w)"
  shows "run_inv c k' ended (shared v)"
proof (cases "inside k")
  case True
  from worker_step_inside [OF this step] inv show ?thesis by (auto intro: run_inv_keep)
next
  case False
  then consider "k = W_Start" | "k = W_Check" | "k = W_Retry" | status at n delay where "k = W_Finish status at n delay"
    | status at n where "k = W_Record status at n" | "k = W_Select" | "k = W_Over"
    by (cases k) (auto simp: inside_def)
  then show ?thesis
  proof cases
    case 4
    with step inv show ?thesis
      by (auto simp: run_inv_def shared_def inventoryEnabled_def tick_def Let_def split: if_splits)
  next
    case 5
    with step inv show ?thesis by (auto simp: run_inv_def)
  qed (use step inv in \<open>auto simp: run_inv_def shared_def inventoryEnabled_def dead_def split: if_splits\<close>)
qed

lemma run_step_inv:
  assumes "run_step U s s'" "run_inv (sy_cycle s) (sy_worker s) (sy_ended s) (shared (sy_up s))"
  shows "run_inv (sy_cycle s') (sy_worker s') (sy_ended s') (shared (sy_up s'))"
  using assms(1)
proof cases
  case signal
  with assms(2) show ?thesis by (auto simp: run_inv_def)
next
  case (cycle c w)
  from cycle(2) show ?thesis
  proof cases
    case run
    with cycle_step_inv [of U "sy_cycle s" "sy_up s" c w] assms(2) cycle(1) show ?thesis by simp
  qed (use assms(2) cycle(1) in \<open>auto simp: run_inv_def\<close>)
next
  case (worker k w)
  obtain en tr ru ca cd where v: "shared (sy_up s) = (en, tr, ru, ca, cd)" by (metis prod_cases5)
  from worker(2) show ?thesis
  proof cases
    case wake
    with assms(2) worker(1) shared_trigger [OF v, of False] show ?thesis by (auto simp: run_inv_def v)
  next
    case quit
    with assms(2) worker(1) shared_cancel [OF v] show ?thesis by (auto simp: run_inv_def v)
  next
    case work
    with worker_step_inv [of U "sy_ended s" "sy_worker s" "sy_up s" k w] assms(2) worker(1) show ?thesis by simp
  qed
qed

lemma reachable_inv:
  assumes "reachable U w s" "idle_inventory w"
  shows "run_inv (sy_cycle s) (sy_worker s) (sy_ended s) (shared (sy_up s))"
  using assms(1)
proof (induction rule: reachable.induct)
  case start
  from assms(2) show ?case by (simp add: run_inv_def shared_def run_init_def idle_inventory_def)
next
  case (next_ s s')
  then show ?case by (blast intro: run_step_inv)
qed

subsection \<open>Consent\<close>

lemma attempt_sends:
  "attempt U at items w = (r, v) \<Longrightarrow>
     \<exists>req. cl_sent (up_client v) = cl_sent (up_client w) @ [req] \<and> rq_Path req = ''/ingest/v1/inventory''
       \<and> rq_Payload req = Some (P_Inventory (ue_collectorID U) at items)"
  by (auto simp: attempt_def call_def doOnce_def request_of_def checkGzipRejected_def disableGzip_def Let_def
      split: prod.splits reply.splits if_splits)

lemma worker_step_sends:
  assumes "worker_step U ended k w = (k', v)" "cl_sent (up_client v) \<noteq> cl_sent (up_client w)"
  shows "\<exists>at items ds req. k = W_Send at items ds \<and> \<not> dead ended w
    \<and> cl_sent (up_client v) = cl_sent (up_client w) @ [req] \<and> rq_Path req = ''/ingest/v1/inventory''
    \<and> rq_Payload req = Some (P_Inventory (ue_collectorID U) at items)"
proof (cases k)
  case (W_Send at items ds)
  obtain r u where a: "attempt U at items w = (r, u)" by fastforce
  have "\<not> dead ended w" using assms W_Send by (auto split: if_splits)
  moreover from this have "v = u" using assms(1) W_Send a by (auto split: prod.splits sum.splits)
  ultimately show ?thesis using attempt_sends [OF a] W_Send by blast
qed (use assms in \<open>auto simp: Let_def split: if_splits option.splits list.splits prod.splits\<close>)

lemma worker_moves_sends:
  assumes "worker_moves U ended (k, w) (k', v)" "cl_sent (up_client v) \<noteq> cl_sent (up_client w)"
  shows "\<exists>at items ds req. k = W_Send at items ds \<and> \<not> dead ended w
    \<and> cl_sent (up_client v) = cl_sent (up_client w) @ [req] \<and> rq_Path req = ''/ingest/v1/inventory''
    \<and> rq_Payload req = Some (P_Inventory (ue_collectorID U) at items)"
  using assms(1)
proof cases
  case work
  then show ?thesis using worker_step_sends [of U ended k w k' v] assms(2) by simp
qed (use assms(2) in \<open>simp_all add: cancelInventory_def\<close>)

text \<open>C9: nothing of the inventory leaves without consent, in any interleaving. Whatever the two goroutines
  of \<open>Run\<close> have done so far, and however their steps were ordered, the only request the inventory worker
  ever puts on the wire is one snapshot to the inventory endpoint; and at that very step the policy in force
  grants the consent, the run has not been ended, and the cancel function of the sync is registered, so a
  withdrawal will reach it.\<close>

theorem inventory_consent:
  assumes "reachable U w s" "idle_inventory w"
    and "worker_moves U (sy_ended s) (sy_worker s, sy_up s) (k, v)"
    and "cl_sent (up_client v) \<noteq> cl_sent (up_client (sy_up s))"
  shows "inventoryEnabled (sy_up s) \<and> \<not> sy_ended s \<and> up_invCancel (sy_up s)
    \<and> (\<exists>req at items. cl_sent (up_client v) = cl_sent (up_client (sy_up s)) @ [req]
         \<and> rq_Path req = ''/ingest/v1/inventory'' \<and> rq_Payload req = Some (P_Inventory (ue_collectorID U) at items))"
  using reachable_inv [OF assms(1,2)] worker_moves_sends [OF assms(3,4)]
  by (auto simp: run_inv_def dead_def shared_def)

text \<open>C20: no wake-up is lost. While the run goes on, a sync that is marked as running, which keeps the
  heartbeats from asking for another one, is really on its way: the worker is in it with a live context, or
  has taken the token, or the token is in the channel, or the loop is about to put it there. So when the loop
  waits for its timer and the worker for its channel, the token is there.\<close>

theorem inventory_wakes:
  assumes "reachable U w s" "idle_inventory w" "\<not> sy_ended s" "up_invRunning (sy_up s)"
  shows "(syncing (sy_worker s) \<and> \<not> up_invCancelled (sy_up s) \<or> sy_worker s = W_Start
      \<or> up_trigger (sy_up s) \<or> owes_trigger (sy_cycle s))
    \<and> (sy_cycle s = C_Select \<and> sy_worker s = W_Select \<longrightarrow> up_trigger (sy_up s))"
  using reachable_inv [OF assms(1,2)] assms(3,4) by (auto simp: run_inv_def shared_def)

subsection \<open>The end of a run\<close>

definition tables_ok :: "uploader \<Rightarrow> bool" where
  "tables_ok w \<longleftrightarrow> table_ok (up_events w) \<and> table_ok (up_metrics w) \<and> sessions_ok (up_sessions w)"

lemma tables_queues: "queues v = queues w \<Longrightarrow> tables_ok v = tables_ok w"
  by (simp add: tables_ok_def queues_def)

lemma call_queues: "call f w = (r, v) \<Longrightarrow> queues v = queues w"
  by (auto simp: call_def split: prod.splits)

lemma cancelInventory_queues [simp]: "queues (cancelInventory w) = queues w"
  by (simp add: cancelInventory_def)

lemma worker_step_queues: "worker_step U ended k w = (k', v) \<Longrightarrow> queues v = queues w"
proof (cases k)
  case (W_Send at items ds)
  obtain b r u where a: "attempt U at items w = ((b, r), u)" by (metis prod.exhaust)
  then have "queues u = queues w" by (simp add: attempt_def call_queues)
  with W_Send a show "worker_step U ended k w = (k', v) \<Longrightarrow> ?thesis"
    by (cases r) (auto split: if_splits)
qed (auto simp: Let_def split: option.splits if_splits list.splits)

lemma beat_queues: "beat U (cycle_begin U first w) = (r, v) \<Longrightarrow> queues v = queues w"
  by (auto simp: beat_def cycle_begin_def Let_def reload_facts dest!: call_queues split: if_splits)

lemma beat_failed_queues [simp]: "queues (beat_failed U e w) = queues w"
  using handleAuthError_facts(2) by (simp add: beat_failed_def split: option.split)

lemma cycle_end_ok:
  assumes "writable U" "tables_ok w"
  shows "\<exists>v. cycle_end U first w = Some v \<and> tables_ok v"
proof -
  have rot: "queues (RotateCheckOnce U w) = queues w"
    using RotateCheckOnce_facts(1) [where U = U and w = w] by (simp add: same_state_def)
  note q = queuesD [OF this] and ok = assms(2) [unfolded tables_ok_def]
  obtain w1 where w1: "FlushOnce U (RotateCheckOnce U w) = Some w1"
    using flushes_total(1) [OF assms(1)] ok q by metis
  note e = FlushOnce_facts [OF w1]
  obtain w2 where w2: "FlushMetricsOnce U w1 = Some w2"
    using flushes_total(2) [OF assms(1), of w1] ok q e by auto
  note m = FlushMetricsOnce_facts [OF w2]
  obtain w3 where w3: "FlushSessionsOnce U w2 = Some w3"
    using flushes_total(3) [OF assms(1), of w2] ok q e m by auto
  note f = FlushSessionsOnce_facts [OF w3]
  have "tables_ok w3" using ok q e m f by (auto simp: tables_ok_def)
  moreover have "tables_ok (RotateCheckOnce U w)"
    using tables_queues [OF rot] assms(2) by simp
  ultimately show ?thesis
    using assms(2) w1 w2 w3 by (simp add: cycle_end_def)
qed

text \<open>Once the context is done, each process has a step that brings it closer to its end.\<close>

fun worker_rank :: "worker_pc \<Rightarrow> nat" where
  "worker_rank W_Over = 0"
| "worker_rank W_Select = 1"
| "worker_rank (W_Record _ _ _) = 2"
| "worker_rank (W_Finish _ _ _ _) = 3"
| "worker_rank W_Retry = 4"
| "worker_rank W_Check = 5"
| "worker_rank (W_Result _) = 6"
| "worker_rank (W_Backoff _ _ _) = 7"
| "worker_rank (W_Send _ _ _) = 8"
| "worker_rank (W_Found _) = 9"
| "worker_rank W_Discover = 10"
| "worker_rank W_Mark = 11"
| "worker_rank W_Start = 12"

fun cycle_rank :: "cycle_pc \<Rightarrow> nat" where
  "cycle_rank C_Left = 0"
| "cycle_rank C_Select = 1"
| "cycle_rank (C_End _) = 2"
| "cycle_rank (C_Trigger _ _) = 3"
| "cycle_rank (C_Persist _ _ _ _) = 4"
| "cycle_rank (C_Policy _ _ _) = 5"
| "cycle_rank (C_Active _ _ _) = 6"
| "cycle_rank (C_Begin _) = 7"

lemma worker_descends:
  assumes "k \<noteq> W_Over"
  shows "\<exists>k' v. worker_moves U True (k, w) (k', v) \<and> worker_rank k' < worker_rank k \<and> queues v = queues w"
proof (cases "k = W_Select")
  case True
  then show ?thesis by (auto intro!: exI [of _ W_Over] worker_moves.quit)
next
  case False
  obtain k' v where kv: "worker_step U True k w = (k', v)" by fastforce
  have "worker_rank k' < worker_rank k"
    using kv assms False
    by (cases k) (auto simp: dead_def Let_def split: option.splits if_splits)
  with worker_moves.work [OF False assms, of U True w] kv worker_step_queues [OF kv] show ?thesis by auto
qed

lemma cycle_descends:
  assumes c: "c \<noteq> C_Left" and "writable U" "tables_ok w"
  shows "\<exists>c' v. cycle_moves U True (c, w) (c', v) \<and> cycle_rank c' < cycle_rank c \<and> tables_ok v"
proof -
  have by_step: ?thesis if "cycle_step U c w = Some (c', v)" "cycle_rank c' < cycle_rank c" "queues v = queues w" for c' v
    using that cycle_moves.run [OF that(1), of True] tables_queues [OF that(3)] assms(3) by blast
  show ?thesis
  proof (cases c)
    case (C_Begin first)
    obtain r v where b: "beat U (cycle_begin U first w) = (r, v)" by fastforce
    with beat_queues [OF b] C_Begin obtain c' v' where "cycle_step U c w = Some (c', v')" "cycle_rank c' < cycle_rank c"
        "queues v' = queues w"
      by (cases r) auto
    then show ?thesis by (rule by_step)
  next
    case (C_Policy first p e)
    obtain t v where t: "publishPolicy U p w = (t, v)" by fastforce
    then have "queues v = queues w"
      by (simp add: publishPolicy_def scheduleInventory_facts(1))
    with t C_Policy show ?thesis by (intro by_step [of "C_Persist first p e t" v]) auto
  next
    case (C_End first)
    with cycle_end_ok [OF assms(2,3), of first] obtain v where "cycle_end U first w = Some v" "tables_ok v" by blast
    with C_End cycle_moves.run [of U "C_End first" w "(C_Select, v)" True] show ?thesis
      by (intro exI [of _ C_Select] exI [of _ v]) simp
  next
    case C_Select
    with assms(3) show ?thesis by (auto intro!: exI [of _ C_Left] cycle_moves.leave)
  next
    case (C_Trigger first trig)
    then show ?thesis by (intro by_step [of "C_End first" "if trig then w\<lparr>up_trigger := True\<rparr> else w"]) auto
  next
    case (C_Active first p e)
    then show ?thesis by (intro by_step [of "C_Policy first p e" "enterActive U w"]) auto
  next
    case (C_Persist first p e trig)
    then show ?thesis by (intro by_step [of "C_Trigger first trig" "persistPolicy U p e w"]) (auto simp: persistPolicy_def)
  qed (use c in simp)
qed

lemma worker_ends:
  "sy_ended s \<Longrightarrow> \<exists>s'. (run_step U)\<^sup>*\<^sup>* s s' \<and> sy_worker s' = W_Over \<and> sy_ended s' \<and> sy_cycle s' = sy_cycle s
     \<and> queues (sy_up s') = queues (sy_up s)"
proof (induction "worker_rank (sy_worker s)" arbitrary: s rule: less_induct)
  case less
  show ?case
  proof (cases "sy_worker s = W_Over")
    case True
    with less.prems show ?thesis by blast
  next
    case False
    from worker_descends [OF this, of U "sy_up s"] obtain k v
      where kv: "worker_moves U True (sy_worker s, sy_up s) (k, v)" "worker_rank k < worker_rank (sy_worker s)"
        "queues v = queues (sy_up s)" by blast
    let ?s = "s\<lparr>sy_worker := k, sy_up := v\<rparr>"
    have "run_step U s ?s" using kv(1) less.prems by (intro run_step.worker) simp
    moreover obtain s' where "(run_step U)\<^sup>*\<^sup>* ?s s'" "sy_worker s' = W_Over" "sy_ended s'" "sy_cycle s' = sy_cycle s"
        "queues (sy_up s') = queues (sy_up s)"
      using less.hyps [of ?s] kv(2,3) less.prems by auto
    ultimately show ?thesis by (meson converse_rtranclp_into_rtranclp)
  qed
qed

lemma cycle_ends:
  assumes "writable U"
  shows "sy_ended s \<Longrightarrow> sy_worker s = W_Over \<Longrightarrow> tables_ok (sy_up s) \<Longrightarrow> \<exists>s'. (run_step U)\<^sup>*\<^sup>* s s' \<and> returned s'"
proof (induction "cycle_rank (sy_cycle s)" arbitrary: s rule: less_induct)
  case less
  show ?case
  proof (cases "sy_cycle s = C_Left")
    case True
    with less.prems show ?thesis by (auto simp: returned_def)
  next
    case False
    from cycle_descends [OF this assms less.prems(3)] obtain c v
      where cv: "cycle_moves U True (sy_cycle s, sy_up s) (c, v)" "cycle_rank c < cycle_rank (sy_cycle s)" "tables_ok v"
      by blast
    let ?s = "s\<lparr>sy_cycle := c, sy_up := v\<rparr>"
    have "run_step U s ?s" using cv(1) less.prems by (intro run_step.cycle) simp_all
    moreover obtain s' where "(run_step U)\<^sup>*\<^sup>* ?s s'" "returned s'"
      using less.hyps [of ?s] cv(2,3) less.prems by auto
    ultimately show ?thesis by (meson converse_rtranclp_into_rtranclp)
  qed
qed

lemma cycle_step_tables:
  assumes "cycle_step U c w = Some (c', v)" "writable U" "tables_ok w"
  shows "tables_ok v"
proof (cases c)
  case (C_End first)
  with cycle_end_ok [OF assms(2,3), of first] assms(1) show ?thesis by auto
next
  case (C_Begin first)
  obtain r u where b: "beat U (cycle_begin U first w) = (r, u)" by fastforce
  with beat_queues [OF b] assms(1) C_Begin have "queues v = queues w" by (cases r) auto
  with assms(3) tables_queues show ?thesis by blast
next
  case (C_Policy first p e)
  obtain t u where t: "publishPolicy U p w = (t, u)" by fastforce
  with C_Policy assms(1) have "queues v = queues w"
    by (simp add: publishPolicy_def scheduleInventory_facts(1))
  with assms(3) tables_queues show ?thesis by blast
next
  case (C_Trigger first trig)
  with assms(1) have "queues v = queues w" by auto
  with assms(3) tables_queues show ?thesis by blast
qed (use assms tables_queues [of v w] in \<open>auto simp: persistPolicy_def\<close>)

lemma reachable_tables:
  assumes "reachable U w s" "writable U" "tables_ok w"
  shows "tables_ok (sy_up s)"
  using assms(1)
proof (induction rule: reachable.induct)
  case start
  with assms(3) show ?case by (simp add: run_init_def)
next
  case (next_ s s')
  from next_(2) show ?case
  proof cases
    case (cycle c v)
    from cycle(2) next_(3) cycle_step_tables [OF _ assms(2)] show ?thesis
      by cases (auto simp: cycle(1))
  next
    case (worker k v)
    from worker(2) have "queues v = queues (sy_up s)"
    proof cases
      case work
      then show ?thesis using worker_step_queues [of U "sy_ended s" "sy_worker s" "sy_up s" k v] by simp
    qed simp_all
    from tables_queues [OF this] worker(1) next_(3) show ?thesis by simp
  qed (use next_(3) in simp)
qed

text \<open>C21: \<open>Run\<close> can always be stopped. From every state a run can reach, once the context is done, the two
  goroutines can go on to their ends, without a deadlock over the trigger, the lock of the configuration or
  the wait of the loop for the worker; as long as the updates of the queues are written, which is what ends
  a flush.\<close>

theorem Run_can_return:
  assumes "reachable U w s" "writable U" "tables_ok w"
  shows "\<exists>s'. (run_step U)\<^sup>*\<^sup>* (s\<lparr>sy_ended := True\<rparr>) s' \<and> returned s'"
proof -
  obtain s1 where s1: "(run_step U)\<^sup>*\<^sup>* (s\<lparr>sy_ended := True\<rparr>) s1" "sy_worker s1 = W_Over" "sy_ended s1"
      "queues (sy_up s1) = queues (sy_up s)"
    using worker_ends [of "s\<lparr>sy_ended := True\<rparr>" U] by auto
  with reachable_tables [OF assms] have "tables_ok (sy_up s1)" using tables_queues by blast
  from cycle_ends [OF assms(2) s1(3,2) this] s1(1) show ?thesis
    by (meson rtranclp_trans)
qed

subsection \<open>The worker alone\<close>

text \<open>Without the loop in between and without a cancellation, the steps of the worker are \<open>syncInventory\<close>.\<close>

inductive worker_leads :: "up_env \<Rightarrow> worker_pc \<Rightarrow> uploader \<Rightarrow> uploader \<Rightarrow> bool" for U where
  over: "worker_leads U W_Select v v"
| more: "\<lbrakk>k \<noteq> W_Select; worker_step U False k w = (k', w'); worker_leads U k' w' v\<rbrakk> \<Longrightarrow> worker_leads U k w v"

lemma worker_leads_step:
  "k \<noteq> W_Select \<Longrightarrow> worker_leads U (fst (worker_step U False k w)) (snd (worker_step U False k w)) v
     \<Longrightarrow> worker_leads U k w v"
  by (rule worker_leads.more [of k U w]) simp_all

lemma leads_send:
  assumes "retry_loop (ue_net U) ''POST'' ''/ingest/v1/inventory'' (Some (P_Inventory (ue_collectorID U) at items)) True
      (into dec_inventory) ds c = (r, c')"
    and "worker_leads U (W_Result (case r of Inl e \<Rightarrow> None | Inr out \<Rightarrow> Some (length items, at))) (w\<lparr>up_client := c'\<rparr>) v"
    and "\<not> up_invCancelled w" "\<forall>k. \<not> net_cancelled (ue_net U) k"
  shows "worker_leads U (W_Send at items ds) (w\<lparr>up_client := c\<rparr>) v"
  using assms(1,2)
proof (induction ds arbitrary: c)
  case Nil
  obtain rt o1 c1 where once: "doOnce (ue_net U) ''POST'' ''/ingest/v1/inventory''
      (Some (P_Inventory (ue_collectorID U) at items)) True (into dec_inventory) c = ((rt, o1), c1)"
    by (metis prod.exhaust)
  then have a: "attempt U at items (w\<lparr>up_client := c\<rparr>) = ((rt, o1), w\<lparr>up_client := c1\<rparr>)"
    by (simp add: attempt_def call_def)
  show ?case
  proof (rule worker_leads_step)
    show "worker_leads U (fst (worker_step U False (W_Send at items []) (w\<lparr>up_client := c\<rparr>)))
        (snd (worker_step U False (W_Send at items []) (w\<lparr>up_client := c\<rparr>))) v"
    proof (cases o1)
      case (Inr out)
      with Nil(1) once have "r = Inr out" "c' = c1"
        using retry_loop.simps [of "ue_net U" "''POST''" _ _ True "into dec_inventory" "[]" c] by simp_all
      with Inr Nil(2) a assms(3) show ?thesis by (simp add: dead_def)
    next
      case (Inl e)
      with Nil once have "c' = c1" "\<exists>e'. r = Inl e'"
        using retry_loop.simps [of "ue_net U" "''POST''" _ _ True "into dec_inventory" "[]" c] by (auto split: if_splits)
      with Nil(2) have end_: "worker_leads U (W_Result None) (w\<lparr>up_client := c1\<rparr>) v" by auto
      moreover have "worker_leads U (W_Backoff at items []) (w\<lparr>up_client := c1\<rparr>) v"
        by - (rule worker_leads_step, use end_ assms(3) in \<open>simp_all add: dead_def\<close>)
      ultimately show ?thesis using Inl a assms(3) by (simp add: dead_def)
    qed
  qed simp
next
  case (Cons d ds)
  obtain rt o1 c1 where once: "doOnce (ue_net U) ''POST'' ''/ingest/v1/inventory''
      (Some (P_Inventory (ue_collectorID U) at items)) True (into dec_inventory) c = ((rt, o1), c1)"
    by (metis prod.exhaust)
  then have a: "attempt U at items (w\<lparr>up_client := c\<rparr>) = ((rt, o1), w\<lparr>up_client := c1\<rparr>)"
    by (simp add: attempt_def call_def)
  show ?case
  proof (rule worker_leads_step)
    show "worker_leads U (fst (worker_step U False (W_Send at items (d # ds)) (w\<lparr>up_client := c\<rparr>)))
        (snd (worker_step U False (W_Send at items (d # ds)) (w\<lparr>up_client := c\<rparr>))) v"
    proof (cases o1)
      case (Inr out)
      with Cons(2) once have "r = Inr out" "c' = c1"
        using retry_loop.simps [of "ue_net U" "''POST''" _ _ True "into dec_inventory" "d # ds" c] by simp_all
      with Inr Cons(3) a assms(3) show ?thesis by (simp add: dead_def)
    next
      case (Inl e)
      note unfold = retry_loop.simps [of "ue_net U" "''POST''" "''/ingest/v1/inventory''" _ True "into dec_inventory" "d # ds" c]
      show ?thesis
      proof (cases rt)
        case True
        with Cons(2) once Inl unfold assms(4) have "retry_loop (ue_net U) ''POST'' ''/ingest/v1/inventory''
            (Some (P_Inventory (ue_collectorID U) at items)) True (into dec_inventory) ds
            (c1\<lparr>cl_clock := cl_clock c1 + d\<rparr>) = (r, c')"
          by simp
        from Cons(1) [OF this Cons(3)]
        have "worker_leads U (W_Backoff at items (d # ds)) (w\<lparr>up_client := c1\<rparr>) v"
          by - (rule worker_leads_step, use assms(3) in \<open>simp_all add: dead_def\<close>)
        with True Inl a assms(3) show ?thesis by (simp add: dead_def)
      next
        case False
        with Cons(2) once Inl unfold have "r = Inl e" "c' = c1" by simp_all
        with Cons(3) have "worker_leads U (W_Result None) (w\<lparr>up_client := c1\<rparr>) v" by simp
        with False Inl a assms(3) show ?thesis by (simp add: dead_def)
      qed
    qed
  qed simp
qed

lemma leads_finish:
  "worker_leads U (W_Finish status at n delay) w (finishInventory U status at n delay w)"
proof (cases "pol_InventoryEnabled (up_policy w)")
  case True
  let ?w = "tick (w\<lparr>up_invRunning := False, up_invCancel := False, up_invNext := clock U w + delay\<rparr>)"
  have "clock U (w\<lparr>up_invRunning := False, up_invCancel := False\<rparr>) = clock U w" by (simp add: clock_def)
  then have fin: "finishInventory U status at n delay w = mutateConfig U (set_inventory status at n) ?w"
    and step: "worker_step U False (W_Finish status at n delay) w = (W_Record status at n, ?w)"
    using True by (simp_all add: finishInventory_def Let_def)
  have "worker_leads U (W_Record status at n) ?w (mutateConfig U (set_inventory status at n) ?w)"
    by - (rule worker_leads_step, simp_all add: worker_leads.over)
  with step show ?thesis unfolding fin by - (rule worker_leads_step, simp_all)
next
  case False
  then show ?thesis by - (rule worker_leads_step, simp_all add: finishInventory_def Let_def worker_leads.over)
qed

lemma leads_result:
  assumes "\<not> up_invCancelled w"
  shows "worker_leads U (W_Result res) w (case res of
      Some (n, at) \<Rightarrow> if inventoryEnabled w then finishInventory U ''current'' at (of_nat n) inventoryRefreshInterval w else w
    | None \<Rightarrow> if inventoryEnabled w then finishInventory U ''error'' [] 0 inventoryRetryInterval w else w)"
proof -
  have retry: "worker_leads U W_Retry w
      (if inventoryEnabled w then finishInventory U ''error'' [] 0 inventoryRetryInterval w else w)"
    by - (rule worker_leads_step, simp_all add: leads_finish worker_leads.over)
  have "worker_leads U W_Check w
      (if inventoryEnabled w then finishInventory U ''error'' [] 0 inventoryRetryInterval w else w)"
    by - (rule worker_leads_step, use assms retry in \<open>simp_all add: dead_def\<close>)
  then show ?thesis
    by - (rule worker_leads_step, auto simp: leads_finish split: option.split)
qed

lemma leads_found:
  assumes "ue_discover U (up_step w1) = Some items" "inventoryEnabled (tick w1)" "\<not> up_invCancelled (tick w1)"
    and "\<forall>k. \<not> net_cancelled (ue_net U) k"
    and result: "\<And>res v. \<not> up_invCancelled v \<Longrightarrow> worker_leads U (W_Result res) v (sync (res, v))"
  shows "worker_leads U (W_Found items) (tick w1) (sync (buildAndSendInventory U (\<lambda>_ w. w) w1))"
proof -
  let ?at = "format_rfc3339 (clock U (tick w1))" and ?w = "tick (tick w1)"
  have quiet: "\<not> up_invCancelled ?w" "\<not> up_invCancelled (?w\<lparr>up_client := c\<rparr>)" for c
    using assms(3) by (simp_all add: tick_def)
  show ?thesis
  proof (cases "length items > MaxInventoryItems")
    case True
    then have "buildAndSendInventory U (\<lambda>_ w. w) w1 = (None, ?w)"
      using assms(1,2) by (simp add: buildAndSendInventory_def Let_def call_def SendInventory_def)
    with result [OF quiet(1), of None] True assms(2) show ?thesis by - (rule worker_leads_step [of "W_Found items"], simp_all)
  next
    case False
    obtain r c where r: "retry_loop (ue_net U) ''POST'' ''/ingest/v1/inventory''
        (Some (P_Inventory (ue_collectorID U) ?at items)) True (into dec_inventory) retryDelays (up_client ?w) = (r, c)"
      by fastforce
    have same: "?w\<lparr>up_client := up_client w1\<rparr> = ?w" by (cases w1) (simp add: tick_def)
    let ?res = "case r of Inl e \<Rightarrow> None | Inr out \<Rightarrow> Some (length items, ?at)"
    have "buildAndSendInventory U (\<lambda>_ w. w) w1 = (?res, ?w\<lparr>up_client := c\<rparr>)"
      using assms(1,2) False r
      by (simp add: buildAndSendInventory_def Let_def call_def SendInventory_def postJSON_def postJSONAuth_def payload_ok_def
          doWithRetry_def)
    with result [OF quiet(2), of ?res c] leads_send [OF r _ quiet(1) assms(4), of "sync (?res, ?w\<lparr>up_client := c\<rparr>)"]
    have "worker_leads U (W_Send ?at items retryDelays) ?w (sync (buildAndSendInventory U (\<lambda>_ w. w) w1))" by (simp add: same)
    with False assms(2) show ?thesis by - (rule worker_leads_step [of "W_Found items"], simp_all)
  qed
qed

lemma worker_alone:
  assumes "\<forall>k. \<not> net_cancelled (ue_net U) k"
  shows "worker_leads U W_Start w (syncInventory U (\<lambda>_ w. w) False w)"
proof (cases "inventoryEnabled w")
  case False
  then show ?thesis by - (rule worker_leads_step, simp_all add: syncInventory_def worker_leads.over)
next
  case True
  define w1 where "w1 = mutateConfig U set_inventory_pending (w\<lparr>up_invCancel := True, up_invCancelled := False\<rparr>)"
  have shared1: "shared w1 = (True, up_trigger w, up_invRunning w, True, False)"
  proof -
    have "shared w1 = shared (w\<lparr>up_invCancel := True, up_invCancelled := False\<rparr>)" by (simp add: w1_def)
    then show ?thesis using True by (simp add: shared_def inventoryEnabled_def)
  qed
  then have on: "inventoryEnabled (tick w1)" "\<not> up_invCancelled (tick w1)"
    by (simp_all add: shared_def inventoryEnabled_def tick_def)
  define sync where "sync = (\<lambda>(res, v). case res of
      Some (n, at) \<Rightarrow> if inventoryEnabled v then finishInventory U ''current'' at (of_nat n) inventoryRefreshInterval v else v
    | None \<Rightarrow> if \<not> up_invCancelled v \<and> inventoryEnabled v then finishInventory U ''error'' [] 0 inventoryRetryInterval v else v)"
  have whole: "syncInventory U (\<lambda>_ w. w) False w = sync (buildAndSendInventory U (\<lambda>_ w. w) w1)"
    by (simp only: syncInventory_def Let_def True sync_def w1_def [symmetric] not_True_eq_False not_False_eq_True if_False simp_thms)
  have result: "worker_leads U (W_Result res) v (sync (res, v))" if "\<not> up_invCancelled v" for res v
    using leads_result [OF that, of U res] that by (cases res) (simp_all add: sync_def split: prod.splits if_splits)
  have "worker_leads U W_Discover w1 (sync (buildAndSendInventory U (\<lambda>_ w. w) w1))"
  proof (cases "ue_discover U (up_step w1)")
    case None
    then show ?thesis
      by - (rule worker_leads_step [of W_Discover], use result [OF on(2)] in \<open>simp_all add: buildAndSendInventory_def Let_def\<close>)
  next
    case (Some items)
    have "worker_leads U (W_Found items) (tick w1) (sync (buildAndSendInventory U (\<lambda>_ w. w) w1))"
      by (rule leads_found) (use Some on assms result in simp_all)
    with Some show ?thesis by - (rule worker_leads_step [of W_Discover], simp_all)
  qed
  then have "worker_leads U W_Mark (w\<lparr>up_invCancel := True, up_invCancelled := False\<rparr>)
      (syncInventory U (\<lambda>_ w. w) False w)"
    unfolding whole by - (rule worker_leads_step [of W_Mark], simp_all add: w1_def)
  with True show ?thesis by - (rule worker_leads_step [of W_Start], simp_all)
qed

subsection \<open>A run\<close>

text \<open>A backend that answers every request with a policy that grants the consent.\<close>

definition granting_env :: up_env where
  "granting_env = offline_env\<lparr>ue_net := always (Reply 200 \<lparr>bd_text = [],
      bd_json = Some (AMap [(''policy'', AMap [(''inventory_enabled'', ABool True)])])\<rparr>),
     ue_discover := (\<lambda>_. Some [])\<rparr>"

lemma granting_reply:
  "\<exists>p. fst (Heartbeat (ue_net granting_env) me tel c) = Inr \<lparr>ho_OK = False, ho_Policy = p, ho_KeyExpiresAt = None\<rparr>
    \<and> pol_InventoryEnabled p"
  by (simp add: granting_env_def offline_env_def always_def Let_def Heartbeat_def postJSON_def postJSONAuth_def
      payload_ok_def doWithRetry_def retry_loop.simps doOnce_def handleResponse_def decodeJSON_def into_def
      dec_heartbeat_def as_object_def dec_bool_def dec_ptr_def dec_policy_def dec_int_def dec_str_def aget_def)

lemma granting_beat:
  "\<exists>c p. beat granting_env (cycle_begin granting_env True offline_start)
      = (Inr \<lparr>ho_OK = False, ho_Policy = p, ho_KeyExpiresAt = None\<rparr>, (tick offline_start)\<lparr>up_client := c\<rparr>)
    \<and> pol_InventoryEnabled p"
proof -
  obtain p c where "Heartbeat (ue_net granting_env) (ue_collectorID granting_env)
       (Some (telemetry_of granting_env offline_start)) (up_client (tick offline_start))
     = (Inr \<lparr>ho_OK = False, ho_Policy = p, ho_KeyExpiresAt = None\<rparr>, c)" "pol_InventoryEnabled p"
    using granting_reply by (metis prod.collapse)
  then show ?thesis by (auto simp: beat_def cycle_begin_def call_def Let_def)
qed

lemma offline_idle: "idle_inventory offline_start"
  by (simp add: idle_inventory_def offline_start_def New_def)

lemma reach_cycle:
  "\<lbrakk>reachable U w s; cycle_step U (sy_cycle s) (sy_up s) = Some (c, v); \<not> holds_store (sy_worker s)\<rbrakk>
    \<Longrightarrow> reachable U w (s\<lparr>sy_cycle := c, sy_up := v\<rparr>)"
  by (rule reachable.next_) (auto intro: run_step.cycle cycle_moves.run)

lemma reach_worker:
  "\<lbrakk>reachable U w s; worker_moves U (sy_ended s) (sy_worker s, sy_up s) (k, v)\<rbrakk>
    \<Longrightarrow> reachable U w (s\<lparr>sy_worker := k, sy_up := v\<rparr>)"
  by (rule reachable.next_) (auto intro: run_step.worker)

text \<open>The loop publishes the consent and fires the trigger.\<close>

lemma granting_fired:
  obtains p c where "reachable granting_env offline_start
      \<lparr>sy_cycle = C_Persist True p None True, sy_worker = W_Select,
       sy_up = (enterActive granting_env ((tick offline_start)\<lparr>up_client := c\<rparr>))
          \<lparr>up_policy := p, up_invRunning := True, up_step := 2\<rparr>, sy_ended = False\<rparr>"
    "pol_InventoryEnabled p"
proof -
  obtain c p where b: "beat granting_env (cycle_begin granting_env True offline_start)
      = (Inr \<lparr>ho_OK = False, ho_Policy = p, ho_KeyExpiresAt = None\<rparr>, (tick offline_start)\<lparr>up_client := c\<rparr>)"
      "pol_InventoryEnabled p"
    using granting_beat by blast
  let ?w = "(tick offline_start)\<lparr>up_client := c\<rparr>"
  have "reachable granting_env offline_start
      \<lparr>sy_cycle = C_Active True p None, sy_worker = W_Select, sy_up = ?w, sy_ended = False\<rparr>"
    using reach_cycle [OF reachable.start, of granting_env offline_start] b(1) by (simp add: run_init_def)
  from reach_cycle [OF this] have "reachable granting_env offline_start
      \<lparr>sy_cycle = C_Policy True p None, sy_worker = W_Select, sy_up = enterActive granting_env ?w, sy_ended = False\<rparr>"
    by simp
  moreover have "publishPolicy granting_env p (enterActive granting_env ?w)
      = (True, (enterActive granting_env ?w)\<lparr>up_policy := p, up_invRunning := True, up_step := 2\<rparr>)"
    using b(2) by (simp add: publishPolicy_def scheduleInventory_def enterActive_def mutateConfig_def loadConfig_def
        setCounter_def Let_def clock_def granting_env_def offline_env_def offline_start_def New_def tick_def zero_time_def nanos_def)
  ultimately show thesis
    using reach_cycle [of granting_env offline_start "\<lparr>sy_cycle = C_Policy True p None, sy_worker = W_Select,
        sy_up = enterActive granting_env ?w, sy_ended = False\<rparr>"] b(2) that [of p c] by simp
qed

text \<open>The worker takes the token and gets as far as its upload.\<close>

lemma reach_work:
  "\<lbrakk>reachable U w s; sy_worker s \<noteq> W_Select; sy_worker s \<noteq> W_Over;
    worker_step U (sy_ended s) (sy_worker s) (sy_up s) = (k, v)\<rbrakk>
    \<Longrightarrow> reachable U w (s\<lparr>sy_worker := k, sy_up := v\<rparr>)"
  using reach_worker worker_moves.work by metis

lemma granting_sends:
  obtains s at where "reachable granting_env offline_start s" "sy_worker s = W_Send at [] retryDelays"
    "\<not> dead (sy_ended s) (sy_up s)"
proof -
  let ?U = granting_env and ?st = "\<lambda>c k v. \<lparr>sy_cycle = c, sy_worker = k, sy_up = v, sy_ended = False\<rparr>"
  let ?ok = "\<lambda>c k v. reachable ?U offline_start (?st c k v)"
  have goes: "?ok c k' v'" if "?ok c k v" "k \<noteq> W_Select" "k \<noteq> W_Over" "worker_step ?U False k v = (k', v')" for c k k' v v'
    using reach_work [OF that(1)] that(2-4) by simp
  obtain p c where fired: "?ok (C_Persist True p None True) W_Select
      ((enterActive ?U ((tick offline_start)\<lparr>up_client := c\<rparr>))\<lparr>up_policy := p, up_invRunning := True, up_step := 2\<rparr>)"
      and p: "pol_InventoryEnabled p"
    using granting_fired by blast
  define w0 where "w0 = (enterActive ?U ((tick offline_start)\<lparr>up_client := c\<rparr>))
     \<lparr>up_policy := p, up_invRunning := True, up_step := 2\<rparr>"
  define w1 where "w1 = persistPolicy ?U p None w0"
  have "?ok (C_Trigger True True) W_Select w1"
    using reach_cycle [OF fired [folded w0_def]] by (simp add: w1_def)
  from reach_cycle [OF this] have "?ok (C_End True) W_Select (w1\<lparr>up_trigger := True\<rparr>)" by simp
  from reach_worker [OF this] have "?ok (C_End True) W_Start (w1\<lparr>up_trigger := False\<rparr>)"
    using worker_moves.wake [of "w1\<lparr>up_trigger := True\<rparr>" ?U False] by simp
  moreover have enabled: "inventoryEnabled w1"
    using p by (simp add: w1_def w0_def persistPolicy_def inventoryEnabled_def)
  moreover define w2 where "w2 = w1\<lparr>up_trigger := False, up_invCancel := True, up_invCancelled := False\<rparr>"
  ultimately have "?ok (C_End True) W_Mark w2"
    using goes [of "C_End True" W_Start "w1\<lparr>up_trigger := False\<rparr>" W_Mark w2] by (simp add: inventoryEnabled_def)
  moreover define w3 where "w3 = mutateConfig ?U set_inventory_pending w2"
  ultimately have "?ok (C_End True) W_Discover w3" using goes by simp
  then have found: "?ok (C_End True) (W_Found []) (tick w3)" by (rule goes) (simp_all add: granting_env_def)
  have s3: "shared w3 = shared w2" by (simp add: w3_def)
  then have live: "inventoryEnabled (tick w3)" "\<not> up_invCancelled w3"
    using enabled by (simp_all add: shared_def w2_def inventoryEnabled_def tick_def)
  have "?ok (C_End True) (W_Send (format_rfc3339 (clock ?U (tick w3))) [] retryDelays) (tick (tick w3))"
    by (rule goes [OF found]) (simp_all add: live(1))
  then show thesis
    by (rule that) (simp_all add: dead_def tick_def live(2))
qed

lemma inventory_consent_witness:
  "\<exists>s req at. reachable granting_env offline_start s \<and> inventoryEnabled (sy_up s)
     \<and> rq_Path req = ''/ingest/v1/inventory'' \<and> rq_Payload req = Some (P_Inventory 1 at [])
     \<and> (\<exists>k v. worker_moves granting_env (sy_ended s) (sy_worker s, sy_up s) (k, v)
           \<and> cl_sent (up_client v) = cl_sent (up_client (sy_up s)) @ [req])"
proof -
  obtain s at where s: "reachable granting_env offline_start s" "sy_worker s = W_Send at [] retryDelays"
      "\<not> dead (sy_ended s) (sy_up s)"
    using granting_sends by blast
  obtain r u where a: "attempt granting_env at [] (sy_up s) = (r, u)" by fastforce
  obtain k v where kv: "worker_step granting_env (sy_ended s) (sy_worker s) (sy_up s) = (k, v)" by fastforce
  with s(2,3) a have "v = u" by (auto split: prod.splits sum.splits)
  with attempt_sends [OF a] obtain req where req: "cl_sent (up_client v) = cl_sent (up_client (sy_up s)) @ [req]"
      "rq_Path req = ''/ingest/v1/inventory''" "rq_Payload req = Some (P_Inventory (ue_collectorID granting_env) at [])"
    by blast
  have moves: "worker_moves granting_env (sy_ended s) (sy_worker s, sy_up s) (k, v)"
    using worker_moves.work [of "sy_worker s" granting_env "sy_ended s" "sy_up s"] s(2) kv by simp
  have "inventoryEnabled (sy_up s)"
    using inventory_consent [OF s(1) offline_idle moves] req(1) by simp
  with s(1) moves req show ?thesis by (auto simp: granting_env_def offline_env_def)
qed

lemma inventory_wakes_witness:
  "\<exists>s. reachable granting_env offline_start s \<and> up_invRunning (sy_up s) \<and> sy_worker s = W_Select
     \<and> (up_trigger (sy_up s) \<or> owes_trigger (sy_cycle s))"
proof -
  obtain p c where r: "reachable granting_env offline_start
      \<lparr>sy_cycle = C_Persist True p None True, sy_worker = W_Select,
       sy_up = (enterActive granting_env ((tick offline_start)\<lparr>up_client := c\<rparr>))
          \<lparr>up_policy := p, up_invRunning := True, up_step := 2\<rparr>, sy_ended = False\<rparr>"
    using granting_fired by blast
  from inventory_wakes [OF r offline_idle] r show ?thesis
    by (intro exI [where x = "\<lparr>sy_cycle = C_Persist True p None True, sy_worker = W_Select,
       sy_up = (enterActive granting_env ((tick offline_start)\<lparr>up_client := c\<rparr>))
          \<lparr>up_policy := p, up_invRunning := True, up_step := 2\<rparr>, sy_ended = False\<rparr>"]) simp
qed

lemma Run_can_return_witness:
  "\<exists>s'. (run_step offline_env)\<^sup>*\<^sup>* ((run_init offline_start)\<lparr>sy_ended := True\<rparr>) s' \<and> returned s'"
  by (rule Run_can_return [OF reachable.start offline_writable]) (use offline_ok in \<open>simp add: tables_ok_def\<close>)

end
