(* ===== verification/Api_Wire.thy ===== *)
theory Api_Wire
  imports Api_Client
begin

text \<open>
  What \<open>internal/api\<close> puts on the wire and reads back: the JSON objects of the structs with \<open>json\<close> tags
  (\<open>event.go\<close>, \<open>metric.go\<close>, \<open>session.go\<close>, \<open>inventory.go\<close>), the bodies of the endpoints, and the HTTP request an
  attempt makes of them. \<open>json.Marshal\<close> replaces the invalid bytes of a string and fails on a float that is
  not finite; a slice without elements may be \<open>nil\<close>, which is written as \<open>null\<close> and read back as it was. The
  text of a JSON value and gzip are parameters.
\<close>

subsection \<open>Fields\<close>

definition enc_str :: "string \<Rightarrow> any" where
  "enc_str s = AStr (json_string s)"

definition enc_ptr :: "('a \<Rightarrow> any) \<Rightarrow> 'a option \<Rightarrow> any" where
  "enc_ptr f p = (case p of None \<Rightarrow> ANil | Some v \<Rightarrow> f v)"

text \<open>A field with \<open>omitempty\<close>.\<close>

definition enc_omit :: "string \<Rightarrow> ('a \<Rightarrow> any) \<Rightarrow> 'a option \<Rightarrow> gomap" where
  "enc_omit k f p = (case p of None \<Rightarrow> [] | Some v \<Rightarrow> [(k, f v)])"

definition dec_ptr_int :: "gomap \<Rightarrow> string \<Rightarrow> int64 option option" where
  "dec_ptr_int m k = (case aget m k of ANil \<Rightarrow> Some None | AInt64 n \<Rightarrow> Some (Some n) | _ \<Rightarrow> None)"

definition dec_ptr_bool :: "gomap \<Rightarrow> string \<Rightarrow> bool option option" where
  "dec_ptr_bool m k = (case aget m k of ANil \<Rightarrow> Some None | ABool b \<Rightarrow> Some (Some b) | _ \<Rightarrow> None)"

definition dec_ptr_float :: "gomap \<Rightarrow> string \<Rightarrow> float64 option option" where
  "dec_ptr_float m k = (case aget m k of
     ANil \<Rightarrow> Some None | AFloat x \<Rightarrow> Some (Some x) | AInt64 n \<Rightarrow> Some (Some (float_of_int64 n)) | _ \<Rightarrow> None)"

definition dec_float :: "gomap \<Rightarrow> string \<Rightarrow> float64 option" where
  "dec_float m k = map_option (\<lambda>p. case p of None \<Rightarrow> Fin 0 | Some x \<Rightarrow> x) (dec_ptr_float m k)"

text \<open>The elements of a slice; one that does not decode fails the whole.\<close>

fun dec_all :: "(any \<Rightarrow> 'a option) \<Rightarrow> any list \<Rightarrow> 'a list option" where
  "dec_all f [] = Some []"
| "dec_all f (v # vs) = Option.bind (f v) (\<lambda>x. map_option ((#) x) (dec_all f vs))"

definition dec_slice :: "(any \<Rightarrow> 'a option) \<Rightarrow> gomap \<Rightarrow> string \<Rightarrow> 'a list option" where
  "dec_slice f m k = (case aget m k of ANil \<Rightarrow> Some [] | ASlice vs \<Rightarrow> dec_all f vs | _ \<Rightarrow> None)"

subsection \<open>Events\<close>

definition enc_event :: "normalized_event \<Rightarrow> any" where
  "enc_event ev = AMap
     [(''event_id'', enc_ptr enc_str (ev_EventID ev)),
      (''event_name'', enc_ptr enc_str (ev_EventName ev)),
      (''timestamp'', enc_ptr enc_str (ev_Timestamp ev)),
      (''session_id'', enc_ptr enc_str (ev_SessionID ev)),
      (''model'', enc_ptr enc_str (ev_Model ev)),
      (''tool_name'', enc_ptr enc_str (ev_ToolName ev)),
      (''mcp_server'', enc_ptr enc_str (ev_MCPServer ev)),
      (''mcp_tool'', enc_ptr enc_str (ev_MCPTool ev)),
      (''mcp_server_tool_count'', enc_ptr AInt64 (ev_MCPServerToolCount ev)),
      (''mcp_schema_tokens'', enc_ptr AInt64 (ev_MCPSchemaTokens ev)),
      (''skill_name'', enc_ptr enc_str (ev_SkillName ev)),
      (''tool_success'', enc_ptr ABool (ev_ToolSuccess ev)),
      (''tool_duration_ms'', enc_ptr AFloat (ev_ToolDurationMs ev)),
      (''cost_usd'', enc_ptr AFloat (ev_CostUSD ev)),
      (''input_tokens'', enc_ptr AInt64 (ev_InputTokens ev)),
      (''output_tokens'', enc_ptr AInt64 (ev_OutputTokens ev)),
      (''cache_read_tokens'', enc_ptr AInt64 (ev_CacheReadTokens ev)),
      (''cache_create_tokens'', enc_ptr AInt64 (ev_CacheCreateTokens ev)),
      (''repo'', enc_ptr enc_str (ev_Repo ev)),
      (''error_message'', enc_ptr enc_str (ev_ErrorMessage ev))]"

definition dec_event :: "any \<Rightarrow> normalized_event option" where
  "dec_event v = Option.bind (as_object v) (\<lambda>m.
     Option.bind (dec_ptr m ''event_id'') (\<lambda>eid. Option.bind (dec_ptr m ''event_name'') (\<lambda>name.
     Option.bind (dec_ptr m ''timestamp'') (\<lambda>ts. Option.bind (dec_ptr m ''session_id'') (\<lambda>sid.
     Option.bind (dec_ptr m ''model'') (\<lambda>model. Option.bind (dec_ptr m ''tool_name'') (\<lambda>tool.
     Option.bind (dec_ptr m ''mcp_server'') (\<lambda>server. Option.bind (dec_ptr m ''mcp_tool'') (\<lambda>mtool.
     Option.bind (dec_ptr_int m ''mcp_server_tool_count'') (\<lambda>count.
     Option.bind (dec_ptr_int m ''mcp_schema_tokens'') (\<lambda>schema.
     Option.bind (dec_ptr m ''skill_name'') (\<lambda>skill. Option.bind (dec_ptr_bool m ''tool_success'') (\<lambda>success.
     Option.bind (dec_ptr_float m ''tool_duration_ms'') (\<lambda>dur. Option.bind (dec_ptr_float m ''cost_usd'') (\<lambda>cost.
     Option.bind (dec_ptr_int m ''input_tokens'') (\<lambda>i. Option.bind (dec_ptr_int m ''output_tokens'') (\<lambda>out.
     Option.bind (dec_ptr_int m ''cache_read_tokens'') (\<lambda>cr.
     Option.bind (dec_ptr_int m ''cache_create_tokens'') (\<lambda>cc.
     Option.bind (dec_ptr m ''repo'') (\<lambda>repo. Option.bind (dec_ptr m ''error_message'') (\<lambda>err.
       Some \<lparr>ev_EventID = eid, ev_EventName = name, ev_Timestamp = ts, ev_SessionID = sid, ev_Model = model,
         ev_ToolName = tool, ev_MCPServer = server, ev_MCPTool = mtool, ev_MCPServerToolCount = count,
         ev_MCPSchemaTokens = schema, ev_SkillName = skill, ev_ToolSuccess = success, ev_ToolDurationMs = dur,
         ev_CostUSD = cost, ev_InputTokens = i, ev_OutputTokens = out, ev_CacheReadTokens = cr,
         ev_CacheCreateTokens = cc, ev_Repo = repo, ev_ErrorMessage = err\<rparr>)))))))))))))))))))))"

subsection \<open>Metric points\<close>

definition enc_point :: "metric_point \<Rightarrow> any" where
  "enc_point p = AMap
     [(''metric_name'', enc_str (mp_MetricName p)),
      (''value'', AFloat (mp_Value p)),
      (''timestamp'', enc_ptr enc_str (mp_Timestamp p)),
      (''model'', enc_ptr enc_str (mp_Model p)),
      (''repo'', enc_ptr enc_str (mp_Repo p)),
      (''session_id'', enc_ptr enc_str (mp_SessionID p)),
      (''point_id'', enc_ptr enc_str (mp_PointID p))]"

definition dec_point :: "any \<Rightarrow> metric_point option" where
  "dec_point v = Option.bind (as_object v) (\<lambda>m.
     Option.bind (dec_str m ''metric_name'') (\<lambda>name. Option.bind (dec_float m ''value'') (\<lambda>x.
     Option.bind (dec_ptr m ''timestamp'') (\<lambda>ts. Option.bind (dec_ptr m ''model'') (\<lambda>model.
     Option.bind (dec_ptr m ''repo'') (\<lambda>repo. Option.bind (dec_ptr m ''session_id'') (\<lambda>sid.
     Option.bind (dec_ptr m ''point_id'') (\<lambda>pid.
       Some \<lparr>mp_MetricName = name, mp_Value = x, mp_Timestamp = ts, mp_Model = model, mp_Repo = repo,
         mp_SessionID = sid, mp_PointID = pid\<rparr>))))))))"

subsection \<open>Session summaries\<close>

definition enc_usage :: "session_model_usage \<Rightarrow> any" where
  "enc_usage u = AMap
     [(''model'', enc_ptr enc_str (mu_Model u)),
      (''input_tokens'', AInt64 (mu_InputTokens u)),
      (''output_tokens'', AInt64 (mu_OutputTokens u)),
      (''cache_read_tokens'', AInt64 (mu_CacheReadTokens u)),
      (''cache_create_tokens'', AInt64 (mu_CacheCreateTokens u))]"

definition dec_usage :: "any \<Rightarrow> session_model_usage option" where
  "dec_usage v = Option.bind (as_object v) (\<lambda>m.
     Option.bind (dec_ptr m ''model'') (\<lambda>model.
     Option.bind (dec_int m ''input_tokens'') (\<lambda>i. Option.bind (dec_int m ''output_tokens'') (\<lambda>out.
     Option.bind (dec_int m ''cache_read_tokens'') (\<lambda>cr. Option.bind (dec_int m ''cache_create_tokens'') (\<lambda>cc.
       Some \<lparr>mu_Model = model, mu_InputTokens = i, mu_OutputTokens = out, mu_CacheReadTokens = cr,
         mu_CacheCreateTokens = cc\<rparr>))))))"

definition enc_summary :: "session_summary \<Rightarrow> any" where
  "enc_summary s = AMap
     [(''session_id'', enc_str (ss_SessionID s)),
      (''updated_at'', enc_str (ss_UpdatedAt s)),
      (''started_at'', enc_str (ss_StartedAt s)),
      (''last_activity_at'', enc_str (ss_LastActivityAt s)),
      (''ended_at'', enc_ptr enc_str (ss_EndedAt s)),
      (''title'', enc_ptr enc_str (ss_Title s)),
      (''summary'', enc_ptr enc_str (ss_Summary s)),
      (''repo'', enc_ptr enc_str (ss_Repo s)),
      (''workspace_label'', enc_ptr enc_str (ss_WorkspaceLabel s)),
      (''model'', enc_ptr enc_str (ss_Model s)),
      (''models'', ASlice (map enc_usage (ss_Models s))),
      (''model_breakdown_complete'', ABool (ss_ModelBreakdownComplete s)),
      (''source'', enc_ptr enc_str (ss_Source s)),
      (''outcome'', enc_str (ss_Outcome s)),
      (''stop_reason'', enc_ptr enc_str (ss_StopReason s)),
      (''duration_ms'', enc_ptr AInt64 (ss_DurationMs s)),
      (''input_tokens'', AInt64 (ss_InputTokens s)),
      (''output_tokens'', AInt64 (ss_OutputTokens s)),
      (''cache_read_tokens'', AInt64 (ss_CacheReadTokens s)),
      (''cache_create_tokens'', AInt64 (ss_CacheCreateTokens s)),
      (''cost_usd'', enc_ptr AFloat (ss_CostUSD s)),
      (''tool_calls'', AInt64 (ss_ToolCalls s)),
      (''error_count'', AInt64 (ss_ErrorCount s))]"

definition dec_summary :: "any \<Rightarrow> session_summary option" where
  "dec_summary v = Option.bind (as_object v) (\<lambda>m.
     Option.bind (dec_str m ''session_id'') (\<lambda>sid. Option.bind (dec_str m ''updated_at'') (\<lambda>upd.
     Option.bind (dec_str m ''started_at'') (\<lambda>sta. Option.bind (dec_str m ''last_activity_at'') (\<lambda>act.
     Option.bind (dec_ptr m ''ended_at'') (\<lambda>ended. Option.bind (dec_ptr m ''title'') (\<lambda>title.
     Option.bind (dec_ptr m ''summary'') (\<lambda>summary. Option.bind (dec_ptr m ''repo'') (\<lambda>repo.
     Option.bind (dec_ptr m ''workspace_label'') (\<lambda>label. Option.bind (dec_ptr m ''model'') (\<lambda>model.
     Option.bind (dec_slice dec_usage m ''models'') (\<lambda>models.
     Option.bind (dec_bool m ''model_breakdown_complete'') (\<lambda>complete.
     Option.bind (dec_ptr m ''source'') (\<lambda>src. Option.bind (dec_str m ''outcome'') (\<lambda>outcome.
     Option.bind (dec_ptr m ''stop_reason'') (\<lambda>stop. Option.bind (dec_ptr_int m ''duration_ms'') (\<lambda>dur.
     Option.bind (dec_int m ''input_tokens'') (\<lambda>i. Option.bind (dec_int m ''output_tokens'') (\<lambda>out.
     Option.bind (dec_int m ''cache_read_tokens'') (\<lambda>cr. Option.bind (dec_int m ''cache_create_tokens'') (\<lambda>cc.
     Option.bind (dec_ptr_float m ''cost_usd'') (\<lambda>cost. Option.bind (dec_int m ''tool_calls'') (\<lambda>calls.
     Option.bind (dec_int m ''error_count'') (\<lambda>errs.
       Some \<lparr>ss_SessionID = sid, ss_UpdatedAt = upd, ss_StartedAt = sta, ss_LastActivityAt = act,
         ss_EndedAt = ended, ss_Title = title, ss_Summary = summary, ss_Repo = repo, ss_WorkspaceLabel = label,
         ss_Model = model, ss_Models = models, ss_ModelBreakdownComplete = complete, ss_Source = src,
         ss_Outcome = outcome, ss_StopReason = stop, ss_DurationMs = dur, ss_InputTokens = i,
         ss_OutputTokens = out, ss_CacheReadTokens = cr, ss_CacheCreateTokens = cc, ss_CostUSD = cost,
         ss_ToolCalls = calls, ss_ErrorCount = errs\<rparr>))))))))))))))))))))))))"

text \<open>\<open>json.Marshal\<close>.\<close>

definition marshal :: "('a \<Rightarrow> bool) \<Rightarrow> ('a \<Rightarrow> any) \<Rightarrow> 'a \<Rightarrow> any option" where
  "marshal fits enc x = (if fits x then Some (enc x) else None)"

subsection \<open>Reading back\<close>

lemma aget_Cons: "aget ((k, v) # m) k' = (if k' = k then v else aget m k')"
  by (simp add: aget_def)

lemma dec_enc_fields:
  "aget m k = enc_ptr enc_str p \<Longrightarrow> dec_ptr m k = Some (map_option json_string p)"
  "aget m k = enc_str s \<Longrightarrow> dec_str m k = Some (json_string s)"
  "aget m k = enc_ptr AInt64 i \<Longrightarrow> dec_ptr_int m k = Some i"
  "aget m k = enc_ptr ABool b \<Longrightarrow> dec_ptr_bool m k = Some b"
  "aget m k = enc_ptr AFloat x \<Longrightarrow> dec_ptr_float m k = Some x"
  "aget m k = AFloat y \<Longrightarrow> dec_float m k = Some y"
  "aget m k = AInt64 n \<Longrightarrow> dec_int m k = Some n"
  "aget m k = ABool t \<Longrightarrow> dec_bool m k = Some t"
  by (simp_all add: dec_ptr_def dec_str_def dec_ptr_int_def dec_ptr_bool_def dec_ptr_float_def dec_float_def
      dec_int_def dec_bool_def enc_ptr_def enc_str_def split: option.split)

lemma dec_all_map: "(\<And>x. x \<in> set xs \<Longrightarrow> dec (enc x) = Some (f x)) \<Longrightarrow> dec_all dec (map enc xs) = Some (map f xs)"
  by (induction xs) simp_all

lemma read_event: "Option.bind (marshal marshalable_event enc_event ev) dec_event = event_json ev"
  by (simp add: marshal_def dec_event_def enc_event_def as_object_def aget_Cons dec_enc_fields event_json_def)

lemma read_point: "Option.bind (marshal marshalable_point enc_point p) dec_point = point_json p"
  by (simp add: marshal_def dec_point_def enc_point_def as_object_def aget_Cons dec_enc_fields point_json_def)

lemma read_usage: "dec_usage (enc_usage u) = Some (usage_json u)"
  by (simp add: dec_usage_def enc_usage_def as_object_def aget_Cons dec_enc_fields usage_json_def)

lemma read_models: "aget m k = ASlice (map enc_usage us) \<Longrightarrow> dec_slice dec_usage m k = Some (map usage_json us)"
  by (simp add: dec_slice_def dec_all_map read_usage)

lemma read_summary: "Option.bind (marshal marshalable_summary enc_summary s) dec_summary = summary_json s"
  by (simp add: marshal_def dec_summary_def enc_summary_def as_object_def aget_Cons dec_enc_fields read_models
      summary_json_def)

text \<open>The encoder's text is valid UTF-8, so a value that was read back is written without a change.\<close>

lemma json_string_step:
  assumes "s \<noteq> []" "decode_rune s = (r, w)"
  shows "json_string s =
    (if bad_chunk (r, take w s) then [CHR 0xEF, CHR 0xBF, CHR 0xBD] else take w s) @ json_string (drop w s)"
  using assms by (simp add: json_string_def rune_chunks_step)

lemma replacement_valid: "valid_utf8 t \<Longrightarrow> valid_utf8 ([CHR 0xEF, CHR 0xBF, CHR 0xBD] @ t)"
  by (simp add: valid_utf8_def rune_chunks_step byte_def second_ok_def cont_byte_def bad_chunk_def)

lemma json_string_is_valid: "valid_utf8 (json_string s)"
proof (induction s rule: rune_chunks.induct)
  case (1 s)
  show ?case
  proof (cases "s = []")
    case True
    then show ?thesis by (simp add: json_string_def)
  next
    case False
    obtain r w where d: "decode_rune s = (r, w)" by fastforce
    have "valid_utf8 (json_string (drop w s))" by (rule "1.IH" [OF False d [symmetric] refl])
    then show ?thesis
      unfolding json_string_step [OF False d]
      using replacement_valid valid_utf8_cons_chunk [OF False d] by simp
  qed
qed

lemma json_string_again [simp]: "json_string (json_string s) = json_string s"
  by (rule json_string_valid) (rule json_string_is_valid)

lemma json_ptr_again [simp]: "map_option json_string (map_option json_string p) = map_option json_string p"
  by (cases p) simp_all

lemma usage_again [simp]: "usage_json (usage_json u) = usage_json u"
  by (simp add: usage_json_def)

lemma stored_again:
  "event_json ev = Some ev' \<Longrightarrow> event_json ev' = Some ev'"
  "point_json p = Some p' \<Longrightarrow> point_json p' = Some p'"
  "summary_json s = Some s' \<Longrightarrow> summary_json s' = Some s'"
  by (auto simp: event_json_def point_json_def summary_json_def marshalable_event_def marshalable_point_def
      marshalable_summary_def split: if_splits)



subsection \<open>Bodies\<close>

definition enc_telemetry :: "telemetry \<Rightarrow> any" where
  "enc_telemetry t = AMap
     [(''received'', AInt64 (tel_Received t)), (''filtered'', AInt64 (tel_Filtered t)),
      (''uploaded'', AInt64 (tel_Uploaded t)), (''dropped'', AInt64 (tel_Dropped t)),
      (''errors'', AInt64 (tel_Errors t)), (''queue_depth'', AInt64 (tel_QueueDepth t)),
      (''version'', enc_str (tel_Version t))]"

definition enc_item :: "inventory_item \<Rightarrow> any" where
  "enc_item it = AMap
     ([(''kind'', enc_str (ii_Kind it)), (''name'', enc_str (ii_Name it)), (''source'', enc_str (ii_Source it))]
      @ enc_omit ''description'' enc_str (ii_Description it) @ enc_omit ''version'' enc_str (ii_Version it)
      @ enc_omit ''script_count'' AInt64 (ii_ScriptCount it) @ enc_omit ''tool_count'' AInt64 (ii_ToolCount it)
      @ enc_omit ''schema_tokens'' AInt64 (ii_SchemaTokens it) @ enc_omit ''present'' ABool (ii_Present it))"

text \<open>The \<open>map[string]any\<close> of each endpoint. The encoder writes the keys of a map in order.\<close>

fun body_of :: "payload \<Rightarrow> any" where
  "body_of (P_Register machine email ver) = AMap
     [(''machine'', enc_str machine), (''user_email'', enc_str email), (''version'', enc_str ver)]"
| "body_of (P_Heartbeat i tel) = AMap
     ((''collector_id'', AInt64 i) # (case tel of None \<Rightarrow> [] | Some t \<Rightarrow> [(''counters'', enc_telemetry t)]))"
| "body_of (P_Events i ver evs) = AMap
     [(''collector_id'', AInt64 i), (''collector_version'', enc_str ver), (''events'', ASlice (map enc_event evs))]"
| "body_of (P_Metrics i pts) = AMap [(''collector_id'', AInt64 i), (''points'', ASlice (map enc_point pts))]"
| "body_of (P_Sessions i ss) = AMap [(''collector_id'', AInt64 i), (''sessions'', ASlice (map enc_summary ss))]"
| "body_of P_Rotate = AMap []"
| "body_of (P_Inventory i at items) = AMap
     [(''collector_id'', AInt64 i), (''items'', ASlice (map enc_item items)), (''observed_at'', enc_str at)]"
| "body_of (P_DeviceAuthorize name) = AMap [(''device_name'', enc_str name)]"
| "body_of (P_DeviceToken code) = AMap [(''device_code'', enc_str code)]"

subsection \<open>Requests\<close>

text \<open>The part of a client that does not change: the trimmed base URL and the user agent; the encoder of JSON
  texts and gzip, whose writes go to a buffer and do not fail.\<close>

record wire =
  wi_baseURL :: string
  wi_userAgent :: string
  wi_marshal :: "any \<Rightarrow> string"
  wi_gzip :: "string \<Rightarrow> string"

definition new_wire :: "string \<Rightarrow> string \<Rightarrow> (any \<Rightarrow> string) \<Rightarrow> (string \<Rightarrow> string) \<Rightarrow> wire" where
  "new_wire baseURL version json gz =
     \<lparr>wi_baseURL = trim_right baseURL (CHR ''/''), wi_userAgent = ''burndown-cli/'' @ version,
      wi_marshal = json, wi_gzip = gz\<rparr>"

record wire_request =
  hr_Method :: string
  hr_URL :: string
  hr_Header :: "(string \<times> string) list"
  hr_Body :: "string option"

definition http_of :: "wire \<Rightarrow> request \<Rightarrow> wire_request" where
  "http_of W req =
     \<lparr>hr_Method = rq_Method req,
      hr_URL = wi_baseURL W @ rq_Path req,
      hr_Header =
        (if rq_Payload req \<noteq> None then [(''Content-Type'', ''application/json'')] else [])
        @ (if rq_Gzip req then [(''Content-Encoding'', ''gzip'')] else [])
        @ [(''User-Agent'', wi_userAgent W)]
        @ (case rq_Key req of None \<Rightarrow> [] | Some k \<Rightarrow> [(''X-Collector-Key'', k)]),
      hr_Body = map_option (\<lambda>p. let data = wi_marshal W (body_of p) in if rq_Gzip req then wi_gzip W data else data)
        (rq_Payload req)\<rparr>"

text \<open>The sizes the client decides on are those of the encoded bodies.\<close>

definition sized_by :: "wire \<Rightarrow> net_env \<Rightarrow> bool" where
  "sized_by W N \<longleftrightarrow> (\<forall>p. net_size N p = length (wi_marshal W (body_of p)))"

subsection \<open>Error texts\<close>

definition AuthError_Error :: "string \<Rightarrow> string \<Rightarrow> string" where
  "AuthError_Error code detail =
     (if detail \<noteq> [] then ''authentication failed (401): '' @ detail
      else if code \<noteq> [] then ''authentication failed (401): '' @ code
      else ''authentication failed (401)'')"

definition ConflictError_Error :: "string \<Rightarrow> string" where
  "ConflictError_Error detail = (if detail = [] then ''conflict (409)'' else ''conflict (409): '' @ detail)"

definition DeviceTokenError_Error :: "string \<Rightarrow> string" where
  "DeviceTokenError_Error code = ''device login: '' @ code"

text \<open>At most 512 bytes of a reply are quoted.\<close>

definition readSnippet :: "body \<Rightarrow> string" where
  "readSnippet b = trim_space (take 512 (bd_text b))"

subsection \<open>The endpoints\<close>

text \<open>A call of one of the methods of the client, with its path and body.\<close>

inductive api_run :: "net_env \<Rightarrow> string \<Rightarrow> payload option \<Rightarrow> bool \<Rightarrow> client \<Rightarrow> client \<Rightarrow> bool" for N where
  register: "Register N m e c = (r, c')
    \<Longrightarrow> api_run N ''/ingest/v1/register'' (Some (P_Register m e (net_version N))) True c c'"
| heartbeat: "Heartbeat N i tel c = (r, c')
    \<Longrightarrow> api_run N ''/ingest/v1/heartbeat'' (Some (P_Heartbeat i tel)) True c c'"
| events: "SendEvents N i evs c = (r, c')
    \<Longrightarrow> api_run N ''/ingest/v1/events'' (Some (P_Events i (net_version N) evs)) True c c'"
| metrics: "SendMetrics N i pts c = (r, c')
    \<Longrightarrow> api_run N ''/ingest/v1/metrics'' (Some (P_Metrics i pts)) True c c'"
| sessions: "SendSessions N i ss c = (r, c')
    \<Longrightarrow> api_run N ''/ingest/v1/sessions'' (Some (P_Sessions i ss)) True c c'"
| rotate: "RotateKey N c = (r, c') \<Longrightarrow> api_run N ''/ingest/v1/keys/rotate'' (Some P_Rotate) True c c'"
| inventory: "SendInventory N i at items c = (r, c')
    \<Longrightarrow> api_run N ''/ingest/v1/inventory'' (Some (P_Inventory i at items)) True c c'"
| health: "Health N c = (r, c') \<Longrightarrow> api_run N ''/api/health'' None False c c'"
| authorize: "DeviceAuthorize N name c = (r, c')
    \<Longrightarrow> api_run N ''/api/device/authorize'' (Some (P_DeviceAuthorize name)) False c c'"
| device_poll: "DeviceToken N code c = (r, c')
    \<Longrightarrow> api_run N ''/api/device/token'' (Some (P_DeviceToken code)) False c c'"

definition large :: "net_env \<Rightarrow> payload option \<Rightarrow> bool" where
  "large N pl \<longleftrightarrow> (\<exists>p. pl = Some p \<and> gzipThreshold < net_size N p)"

text \<open>What a call may add to the trace.\<close>

definition adds_requests :: "net_env \<Rightarrow> string \<Rightarrow> payload option \<Rightarrow> bool \<Rightarrow> client \<Rightarrow> client \<Rightarrow> bool" where
  "adds_requests N path pl auth c c' \<longleftrightarrow> (\<exists>reqs. cl_sent c' = cl_sent c @ reqs \<and> (\<forall>q \<in> set reqs.
     rq_Path q = path \<and> rq_Payload q = pl \<and> rq_Key q = (if auth then Some (cl_key c) else None)
     \<and> (rq_Gzip q \<longrightarrow> large N pl)))"

lemma sends_nothing [simp]: "adds_requests N path pl auth c c"
  by (simp add: adds_requests_def)

lemma sends_then:
  "adds_requests N path pl auth c c1 \<Longrightarrow> adds_requests N path pl auth c1 c2 \<Longrightarrow> cl_key c1 = cl_key c \<Longrightarrow> adds_requests N path pl auth c c2"
  unfolding adds_requests_def by (metis Un_iff append.assoc set_append)

lemma sends_once:
  assumes "doOnce N m path pl a dec c = (r, c')"
  shows "adds_requests N path pl a c c'"
  using doOnce_client(5) [OF assms]
  by (auto simp: adds_requests_def large_def request_of_def maybeCompress_def split: option.splits if_splits)

lemma sends_retry: "retry_loop N m path pl a dec ds c = (r, c') \<Longrightarrow> adds_requests N path pl a c c'"
proof (induction ds arbitrary: c)
  case Nil
  obtain o1 c1 where once: "doOnce N m path pl a dec c = (o1, c1)" by fastforce
  with Nil have "c' = c1"
    using retry_loop.simps [of N m path pl a dec "[]" c] by (auto split: sum.splits prod.splits if_splits)
  with sends_once [OF once] show ?case by simp
next
  case (Cons d ds)
  obtain o1 c1 where once: "doOnce N m path pl a dec c = (o1, c1)" by fastforce
  let ?c1 = "c1\<lparr>cl_clock := cl_clock c1 + d\<rparr>"
  consider "c' = c1" | "retry_loop N m path pl a dec ds ?c1 = (r, c')"
    using Cons(2) once retry_loop.simps [of N m path pl a dec "d # ds" c]
    by (auto split: sum.splits prod.splits if_splits)
  then show ?case
  proof cases
    case 2
    have "adds_requests N path pl a c ?c1" using sends_once [OF once] by (simp add: adds_requests_def)
    moreover have "cl_key ?c1 = cl_key c" using doOnce_client(1) once by (cases o1) auto
    ultimately show ?thesis using sends_then Cons(1) [OF 2] by blast
  qed (use sends_once [OF once] in simp)
qed

lemma sends_post: "postJSONAuth N path p dec a c = (r, c') \<Longrightarrow> adds_requests N path (Some p) a c c'"
  by (auto simp: postJSONAuth_def doWithRetry_def dest: sends_retry split: if_splits)

lemma api_run_sends: "api_run N path pl auth c c' \<Longrightarrow> adds_requests N path pl auth c c'"
proof (induction rule: api_run.induct)
  case (health c r c')
  then show ?case by (auto simp: Health_def doWithRetry_def dest: sends_retry)
next
  case (device_poll code c r c')
  then show ?case by (auto simp: DeviceToken_def Let_def adds_requests_def)
qed (auto simp: Register_def Heartbeat_def SendEvents_def SendMetrics_def SendSessions_def RotateKey_def
  SendInventory_def DeviceAuthorize_def postJSON_def dest: sends_post split: if_splits)

lemma api_run_paths: "api_run N path pl auth c c' \<Longrightarrow> auth \<longleftrightarrow> has_prefix path ''/ingest/v1/''"
  by (induction rule: api_run.induct) (simp_all add: has_prefix_def)

text \<open>The server's view of a body.\<close>

definition received_body :: "(string \<Rightarrow> string) \<Rightarrow> wire_request \<Rightarrow> string option" where
  "received_body gunzip h = map_option
     (\<lambda>b. if map_of (hr_Header h) ''Content-Encoding'' = Some ''gzip'' then gunzip b else b) (hr_Body h)"

lemma http_headers:
  "map_of (hr_Header (http_of W q)) ''X-Collector-Key'' = rq_Key q"
  "map_of (hr_Header (http_of W q)) ''Content-Encoding'' = (if rq_Gzip q then Some ''gzip'' else None)"
  by (simp_all add: http_of_def split: option.split)

text \<open>C15: what the client puts on the wire. Every request of every method goes to the method's own URL under the
  base URL, and what the server reads from it, after undoing the compression the header announces, is the JSON
  text of that call's body; only bodies of more than 4 KiB are compressed. The collector's key is in the
  header of every request to \<open>/ingest/v1/\<close>, as it was at the start of the call, and in no other request, so the
  device login and the health probe never disclose it.\<close>

theorem requests_faithful:
  assumes "api_run N path pl auth c c'" "sized_by W N" "\<And>s. gunzip (wi_gzip W s) = s"
  shows "\<exists>reqs. cl_sent c' = cl_sent c @ reqs \<and> (\<forall>q \<in> set reqs.
     hr_URL (http_of W q) = wi_baseURL W @ path
     \<and> received_body gunzip (http_of W q) = map_option (\<lambda>p. wi_marshal W (body_of p)) pl
     \<and> map_of (hr_Header (http_of W q)) ''X-Collector-Key''
         = (if has_prefix path ''/ingest/v1/'' then Some (cl_key c) else None)
     \<and> (map_of (hr_Header (http_of W q)) ''Content-Encoding'' \<noteq> None
         \<longrightarrow> (\<exists>p. pl = Some p \<and> 4096 < length (wi_marshal W (body_of p)))))"
proof -
  obtain reqs where reqs: "cl_sent c' = cl_sent c @ reqs" "\<And>q. q \<in> set reqs \<Longrightarrow> rq_Path q = path \<and> rq_Payload q = pl
      \<and> rq_Key q = (if auth then Some (cl_key c) else None) \<and> (rq_Gzip q \<longrightarrow> large N pl)"
    using api_run_sends [OF assms(1)] unfolding adds_requests_def by blast
  have body: "received_body gunzip (http_of W q) = map_option (\<lambda>p. wi_marshal W (body_of p)) (rq_Payload q)" for q
    unfolding received_body_def http_headers
    by (cases "rq_Payload q") (simp_all add: http_of_def Let_def assms(3))
  have big: "large N pl \<Longrightarrow> \<exists>p. pl = Some p \<and> 4096 < length (wi_marshal W (body_of p))"
    using assms(2) by (auto simp: large_def sized_by_def gzipThreshold_def)
  have url: "hr_URL (http_of W q) = wi_baseURL W @ rq_Path q" for q
    by (simp add: http_of_def)
  from reqs(1) show ?thesis
    using reqs(2) api_run_paths [OF assms(1)] big by (auto simp: body url http_headers split: if_splits)
qed

text \<open>A heartbeat to a backend that is down: the four attempts carry the key and the small body as it is.\<close>

definition sample_wire :: wire where
  "sample_wire = new_wire ''https://c.example/'' ''dev'' (\<lambda>_. ''{}'') (\<lambda>s. s)"

lemma requests_faithful_witness:
  "\<exists>r c'. Heartbeat (always Net_Error\<lparr>net_size := \<lambda>_. 2\<rparr>) 1 None (NewClient ''k'') = (r, c') \<and> cl_sent c' \<noteq> []
     \<and> (\<forall>q \<in> set (cl_sent c'). hr_URL (http_of sample_wire q) = ''https://c.example/ingest/v1/heartbeat''
       \<and> map_of (hr_Header (http_of sample_wire q)) ''X-Collector-Key'' = Some ''k'')"
proof -
  let ?N = "always Net_Error\<lparr>net_size := \<lambda>_. 2\<rparr>" and ?c = "NewClient ''k''"
  obtain r c' where r: "Heartbeat ?N 1 None ?c = (r, c')" by fastforce
  then have "retry_loop ?N ''POST'' ''/ingest/v1/heartbeat'' (Some (P_Heartbeat 1 None)) True (into dec_heartbeat)
      retryDelays ?c = (r, c')"
    by (simp add: Heartbeat_def postJSON_def postJSONAuth_def payload_ok_def doWithRetry_def)
  from retry_loop_trace [OF this] have "cl_sent c' \<noteq> []" by (auto simp: requests_of_def)
  moreover have "sized_by sample_wire ?N" by (simp add: sized_by_def sample_wire_def new_wire_def always_def)
  from requests_faithful [OF heartbeat [OF r] this, of "\<lambda>s. s"]
  have "\<exists>reqs. cl_sent c' = cl_sent ?c @ reqs \<and> (\<forall>q \<in> set reqs.
      hr_URL (http_of sample_wire q) = wi_baseURL sample_wire @ ''/ingest/v1/heartbeat''
      \<and> map_of (hr_Header (http_of sample_wire q)) ''X-Collector-Key''
          = (if has_prefix ''/ingest/v1/heartbeat'' ''/ingest/v1/'' then Some (cl_key ?c) else None))"
    by (auto simp: sample_wire_def new_wire_def)
  then have "\<forall>q \<in> set (cl_sent c'). hr_URL (http_of sample_wire q) = ''https://c.example/ingest/v1/heartbeat''
      \<and> map_of (hr_Header (http_of sample_wire q)) ''X-Collector-Key'' = Some ''k''"
    by (simp add: NewClient_def sample_wire_def new_wire_def trim_right_def has_prefix_def)
  ultimately show ?thesis using r by blast
qed

end
