(* ===== verification/Runtime.thy ===== *)
theory Runtime
  imports Cred_Store Service
begin

text \<open>
  What the program takes from its process: the configuration directory and every path in it
  (\<open>config.Dir\<close>, \<open>queue.DefaultPath\<close>, the log, the salt), the choice of the credential backend in
  \<open>credstore.Open\<close>, the two backends of \<open>keychain_darwin.go\<close> and \<open>backend.go\<close> behind their interface, the
  browser command, the version string and the exit status. The keychain library is a record of its three
  functions over a state; the joining of paths on Windows is a parameter.
\<close>

subsection \<open>The process\<close>

datatype goos = GOOS_darwin | GOOS_windows | GOOS_other string

record process =
  pr_GOOS :: goos
  pr_Getenv :: "string \<Rightarrow> string"
  pr_windows_join :: "string list \<Rightarrow> string"

datatype dir_error = APPDATA_unset | No_home | Log_dir_failed

definition EnvConfigDir :: string where "EnvConfigDir = ''BURNDOWN_CONFIG_DIR''"
definition dirName :: string where "dirName = ''burndown''"
definition fileName :: string where "fileName = ''config.json''"
definition saltFile :: string where "saltFile = ''repo_key_salt''"

definition filepath_Join :: "process \<Rightarrow> string list \<Rightarrow> string" where
  "filepath_Join P xs = (if pr_GOOS P = GOOS_windows then pr_windows_join P xs else path_join xs)"

text \<open>\<open>os.UserHomeDir\<close> off Windows.\<close>

definition UserHomeDir :: "process \<Rightarrow> string option" where
  "UserHomeDir P = (if pr_Getenv P ''HOME'' = [] then None else Some (pr_Getenv P ''HOME''))"

definition config_Dir :: "process \<Rightarrow> dir_error + string" where
  "config_Dir P =
     (if pr_Getenv P EnvConfigDir \<noteq> [] then Inr (pr_Getenv P EnvConfigDir)
      else if pr_GOOS P = GOOS_windows then
        (if pr_Getenv P ''APPDATA'' = [] then Inl APPDATA_unset
         else Inr (filepath_Join P [pr_Getenv P ''APPDATA'', dirName]))
      else (case UserHomeDir P of
          None \<Rightarrow> Inl No_home
        | Some home \<Rightarrow> Inr (filepath_Join P [home, ''.'' @ dirName])))"

text \<open>The files in it.\<close>

definition NewFileStore :: "process \<Rightarrow> dir_error + string" where
  "NewFileStore P = (case config_Dir P of Inl e \<Rightarrow> Inl e | Inr dir \<Rightarrow> Inr (filepath_Join P [dir, fileName]))"

definition DefaultPath :: "process \<Rightarrow> dir_error + string" where
  "DefaultPath P = (case config_Dir P of Inl e \<Rightarrow> Inl e | Inr dir \<Rightarrow> Inr (filepath_Join P [dir, ''queue.db'']))"

definition saltPath :: "process \<Rightarrow> dir_error + string" where
  "saltPath P = (case config_Dir P of Inl e \<Rightarrow> Inl e | Inr dir \<Rightarrow> Inr (filepath_Join P [dir, saltFile]))"

text \<open>What \<open>serviceLogDir\<close> of \<open>platform\<close> gets from \<open>config.Dir\<close>.\<close>

definition configDir_of :: "process \<Rightarrow> string option" where
  "configDir_of P = (case config_Dir P of Inl _ \<Rightarrow> None | Inr dir \<Rightarrow> Some dir)"

text \<open>\<open>configPath\<close> of the doctor: the path of the store when it has one.\<close>

definition configPath :: "string option \<Rightarrow> string \<Rightarrow> string" where
  "configPath storePath dir = (case storePath of Some p \<Rightarrow> p | None \<Rightarrow> dir @ ''/config.json'')"

subsection \<open>The log\<close>

record log_writer =
  lw_Filename :: string
  lw_MaxSize :: nat
  lw_MaxBackups :: nat
  lw_MaxAge :: nat
  lw_Compress :: bool
  lw_stderr :: bool

text \<open>\<open>newLogger\<close>: \<open>mkdir\<close> says whether the directory can be made, \<open>terminal\<close> whether standard error is one.\<close>

definition newLogger :: "process \<Rightarrow> (string \<Rightarrow> bool) \<Rightarrow> bool \<Rightarrow> string \<Rightarrow> bool \<Rightarrow> dir_error + log_writer" where
  "newLogger P mkdir terminal dir verbose =
     (let logPath = filepath_Join P [dir, ''logs'', ''collector.log''] in
      if \<not> mkdir (path_dir logPath) then Inl Log_dir_failed
      else Inr \<lparr>lw_Filename = logPath, lw_MaxSize = 10, lw_MaxBackups = 5, lw_MaxAge = 28, lw_Compress = True,
        lw_stderr = verbose \<or> terminal\<rparr>)"

subsection \<open>Credential backends\<close>

text \<open>The interface \<open>Backend\<close>. \<open>None\<close> is an error of \<open>Get\<close>, \<open>Some None\<close> a secret that was never set.\<close>

record 's backend =
  bk_Name :: string
  bk_Get :: "account \<Rightarrow> 's \<Rightarrow> string option option"
  bk_Set :: "account \<Rightarrow> string \<Rightarrow> 's \<Rightarrow> bool \<times> 's"
  bk_Delete :: "account \<Rightarrow> 's \<Rightarrow> bool \<times> 's"

definition fileBackend :: "'s backend" where
  "fileBackend = \<lparr>bk_Name = BackendFile, bk_Get = (\<lambda>_ _. Some None), bk_Set = (\<lambda>_ _ s. (True, s)),
     bk_Delete = (\<lambda>_ s. (True, s))\<rparr>"

text \<open>The library: \<open>Get\<close>, \<open>Set\<close> and \<open>Delete\<close> of a service and a user.\<close>

datatype keyring_error = ErrNotFound | Keyring_Failed

record 's keyring =
  kr_Get :: "string \<Rightarrow> string \<Rightarrow> 's \<Rightarrow> keyring_error + string"
  kr_Set :: "string \<Rightarrow> string \<Rightarrow> string \<Rightarrow> 's \<Rightarrow> keyring_error option \<times> 's"
  kr_Delete :: "string \<Rightarrow> string \<Rightarrow> 's \<Rightarrow> keyring_error option \<times> 's"

definition keychainService :: string where "keychainService = ''com.agentburndown.burndown-cli''"

fun account_text :: "account \<Rightarrow> string" where
  "account_text AccountActiveKey = ''collector_key''"
| "account_text AccountPendingKey = ''pending_key''"

definition keychain_Get :: "'s keyring \<Rightarrow> account \<Rightarrow> 's \<Rightarrow> string option option" where
  "keychain_Get K a s = (case kr_Get K keychainService (account_text a) s of
     Inr secret \<Rightarrow> Some (Some secret)
   | Inl e \<Rightarrow> if e = ErrNotFound then Some None else None)"

definition keychain_Set :: "'s keyring \<Rightarrow> account \<Rightarrow> string \<Rightarrow> 's \<Rightarrow> bool \<times> 's" where
  "keychain_Set K a secret s = (case kr_Set K keychainService (account_text a) secret s of
     (None, s) \<Rightarrow> (True, s) | (Some _, s) \<Rightarrow> (False, s))"

definition keychain_Delete :: "'s keyring \<Rightarrow> account \<Rightarrow> 's \<Rightarrow> bool \<times> 's" where
  "keychain_Delete K a s = (case kr_Delete K keychainService (account_text a) s of
     (None, s) \<Rightarrow> (True, s) | (Some e, s) \<Rightarrow> (e = ErrNotFound, s))"

definition keychainBackend :: "'s keyring \<Rightarrow> 's backend" where
  "keychainBackend K = \<lparr>bk_Name = BackendKeychain, bk_Get = keychain_Get K, bk_Set = keychain_Set K,
     bk_Delete = keychain_Delete K\<rparr>"

text \<open>The constructor of the build.\<close>

definition newKeychainBackend :: "goos \<Rightarrow> 's keyring \<Rightarrow> 's backend" where
  "newKeychainBackend os K = (if os = GOOS_darwin then keychainBackend K else fileBackend)"

subsection \<open>Open\<close>

record 's opened_store =
  op_path :: string
  op_backend :: "'s backend"
  op_forced :: bool

definition cred_Open :: "process \<Rightarrow> 's keyring \<Rightarrow> dir_error + 's opened_store" where
  "cred_Open P K = (case NewFileStore P of
     Inl e \<Rightarrow> Inl e
   | Inr path \<Rightarrow>
       (let forced = pr_Getenv P EnvConfigDir \<noteq> [];
            backend = (if forced then fileBackend else newKeychainBackend (pr_GOOS P) K)
        in Inr \<lparr>op_path = path, op_backend = backend, op_forced = forced\<rparr>))"

text \<open>The environment of \<open>Cred_Store\<close> that goes with an opened store.\<close>

definition runs_in :: "'s opened_store \<Rightarrow> cred_env \<Rightarrow> bool" where
  "runs_in S E \<longleftrightarrow> bk_Name (op_backend S) = backendName E \<and> op_forced S = ce_forced E"

subsection \<open>The browser, the version and the exit status\<close>

definition OpenURL :: "goos \<Rightarrow> string \<Rightarrow> string \<times> string list" where
  "OpenURL os url = (case os of
     GOOS_darwin \<Rightarrow> (''open'', [url])
   | GOOS_windows \<Rightarrow> (''rundll32'', [''url.dll,FileProtocolHandler'', url])
   | GOOS_other _ \<Rightarrow> (''xdg-open'', [url]))"

definition version_String :: "string \<Rightarrow> string \<Rightarrow> string \<Rightarrow> string" where
  "version_String version commit date = version @ '' (commit '' @ commit @ '', built '' @ date @ '')''"

text \<open>An error of a command: an \<open>exitError\<close>, or any other with its text.\<close>

datatype command_error = ExitError nat | OtherError string

text \<open>\<open>main\<close>: the exit status and what is written to standard error.\<close>

definition main_exit :: "command_error option \<Rightarrow> nat \<times> string" where
  "main_exit r = (case r of
     None \<Rightarrow> (0, [])
   | Some (ExitError code) \<Rightarrow> (code, [])
   | Some (OtherError text) \<Rightarrow> (1, text @ [CHR 0x0A]))"

end
