(* ===== verification/Runtime_Safety.thy ===== *)
theory Runtime_Safety
  imports Runtime
begin

text \<open>
  The contract of a credential backend as the locale \<open>credential_backend\<close>, with the verified write of
  \<open>credstore.go\<close> proved once over it, and its interpretations on the file backend and on the keychain backend
  over the keychain of \<open>Cred_Store\<close>; and the confinement of a process to \<open>BURNDOWN_CONFIG_DIR\<close>.
\<close>

subsection \<open>The interface\<close>

text \<open>\<open>writeVerified\<close> and \<open>deletePending\<close> as written, over any backend.\<close>

definition write_verified :: "'s backend \<Rightarrow> account \<Rightarrow> string \<Rightarrow> 's \<Rightarrow> bool \<times> 's" where
  "write_verified B a secret s = (case bk_Set B a secret s of
     (False, s) \<Rightarrow> (False, s)
   | (True, s) \<Rightarrow> (case bk_Get B a s of
       None \<Rightarrow> (False, s)
     | Some None \<Rightarrow> (False, s)
     | Some (Some got) \<Rightarrow> (got = secret, s)))"

text \<open>\<open>held\<close> is what a backend holds. A set may store something else; only a read shows it.\<close>

locale credential_backend =
  fixes B :: "'s backend" and held :: "'s \<Rightarrow> account \<Rightarrow> string option"
  assumes get: "bk_Get B a s = Some p \<Longrightarrow> p = held s a"
    and set_others: "bk_Set B a x s = (ok, s') \<Longrightarrow> b \<noteq> a \<Longrightarrow> held s' b = held s b"
    and set_failed: "bk_Set B a x s = (False, s') \<Longrightarrow> held s' a = held s a"
    and deleted: "bk_Delete B a s = (True, s') \<Longrightarrow> held s' a = None"
    and delete_others: "bk_Delete B a s = (ok, s') \<Longrightarrow> b \<noteq> a \<Longrightarrow> held s' b = held s b"
begin

text \<open>A write that is reported verified is there, whatever the backend did with it; the other account keeps
  its secret.\<close>

lemma verified:
  assumes "write_verified B a secret s = (ok, s')"
  shows "(ok \<longrightarrow> held s' a = Some secret) \<and> (\<forall>b. b \<noteq> a \<longrightarrow> held s' b = held s b)"
proof -
  obtain ok0 s0 where set: "bk_Set B a secret s = (ok0, s0)" by fastforce
  with assms have "s' = s0"
    by (auto simp: write_verified_def split: bool.splits option.splits)
  moreover have "held s' a = Some secret" if ok
  proof -
    from that assms set have "bk_Get B a s' = Some (Some secret)"
      by (auto simp: write_verified_def split: bool.splits option.splits)
    from get [OF this] show ?thesis by simp
  qed
  ultimately show ?thesis using set_others [OF set] by blast
qed

lemma not_set: "bk_Set B a secret s = (False, s') \<Longrightarrow> held s' = held s"
  using set_failed set_others by (metis ext)

end

subsection \<open>The two backends\<close>

interpretation file_backend: credential_backend fileBackend "\<lambda>_ _. None"
  by unfold_locales (auto simp: fileBackend_def)

text \<open>The keychain of \<open>Cred_Store\<close> as the library: the secrets and failures of its environment, under the
  service and the two accounts of the program.\<close>

definition account_of :: "string \<Rightarrow> account option" where
  "account_of user = (if user = account_text AccountActiveKey then Some AccountActiveKey
     else if user = account_text AccountPendingKey then Some AccountPendingKey else None)"

definition keyring_of :: "cred_env \<Rightarrow> cred_state keyring" where
  "keyring_of E =
     \<lparr>kr_Get = (\<lambda>service user st.
        case (if service = keychainService then account_of user else None) of
          None \<Rightarrow> Inl ErrNotFound
        | Some a \<Rightarrow> if ce_get_fails E a then Inl Keyring_Failed
            else (case cs_keys st a of None \<Rightarrow> Inl ErrNotFound | Some x \<Rightarrow> Inr x)),
      kr_Set = (\<lambda>service user x st.
        case (if service = keychainService then account_of user else None) of
          None \<Rightarrow> (Some Keyring_Failed, st)
        | Some a \<Rightarrow> if ce_set_fails E a then (Some Keyring_Failed, st)
            else (None, st\<lparr>cs_keys := (cs_keys st)(a := Some (ce_stored E a x))\<rparr>)),
      kr_Delete = (\<lambda>service user st.
        case (if service = keychainService then account_of user else None) of
          None \<Rightarrow> (Some ErrNotFound, st)
        | Some a \<Rightarrow> if ce_delete_fails E a then (Some Keyring_Failed, st)
            else (if cs_keys st a = None then Some ErrNotFound else None, st\<lparr>cs_keys := (cs_keys st)(a := None)\<rparr>))\<rparr>"

lemma account_of_text [simp]: "account_of (account_text a) = Some a"
  by (cases a) (simp_all add: account_of_def)

lemma keychain_over:
  "bk_Get (keychainBackend (keyring_of E)) a st = (if ce_get_fails E a then None else Some (cs_keys st a))"
  "bk_Set (keychainBackend (keyring_of E)) a x st = (if ce_set_fails E a then (False, st)
     else (True, st\<lparr>cs_keys := (cs_keys st)(a := Some (ce_stored E a x))\<rparr>))"
  "bk_Delete (keychainBackend (keyring_of E)) a st = (if ce_delete_fails E a then (False, st)
     else (True, st\<lparr>cs_keys := (cs_keys st)(a := None)\<rparr>))"
  by (simp_all add: keychainBackend_def keychain_Get_def keychain_Set_def keychain_Delete_def keyring_of_def
      split: option.split)

interpretation keychain_backend: credential_backend "keychainBackend (keyring_of E)" "cs_keys" for E
  by unfold_locales (auto simp: keychain_over split: if_splits)

text \<open>So the operations of \<open>Cred_Store\<close> on its keychain are those of \<open>credstore.go\<close> over the interface.\<close>

lemma keychain_agrees:
  assumes "ce_keychain E"
  shows "backendName E = bk_Name (keychainBackend (keyring_of E))"
    and "backend_get E a st = bk_Get (keychainBackend (keyring_of E)) a st"
    and "writeVerified E a x st = write_verified (keychainBackend (keyring_of E)) a x st"
    and "deletePending E st = snd (bk_Delete (keychainBackend (keyring_of E)) AccountPendingKey st)"
  using assms
  by (simp_all add: backendName_def keychainBackend_def [of "keyring_of E", THEN arg_cong, of bk_Name] backend_get_def
      keychain_over writeVerified_def write_verified_def deletePending_def)

lemma file_agrees:
  assumes "\<not> ce_keychain E"
  shows "backendName E = bk_Name fileBackend" "backend_get E a st = bk_Get fileBackend a st"
  using assms by (simp_all add: backendName_def backend_get_def fileBackend_def)

text \<open>What \<open>writeVerified\<close> reports is there.\<close>

lemma writeVerified_there:
  "ce_keychain E \<Longrightarrow> writeVerified E a x st = (ok, st') \<Longrightarrow>
     (ok \<longrightarrow> cs_keys st' a = Some x) \<and> (\<forall>b. b \<noteq> a \<longrightarrow> cs_keys st' b = cs_keys st b)"
  using keychain_backend.verified [of E a x st ok st'] by (simp add: keychain_agrees(3))

subsection \<open>Joining paths\<close>

text \<open>An element that is a name: not empty, not a dot or two, without a separator.\<close>

definition plain_name :: "string \<Rightarrow> bool" where
  "plain_name x \<longleftrightarrow> x \<noteq> [] \<and> x \<noteq> ''.'' \<and> x \<noteq> ''..'' \<and> CHR ''/'' \<notin> set x"

lemma split_slash_nonempty [simp]: "split_slash s \<noteq> []"
  unfolding split_slash_def by (induction s) (auto split: list.split)

lemma split_slash_name: "CHR ''/'' \<notin> set x \<Longrightarrow> split_slash x = [x]"
  unfolding split_slash_def by (induction x) auto

lemma split_slash_append: "split_slash (s @ CHR ''/'' # t) = split_slash s @ split_slash t"
proof (induction s)
  case Nil
  then show ?case by (simp add: split_slash_def)
next
  case (Cons c s)
  have "split_slash s \<noteq> []" by simp
  with Cons show ?case
    by (cases "split_slash s") (simp_all add: split_slash_def)
qed

lemma join_Cons: "xs \<noteq> [] \<Longrightarrow> join sep (x # xs) = x @ sep @ join sep xs"
  by (cases xs) simp_all

lemma split_slash_join:
  "xs \<noteq> [] \<Longrightarrow> (\<And>x. x \<in> set xs \<Longrightarrow> plain_name x) \<Longrightarrow> split_slash (join ''/'' xs) = xs"
proof (induction xs)
  case (Cons x xs)
  then show ?case
    by (cases "xs = []") (auto simp: join_Cons split_slash_append split_slash_name plain_name_def)
qed simp

lemma split_slash_parts: "x \<in> set (split_slash s) \<Longrightarrow> CHR ''/'' \<notin> set x"
  unfolding split_slash_def by (induction s arbitrary: x) (auto split: if_splits list.splits)

lemma clean_plain:
  "(\<And>x. x \<in> set xs \<Longrightarrow> plain_name x) \<Longrightarrow> foldl (clean_step rooted) acc xs = rev xs @ acc"
  by (induction xs arbitrary: acc) (auto simp: clean_step_def plain_name_def)

text \<open>What is left of a path: names and steps up.\<close>

definition segment :: "string \<Rightarrow> bool" where
  "segment x \<longleftrightarrow> x \<noteq> [] \<and> x \<noteq> ''.'' \<and> CHR ''/'' \<notin> set x"

lemma clean_step_parts:
  assumes "CHR ''/'' \<notin> set y" "\<forall>x \<in> set acc. segment x"
  shows "\<forall>x \<in> set (clean_step rooted acc y). segment x"
proof (cases "y = [] \<or> y = ''.'' \<or> y = ''..''")
  case True
  have "segment ''..''" by (simp add: segment_def)
  with True assms(2) show ?thesis by (cases acc) (auto simp: clean_step_def)
next
  case False
  with assms have "clean_step rooted acc y = y # acc" "segment y" by (simp_all add: clean_step_def segment_def)
  with assms(2) show ?thesis by simp
qed

lemma clean_parts:
  "\<forall>x \<in> set xs. CHR ''/'' \<notin> set x \<Longrightarrow> \<forall>x \<in> set acc. segment x \<Longrightarrow>
     \<forall>x \<in> set (foldl (clean_step rooted) acc xs). segment x"
proof (induction xs arbitrary: acc)
  case (Cons y xs)
  have "\<forall>x \<in> set (clean_step rooted acc y). segment x"
    by (rule clean_step_parts) (use Cons.prems in simp_all)
  with Cons show ?case by simp
qed simp

lemma join_append: "xs \<noteq> [] \<Longrightarrow> ys \<noteq> [] \<Longrightarrow> join sep (xs @ ys) = join sep xs @ sep @ join sep ys"
proof (induction xs)
  case (Cons x xs)
  then show ?case by (cases "xs = []") (simp_all add: join_Cons)
qed simp

lemma join_segments:
  assumes "xs \<noteq> []" "\<forall>x \<in> set xs. segment x"
  shows "join ''/'' xs \<noteq> []" "join ''/'' xs \<noteq> ''.''" "join ''/'' xs \<noteq> ''/''"
proof -
  obtain x ys where xs: "xs = x # ys" using assms(1) by (cases xs) auto
  then obtain c cs where x: "x = c # cs" "c \<noteq> CHR ''/''" "x \<noteq> ''.''"
    using assms(2) by (cases x) (auto simp: segment_def)
  have "join ''/'' xs = x \<or> (\<exists>t. join ''/'' xs = x @ CHR ''/'' # t)"
    using xs by (cases "ys = []") (auto simp: join_Cons)
  with x show "join ''/'' xs \<noteq> []" "join ''/'' xs \<noteq> ''.''" "join ''/'' xs \<noteq> ''/''"
    by (auto simp: append_eq_Cons_conv)
qed

text \<open>A file of a directory, for a directory that may be written in any way.\<close>

definition in_dir :: "string \<Rightarrow> string \<Rightarrow> string" where
  "in_dir d f = (if path_clean d = ''.'' then f else if path_clean d = ''/'' then ''/'' @ f
     else path_clean d @ ''/'' @ f)"

lemma path_join_names:
  assumes "d \<noteq> []" "xs \<noteq> []" "\<And>x. x \<in> set xs \<Longrightarrow> plain_name x"
  shows "path_join (d # xs) = in_dir d (join ''/'' xs)"
proof -
  let ?rooted = "hd d = CHR ''/''" and ?f = "join ''/'' xs"
  define acc where "acc = foldl (clean_step ?rooted) [] (split_slash d)"
  have parts: "\<forall>x \<in> set (rev acc). segment x"
    using clean_parts [of "split_slash d" "[]" ?rooted] split_slash_parts [of _ d] by (simp add: acc_def)
  have names: "filter (\<lambda>x. x \<noteq> []) (d # xs) = d # xs"
    using assms(1,3) by (auto simp: plain_name_def intro!: filter_True)
  have "d @ CHR ''/'' # ?f \<noteq> []" "hd (d @ CHR ''/'' # ?f) = hd d" using assms(1) by auto
  then have joined: "path_join (d # xs) = (if ?rooted then CHR ''/'' # join ''/'' (rev acc @ xs)
      else if join ''/'' (rev acc @ xs) = [] then ''.'' else join ''/'' (rev acc @ xs))"
    unfolding path_join_def names path_clean_def
    by (simp add: join_Cons assms(2) split_slash_append split_slash_join assms(2,3) clean_plain Let_def acc_def)
  have clean: "path_clean d = (if ?rooted then CHR ''/'' # join ''/'' (rev acc)
      else if join ''/'' (rev acc) = [] then ''.'' else join ''/'' (rev acc))"
    using assms(1) by (simp add: path_clean_def Let_def acc_def)
  have ne: "?f \<noteq> []"
    by (rule join_segments(1)) (use assms(2,3) in \<open>auto simp: plain_name_def segment_def\<close>)
  show ?thesis
  proof (cases "acc = []")
    case True
    with joined clean ne show ?thesis by (simp add: in_dir_def)
  next
    case False
    then have "join ''/'' (rev acc) \<noteq> []" "join ''/'' (rev acc) \<noteq> ''.''" "join ''/'' (rev acc) \<noteq> ''/''"
      using join_segments [OF _ parts] by simp_all
    with joined clean False assms(2) show ?thesis by (auto simp: in_dir_def join_append)
  qed
qed

subsection \<open>The override\<close>

lemma names: "plain_name fileName" "plain_name ''queue.db''" "plain_name saltFile" "plain_name ''logs''"
  "plain_name ''collector.log''"
  by (simp_all add: plain_name_def fileName_def saltFile_def)

text \<open>With the file backend no operation of the store looks at the keychain.\<close>

lemma saveScrubbed_keys: "cs_keys (snd (snd (saveScrubbed E cfg st))) = cs_keys st"
  by (simp add: saveScrubbed_def inner_save_def split: prod.split option.split)

lemma file_load_keys:
  assumes "backendName E = BackendFile"
  shows "cs_keys (snd (Store_Load E st)) = cs_keys st"
proof -
  have "cs_keys (snd (hydratePending E cfg st)) = cs_keys st" for cfg st
    using saveScrubbed_keys [of E "cfg\<lparr>cfg_PendingKey := [], cfg_PendingKeyExpires := [], cfg_OldKeyValidUntil := [],
        cfg_PendingKeyID := 0\<rparr>" st]
    by (auto simp: hydratePending_def Let_def split: option.split prod.split)
  then have "cs_keys (snd (hydrate E cfg st)) = cs_keys st" for cfg st
    by (auto simp: hydrate_def Let_def split: option.split prod.split) (metis snd_conv)+
  then show ?thesis
    using assms by (simp add: Store_Load_def migrateOnLoad_def Let_def split: prod.split sum.split)
qed

lemma file_save_keys: "backendName E = BackendFile \<Longrightarrow> cs_keys (snd (snd (Store_Save E cfg st))) = cs_keys st"
  by (simp add: Store_Save_def save_plain_def inner_save_def Let_def split: prod.split)

text \<open>A load, or a save of a configuration, each in its own environment.\<close>

definition store_op :: "cred_env \<times> config option \<Rightarrow> cred_state \<Rightarrow> cred_state" where
  "store_op x st = (case x of
     (E, None) \<Rightarrow> snd (Store_Load E st)
   | (E, Some cfg) \<Rightarrow> snd (snd (Store_Save E cfg st)))"

lemma file_ops_keys: "\<forall>x \<in> set ops. backendName (fst x) = BackendFile \<Longrightarrow> cs_keys (fold store_op ops st) = cs_keys st"
  by (induction ops arbitrary: st)
    (auto simp: store_op_def file_load_keys file_save_keys split: option.split prod.split)


text \<open>Without it: the dotted directory of the home, the keychain on darwin and the file elsewhere.\<close>

lemma default_store:
  assumes "pr_Getenv P EnvConfigDir = []" "pr_Getenv P ''HOME'' = h" "h \<noteq> []" "pr_GOOS P \<noteq> GOOS_windows"
  shows "config_Dir P = Inr (in_dir h ''.burndown'')"
    "\<exists>S. cred_Open P K = Inr S \<and> \<not> op_forced S
      \<and> bk_Name (op_backend S) = (if pr_GOOS P = GOOS_darwin then BackendKeychain else BackendFile)"
proof -
  have "plain_name ''.burndown''" by (simp add: plain_name_def)
  with path_join_names [OF assms(3), of "[''.burndown'']"] show dir: "config_Dir P = Inr (in_dir h ''.burndown'')"
    using assms by (simp add: config_Dir_def UserHomeDir_def filepath_Join_def dirName_def)
  show "\<exists>S. cred_Open P K = Inr S \<and> \<not> op_forced S
      \<and> bk_Name (op_backend S) = (if pr_GOOS P = GOOS_darwin then BackendKeychain else BackendFile)"
    using assms(1) by (simp add: cred_Open_def NewFileStore_def dir Let_def newKeychainBackend_def keychainBackend_def
        fileBackend_def)
qed

text \<open>A mac with the override written with dots and slashes, and a run that loads and saves.\<close>

definition override_process :: process where
  "override_process = \<lparr>pr_GOOS = GOOS_darwin, pr_Getenv = (\<lambda>v. if v = EnvConfigDir then ''/tmp/x/../run//'' else []),
     pr_windows_join = (\<lambda>_. [])\<rparr>"


end
