(* ===== verification/Stats_Text.thy ===== *)
theory Stats_Text
  imports Stats_Safety
begin

text \<open>
  The text form of \<open>stats\<close> (\<open>cmd/burndown-cli/stats.go\<close>): the money format \<open>%.4f\<close> of a binary64, and the two
  tables as \<open>text/tabwriter\<close> lays them out with no minimal width, a padding of two spaces and left alignment.
  The writer is given the cells of its lines; a tool whose name holds one of the writer's own control
  characters, which would be cut into more cells, is left out.
\<close>

subsection \<open>Money\<close>

text \<open>A magnitude of \<open>n\<close> units in ten-thousandths, rounded to the nearest, ties to even.\<close>

definition tenthousandths :: "nat \<Rightarrow> nat" where
  "tenthousandths n =
     (let d = 2 ^ float_unit_bits; q = n * 10000 div d; r = n * 10000 mod d
      in if 2 * r > d \<or> 2 * r = d \<and> odd q then q + 1 else q)"

definition fixed4 :: "nat \<Rightarrow> string" where
  "fixed4 q = dec_nat (q div 10000) @ ''.'' @ pad 4 (int (q mod 10000))"

fun format_money :: "float64 \<Rightarrow> string" where
  "format_money (Fin n) = (if n < 0 then CHR ''-'' # fixed4 (tenthousandths (nat (- n))) else fixed4 (tenthousandths (nat n)))"
| "format_money Neg_Zero = ''-0.0000''"
| "format_money Pos_Inf = ''+Inf''"
| "format_money Neg_Inf = ''-Inf''"
| "format_money NaN = ''NaN''"

subsection \<open>Columns\<close>

text \<open>The width of a cell counts runes.\<close>

definition cell_width :: "string \<Rightarrow> nat" where
  "cell_width s = length (rune_chunks s)"

text \<open>A column block: the lines around line \<open>i\<close> whose cell \<open>j\<close> is ended by a tab, that is, is not their last.\<close>

definition column_block :: "string list list \<Rightarrow> nat \<Rightarrow> nat \<Rightarrow> string list list" where
  "column_block ls i j = (let ended = (\<lambda>l. Suc j < length l)
     in rev (takeWhile ended (rev (take i ls))) @ takeWhile ended (drop i ls))"

definition column_width :: "string list list \<Rightarrow> nat \<Rightarrow> nat \<Rightarrow> nat" where
  "column_width ls i j = foldr max (map (\<lambda>l. cell_width (l ! j) + 2) (column_block ls i j)) 0"

text \<open>A line: each cell but the last padded to the width of its column.\<close>

definition padded :: "string list list \<Rightarrow> nat \<Rightarrow> nat \<Rightarrow> string \<Rightarrow> string" where
  "padded ls i j s = s @ replicate (column_width ls i j - cell_width s) CHR '' ''"

definition tab_line :: "string list list \<Rightarrow> nat \<Rightarrow> string" where
  "tab_line ls i = (let l = ls ! i in
     concat (map (\<lambda>j. if Suc j < length l then padded ls i j (l ! j) else l ! j) [0..<length l]))"

definition tab_lines :: "string list list \<Rightarrow> string list" where
  "tab_lines ls = map (tab_line ls) [0..<length ls]"

subsection \<open>The report\<close>

definition table_row :: "string \<Rightarrow> int64 \<Rightarrow> int64 \<Rightarrow> int64 \<Rightarrow> int64 \<Rightarrow> int64 \<Rightarrow> float64 \<Rightarrow> string list" where
  "table_row label events i out cr cc cost =
     [label, itoa (sint events), itoa (sint i), itoa (sint out), itoa (sint cr), itoa (sint cc),
      CHR ''$'' # format_money cost]"

definition table_rows :: "DailyStat list \<Rightarrow> statsTotals \<Rightarrow> string list list" where
  "table_rows daily t =
     [''DATE'', ''EVENTS'', ''INPUT'', ''OUTPUT'', ''CACHE_R'', ''CACHE_C'', ''COST'']
     # map (\<lambda>d. table_row (da_Date d) (da_Events d) (da_InputTokens d) (da_OutputTokens d) (da_CacheReadTokens d)
         (da_CacheCreateTokens d) (da_CostUSD d)) daily
     @ [table_row ''TOTAL'' (tt_Events t) (tt_InputTokens t) (tt_OutputTokens t) (tt_CacheReadTokens t)
         (tt_CacheCreateTokens t) (tt_CostUSD t)]"

definition writeStatsTable :: "statsOutput \<Rightarrow> string list" where
  "writeStatsTable out = tab_lines (table_rows (so_Daily out) (so_Totals out))"

definition writeTopTools :: "ToolStat list \<Rightarrow> string list" where
  "writeTopTools tools =
     (if tools = [] then []
      else [[], ''top tools:'']
        @ tab_lines (map (\<lambda>t. [''  '' @ ts_Tool t, itoa (sint (ts_Count t))]) tools))"

definition writeStatsText :: "statsOutput \<Rightarrow> string list" where
  "writeStatsText out =
     [''stats: last '' @ itoa (sint (so_Days out)) @ '' day(s), since ''
        @ fmt_date (date_of_days (day_of (so_Since out))), []]
     @ (if so_Daily out = [] then [''no local usage data in the retained window'']
        else writeStatsTable out @ writeTopTools (so_TopTools out))"

subsection \<open>The columns line up\<close>

text \<open>In a table whose lines have the same number of cells a column is one block.\<close>

lemma column_block_uniform:
  assumes "\<forall>l \<in> set ls. length l = n" "Suc j < n"
  shows "column_block ls i j = ls"
proof -
  have all: "takeWhile (\<lambda>l. Suc j < length l) xs = xs" if "set xs \<subseteq> set ls" for xs
    using that assms by (intro takeWhile_eq_all_conv [THEN iffD2]) auto
  have "takeWhile (\<lambda>l. Suc j < length l) (rev (take i ls)) = rev (take i ls)"
    "takeWhile (\<lambda>l. Suc j < length l) (drop i ls) = drop i ls"
    by (rule all; auto dest: in_set_takeD in_set_dropD)+
  then show ?thesis by (simp only: column_block_def Let_def rev_rev_ident append_take_drop_id)
qed

lemma column_width_ge:
  assumes "l \<in> set (column_block ls i j)"
  shows "cell_width (l ! j) + 2 \<le> column_width ls i j"
proof -
  have "x \<in> set xs \<Longrightarrow> x \<le> foldr max xs 0" for x :: nat and xs by (induction xs) auto
  with assms show ?thesis by (simp add: column_width_def)
qed

text \<open>Where column \<open>j\<close> starts, and what a reader finds there up to the next space.\<close>

definition column_start :: "string list list \<Rightarrow> nat \<Rightarrow> nat" where
  "column_start ls j = sum_list (map (column_width ls 0) [0..<j])"

definition cell_at :: "string list list \<Rightarrow> nat \<Rightarrow> string \<Rightarrow> string" where
  "cell_at ls j line = takeWhile (\<lambda>c. c \<noteq> CHR '' '') (drop (column_start ls j) line)"

text \<open>A cell of printable ASCII.\<close>

definition plain_cell :: "string \<Rightarrow> bool" where
  "plain_cell s \<longleftrightarrow> (\<forall>c \<in> set s. byte c < 128 \<and> c \<noteq> CHR '' '')"

lemma plain_cell_width: "plain_cell s \<Longrightarrow> cell_width s = length s"
  unfolding cell_width_def plain_cell_def by (induction s) (simp_all add: rune_chunks_ascii)

lemma drop_concat: "j \<le> length xs \<Longrightarrow> drop (sum_list (map length (take j xs))) (concat xs) = concat (drop j xs)"
proof (induction xs arbitrary: j)
  case (Cons x xs)
  then show ?case by (cases j) simp_all
qed simp

lemma takeWhile_cell: "plain_cell s \<Longrightarrow> t = [] \<or> hd t = CHR '' '' \<Longrightarrow> takeWhile (\<lambda>c. c \<noteq> CHR '' '') (s @ t) = s"
  by (cases t) (auto simp: plain_cell_def takeWhile_append2)

lemma table_readable:
  assumes "\<forall>l \<in> set ls. length l = n" "\<forall>l \<in> set ls. \<forall>s \<in> set l. plain_cell s" "i < length ls" "j < n"
  shows "cell_at ls j (tab_line ls i) = ls ! i ! j"
proof -
  let ?l = "ls ! i"
  define cells where "cells = map (\<lambda>j. if Suc j < n then padded ls i j (?l ! j) else ?l ! j) [0..<n]"
  have row: "?l \<in> set ls" "length ?l = n" using assms(1,3) by auto
  then have line: "tab_line ls i = concat cells" by (simp add: tab_line_def cells_def Let_def)
  have plain: "plain_cell (?l ! k)" if "k < n" for k using that row assms(2) by auto
  have same: "column_width ls i k = column_width ls 0 k" if "Suc k < n" for k
    using column_block_uniform [OF assms(1) that] by (simp add: column_width_def)
  have fits: "length (?l ! k) + 2 \<le> column_width ls i k" if "Suc k < n" for k
  proof -
    have "?l \<in> set (column_block ls i k)" using column_block_uniform [OF assms(1) that] row(1) by simp
    from column_width_ge [OF this] plain_cell_width [OF plain, of k] that show ?thesis by simp
  qed
  have size: "length (padded ls i k (?l ! k)) = column_width ls 0 k" if "Suc k < n" for k
    using fits [OF that] plain_cell_width [OF plain, of k] same [OF that] that by (simp add: padded_def)
  have "map length (take j cells) = map (column_width ls 0) [0..<j]"
    using assms(4) size by (simp add: cells_def take_map)
  then have "drop (column_start ls j) (concat cells) = concat (drop j cells)"
    using drop_concat [of j cells] assms(4) by (simp add: column_start_def cells_def)
  also have "\<dots> = cells ! j @ concat (drop (Suc j) cells)"
    using assms(4) Cons_nth_drop_Suc [of j cells, symmetric] by (simp add: cells_def)
  finally have at: "drop (column_start ls j) (tab_line ls i) = cells ! j @ concat (drop (Suc j) cells)"
    by (simp add: line)
  show ?thesis
  proof (cases "Suc j < n")
    case True
    then have "cells ! j = ?l ! j @ replicate (column_width ls i j - length (?l ! j)) CHR '' ''"
      using assms(4) plain_cell_width [OF plain] by (simp add: cells_def padded_def)
    moreover have "0 < column_width ls i j - length (?l ! j)" using fits [OF True] by linarith
    ultimately show ?thesis
      using takeWhile_cell [OF plain [OF assms(4)]] by (auto simp: cell_at_def at gr0_conv_Suc)
  next
    case False
    then have "cells ! j = ?l ! j" "drop (Suc j) cells = []" using assms(4) by (simp_all add: cells_def)
    then show ?thesis
      using takeWhile_cell [OF plain [OF assms(4)], of "[]"] by (simp add: cell_at_def at)
  qed
qed

text \<open>The price that is printed is the nearest.\<close>

lemma tenthousandths_nearest:
  "\<bar>2 * (int (tenthousandths n) * 2 ^ float_unit_bits - int n * 10000)\<bar> \<le> 2 ^ float_unit_bits"
proof -
  define d :: nat where "d = 2 ^ float_unit_bits"
  define q r where "q = n * 10000 div d" and "r = n * 10000 mod d"
  have eq: "n * 10000 = q * d + r" by (simp add: q_def r_def)
  have "r < d" by (simp add: r_def d_def)
  moreover have t: "tenthousandths n = (if 2 * r > d \<or> 2 * r = d \<and> odd q then q + 1 else q)"
    by (simp add: tenthousandths_def d_def q_def r_def Let_def)
  moreover have "int n * 10000 = int q * int d + int r"
    using arg_cong [OF eq, of int] by simp
  ultimately have "\<bar>2 * (int (tenthousandths n) * int d - int n * 10000)\<bar> \<le> int d"
    by (auto simp: algebra_simps abs_le_iff)
  then show ?thesis by (simp add: d_def)
qed

lemma plain_cell_simps [simp]:
  "plain_cell []" "plain_cell (c # s) \<longleftrightarrow> byte c < 128 \<and> c \<noteq> CHR '' '' \<and> plain_cell s"
  "plain_cell (s @ t) \<longleftrightarrow> plain_cell s \<and> plain_cell t"
  by (auto simp: plain_cell_def)

lemma digit_plain: "(d :: nat) < 10 \<Longrightarrow> byte (char_of (48 + d)) < 128 \<and> char_of (48 + d) \<noteq> CHR '' ''"
proof -
  assume "d < (10 :: nat)"
  then have "byte (char_of (48 + d)) = 48 + d" by (simp add: byte_def)
  moreover have "byte CHR '' '' = 32" by (simp add: byte_def)
  ultimately have "byte (char_of (48 + d)) < 128" "byte (char_of (48 + d)) \<noteq> byte CHR '' ''"
    using \<open>d < 10\<close> by linarith+
  then show ?thesis by metis
qed

lemma dec_nat_plain [simp]: "plain_cell (dec_nat n)"
proof (induction n rule: dec_nat.induct)
  case (1 n)
  show ?case
    using 1 digit_plain [of n] digit_plain [of "n mod 10"] by (subst dec_nat.simps) simp
qed

lemma pad_plain [simp]: "plain_cell (pad w n)"
proof (induction w arbitrary: n)
  case (Suc w)
  have "nat (n mod 10) < 10" using pos_mod_bound [of 10 n] pos_mod_sign [of 10 n] by linarith
  with Suc digit_plain [OF this] show ?case by simp
qed simp

lemma money_plain [simp]: "plain_cell (format_money x)" and itoa_plain [simp]: "plain_cell (itoa i)"
  by (cases x) (simp_all add: fixed4_def itoa_def byte_def)

text \<open>So the table of \<open>stats\<close> reads back cell by cell: whatever the sizes of the numbers, each stands under its
  heading, behind at least two spaces.\<close>

lemma stats_table_readable:
  assumes "\<forall>d \<in> set (so_Daily out). plain_cell (da_Date d)" "i < length (so_Daily out) + 2" "j < 7"
  shows "cell_at (table_rows (so_Daily out) (so_Totals out)) j (writeStatsTable out ! i)
    = table_rows (so_Daily out) (so_Totals out) ! i ! j"
proof -
  let ?ls = "table_rows (so_Daily out) (so_Totals out)"
  have "\<forall>l \<in> set ?ls. length l = 7" by (auto simp: table_rows_def table_row_def)
  moreover have "\<forall>l \<in> set ?ls. \<forall>s \<in> set l. plain_cell s"
    using assms(1) by (auto simp: table_rows_def table_row_def byte_def)
  moreover have "i < length ?ls" using assms(2) by (simp add: table_rows_def)
  ultimately have "cell_at ?ls j (tab_line ?ls i) = ?ls ! i ! j" using assms(3) by (rule table_readable)
  with \<open>i < length ?ls\<close> show ?thesis by (simp add: writeStatsTable_def tab_lines_def)
qed

end
