(* ===== verification/Cli.thy ===== *)
theory Cli
  imports Runtime Setup_Cmd
begin

text \<open>
  The command tree of \<open>cmd/burndown-cli\<close>: each command with the flags it declares, and what its \<open>RunE\<close> calls
  for a command line. Splitting the command line into words and flag values is the flag library; it refuses a
  flag the command does not declare, and \<open>cobra.NoArgs\<close> a further word. Help is what a group shows.
\<close>

subsection \<open>The tree\<close>

datatype flag_value = Int_Flag int | Bool_Flag bool | String_Flag string

fun same_kind :: "flag_value \<Rightarrow> flag_value \<Rightarrow> bool" where
  "same_kind (Int_Flag _) (Int_Flag _) = True"
| "same_kind (Bool_Flag _) (Bool_Flag _) = True"
| "same_kind (String_Flag _) (String_Flag _) = True"
| "same_kind _ _ = False"

record command =
  cm_Use :: "string list"
  cm_Flags :: "(string \<times> flag_value) list"
  cm_Runs :: bool

definition port_flag :: "string \<times> flag_value" where
  "port_flag = (''port'', Int_Flag DefaultPort)"

definition newServeCmd :: command where
  "newServeCmd = \<lparr>cm_Use = [''serve''], cm_Flags = [port_flag, (''verbose'', Bool_Flag False)], cm_Runs = True\<rparr>"

definition newLoginCmd :: command where
  "newLoginCmd = \<lparr>cm_Use = [''login''], cm_Flags = [(''machine'', String_Flag [])], cm_Runs = True\<rparr>"

definition newRegisterCmd :: command where
  "newRegisterCmd = \<lparr>cm_Use = [''register''], cm_Flags = [], cm_Runs = True\<rparr>"

definition newStatusCmd :: command where
  "newStatusCmd = \<lparr>cm_Use = [''status''], cm_Flags = [port_flag, (''json'', Bool_Flag False)], cm_Runs = True\<rparr>"

definition newStatsCmd :: command where
  "newStatsCmd = \<lparr>cm_Use = [''stats''], cm_Flags = [(''days'', Int_Flag 0), (''json'', Bool_Flag False)], cm_Runs = True\<rparr>"

definition newSendTestCmd :: command where
  "newSendTestCmd = \<lparr>cm_Use = [''send-test''], cm_Flags = [port_flag], cm_Runs = True\<rparr>"

definition newSetupCmd :: command where
  "newSetupCmd = \<lparr>cm_Use = [''setup''], cm_Flags = [port_flag, (''check'', Bool_Flag False), (''all'', Bool_Flag False),
     (''claude'', Bool_Flag False), (''codex'', Bool_Flag False), (''yes'', Bool_Flag False)], cm_Runs = True\<rparr>"

definition newServiceCmd :: "command list" where
  "newServiceCmd = \<lparr>cm_Use = [''service''], cm_Flags = [], cm_Runs = False\<rparr>
     # map (\<lambda>use. \<lparr>cm_Use = [''service'', use], cm_Flags = [], cm_Runs = True\<rparr>)
         [''install'', ''uninstall'', ''start'', ''stop'', ''status'']"

definition newDoctorCmd :: command where
  "newDoctorCmd = \<lparr>cm_Use = [''doctor''], cm_Flags = [port_flag, (''json'', Bool_Flag False)], cm_Runs = True\<rparr>"

definition newRootCmd :: "command list" where
  "newRootCmd = \<lparr>cm_Use = [], cm_Flags = [], cm_Runs = False\<rparr>
     # [newServeCmd, newLoginCmd, newRegisterCmd, newStatusCmd, newStatsCmd, newSendTestCmd, newSetupCmd]
     @ newServiceCmd @ [newDoctorCmd]"

subsection \<open>Running a command line\<close>

record command_line =
  ln_words :: "string list"
  ln_rest :: "string list"
  ln_given :: "(string \<times> flag_value) list"

definition find_command :: "string list \<Rightarrow> command option" where
  "find_command ws = find (\<lambda>c. cm_Use c = ws) newRootCmd"

definition flag_of :: "command \<Rightarrow> command_line \<Rightarrow> string \<Rightarrow> flag_value option" where
  "flag_of c l k = (case map_of (ln_given l) k of Some v \<Rightarrow> Some v | None \<Rightarrow> map_of (cm_Flags c) k)"

definition int_flag :: "command \<Rightarrow> command_line \<Rightarrow> string \<Rightarrow> int" where
  "int_flag c l k = (case flag_of c l k of Some (Int_Flag n) \<Rightarrow> n | _ \<Rightarrow> 0)"

definition bool_flag :: "command \<Rightarrow> command_line \<Rightarrow> string \<Rightarrow> bool" where
  "bool_flag c l k = (case flag_of c l k of Some (Bool_Flag b) \<Rightarrow> b | _ \<Rightarrow> False)"

definition string_flag :: "command \<Rightarrow> command_line \<Rightarrow> string \<Rightarrow> string" where
  "string_flag c l k = (case flag_of c l k of Some (String_Flag s) \<Rightarrow> s | _ \<Rightarrow> [])"

text \<open>What the library lets through.\<close>

definition well_given :: "command \<Rightarrow> command_line \<Rightarrow> bool" where
  "well_given c l \<longleftrightarrow> ln_rest l = [] \<and>
     list_all (\<lambda>(k, v). case map_of (cm_Flags c) k of None \<Rightarrow> False | Some d \<Rightarrow> same_kind d v) (ln_given l)"

datatype invocation =
    Call_help
  | Call_serve int bool
  | Call_login string string
  | Call_register
  | Call_status int bool
  | Call_stats int bool
  | Call_send_test int
  | Call_setup setup_flags
  | Call_service string
  | Call_doctor int bool

definition target_port :: "bool \<Rightarrow> cred_env \<Rightarrow> command \<Rightarrow> command_line \<Rightarrow> cred_state \<Rightarrow> int \<times> cred_state" where
  "target_port opened E c l st =
     resolvePort opened E (map_of (ln_given l) ''port'' \<noteq> None) (int_flag c l ''port'') st"

text \<open>The \<open>RunE\<close> of each command.\<close>

definition serve_RunE :: "command \<Rightarrow> command_line \<Rightarrow> invocation" where
  "serve_RunE c l = Call_serve (int_flag c l ''port'') (bool_flag c l ''verbose'')"

definition login_RunE :: "command \<Rightarrow> command_line \<Rightarrow> invocation" where
  "login_RunE c l = Call_login (string_flag c l ''machine'') DefaultAPIURL"

definition stats_RunE :: "command \<Rightarrow> command_line \<Rightarrow> invocation" where
  "stats_RunE c l = Call_stats (int_flag c l ''days'') (bool_flag c l ''json'')"

definition setup_RunE :: "command \<Rightarrow> command_line \<Rightarrow> invocation" where
  "setup_RunE c l = Call_setup
     \<lparr>sf_port = int_flag c l ''port'', sf_portSet = (map_of (ln_given l) ''port'' \<noteq> None),
      sf_check = bool_flag c l ''check'', sf_all = bool_flag c l ''all'', sf_claude = bool_flag c l ''claude'',
      sf_codex = bool_flag c l ''codex'', sf_yes = bool_flag c l ''yes''\<rparr>"

definition status_RunE :: "bool \<Rightarrow> cred_env \<Rightarrow> command \<Rightarrow> command_line \<Rightarrow> cred_state \<Rightarrow> invocation \<times> cred_state" where
  "status_RunE opened E c l st =
     (case target_port opened E c l st of (port, st) \<Rightarrow> (Call_status port (bool_flag c l ''json''), st))"

definition sendTest_RunE :: "bool \<Rightarrow> cred_env \<Rightarrow> command \<Rightarrow> command_line \<Rightarrow> cred_state \<Rightarrow> invocation \<times> cred_state" where
  "sendTest_RunE opened E c l st = (case target_port opened E c l st of (port, st) \<Rightarrow> (Call_send_test port, st))"

definition doctor_RunE :: "bool \<Rightarrow> cred_env \<Rightarrow> command \<Rightarrow> command_line \<Rightarrow> cred_state \<Rightarrow> invocation \<times> cred_state" where
  "doctor_RunE opened E c l st =
     (case target_port opened E c l st of (port, st) \<Rightarrow> (Call_doctor port (bool_flag c l ''json''), st))"

lemmas RunE_defs = serve_RunE_def login_RunE_def stats_RunE_def setup_RunE_def status_RunE_def sendTest_RunE_def
  doctor_RunE_def

text \<open>The dispatch of the library. A group without a \<open>RunE\<close> shows its help.\<close>

definition dispatch :: "bool \<Rightarrow> cred_env \<Rightarrow> command \<Rightarrow> command_line \<Rightarrow> cred_state \<Rightarrow> invocation \<times> cred_state" where
  "dispatch opened E c l st =
     (if \<not> cm_Runs c then (Call_help, st)
      else if cm_Use c = [''serve''] then (serve_RunE c l, st)
      else if cm_Use c = [''login''] then (login_RunE c l, st)
      else if cm_Use c = [''register''] then (Call_register, st)
      else if cm_Use c = [''status''] then status_RunE opened E c l st
      else if cm_Use c = [''stats''] then (stats_RunE c l, st)
      else if cm_Use c = [''send-test''] then sendTest_RunE opened E c l st
      else if cm_Use c = [''setup''] then (setup_RunE c l, st)
      else if cm_Use c = [''doctor''] then doctor_RunE opened E c l st
      else (Call_service (last (cm_Use c)), st))"

definition Execute :: "bool \<Rightarrow> cred_env \<Rightarrow> command_line \<Rightarrow> cred_state \<Rightarrow> (command_error + invocation) \<times> cred_state" where
  "Execute opened E l st = (case find_command (ln_words l) of
     None \<Rightarrow> (Inl (OtherError ''unknown command''), st)
   | Some c \<Rightarrow>
       if \<not> well_given c l then (Inl (OtherError ''usage''), st)
       else (case dispatch opened E c l st of (k, st) \<Rightarrow> (Inr k, st)))"

subsection \<open>The prompter\<close>

text \<open>A line of the standard input, read to the first newline or to the end; a failed read is an error. What is
  left is for the next prompt of the same command.\<close>

datatype read_end = At_EOF | Read_Failed

definition prompt_line :: "read_end \<Rightarrow> string \<Rightarrow> (unit + string) \<times> string" where
  "prompt_line e input =
     (let line = takeWhile (\<lambda>c. c \<noteq> CHR 0x0A) input; rest = drop (length line) input in
      if rest \<noteq> [] then (Inr (trim_space line), tl rest)
      else (if e = At_EOF then Inr (trim_space line) else Inl (), []))"

subsection \<open>What the tree offers\<close>

lemmas tree_defs = newRootCmd_def newServeCmd_def newLoginCmd_def newRegisterCmd_def newStatusCmd_def newStatsCmd_def
  newSendTestCmd_def newSetupCmd_def newServiceCmd_def newDoctorCmd_def port_flag_def

text \<open>The names of the commands are distinct, so the first that is found is the one; and no command takes a
  secret, a key or an address on its command line, where a process list would show it.\<close>

lemma commands_distinct: "distinct (map cm_Use newRootCmd)"
  by (simp add: tree_defs)

lemma no_secret_flags:
  "c \<in> set newRootCmd \<Longrightarrow> k \<in> fst ` set (cm_Flags c) \<Longrightarrow>
     k \<in> {''port'', ''verbose'', ''machine'', ''json'', ''days'', ''check'', ''all'', ''claude'', ''codex'', ''yes''}"
  by (auto simp: tree_defs)

text \<open>\<open>login\<close> goes to the canonical endpoint, whatever the command line says.\<close>

lemma login_endpoint: "Execute opened E l st = (Inr (Call_login machine url), st') \<Longrightarrow> url = DefaultAPIURL"
  by (auto simp: Execute_def dispatch_def RunE_defs split: option.splits if_splits prod.splits)

text \<open>\<open>serve\<close> binds the port of its flag; \<open>status\<close>, \<open>send-test\<close> and \<open>doctor\<close> look for the daemon where it last
  was, unless told otherwise.\<close>

lemma status_port:
  assumes "Execute opened E l st = (Inr (Call_status port json), st')" "map_of (ln_given l) ''port'' = None"
  shows "(case persistedPort opened E st of (Some p, _) \<Rightarrow> port = p | (None, _) \<Rightarrow> port = DefaultPort)"
proof -
  obtain c where c: "find_command (ln_words l) = Some c" "well_given c l" "dispatch opened E c l st = (Call_status port json, st')"
    using assms(1) by (auto simp: Execute_def split: option.splits if_splits prod.splits)
  then have "cm_Use c = [''status'']" and t: "target_port opened E c l st = (port, st')"
    by (auto simp: dispatch_def RunE_defs split: if_splits prod.splits)
  moreover have "c \<in> set newRootCmd"
    using c(1) by (auto simp: find_command_def find_Some_iff)
  ultimately have "c = newStatusCmd" by (auto simp: tree_defs)
  with t assms(2) show ?thesis
    by (auto simp: target_port_def resolvePort_def int_flag_def flag_of_def newStatusCmd_def port_flag_def
        split: prod.splits option.splits)
qed

end
