(* ===== verification/Spec2Isabelle.thy ===== *)
theory Spec2Isabelle
  imports Daemon_Safety Inventory_Safety Setup_Cmd_Safety Discovery_Safety Login_Safety Doctor_Safety Ledger Service_Safety Plist_Safety Stats_Safety
    Status_Safety Serve_Safety Schema_Safety Run_Safety Api_Wire Runtime_Safety Stats_Text Cli
begin

text \<open>
  A model of the desktop collector, the Go program that receives telemetry of coding agents on
  the loopback interface, strips it to an allowlist, stores it, and uploads it.

  \<^bold>\<open>The program.\<close> An agent posts OTLP/JSON to \<^verbatim>\<open>internal/receiver\<close>, which admits local requests
  only and hands the decoded body to \<^verbatim>\<open>internal/daemon\<close>. The daemon normalises it
  (\<^verbatim>\<open>internal/normalize\<close>), attributes the events to a repository (\<^verbatim>\<open>internal/codexrepo\<close>), drops
  noise while accumulating its tokens (\<^verbatim>\<open>internal/filter\<close>), folds the events into session summaries
  and enqueues what is kept in SQLite tables (\<^verbatim>\<open>internal/queue\<close>). The uploader
  (\<^verbatim>\<open>internal/uploader\<close>) leases batches, sends them through the API client (\<^verbatim>\<open>internal/api\<close>),
  acknowledges or gives them back, sends heartbeats, follows the policy they return, degrades when
  the key is refused, and rotates the key. Configuration and keys live in a file and an OS keychain
  (\<^verbatim>\<open>internal/config\<close>, \<^verbatim>\<open>internal/credstore\<close>); \<^verbatim>\<open>internal/counters\<close> holds the telemetry of
  the collector itself.

  \<^bold>\<open>The ground.\<close> \<^theory_text>\<open>Go_Base\<close>, \<^theory_text>\<open>Go_Strings\<close>, \<^theory_text>\<open>Go_Float\<close> and \<^theory_text>\<open>Go_Time\<close> are the parts of Go and its
  library the source uses: byte strings and UTF-8, 64-bit words, binary64 as integers of units
  of the least subnormal, instants and the three time layouts. Their lemmas (rounding, calendar
  arithmetic, the order of fixed-width timestamps, round trips of parsing) carry the rest.

  \<^bold>\<open>Theories and sources.\<close>
  \<^item> \<^theory_text>\<open>Api_Types\<close>: the wire types of \<^verbatim>\<open>api/event.go\<close>, \<^verbatim>\<open>metric.go\<close>, \<^verbatim>\<open>session.go\<close>, \<^verbatim>\<open>policy.go\<close> as
    records, a pointer field as an option; the token totals.
  \<^item> \<^theory_text>\<open>Counters\<close>: \<^verbatim>\<open>counters/counters.go\<close>, \<^verbatim>\<open>counters/telemetry.go\<close>.
  \<^item> \<^theory_text>\<open>Normalize\<close>, \<^theory_text>\<open>Normalize_Safety\<close>: \<^verbatim>\<open>normalize/*.go\<close>; the allowlist as noninterference, bounds of
    the labels, accounting of records.
  \<^item> \<^theory_text>\<open>Noise_Filter\<close>: \<^verbatim>\<open>filter/*.go\<close>; the state is the pending rollups; conservation of tokens over any
    sequence of operations.
  \<^item> \<^theory_text>\<open>Sql_Queue\<close>, \<^theory_text>\<open>Queue_Safety\<close>: \<^verbatim>\<open>queue/queue.go\<close>, \<^verbatim>\<open>queue/metrics.go\<close>; a table is a list of rows,
    a method the sequence of its SQL statements, each of which may fail; the invariant of a table,
    exclusive leases, order and accounting of eviction, enqueueing whole batches.
  \<^item> \<^theory_text>\<open>Queue_Schema\<close>, \<^theory_text>\<open>Schema_Safety\<close>: the opening of the database in \<^verbatim>\<open>queue/queue.go\<close> and its
    migration; a catalogue of tables with columns and rows, changed by the DDL statements one at a time,
    each of which may fail. Every opening that fails part way is repaired by the next one. Also the rest of
    \<^verbatim>\<open>queue.go\<close>: the health check, counts, the size of the file and the texts of the updates.
  \<^item> \<^theory_text>\<open>Session_Queue\<close>, \<^theory_text>\<open>Session_Safety\<close>: \<^verbatim>\<open>queue/sessions.go\<close>; merging of summaries and acknowledgement
    by revision.
  \<^item> \<^theory_text>\<open>Delivery\<close>: the locale \<^theory_text>\<open>delivery_queue\<close>, what a drainer relies on; interpreted as
    \<^theory_text>\<open>event_queue\<close>, \<^theory_text>\<open>metric_queue\<close> and \<^theory_text>\<open>session_queue\<close> on the model's operations.
  \<^item> \<^theory_text>\<open>Ledger\<close>: the abstract specification of the event queue, entries to be delivered and delivered ones
    with no rows, states, leases or time, and the refinement: every run of the queue is a run of the
    ledger.
  \<^item> \<^theory_text>\<open>Api_Client\<close>: \<^verbatim>\<open>api/client.go\<close>, \<^verbatim>\<open>device.go\<close>, \<^verbatim>\<open>inventory.go\<close>; attempts, classification of replies,
    retries, back-off and the gzip latch.
  \<^item> \<^theory_text>\<open>Api_Wire\<close>: the \<^verbatim>\<open>json\<close> tags of \<^verbatim>\<open>event.go\<close>, \<^verbatim>\<open>metric.go\<close>, \<^verbatim>\<open>session.go\<close>, \<^verbatim>\<open>inventory.go\<close> as encoders and decoders,
    the bodies and the HTTP requests of the client; what the queues keep is what the backend reads, and the key
    goes to the ingest endpoints only.
  \<^item> \<^theory_text>\<open>Config_Store\<close>, \<^theory_text>\<open>Cred_Store\<close>: \<^verbatim>\<open>config/*.go\<close> and \<^verbatim>\<open>credstore/*.go\<close>; the JSON form with unknown
    fields, the atomic save, keys in the keychain with a verified write.
  \<^item> \<^theory_text>\<open>Runtime\<close>, \<^theory_text>\<open>Runtime_Safety\<close>: \<^verbatim>\<open>config.Dir\<close> and the paths under it, \<^verbatim>\<open>credstore.Open\<close>,
    \<^verbatim>\<open>keychain_darwin.go\<close>, \<^verbatim>\<open>backend.go\<close>, \<^verbatim>\<open>daemon/logging.go\<close>, \<^verbatim>\<open>platform/open.go\<close>, \<^verbatim>\<open>version.go\<close>, the exit status
    of \<^verbatim>\<open>main.go\<close>; the interface of a credential backend as the locale \<^theory_text>\<open>credential_backend\<close>, interpreted on the
    file backend and on the keychain backend over the keychain that \<^theory_text>\<open>Cred_Store\<close> assumes; and the isolation of a
    process with \<^verbatim>\<open>BURNDOWN_CONFIG_DIR\<close>.
  \<^item> \<^theory_text>\<open>Uploader\<close> with \<^theory_text>\<open>Uploader_Safety\<close>, \<^theory_text>\<open>Uploader_Props\<close>, \<^theory_text>\<open>Lease_Safety\<close>, \<^theory_text>\<open>Inventory_Safety\<close>:
    \<^verbatim>\<open>uploader/*.go\<close>; delivery at least once, termination of a cycle, degraded mode, key
    verification, back-off, released leases, inventory consent.
  \<^item> \<^theory_text>\<open>Uploader_Run\<close>, \<^theory_text>\<open>Run_Safety\<close>: \<open>Run\<close> and \<open>runInventory\<close> as a step relation of two program counters, the
    timer loop and the inventory worker, that share the uploader, the trigger channel and the lock of the
    configuration; an invariant of every reachable state, consent and wake-ups in every interleaving, and a
    way to the end from everywhere. The steps of the worker alone are \<open>syncInventory\<close> of \<^theory_text>\<open>Uploader\<close>
    (\<open>worker_alone\<close>), as those of the loop alone are \<open>runCycle\<close>.
  \<^item> \<^theory_text>\<open>Codex_Repo\<close>, \<^theory_text>\<open>Codex_Safety\<close>: \<^verbatim>\<open>codexrepo/*.go\<close>; labels, keys, and the caches against an uncached
    reading.
  \<^item> \<^theory_text>\<open>Receiver\<close>: \<^verbatim>\<open>receiver/receiver.go\<close>; the guards and the answers.
  \<^item> \<^theory_text>\<open>Daemon\<close>, \<^theory_text>\<open>Daemon_Safety\<close>: \<^verbatim>\<open>daemon/daemon.go\<close>, \<^verbatim>\<open>daemon/run.go\<close>; the composition.
  \<^item> \<^theory_text>\<open>Setup\<close>, \<^theory_text>\<open>Setup_Codex\<close>: \<^verbatim>\<open>setup/setup.go\<close>, \<^verbatim>\<open>claude.go\<close>, \<^verbatim>\<open>codex.go\<close>; the merge of Claude's
    \<^verbatim>\<open>settings.json\<close> and the line editor of Codex's \<^verbatim>\<open>config.toml\<close>. \<^theory_text>\<open>Toml_Lines\<close>, \<^theory_text>\<open>Toml_Edits\<close> and
    \<^theory_text>\<open>Toml_Steps\<close> read a text as a preamble and a list of tables and say what each edit does to it;
    \<^theory_text>\<open>Setup_Safety\<close> has the confinement and convergence of the edits and the safety of the backups.
  \<^item> \<^theory_text>\<open>Setup_Cmd\<close>, \<^theory_text>\<open>Setup_Cmd_Safety\<close>: \<^verbatim>\<open>setup/token.go\<close> and the command of
    \<^verbatim>\<open>cmd/burndown-cli/setup.go\<close>, \<^verbatim>\<open>port.go\<close>; consent, secrecy of the output, stability of the token.
  \<^item> \<^theory_text>\<open>Login\<close>, \<^theory_text>\<open>Login_Safety\<close>: \<^verbatim>\<open>cmd/burndown-cli/login.go\<close>; the device-code poll ends within the grant, nothing
    is persisted before every step has succeeded, what is persisted, and the state no login can repair.
  \<^item> \<^theory_text>\<open>Discovery\<close>, \<^theory_text>\<open>Discovery_Safety\<close>: \<^verbatim>\<open>inventory/discover.go\<close>; the walk of a directory tree with its
    limits, the texts that may leave the machine, well-formed snapshots with keys that do not depend
    on the order of maps.
  \<^item> \<^theory_text>\<open>Doctor\<close>, \<^theory_text>\<open>Doctor_Safety\<close>: \<^verbatim>\<open>doctor/*.go\<close>, \<^verbatim>\<open>version/release.go\<close>, \<^verbatim>\<open>cmd/burndown-cli/doctor.go\<close>; what
    an exit code of zero means, the verdict on the key's expiry, and the checks against what \<open>setup\<close>
    does.
  \<^item> \<^theory_text>\<open>Service\<close>, \<^theory_text>\<open>Service_Safety\<close>, \<^theory_text>\<open>Plist_Safety\<close>: \<^verbatim>\<open>platform/*.go\<close>, \<^verbatim>\<open>cmd/burndown-cli/service.go\<close>; the
    interface \<open>Service\<close> as a record of methods with its contract, the locale \<^theory_text>\<open>service_contract\<close>,
    interpreted as \<^theory_text>\<open>launchd\<close> and \<^theory_text>\<open>scm\<close> on the two backends; commands tell the truth, and the property
    list reads back as written.
  \<^item> \<^theory_text>\<open>Stats\<close>, \<^theory_text>\<open>Stats_Safety\<close>: \<^verbatim>\<open>queue/stats.go\<close>, \<^verbatim>\<open>cmd/burndown-cli/stats.go\<close>; the two queries, the window
    and the totals, which add up.
  \<^item> \<^theory_text>\<open>Stats_Text\<close>: the text form of \<^verbatim>\<open>cmd/burndown-cli/stats.go\<close>; four decimals of a binary64 to the nearest
    ten-thousandth, the tables of \<open>text/tabwriter\<close>, whose cells all stand at the column of their header.
  \<^item> \<^theory_text>\<open>Status_Cmd\<close>, \<^theory_text>\<open>Status_Safety\<close>: \<^verbatim>\<open>cmd/burndown-cli/status.go\<close>; secrecy of the report, and the key's expiry as
    \<open>status\<close> and the doctor see it.
  \<^item> \<^theory_text>\<open>Serve_Cmd\<close>, \<^theory_text>\<open>Serve_Safety\<close>: \<^verbatim>\<open>cmd/burndown-cli/serve.go\<close>, \<^verbatim>\<open>sendtest.go\<close>, \<^verbatim>\<open>health.go\<close>; the test event
    through receiver, normaliser, filter and queue.
  \<^item> \<^theory_text>\<open>Cli\<close>: \<^verbatim>\<open>cmd/burndown-cli/main.go\<close> and the declarations of the commands: the tree with its flags and their
    defaults, what each \<open>RunE\<close> calls with which arguments, and the reading of a line at a prompt. No two commands
    share a path, and no flag takes a secret.

  \<^bold>\<open>Conventions.\<close> A Go struct is a record, an error a constructor of an error type in a sum, a map a
  HOL map or, where its content is iterated, an association list whose order is an argument. What
  is not in the repository (network, file system, keychain, clock, SQLite's ids and file size,
  git, JSON readings of texts, hashes) is an environment: a record of oracles, indexed by a step
  counter where two uses may differ. Any oracle is allowed unless a theorem names a hypothesis.

  \<^bold>\<open>Loops.\<close> The retry loop runs over the three back-offs of the source. The flush loops are
  \<^theory_text>\<open>partial_function\<close>s, and a theorem shows they return for every environment whose updates are
  written; the eviction loop has the table's length as its measure. The parameter loop of
  \<^theory_text>\<open>ParseMediaType\<close> has the length of its text as fuel, which suffices because each round consumes a
  character. The poll of \<open>login\<close> is a \<^theory_text>\<open>partial_function\<close>; a theorem shows it returns. Retention runs for any number of ticks.

  \<^bold>\<open>Granularity.\<close> A method that holds a mutex for its whole body is one step. Handlers of the
  receiver and cycles of the uploader are sequences of such steps. In \<^theory_text>\<open>Uploader\<close> the inventory worker is cut
  at its locks and the other goroutine's effect in between is an argument; \<^theory_text>\<open>Uploader_Run\<close> has the two
  goroutines themselves.

  \<^bold>\<open>Not modelled.\<close> How the flag library splits a command line and prints its help, what the log writer does
  with its settings, contexts and timeouts other than the client's and those of \<open>Run\<close>, log records, signals, the
  file format of SQLite, and the calls of the OS service managers and keychains themselves, which are
  environments.
\<close>

end
